(* ===== verification/Prelude.thy ===== *)
theory Prelude
  imports Complex_Main "HOL-Library.Monad_Syntax"
begin

text \<open>
  Shared vocabulary of the development: the collections of rewrite rules the components fill,
  Go strings and times, error results, and the few list operations that stand for SQL statements
  (\<open>upd_where\<close> for UPDATE ... WHERE, \<open>find_by\<close> for a SELECT by key, \<open>limit_rows\<close> for LIMIT),
  with the lemmas the components share.
\<close>

named_theorems go_defs \<comment> \<open>definitions of pure helpers, unfolded in most proofs\<close>
named_theorems sql_simps \<comment> \<open>rewrite rules for the table operations\<close>

subsection \<open>Results\<close>

text \<open>\<open>x, err := f(); if err != nil { return err }; rest\<close>\<close>

definition and_then :: "'e + 'a \<Rightarrow> ('a \<Rightarrow> 'e + 'b) \<Rightarrow> 'e + 'b" where
  "and_then r f = (case r of Inl e \<Rightarrow> Inl e | Inr x \<Rightarrow> f x)"

lemma and_then_simps [simp]: "and_then (Inl e) f = Inl e" "and_then (Inr x) f = f x"
  by (simp_all add: and_then_def)

lemma and_then_Inr: "and_then r f = Inr y \<longleftrightarrow> (\<exists>x. r = Inr x \<and> f x = Inr y)"
  by (cases r) simp_all

lemma and_then_Inl: "and_then r f = Inl e \<longleftrightarrow> r = Inl e \<or> (\<exists>x. r = Inr x \<and> f x = Inl e)"
  by (cases r) simp_all

subsection \<open>Times\<close>

text \<open>A \<open>time.Time\<close> is its UTC instant in nanoseconds since the Unix epoch, a
  \<open>time.Duration\<close> a number of nanoseconds. The zero time is 1 January of year 1.\<close>

type_synonym time = int
type_synonym duration = int

definition zero_time :: time where
  "zero_time = - 62135596800 * 1000000000"

definition Second :: duration where "Second = 1000000000"
definition Millisecond :: duration where "Millisecond = 1000000"
definition Minute :: duration where "Minute = 60 * 1000000000"

subsection \<open>Strings\<close>

text \<open>\<open>strings.ToUpper\<close> and \<open>strings.TrimSpace\<close> on ASCII text; bytes outside ASCII are left as
  they are.\<close>

definition upper_char :: "char \<Rightarrow> char" where
  "upper_char c = (let n = of_char c :: int in
     if 97 \<le> n \<and> n \<le> 122 then char_of (n - 32) else c)"

definition to_upper :: "string \<Rightarrow> string" where
  "to_upper s = map upper_char s"

definition is_space :: "char \<Rightarrow> bool" where
  "is_space c = (let n = of_char c :: int in n = 32 \<or> (9 \<le> n \<and> n \<le> 13))"

definition trim_space :: "string \<Rightarrow> string" where
  "trim_space s = rev (dropWhile is_space (rev (dropWhile is_space s)))"

lemma of_char_upper:
  assumes "97 \<le> (of_char c :: int)" "(of_char c :: int) \<le> 122"
  shows "of_char (upper_char c) = (of_char c :: int) - 32"
  using assms by (simp add: upper_char_def of_char_of mod_pos_pos_trivial)

lemma upper_char_other:
  assumes "\<not> (97 \<le> (of_char c :: int) \<and> (of_char c :: int) \<le> 122)" shows "upper_char c = c"
  using assms by (auto simp: upper_char_def Let_def)

lemma upper_char_idem [simp]: "upper_char (upper_char c) = upper_char c"
proof (cases "97 \<le> (of_char c :: int) \<and> (of_char c :: int) \<le> 122")
  case True
  then show ?thesis using of_char_upper [of c] by (intro upper_char_other) linarith
next
  case False
  then show ?thesis by (simp add: upper_char_other)
qed

lemma to_upper_idem [simp]: "to_upper (to_upper s) = to_upper s"
  by (simp add: to_upper_def)

lemma dropWhile_idem: "dropWhile P (dropWhile P xs) = dropWhile P xs"
  by (induction xs) auto

lemma trim_space_first:
  assumes "trim_space s = c # t" shows "\<not> is_space c"
proof -
  let ?d = "dropWhile is_space s"
  have "\<exists>zs. rev ?d = zs @ dropWhile is_space (rev ?d)"
    by (metis takeWhile_dropWhile_id)
  then obtain zs where "rev ?d = zs @ dropWhile is_space (rev ?d)" by blast
  then have "?d = trim_space s @ rev zs"
    unfolding trim_space_def by (metis rev_append rev_rev_ident)
  then have "?d = c # (t @ rev zs)" using assms by simp
  then show ?thesis using hd_dropWhile [of is_space s] by (metis list.distinct(1) list.sel(1))
qed

lemma trim_space_empty [simp]: "trim_space [] = []"
  by (simp add: trim_space_def)

lemma trim_space_idem [simp]: "trim_space (trim_space s) = trim_space s"
proof (cases "trim_space s")
  case Nil
  show ?thesis unfolding Nil by simp
next
  case (Cons c t)
  then have "dropWhile is_space (trim_space s) = trim_space s" using trim_space_first by simp
  then have "trim_space (trim_space s) = rev (dropWhile is_space (rev (trim_space s)))"
    by (simp add: trim_space_def)
  also have "\<dots> = trim_space s" by (simp add: trim_space_def dropWhile_idem)
  finally show ?thesis .
qed

subsection \<open>JSON values\<close>

text \<open>What \<open>json.Unmarshal\<close> decodes into an \<open>any\<close>: numbers are float64 values, an object lists its
  members in the order of the text.\<close>

datatype json = JNull | JBool bool | JNum rat | JStr string | JArr "json list" | JObj "(string \<times> json) list"

subsection \<open>Table operations\<close>

text \<open>A table is a list of rows in insertion order.\<close>

definition coalesce :: "'a option \<Rightarrow> 'a \<Rightarrow> 'a" where
  "coalesce c v = (case c of None \<Rightarrow> v | Some x \<Rightarrow> x)"

lemma coalesce_simps [simp]: "coalesce None v = v" "coalesce (Some x) v = x"
  by (simp_all add: coalesce_def)

definition upd_where :: "('r \<Rightarrow> bool) \<Rightarrow> ('r \<Rightarrow> 'r) \<Rightarrow> 'r list \<Rightarrow> 'r list" where
  "upd_where P f rs = map (\<lambda>r. if P r then f r else r) rs"

definition rows_affected :: "('r \<Rightarrow> bool) \<Rightarrow> 'r list \<Rightarrow> nat" where
  "rows_affected P rs = length (filter P rs)"

definition find_by :: "('r \<Rightarrow> 'k) \<Rightarrow> 'k \<Rightarrow> 'r list \<Rightarrow> 'r option" where
  "find_by key k rs = List.find (\<lambda>r. key r = k) rs"

lemma upd_where_Nil [sql_simps]: "upd_where P f [] = []"
  by (simp add: upd_where_def)

lemma upd_where_Cons [sql_simps]:
  "upd_where P f (r # rs) = (if P r then f r else r) # upd_where P f rs"
  by (simp add: upd_where_def)

lemma length_upd_where [simp]: "length (upd_where P f rs) = length rs"
  by (simp add: upd_where_def)

lemma map_upd_where:
  "(\<And>r. r \<in> set rs \<Longrightarrow> P r \<Longrightarrow> key (f r) = key r) \<Longrightarrow> map key (upd_where P f rs) = map key rs"
  by (induction rs) (auto simp: upd_where_def)

lemma in_upd_whereE:
  assumes "r \<in> set (upd_where P f rs)"
  obtains r0 where "r0 \<in> set rs" "P r0" "r = f r0" | "r \<in> set rs" "\<not> P r"
  using assms by (auto simp: upd_where_def split: if_splits)

lemma upd_where_id: "(\<And>r. r \<in> set rs \<Longrightarrow> \<not> P r) \<Longrightarrow> upd_where P f rs = rs"
  by (induction rs) (auto simp: upd_where_def)

lemma ball_upd_where:
  assumes "\<forall>r\<in>set rs. Q r" and "\<And>r. r \<in> set rs \<Longrightarrow> P r \<Longrightarrow> Q r \<Longrightarrow> Q (f r)"
  shows "\<forall>r\<in>set (upd_where P f rs). Q r"
  using assms by (auto elim!: in_upd_whereE)

lemma find_by_Nil [sql_simps]: "find_by key k [] = None"
  by (simp add: find_by_def)

lemma find_by_Cons [sql_simps]:
  "find_by key k (r # rs) = (if key r = k then Some r else find_by key k rs)"
  by (simp add: find_by_def)

lemma find_by_Some: "find_by key k rs = Some r \<Longrightarrow> r \<in> set rs \<and> key r = k"
  by (induction rs) (auto simp: sql_simps split: if_splits)

lemma find_by_None_iff: "find_by key k rs = None \<longleftrightarrow> k \<notin> key ` set rs"
  by (induction rs) (auto simp: sql_simps)

lemma find_by_unique:
  "distinct (map key rs) \<Longrightarrow> r \<in> set rs \<Longrightarrow> find_by key (key r) rs = Some r"
  by (induction rs) (auto simp: sql_simps image_iff)

lemma find_by_append:
  "find_by key k (xs @ ys) = (case find_by key k xs of None \<Rightarrow> find_by key k ys | Some r \<Rightarrow> Some r)"
  by (induction xs) (auto simp: sql_simps)

text \<open>An UPDATE that keeps the keys acts on the row found under a key.\<close>

lemma find_by_upd_where:
  "(\<And>r. key (f r) = key r) \<Longrightarrow>
   find_by key k (upd_where P f rs) = map_option (\<lambda>r. if P r then f r else r) (find_by key k rs)"
  by (induction rs) (auto simp: sql_simps)

text \<open>INSERT ... ON CONFLICT (key) DO UPDATE, read back by key.\<close>

lemma find_by_upsert:
  assumes "\<And>r. key (f r) = key r"
  shows "find_by key k (if key row \<in> key ` set rs then upd_where (\<lambda>p. key p = key row) f rs else rs @ [row]) =
    (if k = key row then Some (case find_by key k rs of None \<Rightarrow> row | Some r \<Rightarrow> f r) else find_by key k rs)"
proof (cases "find_by key k rs")
  case None
  then show ?thesis
    using find_by_None_iff [of key k rs] by (auto simp: find_by_upd_where [where key = key, OF assms] find_by_append sql_simps)
next
  case (Some r)
  then show ?thesis
    using find_by_Some [OF Some] by (auto simp: find_by_upd_where [where key = key, OF assms] find_by_append image_iff)
qed

text \<open>\<open>LIMIT n\<close>; a negative limit is an error in SQL and never reaches a query of the source.\<close>

definition limit_rows :: "int \<Rightarrow> 'r list \<Rightarrow> 'r list" where
  "limit_rows n rs = take (nat n) rs"

lemma set_limit_rows: "set (limit_rows n rs) \<subseteq> set rs"
  by (simp add: limit_rows_def set_take_subset)

lemma length_limit_rows: "length (limit_rows n rs) \<le> nat n"
  by (simp add: limit_rows_def)

subsection \<open>Folding a fallible step over a list\<close>

text \<open>\<open>for _, x := range xs { if err := step(x); err != nil { return err } }\<close>\<close>

fun fold_steps :: "('x \<Rightarrow> 's \<Rightarrow> 'e + 's) \<Rightarrow> 'x list \<Rightarrow> 's \<Rightarrow> 'e + 's" where
  "fold_steps f [] s = Inr s"
| "fold_steps f (x # xs) s = and_then (f x s) (fold_steps f xs)"

lemma fold_steps_append:
  "fold_steps f (xs @ ys) s = and_then (fold_steps f xs s) (fold_steps f ys)"
  by (induction xs arbitrary: s) (auto simp: and_then_def split: sum.splits)

lemma fold_steps_invariant:
  assumes step: "\<And>x s s'. x \<in> set xs \<Longrightarrow> I s \<Longrightarrow> f x s = Inr s' \<Longrightarrow> I s'"
    and "I s" "fold_steps f xs s = Inr s'"
  shows "I s'"
  using assms
proof (induction xs arbitrary: s)
  case Nil
  then show ?case by simp
next
  case (Cons x xs)
  then obtain t where t: "f x s = Inr t" "fold_steps f xs t = Inr s'"
    by (auto simp: and_then_Inr)
  from Cons.prems(1) [OF _ Cons.prems(2) t(1)] have "I t" by simp
  then show ?case using Cons.IH [OF _ _ t(2)] Cons.prems(1) by auto
qed

end
