(* ===== verification/GoFloat.thy ===== *)
theory GoFloat
  imports Prelude "HOL-Library.Log_Nat"
begin

text \<open>
  Go's \<open>float64\<close> and PostgreSQL's \<open>NUMERIC\<close>. A finite \<open>float64\<close> is the rational
  number it stands for, and every float operation of the code is the exact rational operation
  followed by \<open>fl64\<close>, the IEEE-754 rounding to the nearest binary64 value, ties to even
  (53-bit significand, gradual underflow at 2^-1074). Infinities and NaN are outside the model:
  JSON numbers and NUMERIC columns, the only sources of the services' floats, never hold them,
  and magnitudes from 2^1024 on are not reached. \<open>shortest\<close> is the decimal that
  \<open>strconv.FormatFloat(x, 'f', -1, 64)\<close> prints; it is also what the database driver sends
  for a float parameter of a NUMERIC column. Reading a NUMERIC as \<open>float8\<close> is \<open>fl64\<close>.
\<close>

type_synonym float64 = rat
type_synonym numeric = rat

subsection \<open>Rounding operators\<close>

text \<open>
  What the components use of a rounding: it is monotone, idempotent, fixes zero and commutes
  with negation. Both the float rounding and the decimal roundings are instances.
\<close>

locale rounding =
  fixes rnd :: "rat \<Rightarrow> rat"
  assumes rnd_mono: "x \<le> y \<Longrightarrow> rnd x \<le> rnd y"
    and rnd_idem: "rnd (rnd x) = rnd x"
    and rnd_minus: "rnd (- x) = - rnd x"
begin

lemma rnd_zero: "rnd 0 = 0"
  using rnd_minus [of 0] by simp

lemma rnd_nonneg: "0 \<le> x \<Longrightarrow> 0 \<le> rnd x"
  using rnd_mono [of 0 x] by (simp add: rnd_zero)

lemma rnd_nonpos: "x \<le> 0 \<Longrightarrow> rnd x \<le> 0"
  using rnd_mono [of x 0] by (simp add: rnd_zero)

lemma rnd_between:
  assumes "rnd lo = lo" "rnd hi = hi" "lo \<le> x" "x \<le> hi"
  shows "lo \<le> rnd x \<and> rnd x \<le> hi"
  using rnd_mono [OF assms(3)] rnd_mono [OF assms(4)] assms(1,2) by simp

lemma rnd_pos_imp_pos: "0 < rnd x \<Longrightarrow> 0 < x"
  using rnd_nonpos [of x] by (cases "0 < x") auto

lemma rnd_less_imp_less: "rnd x < rnd y \<Longrightarrow> x < y"
  using rnd_mono [of y x] by (cases "x < y") auto

end

subsection \<open>Round half to even\<close>

definition rne :: "rat \<Rightarrow> int" where
  "rne y = (let f = \<lfloor>y\<rfloor>; r = y - of_int f in
     if r < 1/2 then f else if 1/2 < r then f + 1 else if even f then f else f + 1)"

lemma rne_of_int [simp]: "rne (of_int n) = n"
  by (simp add: rne_def)

lemma rne_bounds: "\<lfloor>y\<rfloor> \<le> rne y \<and> rne y \<le> \<lfloor>y\<rfloor> + 1"
  by (simp add: rne_def Let_def)

lemma rne_same_floor:
  assumes "x \<le> y" and fl: "\<lfloor>x\<rfloor> = \<lfloor>y\<rfloor>"
  shows "rne x \<le> rne y"
proof -
  have r: "x - of_int \<lfloor>y\<rfloor> \<le> y - of_int \<lfloor>y\<rfloor>" using assms(1) by simp
  show ?thesis using r unfolding rne_def Let_def fl by (simp split: if_splits)
qed

lemma rne_mono: assumes "x \<le> y" shows "rne x \<le> rne y"
proof (cases "\<lfloor>x\<rfloor> = \<lfloor>y\<rfloor>")
  case True
  with assms show ?thesis by (rule rne_same_floor)
next
  case False
  with floor_mono [OF assms] have "\<lfloor>x\<rfloor> + 1 \<le> \<lfloor>y\<rfloor>" by simp
  with rne_bounds [of x] rne_bounds [of y] show ?thesis by linarith
qed

lemma rne_minus: "rne (- y) = - rne y"
proof (cases "y = of_int \<lfloor>y\<rfloor>")
  case True
  then have "rne (- y) = rne (of_int (- \<lfloor>y\<rfloor>))" by simp
  also have "\<dots> = - rne y" by (subst (2) True) (simp only: rne_of_int)
  finally show ?thesis .
next
  case False
  have lt: "of_int \<lfloor>y\<rfloor> < y" using False of_int_floor_le [of y] by linarith
  have fm: "\<lfloor>- y\<rfloor> = - \<lfloor>y\<rfloor> - 1"
    using lt floor_correct [of y] by (intro floor_unique) auto
  show ?thesis unfolding rne_def Let_def fm by (auto simp: field_simps)
qed

lemma rne_error: "\<bar>y - of_int (rne y)\<bar> \<le> 1/2"
proof -
  define r where "r = y - of_int \<lfloor>y\<rfloor>"
  have y: "y = of_int \<lfloor>y\<rfloor> + r" by (simp add: r_def)
  have r: "0 \<le> r" "r < 1" using floor_correct [of y] by (simp_all add: r_def)
  have "rne y = \<lfloor>y\<rfloor> \<and> r \<le> 1/2 \<or> rne y = \<lfloor>y\<rfloor> + 1 \<and> 1/2 \<le> r"
    unfolding rne_def Let_def r_def [symmetric] by auto
  then have "y - of_int (rne y) = r \<and> r \<le> 1/2 \<or> y - of_int (rne y) = r - 1 \<and> 1/2 \<le> r"
    by (auto simp: r_def)
  then show ?thesis using r by (auto simp: abs_le_iff)
qed

subsection \<open>Binary exponent\<close>

text \<open>The floor of the binary logarithm of a positive rational, from the bit lengths of its
  numerator and denominator.\<close>

definition ilog2 :: "rat \<Rightarrow> int" where
  "ilog2 x = (let (n, d) = quotient_of x; e = bitlen n - bitlen d
     in if 2 powi e \<le> x then e else e - 1)"

lemma bitlen_powi:
  assumes "0 < n"
  shows "2 powi (bitlen n - 1) \<le> (of_int n :: rat) \<and> (of_int n :: rat) < 2 powi (bitlen n)"
proof -
  have b: "2 ^ nat (bitlen n - 1) \<le> n" "n < 2 ^ nat (bitlen n)"
    using bitlen_bounds [OF assms] by auto
  have p: "1 \<le> bitlen n"
    using assms bitlen_nonneg [of n] bitlen_eq_zero_iff [of n] by linarith
  have "2 powi (bitlen n - 1) = (of_int (2 ^ nat (bitlen n - 1)) :: rat)"
    using p by (simp add: power_int_nonneg_exp)
  moreover have "2 powi (bitlen n) = (of_int (2 ^ nat (bitlen n)) :: rat)"
    using p by (simp add: power_int_nonneg_exp)
  ultimately show ?thesis using b by (simp only: of_int_le_iff of_int_less_iff)
qed

lemma ilog2_bounds:
  assumes "0 < x"
  shows "2 powi (ilog2 x) \<le> x \<and> x < 2 powi (ilog2 x + 1)"
proof -
  obtain n d where q: "quotient_of x = (n, d)" by (cases "quotient_of x")
  have d: "0 < d" using quotient_of_denom_pos [OF q] .
  have x: "x = of_int n / of_int d" using quotient_of_div [OF q] .
  have n: "0 < n" using assms d by (simp add: x zero_less_divide_iff)
  let ?e = "bitlen n - bitlen d"
  note bn = bitlen_powi [OF n] and bd = bitlen_powi [OF d]
  have dp: "(0 :: rat) < of_int d" using d by simp
  have up: "x < 2 powi (?e + 1)"
  proof -
    have "(of_int n :: rat) < 2 powi (bitlen n)" using bn by simp
    also have "\<dots> = 2 powi (?e + 1) * 2 powi (bitlen d - 1)"
      by (simp add: power_int_add [symmetric])
    also have "\<dots> \<le> 2 powi (?e + 1) * of_int d"
      using bd by (intro mult_left_mono) auto
    finally show ?thesis using dp by (simp add: x divide_less_eq)
  qed
  have lo: "2 powi (?e - 1) \<le> x"
  proof -
    have "2 powi (?e - 1) * (of_int d :: rat) \<le> 2 powi (?e - 1) * 2 powi (bitlen d)"
      using bd by (intro mult_left_mono) auto
    also have "\<dots> = 2 powi (bitlen n - 1)"
      by (simp add: power_int_add [symmetric])
    also have "\<dots> \<le> of_int n" using bn by simp
    finally show ?thesis using dp by (simp add: x le_divide_eq)
  qed
  show ?thesis using up lo by (auto simp: ilog2_def q Let_def)
qed

lemma powi2_less_exp: "(2 :: rat) powi a < 2 powi b \<Longrightarrow> a < b"
  using power_int_increasing [of b a "2 :: rat"] by (cases "a < b") auto

lemma ilog2_unique:
  assumes "2 powi e \<le> x" "x < 2 powi (e + 1)"
  shows "ilog2 x = e"
proof -
  have "0 < x" using assms(1) by (meson less_le_trans zero_less_power_int zero_less_numeral)
  note b = ilog2_bounds [OF this]
  have "(2 :: rat) powi e < 2 powi (ilog2 x + 1)" using assms b by linarith
  then have "e < ilog2 x + 1" by (rule powi2_less_exp)
  moreover have "(2 :: rat) powi (ilog2 x) < 2 powi (e + 1)" using assms b by linarith
  then have "ilog2 x < e + 1" by (rule powi2_less_exp)
  ultimately show ?thesis by simp
qed

lemma ilog2_mono:
  assumes "0 < x" "x \<le> y"
  shows "ilog2 x \<le> ilog2 y"
proof -
  have "(2 :: rat) powi (ilog2 x) < 2 powi (ilog2 y + 1)"
    using ilog2_bounds [of x] ilog2_bounds [of y] assms by linarith
  then have "ilog2 x < ilog2 y + 1" by (rule powi2_less_exp)
  then show ?thesis by simp
qed

subsection \<open>Rounding to binary64\<close>

definition ulp_exp :: "rat \<Rightarrow> int" where
  "ulp_exp x = max (ilog2 \<bar>x\<bar> - 52) (- 1074)"

definition fl64 :: "rat \<Rightarrow> float64" where
  "fl64 x = (if x = 0 then 0 else of_int (rne (x / 2 powi (ulp_exp x))) * 2 powi (ulp_exp x))"

lemma fl64_zero [simp]: "fl64 0 = 0"
  by (simp add: fl64_def)

lemma fl64_minus: "fl64 (- x) = - fl64 x"
  by (simp add: fl64_def ulp_exp_def rne_minus flip: minus_divide_left)

lemma of_int_powi: "0 \<le> k \<Longrightarrow> of_int m * (2 :: rat) powi k = of_int (m * 2 ^ nat k)"
  by (simp add: power_int_nonneg_exp)

text \<open>Every product of a power of two from 2^-1074 on and an integer of at most 53 bits is a
  float64 value.\<close>

lemma fl64_exact:
  assumes k: "- 1074 \<le> k" and m: "\<bar>m\<bar> \<le> 2 ^ 53"
  shows "fl64 (of_int m * 2 powi k) = of_int m * 2 powi k"
proof (cases "m = 0")
  case True
  then show ?thesis by simp
next
  case False
  let ?y = "of_int m * 2 powi k :: rat" and ?u = "ulp_exp (of_int m * 2 powi k)"
  have y0: "?y \<noteq> 0" using False by simp
  have ay: "\<bar>?y\<bar> = of_int \<bar>m\<bar> * 2 powi k" by (simp add: abs_mult power_int_abs)
  have int: "\<exists>i. ?y / 2 powi ?u = of_int i"
  proof (cases "?u \<le> k")
    case True
    have "?y / 2 powi ?u = of_int m * 2 powi (k - ?u)" by (simp add: power_int_diff)
    also have "\<dots> = of_int (m * 2 ^ nat (k - ?u))" using True by (intro of_int_powi) simp
    finally show ?thesis by blast
  next
    case False
    then have u: "?u = ilog2 \<bar>?y\<bar> - 52" using k by (auto simp: ulp_exp_def max_def split: if_splits)
    have "(2 :: rat) powi (k + 53) \<le> 2 powi (ilog2 \<bar>?y\<bar>)"
      using False u by (intro power_int_increasing) auto
    also have "\<dots> \<le> \<bar>?y\<bar>" using ilog2_bounds [of "\<bar>?y\<bar>"] y0 by simp
    finally have "(2 :: rat) powi k * 2 ^ 53 \<le> of_int \<bar>m\<bar> * 2 powi k"
      unfolding ay by (simp add: power_int_add)
    then have "(2 :: rat) ^ 53 \<le> of_int \<bar>m\<bar>" by simp
    then have "(of_int (2 ^ 53) :: rat) \<le> of_int \<bar>m\<bar>" by simp
    then have "2 ^ 53 \<le> \<bar>m\<bar>" by (simp only: of_int_le_iff)
    with m have am: "\<bar>m\<bar> = 2 ^ 53" by simp
    have "\<bar>?y\<bar> = 2 powi (k + 53)" unfolding ay am by (simp add: power_int_add)
    then have "ilog2 \<bar>?y\<bar> = k + 53" by (intro ilog2_unique) (auto simp: power_int_add)
    then have uk: "?u = k + 1" using u by simp
    have "m = sgn m * 2 ^ 53" using am by (metis sgn_mult_abs)
    then have "?y / 2 powi ?u = of_int (sgn m * 2 ^ 52)"
      unfolding uk by (subst \<open>m = sgn m * 2 ^ 53\<close>) (simp add: power_int_add)
    then show ?thesis by blast
  qed
  then obtain i where i: "?y / 2 powi ?u = of_int i" by blast
  have "fl64 ?y = of_int (rne (?y / 2 powi ?u)) * 2 powi ?u" using y0 by (simp add: fl64_def)
  also have "\<dots> = ?y / 2 powi ?u * 2 powi ?u" by (simp only: i rne_of_int)
  also have "\<dots> = ?y" by simp
  finally show ?thesis .
qed


lemma fl64_form:
  obtains m k where "fl64 x = of_int m * 2 powi k" "- 1074 \<le> k" "\<bar>m\<bar> \<le> 2 ^ 53"
proof (cases "x = 0")
  case True
  then show ?thesis using that [of 0 0] by simp
next
  case False
  let ?u = "ulp_exp x"
  have "\<bar>x\<bar> < 2 powi (ilog2 \<bar>x\<bar> + 1)" using ilog2_bounds [of "\<bar>x\<bar>"] False by simp
  also have "\<dots> \<le> 2 powi (?u + 53)" by (intro power_int_increasing) (auto simp: ulp_exp_def)
  finally have b: "\<bar>x / 2 powi ?u\<bar> \<le> of_int (2 ^ 53)"
    by (simp add: abs_divide power_int_abs power_int_add divide_le_eq)
  then have "- of_int (2 ^ 53) \<le> x / 2 powi ?u" "x / 2 powi ?u \<le> of_int (2 ^ 53)"
    by (simp_all only: abs_le_iff minus_le_iff)
  from this [THEN rne_mono] have "- (2 ^ 53) \<le> rne (x / 2 powi ?u)" "rne (x / 2 powi ?u) \<le> 2 ^ 53"
    by (simp_all only: rne_minus rne_of_int)
  then show ?thesis using False by (intro that [of "rne (x / 2 powi ?u)" ?u])
      (simp_all add: fl64_def ulp_exp_def abs_le_iff)
qed

lemma fl64_idem: "fl64 (fl64 x) = fl64 x"
  by (metis fl64_form fl64_exact)

text \<open>A positive rational and the power of two below it: rounding does not leave the binade.\<close>

lemma fl64_pow2: "- 1074 \<le> e \<Longrightarrow> fl64 (2 powi e) = 2 powi e"
  using fl64_exact [of e 1] by simp

lemma fl64_mono_same_exp:
  assumes "x \<le> y" "x \<noteq> 0" "y \<noteq> 0" "ulp_exp x = ulp_exp y"
  shows "fl64 x \<le> fl64 y"
proof -
  have "x / 2 powi (ulp_exp y) \<le> y / 2 powi (ulp_exp y)"
    using assms(1) by (simp add: divide_right_mono)
  from rne_mono [OF this] show ?thesis
    using assms(2-4) by (simp add: fl64_def mult_right_mono)
qed

lemma fl64_below_pow2:
  assumes "0 < x" "x \<le> 2 powi e" "ulp_exp x \<le> e"
  shows "fl64 x \<le> 2 powi e"
proof -
  let ?u = "ulp_exp x"
  have eq: "(2 :: rat) powi e / 2 powi ?u = of_int (2 ^ nat (e - ?u))"
    using assms(3) of_int_powi [of "e - ?u" 1] by (simp add: power_int_diff)
  have "x / 2 powi ?u \<le> 2 powi e / 2 powi ?u" using assms(2) by (simp add: divide_right_mono)
  from rne_mono [OF this] have "rne (x / 2 powi ?u) \<le> 2 ^ nat (e - ?u)"
    by (simp only: eq rne_of_int)
  then have "(of_int (rne (x / 2 powi ?u)) :: rat) \<le> of_int (2 ^ nat (e - ?u))"
    by (simp only: of_int_le_iff)
  then have "of_int (rne (x / 2 powi ?u)) \<le> (2 :: rat) powi e / 2 powi ?u" by (simp only: eq)
  then show ?thesis using assms(1) by (simp add: fl64_def le_divide_eq)
qed

lemma fl64_above_pow2:
  assumes "2 powi e \<le> x" "ulp_exp x \<le> e"
  shows "2 powi e \<le> fl64 x"
proof -
  let ?u = "ulp_exp x"
  have x: "0 < x" using assms(1) by (meson less_le_trans zero_less_power_int zero_less_numeral)
  have eq: "(2 :: rat) powi e / 2 powi ?u = of_int (2 ^ nat (e - ?u))"
    using assms(2) of_int_powi [of "e - ?u" 1] by (simp add: power_int_diff)
  have "2 powi e / 2 powi ?u \<le> x / 2 powi ?u" using assms(1) by (simp add: divide_right_mono)
  from rne_mono [OF this] have "2 ^ nat (e - ?u) \<le> rne (x / 2 powi ?u)"
    by (simp only: eq rne_of_int)
  then have "(of_int (2 ^ nat (e - ?u)) :: rat) \<le> of_int (rne (x / 2 powi ?u))"
    by (simp only: of_int_le_iff)
  then have "(2 :: rat) powi e / 2 powi ?u \<le> of_int (rne (x / 2 powi ?u))" by (simp only: eq)
  then show ?thesis using x by (simp add: fl64_def divide_le_eq)
qed

lemma fl64_mono_pos:
  assumes "0 < x" "x \<le> y"
  shows "fl64 x \<le> fl64 y"
proof (cases "ulp_exp x = ulp_exp y")
  case True
  with assms show ?thesis by (intro fl64_mono_same_exp) auto
next
  case False
  let ?e = "ilog2 y"
  have le: "ilog2 x \<le> ?e" using assms by (intro ilog2_mono)
  then have lt: "ilog2 x < ?e" "- 1022 < ?e" using False assms by (auto simp: ulp_exp_def)
  have "x < 2 powi (ilog2 x + 1)" using ilog2_bounds assms(1) by blast
  also have "\<dots> \<le> 2 powi ?e" using lt by (intro power_int_increasing) auto
  finally have "fl64 x \<le> 2 powi ?e"
    using assms lt by (intro fl64_below_pow2) (auto simp: ulp_exp_def)
  also have "\<dots> \<le> fl64 y"
    using assms lt ilog2_bounds [of y] by (intro fl64_above_pow2) (auto simp: ulp_exp_def)
  finally show ?thesis .
qed

lemma fl64_nonneg: assumes "0 \<le> x" shows "0 \<le> fl64 x"
proof -
  have "rne 0 \<le> rne (x / 2 powi (ulp_exp x))" using assms by (intro rne_mono) simp
  moreover have "rne 0 = 0" using rne_of_int [of 0] by simp
  ultimately show ?thesis by (simp add: fl64_def)
qed

lemma fl64_mono: assumes "x \<le> y" shows "fl64 x \<le> fl64 y"
proof -
  consider "0 < x" | "x \<le> 0" "0 \<le> y" | "y < 0" by linarith
  then show ?thesis
  proof cases
    case 1
    then show ?thesis using assms by (rule fl64_mono_pos)
  next
    case 2
    then have "0 \<le> fl64 (- x)" "0 \<le> fl64 y" by (simp_all add: fl64_nonneg)
    then show ?thesis by (simp add: fl64_minus)
  next
    case 3
    then have "fl64 (- y) \<le> fl64 (- x)" using assms by (intro fl64_mono_pos) auto
    then show ?thesis by (simp add: fl64_minus)
  qed
qed

interpretation f64: rounding fl64
  by unfold_locales (simp_all add: fl64_mono fl64_idem fl64_minus)

subsection \<open>Float values\<close>

definition is_f64 :: "rat \<Rightarrow> bool" where
  "is_f64 x = (fl64 x = x)"

lemma is_f64_fl64 [simp]: "is_f64 (fl64 x)"
  by (simp add: is_f64_def fl64_idem)

lemma fl64_id: "is_f64 x \<Longrightarrow> fl64 x = x"
  by (simp add: is_f64_def)

lemma is_f64_zero [simp]: "is_f64 0"
  by (simp add: is_f64_def)

lemma is_f64_int: "\<bar>n\<bar> \<le> 2 ^ 53 \<Longrightarrow> is_f64 (of_int n)"
  using fl64_exact [of 0 n] by (simp add: is_f64_def)

lemma fl64_numeral [simp]: "numeral n \<le> (2 ^ 53 :: int) \<Longrightarrow> fl64 (numeral n) = numeral n"
  using is_f64_int [of "numeral n"] by (simp add: is_f64_def)

lemma fl64_one [simp]: "fl64 1 = 1"
  using is_f64_int [of 1] by (simp add: is_f64_def)

text \<open>Gradual underflow: two different float values have a non-zero float difference, so a test
  \<open>a - b == 0\<close> on floats decides equality.\<close>

lemma f64_on_grid: assumes "is_f64 x" obtains i where "x = of_int i * 2 powi (- 1074)"
proof -
  obtain m k where mk: "fl64 x = of_int m * 2 powi k" "- 1074 \<le> k" by (rule fl64_form)
  have "x = of_int m * 2 powi (k + 1074) * 2 powi (- 1074)"
    using assms mk(1) by (simp add: is_f64_def mult.assoc del: power_int_numeral_neg_numeral flip: power_int_add)
  also have "of_int m * (2 :: rat) powi (k + 1074) = of_int (m * 2 ^ nat (k + 1074))"
    using mk(2) by (intro of_int_powi) simp
  finally show ?thesis by (rule that)
qed

lemma fl64_diff_pos:
  assumes "is_f64 x" "is_f64 y" "x < y"
  shows "0 < fl64 (y - x)"
proof -
  obtain i where i: "x = of_int i * 2 powi (- 1074)" using assms(1) by (rule f64_on_grid)
  obtain j where j: "y = of_int j * 2 powi (- 1074)" using assms(2) by (rule f64_on_grid)
  have "(of_int i :: rat) < of_int j" using assms(3) unfolding i j by simp
  then have "of_int (i + 1) \<le> (of_int j :: rat)" by (simp only: of_int_less_iff of_int_le_iff)
  then have "of_int (i + 1) * 2 powi (- 1074) \<le> (of_int j * 2 powi (- 1074) :: rat)"
    by (intro mult_right_mono) auto
  then have "2 powi (- 1074) \<le> y - x" unfolding i j by (simp add: algebra_simps)
  then have "fl64 (2 powi (- 1074)) \<le> fl64 (y - x)" by (rule fl64_mono)
  moreover have "(0 :: rat) < 2 powi (- 1074)" by (rule zero_less_power_int) simp
  ultimately show ?thesis using fl64_pow2 [of "- 1074"] by linarith
qed

lemma fl64_diff_zero_iff:
  assumes "is_f64 x" "is_f64 y"
  shows "fl64 (x - y) = 0 \<longleftrightarrow> x = y"
proof -
  consider "x < y" | "x = y" | "y < x" by linarith
  then show ?thesis
  proof cases
    case 1
    with fl64_diff_pos [OF assms] show ?thesis using fl64_minus [of "x - y"] by auto
  next
    case 3
    with fl64_diff_pos [OF assms(2,1)] show ?thesis by auto
  qed simp
qed

subsection \<open>Shortest decimal of a float\<close>

function dec_len :: "int \<Rightarrow> int" where
  "dec_len n = (if n < 10 then 1 else dec_len (n div 10) + 1)"
  by pat_completeness auto
termination
  by (relation "measure nat") auto

declare dec_len.simps [simp del]

definition ilog10 :: "rat \<Rightarrow> int" where
  "ilog10 x = (let (n, d) = quotient_of x; e = dec_len n - dec_len d
     in if 10 powi e \<le> x then e else e - 1)"

text \<open>The two decimals with \<open>n\<close> significant digits around \<open>x\<close>, the nearer one first.\<close>

definition sig_candidates :: "nat \<Rightarrow> rat \<Rightarrow> numeric list" where
  "sig_candidates n x =
     (let u = 10 powi (ilog10 \<bar>x\<bar> - int n + 1);
          lo = of_int \<lfloor>x / u\<rfloor> * u; hi = of_int \<lceil>x / u\<rceil> * u
      in if x - lo \<le> hi - x then [lo, hi] else [hi, lo])"

text \<open>The first of the digit counts 1 to 17 with a decimal that reads back as \<open>x\<close>. Seventeen
  digits always suffice for binary64; the last branch, the exact binary fraction, is never taken.\<close>

fun shortest_from :: "nat \<Rightarrow> nat \<Rightarrow> float64 \<Rightarrow> numeric" where
  "shortest_from 0 n x = x"
| "shortest_from (Suc k) n x =
     (case List.find (\<lambda>c. fl64 c = x) (sig_candidates n x) of
        Some c \<Rightarrow> c | None \<Rightarrow> shortest_from k (Suc n) x)"

definition shortest :: "float64 \<Rightarrow> numeric" where
  "shortest x = shortest_from 17 1 x"

text \<open>A float survives the trip through a NUMERIC column: printing it as its shortest decimal and
  reading that back as \<open>float8\<close> gives the same float.\<close>

lemma fl64_shortest_from: "is_f64 x \<Longrightarrow> fl64 (shortest_from k n x) = x"
  by (induction k arbitrary: n) (auto simp: is_f64_def find_Some_iff split: option.splits)

lemma fl64_shortest: "is_f64 x \<Longrightarrow> fl64 (shortest x) = x"
  by (simp add: shortest_def fl64_shortest_from)

lemma shortest_less_iff:
  assumes "is_f64 x" "is_f64 y"
  shows "shortest x < shortest y \<longleftrightarrow> x < y"
proof
  assume "shortest x < shortest y"
  from fl64_mono [OF less_imp_le [OF this]] have "x \<le> y" using assms by (simp add: fl64_shortest)
  moreover have "x \<noteq> y" using \<open>shortest x < shortest y\<close> by blast
  ultimately show "x < y" by simp
next
  assume xy: "x < y"
  show "shortest x < shortest y"
  proof (rule ccontr)
    assume "\<not> shortest x < shortest y"
    then have "fl64 (shortest y) \<le> fl64 (shortest x)" by (intro fl64_mono) simp
    then show False using assms xy by (simp add: fl64_shortest)
  qed
qed

lemma shortest_inject: "is_f64 x \<Longrightarrow> is_f64 y \<Longrightarrow> shortest x = shortest y \<longleftrightarrow> x = y"
  by (metis fl64_shortest)

lemma shortest_le_iff: "is_f64 x \<Longrightarrow> is_f64 y \<Longrightarrow> shortest x \<le> shortest y \<longleftrightarrow> x \<le> y"
  using shortest_less_iff [of y x] by (simp add: not_less [symmetric])

text \<open>Zero prints as zero.\<close>

lemma shortest_zero [simp]: "shortest 0 = 0"
proof -
  have c: "sig_candidates n 0 = [0, 0]" for n by (simp add: sig_candidates_def Let_def)
  have "shortest_from (Suc k) n 0 = 0" for k n by (simp add: c)
  from this [of 16 1] show ?thesis by (simp add: shortest_def)
qed

lemma shortest_pos_iff: "is_f64 x \<Longrightarrow> 0 < shortest x \<longleftrightarrow> 0 < x"
  using shortest_less_iff [of 0 x] by simp

lemma shortest_nonneg_iff: "is_f64 x \<Longrightarrow> 0 \<le> shortest x \<longleftrightarrow> 0 \<le> x"
  using shortest_le_iff [of 0 x] by simp

lemma shortest_eq_zero_iff: "is_f64 x \<Longrightarrow> shortest x = 0 \<longleftrightarrow> x = 0"
  using shortest_inject [of x 0] by simp

text \<open>\<open>exact_dec d\<close>: the decimal \<open>d\<close> comes back unchanged from a float64.\<close>

definition exact_dec :: "numeric \<Rightarrow> bool" where
  "exact_dec d = (shortest (fl64 d) = d)"

lemma exact_dec_shortest [simp]: "is_f64 x \<Longrightarrow> exact_dec (shortest x)"
  by (simp add: exact_dec_def fl64_shortest)

subsection \<open>Decimal rounding\<close>

text \<open>\<open>fmt_dec s x\<close> is \<open>fmt.Sprintf("%.sf", x)\<close> read as a number: the exact binary value
  rounded to \<open>s\<close> decimals, ties to even. \<open>dec_half_away s x\<close> rounds ties away from zero, as
  \<open>big.Rat.FloatString(s)\<close> and an assignment to a NUMERIC column of scale \<open>s\<close> do.\<close>

definition fmt_dec :: "nat \<Rightarrow> rat \<Rightarrow> numeric" where
  "fmt_dec s x = of_int (rne (x * 10 ^ s)) / 10 ^ s"

definition rna :: "rat \<Rightarrow> int" where
  "rna y = (if y < 0 then - \<lfloor>1/2 - y\<rfloor> else \<lfloor>y + 1/2\<rfloor>)"

definition dec_half_away :: "nat \<Rightarrow> rat \<Rightarrow> numeric" where
  "dec_half_away s x = of_int (rna (x * 10 ^ s)) / 10 ^ s"

lemma rna_of_int [simp]: "rna (of_int n) = n"
proof -
  have "\<lfloor>of_int n + 1/2 :: rat\<rfloor> = n" "\<lfloor>1/2 - of_int n :: rat\<rfloor> = - n"
    by (rule floor_unique; simp)+
  then show ?thesis by (simp add: rna_def)
qed

lemma rna_minus: "rna (- y) = - rna y"
  using rna_of_int [of 0] by (cases "y = 0") (auto simp: rna_def add.commute)

lemma rna_mono: assumes "x \<le> y" shows "rna x \<le> rna y"
proof -
  have p: "0 \<le> rna z" if "0 \<le> z" for z using that by (simp add: rna_def)
  have n: "rna z \<le> 0" if "z < 0" for z using that by (simp add: rna_def)
  consider "0 \<le> x" | "x < 0" "0 \<le> y" | "y < 0" by linarith
  then show ?thesis
  proof cases
    case 1
    with assms show ?thesis by (simp add: rna_def floor_mono)
  next
    case 2
    with p [of y] n [of x] show ?thesis by linarith
  next
    case 3
    with assms have "\<lfloor>1/2 - y\<rfloor> \<le> \<lfloor>1/2 - x\<rfloor>" by (intro floor_mono) simp
    with 3 assms show ?thesis by (simp add: rna_def)
  qed
qed

lemma fmt_dec_rounding: "rounding (fmt_dec s)"
proof
  show "fmt_dec s x \<le> fmt_dec s y" if "x \<le> y" for x y
    using that by (simp add: fmt_dec_def divide_right_mono rne_mono mult_right_mono)
  show "fmt_dec s (fmt_dec s x) = fmt_dec s x" for x by (simp add: fmt_dec_def)
  show "fmt_dec s (- x) = - fmt_dec s x" for x
    using rne_minus [of "x * 10 ^ s"] by (simp add: fmt_dec_def)
qed

lemma dec_half_away_rounding: "rounding (dec_half_away s)"
proof
  show "dec_half_away s x \<le> dec_half_away s y" if "x \<le> y" for x y
    using that by (simp add: dec_half_away_def divide_right_mono rna_mono mult_right_mono)
  show "dec_half_away s (dec_half_away s x) = dec_half_away s x" for x by (simp add: dec_half_away_def)
  show "dec_half_away s (- x) = - dec_half_away s x" for x
    using rna_minus [of "x * 10 ^ s"] by (simp add: dec_half_away_def)
qed

interpretation fmt: rounding "fmt_dec s" for s
  by (rule fmt_dec_rounding)

interpretation dha: rounding "dec_half_away s" for s
  by (rule dec_half_away_rounding)

lemma fmt_dec_error: "\<bar>x - fmt_dec s x\<bar> \<le> 1 / (2 * 10 ^ s)"
proof -
  have "x - fmt_dec s x = (x * 10 ^ s - of_int (rne (x * 10 ^ s))) / 10 ^ s"
    by (simp add: fmt_dec_def field_simps)
  also have "\<bar>\<dots>\<bar> = \<bar>x * 10 ^ s - of_int (rne (x * 10 ^ s))\<bar> / 10 ^ s"
    by (simp add: abs_divide)
  also have "\<dots> \<le> (1/2) / 10 ^ s" by (intro divide_right_mono rne_error) simp
  finally show ?thesis by simp
qed

lemma fmt_dec_int [simp]: "fmt_dec s (of_int n) = of_int n"
proof -
  have "rne (of_int n * 10 ^ s) = n * 10 ^ s" using rne_of_int [of "n * 10 ^ s"] by simp
  then show ?thesis by (simp add: fmt_dec_def)
qed

subsection \<open>Whole numbers\<close>

text \<open>A whole number below 2 to the power 53 is its own shortest decimal.\<close>

lemma dec_len_pos: "1 \<le> dec_len n"
proof (induction n rule: dec_len.induct)
  case (1 n)
  then show ?case by (subst dec_len.simps) auto
qed

lemma dec_len_le: "n < 10 ^ Suc k \<Longrightarrow> dec_len n \<le> int (Suc k)"
proof (induction k arbitrary: n)
  case 0
  then show ?case by (simp add: dec_len.simps)
next
  case (Suc k)
  have "n div 10 < 10 ^ Suc k" using Suc.prems by simp
  then have "dec_len (n div 10) \<le> int (Suc k)" by (rule Suc.IH)
  then show ?case by (subst dec_len.simps) simp
qed

lemma ilog10_int:
  assumes "1 \<le> n" "n < 10 ^ 16"
  shows "0 \<le> ilog10 (of_int n)" "ilog10 (of_int n) \<le> 15"
proof -
  have d: "dec_len 1 = 1" by (simp add: dec_len.simps)
  have l: "1 \<le> dec_len n" "dec_len n \<le> 16" using dec_len_pos [of n] dec_len_le [of n 15] assms by simp_all
  have e: "ilog10 (of_int n) = (if 10 powi (dec_len n - 1) \<le> (of_int n :: rat) then dec_len n - 1 else dec_len n - 2)"
    by (simp add: ilog10_def Let_def d)
  have one: "dec_len n \<noteq> 1" if "\<not> 10 powi (dec_len n - 1) \<le> (of_int n :: rat)"
  proof
    assume "dec_len n = 1"
    then show False using that assms(1) by simp
  qed
  show "0 \<le> ilog10 (of_int n)" using l one unfolding e by fastforce
  show "ilog10 (of_int n) \<le> 15" using l unfolding e by (auto split: if_splits)
qed

lemma fl64_int_inj:
  assumes "0 \<le> n" "n < 2 ^ 53" "fl64 (of_int m) = of_int n" shows "m = n"
proof (cases "\<bar>m\<bar> \<le> 2 ^ 53")
  case True
  then show ?thesis using assms(3) is_f64_int [of m] by (simp add: is_f64_def)
next
  case False
  then consider "m < - (2 ^ 53)" | "2 ^ 53 < m" by linarith
  then show ?thesis
  proof cases
    case 1
    then have "m \<le> 0" "m \<le> - 1" by simp_all
    then have "fl64 (of_int m) \<le> fl64 (of_int 0)" by (intro fl64_mono) (simp only: of_int_le_iff)
    then have "n \<le> 0" using assms(3) by simp
    then have "fl64 (of_int m) = 0" using assms by simp
    moreover have "fl64 (of_int m) \<le> fl64 (of_int (- 1))" using \<open>m \<le> - 1\<close> by (intro fl64_mono) (simp only: of_int_le_iff)
    moreover have "fl64 (of_int (- 1)) = - 1" using is_f64_int [of "- 1"] by (simp add: is_f64_def)
    ultimately show ?thesis by simp
  next
    case 2
    then have "fl64 (of_int (2 ^ 53)) \<le> fl64 (of_int m)" by (intro fl64_mono) (simp only: of_int_le_iff)
    moreover have "fl64 (of_int (2 ^ 53)) = of_int (2 ^ 53)" using is_f64_int [of "2 ^ 53"] by (simp only: is_f64_def abs_of_nonneg) simp
    ultimately have "(of_int (2 ^ 53) :: rat) \<le> of_int n" using assms(3) by simp
    then show ?thesis using assms(2) by (simp only: of_int_le_iff)
  qed
qed

lemma sig_candidates_int:
  assumes "0 \<le> ilog10 (of_int n) - int k + 1" "0 \<le> n" "c \<in> set (sig_candidates k (of_int n))"
  shows "\<exists>m. c = of_int m"
proof -
  let ?e = "ilog10 (of_int n) - int k + 1"
  have "(10 :: rat) powi ?e = of_int (10 ^ nat ?e)" using assms(1) by (simp add: power_int_def)
  moreover have "\<exists>i. c = of_int i * 10 powi ?e"
    using assms(2,3) by (auto simp: sig_candidates_def Let_def split: if_splits)
  ultimately obtain i where "c = of_int i * of_int (10 ^ nat ?e)" by metis
  then have "c = of_int (i * 10 ^ nat ?e)" by simp
  then show ?thesis by blast
qed

lemma shortest_from_int:
  assumes "1 \<le> n" "n < 2 ^ 53" "ilog10 (of_int n) + 1 = int k + int j" "j < f"
  shows "shortest_from f k (of_int n) = of_int n"
  using assms(3,4)
proof (induction j arbitrary: k f)
  case 0
  then obtain g where f: "f = Suc g" by (cases f) auto
  have "ilog10 \<bar>of_int n\<bar> - int k + 1 = 0" using 0 assms(1) by simp
  then have "sig_candidates k (of_int n) = [of_int n, of_int n]" unfolding sig_candidates_def by (simp add: Let_def)
  moreover have "fl64 (of_int n) = of_int n" using is_f64_int [of n] assms by (simp add: is_f64_def)
  ultimately show ?case by (simp add: f)
next
  case (Suc j)
  then obtain g where f: "f = Suc g" by (cases f) auto
  have rec: "shortest_from g (Suc k) (of_int n) = of_int n" using Suc.prems f by (intro Suc.IH) auto
  show ?case
  proof (cases "List.find (\<lambda>c. fl64 c = of_int n) (sig_candidates k (of_int n))")
    case None
    then show ?thesis using rec by (simp add: f)
  next
    case (Some c)
    then have c: "c \<in> set (sig_candidates k (of_int n))" "fl64 c = of_int n"
      by (auto simp: find_Some_iff)
    obtain m where "c = of_int m" using sig_candidates_int [OF _ _ c(1)] Suc.prems assms(1) by auto
    then have "c = of_int n" using fl64_int_inj [of n m] c(2) assms by simp
    then show ?thesis using Some by (simp add: f)
  qed
qed

lemma shortest_int: assumes "0 \<le> n" "n < 2 ^ 53" shows "shortest (of_int n) = of_int n"
proof (cases "n = 0")
  case False
  then have n: "1 \<le> n" using assms(1) by simp
  have "n < 10 ^ 16" using assms(2) by simp
  note il = ilog10_int [OF n this]
  have "shortest_from 17 1 (of_int n) = of_int n"
    using il n assms(2) by (intro shortest_from_int [of n 1 "nat (ilog10 (of_int n))"]) auto
  then show ?thesis by (simp add: shortest_def)
qed simp

lemma dec_half_away_int [simp]: "dec_half_away s (of_int n) = of_int n"
proof -
  have "(of_int n :: rat) * 10 ^ s = of_int (n * 10 ^ s)" by simp
  then have "rna (of_int n * 10 ^ s) = n * 10 ^ s" by (metis rna_of_int)
  then show ?thesis by (simp add: dec_half_away_def)
qed

end
