(* ===== verification/OrderDomain.thy ===== *)
theory OrderDomain
  imports GoFloat
begin

text \<open>
  The order aggregate of the order service: \<open>internal/domain/order.go\<close> (constants, structs,
  \<open>IsTerminal\<close>), \<open>internal/domain/idempotency.go\<close>, \<open>internal/domain/state_machine.go\<close> (the transitions and the methods that
  fill, cancel, expire and amend an order) and \<open>internal/domain/event.go\<close>. A pointer field is
  an \<open>option\<close>. A pointer-receiver method takes the order and returns the changed order, or the
  error with the order untouched: in the source every check precedes the first assignment.
  Lemmas: the transition graph, absorption of terminal orders, the quantity invariant and its
  preservation along every sequence of methods.
\<close>

subsection \<open>Constants\<close>

text \<open>Side, order type and time in force are client input and stay strings; the status is only
  ever assigned one of the eleven constants.\<close>

abbreviation "SideBuy \<equiv> ''BUY''"
abbreviation "SideSell \<equiv> ''SELL''"

abbreviation "OrderTypeMarket \<equiv> ''MARKET''"
abbreviation "OrderTypeLimit \<equiv> ''LIMIT''"
abbreviation "OrderTypeStop \<equiv> ''STOP''"
abbreviation "OrderTypeStopLimit \<equiv> ''STOP_LIMIT''"
abbreviation "OrderTypeStopLoss \<equiv> ''STOP_LOSS''"

abbreviation "TimeInForceDay \<equiv> ''DAY''"
abbreviation "TimeInForceGTC \<equiv> ''GTC''"
abbreviation "TimeInForceGTD \<equiv> ''GTD''"
abbreviation "TimeInForceIOC \<equiv> ''IOC''"
abbreviation "TimeInForceFOK \<equiv> ''FOK''"

abbreviation "default_tenant_id \<equiv> ''default-tenant''"

datatype order_status =
    StatusCreated | StatusValidated | StatusRiskPending | StatusRiskRejected | StatusRiskError
  | StatusAccepted | StatusPartiallyFilled | StatusFilled | StatusRejected | StatusCancelled
  | StatusExpired

subsection \<open>Structs\<close>

record Order =
  o_ID :: string
  o_TenantID :: string
  o_UserID :: string
  o_Symbol :: string
  o_Side :: string
  o_OrderType :: string
  o_Quantity :: float64
  o_FilledQuantity :: float64
  o_RemainingQuantity :: float64
  o_LimitPrice :: "float64 option"
  o_StopPrice :: "float64 option"
  o_AverageFillPrice :: "float64 option"
  o_TimeInForce :: string
  o_ExpiresAt :: "time option"
  o_Version :: int
  o_RiskDecisionID :: "string option"
  o_RiskStatus :: string
  o_RiskReasonCode :: "string option"
  o_RiskReasonMessage :: "string option"
  o_RiskEvaluatedAt :: "time option"
  o_LastExecutionAt :: "time option"
  o_Status :: order_status
  o_FillPrice :: "float64 option"
  o_RejectReason :: "string option"
  o_CorrelationID :: string
  o_CreatedAt :: time
  o_UpdatedAt :: time
  o_CancelledAt :: "time option"
  o_FilledAt :: "time option"
  o_ExpiredAt :: "time option"
  o_ExpiryReason :: "string option"

record CreateOrderRequest =
  cr_Symbol :: string
  cr_Side :: string
  cr_OrderType :: string
  cr_Quantity :: float64
  cr_LimitPrice :: "float64 option"
  cr_StopPrice :: "float64 option"
  cr_TimeInForce :: string
  cr_ExpiresAt :: "time option"

record AmendOrderRequest =
  ar_Quantity :: "float64 option"
  ar_LimitPrice :: "float64 option"
  ar_StopPrice :: "float64 option"
  ar_ExpiresAt :: "time option"
  ar_ExpectedVersion :: int

record OrderEvent =
  e_EventID :: string
  e_EventType :: string
  e_EventVersion :: string
  e_TenantID :: string
  e_OrderID :: string
  e_UserID :: string
  e_Symbol :: string
  e_Side :: string
  e_OrderType :: string
  e_OriginalOrderType :: string
  e_ActivatedOrderType :: string
  e_TimeInForce :: string
  e_Quantity :: float64
  e_FilledQuantity :: float64
  e_RemainingQuantity :: float64
  e_ExecutionQuantity :: float64
  e_ExecutionPrice :: "float64 option"
  e_ExecutionID :: string
  e_BuyerUserID :: string
  e_SellerUserID :: string
  e_Currency :: string
  e_Source :: string
  e_EstimatedPrice :: "float64 option"
  e_EstimatedNotional :: "float64 option"
  e_DecisionID :: string
  e_ReasonCode :: string
  e_ReasonMessage :: string
  e_PolicyVersion :: string
  e_EvaluatedAt :: "time option"
  e_AverageFillPrice :: "float64 option"
  e_Status :: "order_status option"
  e_Version :: int
  e_ExpiresAt :: "time option"
  e_ExpiredAt :: "time option"
  e_ExpiryReason :: string
  e_StopPrice :: "float64 option"
  e_ReferencePrice :: "float64 option"
  e_TriggeredAt :: "time option"
  e_BuyOrderID :: string
  e_SellOrderID :: string
  e_FillPrice :: "float64 option"
  e_OccurredAt :: time
  e_CorrelationID :: string
  e_TraceParent :: string
  e_TraceID :: string
  e_SpanID :: string

record DomainExecution =
  dx_ID :: string
  dx_TenantID :: string
  dx_BuyOrderID :: string
  dx_SellOrderID :: string
  dx_Symbol :: string
  dx_Quantity :: float64
  dx_Price :: float64
  dx_BuyerUserID :: string
  dx_SellerUserID :: string
  dx_CorrelationID :: string
  dx_ExecutedAt :: time

text \<open>A nil map is \<open>None\<close>; a \<open>map[string]any\<close> holds JSON values.\<close>

record RiskDecision =
  rd_DecisionID :: string
  rd_TenantID :: string
  rd_OrderID :: string
  rd_UserID :: string
  rd_PolicyID :: string
  rd_PolicyVersion :: string
  rd_Decision :: string
  rd_Approved :: bool
  rd_ReasonCode :: string
  rd_ReasonMessage :: string
  rd_EstimatedPrice :: float64
  rd_EstimatedNotional :: float64
  rd_EvaluatedLimits :: "(string \<times> string) list option"
  rd_RequestSnapshot :: "(string \<times> json) list option"
  rd_ResponseSnapshot :: "(string \<times> json) list option"
  rd_CorrelationID :: string
  rd_TraceParent :: string
  rd_EvaluatedAt :: time

record IdempotencyRecord =
  ir_TenantID :: string
  ir_UserID :: string
  ir_Key :: string
  ir_RequestHash :: string
  ir_OrderID :: string
  ir_CreatedAt :: time

text \<open>The zero value of the struct (the empty status string is \<open>None\<close>).\<close>

definition empty_event :: OrderEvent where
  "empty_event = \<lparr>e_EventID = '''', e_EventType = '''', e_EventVersion = '''', e_TenantID = '''',
     e_OrderID = '''', e_UserID = '''', e_Symbol = '''', e_Side = '''', e_OrderType = '''',
     e_OriginalOrderType = '''', e_ActivatedOrderType = '''', e_TimeInForce = '''', e_Quantity = 0,
     e_FilledQuantity = 0, e_RemainingQuantity = 0, e_ExecutionQuantity = 0,
     e_ExecutionPrice = None, e_ExecutionID = '''', e_BuyerUserID = '''', e_SellerUserID = '''',
     e_Currency = '''', e_Source = '''', e_EstimatedPrice = None, e_EstimatedNotional = None,
     e_DecisionID = '''', e_ReasonCode = '''', e_ReasonMessage = '''', e_PolicyVersion = '''',
     e_EvaluatedAt = None, e_AverageFillPrice = None, e_Status = None, e_Version = 0,
     e_ExpiresAt = None, e_ExpiredAt = None, e_ExpiryReason = '''', e_StopPrice = None,
     e_ReferencePrice = None, e_TriggeredAt = None, e_BuyOrderID = '''', e_SellOrderID = '''',
     e_FillPrice = None, e_OccurredAt = zero_time, e_CorrelationID = '''', e_TraceParent = '''',
     e_TraceID = '''', e_SpanID = ''''\<rparr>"

subsection \<open>Transitions\<close>

fun is_terminal :: "order_status \<Rightarrow> bool" where
  "is_terminal StatusFilled = True"
| "is_terminal StatusCancelled = True"
| "is_terminal StatusRejected = True"
| "is_terminal StatusRiskRejected = True"
| "is_terminal StatusRiskError = True"
| "is_terminal StatusExpired = True"
| "is_terminal _ = False"

definition IsTerminal :: "Order \<Rightarrow> bool" where
  "IsTerminal o' = is_terminal (o_Status o')"

datatype domain_error =
    ErrInvalidTransition order_status string
  | ErrTerminalOrder order_status
  | ErrInvalidFillQuantity
  | ErrAmendBelowFilled

fun status_name :: "order_status \<Rightarrow> string" where
  "status_name StatusCreated = ''created''"
| "status_name StatusValidated = ''validated''"
| "status_name StatusRiskPending = ''risk_pending''"
| "status_name StatusRiskRejected = ''risk_rejected''"
| "status_name StatusRiskError = ''risk_error''"
| "status_name StatusAccepted = ''accepted''"
| "status_name StatusPartiallyFilled = ''partially_filled''"
| "status_name StatusFilled = ''filled''"
| "status_name StatusRejected = ''rejected''"
| "status_name StatusCancelled = ''cancelled''"
| "status_name StatusExpired = ''expired''"

text \<open>The map literal of \<open>transition\<close>.\<close>

fun allowed :: "order_status \<Rightarrow> order_status \<Rightarrow> bool" where
  "allowed StatusCreated n = (n \<in> {StatusValidated, StatusRejected, StatusRiskRejected})"
| "allowed StatusValidated n =
     (n \<in> {StatusRiskPending, StatusAccepted, StatusRejected, StatusRiskRejected})"
| "allowed StatusRiskPending n =
     (n \<in> {StatusAccepted, StatusRiskRejected, StatusRiskError, StatusRejected})"
| "allowed StatusAccepted n =
     (n \<in> {StatusPartiallyFilled, StatusFilled, StatusCancelled, StatusExpired})"
| "allowed StatusPartiallyFilled n = (n \<in> {StatusFilled, StatusCancelled, StatusExpired})"
| "allowed _ n = False"

definition transition :: "order_status \<Rightarrow> Order \<Rightarrow> domain_error + Order" where
  "transition nxt o' =
     (if IsTerminal o' then Inl (ErrTerminalOrder (o_Status o'))
      else if \<not> allowed (o_Status o') nxt
        then Inl (ErrInvalidTransition (o_Status o') (status_name nxt))
      else Inr (o'\<lparr>o_Status := nxt\<rparr>))"

definition Validate :: "Order \<Rightarrow> domain_error + Order" where
  "Validate o' = transition StatusValidated o'"

definition SubmitForRisk :: "Order \<Rightarrow> domain_error + Order" where
  "SubmitForRisk o' = transition StatusRiskPending o'"

definition Accept :: "Order \<Rightarrow> domain_error + Order" where
  "Accept o' = transition StatusAccepted o'"

definition Reject :: "string \<Rightarrow> Order \<Rightarrow> domain_error + Order" where
  "Reject reason o' =
     and_then (transition StatusRejected o') (\<lambda>o1. Inr (o1\<lparr>o_RejectReason := Some reason\<rparr>))"

definition RiskReject :: "string \<Rightarrow> string \<Rightarrow> Order \<Rightarrow> domain_error + Order" where
  "RiskReject decisionID reason o' =
     and_then (transition StatusRiskRejected o')
       (\<lambda>o1. Inr (o1\<lparr>o_RiskDecisionID := Some decisionID, o_RejectReason := Some reason\<rparr>))"

definition RiskError :: "string \<Rightarrow> string \<Rightarrow> Order \<Rightarrow> domain_error + Order" where
  "RiskError decisionID reason o' =
     and_then (transition StatusRiskError o')
       (\<lambda>o1. Inr (o1\<lparr>o_RiskDecisionID := Some decisionID, o_RejectReason := Some reason\<rparr>))"

text \<open>The guard \<open>o.Status != StatusAccepted && o.Status != StatusPartiallyFilled\<close>, negated.\<close>

definition is_live :: "order_status \<Rightarrow> bool" where
  "is_live s = (s = StatusAccepted \<or> s = StatusPartiallyFilled)"

subsection \<open>Fills, cancellation, expiry, amendment\<close>

text \<open>\<open>fillAverage\<close> is the average-price branch of \<open>ApplyFill\<close>; every product, sum and quotient
  of floats rounds.\<close>

definition fillAverage ::
    "float64 option \<Rightarrow> float64 \<Rightarrow> float64 \<Rightarrow> float64 \<Rightarrow> float64 \<Rightarrow> float64" where
  "fillAverage avg previousFilled quantity price newFilled =
     (case avg of
        None \<Rightarrow> price
      | Some a \<Rightarrow>
          if previousFilled = 0 then price
          else fl64 (fl64 (fl64 (a * previousFilled) + fl64 (price * quantity)) / newFilled))"

definition ApplyFill :: "float64 \<Rightarrow> float64 \<Rightarrow> time \<Rightarrow> Order \<Rightarrow> domain_error + Order" where
  "ApplyFill quantity price at' o' =
     (if IsTerminal o' then Inl (ErrTerminalOrder (o_Status o'))
      else if \<not> is_live (o_Status o') then Inl (ErrInvalidTransition (o_Status o') ''fill'')
      else
        let previousFilled = o_FilledQuantity o';
            newFilled = fl64 (previousFilled + quantity)
        in if quantity \<le> 0 \<or> newFilled > o_Quantity o' then Inl ErrInvalidFillQuantity
           else
             let remaining = fl64 (o_Quantity o' - newFilled);
                 avg = fillAverage (o_AverageFillPrice o') previousFilled quantity price newFilled;
                 o1 = o'\<lparr>o_FilledQuantity := newFilled, o_RemainingQuantity := remaining,
                         o_AverageFillPrice := Some avg, o_FillPrice := Some avg,
                         o_LastExecutionAt := Some at', o_UpdatedAt := at'\<rparr>
             in if remaining = 0 then Inr (o1\<lparr>o_Status := StatusFilled, o_FilledAt := Some at'\<rparr>)
                else Inr (o1\<lparr>o_Status := StatusPartiallyFilled\<rparr>))"

definition Cancel :: "time \<Rightarrow> Order \<Rightarrow> domain_error + Order" where
  "Cancel at' o' =
     (if \<not> is_live (o_Status o') then Inl (ErrInvalidTransition (o_Status o') ''cancelled'')
      else Inr (o'\<lparr>o_Status := StatusCancelled, o_RemainingQuantity := 0,
                  o_CancelledAt := Some at', o_UpdatedAt := at'\<rparr>))"

definition Expire :: "time \<Rightarrow> Order \<Rightarrow> domain_error + Order" where
  "Expire at' o' =
     (if \<not> is_live (o_Status o') then Inl (ErrInvalidTransition (o_Status o') ''expired'')
      else Inr (o'\<lparr>o_Status := StatusExpired, o_ExpiredAt := Some at', o_UpdatedAt := at'\<rparr>))"

definition Amend :: "float64 option \<Rightarrow> float64 option \<Rightarrow> float64 option \<Rightarrow> time option \<Rightarrow> time
    \<Rightarrow> Order \<Rightarrow> domain_error + Order" where
  "Amend quantity limitPrice stopPrice expiresAt at' o' =
     (if \<not> is_live (o_Status o') then Inl (ErrInvalidTransition (o_Status o') ''amended'')
      else and_then
        (case quantity of
           None \<Rightarrow> Inr o'
         | Some q \<Rightarrow>
             if q < o_FilledQuantity o' then Inl ErrAmendBelowFilled
             else Inr (o'\<lparr>o_Quantity := q, o_RemainingQuantity := fl64 (q - o_FilledQuantity o')\<rparr>))
        (\<lambda>o1.
           let o2 = (case limitPrice of None \<Rightarrow> o1 | Some p \<Rightarrow> o1\<lparr>o_LimitPrice := Some p\<rparr>);
               o3 = (case stopPrice of None \<Rightarrow> o2 | Some p \<Rightarrow> o2\<lparr>o_StopPrice := Some p\<rparr>)
           in Inr (o3\<lparr>o_ExpiresAt := expiresAt, o_UpdatedAt := at'\<rparr>)))"

subsection \<open>All methods as operations\<close>

datatype order_op =
    OpValidate | OpSubmitForRisk | OpAccept | OpReject string
  | OpRiskReject string string | OpRiskError string string
  | OpFill float64 float64 time | OpCancel time | OpExpire time
  | OpAmend "float64 option" "float64 option" "float64 option" "time option" time

fun apply_op :: "order_op \<Rightarrow> Order \<Rightarrow> domain_error + Order" where
  "apply_op OpValidate o' = Validate o'"
| "apply_op OpSubmitForRisk o' = SubmitForRisk o'"
| "apply_op OpAccept o' = Accept o'"
| "apply_op (OpReject r) o' = Reject r o'"
| "apply_op (OpRiskReject d r) o' = RiskReject d r o'"
| "apply_op (OpRiskError d r) o' = RiskError d r o'"
| "apply_op (OpFill q p t) o' = ApplyFill q p t o'"
| "apply_op (OpCancel t) o' = Cancel t o'"
| "apply_op (OpExpire t) o' = Expire t o'"
| "apply_op (OpAmend q l s e t) o' = Amend q l s e t o'"

text \<open>The float arguments of an operation are float64 values.\<close>

fun op_floats_ok :: "order_op \<Rightarrow> bool" where
  "op_floats_ok (OpFill q p t) = is_f64 q"
| "op_floats_ok (OpAmend (Some q) l s e t) = is_f64 q"
| "op_floats_ok _ = True"

text \<open>One step: a method that succeeds. An order history is a sequence of steps.\<close>

inductive order_step :: "Order \<Rightarrow> Order \<Rightarrow> bool" where
  step: "op_floats_ok op \<Longrightarrow> apply_op op o1 = Inr o2 \<Longrightarrow> order_step o1 o2"

inductive order_run :: "Order \<Rightarrow> Order \<Rightarrow> bool" where
  run_refl: "order_run o1 o1"
| run_step: "order_run o1 o2 \<Longrightarrow> order_step o2 o3 \<Longrightarrow> order_run o1 o3"

lemmas order_method_defs = Validate_def SubmitForRisk_def Accept_def Reject_def RiskReject_def
  RiskError_def ApplyFill_def Cancel_def Expire_def Amend_def transition_def IsTerminal_def

lemma is_live_not_terminal: "is_live s \<Longrightarrow> \<not> is_terminal s"
  by (auto simp: is_live_def)

lemma terminal_not_allowed: "is_terminal s \<Longrightarrow> \<not> allowed s n"
  by (cases s) auto

lemma transition_Inr:
  "transition nxt o1 = Inr o2 \<longleftrightarrow>
   \<not> is_terminal (o_Status o1) \<and> allowed (o_Status o1) nxt \<and> o2 = o1\<lparr>o_Status := nxt\<rparr>"
  by (auto simp: transition_def IsTerminal_def)

lemma ApplyFill_Inr:
  "ApplyFill q p t o1 = Inr o2 \<longleftrightarrow>
   is_live (o_Status o1) \<and> 0 < q \<and> fl64 (o_FilledQuantity o1 + q) \<le> o_Quantity o1 \<and>
   (let nf = fl64 (o_FilledQuantity o1 + q); rem = fl64 (o_Quantity o1 - nf);
        avg = fillAverage (o_AverageFillPrice o1) (o_FilledQuantity o1) q p nf;
        o' = o1\<lparr>o_FilledQuantity := nf, o_RemainingQuantity := rem, o_AverageFillPrice := Some avg,
           o_FillPrice := Some avg, o_LastExecutionAt := Some t, o_UpdatedAt := t\<rparr>
    in o2 = (if rem = 0 then o'\<lparr>o_Status := StatusFilled, o_FilledAt := Some t\<rparr>
             else o'\<lparr>o_Status := StatusPartiallyFilled\<rparr>))"
  by (auto simp: ApplyFill_def Let_def IsTerminal_def not_less not_le
      dest: is_live_not_terminal split: if_splits)

text \<open>Every successful method moves along the graph or keeps a live status; terminal orders
  accept no method at all.\<close>

lemma apply_op_terminal:
  assumes "IsTerminal o1" shows "\<exists>e. apply_op op o1 = Inl e"
proof -
  have nl: "\<not> is_live (o_Status o1)" using assms is_live_not_terminal by (auto simp: IsTerminal_def)
  show ?thesis using assms nl by (cases op) (auto simp: order_method_defs)
qed

lemma apply_op_status:
  assumes "apply_op op o1 = Inr o2"
  shows "allowed (o_Status o1) (o_Status o2) \<or> is_live (o_Status o1) \<and> o_Status o2 = o_Status o1"
  using assms
  by (cases op)
    (auto simp: Validate_def SubmitForRisk_def Accept_def Reject_def RiskReject_def RiskError_def
      transition_Inr and_then_Inr ApplyFill_Inr Let_def Cancel_def Expire_def Amend_def is_live_def
      split: if_splits option.splits)

subsection \<open>The quantity invariant\<close>

definition quantities_ok :: "Order \<Rightarrow> bool" where
  "quantities_ok o' \<longleftrightarrow>
     is_f64 (o_Quantity o') \<and> is_f64 (o_FilledQuantity o') \<and>
     0 \<le> o_FilledQuantity o' \<and> o_FilledQuantity o' \<le> o_Quantity o' \<and>
     (o_Status o' \<noteq> StatusCancelled \<longrightarrow>
        o_RemainingQuantity o' = fl64 (o_Quantity o' - o_FilledQuantity o')) \<and>
     (o_Status o' = StatusFilled \<longrightarrow> o_FilledQuantity o' = o_Quantity o') \<and>
     (o_Status o' = StatusPartiallyFilled \<longrightarrow> 0 < o_FilledQuantity o')"

lemma quantities_ok_transition:
  assumes "quantities_ok o1" "transition nxt o1 = Inr o2"
    "nxt \<notin> {StatusFilled, StatusPartiallyFilled, StatusCancelled}"
  shows "quantities_ok o2"
  using assms by (auto simp: quantities_ok_def transition_Inr)

lemma fill_increases:
  assumes "is_f64 f" "is_f64 q" "0 \<le> f" "0 < q"
  shows "f \<le> fl64 (f + q)" "0 < fl64 (f + q)"
proof -
  show "f \<le> fl64 (f + q)" using fl64_mono [of f "f + q"] assms by (simp add: fl64_id)
  have "q \<le> fl64 (f + q)" using fl64_mono [of q "f + q"] assms by (simp add: fl64_id)
  with assms(4) show "0 < fl64 (f + q)" by simp
qed

lemma quantities_ok_ApplyFill:
  assumes ok: "quantities_ok o1" and q: "is_f64 q" and ap: "ApplyFill q p t o1 = Inr o2"
  shows "quantities_ok o2"
proof -
  let ?nf = "fl64 (o_FilledQuantity o1 + q)"
  have f: "is_f64 (o_FilledQuantity o1)" "0 \<le> o_FilledQuantity o1" "is_f64 (o_Quantity o1)"
    using ok by (simp_all add: quantities_ok_def)
  have a: "0 < q" "?nf \<le> o_Quantity o1" using ap by (simp_all add: ApplyFill_Inr Let_def)
  note inc = fill_increases [OF f(1) q f(2) a(1)]
  have z: "fl64 (o_Quantity o1 - ?nf) = 0 \<longleftrightarrow> o_Quantity o1 = ?nf"
    using f(3) by (intro fl64_diff_zero_iff) simp_all
  show ?thesis
    using ap a inc f z unfolding quantities_ok_def ApplyFill_Inr Let_def by auto
qed

lemma quantities_ok_Amend:
  assumes ok: "quantities_ok o1" and q: "\<And>x. quantity = Some x \<Longrightarrow> is_f64 x"
    and am: "Amend quantity l s e t o1 = Inr o2"
  shows "quantities_ok o2"
  using assms by (auto simp: quantities_ok_def Amend_def Let_def and_then_Inr is_live_def
      split: if_splits option.splits)

lemma quantities_ok_apply_op:
  assumes "quantities_ok o1" "op_floats_ok op" "apply_op op o1 = Inr o2"
  shows "quantities_ok o2"
proof (cases op)
  case (OpFill q p t)
  with assms show ?thesis by (auto intro: quantities_ok_ApplyFill)
next
  case (OpAmend q l s e t)
  with assms show ?thesis by (cases q) (auto intro: quantities_ok_Amend)
next
  case (OpReject r)
  with assms show ?thesis
    by (auto simp: Reject_def and_then_Inr quantities_ok_def transition_Inr)
next
  case (OpRiskReject d r)
  with assms show ?thesis
    by (auto simp: RiskReject_def and_then_Inr quantities_ok_def transition_Inr)
next
  case (OpRiskError d r)
  with assms show ?thesis
    by (auto simp: RiskError_def and_then_Inr quantities_ok_def transition_Inr)
qed (use assms in \<open>auto simp: Validate_def SubmitForRisk_def Accept_def Cancel_def Expire_def
      quantities_ok_def transition_Inr is_live_def split: if_splits\<close>)

lemma apply_op_filled_mono:
  assumes "quantities_ok o1" "op_floats_ok op" "apply_op op o1 = Inr o2"
  shows "o_FilledQuantity o1 \<le> o_FilledQuantity o2"
proof (cases op)
  case (OpFill q p t)
  then have "0 < q" "is_f64 q" "o_FilledQuantity o2 = fl64 (o_FilledQuantity o1 + q)"
    using assms by (auto simp: ApplyFill_Inr Let_def)
  then show ?thesis using fill_increases(1) assms(1) by (simp add: quantities_ok_def)
qed (use assms in \<open>auto simp: Validate_def SubmitForRisk_def Accept_def Reject_def RiskReject_def
      RiskError_def Cancel_def Expire_def Amend_def Let_def and_then_Inr transition_Inr
      split: if_splits option.splits\<close>)

subsection \<open>Properties of an order's history\<close>

lemma order_step_op: "order_step o1 o2 \<Longrightarrow> \<exists>op. op_floats_ok op \<and> apply_op op o1 = Inr o2"
  by (induction rule: order_step.induct) auto

text \<open>whatever methods run on an order, its quantities stay consistent: the filled quantity is
  between zero and the quantity, the remaining quantity is their difference unless the order was
  cancelled, a filled order is filled completely, and the filled quantity never decreases.\<close>

theorem order_run_quantities_ok:
  assumes "order_run o1 o2" "quantities_ok o1"
  shows "quantities_ok o2 \<and> o_FilledQuantity o1 \<le> o_FilledQuantity o2"
  using assms
proof (induction rule: order_run.induct)
  case (run_refl o1)
  then show ?case by simp
next
  case (run_step o1 o2 o3)
  then have "quantities_ok o2" "o_FilledQuantity o1 \<le> o_FilledQuantity o2" by simp_all
  moreover obtain op where op: "op_floats_ok op" "apply_op op o2 = Inr o3"
    using order_step_op run_step.hyps(2) by blast
  ultimately show ?case
    using quantities_ok_apply_op [OF _ op] apply_op_filled_mono [OF _ op] order_trans by blast
qed

text \<open>a terminal order is never changed again: every method fails on it, so every history from
  it stays where it is.\<close>

theorem order_terminal_absorbing:
  assumes "order_run o1 o2" "IsTerminal o1"
  shows "o2 = o1 \<and> (\<forall>op. \<exists>e. apply_op op o2 = Inl e)"
  using assms
proof (induction rule: order_run.induct)
  case (run_refl o1)
  then show ?case using apply_op_terminal by blast
next
  case (run_step o1 o2 o3)
  then have "\<exists>e. apply_op op o2 = Inl e" for op by blast
  then show ?case using order_step_op [OF run_step.hyps(2)] by (metis Inl_Inr_False)
qed

text \<open>the status of an order only moves along the transition table of the code.\<close>

theorem order_run_status_path:
  assumes "order_run o1 o2" shows "allowed\<^sup>*\<^sup>* (o_Status o1) (o_Status o2)"
  using assms
proof (induction rule: order_run.induct)
  case (run_refl o1)
  then show ?case by simp
next
  case (run_step o1 o2 o3)
  obtain op where op: "apply_op op o2 = Inr o3" using order_step_op run_step.hyps(2) by blast
  show ?case using apply_op_status [OF op] run_step.IH by (auto intro: rtranclp.rtrancl_into_rtrancl)
qed

text \<open>a fill succeeds exactly on a live order, for a positive quantity that does not take the
  filled quantity beyond the order's; it then leaves the order filled when nothing remains and
  partially filled otherwise, and the first fill's price is the average price.\<close>

theorem ApplyFill_outcome:
  assumes "is_f64 (o_Quantity o1)"
  shows "case ApplyFill q p t o1 of
      Inl e \<Rightarrow> \<not> is_live (o_Status o1) \<or> q \<le> 0 \<or> o_Quantity o1 < fl64 (o_FilledQuantity o1 + q)
    | Inr o2 \<Rightarrow> is_live (o_Status o1) \<and> 0 < q \<and>
        o_FilledQuantity o2 = fl64 (o_FilledQuantity o1 + q) \<and> o_FilledQuantity o2 \<le> o_Quantity o2 \<and>
        o_Quantity o2 = o_Quantity o1 \<and>
        o_Status o2 = (if o_FilledQuantity o2 = o_Quantity o2 then StatusFilled
                       else StatusPartiallyFilled) \<and>
        (o_FilledAt o2 = Some t \<or> o_Status o2 \<noteq> StatusFilled) \<and>
        (o_FilledQuantity o1 = 0 \<longrightarrow> o_AverageFillPrice o2 = Some p)"
proof (cases "ApplyFill q p t o1")
  case (Inl e)
  then show ?thesis
    by (auto simp: ApplyFill_def Let_def IsTerminal_def not_less dest: is_live_not_terminal
        split: if_splits)
next
  case (Inr o2)
  let ?nf = "fl64 (o_FilledQuantity o1 + q)"
  have a: "is_live (o_Status o1)" "0 < q" "?nf \<le> o_Quantity o1"
    using Inr by (simp_all add: ApplyFill_Inr Let_def)
  have z: "fl64 (o_Quantity o1 - ?nf) = 0 \<longleftrightarrow> o_Quantity o1 = ?nf"
    using assms by (intro fl64_diff_zero_iff) simp_all
  have "o_FilledQuantity o2 = ?nf" "o_Quantity o2 = o_Quantity o1"
    "o_Status o2 = (if o_Quantity o1 = ?nf then StatusFilled else StatusPartiallyFilled)"
    "o_Status o2 = StatusFilled \<Longrightarrow> o_FilledAt o2 = Some t"
    "o_AverageFillPrice o2 = Some (fillAverage (o_AverageFillPrice o1) (o_FilledQuantity o1) q p ?nf)"
    using Inr z by (auto simp: ApplyFill_Inr Let_def)
  then show ?thesis using a unfolding Inr sum.case
    by (auto simp: fillAverage_def split: option.splits)
qed

text \<open>Orders and fills in whole shares: no rounding happens, so fills that sum to the quantity
  leave the order filled.\<close>

definition apply_fills :: "(int \<times> float64 \<times> time) list \<Rightarrow> Order \<Rightarrow> domain_error + Order" where
  "apply_fills fs o' = fold_steps (\<lambda>(q, p, t). ApplyFill (of_int q) p t) fs o'"

lemma fl64_of_int: "\<bar>n\<bar> \<le> 2 ^ 53 \<Longrightarrow> fl64 (of_int n) = of_int n"
  by (intro fl64_id is_f64_int)

lemma ApplyFill_ok:
  assumes "is_live (o_Status o1)" "0 < q" "fl64 (o_FilledQuantity o1 + q) \<le> o_Quantity o1"
  shows "\<exists>o2. ApplyFill q p t o1 = Inr o2 \<and> o_Quantity o2 = o_Quantity o1 \<and>
    o_FilledQuantity o2 = fl64 (o_FilledQuantity o1 + q) \<and>
    o_Status o2 = (if fl64 (o_Quantity o1 - fl64 (o_FilledQuantity o1 + q)) = 0 then StatusFilled
                   else StatusPartiallyFilled)"
  using assms by (auto simp: ApplyFill_Inr Let_def)

lemma apply_fills_whole:
  assumes "o_Quantity o1 = of_int n" "o_FilledQuantity o1 = of_int m" "0 \<le> m" "n \<le> 2 ^ 53"
    "is_live (o_Status o1)" "\<forall>(q, p, t)\<in>set fs. 0 < q" "m + sum_list (map fst fs) \<le> n" "fs \<noteq> []"
  shows "\<exists>o2. apply_fills fs o1 = Inr o2 \<and> o_Quantity o2 = of_int n \<and>
    o_FilledQuantity o2 = of_int (m + sum_list (map fst fs)) \<and>
    o_Status o2 = (if m + sum_list (map fst fs) = n then StatusFilled else StatusPartiallyFilled)"
  using assms
proof (induction fs arbitrary: o1 m)
  case Nil
  then show ?case by simp
next
  case (Cons f fs)
  obtain q p t where f: "f = (q, p, t)" by (cases f) auto
  have nn: "0 \<le> sum_list (map fst fs)" using Cons.prems(6) by (intro sum_list_nonneg) auto
  have q: "0 < q" "m + q \<le> n" using Cons.prems(6,7) nn by (auto simp: f)
  have nf: "fl64 (o_FilledQuantity o1 + of_int q) = of_int (m + q)"
    using fl64_of_int [of "m + q"] q Cons.prems(2,3,4) by simp
  have rem: "fl64 (o_Quantity o1 - of_int (m + q)) = of_int (n - (m + q))"
    using fl64_of_int [of "n - (m + q)"] q Cons.prems(1,3,4) by simp
  obtain o2 where o2: "ApplyFill (of_int q) p t o1 = Inr o2"
    "o_Quantity o2 = of_int n" "o_FilledQuantity o2 = of_int (m + q)"
    "o_Status o2 = (if m + q = n then StatusFilled else StatusPartiallyFilled)"
    using ApplyFill_ok [of o1 "of_int q" p t] unfolding nf Cons.prems(1) rem [unfolded Cons.prems(1)]
    using q Cons.prems(5) by auto
  show ?case
  proof (cases fs)
    case Nil
    then show ?thesis using o2 by (simp add: apply_fills_def f)
  next
    case (Cons g gs)
    have "0 \<le> sum_list (map fst gs)" using Cons.prems(6) Cons by (intro sum_list_nonneg) auto
    then have "0 < sum_list (map fst fs)" using Cons.prems(6) Cons by (cases g) auto
    then have "m + q \<noteq> n" using Cons.prems(7) f by simp
    then show ?thesis
      using o2 Cons.IH [of o2 "m + q"] Cons.prems q Cons by (simp add: apply_fills_def f is_live_def add.assoc)
  qed
qed

text \<open>whole-share fills never drift: on a fresh accepted order of a whole quantity up to
  2 to the power 53, positive whole fills that sum to at most the quantity all succeed, the filled
  quantity is exactly their sum, and the order is filled exactly when the sum is the quantity.\<close>

theorem whole_fills_exact:
  assumes "o_Quantity o1 = of_int n" "n \<le> 2 ^ 53" "o_FilledQuantity o1 = 0"
    "o_Status o1 = StatusAccepted" "\<forall>(q, p, t)\<in>set fs. 0 < q" "sum_list (map fst fs) \<le> n" "fs \<noteq> []"
  shows "\<exists>o2. apply_fills fs o1 = Inr o2 \<and> o_FilledQuantity o2 = of_int (sum_list (map fst fs)) \<and>
    o_Status o2 = (if sum_list (map fst fs) = n then StatusFilled else StatusPartiallyFilled)"
  using apply_fills_whole [of o1 n 0 fs] assms by (auto simp: is_live_def)

subsection \<open>A concrete order\<close>

definition ex_order :: Order where
  "ex_order = \<lparr>o_ID = ''o-1'', o_TenantID = ''t'', o_UserID = ''u'', o_Symbol = ''AAPL'',
     o_Side = SideBuy, o_OrderType = OrderTypeLimit, o_Quantity = 10, o_FilledQuantity = 0,
     o_RemainingQuantity = 10, o_LimitPrice = Some 5, o_StopPrice = None,
     o_AverageFillPrice = None, o_TimeInForce = TimeInForceGTC, o_ExpiresAt = None, o_Version = 1,
     o_RiskDecisionID = None, o_RiskStatus = '''', o_RiskReasonCode = None,
     o_RiskReasonMessage = None, o_RiskEvaluatedAt = None, o_LastExecutionAt = None,
     o_Status = StatusAccepted, o_FillPrice = None, o_RejectReason = None,
     o_CorrelationID = '''', o_CreatedAt = 0, o_UpdatedAt = 0, o_CancelledAt = None,
     o_FilledAt = None, o_ExpiredAt = None, o_ExpiryReason = None\<rparr>"

lemma ex_order_ok: "quantities_ok ex_order"
  using is_f64_int [of 10] by (simp add: quantities_ok_def ex_order_def)

lemma ex_order_cancel: "apply_op (OpCancel 3) ex_order =
    Inr (ex_order\<lparr>o_Status := StatusCancelled, o_RemainingQuantity := 0, o_CancelledAt := Some 3,
                  o_UpdatedAt := 3\<rparr>)"
  by (simp add: ex_order_def Cancel_def is_live_def)

lemma ex_order_run: "order_run ex_order (ex_order\<lparr>o_Status := StatusCancelled,
    o_RemainingQuantity := 0, o_CancelledAt := Some 3, o_UpdatedAt := 3\<rparr>)"
  by (rule run_step [OF run_refl order_step.intros [OF _ ex_order_cancel]]) simp

lemma order_run_quantities_ok_witness: "\<exists>o2. o_Status o2 = StatusCancelled \<and> quantities_ok o2"
  using order_run_quantities_ok [OF ex_order_run ex_order_ok] by (intro exI conjI) auto

lemma order_terminal_absorbing_witness:
  "\<exists>e. apply_op (OpFill 1 1 0) (ex_order\<lparr>o_Status := StatusFilled\<rparr>) = Inl e"
  using order_terminal_absorbing [OF run_refl, of "ex_order\<lparr>o_Status := StatusFilled\<rparr>"]
  by (simp add: IsTerminal_def del: apply_op.simps)

lemma order_run_status_path_witness: "allowed\<^sup>*\<^sup>* StatusAccepted StatusCancelled"
  using order_run_status_path [OF ex_order_run] by (simp add: ex_order_def)

lemma ApplyFill_outcome_witness:
  "case ApplyFill 4 5 9 ex_order of Inl e \<Rightarrow> False | Inr o2 \<Rightarrow> o_Status o2 = StatusPartiallyFilled"
  using ApplyFill_outcome [of ex_order 4 9 5] is_f64_int [of 10]
  by (simp add: ex_order_def is_live_def split: sum.splits)

lemma whole_fills_exact_witness:
  "\<exists>o2. apply_fills [(4, 5, 1), (6, 5, 2)] ex_order = Inr o2 \<and> o_Status o2 = StatusFilled"
proof -
  have "o_Quantity ex_order = of_int 10" "o_FilledQuantity ex_order = 0"
    "o_Status ex_order = StatusAccepted" by (simp_all add: ex_order_def)
  then show ?thesis using whole_fills_exact [of ex_order 10 "[(4, 5, 1), (6, 5, 2)]"] by auto
qed

end
