(* ===== verification/Matching.thy ===== *)
theory Matching
  imports OrderDomain "HOL-Library.Product_Lexorder" "HOL-Library.Multiset"
begin

text \<open>
  The matching engine of the order service: \<open>internal/matching/types.go\<close> (exact rational orders,
  conversion from and to the domain), \<open>book.go\<close> (the two sides in price-time order) and
  \<open>engine.go\<close> (\<open>Match\<close>). A \<open>*big.Rat\<close> is a rational; the only field that can be nil is
  the limit price. \<open>sort.SliceStable\<close> compares every element of a slice of two or more, and
  \<open>Rat.Cmp\<close> on nil panics: that panic is the value \<open>None\<close> of \<open>NewBook\<close> and \<open>Match\<close>. The
  rationals of the result are the ones of the arguments, updated in place: the model returns them.
  Lemmas: the order of the book, conservation of quantity, no over-fill, the price rule, priority
  (no better resting order is skipped), and the outcome for each time in force.
\<close>

subsection \<open>Types\<close>

record MatchOrder =
  m_ID :: string
  m_TenantID :: string
  m_UserID :: string
  m_Symbol :: string
  m_Side :: string
  m_OrderType :: string
  m_TimeInForce :: string
  m_Quantity :: rat
  m_FilledQuantity :: rat
  m_RemainingQuantity :: rat
  m_LimitPrice :: "rat option"
  m_CreatedAt :: time

record Execution =
  x_ID :: string
  x_BuyOrderID :: string
  x_SellOrderID :: string
  x_BuyerUserID :: string
  x_SellerUserID :: string
  x_Symbol :: string
  x_Quantity :: rat
  x_Price :: rat
  x_ExecutedAt :: time

record MatchResult =
  r_Incoming :: MatchOrder
  r_Resting :: "MatchOrder list"
  r_Executions :: "Execution list"
  r_Rested :: bool
  r_Cancelled :: bool

definition ratFromFloat :: "float64 \<Rightarrow> rat" where
  "ratFromFloat value = shortest value"

definition ratFromPtr :: "float64 option \<Rightarrow> rat option" where
  "ratFromPtr value = map_option ratFromFloat value"

definition ratFloat :: "rat \<Rightarrow> float64" where
  "ratFloat r = fl64 r"

text \<open>The decimal text with ten digits, as the number it denotes.\<close>

definition RatString :: "rat \<Rightarrow> rat" where
  "RatString r = dec_half_away 10 r"

definition FromDomain :: "Order \<Rightarrow> MatchOrder" where
  "FromDomain order = \<lparr>m_ID = o_ID order, m_TenantID = o_TenantID order,
     m_UserID = o_UserID order, m_Symbol = o_Symbol order, m_Side = o_Side order,
     m_OrderType = o_OrderType order, m_TimeInForce = o_TimeInForce order,
     m_Quantity = ratFromFloat (o_Quantity order),
     m_FilledQuantity = ratFromFloat (o_FilledQuantity order),
     m_RemainingQuantity = ratFromFloat (o_RemainingQuantity order),
     m_LimitPrice = ratFromPtr (o_LimitPrice order), m_CreatedAt = o_CreatedAt order\<rparr>"

definition ApplyToDomain :: "MatchOrder \<Rightarrow> Order \<Rightarrow> Order" where
  "ApplyToDomain src dst =
     dst\<lparr>o_FilledQuantity := ratFloat (m_FilledQuantity src),
         o_RemainingQuantity := ratFloat (m_RemainingQuantity src)\<rparr>"

subsection \<open>The book\<close>

record Book =
  Bids :: "MatchOrder list"
  Asks :: "MatchOrder list"

definition price_of :: "MatchOrder \<Rightarrow> rat" where
  "price_of x = (case m_LimitPrice x of None \<Rightarrow> 0 | Some p \<Rightarrow> p)"

text \<open>The two \<open>less\<close> functions of \<open>Sort\<close>, and the keys whose order they are.\<close>

definition bid_less :: "MatchOrder \<Rightarrow> MatchOrder \<Rightarrow> bool" where
  "bid_less a b = (if price_of a = price_of b then m_CreatedAt a < m_CreatedAt b
                   else price_of a > price_of b)"

definition ask_less :: "MatchOrder \<Rightarrow> MatchOrder \<Rightarrow> bool" where
  "ask_less a b = (if price_of a = price_of b then m_CreatedAt a < m_CreatedAt b
                   else price_of a < price_of b)"

definition bid_key :: "MatchOrder \<Rightarrow> rat \<times> int" where
  "bid_key x = (- price_of x, m_CreatedAt x)"

definition ask_key :: "MatchOrder \<Rightarrow> rat \<times> int" where
  "ask_key x = (price_of x, m_CreatedAt x)"

lemma bid_less_key: "bid_less a b \<longleftrightarrow> bid_key a < bid_key b"
  by (auto simp: bid_less_def bid_key_def less_prod_def)

lemma ask_less_key: "ask_less a b \<longleftrightarrow> ask_key a < ask_key b"
  by (auto simp: ask_less_def ask_key_def less_prod_def)

definition sort_panics :: "MatchOrder list \<Rightarrow> bool" where
  "sort_panics xs = (2 \<le> length xs \<and> (\<exists>x\<in>set xs. m_LimitPrice x = None))"

definition Sort :: "Book \<Rightarrow> Book option" where
  "Sort b = (if sort_panics (Bids b) \<or> sort_panics (Asks b) then None
             else Some \<lparr>Bids = sort_key bid_key (Bids b), Asks = sort_key ask_key (Asks b)\<rparr>)"

definition NewBook :: "MatchOrder list \<Rightarrow> Book option" where
  "NewBook resting = Sort \<lparr>Bids = filter (\<lambda>x. m_Side x = SideBuy) resting,
                           Asks = filter (\<lambda>x. m_Side x \<noteq> SideBuy) resting\<rparr>"

definition RestingFor :: "Book \<Rightarrow> MatchOrder \<Rightarrow> MatchOrder list" where
  "RestingFor b incoming = (if m_Side incoming = SideBuy then Asks b else Bids b)"

subsection \<open>Matching\<close>

definition crosses :: "MatchOrder \<Rightarrow> MatchOrder \<Rightarrow> bool" where
  "crosses incoming maker =
     (case m_LimitPrice maker of
        None \<Rightarrow> False
      | Some mp \<Rightarrow>
          if m_OrderType incoming = OrderTypeMarket then True
          else (case m_LimitPrice incoming of
                  None \<Rightarrow> False
                | Some ip \<Rightarrow> if m_Side incoming = SideBuy then mp \<le> ip else mp \<ge> ip))"

fun fill_scan :: "MatchOrder \<Rightarrow> rat \<Rightarrow> MatchOrder list \<Rightarrow> bool" where
  "fill_scan incoming available [] = False"
| "fill_scan incoming available (maker # ms) =
     (if \<not> crosses incoming maker then False
      else let a = available + m_RemainingQuantity maker
           in if a \<ge> m_RemainingQuantity incoming then True else fill_scan incoming a ms)"

definition canFullyFill :: "MatchOrder \<Rightarrow> MatchOrder list \<Rightarrow> bool" where
  "canFullyFill incoming resting = fill_scan incoming 0 resting"

definition shouldCancelRemainder :: "MatchOrder \<Rightarrow> bool" where
  "shouldCancelRemainder order =
     (if m_RemainingQuantity order = 0 then False
      else m_OrderType order = OrderTypeMarket \<or> m_TimeInForce order = TimeInForceIOC \<or>
           m_TimeInForce order = TimeInForceFOK)"

definition minRat :: "rat \<Rightarrow> rat \<Rightarrow> rat" where
  "minRat a b = (if a \<le> b then a else b)"

text \<open>The quantity bookkeeping of one fill, and the execution it records.\<close>

definition fill_order :: "rat \<Rightarrow> MatchOrder \<Rightarrow> MatchOrder" where
  "fill_order qty x = x\<lparr>m_RemainingQuantity := m_RemainingQuantity x - qty,
                        m_FilledQuantity := m_FilledQuantity x + qty\<rparr>"

definition make_execution :: "MatchOrder \<Rightarrow> MatchOrder \<Rightarrow> rat \<Rightarrow> rat \<Rightarrow> time \<Rightarrow> Execution" where
  "make_execution incoming maker qty price now =
     (if m_Side incoming = SideBuy
      then \<lparr>x_ID = '''', x_BuyOrderID = m_ID incoming, x_SellOrderID = m_ID maker,
            x_BuyerUserID = m_UserID incoming, x_SellerUserID = m_UserID maker,
            x_Symbol = m_Symbol incoming, x_Quantity = qty, x_Price = price, x_ExecutedAt = now\<rparr>
      else \<lparr>x_ID = '''', x_BuyOrderID = m_ID maker, x_SellOrderID = m_ID incoming,
            x_BuyerUserID = m_UserID maker, x_SellerUserID = m_UserID incoming,
            x_Symbol = m_Symbol incoming, x_Quantity = qty, x_Price = price, x_ExecutedAt = now\<rparr>)"

text \<open>The loop over the candidates: the incoming order afterwards, the makers appended to
  \<open>result.Resting\<close> and the executions, both in order.\<close>

fun match_loop :: "time \<Rightarrow> MatchOrder list \<Rightarrow> MatchOrder
    \<Rightarrow> MatchOrder \<times> MatchOrder list \<times> Execution list" where
  "match_loop now [] incoming = (incoming, [], [])"
| "match_loop now (maker # candidates) incoming =
     (if m_RemainingQuantity incoming = 0 then (incoming, [], [])
      else if \<not> crosses incoming maker then (incoming, [], [])
      else
        let qty = minRat (m_RemainingQuantity incoming) (m_RemainingQuantity maker)
        in case m_LimitPrice maker of
             None \<Rightarrow> match_loop now candidates incoming
           | Some price \<Rightarrow>
               if qty = 0 then match_loop now candidates incoming
               else (case match_loop now candidates (fill_order qty incoming) of
                       (inc, ms, xs) \<Rightarrow>
                         (inc, fill_order qty maker # ms,
                          make_execution incoming maker qty price now # xs)))"

definition with_tif :: "MatchOrder \<Rightarrow> MatchOrder" where
  "with_tif inc =
     (if m_TimeInForce inc = '''' then inc\<lparr>m_TimeInForce := TimeInForceDay\<rparr> else inc)"

definition Match :: "MatchOrder \<Rightarrow> MatchOrder list \<Rightarrow> time \<Rightarrow> MatchResult option" where
  "Match incoming0 resting now =
     (case NewBook resting of
        None \<Rightarrow> None
      | Some book \<Rightarrow>
          let incoming = with_tif incoming0
          in if m_TimeInForce incoming = TimeInForceFOK \<and>
                \<not> canFullyFill incoming (RestingFor book incoming)
             then Some \<lparr>r_Incoming = incoming, r_Resting = resting, r_Executions = [],
                        r_Rested = False, r_Cancelled = True\<rparr>
             else (case match_loop now (RestingFor book incoming) incoming of
                     (inc, ms, xs) \<Rightarrow>
                       Some \<lparr>r_Incoming = inc, r_Resting = ms, r_Executions = xs,
                             r_Rested = (m_RemainingQuantity inc > 0 \<and>
                                         \<not> shouldCancelRemainder inc),
                             r_Cancelled = shouldCancelRemainder inc\<rparr>))"


subsection \<open>The order of the book\<close>

lemmas Match_defs = Match_def NewBook_def Sort_def

text \<open>\<open>side_ok\<close> holds of a sorted side: it is ordered by its key, and a missing price occurs only
  in a side of one order.\<close>

definition ahead :: "bool \<Rightarrow> MatchOrder \<Rightarrow> MatchOrder \<Rightarrow> bool" where
  "ahead asks a b = (if asks then \<not> ask_less b a else \<not> bid_less b a)"

definition side_ok :: "bool \<Rightarrow> MatchOrder list \<Rightarrow> bool" where
  "side_ok asks cs \<longleftrightarrow> sorted_wrt (ahead asks) cs \<and> \<not> sort_panics cs"

lemma sorted_wrt_ask_key: "sorted_wrt (ahead True) (sort_key ask_key xs)"
  using sorted_sort_key [of ask_key xs] unfolding sorted_map
  by (rule sorted_wrt_mono_rel [rotated]) (simp add: ahead_def ask_less_key not_less)

lemma sorted_wrt_bid_key: "sorted_wrt (ahead False) (sort_key bid_key xs)"
  using sorted_sort_key [of bid_key xs] unfolding sorted_map
  by (rule sorted_wrt_mono_rel [rotated]) (simp add: ahead_def bid_less_key not_less)

definition candidates_of :: "MatchOrder \<Rightarrow> MatchOrder list \<Rightarrow> MatchOrder list" where
  "candidates_of incoming resting =
     (if m_Side incoming = SideBuy
      then sort_key ask_key (filter (\<lambda>x. m_Side x \<noteq> SideBuy) resting)
      else sort_key bid_key (filter (\<lambda>x. m_Side x = SideBuy) resting))"

lemma NewBook_RestingFor:
  assumes "NewBook resting = Some book"
  shows "RestingFor book incoming = candidates_of incoming resting"
    and "side_ok (m_Side incoming = SideBuy) (candidates_of incoming resting)"
  using assms sorted_wrt_ask_key sorted_wrt_bid_key
  by (auto simp: NewBook_def Sort_def RestingFor_def candidates_of_def side_ok_def sort_panics_def
      split: if_splits)

lemma set_candidates_of:
  "set (candidates_of incoming resting) =
   {c \<in> set resting. (m_Side c = SideBuy) \<noteq> (m_Side incoming = SideBuy)}"
  by (auto simp: candidates_of_def)

lemma mset_candidates_of:
  "mset (candidates_of incoming resting) =
   mset (filter (\<lambda>c. (m_Side c = SideBuy) \<noteq> (m_Side incoming = SideBuy)) resting)"
  by (simp add: candidates_of_def)

text \<open>Once an order of a sorted side does not cross, none behind it does.\<close>

lemma crosses_behind:
  assumes "ahead (m_Side inc = SideBuy) a b" "m_LimitPrice a = Some p" "crosses inc b"
  shows "crosses inc a"
  using assms
  by (auto simp: ahead_def ask_less_def bid_less_def crosses_def price_of_def
      split: if_splits option.splits)

lemma not_crosses_rest:
  assumes "side_ok (m_Side inc = SideBuy) (c # cs)" "\<not> crosses inc c" "d \<in> set (c # cs)"
  shows "\<not> crosses inc d"
proof (cases "d = c")
  case True
  with assms(2) show ?thesis by simp
next
  case False
  then have d: "d \<in> set cs" using assms(3) by simp
  then have "ahead (m_Side inc = SideBuy) c d" using assms(1) by (simp add: side_ok_def)
  moreover have "\<exists>p. m_LimitPrice c = Some p"
    using assms(1) d by (cases cs) (auto simp: side_ok_def sort_panics_def)
  ultimately show ?thesis using crosses_behind assms(2) by blast
qed

lemma side_ok_Cons: "side_ok b (c # cs) \<Longrightarrow> side_ok b cs"
  by (auto simp: side_ok_def sort_panics_def)

subsection \<open>What the loop does\<close>

abbreviation traded :: "Execution list \<Rightarrow> rat" where
  "traded xs \<equiv> sum_list (map x_Quantity xs)"

abbreviation nonempty :: "MatchOrder list \<Rightarrow> MatchOrder list" where
  "nonempty cs \<equiv> filter (\<lambda>c. m_RemainingQuantity c \<noteq> 0) cs"

lemma fill_order_simps [simp]:
  "m_ID (fill_order q x) = m_ID x" "m_Side (fill_order q x) = m_Side x"
  "m_UserID (fill_order q x) = m_UserID x" "m_Symbol (fill_order q x) = m_Symbol x"
  "m_TenantID (fill_order q x) = m_TenantID x" "m_Quantity (fill_order q x) = m_Quantity x"
  "m_OrderType (fill_order q x) = m_OrderType x" "m_TimeInForce (fill_order q x) = m_TimeInForce x"
  "m_LimitPrice (fill_order q x) = m_LimitPrice x" "m_CreatedAt (fill_order q x) = m_CreatedAt x"
  "m_RemainingQuantity (fill_order q x) = m_RemainingQuantity x - q"
  "m_FilledQuantity (fill_order q x) = m_FilledQuantity x + q"
  "fill_order p (fill_order q x) = fill_order (q + p) x" "fill_order 0 x = x"
  by (simp_all add: fill_order_def algebra_simps)

lemma make_execution_simps [simp]:
  "x_Quantity (make_execution i m q p t) = q" "x_Price (make_execution i m q p t) = p"
  "x_ExecutedAt (make_execution i m q p t) = t" "x_Symbol (make_execution i m q p t) = m_Symbol i"
  by (simp_all add: make_execution_def)

lemma crosses_fill [simp]: "crosses (fill_order q inc) m = crosses inc m"
  by (simp add: crosses_def split: option.splits)

text \<open>The incoming order is filled by the sum of the executions.\<close>

lemma match_loop_incoming:
  "match_loop now cs inc = (inc', ms, xs) \<Longrightarrow> inc' = fill_order (traded xs) inc"
  by (induction now cs inc arbitrary: inc' ms xs rule: match_loop.induct)
    (auto simp: Let_def split: if_splits option.splits prod.splits)

text \<open>Each execution has its maker: the makers are the first non-empty candidates, in order.\<close>

definition trade_of :: "MatchOrder \<Rightarrow> time \<Rightarrow> Execution \<Rightarrow> MatchOrder \<Rightarrow> bool" where
  "trade_of inc now x c \<longleftrightarrow> crosses inc c \<and> m_LimitPrice c = Some (x_Price x) \<and>
     x = make_execution inc c (x_Quantity x) (x_Price x) now"

lemma make_execution_fill [simp]: "make_execution (fill_order q i) m q' p t = make_execution i m q' p t"
  by (simp add: make_execution_def)

lemma trade_of_fill [simp]: "trade_of (fill_order q inc) now x c = trade_of inc now x c"
  by (simp add: trade_of_def)

lemma match_loop_cases:
  assumes "0 \<le> m_RemainingQuantity inc"
  obtains (stop) "m_RemainingQuantity inc = 0 \<or> \<not> crosses inc c"
      "match_loop now (c # cs) inc = (inc, [], [])"
  | (skip) "0 < m_RemainingQuantity inc" "crosses inc c" "m_RemainingQuantity c = 0"
      "match_loop now (c # cs) inc = match_loop now cs inc"
  | (fill) p q i ms xs where "0 < m_RemainingQuantity inc" "crosses inc c"
      "m_LimitPrice c = Some p" "q = minRat (m_RemainingQuantity inc) (m_RemainingQuantity c)"
      "q \<noteq> 0" "m_RemainingQuantity c \<noteq> 0" "0 \<le> m_RemainingQuantity (fill_order q inc)"
      "match_loop now cs (fill_order q inc) = (i, ms, xs)"
      "match_loop now (c # cs) inc =
         (i, fill_order q c # ms, make_execution inc c q p now # xs)"
proof (cases "m_RemainingQuantity inc = 0 \<or> \<not> crosses inc c")
  case True
  then show ?thesis by (intro stop) auto
next
  case False
  let ?q = "minRat (m_RemainingQuantity inc) (m_RemainingQuantity c)"
  from False obtain p where p: "m_LimitPrice c = Some p"
    by (auto simp: crosses_def split: option.splits)
  have pos: "0 < m_RemainingQuantity inc" using False assms by simp
  obtain i ms xs where r: "match_loop now cs (fill_order ?q inc) = (i, ms, xs)"
    by (cases "match_loop now cs (fill_order ?q inc)") auto
  show ?thesis
  proof (cases "m_RemainingQuantity c = 0")
    case True
    then have "?q = 0" using pos by (simp add: minRat_def)
    then show ?thesis using False True p pos by (intro skip) auto
  next
    case ne: False
    then have "?q \<noteq> 0" using pos by (simp add: minRat_def)
    moreover have "0 \<le> m_RemainingQuantity (fill_order ?q inc)" using assms by (simp add: minRat_def)
    ultimately show ?thesis using False p pos ne r by (intro fill [OF _ _ p refl _ ne _ r]) (auto simp: Let_def)
  qed
qed

lemma match_loop_makers:
  assumes "match_loop now cs inc = (inc', ms, xs)" "0 \<le> m_RemainingQuantity inc"
  shows "length xs \<le> length (nonempty cs)"
    and "ms = map2 (\<lambda>x c. fill_order (x_Quantity x) c) xs (take (length xs) (nonempty cs))"
    and "list_all2 (trade_of inc now) xs (take (length xs) (nonempty cs))"
proof -
  have "length xs \<le> length (nonempty cs) \<and>
      ms = map2 (\<lambda>x c. fill_order (x_Quantity x) c) xs (take (length xs) (nonempty cs)) \<and>
      list_all2 (trade_of inc now) xs (take (length xs) (nonempty cs))"
    using assms
  proof (induction cs arbitrary: inc inc' ms xs)
    case Nil
    then show ?case by simp
  next
    case (Cons c cs)
    show ?case
    proof (rule match_loop_cases [OF Cons.prems(2), of c now cs])
      fix p q i ms' xs'
      assume f: "crosses inc c" "m_LimitPrice c = Some p" "m_RemainingQuantity c \<noteq> 0"
        "0 \<le> m_RemainingQuantity (fill_order q inc)"
        "match_loop now cs (fill_order q inc) = (i, ms', xs')"
        "match_loop now (c # cs) inc =
           (i, fill_order q c # ms', make_execution inc c q p now # xs')"
      have "trade_of inc now (make_execution inc c q p now) c" using f by (simp add: trade_of_def)
      moreover have "list_all2 (trade_of inc now) xs' (take (length xs') (nonempty cs))"
        using Cons.IH [OF f(5) f(4)] by (simp add: trade_of_fill [abs_def])
      ultimately show ?thesis using Cons.IH [OF f(5) f(4)] Cons.prems(1) f by auto
    qed (use Cons in auto)
  qed
  then show "length xs \<le> length (nonempty cs)"
    "ms = map2 (\<lambda>x c. fill_order (x_Quantity x) c) xs (take (length xs) (nonempty cs))"
    "list_all2 (trade_of inc now) xs (take (length xs) (nonempty cs))" by auto
qed

text \<open>Quantities never go below zero, and every maker but the last is used up.\<close>

lemma match_loop_bounds:
  assumes "match_loop now cs inc = (inc', ms, xs)" "0 \<le> m_RemainingQuantity inc"
    and "\<forall>c\<in>set cs. 0 \<le> m_RemainingQuantity c"
  shows "0 \<le> m_RemainingQuantity inc' \<and> (\<forall>x\<in>set xs. 0 < x_Quantity x) \<and>
    (\<forall>m\<in>set ms. 0 \<le> m_RemainingQuantity m) \<and> (\<forall>m\<in>set (butlast ms). m_RemainingQuantity m = 0) \<and>
    (m_RemainingQuantity inc' \<noteq> 0 \<longrightarrow> (\<forall>m\<in>set ms. m_RemainingQuantity m = 0))"
  using assms
proof (induction cs arbitrary: inc inc' ms xs)
  case Nil
  then show ?case by simp
next
  case (Cons c cs)
  show ?case
  proof (rule match_loop_cases [OF Cons.prems(2), of c now cs])
    fix p q i ms' xs'
    assume f: "0 < m_RemainingQuantity inc" "m_RemainingQuantity c \<noteq> 0"
      "q = minRat (m_RemainingQuantity inc) (m_RemainingQuantity c)"
      "0 \<le> m_RemainingQuantity (fill_order q inc)"
      "match_loop now cs (fill_order q inc) = (i, ms', xs')"
      "match_loop now (c # cs) inc =
         (i, fill_order q c # ms', make_execution inc c q p now # xs')"
    have c: "0 < m_RemainingQuantity c" using f(2) Cons.prems(3) by fastforce
    then have q: "0 < q" "q \<le> m_RemainingQuantity c" using f(1,3) by (auto simp: minRat_def)
    note IH = Cons.IH [OF f(5) f(4)]
    have last: "m_RemainingQuantity c = q" if "ms' \<noteq> [] \<or> m_RemainingQuantity i \<noteq> 0"
    proof (rule ccontr)
      assume "m_RemainingQuantity c \<noteq> q"
      then have z: "m_RemainingQuantity (fill_order q inc) = 0"
        using f(3) by (auto simp: minRat_def split: if_splits)
      then have "i = fill_order q inc \<and> ms' = []" using f(5) by (cases cs) auto
      then show False using that z by simp
    qed
    have eq: "ms = fill_order q c # ms'" "xs = make_execution inc c q p now # xs'" "inc' = i"
      using f(6) Cons.prems(1) by auto
    have cs: "\<forall>c\<in>set cs. 0 \<le> m_RemainingQuantity c" using Cons.prems(3) by simp
    from Cons.IH [OF f(5) f(4) cs] have IH: "0 \<le> m_RemainingQuantity i"
      "\<forall>x\<in>set xs'. 0 < x_Quantity x" "\<forall>m\<in>set ms'. 0 \<le> m_RemainingQuantity m"
      "\<forall>m\<in>set (butlast ms'). m_RemainingQuantity m = 0"
      "m_RemainingQuantity i \<noteq> 0 \<longrightarrow> (\<forall>m\<in>set ms'. m_RemainingQuantity m = 0)" by blast+
    have "\<forall>m\<in>set (butlast ms). m_RemainingQuantity m = 0"
      using IH(4) last unfolding eq by (cases "ms' = []") auto
    moreover have "m_RemainingQuantity i \<noteq> 0 \<longrightarrow> (\<forall>m\<in>set ms. m_RemainingQuantity m = 0)"
      using IH(5) last unfolding eq by simp
    moreover have "\<forall>m\<in>set ms. 0 \<le> m_RemainingQuantity m" using IH(3) q unfolding eq by simp
    moreover have "\<forall>x\<in>set xs. 0 < x_Quantity x" using IH(2) q unfolding eq by simp
    ultimately show ?thesis using IH(1) eq(3) by simp
  next
    assume "match_loop now (c # cs) inc = (inc, [], [])"
    then have "inc' = inc" "ms = []" "xs = []" using Cons.prems(1) by simp_all
    then show ?thesis using Cons.prems(2) by simp
  next
    assume "match_loop now (c # cs) inc = match_loop now cs inc"
    then have r: "match_loop now cs inc = (inc', ms, xs)" using Cons.prems(1) by simp
    have "\<forall>c\<in>set cs. 0 \<le> m_RemainingQuantity c" using Cons.prems(3) by simp
    then show ?thesis by (rule Cons.IH [OF r Cons.prems(2)])
  qed
qed

text \<open>The loop ends with the incoming order filled, or with every candidate that still crosses
  used up.\<close>

lemma match_loop_exhausts:
  assumes "match_loop now cs inc = (inc', ms, xs)" "0 \<le> m_RemainingQuantity inc"
    and "side_ok (m_Side inc = SideBuy) cs" "0 < m_RemainingQuantity inc'"
  shows "\<forall>c\<in>set (drop (length xs) (nonempty cs)). \<not> crosses inc c"
  using assms
proof (induction cs arbitrary: inc inc' ms xs)
  case Nil
  then show ?case by simp
next
  case (Cons c cs)
  note so = side_ok_Cons [OF Cons.prems(3)]
  show ?case
  proof (rule match_loop_cases [OF Cons.prems(2), of c now cs])
    assume s: "m_RemainingQuantity inc = 0 \<or> \<not> crosses inc c"
      "match_loop now (c # cs) inc = (inc, [], [])"
    then have "\<not> crosses inc c" using Cons.prems(1,4) by auto
    then show ?thesis using not_crosses_rest [OF Cons.prems(3)] s Cons.prems(1) by auto
  next
    fix p q i ms' xs'
    assume f: "m_RemainingQuantity c \<noteq> 0" "0 \<le> m_RemainingQuantity (fill_order q inc)"
      "match_loop now cs (fill_order q inc) = (i, ms', xs')"
      "match_loop now (c # cs) inc =
         (i, fill_order q c # ms', make_execution inc c q p now # xs')"
    show ?thesis using Cons.IH [OF f(3) f(2)] so f Cons.prems(1,4) by auto
  next
    assume f: "m_RemainingQuantity c = 0" "match_loop now (c # cs) inc = match_loop now cs inc"
    show ?thesis using Cons.IH [OF _ Cons.prems(2) so Cons.prems(4)] f Cons.prems(1) by auto
  qed
qed

subsection \<open>What a match does\<close>

abbreviation opposite :: "MatchOrder \<Rightarrow> MatchOrder \<Rightarrow> bool" where
  "opposite inc c \<equiv> (m_Side c = SideBuy) \<noteq> (m_Side inc = SideBuy)"

lemma with_tif_simps [simp]:
  "m_ID (with_tif inc) = m_ID inc" "m_Side (with_tif inc) = m_Side inc"
  "m_UserID (with_tif inc) = m_UserID inc" "m_OrderType (with_tif inc) = m_OrderType inc"
  "m_LimitPrice (with_tif inc) = m_LimitPrice inc"
  "m_FilledQuantity (with_tif inc) = m_FilledQuantity inc"
  "m_RemainingQuantity (with_tif inc) = m_RemainingQuantity inc"
  "crosses (with_tif inc) c = crosses inc c" "make_execution (with_tif inc) c q p t = make_execution inc c q p t"
  "m_TimeInForce (with_tif inc) = TimeInForceFOK \<longleftrightarrow> m_TimeInForce inc = TimeInForceFOK"
  "m_TimeInForce (with_tif inc) = TimeInForceIOC \<longleftrightarrow> m_TimeInForce inc = TimeInForceIOC"
  by (auto simp: with_tif_def crosses_def make_execution_def split: option.splits)

lemma trade_of_tif [simp]: "trade_of (with_tif inc) now x c = trade_of inc now x c"
  by (simp add: trade_of_def)

lemma canFullyFill_tif [simp]: "canFullyFill (with_tif inc) cs = canFullyFill inc cs"
proof -
  have "fill_scan (with_tif inc) a cs = fill_scan inc a cs" for a
    by (induction cs arbitrary: a) (simp_all add: Let_def)
  then show ?thesis by (simp add: canFullyFill_def)
qed

lemma candidates_of_tif [simp]: "candidates_of (with_tif inc) rs = candidates_of inc rs"
  by (simp add: candidates_of_def)

lemma Match_cases:
  assumes "Match inc resting now = Some r"
  obtains (killed) "m_TimeInForce inc = TimeInForceFOK"
      "\<not> canFullyFill inc (candidates_of inc resting)"
      "r = \<lparr>r_Incoming = with_tif inc, r_Resting = resting, r_Executions = [],
            r_Rested = False, r_Cancelled = True\<rparr>"
  | (matched) inc' ms xs where
      "m_TimeInForce inc = TimeInForceFOK \<Longrightarrow> canFullyFill inc (candidates_of inc resting)"
      "side_ok (m_Side inc = SideBuy) (candidates_of inc resting)"
      "match_loop now (candidates_of inc resting) (with_tif inc) = (inc', ms, xs)"
      "r = \<lparr>r_Incoming = inc', r_Resting = ms, r_Executions = xs,
            r_Rested = (m_RemainingQuantity inc' > 0 \<and> \<not> shouldCancelRemainder inc'),
            r_Cancelled = shouldCancelRemainder inc'\<rparr>"
proof -
  obtain book where b: "NewBook resting = Some book"
    using assms by (auto simp: Match_def split: option.splits)
  have c: "RestingFor book i = candidates_of i resting" for i
    by (rule NewBook_RestingFor(1) [OF b])
  have ok: "side_ok (m_Side inc = SideBuy) (candidates_of inc resting)"
    by (rule NewBook_RestingFor(2) [OF b])
  obtain inc' ms xs where l: "match_loop now (candidates_of inc resting) (with_tif inc) = (inc', ms, xs)"
    by (cases "match_loop now (candidates_of inc resting) (with_tif inc)") auto
  show ?thesis
  proof (cases "m_TimeInForce inc = TimeInForceFOK \<and> \<not> canFullyFill inc (candidates_of inc resting)")
    case True
    then show ?thesis using assms b c by (intro killed) (simp_all add: Match_def Let_def)
  next
    case False
    then have g: "m_TimeInForce inc = TimeInForceFOK \<Longrightarrow> canFullyFill inc (candidates_of inc resting)"
      by blast
    have "\<not> (m_TimeInForce (with_tif inc) = TimeInForceFOK \<and>
        \<not> canFullyFill (with_tif inc) (candidates_of inc resting))"
      using False by auto
    then show ?thesis using assms b c l
      by (intro matched [OF g ok l]) (auto simp: Match_def Let_def split: if_splits)
  qed
qed

lemma trade_of_ids:
  assumes "trade_of inc now x c"
  shows "if m_Side inc = SideBuy then x_BuyOrderID x = m_ID inc \<and> x_SellOrderID x = m_ID c
     else x_BuyOrderID x = m_ID c \<and> x_SellOrderID x = m_ID inc"
  using assms by (cases x) (simp add: trade_of_def make_execution_def split: if_splits)

subsection \<open>Properties of a match\<close>


text \<open>C1: matching conserves quantity. What the incoming order gains in filled quantity and loses
  in remaining quantity is the sum of the executions, and each execution takes the same quantity
  from one resting order of the other side.\<close>

theorem match_conserves_quantity:
  assumes "Match inc resting now = Some r" "0 \<le> m_RemainingQuantity inc"
  shows "m_FilledQuantity (r_Incoming r) = m_FilledQuantity inc + traded (r_Executions r) \<and>
    m_RemainingQuantity (r_Incoming r) = m_RemainingQuantity inc - traded (r_Executions r) \<and>
    (\<exists>makers. mset makers \<subseteq># mset (filter (opposite inc) resting) \<and>
       length makers = length (r_Executions r) \<and>
       (r_Executions r \<noteq> [] \<longrightarrow>
        r_Resting r = map2 (\<lambda>x c. fill_order (x_Quantity x) c) (r_Executions r) makers))"
  using assms(1)
proof (cases rule: Match_cases)
  case killed
  then show ?thesis by (auto intro!: exI [of _ "[]"])
next
  case (matched inc' ms xs)
  let ?mk = "take (length xs) (nonempty (candidates_of inc resting))"
  have nn: "0 \<le> m_RemainingQuantity (with_tif inc)" using assms(2) by simp
  note mk = match_loop_makers [OF matched(3) nn]
  have "mset ?mk \<subseteq># mset (nonempty (candidates_of inc resting))"
    by (metis append_take_drop_id mset_append mset_subset_eq_add_left)
  also have "\<dots> \<subseteq># mset (candidates_of inc resting)" by simp
  also have "\<dots> = mset (filter (opposite inc) resting)" by (rule mset_candidates_of)
  finally have sub: "mset ?mk \<subseteq># mset (filter (opposite inc) resting)" .
  have len: "length ?mk = length xs" using mk(1) by simp
  have "m_FilledQuantity inc' = m_FilledQuantity inc + traded xs"
    "m_RemainingQuantity inc' = m_RemainingQuantity inc - traded xs"
    using match_loop_incoming [OF matched(3)] by simp_all
  moreover have "ms = map2 (\<lambda>x c. fill_order (x_Quantity x) c) xs ?mk" by (rule mk(2))
  ultimately show ?thesis unfolding matched(4) using sub len by auto
qed

text \<open>C3: the executions of a match. Each one trades with a resting order of the other side at
  that order's limit price, for a positive quantity that both sides still had; the price is within
  the incoming order's own limit; and the buy order named is the one whose side is BUY.\<close>

theorem match_execution_terms:
  assumes "Match inc resting now = Some r" "0 \<le> m_RemainingQuantity inc"
    "\<forall>c\<in>set resting. 0 \<le> m_RemainingQuantity c" "x \<in> set (r_Executions r)"
  shows "\<exists>c\<in>set resting. opposite inc c \<and> m_LimitPrice c = Some (x_Price x) \<and>
    0 < x_Quantity x \<and> x_Quantity x \<le> m_RemainingQuantity inc \<and>
    x_Quantity x \<le> m_RemainingQuantity c \<and>
    (m_OrderType inc \<noteq> OrderTypeMarket \<longrightarrow> (\<exists>ip. m_LimitPrice inc = Some ip \<and>
       (if m_Side inc = SideBuy then x_Price x \<le> ip else x_Price x \<ge> ip))) \<and>
    (if m_Side inc = SideBuy then x_BuyOrderID x = m_ID inc \<and> x_SellOrderID x = m_ID c
     else x_BuyOrderID x = m_ID c \<and> x_SellOrderID x = m_ID inc)"
  using assms(1)
proof (cases rule: Match_cases)
  case killed
  then show ?thesis using assms(4) by simp
next
  case (matched inc' ms xs)
  have nn: "0 \<le> m_RemainingQuantity (with_tif inc)" using assms(2) by simp
  have cs: "\<forall>c\<in>set (candidates_of inc resting). 0 \<le> m_RemainingQuantity c"
    using assms(3) by (simp add: set_candidates_of)
  have x: "x \<in> set xs" using assms(4) matched(4) by simp
  note mk = match_loop_makers [OF matched(3) nn]
  note bd = match_loop_bounds [OF matched(3) nn cs]
  let ?mk = "take (length xs) (nonempty (candidates_of inc resting))"
  obtain i where i: "i < length xs" "x = xs ! i" using x by (auto simp: in_set_conv_nth)
  let ?c = "?mk ! i"
  have t: "trade_of inc now x ?c" using mk(3) i by (simp add: list_all2_conv_all_nth)
  have il: "i < length ?mk" using mk(1) i(1) by simp
  have "?c \<in> set (candidates_of inc resting)"
    using nth_mem [OF il] by (meson filter_is_subset in_set_takeD subsetD)
  then have c: "?c \<in> set resting" "opposite inc ?c" by (auto simp: set_candidates_of)
  have "fill_order (x_Quantity x) ?c \<in> set ms"
    using i il by (subst mk(2)) (force simp: set_zip)
  then have "x_Quantity x \<le> m_RemainingQuantity ?c" using bd by fastforce
  moreover have "0 < x_Quantity x" using bd x by blast
  moreover have "x_Quantity x \<le> m_RemainingQuantity inc"
  proof -
    have "x_Quantity x \<le> traded xs"
      using member_le_sum_list [of "x_Quantity x" "map x_Quantity xs"] x bd by (force intro: less_imp_le)
    also have "\<dots> \<le> m_RemainingQuantity inc"
      using match_loop_incoming [OF matched(3)] bd by simp
    finally show ?thesis .
  qed
  moreover have "crosses inc ?c" "m_LimitPrice ?c = Some (x_Price x)"
    using t by (simp_all add: trade_of_def)
  ultimately show ?thesis using trade_of_ids [OF t] c
    by (intro bexI [of _ ?c]) (simp_all add: crosses_def split: option.splits if_splits)
qed

text \<open>C2: price-time priority. The candidates of the other side, in the order of the code's
  \<open>less\<close> functions (best price first, then the earlier \<open>CreatedAt\<close>), are consumed from the front:
  the makers are a prefix of them, and every maker but the last is used up completely.\<close>

theorem match_price_time_priority:
  assumes "Match inc resting now = Some r" "0 \<le> m_RemainingQuantity inc"
    "\<forall>c\<in>set resting. 0 \<le> m_RemainingQuantity c" "r_Executions r \<noteq> []"
  shows "\<exists>queue.
    mset queue = mset (filter (\<lambda>c. opposite inc c \<and> m_RemainingQuantity c \<noteq> 0) resting) \<and>
    sorted_wrt (\<lambda>a b. if m_Side inc = SideBuy then \<not> ask_less b a else \<not> bid_less b a) queue \<and>
    r_Resting r = map2 (\<lambda>x c. fill_order (x_Quantity x) c) (r_Executions r)
                    (take (length (r_Executions r)) queue) \<and>
    length (r_Executions r) \<le> length queue \<and>
    (\<forall>m\<in>set (butlast (r_Resting r)). m_RemainingQuantity m = 0)"
  using assms(1)
proof (cases rule: Match_cases)
  case killed
  then show ?thesis using assms(4) by simp
next
  case (matched inc' ms xs)
  have nn: "0 \<le> m_RemainingQuantity (with_tif inc)" using assms(2) by simp
  have cs: "\<forall>c\<in>set (candidates_of inc resting). 0 \<le> m_RemainingQuantity c"
    using assms(3) by (simp add: set_candidates_of)
  note mk = match_loop_makers [OF matched(3) nn]
  note bd = match_loop_bounds [OF matched(3) nn cs]
  let ?q = "nonempty (candidates_of inc resting)"
  have "mset ?q = mset (filter (\<lambda>c. opposite inc c \<and> m_RemainingQuantity c \<noteq> 0) resting)"
    by (simp add: mset_candidates_of filter_filter_mset conj_commute)
  moreover have "sorted_wrt (\<lambda>a b. if m_Side inc = SideBuy then \<not> ask_less b a else \<not> bid_less b a) ?q"
    using matched(2) unfolding side_ok_def ahead_def [abs_def] by (intro sorted_wrt_filter) simp
  moreover have "\<forall>m\<in>set (butlast ms). m_RemainingQuantity m = 0" using bd by blast
  moreover have r: "r_Resting r = ms" "r_Executions r = xs" using matched(4) by simp_all
  ultimately show ?thesis unfolding r by (intro exI [of _ ?q] conjI mk(1,2))
qed

text \<open>C33: no order that could still trade is left on the table. When the incoming order rests, no
  resting order of the other side that has quantity left after the match crosses it.\<close>

theorem match_rests_uncrossed:
  assumes "Match inc resting now = Some r" "0 \<le> m_RemainingQuantity inc"
    "\<forall>c\<in>set resting. 0 \<le> m_RemainingQuantity c" "distinct (map m_ID resting)" "r_Rested r"
    "c \<in> set resting" "opposite inc c" "0 < m_RemainingQuantity c" "crosses inc c"
  shows "\<exists>m\<in>set (r_Resting r). m_ID m = m_ID c \<and> m_RemainingQuantity m = 0"
  using assms(1)
proof (cases rule: Match_cases)
  case killed
  then show ?thesis using assms(5) by simp
next
  case (matched inc' ms xs)
  have nn: "0 \<le> m_RemainingQuantity (with_tif inc)" using assms(2) by simp
  have cs: "\<forall>c\<in>set (candidates_of inc resting). 0 \<le> m_RemainingQuantity c"
    using assms(3) by (simp add: set_candidates_of)
  note mk = match_loop_makers [OF matched(3) nn]
  note bd = match_loop_bounds [OF matched(3) nn cs]
  let ?q = "nonempty (candidates_of inc resting)"
  have pos: "0 < m_RemainingQuantity inc'" using assms(5) matched(4) by simp
  have "side_ok (m_Side (with_tif inc) = SideBuy) (candidates_of inc resting)" using matched(2) by simp
  note ex = match_loop_exhausts [OF matched(3) nn this pos]
  have "c \<in> set ?q" using assms(6-8) by (auto simp: set_candidates_of)
  moreover have "c \<notin> set (drop (length xs) ?q)" using ex assms(9) by auto
  ultimately have "c \<in> set (take (length xs) ?q)" by (metis append_take_drop_id set_append Un_iff)
  then obtain i where i: "i < length (take (length xs) ?q)" "c = take (length xs) ?q ! i"
    by (metis in_set_conv_nth)
  then have "fill_order (x_Quantity (xs ! i)) c \<in> set ms" by (subst mk(2)) (force simp: set_zip)
  then show ?thesis using bd pos unfolding matched(4) by (intro bexI [of _ "fill_order (x_Quantity (xs ! i)) c"]) auto
qed

lemma match_loop_fills:
  assumes "fill_scan inc0 a cs" "m_RemainingQuantity inc = m_RemainingQuantity inc0 - a"
    "0 \<le> m_RemainingQuantity inc" "\<And>c. crosses inc c = crosses inc0 c"
    "match_loop now cs inc = (inc', ms, xs)"
  shows "m_RemainingQuantity inc' = 0"
  using assms
proof (induction cs arbitrary: a inc inc' ms xs)
  case Nil
  then show ?case by simp
next
  case (Cons c cs)
  have cr: "crosses inc c" using Cons.prems(1,4) by (simp split: if_splits)
  have scan: "m_RemainingQuantity c < m_RemainingQuantity inc \<Longrightarrow>
      fill_scan inc0 (a + m_RemainingQuantity c) cs"
    using Cons.prems(1,2) by (auto simp: Let_def split: if_splits)
  show ?case
  proof (rule match_loop_cases [OF Cons.prems(3), of c now cs])
    assume "m_RemainingQuantity inc = 0 \<or> \<not> crosses inc c" "match_loop now (c # cs) inc = (inc, [], [])"
    then show ?thesis using cr Cons.prems(5) by simp
  next
    assume k: "0 < m_RemainingQuantity inc" "m_RemainingQuantity c = 0"
      "match_loop now (c # cs) inc = match_loop now cs inc"
    then show ?thesis using scan Cons.prems(2-5) by (intro Cons.IH [of a inc inc' ms xs]) auto
  next
    fix p q i ms' xs'
    assume f: "q = minRat (m_RemainingQuantity inc) (m_RemainingQuantity c)"
      "0 \<le> m_RemainingQuantity (fill_order q inc)"
      "match_loop now cs (fill_order q inc) = (i, ms', xs')"
      "match_loop now (c # cs) inc = (i, fill_order q c # ms', make_execution inc c q p now # xs')"
    have i: "inc' = i" using f(4) Cons.prems(5) by simp
    show ?thesis
    proof (cases "m_RemainingQuantity c < m_RemainingQuantity inc")
      case True
      then have "q = m_RemainingQuantity c" using f(1) by (simp add: minRat_def)
      then show ?thesis unfolding i using scan [OF True] Cons.prems(2,4) f(2)
        by (intro Cons.IH [OF _ _ f(2) _ f(3)]) auto
    next
      case False
      then have "m_RemainingQuantity (fill_order q inc) = 0" using f(1) by (simp add: minRat_def)
      then show ?thesis unfolding i using f(3) by (cases cs) auto
    qed
  qed
qed

text \<open>C34: a fill-or-kill order is filled completely or not at all: either it is cancelled with no
  execution, or nothing remains.\<close>

theorem match_fok_all_or_nothing:
  assumes "Match inc resting now = Some r" "0 \<le> m_RemainingQuantity inc"
    "m_TimeInForce inc = TimeInForceFOK"
  shows "if canFullyFill inc (candidates_of inc resting)
    then m_RemainingQuantity (r_Incoming r) = 0 \<and>
         traded (r_Executions r) = m_RemainingQuantity inc
    else r_Cancelled r \<and> \<not> r_Rested r \<and> r_Executions r = [] \<and> r_Incoming r = inc"
  using assms(1)
proof (cases rule: Match_cases)
  case killed
  then show ?thesis using assms(3) by (simp add: with_tif_def)
next
  case (matched inc' ms xs)
  have ff: "canFullyFill inc (candidates_of inc resting)" using matched(1) assms(3) by blast
  have "m_RemainingQuantity inc' = 0"
    using ff assms(2) unfolding canFullyFill_def
    by (intro match_loop_fills [OF _ _ _ _ matched(3)]) simp_all
  then show ?thesis using ff match_loop_incoming [OF matched(3)] matched(4) by auto
qed

text \<open>the outcome of a match for an order with quantity to fill. It ends filled, or cancelled,
  or resting, exactly one of them; MARKET, IOC and FOK orders never rest and every other order's
  remainder does.\<close>

theorem match_outcome:
  assumes "Match inc resting now = Some r" "0 < m_RemainingQuantity inc"
    "\<forall>c\<in>set resting. 0 \<le> m_RemainingQuantity c"
  shows "let left = m_RemainingQuantity (r_Incoming r);
             immediate = m_OrderType inc = OrderTypeMarket \<or>
                         m_TimeInForce inc \<in> {TimeInForceIOC, TimeInForceFOK}
    in 0 \<le> left \<and> left \<le> m_RemainingQuantity inc \<and>
       (r_Cancelled r \<longleftrightarrow> 0 < left \<and> immediate) \<and> (r_Rested r \<longleftrightarrow> 0 < left \<and> \<not> immediate)"
  using assms(1)
proof (cases rule: Match_cases)
  case killed
  then show ?thesis using assms(2) by (simp add: Let_def)
next
  case (matched inc' ms xs)
  have nn: "0 \<le> m_RemainingQuantity (with_tif inc)" using assms(2) by simp
  have cs: "\<forall>c\<in>set (candidates_of inc resting). 0 \<le> m_RemainingQuantity c"
    using assms(3) by (simp add: set_candidates_of)
  note bd = match_loop_bounds [OF matched(3) nn cs]
  have i: "inc' = fill_order (traded xs) (with_tif inc)" by (rule match_loop_incoming [OF matched(3)])
  have "0 \<le> traded xs" using bd by (intro sum_list_nonneg) (auto intro: less_imp_le)
  then have le: "m_RemainingQuantity inc' \<le> m_RemainingQuantity inc" unfolding i by simp
  have ty: "m_OrderType inc' = m_OrderType inc"
    "m_TimeInForce inc' = TimeInForceIOC \<longleftrightarrow> m_TimeInForce inc = TimeInForceIOC"
    "m_TimeInForce inc' = TimeInForceFOK \<longleftrightarrow> m_TimeInForce inc = TimeInForceFOK"
    unfolding i by simp_all
  have ge: "0 \<le> m_RemainingQuantity inc'" using bd by blast
  show ?thesis using le ge ty unfolding matched(4)
    by (cases "m_RemainingQuantity inc' = 0") (simp_all add: Let_def shouldCancelRemainder_def)
qed

subsection \<open>A concrete book\<close>

text \<open>The book of the repository's engine test: asks of 10 at 10 (early and late) and of 5 at 9,
  and an incoming bid of 12 at 10.\<close>

definition ex_maker :: "string \<Rightarrow> rat \<Rightarrow> rat \<Rightarrow> time \<Rightarrow> MatchOrder" where
  "ex_maker i q p t = \<lparr>m_ID = i, m_TenantID = ''t'', m_UserID = ''seller'', m_Symbol = ''AAPL'',
     m_Side = SideSell, m_OrderType = OrderTypeLimit, m_TimeInForce = TimeInForceGTC,
     m_Quantity = q, m_FilledQuantity = 0, m_RemainingQuantity = q, m_LimitPrice = Some p,
     m_CreatedAt = t\<rparr>"

definition ex_taker :: "string \<Rightarrow> rat \<Rightarrow> MatchOrder" where
  "ex_taker tif q = \<lparr>m_ID = ''buy-1'', m_TenantID = ''t'', m_UserID = ''buyer'',
     m_Symbol = ''AAPL'', m_Side = SideBuy, m_OrderType = OrderTypeLimit, m_TimeInForce = tif,
     m_Quantity = q, m_FilledQuantity = 0, m_RemainingQuantity = q, m_LimitPrice = Some 10,
     m_CreatedAt = 0\<rparr>"

definition ex_book :: "MatchOrder list" where
  "ex_book = [ex_maker ''late'' 10 10 2, ex_maker ''better'' 5 9 3, ex_maker ''early'' 10 10 1]"

abbreviation "ex_match tif q \<equiv> Match (ex_taker tif q) ex_book 7"

lemma ex_match_Some: "ex_match tif q = Some (the (ex_match tif q))"
proof -
  have "\<not> 2 \<le> length (filter (\<lambda>c. (m_Side c = SideBuy) = b) ex_book) \<or>
      \<not> (\<exists>c\<in>set ex_book. (m_Side c = SideBuy) = b \<and> m_LimitPrice c = None)" for b
    by (simp add: ex_book_def ex_maker_def)
  then have "NewBook ex_book \<noteq> None"
    by (auto simp: NewBook_def Sort_def sort_panics_def ex_book_def ex_maker_def)
  then have "ex_match tif q \<noteq> None"
    by (auto simp: Match_def Let_def split: option.splits prod.splits)
  then show ?thesis by simp
qed

lemma ex_book_nonneg: "\<forall>c\<in>set ex_book. 0 \<le> m_RemainingQuantity c"
  by (simp add: ex_book_def ex_maker_def)

lemma match_conserves_quantity_witness:
  "m_FilledQuantity (r_Incoming (the (ex_match TimeInForceGTC 12))) =
     traded (r_Executions (the (ex_match TimeInForceGTC 12)))"
  using match_conserves_quantity [OF ex_match_Some, of TimeInForceGTC 12]
  by (simp add: ex_taker_def)

lemma match_execution_terms_witness:
  "\<exists>x. x \<in> set (r_Executions (the (ex_match TimeInForceGTC 12))) \<and> 0 < x_Quantity x \<and>
     x_Quantity x \<le> 12 \<and> x_BuyOrderID x = ''buy-1''"
proof -
  have "r_Executions (the (ex_match TimeInForceGTC 12)) \<noteq> []" by code_simp
  then obtain x where x: "x \<in> set (r_Executions (the (ex_match TimeInForceGTC 12)))"
    by (meson list.set_sel(1))
  show ?thesis using match_execution_terms [OF ex_match_Some _ ex_book_nonneg x] x
    by (intro exI [of _ x]) (auto simp: ex_taker_def)
qed

lemma match_price_time_priority_witness:
  "map m_ID (r_Resting (the (ex_match TimeInForceGTC 12))) = [''better'', ''early''] \<and>
   list_all (\<lambda>m. m_RemainingQuantity m = 0) (butlast (r_Resting (the (ex_match TimeInForceGTC 12))))"
proof -
  have "r_Executions (the (ex_match TimeInForceGTC 12)) \<noteq> []" by code_simp
  moreover have "0 \<le> m_RemainingQuantity (ex_taker TimeInForceGTC 12)" by (simp add: ex_taker_def)
  moreover have "map m_ID (r_Resting (the (ex_match TimeInForceGTC 12))) = [''better'', ''early'']"
    by code_simp
  ultimately show ?thesis
    using match_price_time_priority [OF ex_match_Some _ ex_book_nonneg, of TimeInForceGTC 12]
    unfolding list_all_iff by blast
qed

lemma match_rests_uncrossed_witness:
  "\<exists>m\<in>set (r_Resting (the (ex_match TimeInForceGTC 30))). m_ID m = ''late'' \<and> m_RemainingQuantity m = 0"
proof -
  have r: "r_Rested (the (ex_match TimeInForceGTC 30))" by code_simp
  have d: "distinct (map m_ID ex_book)" by (simp add: ex_book_def ex_maker_def)
  have c: "ex_maker ''late'' 10 10 2 \<in> set ex_book" by (simp add: ex_book_def)
  have x: "crosses (ex_taker TimeInForceGTC 30) (ex_maker ''late'' 10 10 2)"
    by (simp add: crosses_def ex_taker_def ex_maker_def)
  show ?thesis
    using match_rests_uncrossed [OF ex_match_Some _ ex_book_nonneg d r c _ _ x]
    by (simp add: ex_taker_def ex_maker_def)
qed

lemma match_fok_all_or_nothing_witness:
  "r_Executions (the (ex_match TimeInForceFOK 26)) = [] \<and>
   m_RemainingQuantity (r_Incoming (the (ex_match TimeInForceFOK 25))) = 0"
proof -
  have a: "\<not> canFullyFill (ex_taker TimeInForceFOK 26) (candidates_of (ex_taker TimeInForceFOK 26) ex_book)"
    and b: "canFullyFill (ex_taker TimeInForceFOK 25) (candidates_of (ex_taker TimeInForceFOK 25) ex_book)"
    by code_simp+
  show ?thesis
    using match_fok_all_or_nothing [OF ex_match_Some, of TimeInForceFOK 26] a
      match_fok_all_or_nothing [OF ex_match_Some, of TimeInForceFOK 25] b
    by (simp add: ex_taker_def)
qed

lemma match_outcome_witness:
  "r_Cancelled (the (ex_match TimeInForceIOC 30)) \<and> r_Rested (the (ex_match TimeInForceGTC 30))"
proof -
  have l: "0 < m_RemainingQuantity (r_Incoming (the (ex_match TimeInForceIOC 30)))"
    "0 < m_RemainingQuantity (r_Incoming (the (ex_match TimeInForceGTC 30)))" by code_simp+
  show ?thesis
    using match_outcome [OF ex_match_Some _ ex_book_nonneg, of TimeInForceIOC 30] l
      match_outcome [OF ex_match_Some _ ex_book_nonneg, of TimeInForceGTC 30]
    by (simp add: ex_taker_def Let_def)
qed

end
