(* ===== verification/OrderStore.thy ===== *)
theory OrderStore
  imports Matching
begin

text \<open>
  The tables of the order service's database, from the migrations under
  \<open>services/order-service/migrations\<close> and the columns the Go queries name, and the statements the
  repository shares: the SELECT list that scans a row into a \<open>domain.Order\<close>, the CHECK constraints
  an INSERT or UPDATE of \<open>orders\<close> has to meet, and the inserts of \<open>order_events\<close>,
  \<open>order_outbox\<close>, \<open>order_executions\<close> and \<open>order_risk_decisions\<close>.

  A transaction is a function from the database to an error, which rolls back, or to its results
  and the database it commits. NUMERIC columns are exact rationals: a float64 parameter arrives as
  its shortest decimal (\<open>shortest\<close>), a \<open>::float8\<close> column is read with \<open>fl64\<close>. Generated UUIDs
  (\<open>uuid.NewString\<close>, \<open>gen_random_uuid\<close>) come from the supply \<open>db_ids\<close>, an arbitrary function;
  what needs them to be fresh says so. The JSON payload of an event is the event itself.
\<close>

subsection \<open>Rows and the database\<close>

record order_row =
  t_id :: string
  t_tenant_id :: "string option"
  t_user_id :: string
  t_symbol :: string
  t_side :: string
  t_order_type :: string
  t_quantity :: numeric
  t_filled_quantity :: numeric
  t_remaining_quantity :: numeric
  t_limit_price :: "numeric option"
  t_stop_price :: "numeric option"
  t_average_fill_price :: "numeric option"
  t_time_in_force :: string
  t_expires_at :: "time option"
  t_version :: int
  t_risk_decision_id :: "string option"
  t_risk_status :: string
  t_risk_reason_code :: "string option"
  t_risk_reason_message :: "string option"
  t_risk_evaluated_at :: "time option"
  t_last_execution_at :: "time option"
  t_status :: order_status
  t_fill_price :: "numeric option"
  t_reject_reason :: "string option"
  t_correlation_id :: "string option"
  t_created_at :: time
  t_updated_at :: time
  t_cancelled_at :: "time option"
  t_filled_at :: "time option"
  t_expired_at :: "time option"
  t_expiry_reason :: "string option"
  t_expiry_worker_id :: "string option"
  t_triggered_at :: "time option"
  t_original_order_type :: "string option"
  t_activated_order_type :: "string option"
  t_stop_trigger_reference_price :: "numeric option"

record outbox_row =
  ob_id :: string
  ob_tenant_id :: string
  ob_aggregate_type :: string
  ob_aggregate_id :: string
  ob_event_id :: string
  ob_event_type :: string
  ob_topic :: string
  ob_payload :: OrderEvent
  ob_correlation_id :: string
  ob_traceparent :: string
  ob_status :: string
  ob_attempt_count :: int
  ob_available_at :: time
  ob_published_at :: "time option"
  ob_last_error :: "string option"
  ob_created_at :: time
  ob_locked_by :: "string option"
  ob_locked_at :: "time option"
  ob_lease_until :: "time option"
  ob_failed_at :: "time option"

record execution_row =
  er_id :: string
  er_tenant_id :: string
  er_buy_order_id :: string
  er_sell_order_id :: string
  er_symbol :: string
  er_quantity :: numeric
  er_price :: numeric
  er_buyer_user_id :: string
  er_seller_user_id :: string
  er_correlation_id :: string
  er_executed_at :: time

record ref_price_row =
  rp_tenant_id :: string
  rp_symbol :: string
  rp_price :: numeric
  rp_source :: string
  rp_updated_at :: time

record db =
  orders :: "order_row list"
  order_events :: "OrderEvent list"
  order_outbox :: "outbox_row list"
  idempotency_keys :: "IdempotencyRecord list"
  order_executions :: "execution_row list"
  order_risk_decisions :: "RiskDecision list"
  reference_prices :: "ref_price_row list"
  db_ids :: "nat \<Rightarrow> string"
  db_next :: nat

text \<open>\<open>ErrConstraint\<close> is an SQL error raised by a constraint, \<open>Panicked\<close> a Go panic; both unwind
  through the deferred \<open>tx.Rollback\<close>.\<close>

datatype repo_error = ErrNotFound | ErrConstraint string | ErrArgument string | Panicked

definition new_id :: "db \<Rightarrow> string" where
  "new_id d = db_ids d (db_next d)"

definition use_id :: "db \<Rightarrow> db" where
  "use_id d = d\<lparr>db_next := Suc (db_next d)\<rparr>"

definition row_tenant :: "order_row \<Rightarrow> string" where
  "row_tenant r = coalesce (t_tenant_id r) default_tenant_id"

text \<open>The 31 columns of the SELECT and RETURNING lists, scanned into the struct.\<close>

definition scan_order :: "order_row \<Rightarrow> Order" where
  "scan_order r = \<lparr>o_ID = t_id r, o_TenantID = row_tenant r, o_UserID = t_user_id r,
     o_Symbol = t_symbol r, o_Side = t_side r, o_OrderType = t_order_type r,
     o_Quantity = fl64 (t_quantity r), o_FilledQuantity = fl64 (t_filled_quantity r),
     o_RemainingQuantity = fl64 (t_remaining_quantity r),
     o_LimitPrice = map_option fl64 (t_limit_price r),
     o_StopPrice = map_option fl64 (t_stop_price r),
     o_AverageFillPrice = map_option fl64 (t_average_fill_price r),
     o_TimeInForce = t_time_in_force r, o_ExpiresAt = t_expires_at r, o_Version = t_version r,
     o_RiskDecisionID = t_risk_decision_id r, o_RiskStatus = t_risk_status r,
     o_RiskReasonCode = t_risk_reason_code r, o_RiskReasonMessage = t_risk_reason_message r,
     o_RiskEvaluatedAt = t_risk_evaluated_at r, o_LastExecutionAt = t_last_execution_at r,
     o_Status = t_status r, o_FillPrice = map_option fl64 (t_fill_price r),
     o_RejectReason = t_reject_reason r, o_CorrelationID = coalesce (t_correlation_id r) '''',
     o_CreatedAt = t_created_at r, o_UpdatedAt = t_updated_at r,
     o_CancelledAt = t_cancelled_at r, o_FilledAt = t_filled_at r,
     o_ExpiredAt = t_expired_at r, o_ExpiryReason = t_expiry_reason r\<rparr>"

text \<open>The CHECK constraints on \<open>orders\<close> and the range of its NUMERIC(20,8) column; the status
  check holds of every \<open>order_status\<close>.\<close>

definition order_checks :: "order_row \<Rightarrow> bool" where
  "order_checks r \<longleftrightarrow>
     t_quantity r > 0 \<and> t_filled_quantity r \<ge> 0 \<and> t_remaining_quantity r \<ge> 0 \<and>
     t_filled_quantity r \<le> t_quantity r \<and> t_version r > 0 \<and>
     t_side r \<in> {SideBuy, SideSell} \<and>
     t_order_type r \<in> {OrderTypeMarket, OrderTypeLimit, OrderTypeStop, OrderTypeStopLimit,
       OrderTypeStopLoss} \<and>
     t_time_in_force r \<in> {TimeInForceDay, TimeInForceGTC, TimeInForceGTD, TimeInForceIOC,
       TimeInForceFOK} \<and>
     t_risk_status r \<in> {''NOT_EVALUATED'', ''PENDING'', ''APPROVED'', ''REJECTED'', ''ERROR''} \<and>
     (case t_expiry_reason r of None \<Rightarrow> True | Some x \<Rightarrow>
        x \<in> {''DAY_SESSION_CLOSED'', ''GTD_EXPIRY_REACHED'', ''MANUAL_RECONCILIATION'',
             ''LEGACY_EXPIRY_BACKFILL''}) \<and>
     (case t_stop_trigger_reference_price r of None \<Rightarrow> True | Some p \<Rightarrow> p < 10 ^ 12)"

text \<open>\<open>UPDATE orders SET f WHERE P\<close>: the constraints hold of every updated row, or the statement
  fails.\<close>

definition update_orders ::
    "(order_row \<Rightarrow> bool) \<Rightarrow> (order_row \<Rightarrow> order_row) \<Rightarrow> db \<Rightarrow> repo_error + db" where
  "update_orders P f d =
     (if \<forall>r\<in>set (orders d). P r \<longrightarrow> order_checks (f r)
      then Inr (d\<lparr>orders := upd_where P f (orders d)\<rparr>)
      else Inl (ErrConstraint ''orders''))"

text \<open>The same with \<open>RETURNING\<close> for a statement that names a row by its primary key: the updated
  row, or no row.\<close>

definition update_order_returning ::
    "string \<Rightarrow> (order_row \<Rightarrow> bool) \<Rightarrow> (order_row \<Rightarrow> order_row) \<Rightarrow> db
     \<Rightarrow> repo_error + (order_row option \<times> db)" where
  "update_order_returning i P f d =
     and_then (update_orders (\<lambda>r. t_id r = i \<and> P r) f d) (\<lambda>d'.
       Inr ((case find_by t_id i (orders d) of
               None \<Rightarrow> None
             | Some r \<Rightarrow> if P r then Some (f r) else None), d'))"

subsection \<open>Events and outbox\<close>

text \<open>\<open>event_id\<close> is unique in \<open>order_events\<close>, and \<open>order_id\<close> references \<open>orders\<close>.\<close>

definition insertEvent :: "OrderEvent \<Rightarrow> db \<Rightarrow> repo_error + db" where
  "insertEvent event d =
     (if e_EventID event \<in> e_EventID ` set (order_events d)
        then Inl (ErrConstraint ''order_events_event_id_key'')
      else if e_OrderID event \<notin> t_id ` set (orders d)
        then Inl (ErrConstraint ''order_events_order_id_fkey'')
      else Inr (d\<lparr>order_events := order_events d @ [event]\<rparr>))"

definition outbox_row_of :: "OrderEvent \<Rightarrow> string \<Rightarrow> time \<Rightarrow> outbox_row" where
  "outbox_row_of event i now =
     \<lparr>ob_id = i, ob_tenant_id = e_TenantID event, ob_aggregate_type = ''order'',
      ob_aggregate_id = e_OrderID event, ob_event_id = e_EventID event,
      ob_event_type = e_EventType event, ob_topic = e_EventType event, ob_payload = event,
      ob_correlation_id = e_CorrelationID event, ob_traceparent = e_TraceParent event,
      ob_status = ''pending'', ob_attempt_count = 0, ob_available_at = now,
      ob_published_at = None, ob_last_error = None, ob_created_at = now,
      ob_locked_by = None, ob_locked_at = None, ob_lease_until = None, ob_failed_at = None\<rparr>"

definition insertOutbox :: "time \<Rightarrow> OrderEvent \<Rightarrow> db \<Rightarrow> repo_error + db" where
  "insertOutbox now event d =
     (if e_EventID event \<in> ob_event_id ` set (order_outbox d) then Inr d
      else if new_id d \<in> ob_id ` set (order_outbox d) then Inl (ErrConstraint ''order_outbox_pkey'')
      else Inr ((use_id d)\<lparr>order_outbox := order_outbox d @ [outbox_row_of event (new_id d) now]\<rparr>))"

text \<open>The pair of statements every state change runs for each of its events.\<close>

definition record_event :: "time \<Rightarrow> OrderEvent \<Rightarrow> db \<Rightarrow> repo_error + db" where
  "record_event now event d = and_then (insertEvent event d) (insertOutbox now event)"

definition record_events :: "time \<Rightarrow> OrderEvent list \<Rightarrow> db \<Rightarrow> repo_error + db" where
  "record_events now events d = fold_steps (record_event now) events d"

definition newRepositoryEvent :: "string \<Rightarrow> time \<Rightarrow> Order \<Rightarrow> string \<Rightarrow> OrderEvent" where
  "newRepositoryEvent i now order eventType =
     empty_event\<lparr>e_EventID := i, e_EventType := eventType, e_EventVersion := ''1.0'',
       e_TenantID := o_TenantID order, e_OrderID := o_ID order, e_UserID := o_UserID order,
       e_Symbol := o_Symbol order, e_Side := o_Side order, e_OrderType := o_OrderType order,
       e_TimeInForce := o_TimeInForce order, e_Quantity := o_Quantity order,
       e_FilledQuantity := o_FilledQuantity order,
       e_RemainingQuantity := o_RemainingQuantity order, e_Status := Some (o_Status order),
       e_FillPrice := o_FillPrice order, e_AverageFillPrice := o_AverageFillPrice order,
       e_Version := o_Version order + 1, e_ExpiresAt := o_ExpiresAt order,
       e_ExpiredAt := o_ExpiredAt order, e_OccurredAt := now,
       e_CorrelationID := o_CorrelationID order,
       e_ExpiryReason := (case o_ExpiryReason order of None \<Rightarrow> '''' | Some x \<Rightarrow> x)\<rparr>"

definition lifecycleEvents :: "string \<Rightarrow> time \<Rightarrow> Order \<Rightarrow> OrderEvent list" where
  "lifecycleEvents i now order =
     (case o_Status order of
        StatusPartiallyFilled \<Rightarrow> [newRepositoryEvent i now order ''order.partially_filled'']
      | StatusFilled \<Rightarrow> [newRepositoryEvent i now order ''order.filled'']
      | StatusCancelled \<Rightarrow> [newRepositoryEvent i now order ''order.cancelled'']
      | _ \<Rightarrow> [])"

definition fillEventForTransition :: "string \<Rightarrow> time \<Rightarrow> Order \<Rightarrow> order_status \<Rightarrow> OrderEvent" where
  "fillEventForTransition i now order beforeStatus =
     (if o_Status order = StatusFilled \<and> beforeStatus \<noteq> StatusFilled
        then newRepositoryEvent i now order ''order.filled''
      else if o_Status order = StatusPartiallyFilled
        then newRepositoryEvent i now order ''order.partially_filled''
      else empty_event)"

definition tradeExecutedEvent :: "string \<Rightarrow> time \<Rightarrow> Order \<Rightarrow> Execution \<Rightarrow> OrderEvent" where
  "tradeExecutedEvent i now order exec =
     (newRepositoryEvent i now order ''trade.executed'')
       \<lparr>e_Quantity := ratFloat (x_Quantity exec), e_FillPrice := Some (ratFloat (x_Price exec)),
        e_BuyOrderID := x_BuyOrderID exec, e_SellOrderID := x_SellOrderID exec,
        e_ExecutionQuantity := ratFloat (x_Quantity exec),
        e_ExecutionPrice := Some (ratFloat (x_Price exec)), e_ExecutionID := x_ID exec,
        e_BuyerUserID := x_BuyerUserID exec, e_SellerUserID := x_SellerUserID exec,
        e_Currency := ''USD'', e_Source := ''order-service''\<rparr>"

definition compactEvents :: "OrderEvent list \<Rightarrow> OrderEvent list" where
  "compactEvents events = filter (\<lambda>event. e_EventType event \<noteq> '''') events"

subsection \<open>Executions and risk decisions\<close>

definition execution_row_of :: "string \<Rightarrow> string \<Rightarrow> Execution \<Rightarrow> execution_row" where
  "execution_row_of tenantID correlationID exec =
     \<lparr>er_id = x_ID exec, er_tenant_id = tenantID, er_buy_order_id = x_BuyOrderID exec,
      er_sell_order_id = x_SellOrderID exec, er_symbol = x_Symbol exec,
      er_quantity = RatString (x_Quantity exec), er_price = RatString (x_Price exec),
      er_buyer_user_id = x_BuyerUserID exec, er_seller_user_id = x_SellerUserID exec,
      er_correlation_id = correlationID, er_executed_at = x_ExecutedAt exec\<rparr>"

definition insertExecution :: "string \<Rightarrow> string \<Rightarrow> Execution \<Rightarrow> db \<Rightarrow> repo_error + db" where
  "insertExecution tenantID correlationID exec d =
     (let row = execution_row_of tenantID correlationID exec
      in if er_id row \<in> er_id ` set (order_executions d)
           then Inl (ErrConstraint ''order_executions_pkey'')
         else if \<not> (er_quantity row > 0 \<and> er_price row > 0)
           then Inl (ErrConstraint ''order_executions_check'')
         else if \<not> {er_buy_order_id row, er_sell_order_id row} \<subseteq> t_id ` set (orders d)
           then Inl (ErrConstraint ''order_executions_order_fkey'')
         else Inr (d\<lparr>order_executions := order_executions d @ [row]\<rparr>))"

definition final_decisions :: "string set" where
  "final_decisions = {''APPROVED'', ''REJECTED'', ''UNAVAILABLE'', ''INVALID_RESPONSE''}"

text \<open>One final decision per order; a second one is dropped by \<open>ON CONFLICT DO NOTHING\<close>. The
  migration's CHECK admits no other decisions.\<close>

definition insertRiskDecision :: "RiskDecision \<Rightarrow> db \<Rightarrow> repo_error + db" where
  "insertRiskDecision decision d =
     (if rd_Decision decision \<notin> final_decisions
        then Inl (ErrConstraint ''order_risk_decisions_decision_check'')
      else if rd_OrderID decision \<notin> t_id ` set (orders d)
        then Inl (ErrConstraint ''order_risk_decisions_order_id_fkey'')
      else if rd_OrderID decision \<in> rd_OrderID ` set (order_risk_decisions d) then Inr d
      else if rd_DecisionID decision \<in> rd_DecisionID ` set (order_risk_decisions d)
        then Inl (ErrConstraint ''order_risk_decisions_pkey'')
      else Inr (d\<lparr>order_risk_decisions := order_risk_decisions d @ [decision]\<rparr>))"

end
