(* ===== verification/StopEvaluator.thy ===== *)
theory StopEvaluator
  imports OrderDomain
begin

text \<open>
  \<open>internal/stoptrigger/evaluator.go\<close> and the types of \<open>internal/stoptrigger/types.go\<close> the order
  repository works on: when a stop order's reference price triggers it, and what it becomes.
\<close>

definition ShouldTrigger :: "string \<Rightarrow> string \<Rightarrow> float64 \<Rightarrow> float64 \<Rightarrow> bool" where
  "ShouldTrigger side orderType stopPrice referencePrice =
     (if stopPrice \<le> 0 \<or> referencePrice \<le> 0 then False
      else if orderType \<noteq> OrderTypeStop \<and> orderType \<noteq> OrderTypeStopLimit then False
      else if side = SideBuy then referencePrice \<ge> stopPrice
      else if side = SideSell then referencePrice \<le> stopPrice
      else False)"

definition ActivatedOrderType :: "string \<Rightarrow> string" where
  "ActivatedOrderType orderType =
     (if orderType = OrderTypeStop then OrderTypeMarket
      else if orderType = OrderTypeStopLimit then OrderTypeLimit
      else '''')"

record TriggerCandidate =
  tc_OrderID :: string
  tc_TenantID :: string
  tc_UserID :: string
  tc_Symbol :: string
  tc_Side :: string
  tc_OriginalType :: string
  tc_StopPrice :: float64
  tc_LimitPrice :: "float64 option"
  tc_ReferencePrice :: float64
  tc_PriceUpdatedAt :: time
  tc_CorrelationID :: string

record TriggeredLabel =
  tl_Symbol :: string
  tl_Side :: string
  tl_OrderType :: string

text \<open>\<open>br_LagSeconds\<close> holds the lags as durations; the code converts each to seconds for a
  histogram.\<close>

record BatchResult =
  br_Processed :: int
  br_Triggered :: int
  br_Skipped :: int
  br_LagSeconds :: "duration list"
  br_TriggeredLabels :: "TriggeredLabel list"

lemma ShouldTrigger_activates: "ShouldTrigger s t p r \<Longrightarrow> ActivatedOrderType t \<noteq> ''''"
  by (auto simp: ShouldTrigger_def ActivatedOrderType_def split: if_splits)

end
