(* ===== verification/OrderRepository.thy ===== *)
theory OrderRepository
  imports OrderStore StopEvaluator "HOL-Library.List_Lexorder" "HOL-Library.Char_ord"
begin

text \<open>
  \<open>internal/repository/order_repository.go\<close> and \<open>reference_price_repository.go\<close>: every method of
  \<open>OrderRepository\<close> and \<open>ReferencePriceRepository\<close>, each transaction a function on the database of
  OrderStore. \<open>now\<close> is the clock of the operation: the transaction's \<open>now()\<close> and every
  \<open>time.Now().UTC()\<close> inside it. Row locks and the advisory lock per tenant and symbol only order
  concurrent transactions; transactions here run one after the other.
  Lemmas: which rows an operation touches, that each state change leaves its events in
  \<open>order_events\<close> and \<open>order_outbox\<close>, the ledger of executions, idempotency and version checks.
\<close>

subsection \<open>Reads\<close>

definition FindIdempotency :: "string \<Rightarrow> string \<Rightarrow> string \<Rightarrow> db \<Rightarrow> repo_error + IdempotencyRecord" where
  "FindIdempotency tenantID userID key d =
     (case find_by (\<lambda>k. (ir_TenantID k, ir_UserID k, ir_Key k)) (tenantID, userID, key)
             (idempotency_keys d) of
        None \<Rightarrow> Inl ErrNotFound | Some k \<Rightarrow> Inr k)"

definition find_order :: "string \<Rightarrow> string \<Rightarrow> db \<Rightarrow> order_row option" where
  "find_order tenantID i d =
     (case find_by t_id i (orders d) of
        None \<Rightarrow> None
      | Some r \<Rightarrow> if row_tenant r = tenantID then Some r else None)"

definition GetOrder :: "string \<Rightarrow> string \<Rightarrow> db \<Rightarrow> repo_error + Order" where
  "GetOrder tenantID i d =
     (case find_order tenantID i d of None \<Rightarrow> Inl ErrNotFound | Some r \<Rightarrow> Inr (scan_order r))"

definition ListOrders :: "string \<Rightarrow> string \<Rightarrow> bool \<Rightarrow> db \<Rightarrow> Order list" where
  "ListOrders tenantID userID includeAll d =
     map scan_order (limit_rows 100 (sort_key (\<lambda>r. - t_created_at r)
       (filter (\<lambda>r. row_tenant r = tenantID \<and> (includeAll \<or> t_user_id r = userID)) (orders d))))"

definition scan_execution :: "execution_row \<Rightarrow> DomainExecution" where
  "scan_execution r = \<lparr>dx_ID = er_id r, dx_TenantID = er_tenant_id r,
     dx_BuyOrderID = er_buy_order_id r, dx_SellOrderID = er_sell_order_id r,
     dx_Symbol = er_symbol r, dx_Quantity = fl64 (er_quantity r), dx_Price = fl64 (er_price r),
     dx_BuyerUserID = er_buyer_user_id r, dx_SellerUserID = er_seller_user_id r,
     dx_CorrelationID = er_correlation_id r, dx_ExecutedAt = er_executed_at r\<rparr>"

definition queryExecutions :: "(execution_row \<Rightarrow> bool) \<Rightarrow> db \<Rightarrow> execution_row list" where
  "queryExecutions P d = filter P (order_executions d)"

definition ListExecutionsForOrder :: "string \<Rightarrow> string \<Rightarrow> db \<Rightarrow> DomainExecution list" where
  "ListExecutionsForOrder tenantID orderID d =
     map scan_execution (limit_rows 100 (sort_key (\<lambda>r. - er_executed_at r)
       (queryExecutions (\<lambda>r. er_tenant_id r = tenantID \<and>
          (er_buy_order_id r = orderID \<or> er_sell_order_id r = orderID)) d)))"

definition ListTrades :: "string \<Rightarrow> int \<Rightarrow> db \<Rightarrow> DomainExecution list" where
  "ListTrades tenantID limit d =
     (let lim = (if limit \<le> 0 \<or> limit > 200 then 100 else limit)
      in map scan_execution (limit_rows lim (sort_key (\<lambda>r. - er_executed_at r)
           (queryExecutions (\<lambda>r. er_tenant_id r = tenantID) d))))"

definition GetTrade :: "string \<Rightarrow> string \<Rightarrow> db \<Rightarrow> repo_error + DomainExecution" where
  "GetTrade tenantID i d =
     (case map scan_execution (queryExecutions (\<lambda>r. er_tenant_id r = tenantID \<and> er_id r = i) d) of
        [] \<Rightarrow> Inl ErrNotFound | e # es \<Rightarrow> Inr e)"

record BookDepth =
  bd_tenantId :: string
  bd_symbol :: string
  bd_bestBid :: "float64 option"
  bd_bestAsk :: "float64 option"
  bd_spread :: "float64 option"
  bd_bids :: "(float64 \<times> float64) list"
  bd_asks :: "(float64 \<times> float64) list"
  bd_generatedAt :: time

text \<open>The grouped and sorted rows of the depth query: side, price, total remaining quantity.\<close>

definition depth_rows :: "string \<Rightarrow> string \<Rightarrow> db \<Rightarrow> (string \<times> float64 \<times> float64) list" where
  "depth_rows tenantID symbol d =
     (let rows = filter (\<lambda>r. t_tenant_id r = Some tenantID \<and> t_symbol r = symbol \<and>
                   is_live (t_status r) \<and> t_remaining_quantity r > 0 \<and> t_limit_price r \<noteq> None)
                   (orders d);
          group = (\<lambda>r. (t_side r, coalesce (t_limit_price r) 0));
          groups = sort_key (\<lambda>(s, p). if s = SideBuy then - p else p) (remdups (map group rows))
      in map (\<lambda>(s, p). (s, fl64 p,
                fl64 (sum_list (map t_remaining_quantity (filter (\<lambda>r. group r = (s, p)) rows)))))
           groups)"

definition OrderBookDepth :: "string \<Rightarrow> string \<Rightarrow> int \<Rightarrow> time \<Rightarrow> db \<Rightarrow> BookDepth" where
  "OrderBookDepth tenantID symbol depth0 now d =
     (let depth = (if depth0 \<le> 0 \<or> depth0 > 100 then 20 else depth0);
          rows = depth_rows tenantID symbol d;
          bids = limit_rows depth (map snd (filter (\<lambda>(s, _). s = SideBuy) rows));
          asks = limit_rows depth (map snd (filter (\<lambda>(s, _). s = SideSell) rows));
          best = (\<lambda>ls. case ls of [] \<Rightarrow> None | (p, q) # _ \<Rightarrow> Some p)
      in \<lparr>bd_tenantId = tenantID, bd_symbol = symbol, bd_bestBid = best bids,
          bd_bestAsk = best asks,
          bd_spread = (case (best bids, best asks) of
                         (Some b, Some a) \<Rightarrow> Some (fl64 (a - b)) | _ \<Rightarrow> None),
          bd_bids = bids, bd_asks = asks, bd_generatedAt = now\<rparr>)"

subsection \<open>Matching an accepted order\<close>

definition loadRestingOrders :: "db \<Rightarrow> Order \<Rightarrow> MatchOrder list" where
  "loadRestingOrders d incoming =
     map (\<lambda>r. FromDomain (scan_order r))
       (filter (\<lambda>r. row_tenant r = o_TenantID incoming \<and> t_symbol r = o_Symbol incoming \<and>
          t_side r \<noteq> o_Side incoming \<and> is_live (t_status r) \<and> t_remaining_quantity r > 0 \<and>
          t_order_type r = OrderTypeLimit) (orders d))"

definition loadOrderForUpdate :: "string \<Rightarrow> string \<Rightarrow> db \<Rightarrow> repo_error + Order" where
  "loadOrderForUpdate tenantID i d = GetOrder tenantID i d"

definition updateOrderLifecycleFromFill :: "time \<Rightarrow> Order \<Rightarrow> MatchOrder \<Rightarrow> bool \<Rightarrow> Order" where
  "updateOrderLifecycleFromFill now order matched cancelled =
     (let o1 = order\<lparr>o_FilledQuantity := ratFloat (m_FilledQuantity matched)\<rparr>
      in if cancelled
         then o1\<lparr>o_RemainingQuantity := 0, o_Status := StatusCancelled, o_CancelledAt := Some now\<rparr>
         else
           let o2 = o1\<lparr>o_RemainingQuantity := ratFloat (m_RemainingQuantity matched)\<rparr>
           in if o_FilledQuantity o2 > 0
              then (if o_RemainingQuantity o2 = 0
                    then o2\<lparr>o_Status := StatusFilled, o_FilledAt := Some now\<rparr>
                    else o2\<lparr>o_Status := StatusPartiallyFilled\<rparr>)
                     \<lparr>o_LastExecutionAt := Some now\<rparr>
              else o2)"

text \<open>The subquery of \<open>persistOrderState\<close>; Postgres' numeric division is taken to be exact.\<close>

definition avg_execution_price :: "string \<Rightarrow> string \<Rightarrow> db \<Rightarrow> numeric option" where
  "avg_execution_price tenantID i d =
     (let xs = filter (\<lambda>x. er_tenant_id x = tenantID \<and>
                 (er_buy_order_id x = i \<or> er_sell_order_id x = i)) (order_executions d);
          q = sum_list (map er_quantity xs)
      in if q > 0 then Some (sum_list (map (\<lambda>x. er_quantity x * er_price x) xs) / q) else None)"

definition set_order_state :: "time \<Rightarrow> db \<Rightarrow> Order \<Rightarrow> order_row \<Rightarrow> order_row" where
  "set_order_state now d order r =
     (let avg = avg_execution_price (o_TenantID order) (o_ID order) d
      in r\<lparr>t_filled_quantity := shortest (o_FilledQuantity order),
           t_remaining_quantity := shortest (o_RemainingQuantity order),
           t_average_fill_price := avg, t_fill_price := avg, t_status := o_Status order,
           t_cancelled_at := o_CancelledAt order, t_filled_at := o_FilledAt order,
           t_last_execution_at := o_LastExecutionAt order, t_updated_at := now,
           t_version := t_version r + 1\<rparr>)"

definition persistOrderState :: "time \<Rightarrow> Order \<Rightarrow> db \<Rightarrow> repo_error + db" where
  "persistOrderState now order d =
     update_orders (\<lambda>r. t_id r = o_ID order \<and> row_tenant r = o_TenantID order)
       (set_order_state now d order) d"

text \<open>The loop over \<open>result.Resting\<close>: the changed orders and their fill events.\<close>

fun load_changed :: "time \<Rightarrow> string \<Rightarrow> MatchOrder list \<Rightarrow> db
    \<Rightarrow> repo_error + (Order list \<times> OrderEvent list \<times> db)" where
  "load_changed now tenantID [] d = Inr ([], [], d)"
| "load_changed now tenantID (changed # rest) d =
     and_then (loadOrderForUpdate tenantID (m_ID changed) d) (\<lambda>ro.
       let beforeStatus = o_Status ro;
           ro1 = updateOrderLifecycleFromFill now (ApplyToDomain changed ro) changed False;
           event = fillEventForTransition (new_id d) now ro1 beforeStatus
       in and_then (load_changed now tenantID rest (use_id d)) (\<lambda>(os, events, d').
            Inr (ro1 # os, event # events, d')))"

text \<open>The loop over \<open>result.Executions\<close>.\<close>

fun insert_executions :: "time \<Rightarrow> Order \<Rightarrow> Execution list \<Rightarrow> db
    \<Rightarrow> repo_error + (OrderEvent list \<times> db)" where
  "insert_executions now order [] d = Inr ([], d)"
| "insert_executions now order (exec # rest) d =
     (let exec1 = (if x_ID exec = '''' then exec\<lparr>x_ID := new_id d\<rparr> else exec)
      in and_then (insertExecution (o_TenantID order) (o_CorrelationID order) exec1 (use_id d))
           (\<lambda>d1. let event = tradeExecutedEvent (new_id d1) now order exec1
                  in and_then (insert_executions now order rest (use_id d1)) (\<lambda>(events, d').
                       Inr (event # events, d'))))"

definition matchAcceptedOrder :: "time \<Rightarrow> Order \<Rightarrow> db
    \<Rightarrow> repo_error + (Order \<times> OrderEvent list \<times> db)" where
  "matchAcceptedOrder now order0 d =
     (case Match (FromDomain order0) (loadRestingOrders d order0) now of
        None \<Rightarrow> Inl Panicked
      | Some result \<Rightarrow>
          let order = updateOrderLifecycleFromFill now (ApplyToDomain (r_Incoming result) order0)
                        (r_Incoming result) (r_Cancelled result);
              events0 = lifecycleEvents (new_id d) now order
          in and_then (load_changed now (o_TenantID order) (r_Resting result) (use_id d))
               (\<lambda>(changedResting, events1, d1).
             and_then (insert_executions now order (r_Executions result) d1) (\<lambda>(events2, d2).
             and_then (fold_steps (persistOrderState now) changedResting d2) (\<lambda>d3.
               if r_Executions result \<noteq> [] \<or> r_Cancelled result
               then and_then (persistOrderState now order d3) (\<lambda>d4.
                      Inr (order, compactEvents (events0 @ events1 @ events2), d4))
               else Inr (order,
                      compactEvents (if r_Rested result then [] else events0 @ events1 @ events2),
                      d3)))))"

subsection \<open>Creating an order\<close>

definition order_row_of :: "string \<Rightarrow> time \<Rightarrow> Order \<Rightarrow> order_row" where
  "order_row_of i now order =
     \<lparr>t_id = i, t_tenant_id = Some (o_TenantID order), t_user_id = o_UserID order,
      t_symbol = o_Symbol order, t_side = o_Side order, t_order_type = o_OrderType order,
      t_quantity = shortest (o_Quantity order),
      t_filled_quantity = shortest (o_FilledQuantity order),
      t_remaining_quantity = shortest (o_RemainingQuantity order),
      t_limit_price = map_option shortest (o_LimitPrice order),
      t_stop_price = map_option shortest (o_StopPrice order),
      t_average_fill_price = map_option shortest (o_AverageFillPrice order),
      t_time_in_force = o_TimeInForce order, t_expires_at = o_ExpiresAt order,
      t_version = o_Version order, t_risk_decision_id = o_RiskDecisionID order,
      t_risk_status = o_RiskStatus order, t_risk_reason_code = o_RiskReasonCode order,
      t_risk_reason_message = o_RiskReasonMessage order,
      t_risk_evaluated_at = o_RiskEvaluatedAt order,
      t_last_execution_at = o_LastExecutionAt order, t_status = o_Status order,
      t_fill_price = map_option shortest (o_FillPrice order),
      t_reject_reason = o_RejectReason order, t_correlation_id = Some (o_CorrelationID order),
      t_created_at = now, t_updated_at = now, t_cancelled_at = o_CancelledAt order,
      t_filled_at = o_FilledAt order, t_expired_at = None, t_expiry_reason = None,
      t_expiry_worker_id = None, t_triggered_at = None, t_original_order_type = None,
      t_activated_order_type = None, t_stop_trigger_reference_price = None\<rparr>"

definition insert_order :: "time \<Rightarrow> Order \<Rightarrow> db \<Rightarrow> repo_error + (Order \<times> db)" where
  "insert_order now order d =
     (let row = order_row_of (new_id d) now order
      in if \<not> order_checks row then Inl (ErrConstraint ''orders'')
         else if t_id row \<in> t_id ` set (orders d) then Inl (ErrConstraint ''orders_pkey'')
         else Inr (order\<lparr>o_ID := new_id d, o_CreatedAt := now, o_UpdatedAt := now\<rparr>,
                   (use_id d)\<lparr>orders := orders d @ [row]\<rparr>))"

definition insert_idempotency :: "IdempotencyRecord \<Rightarrow> db \<Rightarrow> repo_error + db" where
  "insert_idempotency k d =
     (if (ir_TenantID k, ir_UserID k, ir_Key k)
           \<in> (\<lambda>k. (ir_TenantID k, ir_UserID k, ir_Key k)) ` set (idempotency_keys d)
        then Inl (ErrConstraint ''idempotency_keys_pkey'')
      else if ir_OrderID k \<notin> t_id ` set (orders d)
        then Inl (ErrConstraint ''idempotency_keys_order_id_fkey'')
      else Inr (d\<lparr>idempotency_keys := idempotency_keys d @ [k]\<rparr>))"

definition with_order_id :: "Order \<Rightarrow> OrderEvent \<Rightarrow> OrderEvent" where
  "with_order_id order event =
     (if e_OrderID event = '''' then event\<lparr>e_OrderID := o_ID order\<rparr> else event)"

definition with_user_id :: "Order \<Rightarrow> OrderEvent \<Rightarrow> OrderEvent" where
  "with_user_id order event =
     (if e_UserID event = '''' then event\<lparr>e_UserID := o_UserID order\<rparr> else event)"

definition CreateOrder :: "time \<Rightarrow> Order \<Rightarrow> OrderEvent list \<Rightarrow> string \<Rightarrow> string \<Rightarrow> db
    \<Rightarrow> repo_error + (Order \<times> OrderEvent list \<times> db)" where
  "CreateOrder now order0 events0 idempotencyKey requestHash d =
     and_then (insert_order now order0 d) (\<lambda>(order1, d1).
     and_then (if o_Status order1 = StatusAccepted
               then and_then (matchAcceptedOrder now order1 d1) (\<lambda>(order2, matchEvents, d2).
                      Inr (order2, events0 @ matchEvents, d2))
               else Inr (order1, events0, d1)) (\<lambda>(order, events, d2).
     let events' = map (with_order_id order) events
     in and_then (record_events now events' d2) (\<lambda>d3.
        and_then (insert_idempotency \<lparr>ir_TenantID = o_TenantID order, ir_UserID = o_UserID order,
                    ir_Key = idempotencyKey, ir_RequestHash = requestHash,
                    ir_OrderID = o_ID order, ir_CreatedAt = now\<rparr> d3) (\<lambda>d4.
          Inr (order, events', d4)))))"

subsection \<open>The risk decision\<close>

text \<open>The two UPDATE statements of \<open>ApplyRiskDecision\<close> (only the second sets the reject
  reason), and the changes to the order in memory that precede them.\<close>

definition set_risk_state :: "time \<Rightarrow> Order \<Rightarrow> order_row \<Rightarrow> order_row" where
  "set_risk_state now order r =
     r\<lparr>t_status := o_Status order, t_risk_decision_id := o_RiskDecisionID order,
       t_risk_status := o_RiskStatus order, t_risk_reason_code := o_RiskReasonCode order,
       t_risk_reason_message := o_RiskReasonMessage order,
       t_risk_evaluated_at := o_RiskEvaluatedAt order,
       t_correlation_id := Some (o_CorrelationID order), t_updated_at := now,
       t_version := t_version r + 1\<rparr>"

definition set_risk_rejected :: "time \<Rightarrow> Order \<Rightarrow> order_row \<Rightarrow> order_row" where
  "set_risk_rejected now order r =
     (set_risk_state now order r)\<lparr>t_reject_reason := o_RejectReason order\<rparr>"

definition own_row :: "Order \<Rightarrow> order_row \<Rightarrow> bool" where
  "own_row order r = (t_id r = o_ID order \<and> row_tenant r = o_TenantID order)"

definition decided :: "time \<Rightarrow> RiskDecision \<Rightarrow> Order \<Rightarrow> Order" where
  "decided clock decision order =
     order\<lparr>o_RiskDecisionID := Some (rd_DecisionID decision),
       o_RiskReasonCode := Some (rd_ReasonCode decision),
       o_RiskReasonMessage := Some (rd_ReasonMessage decision),
       o_RiskEvaluatedAt :=
         Some (if rd_EvaluatedAt decision = zero_time then clock else rd_EvaluatedAt decision),
       o_CorrelationID := rd_CorrelationID decision\<rparr>"

definition approve_order :: "Order \<Rightarrow> Order" where
  "approve_order order = order\<lparr>o_Status := StatusAccepted, o_RiskStatus := ''APPROVED''\<rparr>"

definition reject_order :: "RiskDecision \<Rightarrow> Order \<Rightarrow> Order" where
  "reject_order decision order =
     (let unavailable = rd_Decision decision = ''UNAVAILABLE'' \<or>
                        rd_Decision decision = ''INVALID_RESPONSE''
      in order\<lparr>o_Status := if unavailable then StatusRiskError else StatusRiskRejected,
               o_RiskStatus := if unavailable then ''ERROR'' else ''REJECTED'',
               o_RejectReason := Some (rd_ReasonMessage decision)\<rparr>)"

definition ApplyRiskDecision :: "time \<Rightarrow> string \<Rightarrow> string \<Rightarrow> RiskDecision \<Rightarrow> OrderEvent list
    \<Rightarrow> OrderEvent \<Rightarrow> db \<Rightarrow> repo_error + (Order \<times> OrderEvent list \<times> db)" where
  "ApplyRiskDecision clock tenantID orderID decision approvedEvents rejectedEvent d =
     and_then (loadOrderForUpdate tenantID orderID d) (\<lambda>order0.
     if o_Status order0 \<noteq> StatusRiskPending then Inr (order0, [], d)
     else and_then (insertRiskDecision decision d) (\<lambda>d1.
       and_then
         (if rd_Approved decision
          then
            let order2 = approve_order (decided clock decision order0)
            in and_then (update_orders (own_row order2) (set_risk_state clock order2) d1) (\<lambda>d2.
               and_then (matchAcceptedOrder clock order2 d2) (\<lambda>(order3, matchEvents, d3).
                 Inr (order3, approvedEvents @ matchEvents, d3)))
          else
            let order2 = reject_order decision (decided clock decision order0)
            in and_then (update_orders (own_row order2) (set_risk_rejected clock order2) d1)
                 (\<lambda>d2. Inr (order2, [rejectedEvent], d2)))
         (\<lambda>(order, events, d3).
            let events' = map (\<lambda>e. with_user_id order (with_order_id order e)) events
            in and_then (record_events clock events' d3) (\<lambda>d4. Inr (order, events', d4)))))"

subsection \<open>Cancelling and amending\<close>

definition cancel_row :: "time \<Rightarrow> string \<Rightarrow> order_row \<Rightarrow> order_row" where
  "cancel_row now correlationID r =
     r\<lparr>t_status := StatusCancelled, t_remaining_quantity := 0, t_cancelled_at := Some now,
       t_updated_at := now, t_correlation_id := Some correlationID,
       t_version := t_version r + 1\<rparr>"

definition CancelOrder :: "time \<Rightarrow> string \<Rightarrow> string \<Rightarrow> string \<Rightarrow> OrderEvent \<Rightarrow> db
    \<Rightarrow> repo_error + (Order \<times> db)" where
  "CancelOrder now tenantID i correlationID event d =
     and_then (update_order_returning i (\<lambda>r. is_live (t_status r) \<and> row_tenant r = tenantID)
                 (cancel_row now correlationID) d) (\<lambda>(row, d1).
     case row of
       None \<Rightarrow> Inl ErrNotFound
     | Some r \<Rightarrow>
         let order = scan_order r;
             event' = event\<lparr>e_OrderID := o_ID order, e_UserID := o_UserID order\<rparr>
         in and_then (record_event now event' d1) (\<lambda>d2. Inr (order, d2)))"

text \<open>\<open>quantity = COALESCE($3, quantity)\<close>; the prices and the expiry are assigned the parameters
  as they are, NULL when the request leaves them out.\<close>

definition amend_row :: "time \<Rightarrow> AmendOrderRequest \<Rightarrow> string \<Rightarrow> order_row \<Rightarrow> order_row" where
  "amend_row now req correlationID r =
     (let q = coalesce (map_option shortest (ar_Quantity req)) (t_quantity r)
      in r\<lparr>t_quantity := q, t_remaining_quantity := q - t_filled_quantity r,
           t_limit_price := map_option shortest (ar_LimitPrice req),
           t_stop_price := map_option shortest (ar_StopPrice req),
           t_expires_at := ar_ExpiresAt req, t_correlation_id := Some correlationID,
           t_updated_at := now, t_version := t_version r + 1\<rparr>)"

definition amendable :: "string \<Rightarrow> AmendOrderRequest \<Rightarrow> order_row \<Rightarrow> bool" where
  "amendable tenantID req r \<longleftrightarrow>
     row_tenant r = tenantID \<and> t_version r = ar_ExpectedVersion req \<and> is_live (t_status r) \<and>
     (case ar_Quantity req of None \<Rightarrow> True | Some q \<Rightarrow> shortest q \<ge> t_filled_quantity r)"

definition AmendOrder :: "time \<Rightarrow> string \<Rightarrow> string \<Rightarrow> AmendOrderRequest \<Rightarrow> string \<Rightarrow> db
    \<Rightarrow> repo_error + (Order \<times> db)" where
  "AmendOrder now tenantID i req correlationID d =
     and_then (update_order_returning i (amendable tenantID req) (amend_row now req correlationID) d)
       (\<lambda>(row, d1).
     case row of
       None \<Rightarrow> Inl ErrNotFound
     | Some r \<Rightarrow>
         let order = scan_order r;
             event = newRepositoryEvent (new_id d1) now order ''order.amended''
         in and_then (record_event now event (use_id d1)) (\<lambda>d2. Inr (order, d2)))"

subsection \<open>Triggering stop orders\<close>

definition trigger_due :: "time \<Rightarrow> duration \<Rightarrow> db \<Rightarrow> order_row \<Rightarrow> ref_price_row option" where
  "trigger_due now maxAge d r =
     (if t_order_type r \<in> {OrderTypeStop, OrderTypeStopLimit} \<and> t_stop_price r \<noteq> None \<and>
         t_triggered_at r = None \<and> t_remaining_quantity r > 0 \<and> is_live (t_status r)
      then (case find_by (\<lambda>p. (rp_tenant_id p, rp_symbol p)) (row_tenant r, t_symbol r)
                   (reference_prices d) of
              None \<Rightarrow> None
            | Some p \<Rightarrow> if rp_updated_at p \<ge> now - maxAge then Some p else None)
      else None)"

definition candidate_of :: "order_row \<Rightarrow> ref_price_row \<Rightarrow> TriggerCandidate" where
  "candidate_of r p =
     \<lparr>tc_OrderID = t_id r, tc_TenantID = row_tenant r, tc_UserID = t_user_id r,
      tc_Symbol = t_symbol r, tc_Side = t_side r, tc_OriginalType = t_order_type r,
      tc_StopPrice = fl64 (coalesce (t_stop_price r) 0),
      tc_LimitPrice = map_option fl64 (t_limit_price r), tc_ReferencePrice = fl64 (rp_price p),
      tc_PriceUpdatedAt = rp_updated_at p, tc_CorrelationID = coalesce (t_correlation_id r) ''''\<rparr>"

definition trigger_candidates :: "time \<Rightarrow> duration \<Rightarrow> int \<Rightarrow> db \<Rightarrow> TriggerCandidate list" where
  "trigger_candidates now maxAge limit d =
     List.map_filter (\<lambda>r. map_option (candidate_of r) (trigger_due now maxAge d r))
       (limit_rows limit (sort_key (\<lambda>r. (t_created_at r, t_id r))
          (filter (\<lambda>r. trigger_due now maxAge d r \<noteq> None) (orders d))))"

definition activate_row :: "time \<Rightarrow> TriggerCandidate \<Rightarrow> string \<Rightarrow> order_row \<Rightarrow> order_row" where
  "activate_row now candidate activatedType r =
     r\<lparr>t_order_type := activatedType,
       t_original_order_type := Some (tc_OriginalType candidate),
       t_activated_order_type := Some activatedType,
       t_stop_trigger_reference_price :=
         Some (dec_half_away 8 (shortest (tc_ReferencePrice candidate))),
       t_triggered_at := Some now, t_updated_at := now, t_version := t_version r + 1\<rparr>"

definition activatable :: "TriggerCandidate \<Rightarrow> order_row \<Rightarrow> bool" where
  "activatable candidate r \<longleftrightarrow>
     row_tenant r = tc_TenantID candidate \<and>
     t_order_type r \<in> {OrderTypeStop, OrderTypeStopLimit} \<and> t_triggered_at r = None \<and>
     is_live (t_status r) \<and> t_remaining_quantity r > 0"

definition activateLockedStopOrder :: "TriggerCandidate \<Rightarrow> string \<Rightarrow> time \<Rightarrow> db
    \<Rightarrow> repo_error + (Order \<times> OrderEvent \<times> db)" where
  "activateLockedStopOrder candidate activatedType now d =
     and_then (update_order_returning (tc_OrderID candidate) (activatable candidate)
                 (activate_row now candidate activatedType) d) (\<lambda>(row, d1).
     case row of
       None \<Rightarrow> Inl ErrNotFound
     | Some r \<Rightarrow>
         let order = scan_order r;
             event = (newRepositoryEvent (new_id d1) now order ''order.triggered'')
               \<lparr>e_EventVersion := ''v1'', e_OriginalOrderType := tc_OriginalType candidate,
                e_ActivatedOrderType := activatedType,
                e_StopPrice := Some (tc_StopPrice candidate),
                e_ReferencePrice := Some (tc_ReferencePrice candidate),
                e_TriggeredAt := Some now, e_Source := ''stop-trigger-worker''\<rparr>
         in Inr (order, event, use_id d1))"

text \<open>The body of the loop over the candidates.\<close>

definition skip_one :: "BatchResult \<Rightarrow> BatchResult" where
  "skip_one b = b\<lparr>br_Skipped := br_Skipped b + 1\<rparr>"

definition count_triggered :: "time \<Rightarrow> TriggerCandidate \<Rightarrow> BatchResult \<Rightarrow> BatchResult" where
  "count_triggered now c b =
     b\<lparr>br_Triggered := br_Triggered b + 1,
       br_TriggeredLabels := br_TriggeredLabels b @
         [\<lparr>tl_Symbol = tc_Symbol c, tl_Side = tc_Side c, tl_OrderType = tc_OriginalType c\<rparr>],
       br_LagSeconds := br_LagSeconds b @ [now - tc_PriceUpdatedAt c]\<rparr>"

definition trigger_one :: "time \<Rightarrow> TriggerCandidate \<Rightarrow> BatchResult \<times> db
    \<Rightarrow> repo_error + (BatchResult \<times> db)" where
  "trigger_one now c bd = (case bd of (b, d) \<Rightarrow>
     if \<not> ShouldTrigger (tc_Side c) (tc_OriginalType c) (tc_StopPrice c) (tc_ReferencePrice c)
       then Inr (skip_one b, d)
     else if ActivatedOrderType (tc_OriginalType c) = '''' then Inr (skip_one b, d)
     else (case activateLockedStopOrder c (ActivatedOrderType (tc_OriginalType c)) now d of
             Inl e \<Rightarrow> if e = ErrNotFound then Inr (skip_one b, d) else Inl e
           | Inr (order, triggeredEvent, d1) \<Rightarrow>
               and_then (matchAcceptedOrder now order d1) (\<lambda>(matchOrder, matchEvents, d2).
                 let events = map (\<lambda>e. with_user_id matchOrder (with_order_id matchOrder e))
                                (triggeredEvent # matchEvents)
                 in and_then (record_events now events d2) (\<lambda>d3.
                      Inr (count_triggered now c b, d3)))))"

definition TriggerDueStopOrders :: "int \<Rightarrow> duration \<Rightarrow> time \<Rightarrow> db \<Rightarrow> repo_error + (BatchResult \<times> db)" where
  "TriggerDueStopOrders limit0 maxReferencePriceAge now d =
     (let limit = (if limit0 \<le> 0 then 100 else limit0);
          candidates = trigger_candidates now maxReferencePriceAge limit d
      in fold_steps (trigger_one now) candidates
           (\<lparr>br_Processed = int (length candidates), br_Triggered = 0, br_Skipped = 0,
             br_LagSeconds = [], br_TriggeredLabels = []\<rparr>, d))"

subsection \<open>Reference prices\<close>

record ReferencePrice =
  pr_TenantID :: string
  pr_Symbol :: string
  pr_Price :: float64
  pr_Source :: string
  pr_UpdatedAt :: time

definition ref_row_of :: "ReferencePrice \<Rightarrow> ref_price_row" where
  "ref_row_of p = \<lparr>rp_tenant_id = pr_TenantID p, rp_symbol = pr_Symbol p,
     rp_price = dec_half_away 8 (shortest (pr_Price p)), rp_source = pr_Source p,
     rp_updated_at = pr_UpdatedAt p\<rparr>"

definition UpsertReferencePrice :: "time \<Rightarrow> ReferencePrice \<Rightarrow> db \<Rightarrow> repo_error + db" where
  "UpsertReferencePrice now price0 d =
     (let price = price0\<lparr>pr_TenantID := trim_space (pr_TenantID price0),
            pr_Symbol := to_upper (trim_space (pr_Symbol price0)),
            pr_Source := trim_space (pr_Source price0)\<rparr>
      in if pr_TenantID price = '''' then Inl (ErrArgument ''tenantID is required'')
         else if pr_Symbol price = '''' then Inl (ErrArgument ''symbol is required'')
         else if pr_Price price \<le> 0 then Inl (ErrArgument ''price must be positive'')
         else if pr_Source price = '''' then Inl (ErrArgument ''source is required'')
         else
           let price1 = (if pr_UpdatedAt price = zero_time then price\<lparr>pr_UpdatedAt := now\<rparr>
                         else price);
               row = ref_row_of price1;
               key = (\<lambda>p. (rp_tenant_id p, rp_symbol p))
           in if rp_price row \<le> 0 \<or> rp_price row \<ge> 10 ^ 12 then Inl (ErrConstraint ''reference_prices_price_check'')
              else if key row \<in> key ` set (reference_prices d)
              then Inr (d\<lparr>reference_prices :=
                     upd_where (\<lambda>p. key p = key row)
                       (\<lambda>p. p\<lparr>rp_price := rp_price row, rp_source := rp_source row,
                             rp_updated_at := rp_updated_at row\<rparr>) (reference_prices d)\<rparr>)
              else Inr (d\<lparr>reference_prices := reference_prices d @ [row]\<rparr>))"

definition UpsertMarketReferencePrice :: "time \<Rightarrow> string \<Rightarrow> string \<Rightarrow> float64 \<Rightarrow> string \<Rightarrow> time \<Rightarrow> db
    \<Rightarrow> repo_error + db" where
  "UpsertMarketReferencePrice now tenantID symbol price source updatedAt d =
     UpsertReferencePrice now \<lparr>pr_TenantID = tenantID, pr_Symbol = symbol, pr_Price = price,
       pr_Source = source, pr_UpdatedAt = updatedAt\<rparr> d"

definition GetReferencePrice :: "string \<Rightarrow> string \<Rightarrow> db \<Rightarrow> repo_error + ReferencePrice" where
  "GetReferencePrice tenantID0 symbol0 d =
     (let tenantID = trim_space tenantID0; symbol = to_upper (trim_space symbol0)
      in if tenantID = '''' \<or> symbol = '''' then Inl ErrNotFound
         else (case find_by (\<lambda>p. (rp_tenant_id p, rp_symbol p)) (tenantID, symbol)
                      (reference_prices d) of
                 None \<Rightarrow> Inl ErrNotFound
               | Some p \<Rightarrow> Inr \<lparr>pr_TenantID = rp_tenant_id p, pr_Symbol = rp_symbol p,
                     pr_Price = fl64 (rp_price p), pr_Source = rp_source p,
                     pr_UpdatedAt = rp_updated_at p\<rparr>))"

definition GetReferencePriceAge :: "time \<Rightarrow> string \<Rightarrow> string \<Rightarrow> db \<Rightarrow> repo_error + duration" where
  "GetReferencePriceAge now tenantID symbol d =
     and_then (GetReferencePrice tenantID symbol d) (\<lambda>price. Inr (now - pr_UpdatedAt price))"

end
