(* ===== verification/OrderFacts.thy ===== *)
theory OrderFacts
  imports OrderRepository
begin

text \<open>
  What the transactions of the order repository leave alone and what they leave behind: the frame
  of each statement, the lockstep of \<open>order_events\<close> and \<open>order_outbox\<close>, tenant isolation, and
  the behaviour of each operation (creation and its idempotency key, cancellation, amendment under
  its version check, the risk decision, the stop trigger).
\<close>

subsection \<open>Frames\<close>

text \<open>Everything but the orders, the executions and the id counter.\<close>

definition same_logs :: "db \<Rightarrow> db \<Rightarrow> bool" where
  "same_logs d d' \<longleftrightarrow> order_events d' = order_events d \<and> order_outbox d' = order_outbox d \<and>
     idempotency_keys d' = idempotency_keys d \<and>
     order_risk_decisions d' = order_risk_decisions d \<and> reference_prices d' = reference_prices d \<and>
     db_ids d' = db_ids d"

lemma same_logs_refl [simp]: "same_logs d d"
  by (simp add: same_logs_def)

lemma same_logs_trans: "same_logs d1 d2 \<Longrightarrow> same_logs d2 d3 \<Longrightarrow> same_logs d1 d3"
  by (simp add: same_logs_def)

lemma use_id_simps [simp]:
  "orders (use_id d) = orders d" "order_events (use_id d) = order_events d"
  "order_outbox (use_id d) = order_outbox d" "idempotency_keys (use_id d) = idempotency_keys d"
  "order_executions (use_id d) = order_executions d" "db_ids (use_id d) = db_ids d"
  "order_risk_decisions (use_id d) = order_risk_decisions d"
  "reference_prices (use_id d) = reference_prices d" "same_logs d (use_id d)"
  by (simp_all add: use_id_def same_logs_def)

text \<open>\<open>rows_only T d d'\<close>: the orders table has the same rows up to changes, in place, to rows of
  tenant \<open>T\<close> that keep their key, tenant, owner, symbol, side and creation time, and the trigger
  time once it is set.\<close>

definition same_identity :: "order_row \<Rightarrow> order_row \<Rightarrow> bool" where
  "same_identity r r' \<longleftrightarrow> t_id r' = t_id r \<and> t_tenant_id r' = t_tenant_id r \<and>
     t_user_id r' = t_user_id r \<and> t_symbol r' = t_symbol r \<and> t_side r' = t_side r \<and>
     t_created_at r' = t_created_at r \<and>
     (t_triggered_at r \<noteq> None \<longrightarrow> t_triggered_at r' = t_triggered_at r)"

definition rows_only :: "string \<Rightarrow> db \<Rightarrow> db \<Rightarrow> bool" where
  "rows_only T d d' \<longleftrightarrow>
     list_all2 (\<lambda>r r'. same_identity r r' \<and> (row_tenant r \<noteq> T \<longrightarrow> r' = r)) (orders d) (orders d')"

lemma same_identity_refl [simp]: "same_identity r r"
  by (simp add: same_identity_def)

lemma same_identity_tenant: "same_identity r r' \<Longrightarrow> row_tenant r' = row_tenant r"
  by (simp add: same_identity_def row_tenant_def)

lemma rows_only_refl [simp]: "rows_only T d d"
  by (simp add: rows_only_def list_all2_same)

lemma rows_only_orders: "orders d' = orders d \<Longrightarrow> rows_only T d d'"
  by (simp add: rows_only_def list_all2_same)

lemma rows_only_trans:
  assumes "rows_only T d1 d2" "rows_only T d2 d3" shows "rows_only T d1 d3"
  using assms unfolding rows_only_def
  by (rule list_all2_trans [rotated])
    (auto simp: same_identity_def row_tenant_def)

lemma rows_only_ids: "rows_only T d d' \<Longrightarrow> map t_id (orders d') = map t_id (orders d)"
  unfolding rows_only_def by (induction rule: list_all2_induct) (auto simp: same_identity_def)

lemma list_all2_upd_where:
  "(\<And>r. r \<in> set rs \<Longrightarrow> P r \<Longrightarrow> R r (f r)) \<Longrightarrow> (\<And>r. R r r) \<Longrightarrow> list_all2 R rs (upd_where P f rs)"
  by (induction rs) (auto simp: sql_simps)

lemma update_orders_Inr:
  "update_orders P f d = Inr d' \<longleftrightarrow>
     (\<forall>r\<in>set (orders d). P r \<longrightarrow> order_checks (f r)) \<and> d' = d\<lparr>orders := upd_where P f (orders d)\<rparr>"
  by (auto simp: update_orders_def)

lemma rows_only_update:
  assumes "\<And>r. P r \<Longrightarrow> row_tenant r = T" "\<And>r. P r \<Longrightarrow> same_identity r (f r)"
  shows "rows_only T d (d\<lparr>orders := upd_where P f (orders d)\<rparr>)"
  unfolding rows_only_def by simp (rule list_all2_upd_where; use assms in auto)

lemma orders_upd_simps [simp]:
  "same_logs d (d\<lparr>orders := x\<rparr>)" "same_logs d (d\<lparr>order_executions := y\<rparr>)"
  by (simp_all add: same_logs_def)

text \<open>The changes keep the identity columns.\<close>

lemma set_order_state_identity [simp]: "same_identity r (set_order_state now d order r)"
  by (simp add: same_identity_def set_order_state_def Let_def)

lemma risk_state_identity [simp]:
  "same_identity r (set_risk_state now order r)" "same_identity r (set_risk_rejected now order r)"
  by (simp_all add: same_identity_def set_risk_state_def set_risk_rejected_def)

lemma cancel_amend_identity [simp]:
  "same_identity r (cancel_row now c r)" "same_identity r (amend_row now req c r)"
  "t_triggered_at r = None \<Longrightarrow> same_identity r (activate_row now cand ty r)"
  by (simp_all add: same_identity_def cancel_row_def amend_row_def activate_row_def Let_def)

lemma persistOrderState_frame:
  assumes "persistOrderState now order d = Inr d'"
  shows "same_logs d d' \<and> rows_only (o_TenantID order) d d' \<and>
    order_executions d' = order_executions d \<and> db_next d' = db_next d"
  using assms unfolding persistOrderState_def update_orders_Inr
  by (auto intro: rows_only_update)

lemma load_changed_frame:
  "load_changed now T ms d = Inr (os, evs, d') \<Longrightarrow>
   same_logs d d' \<and> orders d' = orders d \<and> order_executions d' = order_executions d \<and>
   db_next d' = db_next d + length ms \<and> length os = length ms \<and>
   (\<forall>ch\<in>set os. o_TenantID ch = T)"
proof (induction ms arbitrary: d os evs d')
  case Nil
  then show ?case by simp
next
  case (Cons m ms)
  from Cons.prems obtain ro os' evs' where
    ro: "loadOrderForUpdate T (m_ID m) d = Inr ro" and
    rest: "load_changed now T ms (use_id d) = Inr (os', evs', d')" and
    os: "os = updateOrderLifecycleFromFill now (ApplyToDomain m ro) m False # os'"
    by (auto simp: and_then_Inr Let_def)
  have "o_TenantID ro = T"
    using ro by (auto simp: loadOrderForUpdate_def GetOrder_def find_order_def scan_order_def
        split: option.splits if_splits)
  then have "o_TenantID (updateOrderLifecycleFromFill now (ApplyToDomain m ro) m False) = T"
    by (simp add: updateOrderLifecycleFromFill_def ApplyToDomain_def Let_def)
  then show ?case using Cons.IH [OF rest] os
    by (auto simp: same_logs_def use_id_def)
qed

lemma insert_executions_frame:
  "insert_executions now order xs d = Inr (evs, d') \<Longrightarrow>
   same_logs d d' \<and> orders d' = orders d \<and> length evs = length xs \<and>
   (\<exists>rows. order_executions d' = order_executions d @ rows \<and> length rows = length xs \<and>
      (\<forall>row\<in>set rows. er_tenant_id row = o_TenantID order))"
proof (induction xs arbitrary: d evs d')
  case Nil
  then show ?case by simp
next
  case (Cons x xs)
  define x1 where "x1 = (if x_ID x = [] then x\<lparr>x_ID := new_id d\<rparr> else x)"
  from Cons.prems obtain d1 evs' where
    ins: "insertExecution (o_TenantID order) (o_CorrelationID order) x1 (use_id d) = Inr d1" and
    rest: "insert_executions now order xs (use_id d1) = Inr (evs', d')" and
    evs: "evs = tradeExecutedEvent (new_id d1) now order x1 # evs'"
    by (auto simp: and_then_Inr Let_def x1_def)
  have d1: "d1 = (use_id d)\<lparr>order_executions := order_executions d @
      [execution_row_of (o_TenantID order) (o_CorrelationID order) x1]\<rparr>"
    using ins by (auto simp: insertExecution_def Let_def split: if_splits)
  from Cons.IH [OF rest] obtain rows where rows:
    "same_logs d1 d'" "orders d' = orders d" "length evs' = length xs"
    "order_executions d' = order_executions d @
       execution_row_of (o_TenantID order) (o_CorrelationID order) x1 # rows"
    "length rows = length xs" "\<forall>row\<in>set rows. er_tenant_id row = o_TenantID order"
    by (auto simp: d1 same_logs_def)
  have "same_logs d d'" using rows(1) by (simp add: d1 same_logs_def)
  then show ?case using rows evs
    by (auto intro!: exI [of _ "execution_row_of (o_TenantID order) (o_CorrelationID order) x1 # rows"]
        simp: execution_row_of_def)
qed

lemma persist_all_frame:
  assumes "fold_steps (persistOrderState now) os d = Inr d'" "\<forall>ch\<in>set os. o_TenantID ch = T"
  shows "same_logs d d' \<and> rows_only T d d' \<and> order_executions d' = order_executions d \<and> db_next d' = db_next d"
proof -
  let ?I = "\<lambda>d'. same_logs d d' \<and> rows_only T d d' \<and> order_executions d' = order_executions d \<and> db_next d' = db_next d"
  have "?I d3" if "ch \<in> set os" "?I d2" "persistOrderState now ch d2 = Inr d3" for ch d2 d3
    using persistOrderState_frame [OF that(3)] that(1,2) assms(2)
    by (auto intro: same_logs_trans rows_only_trans)
  from fold_steps_invariant [of os ?I "persistOrderState now", OF this _ assms(1)]
  show ?thesis by simp
qed

lemma lifecycle_tenant [simp]:
  "o_TenantID (updateOrderLifecycleFromFill now o' m c) = o_TenantID o'"
  "o_ID (updateOrderLifecycleFromFill now o' m c) = o_ID o'"
  "o_UserID (updateOrderLifecycleFromFill now o' m c) = o_UserID o'"
  "o_CorrelationID (updateOrderLifecycleFromFill now o' m c) = o_CorrelationID o'"
  "o_TenantID (ApplyToDomain m o') = o_TenantID o'" "o_ID (ApplyToDomain m o') = o_ID o'"
  "o_UserID (ApplyToDomain m o') = o_UserID o'"
  "o_CorrelationID (ApplyToDomain m o') = o_CorrelationID o'"
  by (simp_all add: updateOrderLifecycleFromFill_def ApplyToDomain_def Let_def)

lemma matchAcceptedOrder_frame:
  assumes "matchAcceptedOrder now order d = Inr (order', evs, d')"
  shows "same_logs d d' \<and> rows_only (o_TenantID order) d d' \<and> o_TenantID order' = o_TenantID order \<and>
    o_ID order' = o_ID order \<and> o_UserID order' = o_UserID order \<and>
    (\<exists>rows. order_executions d' = order_executions d @ rows \<and>
       (\<forall>row\<in>set rows. er_tenant_id row = o_TenantID order))"
proof -
  obtain r where r: "Match (FromDomain order) (loadRestingOrders d order) now = Some r"
    using assms by (auto simp: matchAcceptedOrder_def split: option.splits)
  let ?o = "updateOrderLifecycleFromFill now (ApplyToDomain (r_Incoming r) order) (r_Incoming r) (r_Cancelled r)"
  obtain os evs1 d1 evs2 d2 d3 where
    l: "load_changed now (o_TenantID ?o) (r_Resting r) (use_id d) = Inr (os, evs1, d1)" and
    x: "insert_executions now ?o (r_Executions r) d1 = Inr (evs2, d2)" and
    p: "fold_steps (persistOrderState now) os d2 = Inr d3" and
    last: "(if r_Executions r \<noteq> [] \<or> r_Cancelled r then persistOrderState now ?o d3 = Inr d' else d' = d3)"
      "order' = ?o"
    using assms r by (auto simp: matchAcceptedOrder_def Let_def and_then_Inr split: if_splits)
  note fl = load_changed_frame [OF l]
  note fx = insert_executions_frame [OF x]
  have tn: "\<forall>ch\<in>set os. o_TenantID ch = o_TenantID order" using fl by simp
  have fp: "same_logs d2 d3 \<and> rows_only (o_TenantID order) d2 d3 \<and> order_executions d3 = order_executions d2"
    using persist_all_frame [OF p tn] by simp
  have f4: "same_logs d3 d' \<and> rows_only (o_TenantID order) d3 d' \<and> order_executions d' = order_executions d3"
    using last(1) persistOrderState_frame [of now ?o d3 d'] by (auto split: if_splits)
  have "same_logs d d'" using fl fx fp f4 unfolding same_logs_def by simp
  moreover have "rows_only (o_TenantID order) d d'"
    using fp f4 fl fx by (meson rows_only_orders rows_only_trans use_id_simps(1))
  ultimately show ?thesis using fl fx fp f4 last(2) by auto
qed

subsection \<open>Events and outbox in lockstep\<close>

text \<open>Every event has its outbox row, with the event as payload, in the same order: the
  transactional outbox. The publisher changes only the delivery columns of the rows.\<close>

definition outbox_in_step :: "db \<Rightarrow> bool" where
  "outbox_in_step d \<longleftrightarrow> map ob_payload (order_outbox d) = order_events d \<and>
     map ob_event_id (order_outbox d) = map e_EventID (order_events d) \<and>
     distinct (map ob_id (order_outbox d))"

text \<open>A row as it is inserted: pending, unlocked, unpublished, no attempt yet, under the topic of its event.\<close>

definition fresh_row :: "outbox_row \<Rightarrow> bool" where
  "fresh_row x \<longleftrightarrow> ob_status x = ''pending'' \<and> ob_attempt_count x = 0 \<and> ob_published_at x = None \<and>
     ob_locked_by x = None \<and> ob_lease_until x = None \<and> ob_topic x = e_EventType (ob_payload x)"

definition tables_but_logs :: "db \<Rightarrow> db \<Rightarrow> bool" where
  "tables_but_logs d d' \<longleftrightarrow> orders d' = orders d \<and> order_executions d' = order_executions d \<and>
     idempotency_keys d' = idempotency_keys d \<and>
     order_risk_decisions d' = order_risk_decisions d \<and> reference_prices d' = reference_prices d \<and>
     db_ids d' = db_ids d"

lemma record_event_Inr:
  assumes "record_event now e d = Inr d'"
  shows "order_events d' = order_events d @ [e] \<and> tables_but_logs d d' \<and>
    (\<exists>rows. order_outbox d' = order_outbox d @ rows \<and> (\<forall>x\<in>set rows. fresh_row x)) \<and> (outbox_in_step d \<longrightarrow> outbox_in_step d')"
proof -
  have ne: "e_EventID e \<notin> e_EventID ` set (order_events d)"
    using assms by (auto simp: record_event_def insertEvent_def split: if_splits)
  have ob: "outbox_in_step d \<Longrightarrow> e_EventID e \<notin> ob_event_id ` set (order_outbox d)"
    using ne unfolding outbox_in_step_def by (metis image_set)
  show ?thesis using assms ob
    by (auto simp: record_event_def insertEvent_def insertOutbox_def tables_but_logs_def
        outbox_in_step_def outbox_row_of_def use_id_def fresh_row_def split: if_splits)
qed

lemma record_events_Inr:
  assumes "record_events now evs d = Inr d'"
  shows "order_events d' = order_events d @ evs \<and> tables_but_logs d d' \<and>
    (\<exists>rows. order_outbox d' = order_outbox d @ rows \<and> (\<forall>x\<in>set rows. fresh_row x)) \<and> (outbox_in_step d \<longrightarrow> outbox_in_step d')"
  using assms unfolding record_events_def
proof (induction evs arbitrary: d)
  case Nil
  then show ?case by (simp add: tables_but_logs_def)
next
  case (Cons e evs)
  then obtain d1 where d1: "record_event now e d = Inr d1"
    "fold_steps (record_event now) evs d1 = Inr d'" by (auto simp: and_then_Inr)
  note a = record_event_Inr [OF d1(1)] and b = Cons.IH [OF d1(2)]
  have "tables_but_logs d d'" using a b by (simp add: tables_but_logs_def)
  then show ?case using a b by auto
qed

lemma same_logs_in_step: "same_logs d d' \<Longrightarrow> outbox_in_step d' = outbox_in_step d"
  by (simp add: same_logs_def outbox_in_step_def)

text \<open>\<open>records d d' evs\<close>: the transaction appended exactly the events \<open>evs\<close>, each with its
  outbox row.\<close>

definition records :: "db \<Rightarrow> db \<Rightarrow> OrderEvent list \<Rightarrow> bool" where
  "records d d' evs \<longleftrightarrow> order_events d' = order_events d @ evs \<and>
     (\<exists>rows. order_outbox d' = order_outbox d @ rows \<and> (\<forall>x\<in>set rows. fresh_row x)) \<and> (outbox_in_step d \<longrightarrow> outbox_in_step d')"

lemma records_intro:
  assumes "same_logs d d1" "record_events now evs d1 = Inr d2"
  shows "records d d2 evs"
  using record_events_Inr [OF assms(2)] assms(1) same_logs_in_step [OF assms(1)]
  by (simp add: records_def same_logs_def)

lemma records_intro1:
  assumes "same_logs d d1" "record_event now e d1 = Inr d2" shows "records d d2 [e]"
  using record_event_Inr [OF assms(2)] assms(1) same_logs_in_step [OF assms(1)]
  by (simp add: records_def same_logs_def)

subsection \<open>Creating an order\<close>

lemma CreateOrder_Inr:
  assumes "CreateOrder now order0 evs0 key hash d = Inr (order, evs, d')"
  obtains order1 d1 d2 d3 mevs where
    "insert_order now order0 d = Inr (order1, d1)"
    "if o_Status order0 = StatusAccepted then matchAcceptedOrder now order1 d1 = Inr (order, mevs, d2)
     else order = order1 \<and> d2 = d1 \<and> mevs = []"
    "evs = map (with_order_id order) (evs0 @ mevs)" "record_events now evs d2 = Inr d3"
    "insert_idempotency \<lparr>ir_TenantID = o_TenantID order, ir_UserID = o_UserID order, ir_Key = key,
       ir_RequestHash = hash, ir_OrderID = o_ID order, ir_CreatedAt = now\<rparr> d3 = Inr d'"
proof -
  obtain order1 d1 where i: "insert_order now order0 d = Inr (order1, d1)"
    using assms by (auto simp: CreateOrder_def and_then_Inr)
  then have st: "o_Status order1 = o_Status order0"
    by (auto simp: insert_order_def Let_def split: if_splits)
  show thesis
  proof (cases "o_Status order0 = StatusAccepted")
    case True
    then obtain mevs d2 d3 where "matchAcceptedOrder now order1 d1 = Inr (order, mevs, d2)"
      "evs = map (with_order_id order) (evs0 @ mevs)" "record_events now evs d2 = Inr d3"
      "insert_idempotency \<lparr>ir_TenantID = o_TenantID order, ir_UserID = o_UserID order, ir_Key = key,
         ir_RequestHash = hash, ir_OrderID = o_ID order, ir_CreatedAt = now\<rparr> d3 = Inr d'"
      using assms i st by (auto simp: CreateOrder_def and_then_Inr Let_def)
    then show thesis using i True by (intro that) auto
  next
    case False
    then obtain d3 where "order = order1"
      "evs = map (with_order_id order) evs0" "record_events now evs d1 = Inr d3"
      "insert_idempotency \<lparr>ir_TenantID = o_TenantID order, ir_UserID = o_UserID order, ir_Key = key,
         ir_RequestHash = hash, ir_OrderID = o_ID order, ir_CreatedAt = now\<rparr> d3 = Inr d'"
      using assms i st by (auto simp: CreateOrder_def and_then_Inr Let_def)
    then show thesis using i False by (intro that) auto
  qed
qed

lemma insert_order_Inr:
  assumes "insert_order now order0 d = Inr (order1, d1)"
  shows "order1 = order0\<lparr>o_ID := new_id d, o_CreatedAt := now, o_UpdatedAt := now\<rparr>"
    "d1 = (use_id d)\<lparr>orders := orders d @ [order_row_of (new_id d) now order0]\<rparr>"
    "order_checks (order_row_of (new_id d) now order0)" "new_id d \<notin> t_id ` set (orders d)"
  using assms by (auto simp: insert_order_def Let_def order_row_of_def split: if_splits)

lemma insert_idempotency_Inr:
  "insert_idempotency k d = Inr d' \<Longrightarrow> d' = d\<lparr>idempotency_keys := idempotency_keys d @ [k]\<rparr> \<and>
     (ir_TenantID k, ir_UserID k, ir_Key k) \<notin>
       (\<lambda>k. (ir_TenantID k, ir_UserID k, ir_Key k)) ` set (idempotency_keys d)"
  by (auto simp: insert_idempotency_def split: if_splits)

lemma CreateOrder_effect:
  assumes "CreateOrder now order0 evs0 key hash d = Inr (order, evs, d')"
  shows "records d d' evs" "o_ID order = new_id d" "o_TenantID order = o_TenantID order0"
    "o_UserID order = o_UserID order0"
    "idempotency_keys d' = idempotency_keys d @ [\<lparr>ir_TenantID = o_TenantID order0,
       ir_UserID = o_UserID order0, ir_Key = key, ir_RequestHash = hash, ir_OrderID = new_id d,
       ir_CreatedAt = now\<rparr>]"
    "rows_only (o_TenantID order0)
       (d\<lparr>orders := orders d @ [order_row_of (new_id d) now order0]\<rparr>) d'"
    "\<exists>rows. order_executions d' = order_executions d @ rows \<and>
       (\<forall>row\<in>set rows. er_tenant_id row = o_TenantID order0)"
    "order_risk_decisions d' = order_risk_decisions d" "reference_prices d' = reference_prices d"
    "db_ids d' = db_ids d"
proof -
  obtain order1 d1 d2 d3 mevs where
    i: "insert_order now order0 d = Inr (order1, d1)" and
    m: "if o_Status order0 = StatusAccepted then matchAcceptedOrder now order1 d1 = Inr (order, mevs, d2)
     else order = order1 \<and> d2 = d1 \<and> mevs = []" and
    e: "evs = map (with_order_id order) (evs0 @ mevs)" "record_events now evs d2 = Inr d3" and
    k: "insert_idempotency \<lparr>ir_TenantID = o_TenantID order, ir_UserID = o_UserID order, ir_Key = key,
       ir_RequestHash = hash, ir_OrderID = o_ID order, ir_CreatedAt = now\<rparr> d3 = Inr d'"
    by (rule CreateOrder_Inr [OF assms])
  note io = insert_order_Inr [OF i] and ik = insert_idempotency_Inr [OF k]
  have mf: "same_logs d1 d2 \<and> rows_only (o_TenantID order0) d1 d2 \<and> o_TenantID order = o_TenantID order0 \<and>
    o_ID order = new_id d \<and> o_UserID order = o_UserID order0 \<and>
    (\<exists>rows. order_executions d2 = order_executions d1 @ rows \<and>
       (\<forall>row\<in>set rows. er_tenant_id row = o_TenantID order0))"
    using m matchAcceptedOrder_frame [of now order1 d1 order mevs d2] io(1)
    by (auto split: if_splits)
  have l1: "same_logs d d1" by (simp add: io(2) same_logs_def)
  have l: "same_logs d d2" using l1 mf same_logs_trans by blast
  note re = record_events_Inr [OF e(2)]
  have "records d d3 evs" by (rule records_intro [OF l e(2)])
  then show "records d d' evs" using ik by (simp add: records_def outbox_in_step_def)
  show "o_ID order = new_id d" "o_TenantID order = o_TenantID order0" "o_UserID order = o_UserID order0"
    using mf by auto
  show "idempotency_keys d' = idempotency_keys d @ [\<lparr>ir_TenantID = o_TenantID order0,
       ir_UserID = o_UserID order0, ir_Key = key, ir_RequestHash = hash, ir_OrderID = new_id d,
       ir_CreatedAt = now\<rparr>]"
    using ik mf re l by (simp add: tables_but_logs_def same_logs_def)
  show "rows_only (o_TenantID order0)
       (d\<lparr>orders := orders d @ [order_row_of (new_id d) now order0]\<rparr>) d'"
    using mf re ik unfolding rows_only_def by (simp add: tables_but_logs_def io(2))
  show "\<exists>rows. order_executions d' = order_executions d @ rows \<and>
       (\<forall>row\<in>set rows. er_tenant_id row = o_TenantID order0)"
    using mf re ik by (simp add: tables_but_logs_def io(2))
  show "order_risk_decisions d' = order_risk_decisions d" "reference_prices d' = reference_prices d"
    "db_ids d' = db_ids d"
    using l re ik by (simp_all add: tables_but_logs_def same_logs_def)
qed

subsection \<open>The risk decision\<close>

lemma insertRiskDecision_Inr:
  assumes "insertRiskDecision dec d = Inr d'"
  shows "\<exists>rows. d' = d\<lparr>order_risk_decisions := order_risk_decisions d @ rows\<rparr>"
  using assms
  by (auto simp: insertRiskDecision_def intro: exI [of _ "[]"] split: if_splits)

lemma loadOrderForUpdate_Inr:
  "loadOrderForUpdate T i d = Inr o' \<longleftrightarrow>
   (\<exists>r. find_by t_id i (orders d) = Some r \<and> row_tenant r = T \<and> o' = scan_order r)"
  by (auto simp: loadOrderForUpdate_def GetOrder_def find_order_def split: option.splits if_splits)

lemma scan_order_simps [simp]:
  "o_ID (scan_order r) = t_id r" "o_TenantID (scan_order r) = row_tenant r"
  "o_Status (scan_order r) = t_status r" "o_UserID (scan_order r) = t_user_id r"
  "o_Version (scan_order r) = t_version r"
  by (simp_all add: scan_order_def)

lemma own_row_update:
  assumes "update_orders (own_row o') f d = Inr d'" "\<And>r. same_identity r (f r)"
  shows "same_logs d d' \<and> rows_only (o_TenantID o') d d' \<and> order_executions d' = order_executions d"
  using assms by (auto simp: update_orders_Inr own_row_def intro: rows_only_update)

definition same_but_decisions :: "db \<Rightarrow> db \<Rightarrow> bool" where
  "same_but_decisions d d' \<longleftrightarrow> idempotency_keys d' = idempotency_keys d \<and>
     reference_prices d' = reference_prices d \<and> db_ids d' = db_ids d"

lemma decision_order_simps [simp]:
  "o_TenantID (decided c dec o') = o_TenantID o'" "o_ID (decided c dec o') = o_ID o'"
  "o_TenantID (approve_order o') = o_TenantID o'" "o_ID (approve_order o') = o_ID o'"
  "o_TenantID (reject_order dec o') = o_TenantID o'" "o_ID (reject_order dec o') = o_ID o'"
  "o_Status (approve_order o') = StatusAccepted"
  by (simp_all add: decided_def approve_order_def reject_order_def Let_def)

lemma ApplyRiskDecision_cases:
  assumes "ApplyRiskDecision clock T i dec approved rejected d = Inr (order, evs, d')"
  obtains (decided_before) r where "find_by t_id i (orders d) = Some r" "row_tenant r = T"
      "t_status r \<noteq> StatusRiskPending" "order = scan_order r" "evs = []" "d' = d"
  | (approved) r order2 d1 d2 d3 mevs where "find_by t_id i (orders d) = Some r" "row_tenant r = T"
      "t_status r = StatusRiskPending" "insertRiskDecision dec d = Inr d1" "rd_Approved dec"
      "order2 = approve_order (decided clock dec (scan_order r))"
      "update_orders (own_row order2) (set_risk_state clock order2) d1 = Inr d2"
      "matchAcceptedOrder clock order2 d2 = Inr (order, mevs, d3)"
      "evs = map (\<lambda>e. with_user_id order (with_order_id order e)) (approved @ mevs)"
      "record_events clock evs d3 = Inr d'"
  | (rejected) r d1 d2 where "find_by t_id i (orders d) = Some r" "row_tenant r = T"
      "t_status r = StatusRiskPending" "insertRiskDecision dec d = Inr d1" "\<not> rd_Approved dec"
      "order = reject_order dec (decided clock dec (scan_order r))"
      "update_orders (own_row order) (set_risk_rejected clock order) d1 = Inr d2"
      "evs = [with_user_id order (with_order_id order rejected)]"
      "record_events clock evs d2 = Inr d'"
proof -
  obtain order0 where ld: "loadOrderForUpdate T i d = Inr order0"
    using assms by (auto simp: ApplyRiskDecision_def and_then_Inr)
  then obtain r where r: "find_by t_id i (orders d) = Some r" "row_tenant r = T" "order0 = scan_order r"
    by (auto simp: loadOrderForUpdate_Inr)
  show thesis
  proof (cases "t_status r = StatusRiskPending")
    case False
    then show thesis using assms ld r by (intro decided_before [OF r(1,2)]) (auto simp: ApplyRiskDecision_def)
  next
    case True
    then obtain d1 where d1: "insertRiskDecision dec d = Inr d1"
      using assms ld r by (auto simp: ApplyRiskDecision_def and_then_Inr)
    show thesis
    proof (cases "rd_Approved dec")
      case app: True
      let ?o2 = "approve_order (decided clock dec (scan_order r))"
      from assms ld d1 True app r(3) obtain d2 mevs d3 where
        "update_orders (own_row ?o2) (set_risk_state clock ?o2) d1 = Inr d2"
        "matchAcceptedOrder clock ?o2 d2 = Inr (order, mevs, d3)"
        "evs = map (\<lambda>e. with_user_id order (with_order_id order e)) (approved @ mevs)"
        "record_events clock evs d3 = Inr d'"
        by (auto simp: ApplyRiskDecision_def and_then_Inr Let_def)
      then show thesis by (intro approved [OF r(1,2) True d1 app refl])
    next
      case rej: False
      from assms ld d1 True rej r(3) obtain d2 where
        "order = reject_order dec (decided clock dec (scan_order r))"
        "update_orders (own_row order) (set_risk_rejected clock order) d1 = Inr d2"
        "evs = [with_user_id order (with_order_id order rejected)]"
        "record_events clock evs d2 = Inr d'"
        by (auto simp: ApplyRiskDecision_def and_then_Inr Let_def)
      then show thesis by (intro rejected [OF r(1,2) True d1 rej])
    qed
  qed
qed

text \<open>What the transactions that only append to the logs and change rows of one tenant have in
  common.\<close>

definition tenant_effect :: "string \<Rightarrow> db \<Rightarrow> db \<Rightarrow> OrderEvent list \<Rightarrow> bool" where
  "tenant_effect T d d' evs \<longleftrightarrow> rows_only T d d' \<and> same_but_decisions d d' \<and>
     (\<exists>rows. order_executions d' = order_executions d @ rows \<and> (\<forall>row\<in>set rows. er_tenant_id row = T)) \<and>
     records d d' evs"

lemma ApplyRiskDecision_effect:
  assumes "ApplyRiskDecision clock T i dec approved rejected d = Inr (order, evs, d')"
  shows "tenant_effect T d d' evs"
  using assms
proof (cases rule: ApplyRiskDecision_cases)
  case decided_before
  then show ?thesis by (simp add: tenant_effect_def records_def same_but_decisions_def)
next
  case (approved r order2 d1 d2 d3 mevs)
  obtain rows where rows: "d1 = d\<lparr>order_risk_decisions := order_risk_decisions d @ rows\<rparr>"
    using insertRiskDecision_Inr approved(4) by blast
  have T: "o_TenantID order2 = T" using approved(2,6) by simp
  note fu = own_row_update [OF approved(7) risk_state_identity(1)]
    and fm = matchAcceptedOrder_frame [OF approved(8)] and re = record_events_Inr [OF approved(10)]
  have l: "same_logs d1 d3" using fu fm same_logs_trans by blast
  have "rows_only T d1 d3" using fu fm T rows_only_trans by metis
  then have "rows_only T d d'" using re unfolding rows rows_only_def tables_but_logs_def by simp
  moreover have "records d1 d' evs" by (rule records_intro [OF l approved(10)])
  then have "records d d' evs" unfolding rows records_def outbox_in_step_def by simp
  moreover have "same_but_decisions d d'"
    using l re unfolding rows same_but_decisions_def same_logs_def tables_but_logs_def by simp
  moreover have "\<exists>rows. order_executions d' = order_executions d @ rows \<and>
      (\<forall>row\<in>set rows. er_tenant_id row = T)"
    using fu fm re T unfolding rows tables_but_logs_def by simp
  ultimately show ?thesis unfolding tenant_effect_def by blast
next
  case (rejected r d1 d2)
  obtain rows where rows: "d1 = d\<lparr>order_risk_decisions := order_risk_decisions d @ rows\<rparr>"
    using insertRiskDecision_Inr rejected(4) by blast
  have T: "o_TenantID order = T" using rejected(2,6) by simp
  note fu = own_row_update [OF rejected(7) risk_state_identity(2)]
    and re = record_events_Inr [OF rejected(9)]
  have l: "same_logs d1 d2" using fu by blast
  have "rows_only T d1 d2" using fu T by blast
  then have "rows_only T d d'" using re unfolding rows rows_only_def tables_but_logs_def by simp
  moreover have "records d1 d' evs" by (rule records_intro [OF l rejected(9)])
  then have "records d d' evs" unfolding rows records_def outbox_in_step_def by simp
  moreover have "same_but_decisions d d'"
    using l re unfolding rows same_but_decisions_def same_logs_def tables_but_logs_def by simp
  moreover have "order_executions d' = order_executions d"
    using fu re unfolding rows tables_but_logs_def by simp
  ultimately show ?thesis unfolding tenant_effect_def by simp
qed

subsection \<open>Cancelling and amending\<close>

lemma update_order_returning_Inr:
  "update_order_returning i P f d = Inr (ro, d1) \<longleftrightarrow>
   update_orders (\<lambda>r. t_id r = i \<and> P r) f d = Inr d1 \<and>
   ro = (case find_by t_id i (orders d) of None \<Rightarrow> None | Some r \<Rightarrow> if P r then Some (f r) else None)"
  by (auto simp: update_order_returning_def and_then_Inr)

lemma CancelOrder_Inr:
  assumes "CancelOrder now T i c ev d = Inr (order, d')"
  obtains r where "find_by t_id i (orders d) = Some r" "row_tenant r = T" "is_live (t_status r)"
    "order = scan_order (cancel_row now c r)"
    "records d d' [ev\<lparr>e_OrderID := o_ID order, e_UserID := o_UserID order\<rparr>]"
    "orders d' = upd_where (\<lambda>r. t_id r = i \<and> is_live (t_status r) \<and> row_tenant r = T)
                   (cancel_row now c) (orders d)"
    "order_executions d' = order_executions d" "same_but_decisions d d'"
    "order_checks (cancel_row now c r)"
proof -
  obtain d1 r where
    u: "update_orders (\<lambda>r. t_id r = i \<and> is_live (t_status r) \<and> row_tenant r = T) (cancel_row now c) d = Inr d1" and
    r: "find_by t_id i (orders d) = Some r" "row_tenant r = T" "is_live (t_status r)" and
    o: "order = scan_order (cancel_row now c r)" and
    e: "record_event now (ev\<lparr>e_OrderID := o_ID order, e_UserID := o_UserID order\<rparr>) d1 = Inr d'"
    using assms
    by (auto simp: CancelOrder_def and_then_Inr update_order_returning_Inr Let_def
        split: option.splits if_splits)
  have d1: "d1 = d\<lparr>orders := upd_where (\<lambda>r. t_id r = i \<and> is_live (t_status r) \<and> row_tenant r = T)
      (cancel_row now c) (orders d)\<rparr>" using u by (simp add: update_orders_Inr)
  have l: "same_logs d d1" by (simp add: d1)
  have ck: "order_checks (cancel_row now c r)" using u r find_by_Some [OF r(1)] by (auto simp: update_orders_Inr)
  note re = record_event_Inr [OF e]
  show thesis
  proof (rule that [OF r o])
    show "records d d' [ev\<lparr>e_OrderID := o_ID order, e_UserID := o_UserID order\<rparr>]"
      by (rule records_intro1 [OF l e])
  qed (use re ck in \<open>simp_all add: d1 tables_but_logs_def same_but_decisions_def\<close>)
qed

lemma AmendOrder_Inr:
  assumes "AmendOrder now T i req c d = Inr (order, d')"
  obtains r ev where "find_by t_id i (orders d) = Some r" "amendable T req r"
    "order = scan_order (amend_row now req c r)" "records d d' [ev]" "e_EventType ev = ''order.amended''"
    "orders d' = upd_where (\<lambda>r. t_id r = i \<and> amendable T req r) (amend_row now req c) (orders d)"
    "order_executions d' = order_executions d" "same_but_decisions d d'"
    "order_checks (amend_row now req c r)"
proof -
  obtain d1 r where
    u: "update_orders (\<lambda>r. t_id r = i \<and> amendable T req r) (amend_row now req c) d = Inr d1" and
    r: "find_by t_id i (orders d) = Some r" "amendable T req r" and
    o: "order = scan_order (amend_row now req c r)" and
    e: "record_event now (newRepositoryEvent (new_id d1) now order ''order.amended'') (use_id d1) = Inr d'"
    using assms
    by (auto simp: AmendOrder_def and_then_Inr update_order_returning_Inr Let_def
        split: option.splits if_splits)
  have d1: "d1 = d\<lparr>orders := upd_where (\<lambda>r. t_id r = i \<and> amendable T req r) (amend_row now req c)
      (orders d)\<rparr>" using u by (simp add: update_orders_Inr)
  have l: "same_logs d (use_id d1)" by (simp add: d1 same_logs_def)
  have ck: "order_checks (amend_row now req c r)" using u r find_by_Some [OF r(1)] by (auto simp: update_orders_Inr)
  note re = record_event_Inr [OF e]
  show thesis
  proof (rule that [OF r o])
    show "records d d' [newRepositoryEvent (new_id d1) now order ''order.amended'']"
      by (rule records_intro1 [OF l e])
  qed (use re ck in \<open>simp_all add: d1 tables_but_logs_def same_but_decisions_def newRepositoryEvent_def\<close>)
qed

text \<open>The row an UPDATE by key leaves, and the rows it does not touch.\<close>

lemma find_by_updated:
  assumes "\<And>r. t_id (f r) = t_id r" "find_by t_id i rs = Some r" "P r"
  shows "find_by t_id i (upd_where (\<lambda>r. t_id r = i \<and> P r) f rs) = Some (f r)"
    and "j \<noteq> i \<Longrightarrow> find_by t_id j (upd_where (\<lambda>r. t_id r = i \<and> P r) f rs) = find_by t_id j rs"
proof -
  show "find_by t_id i (upd_where (\<lambda>r. t_id r = i \<and> P r) f rs) = Some (f r)"
    using assms(2,3) find_by_Some [OF assms(2)] by (simp add: find_by_upd_where assms(1))
  show "find_by t_id j (upd_where (\<lambda>r. t_id r = i \<and> P r) f rs) = find_by t_id j rs" if "j \<noteq> i"
  proof (cases "find_by t_id j rs")
    case None
    then show ?thesis by (simp add: find_by_upd_where assms(1))
  next
    case (Some r')
    then show ?thesis using find_by_Some [OF Some] that by (simp add: find_by_upd_where assms(1))
  qed
qed

lemma CancelOrder_effect:
  assumes "CancelOrder now T i c ev d = Inr (order, d')"
  shows "tenant_effect T d d' [ev\<lparr>e_OrderID := o_ID order, e_UserID := o_UserID order\<rparr>]"
  by (rule CancelOrder_Inr [OF assms])
    (auto simp: tenant_effect_def rows_only_def intro!: list_all2_upd_where)

lemma AmendOrder_effect:
  assumes "AmendOrder now T i req c d = Inr (order, d')"
  shows "\<exists>ev. tenant_effect T d d' [ev]"
  by (rule AmendOrder_Inr [OF assms])
    (auto simp: tenant_effect_def rows_only_def amendable_def intro!: list_all2_upd_where exI)

subsection \<open>Stop orders\<close>

lemma newRepositoryEvent_simps [simp]:
  "e_EventType (newRepositoryEvent i now o' ty) = ty" "e_OrderID (newRepositoryEvent i now o' ty) = o_ID o'"
  "e_EventID (newRepositoryEvent i now o' ty) = i"
  "e_Version (newRepositoryEvent i now o' ty) = o_Version o' + 1"
  by (simp_all add: newRepositoryEvent_def)

lemma activateLockedStopOrder_Inr:
  assumes "activateLockedStopOrder c ty now d = Inr (order, ev, d')"
  obtains r where "find_by t_id (tc_OrderID c) (orders d) = Some r" "activatable c r"
    "order = scan_order (activate_row now c ty r)" "o_TenantID order = tc_TenantID c"
    "orders d' = upd_where (\<lambda>r. t_id r = tc_OrderID c \<and> activatable c r) (activate_row now c ty) (orders d)"
    "same_logs d d'" "order_executions d' = order_executions d" "rows_only (tc_TenantID c) d d'"
    "e_EventType ev = ''order.triggered''"
proof -
  obtain d1 r where
    u: "update_orders (\<lambda>r. t_id r = tc_OrderID c \<and> activatable c r) (activate_row now c ty) d = Inr d1" and
    r: "find_by t_id (tc_OrderID c) (orders d) = Some r" "activatable c r" and
    o: "order = scan_order (activate_row now c ty r)" and d': "d' = use_id d1" and
    e: "e_EventType ev = ''order.triggered''"
    using assms
    by (auto simp: activateLockedStopOrder_def and_then_Inr update_order_returning_Inr Let_def
        split: option.splits if_splits)
  have d1: "d1 = d\<lparr>orders := upd_where (\<lambda>r. t_id r = tc_OrderID c \<and> activatable c r)
      (activate_row now c ty) (orders d)\<rparr>" using u by (simp add: update_orders_Inr)
  have t: "row_tenant (activate_row now c ty r) = row_tenant r" for r
    by (simp add: row_tenant_def activate_row_def)
  show thesis
  proof (rule that [OF r o])
    show "o_TenantID order = tc_TenantID c" using r(2) by (simp add: o t activatable_def)
    show "rows_only (tc_TenantID c) d d'"
      unfolding d' d1 rows_only_def by (auto simp: activatable_def intro!: list_all2_upd_where)
  qed (simp_all add: d' d1 same_logs_def e)
qed

lemma trigger_one_effect:
  assumes "trigger_one now c (b, d) = Inr (b', d')"
  shows "\<exists>evs. tenant_effect (tc_TenantID c) d d' evs"
proof -
  have id: "tenant_effect (tc_TenantID c) d d []"
    by (simp add: tenant_effect_def records_def same_but_decisions_def)
  let ?ty = "ActivatedOrderType (tc_OriginalType c)"
  show ?thesis
  proof (cases "d' = d")
    case True
    then show ?thesis using id by blast
  next
    case False
    then obtain order ev d1 where a: "activateLockedStopOrder c ?ty now d = Inr (order, ev, d1)"
      using assms by (auto simp: trigger_one_def split: if_splits sum.splits)
    then obtain mo mevs d2 evs where m: "matchAcceptedOrder now order d1 = Inr (mo, mevs, d2)"
      and e: "record_events now evs d2 = Inr d'"
      using assms False by (auto simp: trigger_one_def and_then_Inr Let_def split: if_splits)
    note fm = matchAcceptedOrder_frame [OF m] and re = record_events_Inr [OF e]
    show ?thesis
    proof (rule activateLockedStopOrder_Inr [OF a])
      assume t: "o_TenantID order = tc_TenantID c" "same_logs d d1"
        "order_executions d1 = order_executions d" "rows_only (tc_TenantID c) d d1"
      have l: "same_logs d d2" using t fm same_logs_trans by blast
      have "rows_only (tc_TenantID c) d d2" using t fm rows_only_trans by metis
      then have "rows_only (tc_TenantID c) d d'" using re unfolding rows_only_def tables_but_logs_def by simp
      moreover have "records d d' evs" by (rule records_intro [OF l e])
      moreover have "same_but_decisions d d'"
        using l re unfolding same_but_decisions_def same_logs_def tables_but_logs_def by simp
      moreover have "\<exists>rows. order_executions d' = order_executions d @ rows \<and>
          (\<forall>row\<in>set rows. er_tenant_id row = tc_TenantID c)"
        using t fm re unfolding tables_but_logs_def by simp
      ultimately show ?thesis unfolding tenant_effect_def by blast
    qed
  qed
qed

text \<open>The same without the tenant: what every transaction of the service does to the tables.\<close>

definition table_effect :: "db \<Rightarrow> db \<Rightarrow> bool" where
  "table_effect d d' \<longleftrightarrow> list_all2 same_identity (orders d) (orders d') \<and>
     same_but_decisions d d' \<and> (\<exists>rows. order_executions d' = order_executions d @ rows) \<and>
     (\<exists>evs. records d d' evs)"

lemma same_identity_trans: "same_identity a b \<Longrightarrow> same_identity b c \<Longrightarrow> same_identity a c"
  by (auto simp: same_identity_def)

lemma records_trans: "records d1 d2 e1 \<Longrightarrow> records d2 d3 e2 \<Longrightarrow> records d1 d3 (e1 @ e2)"
  by (auto simp: records_def)

lemma table_effect_refl [simp]: "table_effect d d"
  by (auto simp: table_effect_def same_but_decisions_def records_def list_all2_same)

lemma table_effect_trans: "table_effect d1 d2 \<Longrightarrow> table_effect d2 d3 \<Longrightarrow> table_effect d1 d3"
  unfolding table_effect_def same_but_decisions_def
  by (auto intro: list_all2_trans [OF same_identity_trans] records_trans)

lemma tenant_table_effect: "tenant_effect T d d' evs \<Longrightarrow> table_effect d d'"
  by (auto simp: tenant_effect_def table_effect_def rows_only_def elim: list_all2_mono)

lemma TriggerDueStopOrders_effect:
  assumes "TriggerDueStopOrders l a now d = Inr (b, d')" shows "table_effect d d'"
proof -
  obtain b0 cs where f: "fold_steps (trigger_one now) cs (b0, d) = Inr (b, d')"
    using assms unfolding TriggerDueStopOrders_def Let_def by blast
  have "table_effect d (snd (b, d'))"
    using f
  proof (rule fold_steps_invariant [where I = "\<lambda>s. table_effect d (snd s)", rotated 2])
    fix c s s'
    assume "table_effect d (snd s)" "trigger_one now c s = Inr s'"
    then show "table_effect d (snd s')"
      using trigger_one_effect [of now c "fst s" "snd s" "fst s'" "snd s'"]
        tenant_table_effect table_effect_trans by (metis prod.collapse)
  qed simp
  then show ?thesis by simp
qed

subsection \<open>Properties of the operations\<close>

lemma find_order_iff:
  "find_order T i d = Some r \<longleftrightarrow> find_by t_id i (orders d) = Some r \<and> row_tenant r = T"
  by (auto simp: find_order_def split: option.splits)

lemma row_fields_cancel [simp]:
  "t_id (cancel_row now c r) = t_id r" "row_tenant (cancel_row now c r) = row_tenant r"
  "t_status (cancel_row now c r) = StatusCancelled" "t_version (cancel_row now c r) = t_version r + 1"
  "t_remaining_quantity (cancel_row now c r) = 0"
  "t_filled_quantity (cancel_row now c r) = t_filled_quantity r"
  by (simp_all add: cancel_row_def row_tenant_def)

lemma row_fields_amend [simp]:
  "t_id (amend_row now req c r) = t_id r" "row_tenant (amend_row now req c r) = row_tenant r"
  "t_status (amend_row now req c r) = t_status r"
  "t_version (amend_row now req c r) = t_version r + 1"
  "t_limit_price (amend_row now req c r) = map_option shortest (ar_LimitPrice req)"
  "t_stop_price (amend_row now req c r) = map_option shortest (ar_StopPrice req)"
  "t_expires_at (amend_row now req c r) = ar_ExpiresAt req"
  "t_filled_quantity (amend_row now req c r) = t_filled_quantity r"
  "t_quantity (amend_row now req c r) = coalesce (map_option shortest (ar_Quantity req)) (t_quantity r)"
  "t_remaining_quantity (amend_row now req c r) =
     coalesce (map_option shortest (ar_Quantity req)) (t_quantity r) - t_filled_quantity r"
  by (simp_all add: amend_row_def row_tenant_def Let_def)

text \<open>cancelling succeeds exactly on a live order of the tenant. It leaves that order cancelled
  with nothing remaining and one version up, every other order as it was, and records one event
  and its outbox row; \<open>ErrNotFound\<close> means that the tenant has no live order of that id.\<close>

theorem cancel_order_outcome:
  "case CancelOrder now T i c ev d of
     Inl e \<Rightarrow> e = ErrNotFound \<longrightarrow> \<not> (\<exists>r. find_order T i d = Some r \<and> is_live (t_status r))
   | Inr (order, d') \<Rightarrow> (\<exists>r r'. find_order T i d = Some r \<and> is_live (t_status r) \<and>
        find_order T i d' = Some r' \<and> order = scan_order r' \<and> t_status r' = StatusCancelled \<and>
        t_remaining_quantity r' = 0 \<and> t_filled_quantity r' = t_filled_quantity r \<and>
        t_version r' = t_version r + 1) \<and>
      (\<forall>j. j \<noteq> i \<longrightarrow> find_by t_id j (orders d') = find_by t_id j (orders d)) \<and>
      records d d' [ev\<lparr>e_OrderID := i, e_UserID := o_UserID order\<rparr>]"
proof (cases "CancelOrder now T i c ev d")
  case (Inl e)
  then show ?thesis
    by (auto simp: CancelOrder_def and_then_Inl update_order_returning_def update_orders_def
        and_then_def record_event_def insertEvent_def insertOutbox_def find_order_def Let_def
        split: option.splits if_splits sum.splits)
next
  case (Inr od)
  obtain order d' where od: "od = (order, d')" by fastforce
  show ?thesis unfolding Inr od sum.case prod.case
  proof (rule CancelOrder_Inr [OF Inr [unfolded od]])
    fix r
    assume r: "find_by t_id i (orders d) = Some r" "row_tenant r = T" "is_live (t_status r)"
      "order = scan_order (cancel_row now c r)"
      "records d d' [ev\<lparr>e_OrderID := o_ID order, e_UserID := o_UserID order\<rparr>]"
      "orders d' = upd_where (\<lambda>r. t_id r = i \<and> is_live (t_status r) \<and> row_tenant r = T)
        (cancel_row now c) (orders d)"
    note f = find_by_updated [where P = "\<lambda>r. is_live (t_status r) \<and> row_tenant r = T",
        OF row_fields_cancel(1) r(1) conjI [OF r(3) r(2)], folded r(6)]
    have "o_ID order = i" using r(4) find_by_Some [OF r(1)] by simp
    then show "(\<exists>r r'. find_order T i d = Some r \<and> is_live (t_status r) \<and>
        find_order T i d' = Some r' \<and> order = scan_order r' \<and> t_status r' = StatusCancelled \<and>
        t_remaining_quantity r' = 0 \<and> t_filled_quantity r' = t_filled_quantity r \<and>
        t_version r' = t_version r + 1) \<and>
      (\<forall>j. j \<noteq> i \<longrightarrow> find_by t_id j (orders d') = find_by t_id j (orders d)) \<and>
      records d d' [ev\<lparr>e_OrderID := i, e_UserID := o_UserID order\<rparr>]"
      using r f by (auto simp: find_order_iff)
  qed
qed

lemma amend_order_row:
  assumes "AmendOrder now T i req c d = Inr (order, d')"
  shows "\<exists>r. find_order T i d = Some r \<and> amendable T req r \<and>
    find_order T i d' = Some (amend_row now req c r) \<and>
    (\<forall>j. j \<noteq> i \<longrightarrow> find_by t_id j (orders d') = find_by t_id j (orders d))"
proof (rule AmendOrder_Inr [OF assms])
  fix r
  assume r: "find_by t_id i (orders d) = Some r" "amendable T req r"
    "orders d' = upd_where (\<lambda>r. t_id r = i \<and> amendable T req r) (amend_row now req c) (orders d)"
  note f = find_by_updated [where P = "amendable T req", OF row_fields_amend(1) r(1,2), folded r(3)]
  show ?thesis using r f by (auto simp: find_order_iff amendable_def)
qed

text \<open>C37: the version check of an amendment. A successful amendment found the order at the expected
  version and moves it one up, so of two amendments that name the same expected version, run one
  after the other, the second is refused and changes nothing.\<close>

theorem amend_optimistic_lock:
  assumes "AmendOrder now1 T i req1 c1 d = Inr (order1, d1)"
    "ar_ExpectedVersion req2 = ar_ExpectedVersion req1"
  shows "(\<exists>r r'. find_order T i d = Some r \<and> t_version r = ar_ExpectedVersion req1 \<and>
      find_order T i d1 = Some r' \<and> t_version r' = t_version r + 1) \<and>
    (\<exists>e. AmendOrder now2 T i req2 c2 d1 = Inl e)"
proof -
  obtain r where r: "find_order T i d = Some r" "amendable T req1 r"
    "find_order T i d1 = Some (amend_row now1 req1 c1 r)"
    using amend_order_row [OF assms(1)] by blast
  have "AmendOrder now2 T i req2 c2 d1 \<noteq> Inr od" for od
  proof
    assume a: "AmendOrder now2 T i req2 c2 d1 = Inr od"
    obtain o2 d2 where "od = (o2, d2)" by fastforce
    from amend_order_row [OF a [unfolded this]] r(3)
    have "amendable T req2 (amend_row now1 req1 c1 r)" by auto
    then show False using r(2) assms(2) by (simp add: amendable_def)
  qed
  then have "\<exists>e. AmendOrder now2 T i req2 c2 d1 = Inl e"
    by (cases "AmendOrder now2 T i req2 c2 d1") auto
  then show ?thesis using r by (auto simp: amendable_def)
qed

text \<open>what an amendment leaves in the row. The quantity is the requested one and never below
  what is filled, the remaining quantity is their difference; but a limit price, stop price or
  expiry the request leaves out is erased, where the domain's \<open>Amend\<close> keeps the prices.\<close>

theorem amend_order_row_values:
  assumes "AmendOrder now T i req c d = Inr (order, d')"
  shows "\<exists>r r'. find_order T i d = Some r \<and> is_live (t_status r) \<and> find_order T i d' = Some r' \<and>
    t_status r' = t_status r \<and> t_filled_quantity r' = t_filled_quantity r \<and>
    t_remaining_quantity r' = t_quantity r' - t_filled_quantity r' \<and>
    t_filled_quantity r' \<le> t_quantity r' \<and> 0 < t_quantity r' \<and>
    (case ar_Quantity req of None \<Rightarrow> t_quantity r' = t_quantity r
     | Some q \<Rightarrow> t_quantity r' = shortest q) \<and>
    (ar_LimitPrice req = None \<longrightarrow> t_limit_price r' = None) \<and>
    (ar_StopPrice req = None \<longrightarrow> t_stop_price r' = None) \<and>
    (ar_ExpiresAt req = None \<longrightarrow> t_expires_at r' = None) \<and>
    (\<forall>o'. Amend (ar_Quantity req) None None None now (scan_order r) = Inr o' \<longrightarrow>
       o_LimitPrice o' = o_LimitPrice (scan_order r) \<and> o_StopPrice o' = o_StopPrice (scan_order r))"
proof -
  obtain r where r: "find_order T i d = Some r" "amendable T req r"
    "find_order T i d' = Some (amend_row now req c r)"
    using amend_order_row [OF assms] by blast
  obtain r0 where "find_by t_id i (orders d) = Some r0" "order_checks (amend_row now req c r0)"
    by (rule AmendOrder_Inr [OF assms])
  then have ck: "order_checks (amend_row now req c r)" using r(1) by (simp add: find_order_iff)
  have kept: "o_LimitPrice o' = o_LimitPrice o1 \<and> o_StopPrice o' = o_StopPrice o1"
    if "Amend q None None None now o1 = Inr o'" for q o1 o'
    using that by (auto simp: Amend_def and_then_Inr Let_def split: option.splits if_splits)
  have q: "0 < t_quantity (amend_row now req c r)"
    "t_filled_quantity (amend_row now req c r) \<le> t_quantity (amend_row now req c r)"
    using ck unfolding order_checks_def by blast+
  have live: "is_live (t_status r)" using r(2) by (simp add: amendable_def)
  show ?thesis
  proof (intro exI conjI)
    show "find_order T i d = Some r" "find_order T i d' = Some (amend_row now req c r)" by fact+
    show "case ar_Quantity req of None \<Rightarrow> t_quantity (amend_row now req c r) = t_quantity r
       | Some q \<Rightarrow> t_quantity (amend_row now req c r) = shortest q"
      by (cases "ar_Quantity req") simp_all
  qed (use q live kept in \<open>simp_all\<close>)
qed

lemma CreateOrder_key_fresh:
  assumes "CreateOrder now order0 evs0 key hash d = Inr (order, evs, d')"
  shows "(o_TenantID order0, o_UserID order0, key) \<notin>
    (\<lambda>k. (ir_TenantID k, ir_UserID k, ir_Key k)) ` set (idempotency_keys d)"
proof -
  note ce = CreateOrder_effect [OF assms]
  obtain order1 d1 d2 d3 mevs where
    i: "insert_order now order0 d = Inr (order1, d1)" and
    m: "if o_Status order0 = StatusAccepted then matchAcceptedOrder now order1 d1 = Inr (order, mevs, d2)
     else order = order1 \<and> d2 = d1 \<and> mevs = []" and
    e: "record_events now evs d2 = Inr d3" and
    k: "insert_idempotency \<lparr>ir_TenantID = o_TenantID order, ir_UserID = o_UserID order, ir_Key = key,
       ir_RequestHash = hash, ir_OrderID = o_ID order, ir_CreatedAt = now\<rparr> d3 = Inr d'"
    by (rule CreateOrder_Inr [OF assms])
  have "idempotency_keys d2 = idempotency_keys d"
    using m matchAcceptedOrder_frame [of now order1 d1 order mevs d2] insert_order_Inr(2) [OF i]
    by (auto simp: same_logs_def split: if_splits)
  then have "idempotency_keys d3 = idempotency_keys d"
    using record_events_Inr [OF e] by (simp add: tables_but_logs_def)
  then show ?thesis using insert_idempotency_Inr [OF k] ce(3,4) by simp
qed

lemma find_by_same_identity:
  "list_all2 same_identity rs rs' \<Longrightarrow> find_by t_id i rs = Some r \<Longrightarrow>
   \<exists>r'. find_by t_id i rs' = Some r' \<and> same_identity r r'"
  by (induction rule: list_all2_induct) (auto simp: sql_simps same_identity_def split: if_splits)

lemma find_by_same_identity_None:
  "list_all2 same_identity rs rs' \<Longrightarrow> find_by t_id i rs = None \<Longrightarrow> find_by t_id i rs' = None"
  by (induction rule: list_all2_induct) (auto simp: sql_simps same_identity_def split: if_splits)

lemma order_row_of_simps [simp]:
  "t_id (order_row_of i now o') = i" "row_tenant (order_row_of i now o') = o_TenantID o'"
  "t_user_id (order_row_of i now o') = o_UserID o'"
  by (simp_all add: order_row_of_def row_tenant_def)

text \<open>C36: creating an order under an idempotency key. A creation that commits used a key the user
  had not used, leaves the key bound to the new order and the request hash, and appends exactly the
  events it returns, each with its outbox row; from then on no creation under the same tenant, user
  and key commits, whatever the request.\<close>

theorem create_order_once_per_key:
  assumes "CreateOrder now order0 evs0 key hash d = Inr (order, evs, d')"
  shows "FindIdempotency (o_TenantID order0) (o_UserID order0) key d = Inl ErrNotFound \<and>
    (\<exists>k. FindIdempotency (o_TenantID order0) (o_UserID order0) key d' = Inr k \<and>
       ir_OrderID k = o_ID order \<and> ir_RequestHash k = hash) \<and>
    (\<exists>r. find_order (o_TenantID order0) (o_ID order) d' = Some r \<and> t_user_id r = o_UserID order0) \<and>
    records d d' evs \<and>
    (\<forall>now2 order2 evs2 hash2. o_TenantID order2 = o_TenantID order0 \<and>
       o_UserID order2 = o_UserID order0 \<longrightarrow>
       (\<exists>e. CreateOrder now2 order2 evs2 key hash2 d' = Inl e))"
proof -
  note ce = CreateOrder_effect [OF assms]
  let ?key = "\<lambda>k. (ir_TenantID k, ir_UserID k, ir_Key k)"
  let ?k = "(o_TenantID order0, o_UserID order0, key)"
  have fresh: "find_by ?key ?k (idempotency_keys d) = None"
    using CreateOrder_key_fresh [OF assms] by (simp add: find_by_None_iff)
  have "\<exists>r. find_order (o_TenantID order0) (o_ID order) d' = Some r \<and> t_user_id r = o_UserID order0"
  proof -
    let ?r = "order_row_of (new_id d) now order0"
    obtain order1 d1 where "insert_order now order0 d = Inr (order1, d1)" by (rule CreateOrder_Inr [OF assms])
    then have "find_by t_id (new_id d) (orders d) = None"
      using insert_order_Inr(4) by (simp add: find_by_None_iff)
    then have "find_by t_id (new_id d) (orders d @ [?r]) = Some ?r"
      by (simp add: find_by_append sql_simps)
    moreover have "list_all2 same_identity (orders d @ [?r]) (orders d')"
      using ce(6) unfolding rows_only_def by (auto elim: list_all2_mono)
    ultimately obtain r' where "find_by t_id (new_id d) (orders d') = Some r'" "same_identity ?r r'"
      using find_by_same_identity by blast
    moreover from this(2) have "row_tenant r' = o_TenantID order0" "t_user_id r' = o_UserID order0"
      using same_identity_tenant [of ?r r'] by (simp_all add: same_identity_def)
    ultimately show ?thesis using ce(2) by (auto simp: find_order_iff)
  qed
  moreover have "\<exists>e. CreateOrder now2 order2 evs2 key hash2 d' = Inl e"
    if "o_TenantID order2 = o_TenantID order0" "o_UserID order2 = o_UserID order0"
    for now2 order2 evs2 hash2
  proof (cases "CreateOrder now2 order2 evs2 key hash2 d'")
    case (Inr x)
    obtain a b c where "x = (a, b, c)" by (cases x) auto
    from CreateOrder_key_fresh [OF Inr [unfolded this]] show ?thesis using that ce(5) by simp
  qed simp
  ultimately show ?thesis using fresh ce(1,2,5)
    by (auto simp: FindIdempotency_def find_by_append sql_simps)
qed

subsection \<open>A concrete database\<close>

definition ex_db :: db where
  "ex_db = \<lparr>orders = [order_row_of ''o-1'' 0 (ex_order\<lparr>o_RiskStatus := ''NOT_EVALUATED''\<rparr>)], order_events = [], order_outbox = [],
     idempotency_keys = [], order_executions = [], order_risk_decisions = [],
     reference_prices = [], db_ids = (\<lambda>n. replicate (Suc n) (CHR ''x'')), db_next = 0\<rparr>"

definition ex_amend :: AmendOrderRequest where
  "ex_amend = \<lparr>ar_Quantity = Some 8, ar_LimitPrice = None, ar_StopPrice = None, ar_ExpiresAt = None,
     ar_ExpectedVersion = 1\<rparr>"

text \<open>An order of the other side at the same price, so that it trades with \<open>ex_order\<close>.\<close>

definition ex_sell :: Order where
  "ex_sell = ex_order\<lparr>o_RiskStatus := ''NOT_EVALUATED'', o_Side := SideSell, o_Quantity := 4, o_RemainingQuantity := 4\<rparr>"

definition is_Inr :: "'e + 'a \<Rightarrow> bool" where
  "is_Inr r = (case r of Inl e \<Rightarrow> False | Inr x \<Rightarrow> True)"

lemma is_InrE: "is_Inr r \<Longrightarrow> (\<And>x. r = Inr x \<Longrightarrow> P) \<Longrightarrow> P"
  by (cases r) (auto simp: is_Inr_def)

lemma ex_amend_Inr: "is_Inr (AmendOrder 5 ''t'' ''o-1'' ex_amend ''c'' ex_db)"
  by code_simp

lemma ex_create_Inr: "is_Inr (CreateOrder 7 ex_sell [] ''key'' ''hash'' ex_db)"
  by code_simp

lemma amend_optimistic_lock_witness:
  "\<exists>d1. AmendOrder 5 ''t'' ''o-1'' ex_amend ''c'' ex_db = Inr d1 \<and>
     (\<exists>e. AmendOrder 6 ''t'' ''o-1'' (ex_amend\<lparr>ar_Quantity := Some 9\<rparr>) ''c'' (snd d1) = Inl e)"
proof -
  obtain od where od: "AmendOrder 5 ''t'' ''o-1'' ex_amend ''c'' ex_db = Inr od"
    using ex_amend_Inr by (rule is_InrE)
  obtain o1 d1 where p: "od = (o1, d1)" by fastforce
  have "ar_ExpectedVersion (ex_amend\<lparr>ar_Quantity := Some 9\<rparr>) = ar_ExpectedVersion ex_amend" by simp
  from amend_optimistic_lock [OF od [unfolded p] this] od p show ?thesis by auto
qed

lemma amend_order_row_values_witness:
  "\<exists>d' r r'. AmendOrder 5 ''t'' ''o-1'' ex_amend ''c'' ex_db = Inr d' \<and>
     find_order ''t'' ''o-1'' ex_db = Some r \<and> find_order ''t'' ''o-1'' (snd d') = Some r' \<and>
     t_limit_price r = Some 5 \<and> t_limit_price r' = None"
proof -
  obtain od where od: "AmendOrder 5 ''t'' ''o-1'' ex_amend ''c'' ex_db = Inr od"
    using ex_amend_Inr by (rule is_InrE)
  obtain o1 d1 where p: "od = (o1, d1)" by fastforce
  have "map_option t_limit_price (find_order ''t'' ''o-1'' ex_db) = Some (Some 5)" by code_simp
  then show ?thesis
    using amend_order_row_values [OF od [unfolded p]] od p by (auto simp: ex_amend_def)
qed

lemma create_order_once_per_key_witness:
  "\<exists>x. CreateOrder 7 ex_sell [] ''key'' ''hash'' ex_db = Inr x \<and>
     (\<exists>e. CreateOrder 8 ex_sell [] ''key'' ''hash'' (snd (snd x)) = Inl e)"
proof -
  obtain x where x: "CreateOrder 7 ex_sell [] ''key'' ''hash'' ex_db = Inr x"
    using ex_create_Inr by (rule is_InrE)
  obtain a b c where abc: "x = (a, b, c)" by (cases x) auto
  show ?thesis using create_order_once_per_key [OF x [unfolded abc]] x abc by auto
qed

lemma cancel_order_outcome_witness:
  "\<exists>order d'. CancelOrder 5 ''t'' ''o-1'' ''c'' (empty_event\<lparr>e_EventID := ''e''\<rparr>) ex_db = Inr (order, d') \<and>
     (\<exists>r'. find_order ''t'' ''o-1'' d' = Some r' \<and> t_status r' = StatusCancelled)"
proof -
  have "is_Inr (CancelOrder 5 ''t'' ''o-1'' ''c'' (empty_event\<lparr>e_EventID := ''e''\<rparr>) ex_db)" by code_simp
  then obtain od where od: "CancelOrder 5 ''t'' ''o-1'' ''c'' (empty_event\<lparr>e_EventID := ''e''\<rparr>) ex_db = Inr od"
    by (rule is_InrE)
  then show ?thesis
    using cancel_order_outcome [where now = 5 and T = "''t''" and i = "''o-1''" and c = "''c''"
        and ev = "empty_event\<lparr>e_EventID := ''e''\<rparr>" and d = ex_db]
    by (cases od) auto
qed

end
