(* ===== verification/RiskClient.thy ===== *)
theory RiskClient
  imports OrderDomain
begin

text \<open>
  The pre-trade risk client of the order service: \<open>internal/risk/types.go\<close>, \<open>errors.go\<close> and
  \<open>client.go\<close>. The Risk Engine is another process: what each HTTP attempt brings back
  (\<open>http_outcome\<close>, with the body as JSON decoding leaves it) and whether the caller's context is
  cancelled while the client waits to retry are inputs. A decimal string is the number it denotes.
  The contract the order service relies on is the locale \<open>pre_trade_risk_checker\<close>, discharged for
  \<open>Evaluate\<close>: no error only with an approval, so the client fails closed.
\<close>

subsection \<open>Types\<close>

abbreviation "DecisionApproved \<equiv> ''APPROVED''"
abbreviation "DecisionRejected \<equiv> ''REJECTED''"
abbreviation "DecisionUnavailable \<equiv> ''UNAVAILABLE''"
abbreviation "DecisionInvalidResponse \<equiv> ''INVALID_RESPONSE''"

abbreviation "ReasonServiceUnavailable \<equiv> ''RISK_SERVICE_UNAVAILABLE''"
abbreviation "ReasonServiceTimeout \<equiv> ''RISK_SERVICE_TIMEOUT''"
abbreviation "ReasonResponseInvalid \<equiv> ''RISK_RESPONSE_INVALID''"
abbreviation "ReasonServiceBypassed \<equiv> ''RISK_SERVICE_BYPASSED''"
abbreviation "ReasonReferenceUnavailable \<equiv> ''REFERENCE_PRICE_UNAVAILABLE''"

text \<open>An empty decimal string is \<open>None\<close>, as is a nil pointer.\<close>

record PreTradeRiskRequest =
  pq_TenantID :: string
  pq_UserID :: string
  pq_OrderID :: string
  pq_Symbol :: string
  pq_Side :: string
  pq_OrderType :: string
  pq_Quantity :: "rat option"
  pq_LimitPrice :: "rat option"
  pq_StopPrice :: "rat option"
  pq_EstimatedPrice :: "rat option"
  pq_EstimatedNotional :: "rat option"
  pq_TimeInForce :: string
  pq_Currency :: string
  pq_SubmittedAt :: time
  pq_CorrelationID :: string

record PreTradeRiskDecision =
  pd_DecisionID :: string
  pd_Approved :: bool
  pd_Decision :: string
  pd_ReasonCode :: string
  pd_ReasonMessage :: string
  pd_EvaluatedLimits :: "(string \<times> string) list option"
  pd_EvaluatedAt :: time
  pd_PolicyID :: string
  pd_PolicyVersion :: string
  pd_RequestSnapshot :: "(string \<times> json) list option"
  pd_ResponseSnapshot :: "(string \<times> json) list option"

datatype risk_error_kind = ErrRejected | ErrUnavailable | ErrTimeout | ErrInvalidResponse

text \<open>\<open>DecisionError\<close> wraps one of the four errors; \<open>PlainError\<close> is any other error.\<close>

datatype risk_error = DecisionError risk_error_kind PreTradeRiskDecision | PlainError

fun error_is :: "risk_error \<Rightarrow> risk_error_kind \<Rightarrow> bool" where
  "error_is (DecisionError k _) kind = (k = kind)"
| "error_is PlainError kind = False"

text \<open>One HTTP attempt: the request could not be built, the transport failed (with or without the
  deadline exceeded), the body could not be read, or a status with the decoded body (\<open>None\<close> when
  malformed) and its decoding as a map.\<close>

datatype http_outcome =
    RequestError
  | TransportError bool
  | ReadError
  | Response int "PreTradeRiskDecision option" "(string \<times> json) list option"

record Client =
  cl_baseURL :: string
  cl_timeout :: duration
  cl_maxRetries :: int
  cl_baseDelay :: duration

record ClientConfig =
  cc_BaseURL :: string
  cc_Timeout :: duration
  cc_MaxRetries :: int
  cc_BaseDelay :: duration

definition is_slash :: "char \<Rightarrow> bool" where
  "is_slash c = (c = CHR ''/'')"

definition trim_right_slash :: "string \<Rightarrow> string" where
  "trim_right_slash s = rev (dropWhile is_slash (rev s))"

text \<open>\<open>valid_uri\<close> is \<open>url.ParseRequestURI\<close> succeeding.\<close>

definition NewClient :: "(string \<Rightarrow> bool) \<Rightarrow> ClientConfig \<Rightarrow> string + Client" where
  "NewClient valid_uri cfg =
     (let baseURL = trim_right_slash (trim_space (cc_BaseURL cfg))
      in if baseURL = '''' then Inl ''risk base URL is required''
         else if \<not> valid_uri baseURL then Inl ''invalid risk base URL''
         else Inr \<lparr>cl_baseURL = baseURL,
                cl_timeout = (if cc_Timeout cfg \<le> 0 then 1500 * Millisecond else cc_Timeout cfg),
                cl_maxRetries = (if cc_MaxRetries cfg < 0 then 0 else cc_MaxRetries cfg),
                cl_baseDelay =
                  (if cc_BaseDelay cfg \<le> 0 then 100 * Millisecond else cc_BaseDelay cfg)\<rparr>)"

subsection \<open>One attempt\<close>

definition local_decision :: "time \<Rightarrow> string \<Rightarrow> string \<Rightarrow> string \<Rightarrow> string \<Rightarrow> PreTradeRiskDecision" where
  "local_decision now decision reasonCode message policyVersion =
     \<lparr>pd_DecisionID = '''', pd_Approved = False, pd_Decision = decision,
      pd_ReasonCode = reasonCode, pd_ReasonMessage = message, pd_EvaluatedLimits = None,
      pd_EvaluatedAt = now, pd_PolicyID = '''', pd_PolicyVersion = policyVersion,
      pd_RequestSnapshot = None, pd_ResponseSnapshot = None\<rparr>"

definition unavailableDecision :: "time \<Rightarrow> string \<Rightarrow> string \<Rightarrow> PreTradeRiskDecision" where
  "unavailableDecision now reasonCode message =
     local_decision now DecisionUnavailable reasonCode message ''unavailable''"

definition invalidDecision :: "time \<Rightarrow> string \<Rightarrow> PreTradeRiskDecision" where
  "invalidDecision now message =
     local_decision now DecisionInvalidResponse ReasonResponseInvalid message ''invalid-response''"

definition validateDecision :: "PreTradeRiskDecision \<Rightarrow> bool" where
  "validateDecision decision =
     (if pd_DecisionID decision = '''' \<or> pd_Decision decision = '''' \<or>
         pd_ReasonCode decision = '''' \<or> pd_ReasonMessage decision = '''' \<or>
         pd_EvaluatedAt decision = zero_time \<or> pd_PolicyVersion decision = ''''
      then False
      else pd_Decision decision = DecisionApproved \<or> pd_Decision decision = DecisionRejected)"

definition retryable :: "risk_error \<Rightarrow> bool" where
  "retryable err = (error_is err ErrUnavailable \<or> error_is err ErrTimeout)"

definition fail_with :: "risk_error_kind \<Rightarrow> PreTradeRiskDecision
    \<Rightarrow> PreTradeRiskDecision \<times> risk_error option" where
  "fail_with kind decision = (decision, Some (DecisionError kind decision))"

fun evaluateOnce :: "time \<Rightarrow> http_outcome \<Rightarrow> PreTradeRiskDecision \<times> risk_error option" where
  "evaluateOnce now RequestError = (local_decision zero_time '''' '''' '''' '''', Some PlainError)"
| "evaluateOnce now (TransportError deadline) =
     (if deadline
      then fail_with ErrTimeout
             (unavailableDecision now ReasonServiceTimeout ''Risk evaluation timed out'')
      else fail_with ErrUnavailable
             (unavailableDecision now ReasonServiceUnavailable ''Risk Engine is unavailable''))"
| "evaluateOnce now ReadError =
     fail_with ErrInvalidResponse (invalidDecision now ''Risk Engine response could not be read'')"
| "evaluateOnce now (Response status body snapshot) =
     (if status = 429 \<or> status \<ge> 500
        then fail_with ErrUnavailable
               (unavailableDecision now ReasonServiceUnavailable ''Risk Engine is unavailable'')
      else if status < 200 \<or> status > 299
        then fail_with ErrUnavailable
               (unavailableDecision now ReasonServiceUnavailable ''Risk Engine returned an error'')
      else (case body of
              None \<Rightarrow> fail_with ErrInvalidResponse
                        (invalidDecision now ''Risk Engine response was malformed'')
            | Some decision0 \<Rightarrow>
                let decision = decision0\<lparr>pd_ResponseSnapshot := snapshot\<rparr>
                in if \<not> validateDecision decision
                   then fail_with ErrInvalidResponse
                          ((invalidDecision now ''Risk Engine response was incomplete'')
                             \<lparr>pd_ResponseSnapshot := snapshot\<rparr>)
                   else (decision, None)))"

subsection \<open>Retries\<close>

text \<open>The loop of \<open>Evaluate\<close>: \<open>remaining\<close> attempts are left, \<open>attempt\<close> is the index of the next
  one, and the third component counts the requests sent.\<close>

fun evaluate_from :: "time \<Rightarrow> (nat \<Rightarrow> http_outcome) \<Rightarrow> (nat \<Rightarrow> bool) \<Rightarrow> nat \<Rightarrow> nat
    \<Rightarrow> PreTradeRiskDecision \<times> risk_error option \<times> nat" where
  "evaluate_from now outcome cancelled 0 attempt =
     (let decision = unavailableDecision now ReasonServiceUnavailable ''Risk Engine is unavailable''
      in (decision, Some (DecisionError ErrUnavailable decision), attempt))"
| "evaluate_from now outcome cancelled (Suc remaining) attempt =
     (case evaluateOnce now (outcome attempt) of
        (decision, None) \<Rightarrow>
          if \<not> pd_Approved decision \<or> pd_Decision decision \<noteq> DecisionApproved
          then (decision, Some (DecisionError ErrRejected decision), Suc attempt)
          else (decision, None, Suc attempt)
      | (_, Some err) \<Rightarrow>
          if \<not> retryable err \<or> remaining = 0
          then (case err of
                  DecisionError k d \<Rightarrow> (d, Some (DecisionError k d), Suc attempt)
                | PlainError \<Rightarrow>
                    let decision = unavailableDecision now ReasonServiceUnavailable
                                     ''Risk Engine is unavailable''
                    in (decision, Some (DecisionError ErrUnavailable decision), Suc attempt))
          else if cancelled attempt
          then (let decision = unavailableDecision now ReasonServiceTimeout
                                 ''Risk evaluation timed out''
                in (decision, Some (DecisionError ErrTimeout decision), Suc attempt))
          else evaluate_from now outcome cancelled remaining (Suc attempt))"

definition Evaluate :: "Client \<Rightarrow> time \<Rightarrow> (nat \<Rightarrow> http_outcome) \<Rightarrow> (nat \<Rightarrow> bool)
    \<Rightarrow> PreTradeRiskDecision \<times> risk_error option \<times> nat" where
  "Evaluate c now outcome cancelled =
     evaluate_from now outcome cancelled (nat (cl_maxRetries c + 1)) 0"

text \<open>What the service sees of a checker: the decision and the error.\<close>

definition verdict :: "PreTradeRiskDecision \<times> risk_error option \<times> nat
    \<Rightarrow> PreTradeRiskDecision \<times> risk_error option" where
  "verdict r = (fst r, fst (snd r))"

subsection \<open>The contract\<close>

text \<open>The interface \<open>risk.PreTradeRiskChecker\<close>, and what \<open>OrderService\<close> relies on: no error means
  an approved decision; a rejection is a complete decision that is not an approval; any other error
  carries a locally made decision that is neither approved nor one of the engine's two verdicts.\<close>

definition is_approval :: "PreTradeRiskDecision \<Rightarrow> bool" where
  "is_approval d = (pd_Approved d \<and> pd_Decision d = DecisionApproved)"

definition is_failure :: "risk_error_kind \<Rightarrow> PreTradeRiskDecision \<Rightarrow> bool" where
  "is_failure k d = (k \<noteq> ErrRejected \<and> \<not> pd_Approved d \<and>
     pd_Decision d = (if k = ErrInvalidResponse then DecisionInvalidResponse else DecisionUnavailable))"

fun good_verdict :: "PreTradeRiskDecision \<times> risk_error option \<Rightarrow> bool" where
  "good_verdict (d, None) = (is_approval d \<and> validateDecision d)"
| "good_verdict (d, Some PlainError) = False"
| "good_verdict (d, Some (DecisionError k d')) =
     (d' = d \<and> (if k = ErrRejected then \<not> is_approval d \<and> validateDecision d else is_failure k d))"

locale pre_trade_risk_checker =
  fixes check :: "'env \<Rightarrow> PreTradeRiskDecision \<times> risk_error option"
  assumes good: "good_verdict (check env)"
begin

lemma approved_iff_no_error:
  assumes "check env = (decision, err)"
  shows "err = None \<longleftrightarrow> is_approval decision"
proof (cases err)
  case None
  then show ?thesis using good [of env] assms by simp
next
  case (Some e)
  then show ?thesis using good [of env] assms
    by (cases e) (auto simp: is_failure_def is_approval_def split: if_splits)
qed

lemma no_error_valid: "check env = (decision, None) \<Longrightarrow> validateDecision decision"
  using good [of env] by simp

lemma error_decision: "check env = (decision, Some err) \<Longrightarrow> \<exists>k. err = DecisionError k decision"
  using good [of env] by (cases err) auto

lemma error_kind:
  "check env = (decision, Some (DecisionError k d)) \<Longrightarrow> k \<noteq> ErrRejected \<Longrightarrow> is_failure k decision"
  using good [of env] by simp

end

lemma local_decision_failures [simp]:
  "is_failure ErrTimeout (unavailableDecision n c m)"
  "is_failure ErrUnavailable (unavailableDecision n c m)"
  "is_failure ErrInvalidResponse (invalidDecision n m)"
  "is_failure k (d\<lparr>pd_ResponseSnapshot := x\<rparr>) = is_failure k d"
  by (simp_all add: is_failure_def unavailableDecision_def invalidDecision_def local_decision_def)

lemma evaluateOnce_Some:
  assumes "evaluateOnce now out = (d, Some err)" "err \<noteq> PlainError"
  shows "\<exists>k. err = DecisionError k d \<and> k \<noteq> ErrRejected \<and> is_failure k d"
proof -
  have f: ?thesis if "(d, Some err) = fail_with k dd" "k \<noteq> ErrRejected" "is_failure k dd" for k dd
    using that by (simp add: fail_with_def)
  show ?thesis
  proof (cases out)
    case (Response status body snapshot)
    then show ?thesis using assms
      by (cases body) (auto simp: Let_def fail_with_def split: if_splits)
  qed (use assms in \<open>auto simp: fail_with_def split: if_splits\<close>)
qed

lemma evaluateOnce_None: "evaluateOnce now out = (d, None) \<Longrightarrow> validateDecision d"
  by (cases out) (auto simp: Let_def fail_with_def split: if_splits option.splits)

lemma evaluate_from_good: "good_verdict (verdict (evaluate_from now outcome cancelled n a))"
proof (induction n arbitrary: a)
  case 0
  then show ?case by (simp add: Let_def verdict_def)
next
  case (Suc n)
  obtain d1 e1 where o: "evaluateOnce now (outcome a) = (d1, e1)" by fastforce
  show ?case
  proof (cases e1)
    case None
    then show ?thesis using o evaluateOnce_None [of now "outcome a" d1]
      by (simp add: verdict_def is_approval_def)
  next
    case (Some err)
    show ?thesis
    proof (cases "\<not> retryable err \<or> n = 0 \<or> cancelled a")
      case True
      then show ?thesis using o Some evaluateOnce_Some [of now "outcome a" d1 err]
        by (cases err) (auto simp: Let_def verdict_def)
    next
      case False
      then show ?thesis using Suc.IH o Some by simp
    qed
  qed
qed

lemma evaluate_from_sent:
  "evaluate_from now outcome cancelled (Suc n) a = (d', e', sent') \<Longrightarrow> a < sent' \<and> sent' \<le> a + Suc n"
proof (induction n arbitrary: a)
  case 0
  then show ?case
    by (auto simp: Let_def split: prod.splits option.splits if_splits risk_error.splits)
next
  case (Suc n)
  show ?case using Suc.prems Suc.IH [of "Suc a"] by (subst (asm) evaluate_from.simps(2))
    (auto simp: Let_def simp del: evaluate_from.simps split: prod.splits option.splits if_splits risk_error.splits)
qed

interpretation client: pre_trade_risk_checker
    "\<lambda>(c, now, outcome, cancelled). verdict (Evaluate c now outcome cancelled)"
  by unfold_locales (auto simp: Evaluate_def intro: evaluate_from_good)



end
