(* ===== verification/OrderService.thy ===== *)
theory OrderService
  imports OrderFacts RiskClient
begin

text \<open>
  \<open>internal/service/order_service.go\<close>: the order service, every method. The service record holds
  what the Go struct is wired with: the trading calendar, the risk checker, the risk options, and,
  as parameters, the library functions it calls (JSON decoding of the request body, SHA-256 and the
  JSON snapshot of a risk request). Metrics are not modelled. Each method returns its result with
  the database it leaves: a creation commits before the risk evaluation starts.
\<close>

record UserContext =
  u_UserID :: string
  u_TenantID :: string
  u_Roles :: "string list"

datatype service_error =
    SErrForbidden | SErrIdempotencyConflict | SErrOrderNotCancellable | SErrInvalidOrder string
  | SErrVersionConflict | SErrNotFound
  | SErrPreTradeRiskRejected string | SErrPreTradeRiskUnavailable string
  | SErrPreTradeRiskInvalidResponse string
  | SErrDecode | SErrCalendar | SErrRepository repo_error

text \<open>\<open>sv_calendar\<close> is \<open>TradingCalendar.ExpiryForDayOrder\<close>, \<open>sv_risk\<close> is
  \<open>PreTradeRiskChecker.Evaluate\<close>; nil interfaces are \<open>None\<close>.\<close>

record OrderService =
  sv_calendar :: "(time \<Rightarrow> time option) option"
  sv_risk :: "(PreTradeRiskRequest \<Rightarrow> PreTradeRiskDecision \<times> risk_error option) option"
  sv_riskEnabled :: bool
  sv_riskFailOpen :: bool
  sv_decode :: "string \<Rightarrow> CreateOrderRequest option"
  sv_sha256 :: "string \<Rightarrow> string"
  sv_snapshot :: "PreTradeRiskRequest \<Rightarrow> (string \<times> json) list"

definition hasAnyRole :: "string list \<Rightarrow> string list \<Rightarrow> bool" where
  "hasAnyRole roles allowed_roles = list_ex (\<lambda>role. list_ex (\<lambda>a. role = a) allowed_roles) roles"

definition stringValue :: "string option \<Rightarrow> string \<Rightarrow> string" where
  "stringValue value fallback =
     (case value of None \<Rightarrow> fallback | Some v \<Rightarrow> if v = '''' then fallback else v)"

definition normalizeTimeInForce :: "string \<Rightarrow> string" where
  "normalizeTimeInForce value0 =
     (let value = to_upper (trim_space value0) in if value = '''' then TimeInForceDay else value)"

definition normalizeOrderType :: "string \<Rightarrow> string" where
  "normalizeOrderType value0 =
     (let value = to_upper (trim_space value0)
      in if value = OrderTypeStopLoss then OrderTypeStop else value)"

definition formatDecimal :: "float64 \<Rightarrow> rat" where
  "formatDecimal value = shortest value"

definition not_positive :: "float64 option \<Rightarrow> bool" where
  "not_positive p = (case p of None \<Rightarrow> True | Some x \<Rightarrow> x \<le> 0)"

definition validateOrder :: "time \<Rightarrow> Order \<Rightarrow> string" where
  "validateOrder now order =
     (if o_Symbol order = '''' then ''symbol is required''
      else if o_Side order \<noteq> SideBuy \<and> o_Side order \<noteq> SideSell
        then ''side must be BUY or SELL''
      else if o_OrderType order \<noteq> OrderTypeMarket \<and> o_OrderType order \<noteq> OrderTypeLimit \<and>
              o_OrderType order \<noteq> OrderTypeStop \<and> o_OrderType order \<noteq> OrderTypeStopLimit \<and>
              o_OrderType order \<noteq> OrderTypeStopLoss
        then ''orderType must be MARKET, LIMIT, STOP, STOP_LIMIT, or STOP_LOSS''
      else if o_Quantity order \<le> 0 then ''quantity must be greater than zero''
      else if o_FilledQuantity order < 0 \<or> o_FilledQuantity order > o_Quantity order
        then ''filledQuantity must be between zero and quantity''
      else if (o_RemainingQuantity order \<noteq> 0 \<or> o_FilledQuantity order \<noteq> 0) \<and>
              o_RemainingQuantity order \<noteq> fl64 (o_Quantity order - o_FilledQuantity order)
        then ''remainingQuantity must equal quantity minus filledQuantity''
      else if o_OrderType order = OrderTypeLimit \<and> not_positive (o_LimitPrice order)
        then ''LIMIT order requires limitPrice greater than zero''
      else if (o_OrderType order = OrderTypeStop \<or> o_OrderType order = OrderTypeStopLoss) \<and>
              not_positive (o_StopPrice order)
        then ''STOP order requires stopPrice greater than zero''
      else if o_OrderType order = OrderTypeStopLimit \<and> not_positive (o_StopPrice order)
        then ''STOP_LIMIT order requires stopPrice greater than zero''
      else if o_OrderType order = OrderTypeStopLimit \<and> not_positive (o_LimitPrice order)
        then ''STOP_LIMIT order requires limitPrice greater than zero''
      else if o_TimeInForce order \<noteq> '''' \<and> o_TimeInForce order \<noteq> TimeInForceDay \<and>
              o_TimeInForce order \<noteq> TimeInForceGTC \<and> o_TimeInForce order \<noteq> TimeInForceGTD \<and>
              o_TimeInForce order \<noteq> TimeInForceIOC \<and> o_TimeInForce order \<noteq> TimeInForceFOK
        then ''timeInForce must be DAY, GTC, GTD, IOC, or FOK''
      else if o_TimeInForce order = TimeInForceGTD \<and>
              (case o_ExpiresAt order of None \<Rightarrow> True | Some t \<Rightarrow> \<not> t > now)
        then ''GTD orders require future expiresAt''
      else if o_TimeInForce order \<noteq> TimeInForceGTD \<and> o_ExpiresAt order \<noteq> None
        then ''expiresAt is only valid for GTD orders''
      else '''')"

definition makeEvent :: "string \<Rightarrow> time \<Rightarrow> Order \<Rightarrow> string \<Rightarrow> order_status \<Rightarrow> string \<Rightarrow> OrderEvent" where
  "makeEvent i now order eventType status correlationID =
     empty_event\<lparr>e_EventID := i, e_EventType := eventType,
       e_TenantID := (if o_TenantID order = '''' then default_tenant_id else o_TenantID order),
       e_OrderID := o_ID order, e_UserID := o_UserID order, e_Symbol := o_Symbol order,
       e_Side := o_Side order, e_OrderType := o_OrderType order,
       e_TimeInForce := o_TimeInForce order, e_Quantity := o_Quantity order,
       e_FilledQuantity := o_FilledQuantity order,
       e_RemainingQuantity := o_RemainingQuantity order, e_Status := Some status,
       e_FillPrice := o_FillPrice order, e_AverageFillPrice := o_AverageFillPrice order,
       e_Version := o_Version order, e_ExpiresAt := o_ExpiresAt order,
       e_ExpiredAt := o_ExpiredAt order, e_OccurredAt := now, e_CorrelationID := correlationID,
       e_ExpiryReason := (case o_ExpiryReason order of None \<Rightarrow> '''' | Some x \<Rightarrow> x)\<rparr>"

text \<open>An event drawn with the next id of the supply.\<close>

definition draw_event :: "time \<Rightarrow> Order \<Rightarrow> string \<Rightarrow> order_status \<Rightarrow> string \<Rightarrow> db \<Rightarrow> OrderEvent \<times> db" where
  "draw_event now order eventType status correlationID d =
     (makeEvent (new_id d) now order eventType status correlationID, use_id d)"

subsection \<open>Building an order\<close>

definition requested_order :: "time \<Rightarrow> string \<Rightarrow> string \<Rightarrow> CreateOrderRequest \<Rightarrow> string \<Rightarrow> Order" where
  "requested_order now userID tenantID req correlationID =
     \<lparr>o_ID = '''', o_TenantID = tenantID, o_UserID = userID,
      o_Symbol = to_upper (trim_space (cr_Symbol req)),
      o_Side = to_upper (trim_space (cr_Side req)),
      o_OrderType = normalizeOrderType (cr_OrderType req), o_Quantity = cr_Quantity req,
      o_FilledQuantity = 0, o_RemainingQuantity = cr_Quantity req,
      o_LimitPrice = cr_LimitPrice req, o_StopPrice = cr_StopPrice req,
      o_AverageFillPrice = None, o_TimeInForce = normalizeTimeInForce (cr_TimeInForce req),
      o_ExpiresAt = cr_ExpiresAt req, o_Version = 1, o_RiskDecisionID = None,
      o_RiskStatus = ''NOT_EVALUATED'', o_RiskReasonCode = None, o_RiskReasonMessage = None,
      o_RiskEvaluatedAt = None, o_LastExecutionAt = None, o_Status = StatusCreated,
      o_FillPrice = None, o_RejectReason = None, o_CorrelationID = correlationID,
      o_CreatedAt = now, o_UpdatedAt = now, o_CancelledAt = None, o_FilledAt = None,
      o_ExpiredAt = None, o_ExpiryReason = None\<rparr>"

definition buildOrder :: "OrderService \<Rightarrow> time \<Rightarrow> string \<Rightarrow> string \<Rightarrow> CreateOrderRequest \<Rightarrow> string \<Rightarrow> db
    \<Rightarrow> service_error + (Order \<times> OrderEvent list \<times> db)" where
  "buildOrder s now userID tenantID0 req correlationID d0 =
     (let tenantID = (if tenantID0 = '''' then default_tenant_id else tenantID0);
          order = requested_order now userID tenantID req correlationID;
          (created, d1) = draw_event now order ''order.created'' StatusCreated correlationID d0;
          reason = validateOrder now order
      in if reason \<noteq> ''''
         then let order1 = order\<lparr>o_Status := StatusRejected, o_RejectReason := Some reason\<rparr>;
                  (rejected, d2) = draw_event now order1 ''order.rejected'' StatusRejected
                                     correlationID d1
              in Inr (order1, [created, rejected], d2)
         else and_then
           (if o_TimeInForce order = TimeInForceDay
            then (case sv_calendar s of
                    None \<Rightarrow> Inl (SErrInvalidOrder ''DAY trading calendar is not configured'')
                  | Some expiryForDayOrder \<Rightarrow>
                      (case expiryForDayOrder now of
                         None \<Rightarrow> Inl SErrCalendar
                       | Some t \<Rightarrow> Inr (order\<lparr>o_ExpiresAt := Some t\<rparr>)))
            else Inr order)
           (\<lambda>order1.
              let (validated, d2) = draw_event now order1 ''order.validated'' StatusValidated
                                      correlationID d1
              in if sv_riskEnabled s \<and> sv_risk s \<noteq> None
                 then let order2 = order1\<lparr>o_Status := StatusRiskPending, o_RiskStatus := ''PENDING''\<rparr>;
                          (pending, d3) = draw_event now order2 ''order.risk_pending''
                                            StatusRiskPending correlationID d2
                      in Inr (order2, [created, validated, pending], d3)
                 else let order2 = order1\<lparr>o_Status := StatusAccepted,
                            o_RiskStatus := ''NOT_EVALUATED''\<rparr>;
                          (accepted, d3) = draw_event now order2 ''order.accepted''
                                             StatusAccepted correlationID d2
                      in Inr (order2, [created, validated, accepted], d3)))"

subsection \<open>Risk evaluation\<close>

definition empty_request :: PreTradeRiskRequest where
  "empty_request = \<lparr>pq_TenantID = '''', pq_UserID = '''', pq_OrderID = '''', pq_Symbol = '''',
     pq_Side = '''', pq_OrderType = '''', pq_Quantity = None, pq_LimitPrice = None,
     pq_StopPrice = None, pq_EstimatedPrice = None, pq_EstimatedNotional = None,
     pq_TimeInForce = '''', pq_Currency = '''', pq_SubmittedAt = zero_time,
     pq_CorrelationID = ''''\<rparr>"

definition buildRiskRequest :: "Order \<Rightarrow> PreTradeRiskRequest \<times> float64 \<times> float64 \<times> string" where
  "buildRiskRequest order =
     (let estimatedPrice =
            (case o_LimitPrice order of
               None \<Rightarrow> 0
             | Some p \<Rightarrow> if o_OrderType order = OrderTypeLimit \<or> o_OrderType order = OrderTypeStopLimit
                        then p else 0)
      in if estimatedPrice \<le> 0
         then (empty_request, 0, 0,
               ''Reference price unavailable for pre-trade risk evaluation'')
         else
           let estimatedNotional = fl64 (estimatedPrice * o_Quantity order)
           in if estimatedNotional \<le> 0
              then (empty_request, estimatedPrice, estimatedNotional,
                    ''Estimated notional is invalid'')
              else (\<lparr>pq_TenantID = o_TenantID order, pq_UserID = o_UserID order,
                     pq_OrderID = o_ID order, pq_Symbol = o_Symbol order,
                     pq_Side = o_Side order, pq_OrderType = o_OrderType order,
                     pq_Quantity = Some (formatDecimal (o_Quantity order)),
                     pq_LimitPrice = map_option formatDecimal (o_LimitPrice order),
                     pq_StopPrice = map_option formatDecimal (o_StopPrice order),
                     pq_EstimatedPrice = Some (formatDecimal estimatedPrice),
                     pq_EstimatedNotional = Some (formatDecimal estimatedNotional),
                     pq_TimeInForce = o_TimeInForce order, pq_Currency = ''USD'',
                     pq_SubmittedAt = o_CreatedAt order,
                     pq_CorrelationID = o_CorrelationID order\<rparr>,
                    estimatedPrice, estimatedNotional, ''''))"

text \<open>The result of a service method that changes the database: the order, the error, the
  database left. The order may come with an error.\<close>

type_synonym order_result = "Order option \<times> service_error option \<times> db"

definition persistRiskDecision :: "time \<Rightarrow> Order \<Rightarrow> PreTradeRiskDecision \<Rightarrow> float64 \<Rightarrow> float64
    \<Rightarrow> (string \<Rightarrow> service_error) option \<Rightarrow> db \<Rightarrow> order_result" where
  "persistRiskDecision now order decision estimatedPrice estimatedNotional resultErr d =
     (let domainDecision =
            \<lparr>rd_DecisionID = pd_DecisionID decision, rd_TenantID = o_TenantID order,
             rd_OrderID = o_ID order, rd_UserID = o_UserID order,
             rd_PolicyID = pd_PolicyID decision, rd_PolicyVersion = pd_PolicyVersion decision,
             rd_Decision = pd_Decision decision, rd_Approved = pd_Approved decision,
             rd_ReasonCode = pd_ReasonCode decision,
             rd_ReasonMessage = pd_ReasonMessage decision,
             rd_EstimatedPrice = estimatedPrice, rd_EstimatedNotional = estimatedNotional,
             rd_EvaluatedLimits = pd_EvaluatedLimits decision,
             rd_RequestSnapshot = pd_RequestSnapshot decision,
             rd_ResponseSnapshot = pd_ResponseSnapshot decision,
             rd_CorrelationID = o_CorrelationID order, rd_TraceParent = '''',
             rd_EvaluatedAt = pd_EvaluatedAt decision\<rparr>;
          (accepted, d1) = draw_event now order ''order.accepted'' StatusAccepted
                             (o_CorrelationID order) d;
          unavailable = pd_Decision decision = DecisionUnavailable \<or>
                        pd_Decision decision = DecisionInvalidResponse;
          (rejected0, d2) = draw_event now order
             (if unavailable then ''order.risk_error'' else ''order.risk_rejected'')
             (if unavailable then StatusRiskError else StatusRiskRejected)
             (o_CorrelationID order) d1;
          rejected = rejected0\<lparr>e_DecisionID := pd_DecisionID decision,
             e_ReasonCode := pd_ReasonCode decision, e_ReasonMessage := pd_ReasonMessage decision,
             e_PolicyVersion := pd_PolicyVersion decision,
             e_EvaluatedAt := Some (pd_EvaluatedAt decision),
             e_EstimatedPrice := Some estimatedPrice,
             e_EstimatedNotional := Some estimatedNotional, e_Source := ''order-service''\<rparr>
      in case ApplyRiskDecision now (o_TenantID order) (o_ID order) domainDecision [accepted]
                rejected d2 of
           Inl err \<Rightarrow> (None, Some (SErrRepository err), d2)
         | Inr (finalized, _, d3) \<Rightarrow>
             (Some finalized, map_option (\<lambda>wrap. wrap (pd_ReasonMessage decision)) resultErr, d3))"

text \<open>The decision \<open>evaluateAndApplyRisk\<close> persists, and the error it reports: without a usable
  price the order is rejected locally, and with \<open>FailOpen\<close> an unavailable engine is bypassed.\<close>

definition local_verdict :: "time \<Rightarrow> string \<Rightarrow> bool \<Rightarrow> string \<Rightarrow> string \<Rightarrow> string
    \<Rightarrow> (string \<times> json) list \<Rightarrow> PreTradeRiskDecision" where
  "local_verdict now i approved reasonCode message policy snapshot =
     (let decision = (if approved then DecisionApproved else DecisionRejected)
      in \<lparr>pd_DecisionID = i, pd_Approved = approved, pd_Decision = decision,
          pd_ReasonCode = reasonCode, pd_ReasonMessage = message, pd_EvaluatedLimits = Some [],
          pd_EvaluatedAt = now, pd_PolicyID = '''', pd_PolicyVersion = policy,
          pd_RequestSnapshot = Some snapshot,
          pd_ResponseSnapshot =
            Some [(''decision'', JStr decision), (''reasonCode'', JStr reasonCode)]\<rparr>)"

definition bypassable :: "risk_error option \<Rightarrow> bool" where
  "bypassable err = (case err of
     None \<Rightarrow> False | Some e \<Rightarrow> error_is e ErrUnavailable \<or> error_is e ErrTimeout)"

definition apply_error :: "risk_error option \<Rightarrow> (string \<Rightarrow> service_error) option" where
  "apply_error err = (case err of
     None \<Rightarrow> None
   | Some e \<Rightarrow>
       if error_is e ErrRejected then Some SErrPreTradeRiskRejected
       else if error_is e ErrInvalidResponse then Some SErrPreTradeRiskInvalidResponse
       else Some SErrPreTradeRiskUnavailable)"

definition fill_decision :: "OrderService \<Rightarrow> PreTradeRiskRequest \<Rightarrow> string \<Rightarrow> PreTradeRiskDecision
    \<Rightarrow> PreTradeRiskDecision" where
  "fill_decision s req i decision =
     (let d1 = (if pd_DecisionID decision = '''' then decision\<lparr>pd_DecisionID := i\<rparr> else decision)
      in if pd_RequestSnapshot d1 = None
         then d1\<lparr>pd_RequestSnapshot := Some (sv_snapshot s req)\<rparr> else d1)"

definition evaluateAndApplyRisk :: "OrderService \<Rightarrow> time \<Rightarrow> Order \<Rightarrow> db \<Rightarrow> order_result" where
  "evaluateAndApplyRisk s now order d =
     (let (req, estimatedPrice, estimatedNotional, reason) = buildRiskRequest order
      in if reason \<noteq> ''''
         then persistRiskDecision now order
                (local_verdict now (new_id d) False ReasonReferenceUnavailable reason
                   ''pretrade-v1'' (sv_snapshot s req))
                estimatedPrice estimatedNotional (Some SErrPreTradeRiskRejected) (use_id d)
         else (case sv_risk s of
                 None \<Rightarrow> (None, None, d) \<comment> \<open>unreachable: a nil checker never gets here\<close>
               | Some check \<Rightarrow>
                   let (decision0, err) = check req;
                       decision1 = fill_decision s req (new_id d) decision0;
                       d1 = use_id d
                   in if err \<noteq> None \<and> sv_riskFailOpen s \<and> bypassable err
                      then persistRiskDecision now order
                             (local_verdict now (new_id d1) True ReasonServiceBypassed
                                ''Risk Engine unavailable; fail-open bypass applied''
                                ''fail-open'' (sv_snapshot s req))
                             estimatedPrice estimatedNotional None (use_id d1)
                      else persistRiskDecision now order decision1 estimatedPrice
                             estimatedNotional (apply_error err) d1))"

subsection \<open>The methods\<close>

definition replay_error :: "Order \<Rightarrow> service_error option" where
  "replay_error order =
     (if o_Status order = StatusRiskRejected
        then Some (SErrPreTradeRiskRejected
                     (stringValue (o_RiskReasonMessage order) ''Risk rejected order''))
      else if o_Status order = StatusRiskError
        then (if stringValue (o_RiskReasonCode order) '''' = ReasonResponseInvalid
              then Some (SErrPreTradeRiskInvalidResponse
                     (stringValue (o_RiskReasonMessage order) ''Risk response invalid''))
              else Some (SErrPreTradeRiskUnavailable
                     (stringValue (o_RiskReasonMessage order) ''Risk Engine unavailable'')))
      else None)"

text \<open>The boolean of the Go result says whether the order is a replay.\<close>

definition ServiceCreateOrder :: "OrderService \<Rightarrow> time \<Rightarrow> UserContext \<Rightarrow> string \<Rightarrow> string \<Rightarrow> string \<Rightarrow> db
    \<Rightarrow> Order option \<times> bool \<times> service_error option \<times> db" where
  "ServiceCreateOrder s now user idempotencyKey requestBody correlationID d =
     (if \<not> hasAnyRole (u_Roles user) [''trader'', ''trading_admin'']
      then (None, False, Some SErrForbidden, d)
      else
        let requestHash = sv_sha256 s requestBody;
            tenantID = (if u_TenantID user = '''' then default_tenant_id else u_TenantID user)
        in case FindIdempotency tenantID (u_UserID user) idempotencyKey d of
             Inr record \<Rightarrow>
               if ir_RequestHash record \<noteq> requestHash
               then (None, False, Some SErrIdempotencyConflict, d)
               else (case GetOrder tenantID (ir_OrderID record) d of
                       Inl err \<Rightarrow> (None, True, Some (SErrRepository err), d)
                     | Inr order \<Rightarrow> (Some order, True, replay_error order, d))
           | Inl _ \<Rightarrow>
               (case sv_decode s requestBody of
                  None \<Rightarrow> (None, False, Some SErrDecode, d)
                | Some req \<Rightarrow>
                    (case buildOrder s now (u_UserID user) tenantID req correlationID d of
                       Inl err \<Rightarrow> (None, False, Some err, d)
                     | Inr (order, events, d1) \<Rightarrow>
                         (case CreateOrder now order events idempotencyKey requestHash d1 of
                            Inl err \<Rightarrow> (None, False, Some (SErrRepository err), d1)
                          | Inr (created, _, d2) \<Rightarrow>
                              if o_Status created = StatusRiskPending
                              then (case evaluateAndApplyRisk s now created d2 of
                                      (finalized, err, d3) \<Rightarrow> (finalized, False, err, d3))
                              else (Some created, False, None, d2)))))"

definition readers :: "string list" where
  "readers = [''trader'', ''trading_admin'', ''risk_manager'', ''analyst'', ''viewer'']"

definition all_readers :: "string list" where
  "all_readers = [''trading_admin'', ''risk_manager'', ''analyst'', ''viewer'']"

definition ServiceListOrders :: "UserContext \<Rightarrow> db \<Rightarrow> service_error + Order list" where
  "ServiceListOrders user d =
     (if \<not> hasAnyRole (u_Roles user) readers then Inl SErrForbidden
      else Inr (ListOrders (u_TenantID user) (u_UserID user)
                  (hasAnyRole (u_Roles user) all_readers) d))"

definition ServiceGetOrder :: "UserContext \<Rightarrow> string \<Rightarrow> db \<Rightarrow> service_error + Order" where
  "ServiceGetOrder user i d =
     (if \<not> hasAnyRole (u_Roles user) readers then Inl SErrForbidden
      else (case GetOrder (u_TenantID user) i d of
              Inl err \<Rightarrow> if err = ErrNotFound then Inl SErrNotFound else Inl (SErrRepository err)
            | Inr order \<Rightarrow>
                if o_UserID order \<noteq> u_UserID user \<and> \<not> hasAnyRole (u_Roles user) all_readers
                then Inl SErrForbidden else Inr order))"

definition ServiceCancelOrder :: "time \<Rightarrow> UserContext \<Rightarrow> string \<Rightarrow> string \<Rightarrow> db \<Rightarrow> service_error + (Order \<times> db)" where
  "ServiceCancelOrder now user i correlationID d =
     (if \<not> hasAnyRole (u_Roles user) [''trader'', ''trading_admin''] then Inl SErrForbidden
      else (case GetOrder (u_TenantID user) i d of
              Inl err \<Rightarrow> if err = ErrNotFound then Inl SErrNotFound else Inl (SErrRepository err)
            | Inr existing \<Rightarrow>
                if o_UserID existing \<noteq> u_UserID user \<and>
                   \<not> hasAnyRole (u_Roles user) [''trading_admin'']
                then Inl SErrForbidden
                else if o_Status existing \<noteq> StatusAccepted then Inl SErrOrderNotCancellable
                else
                  let (event, d1) = draw_event now existing ''order.cancelled'' StatusCancelled
                                      correlationID d
                  in case CancelOrder now (u_TenantID user) i correlationID event d1 of
                       Inl err \<Rightarrow> if err = ErrNotFound then Inl SErrOrderNotCancellable
                                   else Inl (SErrRepository err)
                     | Inr result \<Rightarrow> Inr result))"

definition ServiceAmendOrder :: "time \<Rightarrow> UserContext \<Rightarrow> string \<Rightarrow> AmendOrderRequest \<Rightarrow> string \<Rightarrow> db
    \<Rightarrow> service_error + (Order \<times> db)" where
  "ServiceAmendOrder now user i req correlationID d =
     (if \<not> hasAnyRole (u_Roles user) [''trader'', ''trading_admin''] then Inl SErrForbidden
      else if ar_ExpectedVersion req \<le> 0
        then Inl (SErrInvalidOrder ''expectedVersion is required'')
      else and_then (ServiceGetOrder user i d) (\<lambda>existing.
        if o_UserID existing \<noteq> u_UserID user \<and> \<not> hasAnyRole (u_Roles user) [''trading_admin'']
          then Inl SErrForbidden
        else if o_Status existing \<noteq> StatusAccepted \<and> o_Status existing \<noteq> StatusPartiallyFilled
          then Inl SErrOrderNotCancellable
        else if (case ar_Quantity req of None \<Rightarrow> False | Some q \<Rightarrow> q < o_FilledQuantity existing)
          then Inl (SErrInvalidOrder ''quantity cannot be below filledQuantity'')
        else if ar_ExpiresAt req \<noteq> None \<and> o_TimeInForce existing \<noteq> TimeInForceGTD
          then Inl (SErrInvalidOrder ''expiresAt can only be amended for GTD orders'')
        else if (case ar_ExpiresAt req of None \<Rightarrow> False | Some t \<Rightarrow> \<not> t > now)
          then Inl (SErrInvalidOrder ''GTD expiresAt must be in the future'')
        else (case AmendOrder now (u_TenantID user) i req correlationID d of
                Inl err \<Rightarrow> if err = ErrNotFound then Inl SErrVersionConflict
                            else Inl (SErrRepository err)
              | Inr result \<Rightarrow> Inr result)))"

definition ServiceListExecutionsForOrder :: "UserContext \<Rightarrow> string \<Rightarrow> db
    \<Rightarrow> service_error + DomainExecution list" where
  "ServiceListExecutionsForOrder user orderID d =
     and_then (ServiceGetOrder user orderID d) (\<lambda>_.
       Inr (ListExecutionsForOrder (u_TenantID user) orderID d))"

definition ServiceListTrades :: "UserContext \<Rightarrow> int \<Rightarrow> db \<Rightarrow> service_error + DomainExecution list" where
  "ServiceListTrades user limit d =
     (if \<not> hasAnyRole (u_Roles user) readers then Inl SErrForbidden
      else Inr (ListTrades (u_TenantID user) limit d))"

definition ServiceGetTrade :: "UserContext \<Rightarrow> string \<Rightarrow> db \<Rightarrow> service_error + DomainExecution" where
  "ServiceGetTrade user i d =
     (if \<not> hasAnyRole (u_Roles user) readers then Inl SErrForbidden
      else (case GetTrade (u_TenantID user) i d of
              Inl err \<Rightarrow> if err = ErrNotFound then Inl SErrNotFound else Inl (SErrRepository err)
            | Inr trade \<Rightarrow> Inr trade))"

definition ServiceOrderBookDepth :: "time \<Rightarrow> UserContext \<Rightarrow> string \<Rightarrow> int \<Rightarrow> db \<Rightarrow> service_error + BookDepth" where
  "ServiceOrderBookDepth now user symbol depth d =
     (if \<not> hasAnyRole (u_Roles user) readers then Inl SErrForbidden
      else Inr (OrderBookDepth (u_TenantID user) (to_upper (trim_space symbol)) depth now d))"

subsection \<open>Access control\<close>

lemma ServiceGetOrder_Inr:
  assumes "ServiceGetOrder user i d = Inr order"
  shows "GetOrder (u_TenantID user) i d = Inr order"
    "o_UserID order = u_UserID user \<or> hasAnyRole (u_Roles user) all_readers"
    "hasAnyRole (u_Roles user) readers"
  using assms by (auto simp: ServiceGetOrder_def split: if_splits sum.splits)

lemma GetOrder_Inr: "GetOrder T i d = Inr order \<longleftrightarrow> (\<exists>r. find_order T i d = Some r \<and> order = scan_order r)"
  by (auto simp: GetOrder_def split: option.splits)

lemma draw_event_frame [simp]:
  "orders (snd (draw_event n od ty s c d)) = orders d"
  "order_events (snd (draw_event n od ty s c d)) = order_events d"
  "same_logs d (snd (draw_event n od ty s c d))"
  "order_executions (snd (draw_event n od ty s c d)) = order_executions d"
  "find_order T i (snd (draw_event n od ty s c d)) = find_order T i d"
  by (simp_all add: draw_event_def find_order_def)

text \<open>access control of the write methods. A cancellation or an amendment goes through only for
  a trader or trading admin, on an order of the caller's own tenant, and unless the caller is a
  trading admin only on the caller's own order; no row of another tenant changes.\<close>

theorem write_access:
  assumes "ServiceCancelOrder now user i c d = Inr (order, d') \<or>
    ServiceAmendOrder now user i req c d = Inr (order, d')"
  shows "hasAnyRole (u_Roles user) [''trader'', ''trading_admin''] \<and>
    (\<exists>r. find_order (u_TenantID user) i d = Some r \<and>
       (t_user_id r = u_UserID user \<or> hasAnyRole (u_Roles user) [''trading_admin'']) \<and>
       is_live (t_status r)) \<and> rows_only (u_TenantID user) d d'"
  using assms
proof
  assume a: "ServiceCancelOrder now user i c d = Inr (order, d')"
  then obtain ex where ex: "GetOrder (u_TenantID user) i d = Inr ex"
    "o_UserID ex = u_UserID user \<or> hasAnyRole (u_Roles user) [''trading_admin'']"
    "o_Status ex = StatusAccepted"
    by (auto simp: ServiceCancelOrder_def Let_def split: if_splits sum.splits prod.splits)
  obtain ev d1 where de: "draw_event now ex ''order.cancelled'' StatusCancelled c d = (ev, d1)" by fastforce
  then have "CancelOrder now (u_TenantID user) i c ev d1 = Inr (order, d')"
    using a ex by (auto simp: ServiceCancelOrder_def Let_def split: if_splits sum.splits)
  from CancelOrder_effect [OF this] have "rows_only (u_TenantID user) d1 d'"
    by (simp add: tenant_effect_def)
  then have "rows_only (u_TenantID user) d d'"
    using draw_event_frame(1) [of now ex "''order.cancelled''" StatusCancelled c d] de
    by (simp add: rows_only_def)
  then show ?thesis using a ex
    by (auto simp: ServiceCancelOrder_def GetOrder_Inr is_live_def split: if_splits)
next
  assume a: "ServiceAmendOrder now user i req c d = Inr (order, d')"
  then obtain ex where ex: "ServiceGetOrder user i d = Inr ex"
    "o_UserID ex = u_UserID user \<or> hasAnyRole (u_Roles user) [''trading_admin'']"
    "o_Status ex = StatusAccepted \<or> o_Status ex = StatusPartiallyFilled"
    by (auto simp: ServiceAmendOrder_def and_then_Inr split: if_splits)
  have "AmendOrder now (u_TenantID user) i req c d = Inr (order, d')"
    using a ex by (auto simp: ServiceAmendOrder_def and_then_Inr split: if_splits sum.splits)
  from AmendOrder_effect [OF this] have "rows_only (u_TenantID user) d d'"
    by (auto simp: tenant_effect_def)
  then show ?thesis using a ex ServiceGetOrder_Inr(1) [OF ex(1)]
    by (auto simp: ServiceAmendOrder_def GetOrder_Inr is_live_def split: if_splits)
qed

text \<open>access control of the read methods. An order is shown only to a caller of its tenant who
  owns it or holds a role that reads every order, and a plain trader lists only own orders.\<close>

theorem read_access:
  assumes "ServiceGetOrder user i d = Inr order \<or>
    (\<exists>os. ServiceListOrders user d = Inr os \<and> order \<in> set os)"
  shows "hasAnyRole (u_Roles user) readers \<and> o_TenantID order = u_TenantID user \<and>
    (o_UserID order = u_UserID user \<or> hasAnyRole (u_Roles user) all_readers)"
  using assms
proof
  assume "ServiceGetOrder user i d = Inr order"
  from ServiceGetOrder_Inr [OF this] show ?thesis
    by (auto simp: GetOrder_Inr find_order_iff)
next
  assume "\<exists>os. ServiceListOrders user d = Inr os \<and> order \<in> set os"
  then have "hasAnyRole (u_Roles user) readers"
    and m: "order \<in> set (ListOrders (u_TenantID user) (u_UserID user) (hasAnyRole (u_Roles user) all_readers) d)"
    by (auto simp: ServiceListOrders_def split: if_splits)
  moreover obtain r where "order = scan_order r" "row_tenant r = u_TenantID user"
    "hasAnyRole (u_Roles user) all_readers \<or> t_user_id r = u_UserID user"
    using m set_limit_rows by (fastforce simp: ListOrders_def)
  ultimately show ?thesis by auto
qed

subsection \<open>Creation\<close>

lemma validateOrder_ok:
  "validateOrder now order = '''' \<Longrightarrow>
   o_Symbol order \<noteq> '''' \<and> o_Side order \<in> {SideBuy, SideSell} \<and>
   o_OrderType order \<in> {OrderTypeMarket, OrderTypeLimit, OrderTypeStop, OrderTypeStopLimit, OrderTypeStopLoss} \<and>
   0 < o_Quantity order \<and> 0 \<le> o_FilledQuantity order \<and> o_FilledQuantity order \<le> o_Quantity order \<and>
   (o_OrderType order \<in> {OrderTypeLimit, OrderTypeStopLimit} \<longrightarrow> \<not> not_positive (o_LimitPrice order)) \<and>
   (o_OrderType order \<in> {OrderTypeStop, OrderTypeStopLoss, OrderTypeStopLimit} \<longrightarrow>
      \<not> not_positive (o_StopPrice order)) \<and>
   (o_TimeInForce order \<in> {'''', TimeInForceDay, TimeInForceGTC, TimeInForceGTD, TimeInForceIOC, TimeInForceFOK}) \<and>
   (o_TimeInForce order = TimeInForceGTD \<longleftrightarrow> o_ExpiresAt order \<noteq> None) \<and>
   (\<forall>t. o_ExpiresAt order = Some t \<longrightarrow> now < t)"
  unfolding validateOrder_def by (simp split: if_splits option.splits; auto)

lemma normalizeTimeInForce_not_empty: "normalizeTimeInForce v \<noteq> ''''"
  by (simp add: normalizeTimeInForce_def Let_def)

lemma validated_checks:
  assumes v: "validateOrder now (requested_order now u T req c) = ''''"
    and f: "is_f64 (cr_Quantity req)" and st: "o_RiskStatus od \<in> {''NOT_EVALUATED'', ''PENDING''}"
    and od: "od = (requested_order now u T req c)\<lparr>o_ExpiresAt := e, o_Status := st, o_RiskStatus := o_RiskStatus od\<rparr>"
  shows "order_checks (order_row_of i now od)"
proof -
  let ?o = "requested_order now u T req c"
  have q: "0 < shortest (cr_Quantity req)"
    using validateOrder_ok [OF v] f by (simp add: requested_order_def shortest_pos_iff)
  have tif: "o_TimeInForce ?o \<in> {TimeInForceDay, TimeInForceGTC, TimeInForceGTD, TimeInForceIOC, TimeInForceFOK}"
  proof -
    have "o_TimeInForce ?o = normalizeTimeInForce (cr_TimeInForce req)" by (simp add: requested_order_def)
    moreover have "o_TimeInForce ?o \<in> {[], TimeInForceDay, TimeInForceGTC, TimeInForceGTD, TimeInForceIOC, TimeInForceFOK}"
      using validateOrder_ok [OF v] by blast
    ultimately show ?thesis using normalizeTimeInForce_not_empty by auto
  qed
  have si: "o_Side ?o \<in> {SideBuy, SideSell}" "o_OrderType ?o \<in> {OrderTypeMarket, OrderTypeLimit,
      OrderTypeStop, OrderTypeStopLimit, OrderTypeStopLoss}"
    using validateOrder_ok [OF v] by blast+
  have r: "t_quantity (order_row_of i now od) = shortest (cr_Quantity req)"
    "t_filled_quantity (order_row_of i now od) = 0"
    "t_remaining_quantity (order_row_of i now od) = shortest (cr_Quantity req)"
    "t_version (order_row_of i now od) = 1" "t_side (order_row_of i now od) = o_Side ?o"
    "t_order_type (order_row_of i now od) = o_OrderType ?o"
    "t_time_in_force (order_row_of i now od) = o_TimeInForce ?o"
    "t_risk_status (order_row_of i now od) = o_RiskStatus od"
    "t_expiry_reason (order_row_of i now od) = None"
    "t_stop_trigger_reference_price (order_row_of i now od) = None"
    by (subst od, simp add: order_row_of_def requested_order_def)+
  show ?thesis unfolding order_checks_def r using q tif si st by (simp, blast)
qed

text \<open>What \<open>buildOrder\<close> hands to the repository.\<close>

lemma buildOrder_Inr:
  assumes "buildOrder s now u T req c d = Inr (od, evs, d')"
  obtains (rejected) T' reason where "T' = (if T = '''' then default_tenant_id else T)"
      "reason = validateOrder now (requested_order now u T' req c)" "reason \<noteq> ''''"
      "od = (requested_order now u T' req c)\<lparr>o_Status := StatusRejected, o_RejectReason := Some reason\<rparr>"
  | (valid) T' e st rs where "T' = (if T = '''' then default_tenant_id else T)"
      "validateOrder now (requested_order now u T' req c) = ''''"
      "od = (requested_order now u T' req c)\<lparr>o_ExpiresAt := e, o_Status := st, o_RiskStatus := rs\<rparr>"
      "if sv_riskEnabled s \<and> sv_risk s \<noteq> None then st = StatusRiskPending \<and> rs = ''PENDING''
       else st = StatusAccepted \<and> rs = ''NOT_EVALUATED''"
      "o_TimeInForce od = TimeInForceDay \<Longrightarrow> \<exists>f. sv_calendar s = Some f \<and> f now = e \<and> e \<noteq> None"
proof -
  define T' where "T' = (if T = '''' then default_tenant_id else T)"
  let ?o = "requested_order now u T' req c"
  show thesis
  proof (cases "validateOrder now ?o = ''''")
    case False
    then show thesis using assms
      by (intro rejected [OF T'_def refl]) (auto simp: buildOrder_def Let_def T'_def split: prod.splits)
  next
    case True
    obtain e where e: "(if o_TimeInForce ?o = TimeInForceDay
            then (case sv_calendar s of
                    None \<Rightarrow> Inl (SErrInvalidOrder ''DAY trading calendar is not configured'')
                  | Some f \<Rightarrow> (case f now of None \<Rightarrow> Inl SErrCalendar
                       | Some t \<Rightarrow> Inr (?o\<lparr>o_ExpiresAt := Some t\<rparr>)))
            else Inr ?o) = Inr (?o\<lparr>o_ExpiresAt := e\<rparr>)"
      and day: "o_TimeInForce ?o = TimeInForceDay \<Longrightarrow> \<exists>f. sv_calendar s = Some f \<and> f now = e \<and> e \<noteq> None"
    proof (cases "o_TimeInForce ?o = TimeInForceDay")
      case dy: True
      then obtain f t where "sv_calendar s = Some f" "f now = Some t"
        using assms True unfolding buildOrder_def T'_def [symmetric] Let_def
        by (auto split: prod.splits option.splits)
      then show thesis using dy that [of "Some t"] by simp
    next
      case nd: False
      then show thesis using that [of "o_ExpiresAt ?o"] by simp
    qed
    show thesis
    proof (cases "sv_riskEnabled s \<and> sv_risk s \<noteq> None")
      case rk: True
      have "od = ?o\<lparr>o_ExpiresAt := e, o_Status := StatusRiskPending, o_RiskStatus := ''PENDING''\<rparr>"
        using assms True rk e unfolding buildOrder_def T'_def [symmetric] Let_def
        by (auto split: prod.splits)
      then show thesis using rk day by (intro valid [OF T'_def True]) auto
    next
      case rk: False
      have "od = ?o\<lparr>o_ExpiresAt := e, o_Status := StatusAccepted, o_RiskStatus := ''NOT_EVALUATED''\<rparr>"
        using assms True rk e unfolding buildOrder_def T'_def [symmetric] Let_def
        by (auto split: prod.splits)
      then show thesis using rk day by (intro valid [OF T'_def True]) auto
    qed
  qed
qed

text \<open>C39: what the service builds and what the database accepts. An order that passes validation
  satisfies every CHECK constraint of the \<open>orders\<close> table, a DAY order has an expiry and a GTD order
  a future one; a request that fails validation because of its side, type or quantity is rejected
  in memory, but its row violates a constraint, so the rejection cannot be stored.\<close>

theorem built_order_constraints:
  assumes "buildOrder s now u T req c d = Inr (od, evs, d')" "is_f64 (cr_Quantity req)"
  shows "(o_Status od \<noteq> StatusRejected \<longrightarrow> order_checks (order_row_of i now od) \<and>
      (o_TimeInForce od = TimeInForceDay \<longrightarrow> o_ExpiresAt od \<noteq> None)) \<and>
    (o_Side od \<notin> {SideBuy, SideSell} \<or> o_Quantity od \<le> 0 \<longrightarrow>
      o_Status od = StatusRejected \<and>
      (\<forall>evs' key hash d2. CreateOrder now od evs' key hash d2 = Inl (ErrConstraint ''orders'')))"
  using assms(1)
proof (cases rule: buildOrder_Inr)
  case (rejected T' reason)
  have q: "shortest (cr_Quantity req) \<le> 0" if "cr_Quantity req \<le> 0"
    using that assms(2) shortest_pos_iff [of "cr_Quantity req"] by (meson not_le)
  have "\<not> order_checks (order_row_of (new_id d2) now od)"
    if "o_Side od \<notin> {SideBuy, SideSell} \<or> o_Quantity od \<le> 0" for d2
    using that q rejected(4)
    by (auto simp: order_checks_def order_row_of_def requested_order_def)
  then show ?thesis using rejected(4)
    by (auto simp: CreateOrder_def insert_order_def Let_def)
next
  case (valid T' e st rs)
  have "order_checks (order_row_of i now od)"
    using valid(3,4) by (intro validated_checks [OF valid(2) assms(2), where e = e and st = st])
      (auto split: if_splits)
  moreover have "o_Status od \<noteq> StatusRejected" using valid(3,4) by (auto split: if_splits)
  moreover have "o_Side od \<in> {SideBuy, SideSell} \<and> \<not> o_Quantity od \<le> 0"
    using validateOrder_ok [OF valid(2)] valid(3) by simp
  ultimately show ?thesis using valid(3,5) by auto
qed

text \<open>a repeated create request. Under a key already bound to a request hash the service changes
  nothing: the same body gives back the stored order as a replay, another body a conflict.\<close>

theorem create_replay:
  assumes "FindIdempotency T (u_UserID user) key d = Inr k"
    "T = (if u_TenantID user = '''' then default_tenant_id else u_TenantID user)"
    "hasAnyRole (u_Roles user) [''trader'', ''trading_admin'']"
  shows "ServiceCreateOrder s now user key body c d =
    (if ir_RequestHash k = sv_sha256 s body
     then (case GetOrder T (ir_OrderID k) d of
             Inl e \<Rightarrow> (None, True, Some (SErrRepository e), d)
           | Inr order \<Rightarrow> (Some order, True, replay_error order, d))
     else (None, False, Some SErrIdempotencyConflict, d))"
  using assms by (simp add: ServiceCreateOrder_def Let_def split: if_splits)

subsection \<open>The risk gate\<close>

lemma lifecycle_status:
  "o_Status (updateOrderLifecycleFromFill now o' m c) \<in>
     {o_Status o', StatusCancelled, StatusFilled, StatusPartiallyFilled}"
  by (simp add: updateOrderLifecycleFromFill_def Let_def)

lemma matchAcceptedOrder_status:
  assumes "matchAcceptedOrder now order d = Inr (order', evs, d')"
  shows "o_Status order' \<in> {o_Status order, StatusCancelled, StatusFilled, StatusPartiallyFilled}"
proof -
  obtain m c where "order' = updateOrderLifecycleFromFill now (ApplyToDomain m order) m c"
    using assms by (auto simp: matchAcceptedOrder_def Let_def and_then_Inr split: option.splits if_splits)
  then show ?thesis using lifecycle_status [of now "ApplyToDomain m order" m c]
    by (simp add: ApplyToDomain_def)
qed

abbreviation "trading_statuses \<equiv> {StatusAccepted, StatusCancelled, StatusFilled, StatusPartiallyFilled}"

lemma ApplyRiskDecision_pending:
  assumes ap: "ApplyRiskDecision now T i dec approved rejected d = Inr (order, evs, d')"
    and r: "find_order T i d = Some r" "t_status r = StatusRiskPending"
  shows "if rd_Approved dec then o_Status order \<in> trading_statuses
    else o_Status order \<in> {StatusRiskRejected, StatusRiskError} \<and>
         order_executions d' = order_executions d \<and>
         (\<exists>r'. find_order T i d' = Some r' \<and> t_status r' = o_Status order)"
  using ap
proof (cases rule: ApplyRiskDecision_cases)
  case (decided_before r1)
  then show ?thesis using r by (simp add: find_order_iff)
next
  case (approved r1 order2 d1 d2 d3 mevs)
  then show ?thesis using matchAcceptedOrder_status [of now order2 d2 order mevs d3] by simp
next
  case (rejected r1 d1 d2)
  obtain rows where rows: "d1 = d\<lparr>order_risk_decisions := order_risk_decisions d @ rows\<rparr>"
    using insertRiskDecision_Inr rejected(4) by blast
  have r1: "r1 = r" using rejected(1) r by (simp add: find_order_iff)
  have st: "o_Status order \<in> {StatusRiskRejected, StatusRiskError}"
    unfolding rejected(6) reject_order_def by (simp add: Let_def)
  have id: "o_ID order = i" "o_TenantID order = T"
    using find_by_Some [OF rejected(1)] rejected(2) by (simp_all add: rejected(6))
  let ?f = "set_risk_rejected now order"
  have d2: "d2 = d1\<lparr>orders := upd_where (own_row order) ?f (orders d1)\<rparr>"
    using rejected(7) by (simp add: update_orders_Inr)
  have tid: "t_id (?f r) = t_id r" "row_tenant (?f r) = row_tenant r" "t_status (?f r) = o_Status order" for r
    by (simp_all add: set_risk_rejected_def set_risk_state_def row_tenant_def)
  have "find_by t_id i (orders d2) = Some (?f r1)"
    using rejected(1,2) id find_by_Some [OF rejected(1)]
    by (simp add: d2 rows find_by_upd_where tid own_row_def)
  moreover note record_events_Inr [OF rejected(9)]
  ultimately have "find_order T i d' = Some (?f r1)" "order_executions d' = order_executions d"
    using rejected(2) by (simp_all add: find_order_iff tid tables_but_logs_def d2 rows)
  then show ?thesis using rejected(5) st tid by auto
qed

lemma persistRiskDecision_Some:
  assumes "persistRiskDecision now order dec p n resErr d = (Some od, err, d')"
    and r: "find_order (o_TenantID order) (o_ID order) d = Some r" "t_status r = StatusRiskPending"
  shows "(err = None \<longleftrightarrow> resErr = None) \<and>
    (if pd_Approved dec then o_Status od \<in> trading_statuses
     else o_Status od \<in> {StatusRiskRejected, StatusRiskError} \<and>
          order_executions d' = order_executions d \<and>
          (\<exists>r'. find_order (o_TenantID order) (o_ID order) d' = Some r' \<and> t_status r' = o_Status od))"
proof -
  obtain dd approved rejected d2 evs where
    a: "ApplyRiskDecision now (o_TenantID order) (o_ID order) dd approved rejected d2 = Inr (od, evs, d')"
    and dd: "rd_Approved dd = pd_Approved dec" and d2: "d2 = use_id (use_id d)"
    and e: "err = map_option (\<lambda>wrap. wrap (pd_ReasonMessage dec)) resErr"
    using assms(1) by (auto simp: persistRiskDecision_def draw_event_def Let_def split: sum.splits)
  have "find_order (o_TenantID order) (o_ID order) d2 = Some r" using r by (simp add: d2 find_order_def)
  from ApplyRiskDecision_pending [OF a this r(2)] show ?thesis
    unfolding dd e by (cases "pd_Approved dec") (auto simp: d2)
qed


subsection \<open>Concrete requests\<close>

definition ex_decision :: "bool \<Rightarrow> string \<Rightarrow> PreTradeRiskDecision" where
  "ex_decision appr dec = \<lparr>pd_DecisionID = ''d-1'', pd_Approved = appr, pd_Decision = dec,
     pd_ReasonCode = ''LIMIT'', pd_ReasonMessage = ''max notional'', pd_EvaluatedLimits = None,
     pd_EvaluatedAt = 5, pd_PolicyID = '''', pd_PolicyVersion = ''v1'',
     pd_RequestSnapshot = None, pd_ResponseSnapshot = None\<rparr>"

definition ex_client :: Client where
  "ex_client = \<lparr>cl_baseURL = ''u'', cl_timeout = 1, cl_maxRetries = 0, cl_baseDelay = 1\<rparr>"

definition ex_service :: "bool \<Rightarrow> string \<Rightarrow> OrderService" where
  "ex_service appr dec =
     \<lparr>sv_calendar = None,
      sv_risk = Some (\<lambda>req. verdict (Evaluate ex_client 0
        ((\<lambda>req i. Response 200 (Some (ex_decision appr dec)) None) req) (\<lambda>i. False))),
      sv_riskEnabled = True, sv_riskFailOpen = False,
      sv_decode = (\<lambda>b. Some \<lparr>cr_Symbol = ''aapl'', cr_Side = ''buy'', cr_OrderType = ''limit'',
        cr_Quantity = 10, cr_LimitPrice = Some 5, cr_StopPrice = None, cr_TimeInForce = ''gtc'',
        cr_ExpiresAt = None\<rparr>),
      sv_sha256 = id, sv_snapshot = (\<lambda>r. [])\<rparr>"

definition empty_db :: db where
  "empty_db = \<lparr>orders = [], order_events = [], order_outbox = [], idempotency_keys = [],
     order_executions = [], order_risk_decisions = [], reference_prices = [],
     db_ids = (\<lambda>n. replicate (Suc n) (CHR ''x'')), db_next = 0\<rparr>"

definition ex_trader :: UserContext where
  "ex_trader = \<lparr>u_UserID = ''u'', u_TenantID = ''t'', u_Roles = [''trader'']\<rparr>"

definition ex_pending :: db where
  "ex_pending = empty_db\<lparr>orders := [order_row_of ''o-1'' 0
     (ex_order\<lparr>o_Status := StatusRiskPending, o_RiskStatus := ''PENDING''\<rparr>)]\<rparr>"

text \<open>an engine answer that contradicts itself, approved but called REJECTED, is reported to the
  caller as a rejection while the repository, which looks only at the flag, accepts the order.\<close>

theorem contradictory_decision_accepts:
  "case ServiceCreateOrder (ex_service True DecisionRejected) 9 ex_trader ''k'' ''body'' ''c'' empty_db of
     (Some order, False, Some (SErrPreTradeRiskRejected _), d') \<Rightarrow>
        o_Status order = StatusAccepted \<and> map t_status (orders d') = [StatusAccepted]
   | _ \<Rightarrow> False"
  by code_simp


lemma write_access_witness:
  "\<exists>order d'. ServiceCancelOrder 5 ex_trader ''o-1'' ''c'' ex_db = Inr (order, d') \<and> rows_only ''t'' ex_db d'"
proof -
  have "is_Inr (ServiceCancelOrder 5 ex_trader ''o-1'' ''c'' ex_db)" by code_simp
  then obtain od where od: "ServiceCancelOrder 5 ex_trader ''o-1'' ''c'' ex_db = Inr od" by (rule is_InrE)
  obtain o1 d1 where p: "od = (o1, d1)" by fastforce
  from write_access [OF disjI1 [OF od [unfolded p]]] od p show ?thesis by (auto simp: ex_trader_def)
qed

lemma read_access_witness:
  "\<exists>order. ServiceGetOrder ex_trader ''o-1'' ex_db = Inr order \<and> o_UserID order = ''u''"
proof -
  have "is_Inr (ServiceGetOrder ex_trader ''o-1'' ex_db)" by code_simp
  then obtain od where od: "ServiceGetOrder ex_trader ''o-1'' ex_db = Inr od" by (rule is_InrE)
  have "\<not> hasAnyRole (u_Roles ex_trader) all_readers" by code_simp
  with read_access [OF disjI1 [OF od]] od show ?thesis by (auto simp: ex_trader_def)
qed

definition ex_request :: CreateOrderRequest where
  "ex_request = \<lparr>cr_Symbol = ''aapl'', cr_Side = ''hold'', cr_OrderType = ''limit'',
     cr_Quantity = 10, cr_LimitPrice = Some 5, cr_StopPrice = None, cr_TimeInForce = ''gtc'',
     cr_ExpiresAt = None\<rparr>"

lemma built_order_constraints_witness:
  "\<exists>od evs d'. buildOrder (ex_service True DecisionApproved) 9 ''u'' ''t'' ex_request ''c'' empty_db = Inr (od, evs, d') \<and>
     CreateOrder 9 od evs ''k'' ''h'' d' = Inl (ErrConstraint ''orders'')"
proof -
  have "case buildOrder (ex_service True DecisionApproved) 9 ''u'' ''t'' ex_request ''c'' empty_db of
      Inl e \<Rightarrow> False | Inr r \<Rightarrow> o_Side (fst r) = ''HOLD''" by code_simp
  then obtain od evs d' where b:
    "buildOrder (ex_service True DecisionApproved) 9 ''u'' ''t'' ex_request ''c'' empty_db = Inr (od, evs, d')"
    "o_Side od = ''HOLD''" by (auto split: sum.splits)
  have "is_f64 (cr_Quantity ex_request)" using is_f64_int [of 10] by (simp add: ex_request_def)
  from built_order_constraints [OF b(1) this] b show ?thesis by auto
qed

lemma create_replay_witness:
  "ServiceCreateOrder (ex_service True DecisionApproved) 9 ex_trader ''k'' ''other'' ''c''
     (empty_db\<lparr>idempotency_keys := [\<lparr>ir_TenantID = ''t'', ir_UserID = ''u'', ir_Key = ''k'',
        ir_RequestHash = ''body'', ir_OrderID = ''o-1'', ir_CreatedAt = 0\<rparr>]\<rparr>) =
   (None, False, Some SErrIdempotencyConflict,
     empty_db\<lparr>idempotency_keys := [\<lparr>ir_TenantID = ''t'', ir_UserID = ''u'', ir_Key = ''k'',
        ir_RequestHash = ''body'', ir_OrderID = ''o-1'', ir_CreatedAt = 0\<rparr>]\<rparr>)"
proof -
  let ?k = "\<lparr>ir_TenantID = ''t'', ir_UserID = ''u'', ir_Key = ''k'',
        ir_RequestHash = ''body'', ir_OrderID = ''o-1'', ir_CreatedAt = 0\<rparr>"
  let ?d = "empty_db\<lparr>idempotency_keys := [?k]\<rparr>"
  have f: "FindIdempotency ''t'' (u_UserID ex_trader) ''k'' ?d = Inr ?k"
    by (simp add: FindIdempotency_def sql_simps ex_trader_def)
  have r: "hasAnyRole (u_Roles ex_trader) [''trader'', ''trading_admin'']" by code_simp
  have t: "''t'' = (if u_TenantID ex_trader = '''' then default_tenant_id else u_TenantID ex_trader)"
    by (simp add: ex_trader_def)
  show ?thesis using create_replay [OF f t r, of "ex_service True DecisionApproved" 9 "''other''" "''c''"]
    by (simp add: ex_service_def)
qed

end
