(* ===== verification/OrderExpiry.thy ===== *)
theory OrderExpiry
  imports OrderService
begin

text \<open>
  Order expiry: \<open>internal/expiry/calendar.go\<close> (the trading calendar), \<open>repository.go\<close> (the batch
  that expires due orders) and \<open>worker.go\<close> (the poll). A \<open>*time.Location\<close> is its offset from UTC
  as a function of the instant; \<open>time.Date\<close> and \<open>AddDate\<close> resolve local times with it as Go
  does. The Go interface \<open>TradingCalendar\<close> is the locale \<open>trading_calendar\<close>; time zones whose
  clock changes do not cross midnight are the locale \<open>civil_zone\<close>.
  Lemmas: the day expiry is the first close of a trading day after submission and the search for it
  returns; a batch expires exactly the due orders it claims, with one event each.
\<close>

subsection \<open>Local time\<close>

type_synonym location = "time \<Rightarrow> duration"

definition day_ns :: duration where
  "day_ns = 86400 * 1000000000"

definition local_day :: "location \<Rightarrow> time \<Rightarrow> int" where
  "local_day loc t = (t + loc t) div day_ns"

definition local_clock :: "location \<Rightarrow> time \<Rightarrow> duration" where
  "local_clock loc t = (t + loc t) mod day_ns"

text \<open>\<open>time.Date\<close>: the offset in force at the local time read as UTC, corrected when the instant it
  gives lies in another period of the zone.\<close>

definition go_date :: "location \<Rightarrow> int \<Rightarrow> duration \<Rightarrow> time" where
  "go_date loc day clock =
     (let unix = day * day_ns + clock; off = loc unix
      in if off = 0 then unix else unix - loc (unix - off))"

text \<open>\<open>t.AddDate(0, 0, 1)\<close>\<close>

definition add_day :: "location \<Rightarrow> time \<Rightarrow> time" where
  "add_day loc t = go_date loc (local_day loc t + 1) (local_clock loc t)"

text \<open>Day 0 of the epoch is a Thursday; Sunday is 0 and Saturday 6.\<close>

definition weekday_of_day :: "int \<Rightarrow> int" where
  "weekday_of_day day = (day + 4) mod 7"

subsection \<open>The weekday calendar\<close>

record WeekdayTradingCalendar =
  cal_location :: "location option"
  cal_closeHour :: int
  cal_closeMin :: int

datatype calendar_error = CalendarNotConfigured | CalendarContext

definition IsTradingDay :: "WeekdayTradingCalendar \<Rightarrow> time \<Rightarrow> calendar_error + bool" where
  "IsTradingDay c date =
     (case cal_location c of
        None \<Rightarrow> Inl CalendarNotConfigured
      | Some loc \<Rightarrow>
          let weekday = weekday_of_day (local_day loc date)
          in Inr (weekday \<noteq> 6 \<and> weekday \<noteq> 0))"

definition closeFor :: "WeekdayTradingCalendar \<Rightarrow> location \<Rightarrow> time \<Rightarrow> time" where
  "closeFor c loc local =
     go_date loc (local_day loc local) (cal_closeHour c * 60 * Minute + cal_closeMin c * Minute)"

text \<open>The loop of \<open>ExpiryForDayOrder\<close>; \<open>ctxErr\<close> is \<open>ctx.Err() != nil\<close>.\<close>

partial_function (option) next_trading_close ::
    "WeekdayTradingCalendar \<Rightarrow> location \<Rightarrow> bool \<Rightarrow> time \<Rightarrow> (calendar_error + time) option" where
  "next_trading_close c loc ctxErr expiry =
     (if ctxErr then Some (Inl CalendarContext)
      else (case IsTradingDay c expiry of
              Inl err \<Rightarrow> Some (Inl err)
            | Inr trading \<Rightarrow>
                if trading then Some (Inr expiry)
                else next_trading_close c loc ctxErr (closeFor c loc (add_day loc expiry))))"

definition ExpiryForDayOrder :: "WeekdayTradingCalendar \<Rightarrow> bool \<Rightarrow> time \<Rightarrow> (calendar_error + time) option" where
  "ExpiryForDayOrder c ctxErr submittedAt =
     (case cal_location c of
        None \<Rightarrow> Some (Inl CalendarNotConfigured)
      | Some loc \<Rightarrow>
          let expiry0 = closeFor c loc submittedAt;
              expiry = (if expiry0 > submittedAt then expiry0
                        else closeFor c loc (add_day loc submittedAt))
          in next_trading_close c loc ctxErr expiry)"

subsection \<open>Zones and calendars as contracts\<close>

locale civil_zone =
  fixes loc :: location
  assumes day_mono: "s \<le> t \<Longrightarrow> local_day loc s \<le> local_day loc t"
    and date_day: "0 \<le> clock \<Longrightarrow> clock < day_ns \<Longrightarrow> local_day loc (go_date loc day clock) = day"
begin

lemma later_day: "local_day loc s < local_day loc t \<Longrightarrow> s < t"
  using day_mono [of t s] by (meson leD not_le)

lemma add_day_day: "local_day loc (add_day loc t) = local_day loc t + 1"
  unfolding add_day_def by (rule date_day) (simp_all add: local_clock_def day_ns_def)

end

lemma fixed_local_day: "local_day (\<lambda>_. off) (go_date (\<lambda>_. off) day clock) = (day * day_ns + clock) div day_ns"
  by (simp add: local_day_def go_date_def Let_def)

interpretation fixed_zone: civil_zone "\<lambda>_. off" for off
proof
  show "local_day (\<lambda>_. off) s \<le> local_day (\<lambda>_. off) t" if "s \<le> t" for s t
    unfolding local_day_def using that by (intro zdiv_mono1) (simp_all add: day_ns_def)
  show "local_day (\<lambda>_. off) (go_date (\<lambda>_. off) day clock) = day"
    if "0 \<le> clock" "clock < day_ns" for clock day
  proof -
    have "(day * day_ns + clock) div day_ns = day + clock div day_ns"
      by (subst add.commute, subst div_mult_self1) (simp_all add: day_ns_def)
    then show ?thesis using that by (simp add: fixed_local_day)
  qed
qed

text \<open>The Go interface, with what the order service and the expiry worker rely on.\<close>

locale trading_calendar =
  fixes expiry_for_day_order :: "time \<Rightarrow> time option" and is_trading_day :: "time \<Rightarrow> bool"
  assumes expiry_later: "expiry_for_day_order s = Some e \<Longrightarrow> s < e"
    and expiry_trading: "expiry_for_day_order s = Some e \<Longrightarrow> is_trading_day e"
begin

text \<open>A DAY order the service accepts expires later than its submission, on a trading day.\<close>

lemma day_order_expiry:
  assumes "sv_calendar s = Some expiry_for_day_order"
    "buildOrder s now u T req c d = Inr (od, evs, d')" "o_Status od \<noteq> StatusRejected"
    "o_TimeInForce od = TimeInForceDay"
  shows "\<exists>e. o_ExpiresAt od = Some e \<and> now < e \<and> is_trading_day e"
proof -
  from assms(2) show ?thesis
  proof (cases rule: buildOrder_Inr)
    case (rejected T' reason)
    have "o_Status od = StatusRejected" unfolding rejected(4) by simp
    then show ?thesis using assms(3) by blast
  next
    case (valid T' e st rs)
    obtain t where "e = Some t" "expiry_for_day_order now = Some t"
      using valid(5) [OF assms(4)] assms(1) by auto
    moreover have "o_ExpiresAt od = e" unfolding valid(3) by simp
    ultimately show ?thesis using expiry_later [of now t] expiry_trading [of now t] by simp
  qed
qed

end

subsection \<open>The day expiry\<close>

definition trading_day_number :: "int \<Rightarrow> bool" where
  "trading_day_number day \<longleftrightarrow> weekday_of_day day \<noteq> 6 \<and> weekday_of_day day \<noteq> 0"

lemma trading_day_soon:
  "trading_day_number d \<or> trading_day_number (d + 1) \<or> trading_day_number (d + 2)"
proof -
  define m where "m = (d + 4) mod 7"
  have m: "0 \<le> m" "m < 7" by (simp_all add: m_def)
  have 1: "(d + 1 + 4) mod 7 = (m + 1) mod 7" "(d + 2 + 4) mod 7 = (m + 2) mod 7"
    unfolding m_def by (simp_all only: mod_add_left_eq) (simp_all add: add.commute)
  have w: "weekday_of_day d = m" "weekday_of_day (d + 1) = (m + 1) mod 7"
    "weekday_of_day (d + 2) = (m + 2) mod 7"
    unfolding weekday_of_day_def by (rule m_def [symmetric], rule 1(1), rule 1(2))
  consider "m = 0" | "m = 6" | "m \<noteq> 0 \<and> m \<noteq> 6" by blast
  then show ?thesis unfolding trading_day_number_def w by cases simp_all
qed

definition close_of :: "WeekdayTradingCalendar \<Rightarrow> duration" where
  "close_of c = cal_closeHour c * 60 * Minute + cal_closeMin c * Minute"

definition close_ok :: "WeekdayTradingCalendar \<Rightarrow> bool" where
  "close_ok c \<longleftrightarrow> 0 \<le> cal_closeHour c \<and> cal_closeHour c < 24 \<and> 0 \<le> cal_closeMin c \<and> cal_closeMin c < 60"

lemma close_of_range: "close_ok c \<Longrightarrow> 0 \<le> close_of c \<and> close_of c < day_ns"
  by (auto simp: close_ok_def close_of_def day_ns_def Minute_def)

definition close_on :: "location \<Rightarrow> WeekdayTradingCalendar \<Rightarrow> int \<Rightarrow> time" where
  "close_on loc c day = go_date loc day (close_of c)"

context civil_zone
begin

lemma close_on_day: "close_ok c \<Longrightarrow> local_day loc (close_on loc c day) = day"
  using close_of_range by (simp add: close_on_def date_day)

lemma closeFor_close_on: "closeFor c loc t = close_on loc c (local_day loc t)"
  by (simp add: closeFor_def close_on_def close_of_def)

lemma close_on_less: "close_ok c \<Longrightarrow> a < b \<Longrightarrow> close_on loc c a < close_on loc c b"
  using later_day close_on_day by simp

lemma close_on_after: "close_ok c \<Longrightarrow> local_day loc s < day \<Longrightarrow> s < close_on loc c day"
  using later_day close_on_day by simp

lemma next_trading_close_step:
  assumes "close_ok c" "cal_location c = Some loc"
  shows "next_trading_close c loc False (close_on loc c day) =
    (if trading_day_number day then Some (Inr (close_on loc c day))
     else next_trading_close c loc False (close_on loc c (day + 1)))"
  by (subst next_trading_close.simps)
    (simp add: IsTradingDay_def assms(2) close_on_day [OF assms(1)] trading_day_number_def
      closeFor_close_on add_day_day Let_def)

text \<open>The first trading day from \<open>day\<close> on, at most two days later.\<close>

lemma next_trading_close_first:
  assumes "close_ok c" "cal_location c = Some loc"
  shows "\<exists>k\<in>{0, 1, 2}. next_trading_close c loc False (close_on loc c day) = Some (Inr (close_on loc c (day + k))) \<and>
    trading_day_number (day + k) \<and> (\<forall>j. day \<le> j \<and> j < day + k \<longrightarrow> \<not> trading_day_number j)"
proof -
  note st = next_trading_close_step [OF assms]
  consider "trading_day_number day" | "\<not> trading_day_number day" "trading_day_number (day + 1)"
    | "\<not> trading_day_number day" "\<not> trading_day_number (day + 1)" "trading_day_number (day + 2)"
    using trading_day_soon by blast
  then show ?thesis
  proof cases
    case 1
    then show ?thesis using st [of day] by (intro bexI [of _ 0]) auto
  next
    case 2
    have "j = day" if "day \<le> j" "j < day + 1" for j using that by simp
    then show ?thesis using 2 st [of day] st [of "day + 1"] by (intro bexI [of _ 1]) auto
  next
    case 3
    have "j = day \<or> j = day + 1" if "day \<le> j" "j < day + 2" for j using that by linarith
    then show ?thesis using 3 st [of day] st [of "day + 1"] st [of "day + 2"]
      by (intro bexI [of _ 2]) (auto simp: add.assoc)
  qed
qed

lemma day_expiry:
  assumes "close_ok c" "cal_location c = Some loc"
  obtains day where "ExpiryForDayOrder c False s = Some (Inr (close_on loc c day))"
    "trading_day_number day" "s < close_on loc c day" "local_day loc s \<le> day" "day \<le> local_day loc s + 3"
    "\<And>j. trading_day_number j \<Longrightarrow> s < close_on loc c j \<Longrightarrow> day \<le> j"
proof -
  let ?d = "local_day loc s"
  define start where "start = (if close_on loc c ?d > s then ?d else ?d + 1)"
  obtain k where k: "k \<in> {0, 1, 2}"
    "next_trading_close c loc False (close_on loc c start) = Some (Inr (close_on loc c (start + k)))"
    "trading_day_number (start + k)" "\<forall>j. start \<le> j \<and> j < start + k \<longrightarrow> \<not> trading_day_number j"
    using next_trading_close_first [OF assms, of start] by blast
  have e: "ExpiryForDayOrder c False s = Some (Inr (close_on loc c (start + k)))"
    using k(2) by (auto simp: ExpiryForDayOrder_def assms(2) closeFor_close_on add_day_day start_def Let_def)
  have s: "s < close_on loc c start" using close_on_after [OF assms(1), of s "?d + 1"] by (auto simp: start_def)
  moreover have "close_on loc c start \<le> close_on loc c (start + k)"
    using k(1) close_on_less [OF assms(1), of start "start + k"] by auto
  ultimately have later: "s < close_on loc c (start + k)" by simp
  have first: "start + k \<le> j" if "trading_day_number j" "s < close_on loc c j" for j
  proof -
    have "?d \<le> j"
    proof (rule ccontr)
      assume "\<not> ?d \<le> j"
      then have "close_on loc c j < s" using later_day [of "close_on loc c j" s] close_on_day [OF assms(1)] by simp
      then show False using that(2) by simp
    qed
    then have "start \<le> j" using that(2) by (cases "j = ?d") (auto simp: start_def)
    then show ?thesis using k(4) that(1) by (meson not_le)
  qed
  have "?d \<le> start + k" "start + k \<le> ?d + 3" using k(1) by (auto simp: start_def)
  then show thesis using e k(3) later first by (intro that)
qed

end

text \<open>C38: the day expiry. For a calendar in a zone whose clock changes do not cross midnight, the
  search for a DAY order's expiry returns, and what it returns is the market close of a weekday,
  strictly after the submission, at most three days later, with no weekday close in between.\<close>

theorem day_order_expires_at_next_close:
  assumes "civil_zone loc" "cal_location c = Some loc" "close_ok c"
  shows "\<exists>e day. ExpiryForDayOrder c False s = Some (Inr e) \<and> e = go_date loc day (close_of c) \<and>
    IsTradingDay c e = Inr True \<and> s < e \<and> local_day loc s \<le> day \<and> day \<le> local_day loc s + 3 \<and>
    (\<forall>j. trading_day_number j \<and> s < go_date loc j (close_of c) \<longrightarrow> e \<le> go_date loc j (close_of c))"
proof -
  obtain day where d: "ExpiryForDayOrder c False s = Some (Inr (close_on loc c day))"
    "trading_day_number day" "s < close_on loc c day" "local_day loc s \<le> day"
    "day \<le> local_day loc s + 3"
    "\<And>j. trading_day_number j \<Longrightarrow> s < close_on loc c j \<Longrightarrow> day \<le> j"
    using civil_zone.day_expiry [OF assms(1,3,2)] by blast
  note co = close_on_def
  have "local_day loc (go_date loc day (close_of c)) = day"
    using civil_zone.close_on_day [OF assms(1,3)] by (simp add: co)
  moreover have "go_date loc day (close_of c) \<le> go_date loc j (close_of c)" if "day \<le> j" for j
    using civil_zone.close_on_less [OF assms(1,3), of day j] that by (cases "day = j") (auto simp: co)
  ultimately show ?thesis using d
    by (intro exI [of _ "go_date loc day (close_of c)"] exI [of _ day])
      (auto simp: co IsTradingDay_def assms(2) trading_day_number_def Let_def)
qed

subsection \<open>The expiry repository\<close>

abbreviation "ReasonDaySessionClosed \<equiv> ''DAY_SESSION_CLOSED''"
abbreviation "ReasonGTDReached \<equiv> ''GTD_EXPIRY_REACHED''"

text \<open>\<open>xw_stamp\<close> is the timestamp format of the correlation id; \<open>xb_ExpiredByReason\<close> lists the
  time in force and reason of every expired order, whose counts are the nested map of the code, and
  \<open>xb_LagSeconds\<close> the lags as durations.\<close>

record expiry_repository =
  xw_workerID :: string
  xw_stamp :: "time \<Rightarrow> string"

record DueOrder =
  du_ID :: string
  du_TenantID :: string
  du_TimeInForce :: string
  du_ExpiresAt :: time

record ExpiryBatchResult =
  xb_Processed :: int
  xb_Expired :: int
  xb_Conflicts :: int
  xb_ExpiredByReason :: "(string \<times> string) list"
  xb_LagSeconds :: "duration list"

definition is_due :: "time \<Rightarrow> order_row \<Rightarrow> bool" where
  "is_due now r \<longleftrightarrow> (case t_expires_at r of None \<Rightarrow> False | Some e \<Rightarrow> e \<le> now) \<and>
     t_remaining_quantity r > 0 \<and> is_live (t_status r) \<and>
     t_time_in_force r \<in> {TimeInForceDay, TimeInForceGTD}"

definition due_order :: "order_row \<Rightarrow> DueOrder" where
  "due_order r = \<lparr>du_ID = t_id r, du_TenantID = row_tenant r,
     du_TimeInForce = t_time_in_force r, du_ExpiresAt = coalesce (t_expires_at r) zero_time\<rparr>"

definition due_batch :: "int \<Rightarrow> time \<Rightarrow> db \<Rightarrow> DueOrder list" where
  "due_batch limit now d =
     map due_order (limit_rows limit (sort_key (\<lambda>r. (coalesce (t_expires_at r) 0, t_id r))
       (filter (is_due now) (orders d))))"

definition correlationID :: "expiry_repository \<Rightarrow> string \<Rightarrow> time \<Rightarrow> string" where
  "correlationID x orderID now = ''expiry:'' @ orderID @ '':'' @ xw_stamp x now"

definition expire_row :: "expiry_repository \<Rightarrow> time \<Rightarrow> order_row \<Rightarrow> order_row" where
  "expire_row x now r =
     r\<lparr>t_status := StatusExpired, t_expired_at := Some now,
       t_expiry_reason := Some (if t_time_in_force r = TimeInForceDay then ReasonDaySessionClosed
                                else ReasonGTDReached),
       t_expiry_worker_id := Some (xw_workerID x), t_updated_at := now,
       t_correlation_id := Some (correlationID x (t_id r) now), t_version := t_version r + 1\<rparr>"

text \<open>The RETURNING list of the expiry statement leaves out the risk columns.\<close>

definition scan_expired :: "order_row \<Rightarrow> Order" where
  "scan_expired r = (scan_order r)\<lparr>o_RiskStatus := '''', o_RiskReasonCode := None,
     o_RiskReasonMessage := None, o_RiskEvaluatedAt := None\<rparr>"

definition expiredEvent :: "string \<Rightarrow> time \<Rightarrow> Order \<Rightarrow> string \<Rightarrow> OrderEvent" where
  "expiredEvent i clock order reason =
     empty_event\<lparr>e_EventID := i, e_EventType := ''order.expired'', e_EventVersion := ''1.0'',
       e_TenantID := o_TenantID order, e_OrderID := o_ID order, e_UserID := o_UserID order,
       e_Symbol := o_Symbol order, e_Side := o_Side order, e_OrderType := o_OrderType order,
       e_TimeInForce := o_TimeInForce order, e_Quantity := o_Quantity order,
       e_FilledQuantity := o_FilledQuantity order,
       e_RemainingQuantity := o_RemainingQuantity order, e_Status := Some (o_Status order),
       e_FillPrice := o_FillPrice order, e_AverageFillPrice := o_AverageFillPrice order,
       e_Version := o_Version order, e_ExpiresAt := o_ExpiresAt order,
       e_ExpiredAt := o_ExpiredAt order, e_ExpiryReason := reason,
       e_Source := ''order-expiry-worker'', e_OccurredAt := clock,
       e_CorrelationID := o_CorrelationID order\<rparr>"

datatype expiry_error = ErrNoEligibleOrder | ErrNoReason | ErrExpiryDb repo_error

definition lift_repo :: "repo_error + 'a \<Rightarrow> expiry_error + 'a" where
  "lift_repo r = (case r of Inl e \<Rightarrow> Inl (ErrExpiryDb e) | Inr x \<Rightarrow> Inr x)"

definition expireLockedOrder :: "expiry_repository \<Rightarrow> time \<Rightarrow> string \<Rightarrow> db \<Rightarrow> expiry_error + (Order \<times> db)" where
  "expireLockedOrder x now i d =
     and_then (lift_repo (update_order_returning i (is_due now) (expire_row x now) d)) (\<lambda>(row, d1).
     case row of
       None \<Rightarrow> Inl ErrNoEligibleOrder
     | Some r \<Rightarrow>
         let order = scan_expired r
         in case o_ExpiryReason order of
              None \<Rightarrow> Inl ErrNoReason
            | Some reason \<Rightarrow>
                and_then (lift_repo (record_event now (expiredEvent (new_id d1) now order reason)
                                       (use_id d1))) (\<lambda>d2. Inr (order, d2)))"

text \<open>The body of the loop over the due orders.\<close>

definition count_expired :: "Order \<Rightarrow> ExpiryBatchResult \<Rightarrow> ExpiryBatchResult" where
  "count_expired order b =
     (case o_ExpiryReason order of
        None \<Rightarrow> b
      | Some reason \<Rightarrow>
          b\<lparr>xb_Expired := xb_Expired b + 1,
            xb_ExpiredByReason := xb_ExpiredByReason b @ [(o_TimeInForce order, reason)],
            xb_LagSeconds := xb_LagSeconds b @
              (case (o_ExpiresAt order, o_ExpiredAt order) of
                 (Some e, Some t) \<Rightarrow> [t - e] | _ \<Rightarrow> [])\<rparr>)"

definition expire_one :: "expiry_repository \<Rightarrow> time \<Rightarrow> DueOrder \<Rightarrow> ExpiryBatchResult \<times> db
    \<Rightarrow> expiry_error + (ExpiryBatchResult \<times> db)" where
  "expire_one x now due bd = (case bd of (b, d) \<Rightarrow>
     (case expireLockedOrder x now (du_ID due) d of
        Inl e \<Rightarrow> if e = ErrNoEligibleOrder
                  then Inr (b\<lparr>xb_Conflicts := xb_Conflicts b + 1\<rparr>, d) else Inl e
      | Inr (order, d') \<Rightarrow> Inr (count_expired order b, d')))"

definition ExpireDueBatch :: "expiry_repository \<Rightarrow> int \<Rightarrow> time \<Rightarrow> db
    \<Rightarrow> expiry_error + (ExpiryBatchResult \<times> db)" where
  "ExpireDueBatch x limit now d =
     (let due = due_batch limit now d
      in fold_steps (expire_one x now) due
           (\<lparr>xb_Processed = int (length due), xb_Expired = 0, xb_Conflicts = 0,
             xb_ExpiredByReason = [], xb_LagSeconds = []\<rparr>, d))"

definition DueStats :: "time \<Rightarrow> db \<Rightarrow> int \<times> duration" where
  "DueStats now d =
     (let due = filter (is_due now) (orders d)
      in (int (length due),
          if due = [] then 0
          else now - Min (set (map (\<lambda>r. coalesce (t_expires_at r) 0) due))))"

subsection \<open>The expiry worker\<close>

record ExpiryConfig =
  xc_Enabled :: bool
  xc_BatchSize :: int
  xc_MaxBatchesPerPoll :: nat

record ExpiryStats =
  xs_Running :: bool
  xs_LastPoll :: "time option"
  xs_LastSuccessfulExpiry :: "time option"
  xs_LastError :: bool
  xs_DueOrders :: int
  xs_OldestDueAge :: duration
  xs_TotalProcessedInLastPoll :: int
  xs_ConsecutiveErrors :: int

text \<open>The batches of one poll: processed, expired and conflicts so far; \<open>clock\<close> gives the time of
  each batch, \<open>ctxDone\<close> whether the context is done before it. An error ends the poll; the batches
  committed before it stay committed.\<close>

fun poll_batches :: "expiry_repository \<Rightarrow> ExpiryConfig \<Rightarrow> (nat \<Rightarrow> time) \<Rightarrow> (nat \<Rightarrow> bool) \<Rightarrow> nat \<Rightarrow> nat
    \<Rightarrow> int \<times> int \<times> int \<Rightarrow> db \<Rightarrow> (expiry_error option \<times> (int \<times> int \<times> int) \<times> db)" where
  "poll_batches x cfg clock ctxDone 0 batch acc d = (None, acc, d)"
| "poll_batches x cfg clock ctxDone (Suc left) batch (p, e, c) d =
     (if ctxDone batch then (None, (p, e, c), d)
      else (case ExpireDueBatch x (xc_BatchSize cfg) (clock batch) d of
              Inl err \<Rightarrow> (Some err, (p, e, c), d)
            | Inr (result, d') \<Rightarrow>
                let acc = (p + xb_Processed result, e + xb_Expired result, c + xb_Conflicts result)
                in if xb_Processed result < xc_BatchSize cfg then (None, acc, d')
                   else poll_batches x cfg clock ctxDone left (Suc batch) acc d'))"

definition expiry_poll_error :: "time \<Rightarrow> ExpiryStats \<Rightarrow> ExpiryStats" where
  "expiry_poll_error t s = s\<lparr>xs_LastPoll := Some t, xs_LastError := True,
     xs_ConsecutiveErrors := xs_ConsecutiveErrors s + 1\<rparr>"

definition expiry_poll :: "expiry_repository \<Rightarrow> ExpiryConfig \<Rightarrow> (nat \<Rightarrow> time) \<Rightarrow> (nat \<Rightarrow> bool) \<Rightarrow> time
    \<Rightarrow> ExpiryStats \<Rightarrow> db \<Rightarrow> ExpiryStats \<times> db" where
  "expiry_poll x cfg clock ctxDone now s d =
     (let (due, oldestAge) = DueStats now d
      in case poll_batches x cfg clock ctxDone (xc_MaxBatchesPerPoll cfg) 0 (0, 0, 0) d of
           (Some err, _, d') \<Rightarrow> (expiry_poll_error now s, d')
         | (None, (processed, expired, conflicts), d') \<Rightarrow>
             let s1 = (if expired > 0 then s\<lparr>xs_LastSuccessfulExpiry := Some now\<rparr> else s)
             in (s1\<lparr>xs_LastPoll := Some now, xs_LastError := False, xs_DueOrders := due,
                   xs_OldestDueAge := oldestAge, xs_TotalProcessedInLastPoll := processed,
                   xs_ConsecutiveErrors := 0\<rparr>, d'))"

subsection \<open>What a batch does\<close>

lemma expire_row_simps [simp]:
  "t_id (expire_row x now r) = t_id r" "t_status (expire_row x now r) = StatusExpired"
  "row_tenant (expire_row x now r) = row_tenant r" "\<not> is_due now' (expire_row x now r)"
  "same_identity r (expire_row x now r)" "t_filled_quantity (expire_row x now r) = t_filled_quantity r"
  by (simp_all add: expire_row_def row_tenant_def is_due_def is_live_def same_identity_def)

lemma expired_reason [simp]:
  "o_ExpiryReason (scan_expired (expire_row x now r)) =
     Some (if t_time_in_force r = TimeInForceDay then ReasonDaySessionClosed else ReasonGTDReached)"
  by (simp add: scan_expired_def scan_order_def expire_row_def)

lemma lift_repo_Inr: "lift_repo r = Inr y \<longleftrightarrow> r = Inr y"
  by (simp add: lift_repo_def split: sum.splits)

lemma expireLockedOrder_Inr:
  assumes "expireLockedOrder x now i d = Inr (order, d')"
  obtains r ev where "find_by t_id i (orders d) = Some r" "is_due now r"
    "order = scan_expired (expire_row x now r)" "records d d' [ev]" "e_EventType ev = ''order.expired''"
    "orders d' = upd_where (\<lambda>r. t_id r = i \<and> is_due now r) (expire_row x now) (orders d)"
    "order_executions d' = order_executions d" "same_but_decisions d d'"
proof -
  obtain d1 r reason where
    u: "update_orders (\<lambda>r. t_id r = i \<and> is_due now r) (expire_row x now) d = Inr d1" and
    r: "find_by t_id i (orders d) = Some r" "is_due now r" and
    o: "order = scan_expired (expire_row x now r)" and
    e: "record_event now (expiredEvent (new_id d1) now order reason) (use_id d1) = Inr d'"
    using assms
    by (auto simp: expireLockedOrder_def lift_repo_Inr and_then_Inr update_order_returning_Inr Let_def
        split: option.splits if_splits sum.splits)
  have d1: "d1 = d\<lparr>orders := upd_where (\<lambda>r. t_id r = i \<and> is_due now r) (expire_row x now) (orders d)\<rparr>"
    using u by (simp add: update_orders_Inr)
  have l: "same_logs d (use_id d1)" by (simp add: d1 same_logs_def)
  note re = record_event_Inr [OF e]
  show thesis
  proof (rule that [OF r o])
    show "records d d' [expiredEvent (new_id d1) now order reason]" by (rule records_intro1 [OF l e])
  qed (use re in \<open>simp_all add: d1 tables_but_logs_def same_but_decisions_def expiredEvent_def\<close>)
qed

lemma expire_one_effect:
  assumes "expire_one x now due (b, d) = Inr (b', d')"
  shows "table_effect d d' \<and>
    orders d' = upd_where (\<lambda>r. t_id r = du_ID due \<and> is_due now r) (expire_row x now) (orders d) \<or>
    d' = d \<and> expireLockedOrder x now (du_ID due) d = Inl ErrNoEligibleOrder"
proof (cases "expireLockedOrder x now (du_ID due) d")
  case (Inl e)
  then show ?thesis using assms by (auto simp: expire_one_def split: if_splits)
next
  case (Inr od)
  obtain order d1 where od: "od = (order, d1)" by fastforce
  then have "d1 = d'" using assms Inr by (simp add: expire_one_def)
  with Inr od have e: "expireLockedOrder x now (du_ID due) d = Inr (order, d')" by simp
  show ?thesis
    by (rule expireLockedOrder_Inr [OF e])
      (auto simp: table_effect_def intro!: list_all2_upd_where)
qed

lemma upd_where_cong:
  "(\<And>r. r \<in> set rs \<Longrightarrow> P r = Q r) \<Longrightarrow> upd_where P f rs = upd_where Q f rs"
  by (simp add: upd_where_def)

lemma upd_where_twice:
  assumes "\<And>r. t_id (f r) = t_id r" "i \<notin> I"
  shows "upd_where (\<lambda>r. t_id r \<in> I) f (upd_where (\<lambda>r. t_id r = i) f rs) =
    upd_where (\<lambda>r. t_id r \<in> insert i I) f rs"
  using assms by (induction rs) (auto simp: sql_simps)

lemma expire_one_due:
  assumes "expire_one x now du (b, d) = Inr (b', d')" "distinct (map t_id (orders d))"
    "find_by t_id (du_ID du) (orders d) = Some r" "is_due now r"
  shows "orders d' = upd_where (\<lambda>r. t_id r = du_ID du) (expire_row x now) (orders d) \<and>
    table_effect d d' \<and> xb_Conflicts b' = xb_Conflicts b \<and> xb_Expired b' = xb_Expired b + 1 \<and>
    xb_Processed b' = xb_Processed b"
proof -
  have "expireLockedOrder x now (du_ID du) d \<noteq> Inl ErrNoEligibleOrder"
    using assms(3,4)
    by (auto simp: expireLockedOrder_def update_order_returning_def lift_repo_def and_then_def Let_def
        split: sum.splits option.splits if_splits)
  then obtain od where "expireLockedOrder x now (du_ID du) d = Inr od" "b' = count_expired (fst od) b" "d' = snd od"
    using assms(1) by (auto simp: expire_one_def split: sum.splits if_splits)
  then have e: "expireLockedOrder x now (du_ID du) d = Inr (fst od, d')" and b: "b' = count_expired (fst od) b"
    by simp_all
  show ?thesis
  proof (rule expireLockedOrder_Inr [OF e])
    fix r1 ev
    assume a: "fst od = scan_expired (expire_row x now r1)" "records d d' [ev]"
      "orders d' = upd_where (\<lambda>r. t_id r = du_ID du \<and> is_due now r) (expire_row x now) (orders d)"
      "order_executions d' = order_executions d" "same_but_decisions d d'"
    have "r' = r" if "r' \<in> set (orders d)" "t_id r' = du_ID du" for r'
      using find_by_unique [OF assms(2) that(1)] assms(3) that(2) by simp
    then have "orders d' = upd_where (\<lambda>r. t_id r = du_ID du) (expire_row x now) (orders d)"
      unfolding a(3) using assms(4) by (intro upd_where_cong) auto
    moreover have "table_effect d d'"
      using a(2-5) by (auto simp: table_effect_def intro!: list_all2_upd_where)
    moreover have "xb_Conflicts b' = xb_Conflicts b \<and> xb_Expired b' = xb_Expired b + 1 \<and>
        xb_Processed b' = xb_Processed b"
      unfolding b a(1) count_expired_def by simp
    ultimately show ?thesis by blast
  qed
qed

lemma expire_all_due:
  assumes "fold_steps (expire_one x now) ds (b, d) = Inr (b', d')" "distinct (map du_ID ds)"
    "distinct (map t_id (orders d))"
    "\<forall>du\<in>set ds. \<exists>r. find_by t_id (du_ID du) (orders d) = Some r \<and> is_due now r"
  shows "orders d' = upd_where (\<lambda>r. t_id r \<in> du_ID ` set ds) (expire_row x now) (orders d) \<and>
    table_effect d d' \<and> xb_Conflicts b' = xb_Conflicts b \<and>
    xb_Expired b' = xb_Expired b + int (length ds) \<and> xb_Processed b' = xb_Processed b"
  using assms
proof (induction ds arbitrary: b d)
  case Nil
  then show ?case by (simp add: upd_where_id)
next
  case (Cons du ds)
  obtain b1 d1 where s: "expire_one x now du (b, d) = Inr (b1, d1)"
    "fold_steps (expire_one x now) ds (b1, d1) = Inr (b', d')"
    using Cons.prems(1) by (auto simp: and_then_Inr)
  obtain r where r: "find_by t_id (du_ID du) (orders d) = Some r" "is_due now r" using Cons.prems(4) by auto
  note st = expire_one_due [OF s(1) Cons.prems(3) r]
  let ?f = "expire_row x now"
  have o1: "orders d1 = upd_where (\<lambda>r. t_id r = du_ID du) ?f (orders d)" using st by blast
  have dist: "distinct (map t_id (orders d1))"
    using Cons.prems(3) by (simp add: o1 map_upd_where)
  have due: "\<exists>r. find_by t_id (du_ID du') (orders d1) = Some r \<and> is_due now r" if "du' \<in> set ds" for du'
  proof -
    have ne: "du_ID du' \<noteq> du_ID du" using Cons.prems(2) that by (auto simp: image_iff)
    obtain r' where r': "find_by t_id (du_ID du') (orders d) = Some r'" "is_due now r'"
      using Cons.prems(4) \<open>du' \<in> set ds\<close> by auto
    have "find_by t_id (du_ID du') (orders d1) = Some r'"
      using find_by_Some [OF r'(1)] r'(1) ne by (simp add: o1 find_by_upd_where)
    then show ?thesis using r'(2) by blast
  qed
  note ih = Cons.IH [OF s(2) _ dist]
  have ih': "orders d' = upd_where (\<lambda>r. t_id r \<in> du_ID ` set ds) ?f (orders d1) \<and> table_effect d1 d' \<and>
    xb_Conflicts b' = xb_Conflicts b1 \<and> xb_Expired b' = xb_Expired b1 + int (length ds) \<and>
    xb_Processed b' = xb_Processed b1"
    using Cons.prems(2) due by (intro ih) auto
  have "orders d' = upd_where (\<lambda>r. t_id r \<in> du_ID ` set (du # ds)) ?f (orders d)"
    using ih' Cons.prems(2) upd_where_twice [of ?f "du_ID du" "du_ID ` set ds" "orders d"]
    by (auto simp: o1)
  moreover have "table_effect d d'" using st ih' table_effect_trans by blast
  ultimately show ?case using st ih' by simp
qed

lemma due_batch_row:
  assumes "du \<in> set (due_batch limit now d)"
  shows "\<exists>r\<in>set (orders d). du_ID du = t_id r \<and> is_due now r"
proof -
  let ?rows = "sort_key (\<lambda>r. (coalesce (t_expires_at r) 0, t_id r)) (filter (is_due now) (orders d))"
  have "du \<in> due_order ` set (limit_rows limit ?rows)"
    using assms unfolding due_batch_def list.set_map .
  then obtain r where r: "du = due_order r" "r \<in> set (limit_rows limit ?rows)" by (rule imageE)
  have "r \<in> set ?rows" by (rule set_limit_rows [THEN subsetD, OF r(2)])
  then show ?thesis using r(1) by (intro bexI [of _ r]) (simp_all add: due_order_def)
qed

lemma due_batch_rows:
  assumes "distinct (map t_id (orders d))"
  shows "distinct (map du_ID (due_batch limit now d))"
    and "\<forall>du\<in>set (due_batch limit now d). \<exists>r. find_by t_id (du_ID du) (orders d) = Some r \<and> is_due now r"
proof -
  let ?rows = "sort_key (\<lambda>r. (coalesce (t_expires_at r) 0, t_id r)) (filter (is_due now) (orders d))"
  have ids: "map du_ID (due_batch limit now d) = map t_id (limit_rows limit ?rows)"
    by (simp add: due_batch_def due_order_def comp_def)
  have "distinct (map t_id (filter (is_due now) (orders d)))" using assms by (rule distinct_map_filter)
  then have "distinct (map t_id ?rows)"
    by (simp add: distinct_map)
  then show "distinct (map du_ID (due_batch limit now d))"
    unfolding ids limit_rows_def by (simp add: take_map [symmetric] distinct_take)
  show "\<forall>du\<in>set (due_batch limit now d). \<exists>r. find_by t_id (du_ID du) (orders d) = Some r \<and> is_due now r"
  proof
    fix du assume "du \<in> set (due_batch limit now d)"
    then obtain r where r: "r \<in> set (orders d)" "du_ID du = t_id r" "is_due now r"
      using due_batch_row by blast
    then show "\<exists>r. find_by t_id (du_ID du) (orders d) = Some r \<and> is_due now r"
      using find_by_unique [OF assms r(1)] by metis
  qed
qed

lemma claimed_due:
  assumes "distinct (map t_id (orders d))"
  shows "\<forall>r\<in>set (orders d). t_id r \<in> du_ID ` set (due_batch limit now d) \<longrightarrow> is_due now r"
proof (intro ballI impI)
  fix r assume r: "r \<in> set (orders d)" "t_id r \<in> du_ID ` set (due_batch limit now d)"
  then obtain du where du: "du \<in> set (due_batch limit now d)" "t_id r = du_ID du" by blast
  then obtain r' where "find_by t_id (du_ID du) (orders d) = Some r'" "is_due now r'"
    using due_batch_rows(2) [OF assms] by blast
  then show "is_due now r" using find_by_unique [OF assms r(1)] du(2) by simp
qed

lemma length_due_batch: "0 \<le> limit \<Longrightarrow> int (length (due_batch limit now d)) \<le> limit"
  by (simp add: due_batch_def limit_rows_def)

lemma due_claimed:
  assumes "int (length (due_batch limit now d)) < limit"
  shows "\<forall>r\<in>set (orders d). is_due now r \<longrightarrow> t_id r \<in> du_ID ` set (due_batch limit now d)"
proof -
  let ?rows = "sort_key (\<lambda>r. (coalesce (t_expires_at r) 0, t_id r)) (filter (is_due now) (orders d))"
  have "length ?rows \<le> nat limit"
    using assms by (simp add: due_batch_def limit_rows_def min_def split: if_splits)
  then have "limit_rows limit ?rows = ?rows" by (simp add: limit_rows_def)
  then have "map du_ID (due_batch limit now d) = map t_id ?rows"
    by (simp add: due_batch_def due_order_def comp_def)
  then have "du_ID ` set (due_batch limit now d) = t_id ` set ?rows" by (metis list.set_map)
  then show ?thesis by auto
qed

text \<open>an expiry batch. It expires exactly the due orders it claims, at most \<open>limit\<close> of them: those
  rows become expired with the reason of their time in force, every other row is as before, the
  events and the outbox move together, and there are no conflicts. When the limit is not reached no
  due order is left.\<close>

theorem expiry_batch_exact:
  assumes "ExpireDueBatch x limit now d = Inr (b, d')" "distinct (map t_id (orders d))" "0 \<le> limit"
  shows "\<exists>ids. orders d' = upd_where (\<lambda>r. t_id r \<in> ids) (expire_row x now) (orders d) \<and>
    (\<forall>r\<in>set (orders d). t_id r \<in> ids \<longrightarrow> is_due now r) \<and>
    int (card ids) = xb_Processed b \<and> xb_Expired b = xb_Processed b \<and> xb_Conflicts b = 0 \<and>
    xb_Processed b \<le> limit \<and>
    (xb_Processed b < limit \<longrightarrow> (\<forall>r\<in>set (orders d'). \<not> is_due now r)) \<and>
    (outbox_in_step d \<longrightarrow> outbox_in_step d')"
proof -
  let ?due = "due_batch limit now d"
  define ids where "ids = du_ID ` set ?due"
  let ?b0 = "\<lparr>xb_Processed = int (length ?due), xb_Expired = 0, xb_Conflicts = 0,
             xb_ExpiredByReason = [], xb_LagSeconds = []\<rparr>"
  have f: "fold_steps (expire_one x now) ?due (?b0, d) = Inr (b, d')"
    using assms(1) by (simp add: ExpireDueBatch_def Let_def)
  note r = due_batch_rows [OF assms(2), of limit now]
  note e = expire_all_due [OF f r(1) assms(2) r(2), folded ids_def]
  have o': "orders d' = upd_where (\<lambda>r. t_id r \<in> ids) (expire_row x now) (orders d)" using e by blast
  have due: "\<forall>r\<in>set (orders d). t_id r \<in> ids \<longrightarrow> is_due now r"
    unfolding ids_def by (rule claimed_due [OF assms(2)])
  have len: "int (length ?due) \<le> limit" by (rule length_due_batch [OF assms(3)])
  have none: "\<forall>r\<in>set (orders d'). \<not> is_due now r" if "int (length ?due) < limit"
    using due_claimed [OF that] unfolding o' ids_def by (auto elim!: in_upd_whereE)
  have card: "card ids = length ?due"
    unfolding ids_def using r(1) by (metis distinct_card length_map list.set_map)
  have in_step: "outbox_in_step d \<longrightarrow> outbox_in_step d'"
    using e unfolding table_effect_def records_def by blast
  have b: "xb_Processed b = int (length ?due)" "xb_Expired b = int (length ?due)" "xb_Conflicts b = 0"
    using e by simp_all
  show ?thesis
    unfolding b by (rule exI [of _ ids]) (use o' due len none card in_step in simp)
qed

subsection \<open>Concrete cases\<close>

definition ex_calendar :: WeekdayTradingCalendar where
  "ex_calendar = \<lparr>cal_location = Some (\<lambda>_. - 5 * 3600 * Second), cal_closeHour = 16, cal_closeMin = 0\<rparr>"

text \<open>Friday 2 January 1970, 16:00 in New York: the DAY order expires on Monday.\<close>

lemma day_order_expires_at_next_close_witness:
  "\<exists>e. ExpiryForDayOrder ex_calendar False (day_ns + 21 * 3600 * Second) = Some (Inr e) \<and>
     day_ns + 21 * 3600 * Second < e \<and> IsTradingDay ex_calendar e = Inr True"
  using day_order_expires_at_next_close [OF fixed_zone.civil_zone_axioms, of ex_calendar "- 5 * 3600 * Second"]
  by (fastforce simp: ex_calendar_def close_ok_def)

definition ex_expiring :: db where
  "ex_expiring = empty_db\<lparr>orders := [order_row_of ''o-1'' 0 (ex_order\<lparr>o_TimeInForce := TimeInForceGTD,
     o_ExpiresAt := Some 50, o_RiskStatus := ''APPROVED''\<rparr>)]\<rparr>"

lemma expiry_batch_exact_witness:
  "\<exists>b d'. ExpireDueBatch \<lparr>xw_workerID = ''w'', xw_stamp = (\<lambda>t. '''')\<rparr> 5 60 ex_expiring = Inr (b, d') \<and>
     xb_Conflicts b = 0 \<and> filter (is_due 60) (orders d') = []"
proof -
  let ?x = "\<lparr>xw_workerID = ''w'', xw_stamp = (\<lambda>t. '''')\<rparr> :: expiry_repository"
  have "case ExpireDueBatch ?x 5 60 ex_expiring of Inl e \<Rightarrow> False | Inr (b, d') \<Rightarrow> xb_Processed b < 5"
    by code_simp
  then obtain b d' where r: "ExpireDueBatch ?x 5 60 ex_expiring = Inr (b, d')" "xb_Processed b < 5"
    by (auto split: sum.splits)
  have "distinct (map t_id (orders ex_expiring))" by (simp add: ex_expiring_def)
  from expiry_batch_exact [OF r(1) this] r(2) have "xb_Conflicts b = 0" "filter (is_due 60) (orders d') = []"
    by (auto simp: filter_empty_conv)
  with r(1) show ?thesis by blast
qed


subsection \<open>The calendar the service is built with\<close>

text \<open>\<open>time.Parse("15:04", s)\<close>: an hour of one or two digits, a colon, a minute of two digits and
  nothing after it.\<close>

definition is_digit :: "char \<Rightarrow> bool" where
  "is_digit c = (let n = of_char c :: nat in 48 \<le> n \<and> n \<le> 57)"

definition digit :: "char \<Rightarrow> int" where
  "digit c = of_char c - 48"

fun getnum :: "string \<Rightarrow> bool \<Rightarrow> (int \<times> string) option" where
  "getnum [] fixed = None"
| "getnum [a] fixed = (if \<not> is_digit a \<or> fixed then None else Some (digit a, []))"
| "getnum (a # b # rest) fixed =
     (if \<not> is_digit a then None
      else if \<not> is_digit b then (if fixed then None else Some (digit a, b # rest))
      else Some (digit a * 10 + digit b, rest))"

definition parse_clock :: "string \<Rightarrow> (int \<times> int) option" where
  "parse_clock s =
     (case getnum s False of
        None \<Rightarrow> None
      | Some (hour, rest) \<Rightarrow>
          if hour < 0 \<or> 24 \<le> hour then None
          else (case rest of
                  [] \<Rightarrow> None
                | c # rest' \<Rightarrow>
                    if c \<noteq> CHR '':'' then None
                    else (case getnum rest' True of
                            None \<Rightarrow> None
                          | Some (minute, rest'') \<Rightarrow>
                              if minute < 0 \<or> 60 \<le> minute \<or> rest'' \<noteq> [] then None
                              else Some (hour, minute))))"

text \<open>\<open>loadLocation\<close> is the time zone database.\<close>

definition NewWeekdayTradingCalendar ::
    "(string \<Rightarrow> location option) \<Rightarrow> string \<Rightarrow> string \<Rightarrow> WeekdayTradingCalendar option" where
  "NewWeekdayTradingCalendar loadLocation timezone closeTime =
     (case loadLocation timezone of
        None \<Rightarrow> None
      | Some loc \<Rightarrow>
          (case parse_clock closeTime of
             None \<Rightarrow> None
           | Some (hour, minute) \<Rightarrow>
               Some \<lparr>cal_location = Some loc, cal_closeHour = hour, cal_closeMin = minute\<rparr>))"

lemma parse_clock_ok:
  assumes "parse_clock s = Some (h, m)" shows "0 \<le> h \<and> h < 24 \<and> 0 \<le> m \<and> m < 60"
proof (cases "getnum s False")
  case None
  then show ?thesis using assms by (simp add: parse_clock_def)
next
  case (Some hr)
  obtain h1 rest where hr: "hr = (h1, rest)" by fastforce
  show ?thesis
  proof (cases rest)
    case Nil
    then show ?thesis using assms Some hr by (simp add: parse_clock_def split: if_splits)
  next
    case (Cons c rest')
    show ?thesis
      using assms Some hr Cons
      by (cases "getnum rest' True") (auto simp: parse_clock_def split: if_splits)
  qed
qed

lemma new_calendar:
  assumes "NewWeekdayTradingCalendar load tz s = Some c"
  shows "close_ok c \<and> (\<exists>loc. load tz = Some loc \<and> cal_location c = Some loc)"
proof -
  obtain loc h m where "load tz = Some loc" "parse_clock s = Some (h, m)"
    "c = \<lparr>cal_location = Some loc, cal_closeHour = h, cal_closeMin = m\<rparr>"
    using assms by (auto simp: NewWeekdayTradingCalendar_def split: option.splits)
  then show ?thesis using parse_clock_ok [of s h m] by (simp add: close_ok_def)
qed

text \<open>What the service sees of a calendar: the expiry, or an error.\<close>

definition calendar_expiry :: "WeekdayTradingCalendar option \<Rightarrow> time \<Rightarrow> time option" where
  "calendar_expiry c s =
     (case c of None \<Rightarrow> None
      | Some c \<Rightarrow> (case ExpiryForDayOrder c False s of Some (Inr e) \<Rightarrow> Some e | _ \<Rightarrow> None))"

definition calendar_trades :: "WeekdayTradingCalendar option \<Rightarrow> time \<Rightarrow> bool" where
  "calendar_trades c t = (case c of None \<Rightarrow> False | Some c \<Rightarrow> IsTradingDay c t = Inr True)"

lemma calendar_expiry_Some:
  assumes "civil_zone loc" "load tz = Some loc"
    "calendar_expiry (NewWeekdayTradingCalendar load tz closeTime) s = Some e"
  shows "s < e \<and> calendar_trades (NewWeekdayTradingCalendar load tz closeTime) e"
proof -
  obtain c where c: "NewWeekdayTradingCalendar load tz closeTime = Some c"
    using assms(3) by (auto simp: calendar_expiry_def split: option.splits)
  have ok: "close_ok c" "cal_location c = Some loc" using new_calendar [OF c] assms(2) by auto
  obtain day where d: "ExpiryForDayOrder c False s = Some (Inr (close_on loc c day))"
    "trading_day_number day" "s < close_on loc c day"
    using civil_zone.day_expiry [OF assms(1) ok] by blast
  have "e = close_on loc c day" using assms(3) d(1) by (simp add: calendar_expiry_def c)
  moreover have "IsTradingDay c (close_on loc c day) = Inr True"
    using d(2) civil_zone.close_on_day [OF assms(1) ok(1)]
    by (simp add: IsTradingDay_def ok(2) trading_day_number_def Let_def)
  ultimately show ?thesis using d(3) by (simp add: calendar_trades_def c)
qed

text \<open>Calendars in a zone of fixed offset, for every closing time.\<close>

interpretation weekday_calendar: trading_calendar
  "calendar_expiry (NewWeekdayTradingCalendar (\<lambda>_. Some (\<lambda>_. off)) timezone closeTime)"
  "calendar_trades (NewWeekdayTradingCalendar (\<lambda>_. Some (\<lambda>_. off)) timezone closeTime)"
  for off timezone closeTime
proof
  fix s e
  assume "calendar_expiry (NewWeekdayTradingCalendar (\<lambda>_. Some (\<lambda>_. off)) timezone closeTime) s = Some e"
  note e = calendar_expiry_Some [OF fixed_zone.civil_zone_axioms refl this]
  show "s < e" by (rule e [THEN conjunct1])
  show "calendar_trades (NewWeekdayTradingCalendar (\<lambda>_. Some (\<lambda>_. off)) timezone closeTime) e"
    by (rule e [THEN conjunct2])
qed

end
