(* ===== verification/OrderLedger.thy ===== *)
theory OrderLedger
  imports OrderExpiry
begin

text \<open>
  The filled quantity of an order against the executions table, across every transaction of the
  order service. A match is decomposed into what it does to each row: \<open>matchAcceptedOrder_Inr\<close>
  gives the executions inserted and the orders persisted, \<open>persist_rows\<close> what the row UPDATEs
  leave, \<open>match_row\<close> the outcome for one row. For orders in whole shares, where no float64
  rounding happens, the ledger invariant says that the filled quantity of every order is the sum
  of the executions that name it.
\<close>

subsection \<open>What a match writes\<close>

lemma load_changed_Inr:
  "load_changed now T ms d = Inr (os, evs, d') \<Longrightarrow>
   list_all2 (\<lambda>m ch. \<exists>ro. GetOrder T (m_ID m) d = Inr ro \<and>
     ch = updateOrderLifecycleFromFill now (ApplyToDomain m ro) m False) ms os"
proof (induction ms arbitrary: d os evs d')
  case Nil
  then show ?case by simp
next
  case (Cons m ms)
  from Cons.prems obtain ro os' evs' where
    ro: "loadOrderForUpdate T (m_ID m) d = Inr ro" and
    rest: "load_changed now T ms (use_id d) = Inr (os', evs', d')" and
    os: "os = updateOrderLifecycleFromFill now (ApplyToDomain m ro) m False # os'"
    by (auto simp: and_then_Inr Let_def)
  have "GetOrder T i (use_id d) = GetOrder T i d" for i by (simp add: GetOrder_def find_order_def)
  then show ?case using Cons.IH [OF rest] ro os by (auto simp: loadOrderForUpdate_def)
qed

lemma insert_executions_Inr:
  "insert_executions now order xs d = Inr (evs, d') \<Longrightarrow>
   \<exists>rows. order_executions d' = order_executions d @ rows \<and>
     list_all2 (\<lambda>x row. \<exists>i. row = execution_row_of (o_TenantID order) (o_CorrelationID order)
       (x\<lparr>x_ID := i\<rparr>)) xs rows \<and>
     (\<forall>row\<in>set rows. {er_buy_order_id row, er_sell_order_id row} \<subseteq> t_id ` set (orders d))"
proof (induction xs arbitrary: d evs d')
  case Nil
  then show ?case by simp
next
  case (Cons x xs)
  define x1 where "x1 = (if x_ID x = [] then x\<lparr>x_ID := new_id d\<rparr> else x)"
  let ?row = "execution_row_of (o_TenantID order) (o_CorrelationID order)"
  from Cons.prems obtain d1 evs' where
    ins: "insertExecution (o_TenantID order) (o_CorrelationID order) x1 (use_id d) = Inr d1" and
    rest: "insert_executions now order xs (use_id d1) = Inr (evs', d')"
    by (auto simp: and_then_Inr Let_def x1_def)
  have d1: "d1 = (use_id d)\<lparr>order_executions := order_executions d @ [?row x1]\<rparr>"
    "{er_buy_order_id (?row x1), er_sell_order_id (?row x1)} \<subseteq> t_id ` set (orders d)"
    using ins by (auto simp: insertExecution_def Let_def split: if_splits)
  obtain i where x1: "x1 = x\<lparr>x_ID := i\<rparr>"
    by (cases "x_ID x = []") (auto simp: x1_def intro: that [of "x_ID x"])
  from Cons.IH [OF rest] obtain rows where rows:
    "order_executions d' = order_executions d @ ?row x1 # rows"
    "list_all2 (\<lambda>x row. \<exists>i. row = ?row (x\<lparr>x_ID := i\<rparr>)) xs rows"
    "\<forall>row\<in>set rows. {er_buy_order_id row, er_sell_order_id row} \<subseteq> t_id ` set (orders d)"
    by (auto simp: d1)
  show ?case
    by (rule exI [of _ "?row x1 # rows"]) (use rows d1(2) x1 in auto)
qed

lemma matchAcceptedOrder_Inr:
  assumes "matchAcceptedOrder now order d = Inr (order', evs, d')"
  obtains r os rows d2 where
    "Match (FromDomain order) (loadRestingOrders d order) now = Some r"
    "order' = updateOrderLifecycleFromFill now (ApplyToDomain (r_Incoming r) order) (r_Incoming r) (r_Cancelled r)"
    "list_all2 (\<lambda>m ch. \<exists>ro. GetOrder (o_TenantID order) (m_ID m) d = Inr ro \<and>
       ch = updateOrderLifecycleFromFill now (ApplyToDomain m ro) m False) (r_Resting r) os"
    "list_all2 (\<lambda>x row. \<exists>i. row = execution_row_of (o_TenantID order) (o_CorrelationID order) (x\<lparr>x_ID := i\<rparr>))
       (r_Executions r) rows"
    "\<forall>row\<in>set rows. {er_buy_order_id row, er_sell_order_id row} \<subseteq> t_id ` set (orders d)"
    "orders d2 = orders d" "order_executions d2 = order_executions d @ rows"
    "fold_steps (persistOrderState now)
       (os @ (if r_Executions r \<noteq> [] \<or> r_Cancelled r then [order'] else [])) d2 = Inr d'"
proof -
  obtain r where r: "Match (FromDomain order) (loadRestingOrders d order) now = Some r"
    using assms by (auto simp: matchAcceptedOrder_def split: option.splits)
  let ?o = "updateOrderLifecycleFromFill now (ApplyToDomain (r_Incoming r) order) (r_Incoming r) (r_Cancelled r)"
  obtain os evs1 d1 evs2 d2 d3 where
    l: "load_changed now (o_TenantID ?o) (r_Resting r) (use_id d) = Inr (os, evs1, d1)" and
    x: "insert_executions now ?o (r_Executions r) d1 = Inr (evs2, d2)" and
    p: "fold_steps (persistOrderState now) os d2 = Inr d3" and
    last: "(if r_Executions r \<noteq> [] \<or> r_Cancelled r then persistOrderState now ?o d3 = Inr d' else d' = d3)"
      "order' = ?o"
    using assms r by (auto simp: matchAcceptedOrder_def Let_def and_then_Inr split: if_splits)
  note fl = load_changed_frame [OF l] and fx = insert_executions_frame [OF x]
  obtain rows where rows: "order_executions d2 = order_executions d @ rows"
    "list_all2 (\<lambda>x row. \<exists>i. row = execution_row_of (o_TenantID order) (o_CorrelationID order)
       (x\<lparr>x_ID := i\<rparr>)) (r_Executions r) rows"
    "\<forall>row\<in>set rows. {er_buy_order_id row, er_sell_order_id row} \<subseteq> t_id ` set (orders d)"
    using insert_executions_Inr [OF x] fl by auto
  have lc: "list_all2 (\<lambda>m ch. \<exists>ro. GetOrder (o_TenantID order) (m_ID m) d = Inr ro \<and>
       ch = updateOrderLifecycleFromFill now (ApplyToDomain m ro) m False) (r_Resting r) os"
    using load_changed_Inr [OF l] by (simp add: GetOrder_def find_order_def)
  have pe: "fold_steps (persistOrderState now)
       (os @ (if r_Executions r \<noteq> [] \<or> r_Cancelled r then [order'] else [])) d2 = Inr d'"
    using p last by (auto simp: fold_steps_append and_then_Inr split: if_splits)
  have od: "orders d2 = orders d" using fl fx by simp
  show thesis by (rule that [OF r last(2) lc rows(2,3) od rows(1) pe])
qed

subsection \<open>Persisting a list of orders\<close>

lemma set_order_state_executions:
  "order_executions d1 = order_executions d2 \<Longrightarrow> set_order_state now d1 = set_order_state now d2"
  by (intro ext) (simp add: set_order_state_def avg_execution_price_def)

lemma set_order_state_key [simp]:
  "t_id (set_order_state now d ch r) = t_id r" "row_tenant (set_order_state now d ch r) = row_tenant r"
  "t_filled_quantity (set_order_state now d ch r) = shortest (o_FilledQuantity ch)"
  "t_remaining_quantity (set_order_state now d ch r) = shortest (o_RemainingQuantity ch)"
  "t_quantity (set_order_state now d ch r) = t_quantity r"
  "t_status (set_order_state now d ch r) = o_Status ch"
  "t_side (set_order_state now d ch r) = t_side r" "t_symbol (set_order_state now d ch r) = t_symbol r"
  "t_order_type (set_order_state now d ch r) = t_order_type r"
  "t_triggered_at (set_order_state now d ch r) = t_triggered_at r"
  "t_stop_price (set_order_state now d ch r) = t_stop_price r"
  by (simp_all add: set_order_state_def row_tenant_def Let_def)

definition persisted :: "time \<Rightarrow> db \<Rightarrow> Order list \<Rightarrow> order_row \<Rightarrow> order_row" where
  "persisted now d os r =
     (case find_by o_ID (t_id r) os of
        None \<Rightarrow> r
      | Some ch \<Rightarrow> if row_tenant r = o_TenantID ch then set_order_state now d ch r else r)"

lemma persist_rows:
  assumes "fold_steps (persistOrderState now) os d = Inr d'" "distinct (map o_ID os)"
  shows "orders d' = map (persisted now d os) (orders d) \<and> order_executions d' = order_executions d"
  using assms
proof (induction os arbitrary: d)
  case Nil
  then show ?case by (simp add: persisted_def sql_simps)
next
  case (Cons ch os)
  obtain d1 where d1: "persistOrderState now ch d = Inr d1" "fold_steps (persistOrderState now) os d1 = Inr d'"
    using Cons.prems(1) by (auto simp: and_then_Inr)
  have o1: "orders d1 = upd_where (\<lambda>r. t_id r = o_ID ch \<and> row_tenant r = o_TenantID ch) (set_order_state now d ch) (orders d)"
    and x1: "order_executions d1 = order_executions d"
    using d1(1) by (simp_all add: persistOrderState_def update_orders_Inr)
  have new: "find_by o_ID (o_ID ch) os = None" using Cons.prems(2) by (simp add: find_by_None_iff)
  have "persisted now d1 os (if t_id r = o_ID ch \<and> row_tenant r = o_TenantID ch then set_order_state now d ch r else r)
      = persisted now d (ch # os) r" for r
    unfolding persisted_def set_order_state_executions [OF x1] using new by (auto simp: sql_simps)
  then show ?case using Cons.IH [OF d1(2)] Cons.prems(2) by (simp add: o1 x1 upd_where_def comp_def)
qed

text \<open>The persisted order of a changed resting order.\<close>

lemma find_by_changed:
  assumes "list_all2 P ms os" "\<And>m ch. P m ch \<Longrightarrow> o_ID ch = m_ID m"
  shows "case find_by m_ID i ms of None \<Rightarrow> find_by o_ID i os = None
    | Some m \<Rightarrow> \<exists>ch. find_by o_ID i os = Some ch \<and> P m ch"
  using assms(1)
proof (induction rule: list_all2_induct)
  case Nil
  then show ?case by (simp add: sql_simps)
next
  case (Cons m ms ch os)
  then show ?case using assms(2) [of m ch] by (auto simp: sql_simps split: option.splits)
qed

lemma map_ids_changed:
  "list_all2 P ms os \<Longrightarrow> (\<And>m ch. P m ch \<Longrightarrow> o_ID ch = m_ID m) \<Longrightarrow> map o_ID os = map m_ID ms"
  by (induction rule: list_all2_induct) auto


subsection \<open>Whole shares\<close>

definition whole :: "rat \<Rightarrow> bool" where
  "whole x \<longleftrightarrow> x \<in> \<int> \<and> 0 \<le> x \<and> x < 2 ^ 53"

lemma whole_int: assumes "whole x" obtains n where "x = of_int n" "0 \<le> n" "n < 2 ^ 53"
proof -
  obtain n where n: "x = of_int n" using assms by (auto simp: whole_def elim: Ints_cases)
  have "(of_int n :: rat) < of_int (2 ^ 53)" using assms n by (simp add: whole_def)
  then show thesis using that [OF n] assms n by (simp add: whole_def)
qed

lemma whole_exact [simp]:
  assumes "whole x" shows "shortest x = x" "fl64 x = x" "RatString x = x"
proof -
  obtain n where n: "x = of_int n" "0 \<le> n" "n < 2 ^ 53" using assms by (rule whole_int)
  show "shortest x = x" using shortest_int n by simp
  show "fl64 x = x" using is_f64_int [of n] n by (simp add: is_f64_def)
  show "RatString x = x" by (simp add: RatString_def n(1))
qed

lemma whole_zero [simp]: "whole 0"
  by (simp add: whole_def)

lemma whole_add: "whole x \<Longrightarrow> whole y \<Longrightarrow> x + y \<le> q \<Longrightarrow> whole q \<Longrightarrow> whole (x + y)"
  by (auto simp: whole_def)

lemma whole_diff: "whole x \<Longrightarrow> whole y \<Longrightarrow> y \<le> x \<Longrightarrow> whole (x - y)"
  by (auto simp: whole_def)

lemma whole_below: "x \<in> \<int> \<Longrightarrow> 0 \<le> x \<Longrightarrow> x \<le> y \<Longrightarrow> whole y \<Longrightarrow> whole x"
  by (auto simp: whole_def)

lemma match_loop_whole:
  "match_loop now cs inc = (inc', ms, xs) \<Longrightarrow> m_RemainingQuantity inc \<in> \<int> \<Longrightarrow>
   \<forall>c\<in>set cs. m_RemainingQuantity c \<in> \<int> \<Longrightarrow> \<forall>x\<in>set xs. x_Quantity x \<in> \<int>"
proof (induction now cs inc arbitrary: inc' ms xs rule: match_loop.induct)
  case (1 now incoming)
  then show ?case by simp
next
  case (2 now maker candidates incoming)
  have "minRat (m_RemainingQuantity incoming) (m_RemainingQuantity maker) \<in> \<int>"
    using "2.prems"(2,3) by (simp add: minRat_def)
  with 2 show ?case by (auto simp: Let_def split: if_splits option.splits prod.splits)
qed

text \<open>What a match does to the orders on its two sides: \<open>q i\<close> is what order \<open>i\<close> of the book gives.\<close>

definition taken :: "string \<Rightarrow> Execution list \<Rightarrow> MatchOrder list \<Rightarrow> rat" where
  "taken i xs cs = sum_list (map2 (\<lambda>x c. if m_ID c = i then x_Quantity x else 0) xs cs)"

lemma taken_simps [simp]:
  "taken i [] cs = 0"
  "taken i (x # xs) (c # cs) = (if m_ID c = i then x_Quantity x else 0) + taken i xs cs"
  by (simp_all add: taken_def)

lemma taken_absent: "i \<notin> m_ID ` set cs \<Longrightarrow> taken i xs cs = 0"
  by (induction xs cs rule: list_induct2') (auto simp: taken_def)

lemma find_by_taken:
  assumes "length xs = length cs" "distinct (map m_ID cs)"
  shows "case find_by m_ID i (map2 (\<lambda>x c. fill_order (x_Quantity x) c) xs cs) of
      None \<Rightarrow> taken i xs cs = 0
    | Some m \<Rightarrow> \<exists>c\<in>set cs. m_ID c = i \<and> m = fill_order (taken i xs cs) c"
  using assms
proof (induction xs cs rule: list_induct2)
  case Nil
  then show ?case by (simp add: sql_simps)
next
  case (Cons x xs c cs)
  show ?case
  proof (cases "m_ID c = i")
    case True
    then have "taken i xs cs = 0" using Cons.prems by (intro taken_absent) auto
    then show ?thesis using True by (simp add: sql_simps)
  next
    case False
    have "case find_by m_ID i (map2 (\<lambda>x c. fill_order (x_Quantity x) c) xs cs) of
        None \<Rightarrow> taken i xs cs = 0 | Some m \<Rightarrow> \<exists>c\<in>set cs. m_ID c = i \<and> m = fill_order (taken i xs cs) c"
      using Cons by simp
    then show ?thesis using False by (auto simp: sql_simps split: option.splits)
  qed
qed

lemma map_fill_ids:
  "length xs = length cs \<Longrightarrow> map m_ID (map2 (\<lambda>x c. fill_order (x_Quantity x) c) xs cs) = map m_ID cs"
  by (induction xs cs rule: list_induct2) simp_all

lemma fill_order_zero [simp]: "fill_order 0 x = x"
  by (simp add: fill_order_def)

lemma Match_shape:
  assumes "Match inc resting now = Some r" "m_RemainingQuantity inc \<in> \<int>" "0 \<le> m_RemainingQuantity inc"
    "\<forall>c\<in>set resting. m_RemainingQuantity c \<in> \<int> \<and> 0 \<le> m_RemainingQuantity c"
    "distinct (map m_ID resting)"
  obtains makers where "length makers = length (r_Executions r)" "set makers \<subseteq> set (filter (opposite inc) resting)"
    "distinct (map m_ID makers)" "list_all2 (trade_of inc now) (r_Executions r) makers"
    "r_Incoming r = fill_order (traded (r_Executions r)) (with_tif inc)"
    "\<forall>x\<in>set (r_Executions r). x_Quantity x \<in> \<int> \<and> 0 < x_Quantity x"
    "0 \<le> m_RemainingQuantity (r_Incoming r)" "\<forall>m\<in>set (r_Resting r). 0 \<le> m_RemainingQuantity m"
    "distinct (map m_ID (r_Resting r))" "set (map m_ID (r_Resting r)) \<subseteq> set (map m_ID resting)"
    "\<forall>i. case find_by m_ID i (r_Resting r) of None \<Rightarrow> taken i (r_Executions r) makers = 0
      | Some m \<Rightarrow> \<exists>c\<in>set resting. m_ID c = i \<and> m = fill_order (taken i (r_Executions r) makers) c"
  using assms(1)
proof (cases rule: Match_cases)
  case killed
  have "case find_by m_ID i (r_Resting r) of None \<Rightarrow> taken i (r_Executions r) [] = 0
      | Some m \<Rightarrow> \<exists>c\<in>set resting. m_ID c = i \<and> m = fill_order (taken i (r_Executions r) []) c" for i
    unfolding killed(3) using find_by_Some [of m_ID i resting] by (auto split: option.splits)
  note shape = this
  show thesis
  proof (rule that [of "[]"])
    show "\<forall>i. case find_by m_ID i (r_Resting r) of None \<Rightarrow> taken i (r_Executions r) [] = 0
      | Some m \<Rightarrow> \<exists>c\<in>set resting. m_ID c = i \<and> m = fill_order (taken i (r_Executions r) []) c"
      by (rule allI) (rule shape)
    show "\<forall>m\<in>set (r_Resting r). 0 \<le> m_RemainingQuantity m" using assms(4) by (simp add: killed(3))
    show "distinct (map m_ID (r_Resting r))" using assms(5) by (simp add: killed(3))
  qed (use assms(3) in \<open>simp_all add: killed(3)\<close>)
next
  case (matched inc' ms xs)
  define mk where "mk = take (length xs) (nonempty (candidates_of inc resting))"
  let ?cs = "candidates_of inc resting"
  have nn: "0 \<le> m_RemainingQuantity (with_tif inc)" "m_RemainingQuantity (with_tif inc) \<in> \<int>"
    using assms(2,3) by simp_all
  note lm = match_loop_makers [OF matched(3) nn(1), folded mk_def]
  have cs: "\<forall>c\<in>set ?cs. m_RemainingQuantity c \<in> \<int>" "\<forall>c\<in>set ?cs. 0 \<le> m_RemainingQuantity c"
    using assms(4) by (auto simp: set_candidates_of)
  have len: "length mk = length xs" using lm(1) by (simp add: mk_def)
  have sub: "set mk \<subseteq> set (filter (opposite inc) resting)"
    using set_take_subset [of "length xs" "nonempty ?cs"] by (auto simp: set_candidates_of mk_def)
  have df: "distinct (map m_ID (filter (\<lambda>c. (m_Side c = SideBuy) \<noteq> (m_Side inc = SideBuy)) resting))"
    using assms(5) by (rule distinct_map_filter)
  have "mset (map m_ID ?cs) =
      mset (map m_ID (filter (\<lambda>c. (m_Side c = SideBuy) \<noteq> (m_Side inc = SideBuy)) resting))"
    unfolding mset_map mset_candidates_of ..
  from mset_eq_imp_distinct_iff [OF this] df have "distinct (map m_ID ?cs)" by blast
  then have "distinct (map m_ID (nonempty ?cs))" by (rule distinct_map_filter)
  then have dist: "distinct (map m_ID mk)" unfolding mk_def take_map [symmetric] by (rule distinct_take)
  have ids: "map m_ID ms = map m_ID mk"
    unfolding lm(2) by (rule map_fill_ids [OF len [symmetric]])
  have "case find_by m_ID i ms of None \<Rightarrow> taken i xs mk = 0
      | Some m \<Rightarrow> \<exists>c\<in>set resting. m_ID c = i \<and> m = fill_order (taken i xs mk) c" for i
    proof (cases "find_by m_ID i ms")
    case None
    then show ?thesis using find_by_taken [OF len [symmetric] dist, of i, folded lm(2)] by simp
  next
    case (Some m)
    then obtain c where "c \<in> set mk" "m_ID c = i" "m = fill_order (taken i xs mk) c"
      using find_by_taken [OF len [symmetric] dist, of i, folded lm(2)] by auto
    then show ?thesis unfolding Some option.case using sub by (intro bexI [of _ c]) auto
  qed
  note res = allI [OF this]
  have whole: "\<forall>x\<in>set xs. x_Quantity x \<in> \<int>" by (rule match_loop_whole [OF matched(3) nn(2) cs(1)])
  note bd = match_loop_bounds [OF matched(3) nn(1) cs(2)]
  have tr: "list_all2 (trade_of inc now) xs mk" using lm(3) by (rule list_all2_mono) simp
  have "set (map m_ID ms) \<subseteq> set (map m_ID resting)" unfolding ids using sub by auto
  note sub' = this
  have rs: "r_Incoming r = inc'" "r_Resting r = ms" "r_Executions r = xs" by (simp_all add: matched(4))
  show thesis
  proof (rule that [of mk, unfolded rs, OF len sub dist tr _ _ _ _ _ sub' res])
    show "inc' = fill_order (traded xs) (with_tif inc)" by (rule match_loop_incoming [OF matched(3)])
    show "\<forall>x\<in>set xs. x_Quantity x \<in> \<int> \<and> 0 < x_Quantity x" using whole bd by simp
    show "0 \<le> m_RemainingQuantity inc'" using bd by simp
    show "\<forall>m\<in>set ms. 0 \<le> m_RemainingQuantity m" using bd by simp
    show "distinct (map m_ID ms)" unfolding ids by (rule dist)
  qed
qed


lemma executed_rows:
  assumes "list_all2 (trade_of inc now) xs makers"
    "list_all2 (\<lambda>x row. \<exists>i. row = execution_row_of T c (x\<lparr>x_ID := i\<rparr>)) xs rows"
    "\<forall>x\<in>set xs. RatString (x_Quantity x) = x_Quantity x" "\<forall>m\<in>set makers. m_ID m \<noteq> m_ID inc"
  shows "sum_list (map er_quantity (filter (\<lambda>x. er_buy_order_id x = i \<or> er_sell_order_id x = i) rows)) =
    (if i = m_ID inc then traded xs else taken i xs makers)"
  using assms
proof (induction xs arbitrary: makers rows)
  case Nil
  then show ?case by simp
next
  case (Cons x xs)
  obtain m ms where m: "makers = m # ms" "trade_of inc now x m" "list_all2 (trade_of inc now) xs ms"
    using Cons.prems(1) by (auto simp: list_all2_Cons1)
  obtain row rs where r: "rows = row # rs" "\<exists>i. row = execution_row_of T c (x\<lparr>x_ID := i\<rparr>)"
    "list_all2 (\<lambda>x row. \<exists>i. row = execution_row_of T c (x\<lparr>x_ID := i\<rparr>)) xs rs"
    using Cons.prems(2) by (auto simp: list_all2_Cons1)
  have q: "er_quantity row = x_Quantity x" "er_buy_order_id row = x_BuyOrderID x" "er_sell_order_id row = x_SellOrderID x"
    using r(2) Cons.prems(3) by (auto simp: execution_row_of_def)
  have "sum_list (map er_quantity (filter (\<lambda>x. er_buy_order_id x = i \<or> er_sell_order_id x = i) rs)) =
      (if i = m_ID inc then traded xs else taken i xs ms)"
    using Cons.prems(3,4) m(1) by (intro Cons.IH [OF m(3) r(3)]) auto
  then show ?case
    using trade_of_ids [OF m(2)] Cons.prems(4) by (auto simp: m(1) r(1) q split: if_splits)
qed

lemma taken_bounds:
  "\<forall>x\<in>set xs. x_Quantity x \<in> \<int> \<and> 0 < x_Quantity x \<Longrightarrow> taken i xs cs \<in> \<int> \<and> 0 \<le> taken i xs cs"
  by (induction xs cs rule: list_induct2') (auto simp: taken_def)

lemma traded_bounds:
  "\<forall>x\<in>set xs. x_Quantity x \<in> \<int> \<and> 0 < x_Quantity x \<Longrightarrow>
   traded xs \<in> \<int> \<and> 0 \<le> traded xs \<and> (\<forall>x\<in>set xs. x_Quantity x \<le> traded xs)"
  by (induction xs) auto

subsection \<open>The ledger\<close>

definition executed :: "string \<Rightarrow> db \<Rightarrow> numeric" where
  "executed i d = sum_list (map er_quantity
     (filter (\<lambda>x. er_buy_order_id x = i \<or> er_sell_order_id x = i) (order_executions d)))"

definition whole_row :: "order_row \<Rightarrow> bool" where
  "whole_row r \<longleftrightarrow> whole (t_quantity r) \<and> whole (t_filled_quantity r) \<and> whole (t_remaining_quantity r) \<and>
     t_filled_quantity r + t_remaining_quantity r \<le> t_quantity r"

definition ledger :: "db \<Rightarrow> bool" where
  "ledger d \<longleftrightarrow> distinct (map t_id (orders d)) \<and>
     (\<forall>r\<in>set (orders d). whole_row r \<and> t_filled_quantity r = executed (t_id r) d) \<and>
     (\<forall>x\<in>set (order_executions d). {er_buy_order_id x, er_sell_order_id x} \<subseteq> t_id ` set (orders d))"

lemma ledger_orders:
  assumes "ledger d" "orders d' = upd_where P f (orders d)" "order_executions d' = order_executions d"
    and "\<And>r. t_id (f r) = t_id r"
    and "\<And>r. r \<in> set (orders d) \<Longrightarrow> P r \<Longrightarrow> whole_row r \<Longrightarrow>
      whole_row (f r) \<and> t_filled_quantity (f r) = t_filled_quantity r"
  shows "ledger d'"
proof -
  have ids: "map t_id (orders d') = map t_id (orders d)"
    unfolding assms(2) by (rule map_upd_where) (simp add: assms(4))
  then have idset: "t_id ` set (orders d') = t_id ` set (orders d)" by (metis list.set_map)
  have "\<forall>r\<in>set (orders d'). whole_row r \<and> t_filled_quantity r = executed (t_id r) d'"
    unfolding assms(2) using assms(1,4,5)
    by (intro ball_upd_where) (auto simp: ledger_def executed_def assms(3))
  then show ?thesis using assms(1) ids idset unfolding ledger_def assms(3) by simp
qed

text \<open>The resting orders of a ledger database.\<close>

lemma resting_row:
  assumes "ledger d" "c \<in> set (loadRestingOrders d order)"
  obtains row where "row \<in> set (orders d)" "m_ID c = t_id row" "row_tenant row = o_TenantID order"
    "m_FilledQuantity c = t_filled_quantity row" "m_RemainingQuantity c = t_remaining_quantity row"
    "t_side row \<noteq> o_Side order"
proof -
  obtain row where row: "row \<in> set (orders d)" "c = FromDomain (scan_order row)"
    "row_tenant row = o_TenantID order" "t_side row \<noteq> o_Side order"
    using assms(2) by (auto simp: loadRestingOrders_def)
  moreover have "whole_row row" using assms(1) row(1) by (simp add: ledger_def)
  ultimately show thesis
    by (intro that [of row]) (simp_all add: FromDomain_def scan_order_def ratFromFloat_def whole_row_def)
qed

lemma distinct_resting:
  "distinct (map t_id (orders d)) \<Longrightarrow> distinct (map m_ID (loadRestingOrders d order))"
  by (simp add: loadRestingOrders_def comp_def FromDomain_def scan_order_def distinct_map_filter)


text \<open>The outcome of a match for one row of a ledger database: \<open>q\<close> is the quantity it trades.\<close>

definition traded_row :: "rat \<Rightarrow> order_row \<Rightarrow> order_row \<Rightarrow> bool" where
  "traded_row q r r' \<longleftrightarrow> t_id r' = t_id r \<and> t_quantity r' = t_quantity r \<and>
     t_filled_quantity r' = t_filled_quantity r + q \<and> 0 \<le> t_remaining_quantity r' \<and>
     t_remaining_quantity r' \<in> {0, t_remaining_quantity r - q} \<and> q \<in> \<int> \<and> 0 \<le> q \<and>
     q \<le> t_remaining_quantity r"

lemma whole_fill:
  assumes "whole_row r" "q \<in> \<int>" "0 \<le> q" "q \<le> t_remaining_quantity r"
  shows "whole q" "whole (t_filled_quantity r + q)" "whole (t_remaining_quantity r - q)"
proof -
  show q: "whole q" using assms by (auto simp: whole_row_def intro: whole_below)
  show "whole (t_filled_quantity r + q)"
    using assms q by (auto simp: whole_row_def intro: whole_add [of _ _ "t_quantity r"])
  show "whole (t_remaining_quantity r - q)" using assms q by (simp add: whole_row_def whole_diff)
qed

lemma GetOrder_id:
  assumes "GetOrder T j d = Inr ro" shows "o_ID ro = j" "o_TenantID ro = T"
  using assms find_by_Some [of t_id j "orders d"]
  by (auto simp: GetOrder_def find_order_def split: option.splits if_splits)

lemma traded_row_whole:
  assumes t: "traded_row q r r'" and w: "whole_row r" shows "whole_row r'"
proof -
  have q: "q \<in> \<int>" "0 \<le> q" "q \<le> t_remaining_quantity r" using t by (simp_all add: traded_row_def)
  note wf = whole_fill [OF w q]
  have rem: "t_remaining_quantity r' = 0 \<or> t_remaining_quantity r' = t_remaining_quantity r - q"
    using t by (simp add: traded_row_def)
  then have "whole (t_remaining_quantity r')" using wf(3) by auto
  moreover have "t_filled_quantity r' + t_remaining_quantity r' \<le> t_quantity r'"
    using rem t w q by (auto simp: traded_row_def whole_row_def)
  ultimately show ?thesis using wf(2) t w by (simp add: traded_row_def whole_row_def)
qed

lemma same_row:
  assumes "distinct (map t_id rs)" "r \<in> set rs" "r' \<in> set rs" "t_id r = t_id r'" shows "r = r'"
proof -
  have "Some r = Some r'"
    using find_by_unique [OF assms(1,2)] find_by_unique [OF assms(1,3)] assms(4) by metis
  then show ?thesis by simp
qed

text \<open>A resting order that is not the incoming one.\<close>

lemma persisted_maker:
  assumes L: "ledger d" and r: "row \<in> set (orders d)" "t_id row = i" "i \<noteq> o_ID order"
    and lc: "list_all2 (\<lambda>m ch. \<exists>ro. GetOrder (o_TenantID order) (m_ID m) d = Inr ro \<and>
       ch = updateOrderLifecycleFromFill now (ApplyToDomain m ro) m False) ms os"
    and tail_ids: "\<forall>ch\<in>set tail. o_ID ch = o_ID order"
    and res: "case find_by m_ID i ms of None \<Rightarrow> q = 0
      | Some m \<Rightarrow> \<exists>c\<in>set (loadRestingOrders d order). m_ID c = i \<and> m = fill_order q c"
    and nn: "\<forall>m\<in>set ms. 0 \<le> m_RemainingQuantity m" and q: "q \<in> \<int>" "0 \<le> q"
  shows "traded_row q row (persisted now d2 (os @ tail) row)"
proof -
  let ?P = "\<lambda>m ch. \<exists>ro. GetOrder (o_TenantID order) (m_ID m) d = Inr ro \<and>
       ch = updateOrderLifecycleFromFill now (ApplyToDomain m ro) m False"
  have w: "whole_row row" and dist: "distinct (map t_id (orders d))" using L r(1) by (simp_all add: ledger_def)
  have id: "o_ID ch = m_ID m" if "?P m ch" for m ch using that by (auto dest: GetOrder_id(1))
  have notail: "find_by o_ID i tail = None" using tail_ids r(3) by (auto simp: find_by_None_iff)
  note fc = find_by_changed [OF lc id, of i]
  show ?thesis
  proof (cases "find_by m_ID i ms")
    case None
    then have "persisted now d2 (os @ tail) row = row"
      using fc notail r(2) unfolding None option.case persisted_def find_by_append by simp
    then show ?thesis using res w unfolding None option.case by (simp add: traded_row_def whole_row_def whole_def)
  next
    case (Some m)
    then obtain ch where ch: "find_by o_ID i os = Some ch" "?P m ch" using fc unfolding Some option.case by blast
    obtain c where c: "c \<in> set (loadRestingOrders d order)" "m_ID c = i" "m = fill_order q c"
      using res unfolding Some option.case by blast
    obtain row2 where r2: "row2 \<in> set (orders d)" "m_ID c = t_id row2" "row_tenant row2 = o_TenantID order"
      "m_FilledQuantity c = t_filled_quantity row2" "m_RemainingQuantity c = t_remaining_quantity row2"
      "t_side row2 \<noteq> o_Side order"
      by (rule resting_row [OF L c(1)])
    have eq: "row2 = row" by (rule same_row [OF dist r2(1) r(1)]) (use r2(2) c(2) r(2) in simp)
    obtain ro where ro: "GetOrder (o_TenantID order) (m_ID m) d = Inr ro"
      "ch = updateOrderLifecycleFromFill now (ApplyToDomain m ro) m False" using ch(2) by blast
    have t: "o_TenantID ch = o_TenantID order"
      using GetOrder_id(2) [OF ro(1)] by (simp add: ro(2))
    have le: "q \<le> t_remaining_quantity row"
      using bspec [OF nn find_by_Some [OF Some, THEN conjunct1]] r2(5) unfolding c(3) eq by simp
    note wf = whole_fill [OF w q le]
    have "o_FilledQuantity ch = t_filled_quantity row + q"
      "o_RemainingQuantity ch = t_remaining_quantity row - q"
      using wf r2(4,5) eq by (simp_all add: ro(2) c(3) updateOrderLifecycleFromFill_def ApplyToDomain_def ratFloat_def Let_def)
    moreover have "persisted now d2 (os @ tail) row = set_order_state now d2 ch row"
      using ch(1) r(2) t r2(3) eq by (simp add: persisted_def find_by_append)
    ultimately show ?thesis using wf q le by (simp add: traded_row_def)
  qed
qed

lemma match_ledger:
  assumes L: "ledger d" and m: "matchAcceptedOrder now order d = Inr (order', evs, d')"
    and r0: "find_order (o_TenantID order) (o_ID order) d = Some r0" "o_Side order = t_side r0"
      "o_FilledQuantity order = t_filled_quantity r0" "o_RemainingQuantity order = t_remaining_quantity r0"
  shows "ledger d'"
proof -
  obtain r os rows d2 where
    M: "Match (FromDomain order) (loadRestingOrders d order) now = Some r"
      "order' = updateOrderLifecycleFromFill now (ApplyToDomain (r_Incoming r) order) (r_Incoming r) (r_Cancelled r)" and
    lc: "list_all2 (\<lambda>m ch. \<exists>ro. GetOrder (o_TenantID order) (m_ID m) d = Inr ro \<and>
       ch = updateOrderLifecycleFromFill now (ApplyToDomain m ro) m False) (r_Resting r) os" and
    X: "list_all2 (\<lambda>x row. \<exists>i. row = execution_row_of (o_TenantID order) (o_CorrelationID order) (x\<lparr>x_ID := i\<rparr>))
       (r_Executions r) rows"
      "\<forall>row\<in>set rows. {er_buy_order_id row, er_sell_order_id row} \<subseteq> t_id ` set (orders d)" and
    d2: "orders d2 = orders d" "order_executions d2 = order_executions d @ rows" and
    p: "fold_steps (persistOrderState now)
       (os @ (if r_Executions r \<noteq> [] \<or> r_Cancelled r then [order'] else [])) d2 = Inr d'"
    by (rule matchAcceptedOrder_Inr [OF m])
  let ?last = "if r_Executions r \<noteq> [] \<or> r_Cancelled r then [order'] else []"
  have dist: "distinct (map t_id (orders d))" using L by (simp add: ledger_def)
  have r0': "r0 \<in> set (orders d)" "t_id r0 = o_ID order" "row_tenant r0 = o_TenantID order"
    using r0(1) find_by_Some [of t_id "o_ID order" "orders d"] by (auto simp: find_order_iff)
  have w0: "whole_row r0" using L r0'(1) by (simp add: ledger_def)
  have inc: "m_RemainingQuantity (FromDomain order) = t_remaining_quantity r0"
    "m_FilledQuantity (FromDomain order) = t_filled_quantity r0" "m_ID (FromDomain order) = o_ID order"
    using w0 r0 by (simp_all add: FromDomain_def ratFromFloat_def whole_row_def)
  have resting: "m_RemainingQuantity c \<in> \<int> \<and> 0 \<le> m_RemainingQuantity c \<and> m_ID c \<noteq> o_ID order"
    if mem: "c \<in> set (loadRestingOrders d order)" for c
  proof -
    obtain row where row: "row \<in> set (orders d)" "m_ID c = t_id row" "row_tenant row = o_TenantID order"
      "m_FilledQuantity c = t_filled_quantity row" "m_RemainingQuantity c = t_remaining_quantity row"
      "t_side row \<noteq> o_Side order"
      by (rule resting_row [OF L mem])
    have "whole_row row" using L row(1) by (simp add: ledger_def)
    moreover have "t_id row \<noteq> o_ID order"
      using same_row [OF dist row(1) r0'(1)] row(6) r0(2) r0'(2) by auto
    ultimately show ?thesis using row by (simp add: whole_row_def whole_def)
  qed
  have inc': "m_RemainingQuantity (FromDomain order) \<in> \<int>" "0 \<le> m_RemainingQuantity (FromDomain order)"
    using w0 by (simp_all add: inc whole_row_def whole_def)
  have rq: "\<forall>c\<in>set (loadRestingOrders d order). m_RemainingQuantity c \<in> \<int> \<and> 0 \<le> m_RemainingQuantity c"
    using resting by blast
  obtain makers where "length makers = length (r_Executions r)" and
    mk: "set makers \<subseteq> set (filter (opposite (FromDomain order)) (loadRestingOrders d order))"
      "distinct (map m_ID makers)" "list_all2 (trade_of (FromDomain order) now) (r_Executions r) makers"
      "r_Incoming r = fill_order (traded (r_Executions r)) (with_tif (FromDomain order))"
      "\<forall>x\<in>set (r_Executions r). x_Quantity x \<in> \<int> \<and> 0 < x_Quantity x"
      "0 \<le> m_RemainingQuantity (r_Incoming r)" "\<forall>m\<in>set (r_Resting r). 0 \<le> m_RemainingQuantity m"
      "distinct (map m_ID (r_Resting r))" "set (map m_ID (r_Resting r)) \<subseteq> set (map m_ID (loadRestingOrders d order))" and
    res: "\<forall>i. case find_by m_ID i (r_Resting r) of None \<Rightarrow> taken i (r_Executions r) makers = 0
      | Some m \<Rightarrow> \<exists>c\<in>set (loadRestingOrders d order). m_ID c = i \<and> m = fill_order (taken i (r_Executions r) makers) c"
    by (rule Match_shape [OF M(1) inc' rq distinct_resting [OF dist]])
  let ?xs = "r_Executions r"
  note tb = traded_bounds [OF mk(5)]
  have le: "traded ?xs \<le> t_remaining_quantity r0" using mk(4,6) inc by simp
  have wf: "whole (traded ?xs)" "whole (t_filled_quantity r0 + traded ?xs)" "whole (t_remaining_quantity r0 - traded ?xs)"
    using whole_fill [OF w0 _ _ le] tb by blast+
  have xw: "\<forall>x\<in>set ?xs. RatString (x_Quantity x) = x_Quantity x"
  proof
    fix x assume x: "x \<in> set ?xs"
    then have "x_Quantity x \<in> \<int>" "0 \<le> x_Quantity x" "x_Quantity x \<le> traded ?xs" using mk(5) tb by auto
    from whole_below [OF this wf(1)] show "RatString (x_Quantity x) = x_Quantity x" by (rule whole_exact(3))
  qed
  have mkid: "\<forall>m\<in>set makers. m_ID m \<noteq> m_ID (FromDomain order)" using mk(1) resting inc(3) by auto
  note er = executed_rows [OF mk(3) X(1) xw mkid, unfolded inc(3)]
  have osid: "map o_ID os = map m_ID (r_Resting r)" by (rule map_ids_changed [OF lc]) (auto dest: GetOrder_id)
  have lastid: "\<forall>ch\<in>set ?last. o_ID ch = o_ID order" by (simp add: M(2))
  have new: "o_ID order \<notin> set (map o_ID os)" unfolding osid using mk(9) resting by auto
  have "distinct (map o_ID (os @ ?last))"
  proof (cases "r_Executions r \<noteq> [] \<or> r_Cancelled r")
    case True
    have "distinct (map o_ID os @ [o_ID order])" using mk(8) new unfolding osid by simp
    moreover have "o_ID order' = o_ID order" by (simp add: M(2))
    ultimately show ?thesis using True by simp
  next
    case False
    then show ?thesis using mk(8) by (simp add: osid)
  qed
  note pr = persist_rows [OF p this]
  let ?q = "\<lambda>i. if i = o_ID order then traded ?xs else taken i ?xs makers"
  have row: "traded_row (?q (t_id row)) row (persisted now d2 (os @ ?last) row)" if "row \<in> set (orders d)" for row
  proof (cases "t_id row = o_ID order")
    case True
    then have row: "row = r0" using r0'(2) by (intro same_row [OF dist that r0'(1)]) simp
    show ?thesis
    proof (cases "?xs \<noteq> [] \<or> r_Cancelled r")
      case upd: True
      have "find_by o_ID (o_ID order) os = None" using new by (simp add: find_by_None_iff)
      then have "persisted now d2 (os @ ?last) row = set_order_state now d2 order' row"
        using upd M(2) r0' row by (simp add: persisted_def find_by_append sql_simps)
      moreover have "o_FilledQuantity order' = t_filled_quantity r0 + traded ?xs"
        "o_RemainingQuantity order' \<in> {0, t_remaining_quantity r0 - traded ?xs}"
        using wf tb inc by (auto simp: M(2) mk(4) updateOrderLifecycleFromFill_def ApplyToDomain_def ratFloat_def Let_def)
      ultimately show ?thesis using wf tb le True row by (auto simp: traded_row_def)
    next
      case False
      have "find_by o_ID (o_ID order) os = None" using new by (simp add: find_by_None_iff)
      then have "persisted now d2 (os @ ?last) row = row" using False True by (simp add: persisted_def)
      then show ?thesis using False True row w0 by (simp add: traded_row_def whole_row_def whole_def)
    qed
  next
    case False
    then show ?thesis
      using persisted_maker [OF L that refl False lc lastid spec [OF res] mk(7)] taken_bounds [OF mk(5)] by simp
  qed
  have ex: "executed i d' = executed i d + ?q i" for i
    using er [of i] by (simp add: executed_def pr d2)
  have ids: "map t_id (orders d') = map t_id (orders d)"
    using row by (simp add: pr d2 traded_row_def)
  have "whole_row r' \<and> t_filled_quantity r' = executed (t_id r') d'" if r': "r' \<in> set (orders d')" for r'
  proof -
    obtain row0 where row0: "row0 \<in> set (orders d)" "r' = persisted now d2 (os @ ?last) row0"
      using r' pr d2 by auto
    have "whole_row row0" "t_filled_quantity row0 = executed (t_id row0) d" using L row0(1) by (simp_all add: ledger_def)
    note t = row [OF row0(1), folded row0(2)]
    have "t_id r' = t_id row0" "t_filled_quantity r' = t_filled_quantity row0 + ?q (t_id row0)"
      using t by (simp_all add: traded_row_def)
    then show ?thesis
      using traded_row_whole [OF t \<open>whole_row row0\<close>] ex [of "t_id row0"]
        \<open>t_filled_quantity row0 = executed (t_id row0) d\<close> by (simp only:)
  qed
  moreover have "\<forall>x\<in>set (order_executions d'). {er_buy_order_id x, er_sell_order_id x} \<subseteq> t_id ` set (orders d')"
    using L X(2) ids d2 pr unfolding ledger_def by (metis Un_iff list.set_map set_append)
  ultimately show ?thesis using ids dist by (simp add: ledger_def)
qed


subsection \<open>The transactions of the order service\<close>

text \<open>The committed transactions of the service and its workers, as a step relation on the
  database; \<open>okq\<close> is what a client may ask for as a quantity. A new order has nothing filled and
  its whole quantity remaining, as \<open>buildOrder\<close> makes it.\<close>

definition unfilled :: "(float64 \<Rightarrow> bool) \<Rightarrow> Order \<Rightarrow> bool" where
  "unfilled okq od \<longleftrightarrow> o_FilledQuantity od = 0 \<and> o_RemainingQuantity od = o_Quantity od \<and> okq (o_Quantity od)"

inductive order_tx :: "(float64 \<Rightarrow> bool) \<Rightarrow> db \<Rightarrow> db \<Rightarrow> bool" for okq where
  tx_create: "CreateOrder now od evs key hash d = Inr (od', evs', d') \<Longrightarrow> unfilled okq od \<Longrightarrow> order_tx okq d d'"
| tx_decide: "ApplyRiskDecision now T i dec ok no d = Inr (od', evs', d') \<Longrightarrow> order_tx okq d d'"
| tx_cancel: "CancelOrder now T i c ev d = Inr (od', d') \<Longrightarrow> order_tx okq d d'"
| tx_amend: "AmendOrder now T i req c d = Inr (od', d') \<Longrightarrow> pred_option okq (ar_Quantity req) \<Longrightarrow>
    order_tx okq d d'"
| tx_trigger: "TriggerDueStopOrders limit age now d = Inr (b, d') \<Longrightarrow> order_tx okq d d'"
| tx_expire: "ExpireDueBatch x limit now d = Inr (xb, d') \<Longrightarrow> order_tx okq d d'"
| tx_price: "UpsertReferencePrice now p d = Inr d' \<Longrightarrow> order_tx okq d d'"

inductive_cases order_txE: "order_tx okq d d'"

text \<open>Steps that leave the orders and the executions alone, and steps on single rows.\<close>

lemma ledger_same: "orders d' = orders d \<Longrightarrow> order_executions d' = order_executions d \<Longrightarrow> ledger d' = ledger d"
  by (simp add: ledger_def executed_def)

lemma ledger_expire_one:
  assumes "expire_one x now due (b, d) = Inr (b', d')" "ledger d" shows "ledger d'"
  using assms
proof (cases "expireLockedOrder x now (du_ID due) d")
  case (Inl e)
  then show ?thesis using assms by (auto simp: expire_one_def split: if_splits)
next
  case (Inr od)
  obtain order d1 where od: "od = (order, d1)" by fastforce
  then have "d1 = d'" using assms Inr by (simp add: expire_one_def)
  with Inr od have e: "expireLockedOrder x now (du_ID due) d = Inr (order, d')" by simp
  show ?thesis
  proof (rule expireLockedOrder_Inr [OF e])
    assume "orders d' = upd_where (\<lambda>r. t_id r = du_ID due \<and> is_due now r) (expire_row x now) (orders d)"
      "order_executions d' = order_executions d"
    then show "ledger d'"
      by (rule ledger_orders [OF assms(2)]) (simp_all add: expire_row_def whole_row_def)
  qed
qed

lemma ledger_activate:
  assumes "activateLockedStopOrder c ty now d = Inr (order, ev, d')" "ledger d"
  obtains r where "ledger d'" "find_order (o_TenantID order) (o_ID order) d' = Some r" "order = scan_order r"
    "whole_row r"
proof (rule activateLockedStopOrder_Inr [OF assms(1)])
  fix r
  assume r: "find_by t_id (tc_OrderID c) (orders d) = Some r" "activatable c r"
    "order = scan_order (activate_row now c ty r)"
    "orders d' = upd_where (\<lambda>r. t_id r = tc_OrderID c \<and> activatable c r) (activate_row now c ty) (orders d)"
    "order_executions d' = order_executions d"
  have key: "t_id (activate_row now c ty r) = t_id r" for r by (simp add: activate_row_def)
  have "ledger d'"
    by (rule ledger_orders [OF assms(2) r(4,5)]) (simp_all add: activate_row_def whole_row_def)
  moreover have f: "find_by t_id (tc_OrderID c) (orders d') = Some (activate_row now c ty r)"
    unfolding r(4) by (rule find_by_updated(1) [where P = "activatable c", OF key r(1,2)])
  moreover have "find_order (o_TenantID order) (o_ID order) d' = Some (activate_row now c ty r)"
    using f find_by_Some [OF f] by (simp add: r(3) find_order_iff)
  ultimately show thesis using that r(3) find_by_Some [OF f] unfolding ledger_def by metis
qed

lemma match_ledger_scan:
  assumes "ledger d" "find_order (o_TenantID order) (o_ID order) d = Some r"
    "o_Side order = t_side r" "o_FilledQuantity order = fl64 (t_filled_quantity r)"
    "o_RemainingQuantity order = fl64 (t_remaining_quantity r)"
    "matchAcceptedOrder now order d = Inr (order', evs, d')"
  shows "ledger d'"
proof -
  have "r \<in> set (orders d)" using assms(2) find_by_Some [of t_id _ "orders d"] by (auto simp: find_order_iff)
  then have "whole_row r" using assms(1) by (simp add: ledger_def)
  then show ?thesis
    using assms by (intro match_ledger [OF assms(1,6,2)]) (simp_all add: whole_row_def)
qed

lemma ledger_trigger_one:
  assumes "trigger_one now c (b, d) = Inr (b', d')" "ledger d" shows "ledger d'"
proof (cases "d' = d")
  case True
  then show ?thesis using assms(2) by simp
next
  case False
  let ?ty = "ActivatedOrderType (tc_OriginalType c)"
  obtain order ev d1 where a: "activateLockedStopOrder c ?ty now d = Inr (order, ev, d1)"
    using assms False by (auto simp: trigger_one_def split: if_splits sum.splits)
  then obtain mo mevs d2 evs where m: "matchAcceptedOrder now order d1 = Inr (mo, mevs, d2)"
    and e: "record_events now evs d2 = Inr d'"
    using assms False by (auto simp: trigger_one_def and_then_Inr Let_def split: if_splits)
  obtain r where r: "ledger d1" "find_order (o_TenantID order) (o_ID order) d1 = Some r" "order = scan_order r"
    by (rule ledger_activate [OF a assms(2)])
  have "ledger d2"
    by (rule match_ledger_scan [OF r(1,2) _ _ _ m]) (simp_all add: r(3) scan_order_def)
  then show ?thesis using record_events_Inr [OF e] ledger_same [of d' d2] by (simp add: tables_but_logs_def)
qed


text \<open>One lemma per transaction.\<close>

lemma ledger_create:
  assumes "CreateOrder now od evs key hash d = Inr (od', evs', d')" "unfilled whole od" "ledger d"
  shows "ledger d'"
proof -
  obtain order1 d1 d2 d3 mevs where
    i: "insert_order now od d = Inr (order1, d1)" and
    m: "if o_Status od = StatusAccepted then matchAcceptedOrder now order1 d1 = Inr (od', mevs, d2)
     else od' = order1 \<and> d2 = d1 \<and> mevs = []" and
    e: "record_events now evs' d2 = Inr d3" and
    k: "insert_idempotency \<lparr>ir_TenantID = o_TenantID od', ir_UserID = o_UserID od', ir_Key = key,
       ir_RequestHash = hash, ir_OrderID = o_ID od', ir_CreatedAt = now\<rparr> d3 = Inr d'"
    by (rule CreateOrder_Inr [OF assms(1)])
  note io = insert_order_Inr [OF i]
  let ?row = "order_row_of (new_id d) now od"
  have q: "whole (o_Quantity od)" "o_FilledQuantity od = 0" "o_RemainingQuantity od = o_Quantity od"
    using assms(2) by (simp_all add: unfilled_def)
  have row: "t_id ?row = new_id d" "whole_row ?row" "t_filled_quantity ?row = 0" "t_side ?row = o_Side od"
    "t_remaining_quantity ?row = o_Quantity od" "row_tenant ?row = o_TenantID od"
    using q by (simp_all add: order_row_of_def whole_row_def row_tenant_def)
  have ds: "orders d1 = orders d @ [?row]" "order_executions d1 = order_executions d"
    by (simp_all add: io(2))
  have "\<forall>x\<in>set (order_executions d). er_buy_order_id x \<noteq> new_id d \<and> er_sell_order_id x \<noteq> new_id d"
    using assms(3) io(4) unfolding ledger_def by (metis insert_subset)
  then have "executed (new_id d) d1 = 0" by (simp add: executed_def ds(2) filter_False)
  moreover have "executed i d1 = executed i d" for i by (simp add: executed_def ds(2))
  ultimately have L1: "ledger d1"
    using assms(3) io(4) row unfolding ledger_def ds by auto
  have "ledger d2"
  proof (cases "o_Status od = StatusAccepted")
    case True
    have f: "find_by t_id (new_id d) (orders d) = None" using io(4) by (simp add: find_by_None_iff)
    have "find_order (o_TenantID order1) (o_ID order1) d1 = Some ?row"
      using row f by (simp add: io(1) find_order_iff ds find_by_append sql_simps)
    then show ?thesis
      using True m row q by (intro match_ledger_scan [OF L1, of order1 ?row]) (simp_all add: io(1))
  next
    case False
    then show ?thesis using m L1 by simp
  qed
  then show ?thesis
    using record_events_Inr [OF e] insert_idempotency_Inr [OF k] ledger_same [of d' d2]
    by (simp add: tables_but_logs_def)
qed

lemma ledger_risk_row:
  assumes "update_orders (own_row o') f d = Inr d'" "ledger d"
    "\<And>r. t_id (f r) = t_id r" "\<And>r. t_quantity (f r) = t_quantity r"
    "\<And>r. t_filled_quantity (f r) = t_filled_quantity r" "\<And>r. t_remaining_quantity (f r) = t_remaining_quantity r"
  shows "ledger d'"
proof (rule ledger_orders [OF assms(2), of d' "own_row o'" f])
  show "orders d' = upd_where (own_row o') f (orders d)" "order_executions d' = order_executions d"
    using assms(1) by (simp_all add: update_orders_Inr)
qed (use assms(3-6) in \<open>simp_all add: whole_row_def\<close>)

lemma risk_state_fields [simp]:
  "t_id (set_risk_state c o' r) = t_id r" "t_quantity (set_risk_state c o' r) = t_quantity r"
  "t_filled_quantity (set_risk_state c o' r) = t_filled_quantity r"
  "t_remaining_quantity (set_risk_state c o' r) = t_remaining_quantity r"
  "row_tenant (set_risk_state c o' r) = row_tenant r" "t_side (set_risk_state c o' r) = t_side r"
  "t_id (set_risk_rejected c o' r) = t_id r" "t_quantity (set_risk_rejected c o' r) = t_quantity r"
  "t_filled_quantity (set_risk_rejected c o' r) = t_filled_quantity r"
  "t_remaining_quantity (set_risk_rejected c o' r) = t_remaining_quantity r"
  by (simp_all add: set_risk_state_def set_risk_rejected_def row_tenant_def)

lemma ledger_decide:
  assumes "ApplyRiskDecision clock T i dec ok no d = Inr (order, evs, d')" "ledger d"
  shows "ledger d'"
  using assms(1)
proof (cases rule: ApplyRiskDecision_cases)
  case (decided_before r)
  then show ?thesis using assms(2) by simp
next
  case (approved r order2 d1 d2 d3 mevs)
  obtain rows where d1: "d1 = d\<lparr>order_risk_decisions := order_risk_decisions d @ rows\<rparr>"
    using insertRiskDecision_Inr [OF approved(4)] by blast
  have "ledger d1" using assms(2) ledger_same [of d1 d] by (simp add: d1)
  then have L2: "ledger d2" by (rule ledger_risk_row [OF approved(7)]) simp_all
  have "own_row order2 r"
    using approved(1,2) find_by_Some [OF approved(1)] by (simp add: approved(6) own_row_def)
  then have "find_by t_id i (orders d2) = Some (set_risk_state clock order2 r)"
    using approved(1,7) by (simp add: update_orders_Inr d1 find_by_upd_where)
  then have f: "find_order (o_TenantID order2) (o_ID order2) d2 = Some (set_risk_state clock order2 r)"
    using approved(2) find_by_Some [OF approved(1)] by (simp add: find_order_iff approved(6))
  have "ledger d3"
    by (rule match_ledger_scan [OF L2 f _ _ _ approved(8)])
      (simp_all add: approved(6) approve_order_def decided_def scan_order_def)
  then show ?thesis
    using record_events_Inr [OF approved(10)] ledger_same [of d' d3] by (simp add: tables_but_logs_def)
next
  case (rejected r d1 d2)
  obtain rows where d1: "d1 = d\<lparr>order_risk_decisions := order_risk_decisions d @ rows\<rparr>"
    using insertRiskDecision_Inr [OF rejected(4)] by blast
  have "ledger d1" using assms(2) ledger_same [of d1 d] by (simp add: d1)
  then have "ledger d2" by (rule ledger_risk_row [OF rejected(7)]) simp_all
  then show ?thesis
    using record_events_Inr [OF rejected(9)] ledger_same [of d' d2] by (simp add: tables_but_logs_def)
qed

lemma ledger_amend:
  assumes "AmendOrder now T i req c d = Inr (order, d')" "pred_option whole (ar_Quantity req)" "ledger d"
  shows "ledger d'"
proof (rule AmendOrder_Inr [OF assms(1)])
  assume o': "orders d' = upd_where (\<lambda>r. t_id r = i \<and> amendable T req r) (amend_row now req c) (orders d)"
    "order_executions d' = order_executions d"
  show "ledger d'"
  proof (rule ledger_orders [OF assms(3) o'])
    fix r assume "t_id r = i \<and> amendable T req r" "whole_row r"
    then show "whole_row (amend_row now req c r) \<and>
        t_filled_quantity (amend_row now req c r) = t_filled_quantity r"
      using assms(2)
      by (cases "ar_Quantity req") (auto simp: whole_row_def amendable_def whole_def)
  qed simp
qed

lemma ledger_cancel:
  assumes "CancelOrder now T i c ev d = Inr (order, d')" "ledger d" shows "ledger d'"
proof (rule CancelOrder_Inr [OF assms(1)])
  assume o': "orders d' = upd_where (\<lambda>r. t_id r = i \<and> is_live (t_status r) \<and> row_tenant r = T)
                   (cancel_row now c) (orders d)" "order_executions d' = order_executions d"
  show "ledger d'"
    by (rule ledger_orders [OF assms(2) o'])
      (auto simp: whole_row_def cancel_row_def whole_def)
qed


lemma ledger_expire:
  assumes "ExpireDueBatch x limit now d = Inr (b, d')" "ledger d" shows "ledger d'"
proof -
  obtain b0 ds where f: "fold_steps (expire_one x now) ds (b0, d) = Inr (b, d')"
    using assms(1) unfolding ExpireDueBatch_def Let_def by blast
  have "ledger (snd (b, d'))"
    using f
  proof (rule fold_steps_invariant [where I = "\<lambda>s. ledger (snd s)", rotated 2])
    fix du s s'
    assume "ledger (snd s)" "expire_one x now du s = Inr s'"
    then show "ledger (snd s')"
      using ledger_expire_one [of x now du "fst s" "snd s" "fst s'" "snd s'"] by simp
  qed (simp add: assms(2))
  then show ?thesis by simp
qed

lemma ledger_trigger:
  assumes "TriggerDueStopOrders limit age now d = Inr (b, d')" "ledger d" shows "ledger d'"
proof -
  obtain b0 cs where f: "fold_steps (trigger_one now) cs (b0, d) = Inr (b, d')"
    using assms(1) unfolding TriggerDueStopOrders_def Let_def by blast
  have "ledger (snd (b, d'))"
    using f
  proof (rule fold_steps_invariant [where I = "\<lambda>s. ledger (snd s)", rotated 2])
    fix c s s'
    assume "ledger (snd s)" "trigger_one now c s = Inr s'"
    then show "ledger (snd s')"
      using ledger_trigger_one [of now c "fst s" "snd s" "fst s'" "snd s'"] by simp
  qed (simp add: assms(2))
  then show ?thesis by simp
qed

lemma UpsertReferencePrice_frame:
  "UpsertReferencePrice now p d = Inr d' \<Longrightarrow>
   orders d' = orders d \<and> order_executions d' = order_executions d \<and> order_events d' = order_events d \<and>
   order_outbox d' = order_outbox d \<and> idempotency_keys d' = idempotency_keys d \<and> db_ids d' = db_ids d"
  by (auto simp: UpsertReferencePrice_def Let_def split: if_splits)

lemma order_tx_ledger: "order_tx whole d d' \<Longrightarrow> ledger d \<Longrightarrow> ledger d'"
proof (induction rule: order_tx.induct)
  case (tx_price now p d d')
  then show ?case using UpsertReferencePrice_frame ledger_same by metis
qed (auto intro: ledger_create ledger_decide ledger_cancel ledger_amend ledger_trigger ledger_expire)


text \<open>The general facts of a transaction: the logs move in step, rows keep their identity.\<close>

definition keeps_rows :: "db \<Rightarrow> db \<Rightarrow> bool" where
  "keeps_rows d d' \<longleftrightarrow> (\<exists>new. list_all2 same_identity (orders d @ new) (orders d')) \<and>
     (\<exists>rows. order_executions d' = order_executions d @ rows) \<and> (\<exists>evs. records d d' evs)"

lemma records_none: "order_events d' = order_events d \<Longrightarrow> order_outbox d' = order_outbox d \<Longrightarrow> records d d' []"
  by (simp add: records_def outbox_in_step_def)

lemma table_effect_keeps: "table_effect d d' \<Longrightarrow> keeps_rows d d'"
  unfolding table_effect_def keeps_rows_def by (metis append_Nil2)

lemma all2_identity_trans:
  "list_all2 same_identity as bs \<Longrightarrow> list_all2 same_identity bs cs \<Longrightarrow> list_all2 same_identity as cs"
  by (rule list_all2_trans) (rule same_identity_trans)

lemma keeps_rows_trans:
  assumes "keeps_rows a b" "keeps_rows b c" shows "keeps_rows a c"
proof -
  obtain n1 n2 where n: "list_all2 same_identity (orders a @ n1) (orders b)"
    "list_all2 same_identity (orders b @ n2) (orders c)"
    using assms by (auto simp: keeps_rows_def)
  have "list_all2 same_identity (orders a @ n1 @ n2) (orders b @ n2)"
    using n(1) by (metis append.assoc list_all2_appendI list_all2_same same_identity_refl)
  then have "list_all2 same_identity (orders a @ n1 @ n2) (orders c)"
    using n(2) by (rule all2_identity_trans)
  then show ?thesis using assms records_trans unfolding keeps_rows_def by (metis append.assoc)
qed

lemma ExpireDueBatch_effect:
  assumes "ExpireDueBatch x limit now d = Inr (b, d')" shows "table_effect d d'"
proof -
  obtain b0 ds where f: "fold_steps (expire_one x now) ds (b0, d) = Inr (b, d')"
    using assms unfolding ExpireDueBatch_def Let_def by blast
  have "table_effect d (snd (b, d'))"
    using f
  proof (rule fold_steps_invariant [where I = "\<lambda>s. table_effect d (snd s)", rotated 2])
    fix du s s'
    assume "table_effect d (snd s)" "expire_one x now du s = Inr s'"
    then show "table_effect d (snd s')"
      using expire_one_effect [of x now du "fst s" "snd s" "fst s'" "snd s'"] table_effect_trans
      by (metis prod.collapse)
  qed simp
  then show ?thesis by simp
qed

lemma order_tx_keeps: "order_tx okq d d' \<Longrightarrow> keeps_rows d d'"
proof (induction rule: order_tx.induct)
  case (tx_create now od evs key hash d od' evs' d')
  note e = CreateOrder_effect [OF tx_create(1)]
  have "list_all2 same_identity (orders d @ [order_row_of (new_id d) now od]) (orders d')"
    using e(6) unfolding rows_only_def by (auto elim: list_all2_mono)
  then show ?case using e(1,7) unfolding keeps_rows_def by blast
next
  case (tx_decide now T i dec ok no d od' evs' d')
  then show ?case using ApplyRiskDecision_effect tenant_table_effect table_effect_keeps by metis
next
  case (tx_cancel now T i c ev d od' d')
  then show ?case using CancelOrder_effect tenant_table_effect table_effect_keeps by metis
next
  case (tx_amend now T i req c d od' d')
  then show ?case using AmendOrder_effect tenant_table_effect table_effect_keeps by metis
next
  case (tx_trigger limit age now d b d')
  then show ?case using TriggerDueStopOrders_effect table_effect_keeps by metis
next
  case (tx_expire x limit now d xb d')
  then show ?case using ExpireDueBatch_effect table_effect_keeps by metis
next
  case (tx_price now p d d')
  then show ?case
    using UpsertReferencePrice_frame [OF tx_price] records_none [of d' d]
    by (auto simp: keeps_rows_def list_all2_same intro!: exI [of _ "[]"])
qed

text \<open>the transactional outbox and the history. Every sequence of transactions appends to the
  events and to the executions and never rewrites them, an outbox row goes in with each event in
  the same order, and no row of the orders table disappears or changes its id, tenant, owner,
  symbol, side, creation time or, once set, its trigger time.\<close>

theorem history_append_only:
  assumes "(order_tx okq)\<^sup>*\<^sup>* d d'"
  shows "(outbox_in_step d \<longrightarrow> outbox_in_step d') \<and>
    (\<exists>evs. order_events d' = order_events d @ evs) \<and>
    (\<exists>rows. order_executions d' = order_executions d @ rows) \<and>
    (\<exists>new. list_all2 same_identity (orders d @ new) (orders d'))"
proof -
  have "keeps_rows d d'"
    using assms
  proof (induction rule: rtranclp_induct)
    case base
    then show ?case using table_effect_keeps by simp
  next
    case (step y z)
    then show ?case using order_tx_keeps keeps_rows_trans by blast
  qed
  then show ?thesis unfolding keeps_rows_def records_def by blast
qed


subsection \<open>Concrete cases\<close>

lemma ex_db_ledger: "ledger ex_db"
  by (simp add: ex_db_def ledger_def whole_row_def whole_def executed_def order_row_of_def ex_order_def)

lemma ex_sell_tx: "order_tx whole ex_db (snd (snd (projr (CreateOrder 7 ex_sell [] ''key'' ''hash'' ex_db))))"
proof (rule tx_create)
  show "CreateOrder 7 ex_sell [] ''key'' ''hash'' ex_db =
      Inr (fst (projr (CreateOrder 7 ex_sell [] ''key'' ''hash'' ex_db)),
           fst (snd (projr (CreateOrder 7 ex_sell [] ''key'' ''hash'' ex_db))),
           snd (snd (projr (CreateOrder 7 ex_sell [] ''key'' ''hash'' ex_db))))"
    using ex_create_Inr by (cases "CreateOrder 7 ex_sell [] ''key'' ''hash'' ex_db") (simp_all add: is_Inr_def)
  show "unfilled whole ex_sell" by (simp add: unfilled_def ex_sell_def ex_order_def whole_def)
qed


lemma history_append_only_witness:
  "\<exists>evs. order_events (snd (snd (projr (CreateOrder 7 ex_sell [] ''key'' ''hash'' ex_db)))) =
     order_events ex_db @ evs"
  using history_append_only [OF r_into_rtranclp [of "order_tx whole", OF ex_sell_tx]] by blast

end
