(* ===== verification/OrderOutbox.thy ===== *)
theory OrderOutbox
  imports OrderLedger
begin

text \<open>
  The outbox publisher: \<open>internal/outbox/repository.go\<close> (claiming rows under a lease and marking
  them), \<open>backoff.go\<close> and \<open>publisher.go\<close>. The Go interface \<open>Store\<close> is the record \<open>Store\<close> of
  functions on a state, with the locale \<open>outbox_store\<close> for what the publisher relies on; it is
  interpreted on the repository. The producer, the clock, \<open>json.Valid\<close> and the random source are
  the environment \<open>pub_env\<close> of a call; the messages the producer has accepted are a log.
  Lemmas: the retry delay is the doubling bounded by the maximum; a row is marked only by the
  worker that holds its lease; a row becomes published only after its message was accepted.
\<close>

subsection \<open>The backoff\<close>

record Backoff =
  bo_Base :: duration
  bo_Max :: duration
  bo_JitterPct :: float64

text \<open>\<open>0.20\<close> as a float64 value.\<close>

definition NewBackoff :: "duration \<Rightarrow> duration \<Rightarrow> string + Backoff" where
  "NewBackoff base maxd =
     (if base \<le> 0 then Inl ''base backoff must be positive''
      else if maxd < base then Inl ''max backoff must be greater than or equal to base backoff''
      else Inr \<lparr>bo_Base = base, bo_Max = maxd, bo_JitterPct = fl64 (20 / 100)\<rparr>)"

text \<open>The loop of \<open>Delay\<close>, \<open>break\<close> included.\<close>

fun delay_loop :: "duration \<Rightarrow> nat \<Rightarrow> duration \<Rightarrow> duration" where
  "delay_loop maxd 0 delay = delay"
| "delay_loop maxd (Suc n) delay =
     (if delay \<ge> maxd div 2 then maxd else delay_loop maxd n (delay * 2))"

definition base_delay :: "Backoff \<Rightarrow> int \<Rightarrow> duration" where
  "base_delay b attemptCount =
     (let delay = delay_loop (bo_Max b) (nat attemptCount) (bo_Base b)
      in if delay > bo_Max b then bo_Max b else delay)"

definition jitter_range :: "Backoff \<Rightarrow> duration \<Rightarrow> int" where
  "jitter_range b delay = \<lfloor>fl64 (fl64 (of_int delay) * bo_JitterPct b)\<rfloor>"

text \<open>Durations are far below the range of \<open>int64\<close>: no sum here leaves it for a maximum below
  2 to the power 62. \<open>random n\<close> is \<open>rand.Int63n(n)\<close>.\<close>

definition Delay :: "(int \<Rightarrow> int) \<Rightarrow> Backoff \<Rightarrow> int \<Rightarrow> duration" where
  "Delay random b attemptCount =
     (let delay = base_delay b attemptCount
      in if bo_JitterPct b \<le> 0 then delay
         else
           let jitterRange = jitter_range b delay
           in if jitterRange \<le> 0 then delay
              else
                let withJitter = delay + (random (jitterRange * 2 + 1) - jitterRange)
                in if withJitter < 0 then 0
                   else if withJitter > bo_Max b then bo_Max b else withJitter)"

lemma delay_loop_bounds: "0 < delay \<Longrightarrow> delay \<le> maxd \<Longrightarrow> 0 < delay_loop maxd n delay \<and> delay_loop maxd n delay \<le> maxd"
  by (induction maxd n delay rule: delay_loop.induct) auto

text \<open>For an even maximum the loop is the doubling, cut at the maximum.\<close>

lemma delay_loop_doubles:
  assumes "even maxd" "0 < delay" "delay \<le> maxd"
  shows "delay_loop maxd n delay = min maxd (delay * 2 ^ n)"
  using assms
proof (induction maxd n delay rule: delay_loop.induct)
  case (1 maxd delay)
  then show ?case by simp
next
  case (2 maxd n delay)
  obtain h where h: "maxd = 2 * h" using "2.prems"(1) by (auto elim: evenE)
  show ?case
  proof (cases "h \<le> delay")
    case True
    have "delay * 2 \<le> delay * 2 ^ Suc n"
      using "2.prems"(2) one_le_power [of "2 :: int" n] by simp
    then have "maxd \<le> delay * 2 ^ Suc n" using True h by linarith
    then show ?thesis using True h by (simp add: min_def)
  next
    case False
    then show ?thesis using 2 h by (simp add: mult.assoc)
  qed
qed

text \<open>the retry delay. It is never negative and never above the maximum; without the jitter it is the
  base doubled once per attempt and cut at the maximum, and the jitter moves it by at most the jitter
  range.\<close>

theorem retry_delay_bounds:
  assumes "NewBackoff base maxd = Inr b" "\<And>n. 0 < n \<Longrightarrow> 0 \<le> random n \<and> random n < n" "0 \<le> attempt"
  shows "0 \<le> Delay random b attempt \<and> Delay random b attempt \<le> maxd \<and>
    base \<le> base_delay b attempt \<and> base_delay b attempt \<le> maxd \<and>
    (even maxd \<longrightarrow> base_delay b attempt = min maxd (base * 2 ^ nat attempt)) \<and>
    \<bar>Delay random b attempt - base_delay b attempt\<bar> \<le> max 0 (jitter_range b (base_delay b attempt))"
proof -
  have b: "bo_Base b = base" "bo_Max b = maxd" "0 < base" "base \<le> maxd"
    using assms(1) by (auto simp: NewBackoff_def split: if_splits)
  have low: "base \<le> delay_loop maxd n delay" if "base \<le> delay" "delay \<le> maxd" for n delay
    using that b(3,4) by (induction maxd n delay rule: delay_loop.induct) auto
  have eq: "base_delay b attempt = delay_loop maxd (nat attempt) base"
    using delay_loop_bounds [OF b(3,4), of "nat attempt"] by (simp add: base_delay_def b Let_def)
  have bd: "base \<le> base_delay b attempt" "base_delay b attempt \<le> maxd"
    unfolding eq using low [of base] delay_loop_bounds [OF b(3,4)] b(4) by auto
  define j where "j = jitter_range b (base_delay b attempt)"
  define k where "k = random (j * 2 + 1) - j"
  have k: "0 < j \<Longrightarrow> - j \<le> k \<and> k \<le> j" using assms(2) [of "j * 2 + 1"] by (simp add: k_def)
  have D: "Delay random b attempt = (if bo_JitterPct b \<le> 0 \<or> j \<le> 0 then base_delay b attempt
      else if base_delay b attempt + k < 0 then 0
      else if base_delay b attempt + k > maxd then maxd else base_delay b attempt + k)"
    by (simp add: Delay_def Let_def b(2) j_def k_def)
  have "0 \<le> Delay random b attempt \<and> Delay random b attempt \<le> maxd \<and>
      \<bar>Delay random b attempt - base_delay b attempt\<bar> \<le> max 0 j"
  proof (cases "0 < j")
    case True
    then show ?thesis using bd b(3) k unfolding D by (simp split: if_splits; linarith)
  next
    case False
    then show ?thesis using bd b(3) unfolding D by simp
  qed
  then show ?thesis using bd delay_loop_doubles [OF _ b(3,4)] eq unfolding j_def by simp
qed

subsection \<open>Records and the repository\<close>

abbreviation "StatusPending \<equiv> ''pending''"
abbreviation "StatusProcessing \<equiv> ''processing''"
abbreviation "StatusPublished \<equiv> ''published''"
abbreviation "StatusFailed \<equiv> ''failed''"

text \<open>Nothing writes the column \<open>tracestate\<close>, so it is read as the empty string.\<close>

record Record =
  rc_ID :: string
  rc_TenantID :: string
  rc_AggregateType :: string
  rc_AggregateID :: string
  rc_EventID :: string
  rc_EventType :: string
  rc_Topic :: string
  rc_Payload :: OrderEvent
  rc_CorrelationID :: string
  rc_TraceParent :: string
  rc_TraceState :: string
  rc_Status :: string
  rc_AttemptCount :: int
  rc_AvailableAt :: time
  rc_CreatedAt :: time
  rc_LockedBy :: string
  rc_LockedAt :: "time option"
  rc_LeaseUntil :: "time option"
  rc_PublishedAt :: "time option"
  rc_FailedAt :: "time option"
  rc_LastError :: string

record Stats =
  st_Pending :: int
  st_Processing :: int
  st_Failed :: int
  st_OldestPendingAge :: duration
  st_ConsecutiveErrors :: int
  st_LastPoll :: "time option"
  st_LastPublished :: "time option"
  st_LastError :: string

definition scanRecord :: "outbox_row \<Rightarrow> Record" where
  "scanRecord r = \<lparr>rc_ID = ob_id r, rc_TenantID = ob_tenant_id r, rc_AggregateType = ob_aggregate_type r,
     rc_AggregateID = ob_aggregate_id r, rc_EventID = ob_event_id r, rc_EventType = ob_event_type r,
     rc_Topic = ob_topic r, rc_Payload = ob_payload r, rc_CorrelationID = ob_correlation_id r,
     rc_TraceParent = ob_traceparent r, rc_TraceState = '''', rc_Status = ob_status r,
     rc_AttemptCount = ob_attempt_count r, rc_AvailableAt = ob_available_at r,
     rc_CreatedAt = ob_created_at r, rc_LockedBy = coalesce (ob_locked_by r) '''',
     rc_LockedAt = ob_locked_at r, rc_LeaseUntil = ob_lease_until r,
     rc_PublishedAt = ob_published_at r, rc_FailedAt = ob_failed_at r,
     rc_LastError = coalesce (ob_last_error r) ''''\<rparr>"

definition scanRecords :: "outbox_row list \<Rightarrow> Record list" where
  "scanRecords rows = map scanRecord rows"

definition claimable :: "int \<Rightarrow> time \<Rightarrow> outbox_row \<Rightarrow> bool" where
  "claimable maxAttempts now r \<longleftrightarrow> ob_published_at r = None \<and>
     ob_status r \<in> {StatusPending, StatusProcessing} \<and> ob_available_at r \<le> now \<and>
     ob_attempt_count r < maxAttempts \<and>
     (case ob_lease_until r of None \<Rightarrow> True | Some l \<Rightarrow> l < now)"

definition lock_row :: "string \<Rightarrow> time \<Rightarrow> duration \<Rightarrow> outbox_row \<Rightarrow> outbox_row" where
  "lock_row workerID now lease r = r\<lparr>ob_status := StatusProcessing, ob_locked_by := Some workerID,
     ob_locked_at := Some now, ob_lease_until := Some (now + lease)\<rparr>"

definition claim_rows :: "int \<Rightarrow> int \<Rightarrow> time \<Rightarrow> db \<Rightarrow> outbox_row list" where
  "claim_rows batchSize maxAttempts now d =
     limit_rows batchSize (sort_key (\<lambda>r. (ob_created_at r, ob_id r))
       (filter (claimable maxAttempts now) (order_outbox d)))"

text \<open>\<open>now\<close> is the database's clock, \<open>clock\<close> the worker's.\<close>

definition Claim :: "time \<Rightarrow> string \<Rightarrow> int \<Rightarrow> int \<Rightarrow> duration \<Rightarrow> time \<Rightarrow> db \<Rightarrow> Record list \<times> int \<times> db" where
  "Claim clock workerID batchSize maxAttempts leaseDuration now d =
     (let claimed = scanRecords (claim_rows batchSize maxAttempts now d);
          ids = map rc_ID claimed;
          recovered = int (length (filter (\<lambda>r. case rc_LeaseUntil r of None \<Rightarrow> False | Some l \<Rightarrow> l < clock) claimed))
      in if ids = [] then ([], 0, d)
         else (map (\<lambda>r. r\<lparr>rc_Status := StatusProcessing, rc_LockedBy := workerID\<rparr>) claimed, recovered,
               d\<lparr>order_outbox := upd_where (\<lambda>r. ob_id r \<in> set ids)
                    (lock_row workerID now leaseDuration) (order_outbox d)\<rparr>))"

definition owned :: "string \<Rightarrow> string \<Rightarrow> outbox_row \<Rightarrow> bool" where
  "owned i workerID r \<longleftrightarrow> ob_id r = i \<and> ob_published_at r = None \<and> ob_locked_by r = Some workerID"

definition unlocked :: "outbox_row \<Rightarrow> outbox_row" where
  "unlocked r = r\<lparr>ob_locked_by := None, ob_locked_at := None, ob_lease_until := None\<rparr>"

definition mark_rows :: "string \<Rightarrow> string \<Rightarrow> (outbox_row \<Rightarrow> outbox_row) \<Rightarrow> db \<Rightarrow> bool \<times> db" where
  "mark_rows i workerID f d =
     (rows_affected (owned i workerID) (order_outbox d) > 0,
      d\<lparr>order_outbox := upd_where (owned i workerID) f (order_outbox d)\<rparr>)"

definition published_row :: "time \<Rightarrow> outbox_row \<Rightarrow> outbox_row" where
  "published_row now r = (unlocked r)\<lparr>ob_status := StatusPublished, ob_published_at := Some now, ob_last_error := None\<rparr>"

definition failed_row :: "time \<Rightarrow> string \<Rightarrow> outbox_row \<Rightarrow> outbox_row" where
  "failed_row nextAvailableAt safeError r = (unlocked r)\<lparr>ob_status := StatusPending,
     ob_attempt_count := ob_attempt_count r + 1, ob_available_at := nextAvailableAt,
     ob_last_error := Some safeError\<rparr>"

definition terminal_row :: "time \<Rightarrow> string \<Rightarrow> outbox_row \<Rightarrow> outbox_row" where
  "terminal_row now safeError r = (unlocked r)\<lparr>ob_status := StatusFailed,
     ob_attempt_count := ob_attempt_count r + 1, ob_failed_at := Some now,
     ob_last_error := Some safeError\<rparr>"

definition MarkPublished :: "string \<Rightarrow> string \<Rightarrow> time \<Rightarrow> db \<Rightarrow> bool \<times> db" where
  "MarkPublished i workerID now d = mark_rows i workerID (published_row now) d"

definition MarkFailed :: "string \<Rightarrow> string \<Rightarrow> time \<Rightarrow> string \<Rightarrow> db \<Rightarrow> bool \<times> db" where
  "MarkFailed i workerID nextAvailableAt safeError d = mark_rows i workerID (failed_row nextAvailableAt safeError) d"

definition MarkTerminal :: "string \<Rightarrow> string \<Rightarrow> string \<Rightarrow> time \<Rightarrow> db \<Rightarrow> bool \<times> db" where
  "MarkTerminal i workerID safeError now d = mark_rows i workerID (terminal_row now safeError) d"

definition Snapshot :: "time \<Rightarrow> db \<Rightarrow> Stats" where
  "Snapshot now d =
     (let rows = order_outbox d;
          pending = filter (\<lambda>r. ob_published_at r = None \<and> ob_status r = StatusPending) rows
      in \<lparr>st_Pending = int (length (filter (\<lambda>r. ob_attempt_count r \<ge> 0) pending)),
          st_Processing = int (length (filter (\<lambda>r. ob_published_at r = None \<and> ob_status r = StatusProcessing) rows)),
          st_Failed = int (length (filter (\<lambda>r. ob_status r = StatusFailed) rows)),
          st_OldestPendingAge = (if pending = [] then 0 else now - Min (set (map ob_created_at pending))),
          st_ConsecutiveErrors = 0, st_LastPoll = None, st_LastPublished = None, st_LastError = ''''\<rparr>)"


subsection \<open>The publisher\<close>

record 's Store =
  st_Claim :: "time \<Rightarrow> string \<Rightarrow> int \<Rightarrow> int \<Rightarrow> duration \<Rightarrow> time \<Rightarrow> 's \<Rightarrow> string + (Record list \<times> int \<times> 's)"
  st_MarkPublished :: "string \<Rightarrow> string \<Rightarrow> time \<Rightarrow> 's \<Rightarrow> string + (bool \<times> 's)"
  st_MarkFailed :: "string \<Rightarrow> string \<Rightarrow> time \<Rightarrow> string \<Rightarrow> time \<Rightarrow> 's \<Rightarrow> string + (bool \<times> 's)"
  st_MarkTerminal :: "string \<Rightarrow> string \<Rightarrow> string \<Rightarrow> time \<Rightarrow> 's \<Rightarrow> string + (bool \<times> 's)"
  st_Snapshot :: "time \<Rightarrow> 's \<Rightarrow> string + Stats"

record OutboxConfig =
  oc_BatchSize :: int
  oc_LeaseDuration :: duration
  oc_BaseBackoff :: duration
  oc_MaxBackoff :: duration
  oc_MaxAttempts :: int
  oc_ErrorMaxLength :: int

record 's Publisher =
  pub_repo :: "'s Store"
  pub_cfg :: OutboxConfig
  pub_backoff :: Backoff
  pub_workerID :: string

text \<open>The producer and the metrics are given by whether they are present.\<close>

definition NewPublisher ::
    "'s Store option \<Rightarrow> bool \<Rightarrow> bool \<Rightarrow> OutboxConfig \<Rightarrow> string \<Rightarrow> string + 's Publisher" where
  "NewPublisher repo producer metrics cfg workerID =
     (case repo of
        None \<Rightarrow> Inl ''outbox repository is required''
      | Some st \<Rightarrow>
          if \<not> producer then Inl ''outbox producer is required''
          else if \<not> metrics then Inl ''outbox metrics are required''
          else and_then (NewBackoff (oc_BaseBackoff cfg) (oc_MaxBackoff cfg)) (\<lambda>backoff.
                 Inr \<lparr>pub_repo = st, pub_cfg = cfg, pub_backoff = backoff, pub_workerID = workerID\<rparr>))"

type_synonym headers = "(string \<times> string) list"

record message =
  msg_topic :: string
  msg_key :: string
  msg_value :: OrderEvent
  msg_headers :: headers

text \<open>One call's environment; \<open>pe_publish\<close> is the error of \<open>PublishRaw\<close>, None for nil, and
  \<open>pe_done\<close> says that the context is done.\<close>

record pub_env =
  pe_valid :: "OrderEvent \<Rightarrow> bool"
  pe_publish :: "message \<Rightarrow> string option"
  pe_now :: time
  pe_random :: "int \<Rightarrow> int"
  pe_done :: bool

record 's pub_state =
  ps_store :: 's
  ps_status :: Stats
  ps_sent :: "message list"

definition record_headers :: "Record \<Rightarrow> headers" where
  "record_headers r =
     [(''event-id'', rc_EventID r), (''event-type'', rc_EventType r),
      (''tenant-id'', rc_TenantID r), (''content-type'', ''application/json'')] @
     (if rc_CorrelationID r \<noteq> '''' then [(''correlation-id'', rc_CorrelationID r)] else []) @
     (if rc_TraceParent r \<noteq> '''' then [(''traceparent'', rc_TraceParent r)] else []) @
     (if rc_TraceState r \<noteq> '''' then [(''tracestate'', rc_TraceState r)] else [])"

definition messageKey :: "Record \<Rightarrow> string" where
  "messageKey r = rc_TenantID r @ '':'' @ rc_AggregateID r"

definition message_of :: "Record \<Rightarrow> message" where
  "message_of r = \<lparr>msg_topic = rc_Topic r, msg_key = messageKey r, msg_value = rc_Payload r,
     msg_headers = record_headers r\<rparr>"

definition sanitizeText :: "string \<Rightarrow> int \<Rightarrow> string" where
  "sanitizeText value0 max0 =
     (let v = map (\<lambda>c. if c = CHR 0x0A \<or> c = CHR 0x0D then CHR '' '' else c) value0;
          m = (if max0 \<le> 0 then 512 else max0)
      in if int (length v) > m then take (nat m) v else v)"

definition incrementConsecutiveErrors :: "'s Publisher \<Rightarrow> string \<Rightarrow> 's pub_state \<Rightarrow> 's pub_state" where
  "incrementConsecutiveErrors p msg s = s\<lparr>ps_status := (ps_status s)
     \<lparr>st_ConsecutiveErrors := st_ConsecutiveErrors (ps_status s) + 1,
      st_LastError := sanitizeText msg (oc_ErrorMaxLength (pub_cfg p))\<rparr>\<rparr>"

definition clearConsecutiveErrors :: "'s pub_state \<Rightarrow> 's pub_state" where
  "clearConsecutiveErrors s = s\<lparr>ps_status := (ps_status s)\<lparr>st_ConsecutiveErrors := 0, st_LastError := ''''\<rparr>\<rparr>"

definition setLastPoll :: "time \<Rightarrow> 's pub_state \<Rightarrow> 's pub_state" where
  "setLastPoll t s = s\<lparr>ps_status := (ps_status s)\<lparr>st_LastPoll := Some t\<rparr>\<rparr>"

definition setLastPublished :: "time \<Rightarrow> 's pub_state \<Rightarrow> 's pub_state" where
  "setLastPublished t s = s\<lparr>ps_status := (ps_status s)\<lparr>st_LastPublished := Some t\<rparr>\<rparr>"

definition recordError :: "'s Publisher \<Rightarrow> string \<Rightarrow> 's pub_state \<Rightarrow> 's pub_state" where
  "recordError p err s =
     incrementConsecutiveErrors p (sanitizeText err (oc_ErrorMaxLength (pub_cfg p))) s"

definition terminal :: "'s Publisher \<Rightarrow> pub_env \<Rightarrow> Record \<Rightarrow> string \<Rightarrow> 's pub_state \<Rightarrow> 's pub_state" where
  "terminal p env r reason s =
     (case st_MarkTerminal (pub_repo p) (rc_ID r) (pub_workerID p)
             (sanitizeText reason (oc_ErrorMaxLength (pub_cfg p))) (pe_now env) (ps_store s) of
        Inl err \<Rightarrow> recordError p err s
      | Inr (updated, store') \<Rightarrow>
          let s' = s\<lparr>ps_store := store'\<rparr>
          in if \<not> updated then s' else incrementConsecutiveErrors p reason s')"

definition retryOrTerminal :: "'s Publisher \<Rightarrow> pub_env \<Rightarrow> Record \<Rightarrow> string \<Rightarrow> 's pub_state \<Rightarrow> 's pub_state" where
  "retryOrTerminal p env r err s =
     (let safe = sanitizeText err (oc_ErrorMaxLength (pub_cfg p))
      in if rc_AttemptCount r + 1 \<ge> oc_MaxAttempts (pub_cfg p) then terminal p env r safe s
         else
           let delay = Delay (pe_random env) (pub_backoff p) (rc_AttemptCount r);
               nextAt = pe_now env + delay
           in case st_MarkFailed (pub_repo p) (rc_ID r) (pub_workerID p) nextAt safe (pe_now env) (ps_store s) of
                Inl markErr \<Rightarrow> recordError p markErr s
              | Inr (updated, store') \<Rightarrow>
                  let s' = s\<lparr>ps_store := store'\<rparr>
                  in if \<not> updated then s' else incrementConsecutiveErrors p safe s')"

definition publishOne :: "'s Publisher \<Rightarrow> pub_env \<Rightarrow> Record \<Rightarrow> 's pub_state \<Rightarrow> 's pub_state" where
  "publishOne p env r s =
     (if \<not> pe_valid env (rc_Payload r) then terminal p env r ''invalid JSON payload'' s
      else (case pe_publish env (message_of r) of
              Some err \<Rightarrow> retryOrTerminal p env r err s
            | None \<Rightarrow>
                let s1 = s\<lparr>ps_sent := ps_sent s @ [message_of r]\<rparr>
                in (case st_MarkPublished (pub_repo p) (rc_ID r) (pub_workerID p) (pe_now env) (ps_store s1) of
                      Inl err \<Rightarrow> recordError p err s1
                    | Inr (updated, store') \<Rightarrow>
                        let s2 = s1\<lparr>ps_store := store'\<rparr>
                        in if \<not> updated then s2
                           else clearConsecutiveErrors (setLastPublished (pe_now env) s2))))"

definition refreshSnapshot :: "'s Publisher \<Rightarrow> pub_env \<Rightarrow> 's pub_state \<Rightarrow> 's pub_state" where
  "refreshSnapshot p env s =
     (case st_Snapshot (pub_repo p) (pe_now env) (ps_store s) of
        Inl err \<Rightarrow> recordError p err s
      | Inr stats \<Rightarrow>
          s\<lparr>ps_status := stats\<lparr>st_LastPoll := st_LastPoll (ps_status s),
              st_LastPublished := st_LastPublished (ps_status s),
              st_LastError := st_LastError (ps_status s),
              st_ConsecutiveErrors := st_ConsecutiveErrors (ps_status s)\<rparr>\<rparr>)"

text \<open>The loop over the claimed records; each iteration has its environment.\<close>

fun publish_all :: "'s Publisher \<Rightarrow> (nat \<Rightarrow> pub_env) \<Rightarrow> nat \<Rightarrow> Record list \<Rightarrow> 's pub_state \<Rightarrow> 's pub_state" where
  "publish_all p envs n [] s = s"
| "publish_all p envs n (r # rs) s =
     (if pe_done (envs n) then s else publish_all p envs (Suc n) rs (publishOne p (envs n) r s))"

definition poll :: "'s Publisher \<Rightarrow> (nat \<Rightarrow> pub_env) \<Rightarrow> time \<Rightarrow> time \<Rightarrow> 's pub_state \<Rightarrow> 's pub_state" where
  "poll p envs clock dbNow s =
     (let s1 = setLastPoll clock s
      in case st_Claim (pub_repo p) clock (pub_workerID p) (oc_BatchSize (pub_cfg p))
                (oc_MaxAttempts (pub_cfg p)) (oc_LeaseDuration (pub_cfg p)) dbNow (ps_store s1) of
           Inl err \<Rightarrow> recordError p err s1
         | Inr (claimed, recovered, store') \<Rightarrow>
             let s2 = s1\<lparr>ps_store := store'\<rparr>
             in if claimed = [] then refreshSnapshot p (envs 0) s2
                else refreshSnapshot p (envs 0) (publish_all p envs 0 claimed s2))"

text \<open>The repository as a \<open>Store\<close>; \<open>down\<close> gives the error of a statement that fails.\<close>

definition order_store :: "(time \<Rightarrow> string option) \<Rightarrow> db Store" where
  "order_store down = \<lparr>
     st_Claim = (\<lambda>clock w b m l now d. case down now of Some e \<Rightarrow> Inl e | None \<Rightarrow> Inr (Claim clock w b m l now d)),
     st_MarkPublished = (\<lambda>i w now d. case down now of Some e \<Rightarrow> Inl e | None \<Rightarrow> Inr (MarkPublished i w now d)),
     st_MarkFailed = (\<lambda>i w nextAt err now d. case down now of Some e \<Rightarrow> Inl e | None \<Rightarrow> Inr (MarkFailed i w nextAt err d)),
     st_MarkTerminal = (\<lambda>i w err now d. case down now of Some e \<Rightarrow> Inl e | None \<Rightarrow> Inr (MarkTerminal i w err now d)),
     st_Snapshot = (\<lambda>now d. case down now of Some e \<Rightarrow> Inl e | None \<Rightarrow> Inr (Snapshot now d))\<rparr>"


subsection \<open>What the publisher relies on\<close>

text \<open>The contract of a \<open>Store\<close>: \<open>row s i\<close> is the row of an id. A mark changes exactly the row it
  names, and only while the calling worker holds it unpublished; a failing statement changes nothing.\<close>

definition marks :: "('s \<Rightarrow> string \<Rightarrow> outbox_row option) \<Rightarrow> string \<Rightarrow> string \<Rightarrow> (outbox_row \<Rightarrow> outbox_row)
    \<Rightarrow> bool \<Rightarrow> 's \<Rightarrow> 's \<Rightarrow> bool" where
  "marks row i w f updated s s' \<longleftrightarrow>
     updated = (case row s i of None \<Rightarrow> False | Some r \<Rightarrow> owned i w r) \<and>
     row s' i = (if updated then map_option f (row s i) else row s i) \<and>
     (\<forall>j. j \<noteq> i \<longrightarrow> row s' j = row s j)"

locale outbox_store =
  fixes st :: "'s Store" and row :: "'s \<Rightarrow> string \<Rightarrow> outbox_row option" and inv :: "'s \<Rightarrow> bool"
  assumes published: "inv s \<Longrightarrow> st_MarkPublished st i w now s = Inr (u, s') \<Longrightarrow>
      marks row i w (published_row now) u s s' \<and> inv s'"
    and failed: "inv s \<Longrightarrow> st_MarkFailed st i w nextAt err now s = Inr (u, s') \<Longrightarrow>
      marks row i w (failed_row nextAt err) u s s' \<and> inv s'"
    and terminal_law: "inv s \<Longrightarrow> st_MarkTerminal st i w err now s = Inr (u, s') \<Longrightarrow>
      marks row i w (terminal_row now err) u s s' \<and> inv s'"
begin

text \<open>The outcome of one record for the row it names.\<close>

definition settled :: "'s Publisher \<Rightarrow> pub_env \<Rightarrow> Record \<Rightarrow> 's pub_state \<Rightarrow> 's pub_state \<Rightarrow> bool" where
  "settled p env r s s' \<longleftrightarrow>
     inv (ps_store s') \<and> (\<forall>j. j \<noteq> rc_ID r \<longrightarrow> row (ps_store s') j = row (ps_store s) j) \<and>
     (\<exists>new. ps_sent s' = ps_sent s @ new \<and> set new \<subseteq> {message_of r} \<and>
       (row (ps_store s') (rc_ID r) = row (ps_store s) (rc_ID r) \<or>
        (\<exists>x. row (ps_store s) (rc_ID r) = Some x \<and> owned (rc_ID r) (pub_workerID p) x \<and>
           (row (ps_store s') (rc_ID r) = Some (published_row (pe_now env) x) \<and> new = [message_of r] \<or>
            (\<exists>err. row (ps_store s') (rc_ID r) = Some (terminal_row (pe_now env) err x)) \<or>
            (\<exists>due err. row (ps_store s') (rc_ID r) = Some (failed_row due err x) \<and>
               rc_AttemptCount r + 1 < oc_MaxAttempts (pub_cfg p))))))"

lemma status_only [simp]:
  "ps_store (incrementConsecutiveErrors p m s) = ps_store s" "ps_sent (incrementConsecutiveErrors p m s) = ps_sent s"
  "ps_store (recordError p m s) = ps_store s" "ps_sent (recordError p m s) = ps_sent s"
  "ps_store (clearConsecutiveErrors s) = ps_store s" "ps_sent (clearConsecutiveErrors s) = ps_sent s"
  "ps_store (setLastPublished t s) = ps_store s" "ps_sent (setLastPublished t s) = ps_sent s"
  by (simp_all add: incrementConsecutiveErrors_def recordError_def clearConsecutiveErrors_def setLastPublished_def)

lemma marks_cases:
  assumes "marks row i w f u s s'"
  shows "(\<forall>j. j \<noteq> i \<longrightarrow> row s' j = row s j) \<and>
    (row s' i = row s i \<or> (\<exists>x. row s i = Some x \<and> owned i w x \<and> row s' i = Some (f x)))"
  using assms by (cases "row s i") (auto simp: marks_def)

lemma settledI:
  assumes "marks row (rc_ID r) (pub_workerID p) f u (ps_store s) (ps_store s')" "inv (ps_store s')"
    "ps_sent s' = ps_sent s @ new" "set new \<subseteq> {message_of r}"
    "(\<forall>x. f x = published_row (pe_now env) x) \<and> new = [message_of r] \<or>
     (\<exists>err. \<forall>x. f x = terminal_row (pe_now env) err x) \<or>
     (\<exists>due err. \<forall>x. f x = failed_row due err x) \<and> rc_AttemptCount r + 1 < oc_MaxAttempts (pub_cfg p)"
  shows "settled p env r s s'"
proof -
  note m = marks_cases [OF assms(1)]
  show ?thesis
  proof (cases "row (ps_store s') (rc_ID r) = row (ps_store s) (rc_ID r)")
    case True
    then show ?thesis using m assms(2,3,4) unfolding settled_def by blast
  next
    case False
    then obtain x where x: "row (ps_store s) (rc_ID r) = Some x" "owned (rc_ID r) (pub_workerID p) x"
      "row (ps_store s') (rc_ID r) = Some (f x)" using m by blast
    have "f x = published_row (pe_now env) x \<and> new = [message_of r] \<or>
        (\<exists>err. f x = terminal_row (pe_now env) err x) \<or>
        (\<exists>due err. f x = failed_row due err x \<and> rc_AttemptCount r + 1 < oc_MaxAttempts (pub_cfg p))"
      using assms(5) by blast
    then show ?thesis using x m assms(2,3,4) unfolding settled_def by metis
  qed
qed

lemma terminal_settled:
  assumes "pub_repo p = st" "inv (ps_store s)" shows "settled p env r s (terminal p env r reason s)"
proof (cases "st_MarkTerminal st (rc_ID r) (pub_workerID p)
    (sanitizeText reason (oc_ErrorMaxLength (pub_cfg p))) (pe_now env) (ps_store s)")
  case (Inl err)
  then show ?thesis using assms by (simp add: terminal_def settled_def)
next
  case (Inr us)
  obtain u s' where us: "us = (u, s')" by fastforce
  note t = terminal_law [OF assms(2) Inr [unfolded us]]
  have "ps_store (terminal p env r reason s) = s'" "ps_sent (terminal p env r reason s) = ps_sent s"
    using Inr us assms(1) by (simp_all add: terminal_def Let_def)
  then show ?thesis using t by (intro settledI [where new = "[]"]) auto
qed

lemma retry_settled:
  assumes "pub_repo p = st" "inv (ps_store s)" shows "settled p env r s (retryOrTerminal p env r err s)"
proof (cases "oc_MaxAttempts (pub_cfg p) \<le> rc_AttemptCount r + 1")
  case True
  then show ?thesis using terminal_settled [OF assms] by (simp add: retryOrTerminal_def Let_def)
next
  case False
  let ?at = "pe_now env + Delay (pe_random env) (pub_backoff p) (rc_AttemptCount r)"
  let ?e = "sanitizeText err (oc_ErrorMaxLength (pub_cfg p))"
  show ?thesis
  proof (cases "st_MarkFailed st (rc_ID r) (pub_workerID p) ?at ?e (pe_now env) (ps_store s)")
    case (Inl err)
    then show ?thesis using False assms by (simp add: retryOrTerminal_def settled_def Let_def)
  next
    case (Inr us)
    obtain u s' where us: "us = (u, s')" by fastforce
    note t = failed [OF assms(2) Inr [unfolded us]]
    have "ps_store (retryOrTerminal p env r err s) = s'" "ps_sent (retryOrTerminal p env r err s) = ps_sent s"
      using False Inr us assms(1) by (simp_all add: retryOrTerminal_def Let_def)
    then show ?thesis using t False by (intro settledI [where new = "[]"]) auto
  qed
qed

lemma publishOne_settled:
  assumes "pub_repo p = st" "inv (ps_store s)" shows "settled p env r s (publishOne p env r s)"
proof (cases "pe_valid env (rc_Payload r)")
  case False
  then show ?thesis using terminal_settled [OF assms] by (simp add: publishOne_def)
next
  case valid: True
  show ?thesis
  proof (cases "pe_publish env (message_of r)")
    case (Some err)
    then show ?thesis using valid retry_settled [OF assms] by (simp add: publishOne_def)
  next
    case None
    show ?thesis
    proof (cases "st_MarkPublished st (rc_ID r) (pub_workerID p) (pe_now env) (ps_store s)")
      case (Inl err)
      then show ?thesis using None valid assms by (simp add: publishOne_def settled_def Let_def)
    next
      case (Inr us)
      obtain u s' where us: "us = (u, s')" by fastforce
      note t = published [OF assms(2) Inr [unfolded us]]
      have "ps_store (publishOne p env r s) = s'" "ps_sent (publishOne p env r s) = ps_sent s @ [message_of r]"
        using None valid Inr us assms(1) by (simp_all add: publishOne_def Let_def)
      then show ?thesis using t by (intro settledI [where new = "[message_of r]"]) auto
    qed
  qed
qed

end

text \<open>The repository meets the contract on databases whose outbox is in step with the events.\<close>

definition outbox_row_by :: "db \<Rightarrow> string \<Rightarrow> outbox_row option" where
  "outbox_row_by d i = find_by ob_id i (order_outbox d)"

text \<open>The columns no statement of the publisher writes.\<close>

definition same_message :: "outbox_row \<Rightarrow> outbox_row \<Rightarrow> bool" where
  "same_message r r' \<longleftrightarrow> ob_id r' = ob_id r \<and> ob_payload r' = ob_payload r \<and> ob_event_id r' = ob_event_id r \<and>
     message_of (scanRecord r') = message_of (scanRecord r) \<and> ob_created_at r' = ob_created_at r"

lemma marked_same [simp]:
  "same_message r (published_row now r)" "same_message r (failed_row due e r)"
  "same_message r (terminal_row now e r)" "same_message r (lock_row w now l r)"
  by (simp_all add: published_row_def failed_row_def terminal_row_def unlocked_def lock_row_def same_message_def
      message_of_def scanRecord_def record_headers_def messageKey_def)

lemma in_step_upd_where:
  assumes "outbox_in_step d" "\<And>r. same_message r (f r)"
  shows "outbox_in_step (d\<lparr>order_outbox := upd_where P f (order_outbox d)\<rparr>)"
proof -
  have k: "ob_id (f r) = ob_id r" "ob_payload (f r) = ob_payload r" "ob_event_id (f r) = ob_event_id r" for r
    using assms(2) by (simp_all add: same_message_def)
  show ?thesis using assms(1) by (simp add: outbox_in_step_def map_upd_where k)
qed

lemma mark_rows_marks:
  assumes "mark_rows i w f d = (u, d')" "outbox_in_step d" "\<And>r. same_message r (f r)"
  shows "marks outbox_row_by i w f u d d' \<and> outbox_in_step d'"
proof -
  have key: "ob_id (f r) = ob_id r" for r using assms(3) by (simp add: same_message_def)
  have dist: "distinct (map ob_id (order_outbox d))" using assms(2) by (simp add: outbox_in_step_def)
  have d': "d' = d\<lparr>order_outbox := upd_where (owned i w) f (order_outbox d)\<rparr>"
    and u: "u = (filter (owned i w) (order_outbox d) \<noteq> [])"
    using assms(1) by (auto simp: mark_rows_def rows_affected_def)
  have row: "outbox_row_by d' j = map_option (\<lambda>r. if owned i w r then f r else r) (outbox_row_by d j)" for j
    by (simp add: outbox_row_by_def d' find_by_upd_where key)
  have u': "u = (case outbox_row_by d i of None \<Rightarrow> False | Some r \<Rightarrow> owned i w r)"
  proof (cases "outbox_row_by d i")
    case None
    then show ?thesis unfolding u None option.case using None
      by (auto simp: outbox_row_by_def find_by_None_iff filter_empty_conv owned_def)
  next
    case (Some r)
    have r: "r \<in> set (order_outbox d)" "ob_id r = i"
      using find_by_Some [of ob_id i "order_outbox d" r] Some by (simp_all add: outbox_row_by_def)
    have uniq: "r' = r" if "r' \<in> set (order_outbox d)" "ob_id r' = i" for r'
      using find_by_unique [of ob_id "order_outbox d" r'] that Some dist
      by (simp add: outbox_row_by_def)
    have "(\<exists>x\<in>set (order_outbox d). owned i w x) \<longleftrightarrow> owned i w r"
      using r uniq unfolding owned_def by blast
    then show ?thesis unfolding u Some option.case filter_empty_conv by blast
  qed
  have "outbox_row_by d' j = outbox_row_by d j" if "j \<noteq> i" for j
  proof (cases "outbox_row_by d j")
    case (Some r)
    then have "ob_id r = j" using find_by_Some [of ob_id j "order_outbox d" r] by (simp add: outbox_row_by_def)
    then show ?thesis using Some that by (simp add: row owned_def)
  qed (simp add: row)
  moreover have "outbox_row_by d' i = (if u then map_option f (outbox_row_by d i) else outbox_row_by d i)"
    unfolding row u' by (cases "outbox_row_by d i") simp_all
  moreover have "outbox_in_step d'" unfolding d' by (rule in_step_upd_where [OF assms(2,3)])
  ultimately show ?thesis using u' unfolding marks_def by blast
qed

interpretation repository: outbox_store "order_store down" outbox_row_by outbox_in_step for down
proof
  fix s i w now u s' nextAt err
  assume inv: "outbox_in_step s"
  show "marks outbox_row_by i w (published_row now) u s s' \<and> outbox_in_step s'"
    if "st_MarkPublished (order_store down) i w now s = Inr (u, s')"
    using that inv mark_rows_marks [of i w "published_row now" s u s']
    by (simp add: order_store_def MarkPublished_def split: option.splits)
  show "marks outbox_row_by i w (failed_row nextAt err) u s s' \<and> outbox_in_step s'"
    if "st_MarkFailed (order_store down) i w nextAt err now s = Inr (u, s')"
    using that inv mark_rows_marks [of i w "failed_row nextAt err" s u s']
    by (simp add: order_store_def MarkFailed_def split: option.splits)
  show "marks outbox_row_by i w (terminal_row now err) u s s' \<and> outbox_in_step s'"
    if "st_MarkTerminal (order_store down) i w err now s = Inr (u, s')"
    using that inv mark_rows_marks [of i w "terminal_row now err" s u s']
    by (simp add: order_store_def MarkTerminal_def split: option.splits)
qed



subsection \<open>Claims\<close>

lemma outbox_row_by_iff:
  "distinct (map ob_id (order_outbox d)) \<Longrightarrow>
   outbox_row_by d i = Some r \<longleftrightarrow> r \<in> set (order_outbox d) \<and> ob_id r = i"
  using find_by_Some [of ob_id i "order_outbox d" r] find_by_unique [of ob_id "order_outbox d" r]
  by (auto simp: outbox_row_by_def)

lemma Claim_rows:
  assumes "Claim clock w batch maxA lease now d = (rs, n, d')" "distinct (map ob_id (order_outbox d))"
  shows "d' = d\<lparr>order_outbox := upd_where (\<lambda>r. ob_id r \<in> rc_ID ` set rs) (lock_row w now lease) (order_outbox d)\<rparr> \<and>
    (\<forall>r\<in>set (order_outbox d). ob_id r \<in> rc_ID ` set rs \<longrightarrow> claimable maxA now r) \<and>
    (\<forall>c\<in>set rs. \<exists>r\<in>set (order_outbox d). ob_id r = rc_ID c \<and> message_of (scanRecord r) = message_of c \<and>
       rc_AttemptCount c = ob_attempt_count r \<and> claimable maxA now r)"
proof -
  let ?rows = "claim_rows batch maxA now d"
  have rows: "r \<in> set (order_outbox d) \<and> claimable maxA now r" if "r \<in> set ?rows" for r
    using subsetD [OF set_limit_rows that [unfolded claim_rows_def]] by simp
  have ids: "rc_ID ` set (scanRecords ?rows) = ob_id ` set ?rows"
    by (simp add: scanRecords_def image_image scanRecord_def)
  show ?thesis
  proof (cases "?rows = []")
    case True
    then have "rs = []" "d' = d" using assms(1) by (simp_all add: Claim_def scanRecords_def)
    then show ?thesis by (simp add: upd_where_id)
  next
    case False
    then have rs: "rs = map (\<lambda>r. r\<lparr>rc_Status := StatusProcessing, rc_LockedBy := w\<rparr>) (scanRecords ?rows)"
      and d': "d' = d\<lparr>order_outbox := upd_where (\<lambda>r. ob_id r \<in> rc_ID ` set (scanRecords ?rows))
        (lock_row w now lease) (order_outbox d)\<rparr>"
      using assms(1) by (auto simp: Claim_def scanRecords_def Let_def image_image)
    have img: "rc_ID ` set rs = ob_id ` set ?rows" unfolding rs by (simp add: image_image ids [symmetric])
    have "claimable maxA now r" if r: "r \<in> set (order_outbox d)" "ob_id r \<in> ob_id ` set ?rows" for r
    proof -
      obtain r' where r': "r' \<in> set ?rows" "ob_id r = ob_id r'" using r(2) by auto
      then have "r' = r"
        using rows [OF r'(1)] outbox_row_by_iff [OF assms(2), of "ob_id r"] r(1) by (metis option.inject)
      then show ?thesis using rows [OF r'(1)] by simp
    qed
    moreover have "\<exists>r\<in>set (order_outbox d). ob_id r = rc_ID c \<and> message_of (scanRecord r) = message_of c \<and>
       rc_AttemptCount c = ob_attempt_count r \<and> claimable maxA now r" if "c \<in> set rs" for c
    proof -
      obtain r where r: "r \<in> set ?rows" "c = (scanRecord r)\<lparr>rc_Status := StatusProcessing, rc_LockedBy := w\<rparr>"
        using \<open>c \<in> set rs\<close> unfolding rs scanRecords_def by auto
      then show ?thesis
        using rows [OF r(1)]
        by (intro bexI [of _ r]) (simp_all add: message_of_def messageKey_def record_headers_def scanRecord_def)
    qed
    ultimately show ?thesis unfolding img d' ids by simp
  qed
qed

text \<open>C32: leases are exclusive. While the lease of a claim runs no other claim, by whatever worker, returns
  a row of it.\<close>

theorem claims_exclusive:
  assumes "Claim c1 w1 b1 m1 lease1 now1 d = (rs1, n1, d1)" "Claim c2 w2 b2 m2 lease2 now2 d1 = (rs2, n2, d2)"
    "outbox_in_step d" "now2 \<le> now1 + lease1"
  shows "rc_ID ` set rs1 \<inter> rc_ID ` set rs2 = {}"
proof -
  have dist: "distinct (map ob_id (order_outbox d))" using assms(3) by (simp add: outbox_in_step_def)
  note c1 = Claim_rows [OF assms(1) dist]
  have s1: "outbox_in_step d1"
    using in_step_upd_where [OF assms(3)] c1 by simp
  then have "distinct (map ob_id (order_outbox d1))" by (simp add: outbox_in_step_def)
  note c2 = Claim_rows [OF assms(2) this]
  have "rc_ID c \<notin> rc_ID ` set rs1" if mem2: "c \<in> set rs2" for c
  proof
    assume mem: "rc_ID c \<in> rc_ID ` set rs1"
    obtain r where r: "r \<in> set (order_outbox d1)" "ob_id r = rc_ID c" "claimable m2 now2 r"
      using bspec [OF c2 [THEN conjunct2, THEN conjunct2] mem2] by blast
    have "r \<in> set (upd_where (\<lambda>r. ob_id r \<in> rc_ID ` set rs1) (lock_row w1 now1 lease1) (order_outbox d))"
      using r(1) c1 by simp
    then show False
    proof (rule in_upd_whereE)
      fix r0 assume "r = lock_row w1 now1 lease1 r0"
      then show False using r(3) assms(4) by (simp add: claimable_def lock_row_def)
    next
      assume "ob_id r \<notin> rc_ID ` set rs1"
      then show False using mem r(2) by simp
    qed
  qed
  then show ?thesis by (intro equals0I) (metis IntE imageE)
qed


subsection \<open>Publishers beside the service\<close>

text \<open>The database, the accepted messages and the records the workers hold, with every interleaving of
  the service's transactions, claims and publications. All workers have the attempt limit \<open>maxA\<close>.\<close>

type_synonym outbox_system = "db \<times> message list \<times> (string \<times> Record) set"

inductive outbox_step :: "(float64 \<Rightarrow> bool) \<Rightarrow> int \<Rightarrow> outbox_system \<Rightarrow> outbox_system \<Rightarrow> bool" for okq maxA where
  os_tx: "order_tx okq d d' \<Longrightarrow> outbox_step okq maxA (d, S, H) (d', S, H)"
| os_claim: "Claim clock w batch maxA lease now d = (rs, n, d') \<Longrightarrow>
    outbox_step okq maxA (d, S, H) (d', S, H \<union> {w} \<times> set rs)"
| os_publish: "(pub_workerID p, r) \<in> H \<Longrightarrow> pub_repo p = order_store down \<Longrightarrow> oc_MaxAttempts (pub_cfg p) = maxA \<Longrightarrow>
    publishOne p env r \<lparr>ps_store = d, ps_status = st, ps_sent = S\<rparr> = \<lparr>ps_store = d', ps_status = st', ps_sent = S'\<rparr> \<Longrightarrow>
    outbox_step okq maxA (d, S, H) (d', S', H)"

inductive_cases outbox_stepE: "outbox_step okq maxA s s'"

definition row_ok :: "int \<Rightarrow> message list \<Rightarrow> outbox_row \<Rightarrow> bool" where
  "row_ok maxA S r \<longleftrightarrow>
     (ob_published_at r \<noteq> None \<longrightarrow> message_of (scanRecord r) \<in> set S) \<and>
     0 \<le> ob_attempt_count r \<and> ob_attempt_count r \<le> maxA \<and>
     (ob_locked_by r \<noteq> None \<longrightarrow> ob_attempt_count r < maxA)"

definition outbox_ok :: "int \<Rightarrow> outbox_system \<Rightarrow> bool" where
  "outbox_ok maxA s \<longleftrightarrow> (case s of (d, S, H) \<Rightarrow> outbox_in_step d \<and>
     (\<forall>i r. outbox_row_by d i = Some r \<longrightarrow> row_ok maxA S r) \<and>
     (\<forall>c\<in>snd ` H. \<exists>r. outbox_row_by d (rc_ID c) = Some r \<and> message_of (scanRecord r) = message_of c))"

lemma outbox_row_by_id: "outbox_row_by d i = Some r \<Longrightarrow> ob_id r = i"
  using find_by_Some [of ob_id i "order_outbox d" r] by (simp add: outbox_row_by_def)

lemma order_tx_outbox:
  assumes "order_tx okq d d'"
  obtains rows where "order_outbox d' = order_outbox d @ rows" "\<forall>x\<in>set rows. fresh_row x"
    "outbox_in_step d \<Longrightarrow> outbox_in_step d'"
  using order_tx_keeps [OF assms] unfolding keeps_rows_def records_def by blast

lemma row_ok_fresh: "fresh_row x \<Longrightarrow> 0 \<le> maxA \<Longrightarrow> row_ok maxA S x"
  by (simp add: fresh_row_def row_ok_def)

lemma outbox_ok_tx:
  assumes "order_tx okq d d'" "outbox_ok maxA (d, S, H)" "0 \<le> maxA" shows "outbox_ok maxA (d', S, H)"
proof (rule order_tx_outbox [OF assms(1)])
  fix rows
  assume r: "order_outbox d' = order_outbox d @ rows" "\<forall>x\<in>set rows. fresh_row x"
    "outbox_in_step d \<Longrightarrow> outbox_in_step d'"
  have rowby: "outbox_row_by d' i = (case outbox_row_by d i of None \<Rightarrow> find_by ob_id i rows | Some x \<Rightarrow> Some x)" for i
    by (simp add: outbox_row_by_def r(1) find_by_append)
  have "row_ok maxA S x" if x: "outbox_row_by d' i = Some x" for i x
  proof (cases "outbox_row_by d i")
    case None
    then have "x \<in> set rows" using x find_by_Some [of ob_id i rows x] by (simp add: rowby)
    then show ?thesis using r(2) row_ok_fresh assms(3) by blast
  next
    case (Some y)
    then show ?thesis using x assms(2) by (simp add: rowby outbox_ok_def)
  qed
  moreover have "\<exists>x. outbox_row_by d' (rc_ID c) = Some x \<and> message_of (scanRecord x) = message_of c"
    if c: "c \<in> snd ` H" for c
  proof -
    obtain x where "outbox_row_by d (rc_ID c) = Some x" "message_of (scanRecord x) = message_of c"
      using assms(2) c unfolding outbox_ok_def prod.case by blast
    then show ?thesis by (simp add: rowby)
  qed
  ultimately show ?thesis using r(3) assms(2) unfolding outbox_ok_def prod.case by blast
qed

lemma outbox_ok_claim:
  assumes "Claim clock w batch maxA lease now d = (rs, n, d')" "outbox_ok maxA (d, S, H)"
  shows "outbox_ok maxA (d', S, H \<union> {w} \<times> set rs)"
proof -
  have in_step: "outbox_in_step d" and dist: "distinct (map ob_id (order_outbox d))"
    using assms(2) by (simp_all add: outbox_ok_def outbox_in_step_def)
  note c = Claim_rows [OF assms(1) dist]
  have rowby: "outbox_row_by d' i = map_option (\<lambda>r. if ob_id r \<in> rc_ID ` set rs then lock_row w now lease r else r)
      (outbox_row_by d i)" for i
  proof -
    have k: "ob_id (lock_row w now lease r) = ob_id r" for r by (simp add: lock_row_def)
    show ?thesis unfolding outbox_row_by_def using c by (simp add: find_by_upd_where k)
  qed
  have "row_ok maxA S x" if x: "outbox_row_by d' i = Some x" for i x
  proof -
    obtain y where y: "outbox_row_by d i = Some y"
      "x = (if ob_id y \<in> rc_ID ` set rs then lock_row w now lease y else y)" using x by (auto simp: rowby)
    have ok: "row_ok maxA S y" using y(1) assms(2) by (simp add: outbox_ok_def)
    show ?thesis
    proof (cases "ob_id y \<in> rc_ID ` set rs")
      case True
      have "y \<in> set (order_outbox d)" using y(1) outbox_row_by_iff [OF dist] by blast
      then have "claimable maxA now y" using c True by blast
      moreover have "message_of (scanRecord (lock_row w now lease y)) = message_of (scanRecord y)"
        using marked_same(4) [of y w now lease] unfolding same_message_def by blast
      ultimately show ?thesis
        using ok y(2) True by (simp add: row_ok_def claimable_def lock_row_def)
    next
      case False
      then show ?thesis using ok y(2) by simp
    qed
  qed
  moreover have "\<exists>x. outbox_row_by d' (rc_ID e) = Some x \<and> message_of (scanRecord x) = message_of e"
    if e: "e \<in> snd ` (H \<union> {w} \<times> set rs)" for e
  proof -
    have "\<exists>y. outbox_row_by d (rc_ID e) = Some y \<and> message_of (scanRecord y) = message_of e"
    proof (cases "e \<in> set rs")
      case True
      then obtain r where "r \<in> set (order_outbox d)" "ob_id r = rc_ID e" "message_of (scanRecord r) = message_of e"
        using c by blast
      then show ?thesis using outbox_row_by_iff [OF dist] by blast
    next
      case False
      then have "e \<in> snd ` H" using e by auto
      then show ?thesis using assms(2) unfolding outbox_ok_def prod.case by blast
    qed
    then obtain y where y: "outbox_row_by d (rc_ID e) = Some y" "message_of (scanRecord y) = message_of e" by blast
    have "message_of (scanRecord (lock_row w now lease y)) = message_of (scanRecord y)"
      using marked_same(4) [of y w now lease] unfolding same_message_def by blast
    then show ?thesis using y by (simp add: rowby)
  qed
  moreover have "outbox_in_step d'"
    using in_step_upd_where [OF in_step] c by simp
  ultimately show ?thesis unfolding outbox_ok_def prod.case by blast
qed

lemma outbox_ok_publish:
  assumes "(pub_workerID p, r) \<in> H" "pub_repo p = order_store down" "oc_MaxAttempts (pub_cfg p) = maxA"
    "publishOne p env r \<lparr>ps_store = d, ps_status = st, ps_sent = S\<rparr> = \<lparr>ps_store = d', ps_status = st', ps_sent = S'\<rparr>"
    "outbox_ok maxA (d, S, H)"
  shows "outbox_ok maxA (d', S', H)"
proof -
  let ?s = "\<lparr>ps_store = d, ps_status = st, ps_sent = S\<rparr>"
  have in_step: "outbox_in_step (ps_store ?s)" using assms(5) by (simp add: outbox_ok_def)
  note pub = repository.publishOne_settled [OF assms(2) in_step, of env r, unfolded assms(4)]
  obtain new where new: "outbox_in_step d'" "\<And>j. j \<noteq> rc_ID r \<Longrightarrow> outbox_row_by d' j = outbox_row_by d j"
    "S' = S @ new" "set new \<subseteq> {message_of r}" and
    out: "outbox_row_by d' (rc_ID r) = outbox_row_by d (rc_ID r) \<or>
       (\<exists>x. outbox_row_by d (rc_ID r) = Some x \<and> owned (rc_ID r) (pub_workerID p) x \<and>
          (outbox_row_by d' (rc_ID r) = Some (published_row (pe_now env) x) \<and> new = [message_of r] \<or>
           (\<exists>err. outbox_row_by d' (rc_ID r) = Some (terminal_row (pe_now env) err x)) \<or>
           (\<exists>due err. outbox_row_by d' (rc_ID r) = Some (failed_row due err x))))"
    using pub unfolding repository.settled_def pub_state.simps by blast
  have "r \<in> snd ` H" using assms(1) by force
  then obtain x0 where x0: "outbox_row_by d (rc_ID r) = Some x0" "message_of (scanRecord x0) = message_of r"
    using assms(5) unfolding outbox_ok_def prod.case by blast
  have ok0: "row_ok maxA S x0" using x0(1) assms(5) by (simp add: outbox_ok_def)
  have grow: "row_ok maxA S y \<Longrightarrow> row_ok maxA S' y" for y by (auto simp: row_ok_def new(3))
  have upd: "\<exists>x. outbox_row_by d' (rc_ID r) = Some x \<and> same_message x0 x \<and> row_ok maxA S' x"
  proof (cases "outbox_row_by d' (rc_ID r) = outbox_row_by d (rc_ID r)")
    case True
    then show ?thesis using x0 grow [OF ok0] by (simp add: same_message_def)
  next
    case False
    then have own: "ob_locked_by x0 \<noteq> None" "ob_published_at x0 = None" and
      ch: "outbox_row_by d' (rc_ID r) = Some (published_row (pe_now env) x0) \<and> new = [message_of r] \<or>
           (\<exists>err. outbox_row_by d' (rc_ID r) = Some (terminal_row (pe_now env) err x0)) \<or>
           (\<exists>due err. outbox_row_by d' (rc_ID r) = Some (failed_row due err x0))"
      using out x0(1) by (auto simp: owned_def)
    have at: "0 \<le> ob_attempt_count x0" "ob_attempt_count x0 < maxA" using ok0 own by (auto simp: row_ok_def)
    have m: "message_of (scanRecord (published_row (pe_now env) x0)) = message_of r"
      using marked_same(1) [of x0 "pe_now env"] x0(2) unfolding same_message_def by simp
    have "row_ok maxA S' (published_row (pe_now env) x0)" if "new = [message_of r]"
      using at m that unfolding row_ok_def new(3) by (simp add: published_row_def unlocked_def)
    moreover have "row_ok maxA S' (terminal_row (pe_now env) err x0)" for err
      using at own by (simp add: row_ok_def terminal_row_def unlocked_def)
    moreover have "row_ok maxA S' (failed_row due err x0)" for due err
      using at own by (simp add: row_ok_def failed_row_def unlocked_def)
    ultimately show ?thesis using ch marked_same by metis
  qed
  have "row_ok maxA S' y" if y: "outbox_row_by d' i = Some y" for i y
  proof (cases "i = rc_ID r")
    case True
    then show ?thesis using upd y by auto
  next
    case False
    then have "outbox_row_by d i = Some y" using y new(2) by simp
    then show ?thesis using assms(5) grow unfolding outbox_ok_def prod.case by blast
  qed
  moreover have "\<exists>y. outbox_row_by d' (rc_ID c) = Some y \<and> message_of (scanRecord y) = message_of c"
    if c: "c \<in> snd ` H" for c
  proof -
    obtain y where y: "outbox_row_by d (rc_ID c) = Some y" "message_of (scanRecord y) = message_of c"
      using assms(5) c unfolding outbox_ok_def prod.case by blast
    show ?thesis
    proof (cases "rc_ID c = rc_ID r")
      case True
      then show ?thesis using upd y x0 by (auto simp: same_message_def)
    next
      case False
      then show ?thesis using y new(2) by simp
    qed
  qed
  ultimately show ?thesis using new(1) unfolding outbox_ok_def prod.case by blast
qed

lemma outbox_ok_step: "outbox_step okq maxA s s' \<Longrightarrow> outbox_ok maxA s \<Longrightarrow> 0 \<le> maxA \<Longrightarrow> outbox_ok maxA s'"
proof (induction rule: outbox_step.induct)
  case (os_publish p r H down env d st S d' st' S')
  then show ?case by (intro outbox_ok_publish [OF os_publish(1-4)])
qed (auto intro: outbox_ok_tx outbox_ok_claim)

text \<open>C30: publishing at least once. In every interleaving of transactions, claims and publications, by any
  number of workers and with any failures of the producer or the database, a row is marked published
  only when the producer has accepted its message, no row is attempted more often than the limit, and
  the outbox stays in step with the events.\<close>

theorem published_rows_were_sent:
  assumes "(outbox_step okq maxA)\<^sup>*\<^sup>* (d, S, H) (d', S', H')" "outbox_ok maxA (d, S, H)" "0 \<le> maxA"
  shows "outbox_in_step d' \<and> (\<forall>r\<in>set (order_outbox d').
    (ob_published_at r \<noteq> None \<longrightarrow> message_of (scanRecord r) \<in> set S') \<and> ob_attempt_count r \<le> maxA)"
proof -
  have "outbox_ok maxA (d', S', H')"
    using assms(1,2)
    by (induction "(d', S', H')" arbitrary: d' S' H' rule: rtranclp_induct)
      (auto intro: outbox_ok_step assms(3))
  then have ok: "outbox_in_step d'" "\<And>i r. outbox_row_by d' i = Some r \<Longrightarrow> row_ok maxA S' r"
    by (simp_all add: outbox_ok_def)
  have "row_ok maxA S' r" if "r \<in> set (order_outbox d')" for r
    using that ok outbox_row_by_iff [of d' "ob_id r" r] by (simp add: outbox_in_step_def)
  then show ?thesis using ok(1) unfolding row_ok_def by blast
qed


text \<open>delivery. When the payload is valid, the producer accepts the message and the database answers, a
  record whose row this worker holds is published in the same call, and the error counter is
  cleared.\<close>

theorem publish_delivers:
  assumes "pub_repo p = order_store down" "down (pe_now env) = None" "pe_valid env (rc_Payload r)"
    "pe_publish env (message_of r) = None" "outbox_in_step (ps_store s)"
    "outbox_row_by (ps_store s) (rc_ID r) = Some x" "owned (rc_ID r) (pub_workerID p) x"
  shows "outbox_row_by (ps_store (publishOne p env r s)) (rc_ID r) = Some (published_row (pe_now env) x) \<and>
    ps_sent (publishOne p env r s) = ps_sent s @ [message_of r] \<and>
    st_ConsecutiveErrors (ps_status (publishOne p env r s)) = 0 \<and>
    st_LastPublished (ps_status (publishOne p env r s)) = Some (pe_now env)"
proof -
  obtain u d' where m: "mark_rows (rc_ID r) (pub_workerID p) (published_row (pe_now env)) (ps_store s) = (u, d')"
    by fastforce
  have mk: "marks outbox_row_by (rc_ID r) (pub_workerID p) (published_row (pe_now env)) u (ps_store s) d'"
    using mark_rows_marks [OF m assms(5)] by simp
  then have u: "u" "outbox_row_by d' (rc_ID r) = Some (published_row (pe_now env) x)"
    using assms(6,7) by (simp_all add: marks_def)
  have "st_MarkPublished (order_store down) (rc_ID r) (pub_workerID p) (pe_now env) (ps_store s) = Inr (u, d')"
    using assms(2) m by (simp add: order_store_def MarkPublished_def)
  then show ?thesis
    using u assms(1,3,4)
    by (simp add: publishOne_def Let_def clearConsecutiveErrors_def setLastPublished_def)
qed

subsection \<open>Concrete cases\<close>

definition ex_event :: OrderEvent where
  "ex_event = empty_event\<lparr>e_EventID := ''e-1'', e_EventType := ''order.created'', e_OrderID := ''o-1''\<rparr>"

definition ex_outbox :: db where
  "ex_outbox = ex_db\<lparr>order_events := [ex_event], order_outbox := [outbox_row_of ex_event ''x-1'' 0]\<rparr>"

definition ex_claimed :: db where
  "ex_claimed = snd (snd (Claim 10 ''w'' 5 3 60 10 ex_outbox))"

definition ex_publisher :: "db Publisher" where
  "ex_publisher = \<lparr>pub_repo = order_store (\<lambda>t. None), pub_cfg = \<lparr>oc_BatchSize = 5, oc_LeaseDuration = 60,
     oc_BaseBackoff = 1, oc_MaxBackoff = 8, oc_MaxAttempts = 3, oc_ErrorMaxLength = 64\<rparr>,
     pub_backoff = \<lparr>bo_Base = 1, bo_Max = 8, bo_JitterPct = 0\<rparr>, pub_workerID = ''w''\<rparr>"

definition ex_env :: pub_env where
  "ex_env = \<lparr>pe_valid = (\<lambda>e. True), pe_publish = (\<lambda>m. None), pe_now = 20, pe_random = (\<lambda>n. 0), pe_done = False\<rparr>"

definition ex_pub_state :: "db pub_state" where
  "ex_pub_state = \<lparr>ps_store = ex_claimed, ps_status = Snapshot 10 ex_claimed, ps_sent = []\<rparr>"

abbreviation "ex_record \<equiv> scanRecord (outbox_row_of ex_event ''x-1'' 0)"

lemma ex_outbox_in_step: "outbox_in_step ex_outbox"
  by (simp add: outbox_in_step_def ex_outbox_def outbox_row_of_def)

lemma ex_claim: "order_outbox ex_claimed = [lock_row ''w'' 10 60 (outbox_row_of ex_event ''x-1'' 0)]"
  by (simp add: ex_claimed_def Claim_def claim_rows_def claimable_def ex_outbox_def outbox_row_of_def
      scanRecords_def scanRecord_def limit_rows_def upd_where_def Let_def)

lemma ex_claim_events: "order_events ex_claimed = [ex_event]"
  by (simp add: ex_claimed_def Claim_def ex_outbox_def Let_def)

lemma ex_claimed_in_step: "outbox_in_step ex_claimed"
  by (simp add: outbox_in_step_def ex_claim ex_claim_events lock_row_def outbox_row_of_def)

lemma retry_delay_bounds_witness:
  "0 \<le> Delay (\<lambda>n. 0) (projr (NewBackoff Second Minute)) 3 \<and> Delay (\<lambda>n. 0) (projr (NewBackoff Second Minute)) 3 \<le> Minute"
  using retry_delay_bounds [of Second Minute "projr (NewBackoff Second Minute)" "\<lambda>n. 0" 3]
  by (simp add: NewBackoff_def Second_def Minute_def)


lemma claims_exclusive_witness:
  "rc_ID ` set (fst (Claim 10 ''w'' 5 3 60 10 ex_outbox)) \<inter> rc_ID ` set (fst (Claim 30 ''v'' 5 3 60 30 ex_claimed)) = {}"
proof -
  let ?c = "Claim 10 ''w'' 5 3 60 10 ex_outbox" and ?e = "Claim 30 ''v'' 5 3 60 30 ex_claimed"
  have "?c = (fst ?c, fst (snd ?c), ex_claimed)" by (simp add: ex_claimed_def)
  moreover have "?e = (fst ?e, fst (snd ?e), snd (snd ?e))" by simp
  ultimately show ?thesis by (rule claims_exclusive [OF _ _ ex_outbox_in_step]) simp
qed

lemma published_rows_were_sent_witness:
  "outbox_in_step ex_claimed"
proof -
  let ?c = "Claim 10 ''w'' 5 3 60 10 ex_outbox"
  have "outbox_step whole 3 (ex_outbox, [], {}) (ex_claimed, [], {} \<union> {''w''} \<times> set (fst ?c))"
    by (rule os_claim [of 10 "''w''" 5 3 60 10 ex_outbox "fst ?c" "fst (snd ?c)"]) (simp add: ex_claimed_def)
  moreover have "outbox_ok 3 (ex_outbox, [], {})"
    using ex_outbox_in_step
    by (simp add: outbox_ok_def outbox_row_by_def ex_outbox_def sql_simps row_ok_def outbox_row_of_def)
  ultimately show ?thesis using published_rows_were_sent [OF r_into_rtranclp] by force
qed

lemma publish_delivers_witness:
  "ps_sent (publishOne ex_publisher ex_env ex_record ex_pub_state) = [message_of ex_record]"
  using publish_delivers [of ex_publisher "\<lambda>t. None" ex_env ex_record ex_pub_state
      "lock_row ''w'' 10 60 (outbox_row_of ex_event ''x-1'' 0)"] ex_claimed_in_step
  by (simp add: ex_publisher_def ex_pub_state_def ex_env_def outbox_row_by_def ex_claim sql_simps scanRecord_def
      outbox_row_of_def owned_def lock_row_def)

end
