(* ===== verification/GoText.thy ===== *)
theory GoText
  imports GoFloat
begin

text \<open>
  Text the Go services build and read: integers, fixed-point amounts and durations as \<open>fmt\<close> prints
  them, joining and trimming, and JSON: what \<open>json.Unmarshal\<close> into a struct or a map reads of a decoded
  value.
\<close>

subsection \<open>Numbers as text\<close>

fun padded_digits :: "nat \<Rightarrow> int \<Rightarrow> string" where
  "padded_digits 0 n = ''''"
| "padded_digits (Suc k) n = padded_digits k (n div 10) @ [char_of (48 + n mod 10)]"

function int_text :: "int \<Rightarrow> string" where
  "int_text n = (if n < 10 then [char_of (48 + n)] else int_text (n div 10) @ [char_of (48 + n mod 10)])"
  by auto
termination by (relation "measure nat") auto

declare int_text.simps [simp del]

text \<open>\<open>fmt.Sprintf("%.sf", x)\<close> for positive \<open>s\<close>.\<close>

definition sprintf_f :: "nat \<Rightarrow> float64 \<Rightarrow> string" where
  "sprintf_f s x =
     (let n = rne (\<bar>x\<bar> * 10 ^ s)
      in (if x < 0 then ''-'' else '''') @ int_text (n div 10 ^ s) @ ''.'' @ padded_digits s (n mod 10 ^ s))"

text \<open>\<open>%d\<close> of an \<open>int\<close>.\<close>

definition sprintf_d :: "int \<Rightarrow> string" where
  "sprintf_d n = (if n < 0 then ''-'' @ int_text (- n) else int_text n)"

definition trim_right :: "char \<Rightarrow> string \<Rightarrow> string" where
  "trim_right c s = rev (dropWhile (\<lambda>x. x = c) (rev s))"

fun join_with :: "string \<Rightarrow> string list \<Rightarrow> string" where
  "join_with sep [] = ''''"
| "join_with sep [x] = x"
| "join_with sep (x # y # xs) = x @ sep @ join_with sep (y # xs)"

text \<open>\<open>time.Duration.String\<close>: hours, minutes and seconds without leading zero units, below a second
  the largest unit that gives an integer part, and a fraction without trailing zeros.\<close>

definition frac_text :: "nat \<Rightarrow> int \<Rightarrow> string" where
  "frac_text prec u = (let f = trim_right (CHR ''0'') (padded_digits prec (u mod 10 ^ prec))
     in if f = '''' then '''' else CHR ''.'' # f)"

definition duration_text :: "duration \<Rightarrow> string" where
  "duration_text d =
     (let u = \<bar>d\<bar>;
          text = (if u = 0 then ''0s''
                  else if u < 1000 then int_text u @ ''ns''
                  else if u < 1000000 then int_text (u div 1000) @ frac_text 3 u @ [CHR 0xC2, CHR 0xB5] @ ''s''
                  else if u < Second then int_text (u div 1000000) @ frac_text 6 u @ ''ms''
                  else let s = u div Second; m = s div 60
                       in (if m div 60 > 0 then int_text (m div 60) @ ''h'' else '''') @
                          (if m > 0 then int_text (m mod 60) @ ''m'' else '''') @
                          int_text (s mod 60) @ frac_text 9 u @ ''s'')
      in if d < 0 then CHR ''-'' # text else text)"

text \<open>\<open>Duration.Seconds\<close>, and \<open>int(x)\<close> of a float, which cuts towards zero.\<close>

definition seconds_of :: "duration \<Rightarrow> float64" where
  "seconds_of d = fl64 (fl64 (of_int (sgn d * (\<bar>d\<bar> div Second))) + fl64 (fl64 (of_int (sgn d * (\<bar>d\<bar> mod Second))) / 1000000000))"

definition trunc_int :: "float64 \<Rightarrow> int" where
  "trunc_int x = (if x < 0 then - \<lfloor>- x\<rfloor> else \<lfloor>x\<rfloor>)"

text \<open>\<open>strings.ToLower\<close> on ASCII text.\<close>

definition lower_char :: "char \<Rightarrow> char" where
  "lower_char c = (let n = of_char c :: int in if 65 \<le> n \<and> n \<le> 90 then char_of (n + 32) else c)"

definition to_lower :: "string \<Rightarrow> string" where
  "to_lower s = map lower_char s"

subsection \<open>Decoding JSON\<close>

text \<open>\<open>json.Unmarshal\<close> into a struct: a member belongs to the field whose tag it equals up to case, a
  null leaves the field alone, of several members the last one counts, and a member of another type is
  an error.\<close>

definition decode_field :: "(json \<Rightarrow> 'a option) \<Rightarrow> 'a \<Rightarrow> (string \<times> json) list \<Rightarrow> string \<Rightarrow> 'a option" where
  "decode_field conv zero raw tag =
     (let vs = map (\<lambda>m. conv (snd m)) (filter (\<lambda>m. to_upper (fst m) = to_upper tag \<and> snd m \<noteq> JNull) raw)
      in if None \<in> set vs then None else if vs = [] then Some zero else List.last vs)"

text \<open>For a pointer field a null resets the field.\<close>

definition decode_pointer :: "(json \<Rightarrow> 'a option) \<Rightarrow> (string \<times> json) list \<Rightarrow> string \<Rightarrow> 'a option option" where
  "decode_pointer conv raw tag =
     (let vs = map (\<lambda>m. if snd m = JNull then Some None else map_option Some (conv (snd m)))
            (filter (\<lambda>m. to_upper (fst m) = to_upper tag) raw)
      in if None \<in> set vs then None else if vs = [] then Some None else List.last vs)"

definition json_string :: "json \<Rightarrow> string option" where
  "json_string v = (case v of JStr s \<Rightarrow> Some s | _ \<Rightarrow> None)"

definition json_float :: "json \<Rightarrow> float64 option" where
  "json_float v = (case v of JNum q \<Rightarrow> Some q | _ \<Rightarrow> None)"

definition json_time :: "(string \<Rightarrow> time option) \<Rightarrow> json \<Rightarrow> time option" where
  "json_time rfc3339 v = (case v of JStr s \<Rightarrow> rfc3339 s | _ \<Rightarrow> None)"

definition json_members :: "json option \<Rightarrow> (string \<times> json) list option" where
  "json_members payload = (case payload of Some (JObj raw) \<Rightarrow> Some raw | Some JNull \<Rightarrow> Some [] | _ \<Rightarrow> None)"

text \<open>A member of a decoded map, JNull when there is none; of a repeated member the last one counts.\<close>

definition member_of :: "(string \<times> json) list \<Rightarrow> string \<Rightarrow> json" where
  "member_of raw key = (case map_of (rev raw) key of None \<Rightarrow> JNull | Some v \<Rightarrow> v)"

end
