(* ===== verification/StopTrigger.thy ===== *)
theory StopTrigger
  imports OrderLedger GoText
begin

text \<open>
  Stop orders beyond the repository: the worker of \<open>internal/stoptrigger/worker.go\<close> and the market
  price consumer of \<open>consumer.go\<close>, which feeds the reference prices. A decoded message is a JSON
  value, or None when it is not JSON; the Go interface \<open>ReferencePriceStore\<close> is a function on the
  store's state, with the locale \<open>reference_prices_kept\<close> for what the trigger relies on.
  Lemmas: a batch activates exactly the due stop orders it claims, once each; a price that a market
  event brings is the one the trigger reads.
\<close>

subsection \<open>The worker\<close>

record TriggerStats =
  ts_BatchSize :: int
  ts_MaxReferencePriceAge :: duration
  ts_Running :: bool
  ts_LastPollAt :: "time option"
  ts_LastSuccessfulPollAt :: "time option"
  ts_LastTriggeredAt :: "time option"
  ts_TriggeredInLastPoll :: int
  ts_ConsecutiveErrors :: int
  ts_LastError :: "repo_error option"

definition trigger_poll_error :: "time \<Rightarrow> repo_error \<Rightarrow> TriggerStats \<Rightarrow> TriggerStats" where
  "trigger_poll_error t err s = s\<lparr>ts_LastPollAt := Some t, ts_LastError := Some err,
     ts_ConsecutiveErrors := ts_ConsecutiveErrors s + 1\<rparr>"

text \<open>\<open>t\<close> is the clock when the poll ends.\<close>

definition trigger_poll :: "time \<Rightarrow> time \<Rightarrow> TriggerStats \<times> db \<Rightarrow> TriggerStats \<times> db" where
  "trigger_poll now t sd = (case sd of (s, d) \<Rightarrow>
     (case TriggerDueStopOrders (ts_BatchSize s) (ts_MaxReferencePriceAge s) now d of
        Inl err \<Rightarrow> (trigger_poll_error t err s, d)
      | Inr (result, d') \<Rightarrow>
          let s1 = s\<lparr>ts_LastPollAt := Some t, ts_LastSuccessfulPollAt := Some t,
                ts_TriggeredInLastPoll := br_Triggered result, ts_ConsecutiveErrors := 0,
                ts_LastError := None\<rparr>
          in (if br_Triggered result > 0 then s1\<lparr>ts_LastTriggeredAt := Some t\<rparr> else s1, d')))"

definition trigger_status :: "bool \<Rightarrow> TriggerStats \<Rightarrow> TriggerStats" where
  "trigger_status running s = s\<lparr>ts_Running := running\<rparr>"

subsection \<open>Market events\<close>

text \<open>A float64 with the values that are not numbers.\<close>

datatype go_float = Fin rat | NaN | PosInf | NegInf

definition is_digit_char :: "char \<Rightarrow> bool" where
  "is_digit_char c = (let n = of_char c :: nat in 48 \<le> n \<and> n \<le> 57)"

definition digits_value :: "string \<Rightarrow> int" where
  "digits_value s = foldl (\<lambda>a c. a * 10 + (of_char c - 48)) 0 s"

definition split_sign :: "string \<Rightarrow> bool \<times> string" where
  "split_sign s = (case s of [] \<Rightarrow> (False, [])
     | c # t \<Rightarrow> if c = CHR ''-'' then (True, t) else if c = CHR ''+'' then (False, t) else (False, s))"

text \<open>The decimal syntax of \<open>strconv.ParseFloat\<close>: digits with at most one point, an optional exponent;
  the hexadecimal syntax and the underscores it allows are not modelled.\<close>

definition parse_mantissa :: "string \<Rightarrow> (rat \<times> string) option" where
  "parse_mantissa s =
     (let a = takeWhile is_digit_char s; r = dropWhile is_digit_char s;
          pt = (r \<noteq> [] \<and> hd r = CHR ''.'');
          b = (if pt then takeWhile is_digit_char (tl r) else []);
          rest = (if pt then dropWhile is_digit_char (tl r) else r)
      in if a = [] \<and> b = [] then None
         else Some (of_int (digits_value (a @ b)) / 10 ^ length b, rest))"

definition parse_exponent :: "string \<Rightarrow> int option" where
  "parse_exponent s =
     (case s of [] \<Rightarrow> Some 0
      | c # t \<Rightarrow>
          if c = CHR ''e'' \<or> c = CHR ''E'' then
            (let (neg, ds) = split_sign t
             in if ds \<noteq> [] \<and> list_all is_digit_char ds
                then Some (if neg then - digits_value ds else digits_value ds) else None)
          else None)"

definition max_float64 :: rat where
  "max_float64 = (2 ^ 53 - 1) * 2 ^ 971"

definition ParseFloat :: "string \<Rightarrow> go_float option" where
  "ParseFloat s =
     (let (neg, body) = split_sign s; word = to_upper body
      in if word = ''INF'' \<or> word = ''INFINITY'' then Some (if neg then NegInf else PosInf)
         else if to_upper s = ''NAN'' then Some NaN
         else (case parse_mantissa body of
                 None \<Rightarrow> None
               | Some (m, rest) \<Rightarrow>
                   (case parse_exponent rest of
                      None \<Rightarrow> None
                    | Some e \<Rightarrow>
                        let x = fl64 ((if neg then - m else m) * 10 powi e)
                        in if \<bar>x\<bar> > max_float64 then None else Some (Fin x))))"

record MarketPriceUpdated =
  mp_EventType :: string
  mp_EventVersion :: string
  mp_TenantID :: string
  mp_Symbol :: string
  mp_Price :: go_float
  mp_Source :: string
  mp_EventTime :: time
  mp_CorrelationID :: string

text \<open>\<open>value, _ := raw[key].(string)\<close>\<close>

definition str_of :: "json \<Rightarrow> string" where
  "str_of v = (case v of JStr s \<Rightarrow> s | _ \<Rightarrow> '''')"

definition price_numeric :: "json \<Rightarrow> go_float option" where
  "price_numeric v = (case v of JNum q \<Rightarrow> Some (Fin q) | JStr s \<Rightarrow> ParseFloat (trim_space s) | _ \<Rightarrow> None)"

definition not_positive_price :: "go_float \<Rightarrow> bool" where
  "not_positive_price p = (case p of Fin q \<Rightarrow> q \<le> 0 | NaN \<Rightarrow> False | PosInf \<Rightarrow> False | NegInf \<Rightarrow> True)"

datatype market_error = EJson | EEventType | EPrice | ETime | ESymbol | EPositive | EStore repo_error

text \<open>The event built from the members, and the two checks on it.\<close>

definition checked_event :: "string \<Rightarrow> string \<Rightarrow> string \<Rightarrow> string \<Rightarrow> go_float \<Rightarrow> string \<Rightarrow> time \<Rightarrow> string
    \<Rightarrow> market_error + MarketPriceUpdated" where
  "checked_event eventType eventVersion tenantID symbol price source eventTime corr =
     (let event = \<lparr>mp_EventType = eventType, mp_EventVersion = eventVersion,
            mp_TenantID = trim_space tenantID, mp_Symbol = to_upper (trim_space symbol),
            mp_Price = price, mp_Source = trim_space source, mp_EventTime = eventTime,
            mp_CorrelationID = trim_space corr\<rparr>
      in if mp_Symbol event = '''' then Inl ESymbol
         else if not_positive_price (mp_Price event) then Inl EPositive
         else Inr event)"

text \<open>\<open>rfc3339\<close> is \<open>time.Parse\<close> with that layout, \<open>clock\<close> is \<open>time.Now\<close>.\<close>

definition parseMarketPriceEvent ::
    "(string \<Rightarrow> time option) \<Rightarrow> time \<Rightarrow> json option \<Rightarrow> market_error + MarketPriceUpdated" where
  "parseMarketPriceEvent rfc3339 clock payload =
     and_then (case payload of Some (JObj raw) \<Rightarrow> Inr raw | Some JNull \<Rightarrow> Inr [] | _ \<Rightarrow> Inl EJson) (\<lambda>raw.
     let eventType = str_of (member_of raw ''eventType'')
     in if eventType \<noteq> '''' \<and> eventType \<noteq> ''market.price.updated'' \<and> eventType \<noteq> ''market.tick.received'' \<and>
           eventType \<noteq> ''market.ticks'' \<and> eventType \<noteq> ''market.tick.normalized''
        then Inl EEventType
        else
          let tenant0 = str_of (member_of raw ''tenantId'');
              tenantID = (if trim_space tenant0 = '''' then default_tenant_id else tenant0);
              symbol = str_of (member_of raw ''symbol'');
              source0 = str_of (member_of raw ''source'');
              source = (if trim_space source0 = '''' then ''market-data-service'' else source0);
              corr = str_of (member_of raw ''correlationId'')
          in (case price_numeric (member_of raw ''price'') of
                None \<Rightarrow> Inl EPrice
              | Some price \<Rightarrow>
                  and_then (let value = str_of (member_of raw ''eventTime'')
                            in if value = '''' then Inr clock
                               else (case rfc3339 value of None \<Rightarrow> Inl ETime | Some t \<Rightarrow> Inr t)) (\<lambda>eventTime.
                  checked_event eventType (str_of (member_of raw ''eventVersion'')) tenantID symbol price source
                    eventTime corr)))"

text \<open>The interface \<open>ReferencePriceStore\<close>.\<close>

type_synonym 's price_store = "time \<Rightarrow> string \<Rightarrow> string \<Rightarrow> go_float \<Rightarrow> string \<Rightarrow> time \<Rightarrow> 's \<Rightarrow> repo_error + 's"

definition handle :: "'s price_store \<Rightarrow> (string \<Rightarrow> time option) \<Rightarrow> time \<Rightarrow> json option \<Rightarrow> 's \<Rightarrow> market_error + 's" where
  "handle store rfc3339 clock msg s =
     and_then (parseMarketPriceEvent rfc3339 clock msg) (\<lambda>event.
       case store clock (mp_TenantID event) (mp_Symbol event) (mp_Price event) (mp_Source event)
              (mp_EventTime event) s of
         Inl err \<Rightarrow> Inl (EStore err)
       | Inr s' \<Rightarrow> Inr s')"

text \<open>One round of the loop of \<open>Run\<close> for a fetched message; \<open>commitFails\<close> is the error of
  \<open>CommitMessages\<close>. The message is committed whether or not it was handled.\<close>

record 's consumer =
  co_store :: 's
  co_committed :: nat
  co_errors :: "market_error list"

definition consume_one :: "'s price_store \<Rightarrow> (string \<Rightarrow> time option) \<Rightarrow> time \<Rightarrow> bool \<Rightarrow> json option
    \<Rightarrow> 's consumer \<Rightarrow> 's consumer" where
  "consume_one store rfc3339 clock commitFails msg c =
     (let c1 = (case handle store rfc3339 clock msg (co_store c) of
                  Inl err \<Rightarrow> c\<lparr>co_errors := co_errors c @ [err]\<rparr>
                | Inr s' \<Rightarrow> c\<lparr>co_store := s'\<rparr>)
      in if commitFails then c1 else c1\<lparr>co_committed := co_committed c1 + 1\<rparr>)"

text \<open>The repository as the store. A NUMERIC of the model is a rational: prices that are no numbers are
  refused here, where Postgres would store the NaN.\<close>

definition db_price_store :: "db price_store" where
  "db_price_store now tenantID symbol price source updatedAt d =
     (case price of
        Fin q \<Rightarrow> UpsertMarketReferencePrice now tenantID symbol q source updatedAt d
      | _ \<Rightarrow> Inl (ErrConstraint ''reference_prices_price''))"


subsection \<open>Rows a match can touch\<close>

definition same_trigger :: "order_row \<Rightarrow> order_row \<Rightarrow> bool" where
  "same_trigger r r' \<longleftrightarrow> t_id r' = t_id r \<and> t_triggered_at r' = t_triggered_at r \<and>
     t_order_type r' = t_order_type r"

definition changed_only :: "string set \<Rightarrow> db \<Rightarrow> db \<Rightarrow> bool" where
  "changed_only I d d' \<longleftrightarrow> list_all2 (\<lambda>r r'. same_trigger r r' \<and> (t_id r \<notin> I \<longrightarrow> r' = r)) (orders d) (orders d')"

lemma changed_only_refl: "orders d' = orders d \<Longrightarrow> changed_only I d d'"
  by (simp add: changed_only_def same_trigger_def list_all2_same)

lemma changed_only_trans:
  assumes "changed_only I d1 d2" "changed_only I d2 d3" shows "changed_only I d1 d3"
  using assms unfolding changed_only_def
  by (rule list_all2_trans [rotated]) (auto simp: same_trigger_def)

lemma changed_only_persist:
  assumes "persistOrderState now ch d = Inr d'" "o_ID ch \<in> I" shows "changed_only I d d'"
proof -
  have o': "orders d' = upd_where (\<lambda>r. t_id r = o_ID ch \<and> row_tenant r = o_TenantID ch) (set_order_state now d ch) (orders d)"
    using assms(1) by (simp add: persistOrderState_def update_orders_Inr)
  show ?thesis
    unfolding changed_only_def o' using assms(2)
    by (intro list_all2_upd_where) (auto simp: same_trigger_def)
qed

lemma match_loop_ids:
  "match_loop now cs inc = (inc', ms, xs) \<Longrightarrow> set (map m_ID ms) \<subseteq> set (map m_ID cs)"
proof (induction now cs inc arbitrary: inc' ms xs rule: match_loop.induct)
  case (1 now inc)
  then show ?case by simp
next
  case (2 now c cs inc)
  show ?case
  proof (cases "m_RemainingQuantity inc = 0 \<or> \<not> crosses inc c")
    case True
    then show ?thesis using "2.prems" by (auto split: if_splits)
  next
    case go: False
    show ?thesis
    proof (cases "m_LimitPrice c = None \<or> minRat (m_RemainingQuantity inc) (m_RemainingQuantity c) = 0")
      case True
      then have "match_loop now cs inc = (inc', ms, xs)"
        using "2.prems" go by (auto simp: Let_def split: option.splits)
      note l = this
      have ih: "set (map m_ID ms) \<subseteq> set (map m_ID cs)"
      proof (cases "m_LimitPrice c")
        case None
        show ?thesis by (rule "2.IH"(1)) (use go None l in auto)
      next
        case (Some a)
        show ?thesis by (rule "2.IH"(2)) (use go Some True l in auto)
      qed
      then show ?thesis by auto
    next
      case False
      then obtain p where p: "m_LimitPrice c = Some p" by auto
      let ?q = "minRat (m_RemainingQuantity inc) (m_RemainingQuantity c)"
      obtain i m x where l: "match_loop now cs (fill_order ?q inc) = (i, m, x)"
        by (cases "match_loop now cs (fill_order ?q inc)") auto
      then have ms: "ms = fill_order ?q c # m" using "2.prems" go False p by (simp add: Let_def)
      have "set (map m_ID m) \<subseteq> set (map m_ID cs)" using "2.IH"(3) go False p l by simp
      then show ?thesis unfolding ms by auto
    qed
  qed
qed

lemma Match_resting_ids:
  assumes "Match inc resting now = Some r" shows "m_ID ` set (r_Resting r) \<subseteq> m_ID ` set resting"
  using assms
proof (cases rule: Match_cases)
  case killed
  then show ?thesis by simp
next
  case (matched inc' ms xs)
  then show ?thesis using match_loop_ids [OF matched(3)] set_candidates_of [of inc resting] by auto
qed

lemma match_touches:
  assumes "matchAcceptedOrder now order d = Inr (order', evs, d')"
  shows "changed_only (insert (o_ID order) (t_id ` {r \<in> set (orders d). t_order_type r = OrderTypeLimit})) d d'"
proof (rule matchAcceptedOrder_Inr [OF assms])
  fix r os rows d2
  let ?I = "insert (o_ID order) (t_id ` {r \<in> set (orders d). t_order_type r = OrderTypeLimit})"
  assume M: "Match (FromDomain order) (loadRestingOrders d order) now = Some r"
    and o': "order' = updateOrderLifecycleFromFill now (ApplyToDomain (r_Incoming r) order) (r_Incoming r) (r_Cancelled r)"
    and lc: "list_all2 (\<lambda>m ch. \<exists>ro. GetOrder (o_TenantID order) (m_ID m) d = Inr ro \<and>
       ch = updateOrderLifecycleFromFill now (ApplyToDomain m ro) m False) (r_Resting r) os"
    and d2: "orders d2 = orders d"
    and p: "fold_steps (persistOrderState now)
       (os @ (if r_Executions r \<noteq> [] \<or> r_Cancelled r then [order'] else [])) d2 = Inr d'"
  have "map o_ID os = map m_ID (r_Resting r)" by (rule map_ids_changed [OF lc]) (auto dest: GetOrder_id)
  then have "o_ID ` set os = m_ID ` set (r_Resting r)" by (metis list.set_map)
  also have "\<dots> \<subseteq> m_ID ` set (loadRestingOrders d order)" by (rule Match_resting_ids [OF M])
  also have "\<dots> \<subseteq> ?I"
    by (auto simp: loadRestingOrders_def FromDomain_def)
  finally have ids: "o_ID ch \<in> ?I"
    if "ch \<in> set (os @ (if r_Executions r \<noteq> [] \<or> r_Cancelled r then [order'] else []))" for ch
    using that o' by (auto split: if_splits)
  have "changed_only ?I d2 d'"
    by (rule fold_steps_invariant [where I = "changed_only ?I d2", OF _ changed_only_refl [OF refl] p])
      (rule changed_only_trans, assumption, rule changed_only_persist, assumption, rule ids)
  then show ?thesis by (simp add: changed_only_def d2)
qed

subsection \<open>What a batch triggers\<close>

definition due_to_trigger :: "time \<Rightarrow> duration \<Rightarrow> db \<Rightarrow> order_row \<Rightarrow> bool" where
  "due_to_trigger now age d r = (case trigger_due now age d r of
     None \<Rightarrow> False
   | Some p \<Rightarrow> ShouldTrigger (t_side r) (t_order_type r) (fl64 (coalesce (t_stop_price r) 0)) (fl64 (rp_price p)))"

definition activated :: "time \<Rightarrow> order_row \<Rightarrow> order_row \<Rightarrow> bool" where
  "activated now r r' \<longleftrightarrow> t_id r' = t_id r \<and> t_triggered_at r' = Some now \<and>
     t_order_type r' = ActivatedOrderType (t_order_type r)"

text \<open>The progress of the loop: \<open>T\<close> are the ids of the candidates handled so far that should trigger.\<close>

definition trigger_progress :: "time \<Rightarrow> string set \<Rightarrow> order_row list \<Rightarrow> order_row list \<Rightarrow> bool" where
  "trigger_progress now T rs rs' \<longleftrightarrow> list_all2 (\<lambda>r r'.
     if t_id r \<in> T then activated now r r'
     else same_trigger r r' \<and> (t_order_type r \<in> {OrderTypeStop, OrderTypeStopLimit} \<longrightarrow> r' = r)) rs rs'"

lemma progress_row:
  assumes "trigger_progress now T rs rs'" "distinct (map t_id rs)" "r \<in> set rs"
  shows "distinct (map t_id rs') \<and> (\<exists>r'. find_by t_id (t_id r) rs' = Some r' \<and>
    (if t_id r \<in> T then activated now r r'
     else same_trigger r r' \<and> (t_order_type r \<in> {OrderTypeStop, OrderTypeStopLimit} \<longrightarrow> r' = r)))"
proof -
  let ?R = "\<lambda>r r'. if t_id r \<in> T then activated now r r'
     else same_trigger r r' \<and> (t_order_type r \<in> {OrderTypeStop, OrderTypeStopLimit} \<longrightarrow> r' = r)"
  have la: "list_all2 ?R rs rs'" using assms(1) by (simp add: trigger_progress_def)
  then have ids: "map t_id rs' = map t_id rs"
    by (induction rule: list_all2_induct) (auto simp: activated_def same_trigger_def split: if_splits)
  obtain k where k: "k < length rs" "r = rs ! k" using assms(3) by (auto simp: in_set_conv_nth)
  have "?R r (rs' ! k)" "rs' ! k \<in> set rs'" using la k by (auto simp: list_all2_conv_all_nth)
  moreover have "t_id (rs' ! k) = t_id r" using ids k by (metis length_map nth_map)
  ultimately show ?thesis
    using find_by_unique [of t_id rs' "rs' ! k"] ids assms(2) by metis
qed

lemma ShouldTrigger_stop: "ShouldTrigger s ty p q \<Longrightarrow> ty \<in> {OrderTypeStop, OrderTypeStopLimit}"
  by (auto simp: ShouldTrigger_def split: if_splits)

lemma ActivatedOrderType_not_stop: "ActivatedOrderType ty \<notin> {OrderTypeStop, OrderTypeStopLimit}"
  by (simp add: ActivatedOrderType_def)

lemma progress_step:
  assumes dist: "distinct (map t_id (orders d0))" and r: "r \<in> set (orders d0)" and p: "trigger_due now age d0 r = Some p"
    and c: "c = candidate_of r p" and new: "t_id r \<notin> T"
    and prog: "trigger_progress now T (orders d0) (orders d)"
    and st: "trigger_one now c (b, d) = Inr (b', d')"
  shows "trigger_progress now (if due_to_trigger now age d0 r then insert (t_id r) T else T) (orders d0) (orders d')"
proof (cases "due_to_trigger now age d0 r")
  case False
  then have "\<not> ShouldTrigger (tc_Side c) (tc_OriginalType c) (tc_StopPrice c) (tc_ReferencePrice c)"
    using p by (simp add: due_to_trigger_def c candidate_of_def)
  then have "d' = d" using st by (simp add: trigger_one_def)
  then show ?thesis using False prog by simp
next
  case True
  then have sh: "ShouldTrigger (tc_Side c) (tc_OriginalType c) (tc_StopPrice c) (tc_ReferencePrice c)"
    using p by (simp add: due_to_trigger_def c candidate_of_def)
  have stop: "t_order_type r \<in> {OrderTypeStop, OrderTypeStopLimit}"
    using ShouldTrigger_stop [OF sh] by (simp add: c candidate_of_def)
  have cid: "tc_OrderID c = t_id r" "tc_OriginalType c = t_order_type r" by (simp_all add: c candidate_of_def)
  note pr = progress_row [OF prog dist r]
  have f: "find_by t_id (t_id r) (orders d) = Some r" using pr new stop by auto
  have act: "activatable c r"
    using p stop by (auto simp: activatable_def c candidate_of_def trigger_due_def split: if_splits)
  let ?ty = "ActivatedOrderType (tc_OriginalType c)"
  have "activateLockedStopOrder c ?ty now d \<noteq> Inl ErrNotFound"
    using f act
    by (auto simp: activateLockedStopOrder_def update_order_returning_def update_orders_def and_then_def cid Let_def
        split: if_splits)
  then obtain order ev d1 where a: "activateLockedStopOrder c ?ty now d = Inr (order, ev, d1)"
    using st sh ShouldTrigger_activates [OF sh]
    by (auto simp: trigger_one_def split: if_splits sum.splits)
  then obtain mo mevs d2 evs where m: "matchAcceptedOrder now order d1 = Inr (mo, mevs, d2)"
    and e: "record_events now evs d2 = Inr d'"
    using st sh ShouldTrigger_activates [OF sh] by (auto simp: trigger_one_def and_then_Inr Let_def split: if_splits)
  have d': "orders d' = orders d2" using record_events_Inr [OF e] by (simp add: tables_but_logs_def)
  show ?thesis
  proof (rule activateLockedStopOrder_Inr [OF a])
    fix r1
    assume "find_by t_id (tc_OrderID c) (orders d) = Some r1" "order = scan_order (activate_row now c ?ty r1)"
      and o1: "orders d1 = upd_where (\<lambda>r. t_id r = tc_OrderID c \<and> activatable c r) (activate_row now c ?ty) (orders d)"
    then have oid: "o_ID order = t_id r" using f cid by (simp add: activate_row_def)
    have t: "t_id (activate_row now c ?ty x) = t_id x" "t_triggered_at (activate_row now c ?ty x) = Some now"
      "t_order_type (activate_row now c ?ty x) = ?ty" for x by (simp_all add: activate_row_def)
    define L where "L = t_id ` {r \<in> set (orders d1). t_order_type r = OrderTypeLimit}"
    have R1: "list_all2 (\<lambda>x x1. x \<in> set (orders d) \<and> x1 = (if t_id x = t_id r \<and> activatable c x then activate_row now c ?ty x else x))
        (orders d) (orders d1)"
      unfolding o1 upd_where_def cid by (simp add: list_all2_conv_all_nth)
    have R2: "list_all2 (\<lambda>x1 x2. x1 \<in> set (orders d1) \<and> same_trigger x1 x2 \<and> (t_id x1 \<notin> insert (t_id r) L \<longrightarrow> x2 = x1)) (orders d1) (orders d2)"
      using match_touches [OF m] unfolding changed_only_def oid L_def by (auto simp: list_all2_conv_all_nth)
    have ids: "map t_id (orders d1) = map t_id (orders d)" unfolding o1 by (rule map_upd_where) (simp add: t)
    have dist1: "distinct (map t_id (orders d1))" using pr ids by simp
    have notL: "t_id x1 \<notin> L" if "x1 \<in> set (orders d1)" "t_order_type x1 \<noteq> OrderTypeLimit" for x1
      using same_row [OF dist1 that(1)] that(2) by (auto simp: L_def)
    have step: "if t_id x = t_id r then activated now x x2
        else same_trigger x x2 \<and> (t_order_type x \<in> {OrderTypeStop, OrderTypeStopLimit} \<longrightarrow> x2 = x)"
      if "x \<in> set (orders d) \<and> x1 = (if t_id x = t_id r \<and> activatable c x then activate_row now c ?ty x else x)"
        "x1 \<in> set (orders d1) \<and> same_trigger x1 x2 \<and> (t_id x1 \<notin> insert (t_id r) L \<longrightarrow> x2 = x1)" for x x1 x2
    proof (cases "t_id x = t_id r")
      case True
      have "r \<in> set (orders d)" using find_by_Some [OF f] by simp
      then have x: "x = r" using same_row [of "orders d" x r] pr that(1) True by blast
      then have x1: "x1 = activate_row now c ?ty r" using that(1) act by simp
      show ?thesis using that(2) t [of r] cid unfolding x x1 activated_def same_trigger_def by simp
    next
      case False
      then have "x1 = x" using that(1) by simp
      then show ?thesis using that(2) False notL [of x1] by (auto simp: same_trigger_def)
    qed
    have R: "list_all2 (\<lambda>x x2. if t_id x = t_id r then activated now x x2
        else same_trigger x x2 \<and> (t_order_type x \<in> {OrderTypeStop, OrderTypeStopLimit} \<longrightarrow> x2 = x)) (orders d) (orders d2)"
      by (rule list_all2_trans [OF step R1 R2])
    have two: "if t_id x0 \<in> insert (t_id r) T then activated now x0 x2
        else same_trigger x0 x2 \<and> (t_order_type x0 \<in> {OrderTypeStop, OrderTypeStopLimit} \<longrightarrow> x2 = x0)"
      if "if t_id x0 \<in> T then activated now x0 x
          else same_trigger x0 x \<and> (t_order_type x0 \<in> {OrderTypeStop, OrderTypeStopLimit} \<longrightarrow> x = x0)"
        "if t_id x = t_id r then activated now x x2
          else same_trigger x x2 \<and> (t_order_type x \<in> {OrderTypeStop, OrderTypeStopLimit} \<longrightarrow> x2 = x)" for x0 x x2
      using that new by (auto simp: activated_def same_trigger_def split: if_splits)
    have "list_all2 (\<lambda>x0 x2. if t_id x0 \<in> insert (t_id r) T then activated now x0 x2
        else same_trigger x0 x2 \<and> (t_order_type x0 \<in> {OrderTypeStop, OrderTypeStopLimit} \<longrightarrow> x2 = x0)) (orders d0) (orders d2)"
      by (rule list_all2_trans [OF two prog [unfolded trigger_progress_def] R])
    then show ?thesis using True by (simp add: trigger_progress_def d')
  qed
qed


lemma progress_all:
  assumes "fold_steps (trigger_one now) (map (\<lambda>r. candidate_of r (the (trigger_due now age d0 r))) rs) (b, d) = Inr (b', d')"
    "distinct (map t_id (orders d0))" "set rs \<subseteq> {r \<in> set (orders d0). trigger_due now age d0 r \<noteq> None}"
    "distinct (map t_id rs)" "t_id ` set rs \<inter> T = {}" "trigger_progress now T (orders d0) (orders d)"
  shows "trigger_progress now (T \<union> t_id ` {r \<in> set rs. due_to_trigger now age d0 r}) (orders d0) (orders d')"
  using assms
proof (induction rs arbitrary: b d T)
  case Nil
  then show ?case by simp
next
  case (Cons r rs)
  let ?c = "candidate_of r (the (trigger_due now age d0 r))"
  obtain b1 d1 where s: "trigger_one now ?c (b, d) = Inr (b1, d1)"
    "fold_steps (trigger_one now) (map (\<lambda>r. candidate_of r (the (trigger_due now age d0 r))) rs) (b1, d1) = Inr (b', d')"
    using Cons.prems(1) by (auto simp: and_then_Inr)
  have r: "r \<in> set (orders d0)" "trigger_due now age d0 r = Some (the (trigger_due now age d0 r))" "t_id r \<notin> T"
    using Cons.prems(3,5) by auto
  let ?T = "if due_to_trigger now age d0 r then insert (t_id r) T else T"
  have p: "trigger_progress now ?T (orders d0) (orders d1)"
    by (rule progress_step [OF Cons.prems(2) r(1,2) refl r(3) Cons.prems(6) s(1)])
  have "t_id ` set rs \<inter> ?T = {}" using Cons.prems(4,5) by (auto split: if_splits)
  moreover have "set rs \<subseteq> {r \<in> set (orders d0). trigger_due now age d0 r \<noteq> None}" "distinct (map t_id rs)"
    using Cons.prems(3,4) by auto
  ultimately have "trigger_progress now (?T \<union> t_id ` {r \<in> set rs. due_to_trigger now age d0 r}) (orders d0) (orders d')"
    using Cons.IH [OF s(2) Cons.prems(2) _ _ _ p] by blast
  moreover have "?T \<union> t_id ` {r \<in> set rs. due_to_trigger now age d0 r} =
      T \<union> t_id ` {x \<in> set (r # rs). due_to_trigger now age d0 x}" by auto
  ultimately show ?case by simp
qed

definition claimed_stops :: "time \<Rightarrow> duration \<Rightarrow> int \<Rightarrow> db \<Rightarrow> order_row list" where
  "claimed_stops now age limit d = limit_rows limit (sort_key (\<lambda>r. (t_created_at r, t_id r))
     (filter (\<lambda>r. trigger_due now age d r \<noteq> None) (orders d)))"

lemma trigger_candidates_claimed:
  "trigger_candidates now age limit d =
   map (\<lambda>r. candidate_of r (the (trigger_due now age d r))) (claimed_stops now age limit d)"
proof -
  have "List.map_filter (\<lambda>r. map_option (candidate_of r) (trigger_due now age d r)) rs =
      map (\<lambda>r. candidate_of r (the (trigger_due now age d r))) rs"
    if "\<forall>r\<in>set rs. trigger_due now age d r \<noteq> None" for rs
    using that by (induction rs) (auto simp: map_filter_simps)
  moreover have "\<forall>r\<in>set (claimed_stops now age limit d). trigger_due now age d r \<noteq> None"
    unfolding claimed_stops_def using set_limit_rows by fastforce
  ultimately show ?thesis unfolding trigger_candidates_def claimed_stops_def by blast
qed

lemma claimed_stops_rows:
  assumes "distinct (map t_id (orders d))"
  shows "set (claimed_stops now age limit d) \<subseteq> {r \<in> set (orders d). trigger_due now age d r \<noteq> None}"
    and "distinct (map t_id (claimed_stops now age limit d))"
proof -
  show "set (claimed_stops now age limit d) \<subseteq> {r \<in> set (orders d). trigger_due now age d r \<noteq> None}"
    unfolding claimed_stops_def using set_limit_rows by fastforce
  let ?rows = "sort_key (\<lambda>r. (t_created_at r, t_id r)) (filter (\<lambda>r. trigger_due now age d r \<noteq> None) (orders d))"
  have "distinct (map t_id (filter (\<lambda>r. trigger_due now age d r \<noteq> None) (orders d)))"
    using assms by (rule distinct_map_filter)
  then have "distinct (map t_id ?rows)" by (simp add: distinct_map)
  then show "distinct (map t_id (claimed_stops now age limit d))"
    unfolding claimed_stops_def limit_rows_def take_map [symmetric] by (rule distinct_take)
qed

text \<open>a stop batch. Of the due stop orders it claims, at most the limit and oldest first, it activates
  exactly those whose fresh reference price reaches the stop, each to MARKET or LIMIT at this instant;
  every other stop order keeps its row as it was, and no order's trigger time is ever rewritten.\<close>

theorem stop_batch_exact:
  assumes "TriggerDueStopOrders limit age now d = Inr (b, d')" "distinct (map t_id (orders d))" "0 < limit"
  shows "list_all2 (\<lambda>r r'.
     if r \<in> set (claimed_stops now age limit d) \<and> due_to_trigger now age d r
     then t_id r' = t_id r \<and> t_triggered_at r = None \<and> t_triggered_at r' = Some now \<and>
          t_order_type r' = ActivatedOrderType (t_order_type r)
     else t_id r' = t_id r \<and> t_triggered_at r' = t_triggered_at r \<and> t_order_type r' = t_order_type r \<and>
          (t_order_type r \<in> {OrderTypeStop, OrderTypeStopLimit} \<longrightarrow> r' = r))
     (orders d) (orders d')"
proof -
  let ?rs = "claimed_stops now age limit d"
  let ?T = "t_id ` {r \<in> set ?rs. due_to_trigger now age d r}"
  note cr = claimed_stops_rows [OF assms(2), of now age limit]
  obtain b0 where f: "fold_steps (trigger_one now) (map (\<lambda>r. candidate_of r (the (trigger_due now age d r))) ?rs) (b0, d) = Inr (b, d')"
    using assms(1,3) unfolding TriggerDueStopOrders_def Let_def trigger_candidates_claimed by auto
  have "trigger_progress now {} (orders d) (orders d)"
    by (simp add: trigger_progress_def list_all2_same same_trigger_def)
  then have p: "trigger_progress now ?T (orders d) (orders d')"
    using progress_all [OF f assms(2) cr, of "{}"] by simp
  have T: "t_id r \<in> ?T \<longleftrightarrow> r \<in> set ?rs \<and> due_to_trigger now age d r" if r: "r \<in> set (orders d)" for r
    using same_row [OF assms(2) r] cr(1) by auto
  have none: "t_triggered_at r = None" if "r \<in> set ?rs" for r
    using cr(1) that by (auto simp: trigger_due_def split: if_splits)
  show ?thesis
    using p unfolding trigger_progress_def
    by (rule list.rel_mono_strong) (use T none in \<open>auto simp: activated_def same_trigger_def\<close>)
qed

subsection \<open>Reference prices\<close>

text \<open>What the trigger relies on: after an accepted update the price of the symbol is the new one, other
  symbols keep theirs, and the orders are not touched.\<close>

lemma is_space_upper [simp]: "is_space (upper_char c) = is_space c"
proof (cases "97 \<le> (of_char c :: int) \<and> (of_char c :: int) \<le> 122")
  case True
  then show ?thesis using of_char_upper [of c] by (auto simp: is_space_def Let_def)
next
  case False
  then show ?thesis by (simp add: upper_char_other)
qed

lemma trim_upper: "to_upper (trim_space (to_upper (trim_space s))) = to_upper (trim_space s)"
proof -
  have d: "dropWhile is_space (map upper_char x) = map upper_char (dropWhile is_space x)" for x
    by (simp add: dropWhile_map comp_def)
  have "trim_space (to_upper x) = to_upper (trim_space x)" for x
    by (simp add: trim_space_def to_upper_def d rev_map)
  then show ?thesis by simp
qed

lemma sum_case_Inr:
  assumes "(case x of Inl e \<Rightarrow> Inl (f e) | Inr s \<Rightarrow> Inr s) = Inr y"
  obtains "x = Inr y"
  using assms by (cases x) auto

lemma if_Inl_Inr: "(if b then Inl e else x) = Inr y \<longleftrightarrow> \<not> b \<and> x = Inr y"
  by simp

lemma option_Inl_Inr: "(case z of None \<Rightarrow> Inl e | Some p \<Rightarrow> f p) = Inr y \<longleftrightarrow> (\<exists>p. z = Some p \<and> f p = Inr y)"
  by (cases z) simp_all

lemma checked_event_Inr:
  assumes "checked_event ty ve T sy p src t cor = Inr event" "trim_space T \<noteq> ''''"
  shows "\<not> not_positive_price (mp_Price event)" "trim_space (mp_TenantID event) = mp_TenantID event"
    "mp_TenantID event \<noteq> ''''" "mp_Symbol event \<noteq> ''''" "to_upper (trim_space (mp_Symbol event)) = mp_Symbol event"
  using assms trim_upper by (auto simp: checked_event_def Let_def split: if_splits)

lemma parsed_event:
  assumes "parseMarketPriceEvent rfc3339 clock msg = Inr event"
  shows "\<not> not_positive_price (mp_Price event)" "trim_space (mp_TenantID event) = mp_TenantID event"
    "mp_TenantID event \<noteq> ''''" "mp_Symbol event \<noteq> ''''" "to_upper (trim_space (mp_Symbol event)) = mp_Symbol event"
proof -
  have d: "trim_space default_tenant_id \<noteq> ''''" by code_simp
  then have T: "trim_space (if trim_space x = '''' then default_tenant_id else x) \<noteq> ''''" for x by simp
  have "\<exists>ty ve x sy p src t cor. checked_event ty ve (if trim_space x = '''' then default_tenant_id else x) sy p src t cor = Inr event"
    using assms unfolding parseMarketPriceEvent_def Let_def and_then_Inr if_Inl_Inr option_Inl_Inr
    by (elim exE conjE) (intro exI)
  then obtain ty ve x sy p src t cor where
    e: "checked_event ty ve (if trim_space x = '''' then default_tenant_id else x) sy p src t cor = Inr event"
    by (elim exE)
  show "\<not> not_positive_price (mp_Price event)" "trim_space (mp_TenantID event) = mp_TenantID event"
    "mp_TenantID event \<noteq> ''''" "mp_Symbol event \<noteq> ''''" "to_upper (trim_space (mp_Symbol event)) = mp_Symbol event"
    by (fact checked_event_Inr [OF e T])+
qed

locale reference_prices_kept =
  fixes upsert :: "'s price_store" and price_of_symbol :: "'s \<Rightarrow> string \<Rightarrow> string \<Rightarrow> (rat \<times> time) option"
    and stored :: "rat \<Rightarrow> rat" and orders_of :: "'s \<Rightarrow> order_row list"
  assumes updated: "upsert now T sy (Fin q) src t s = Inr s' \<Longrightarrow> trim_space T = T \<Longrightarrow> to_upper (trim_space sy) = sy \<Longrightarrow>
      t \<noteq> zero_time \<Longrightarrow> price_of_symbol s' T sy = Some (stored q, t)"
    and others: "upsert now T sy (Fin q) src t s = Inr s' \<Longrightarrow> trim_space T = T \<Longrightarrow> to_upper (trim_space sy) = sy \<Longrightarrow>
      (T', sy') \<noteq> (T, sy) \<Longrightarrow> price_of_symbol s' T' sy' = price_of_symbol s T' sy'"
    and orders_kept: "upsert now T sy p src t s = Inr s' \<Longrightarrow> orders_of s' = orders_of s"
    and finite_only: "upsert now T sy p src t s = Inr s' \<Longrightarrow> \<exists>q. p = Fin q"
begin

lemma handled_event:
  assumes "handle upsert rfc3339 clock msg s = Inr s'"
  shows "\<exists>event q. parseMarketPriceEvent rfc3339 clock msg = Inr event \<and> mp_Price event = Fin q \<and> 0 < q \<and>
    orders_of s' = orders_of s \<and>
    (mp_EventTime event \<noteq> zero_time \<longrightarrow>
       price_of_symbol s' (mp_TenantID event) (mp_Symbol event) = Some (stored q, mp_EventTime event)) \<and>
    (\<forall>T' sy'. (T', sy') \<noteq> (mp_TenantID event, mp_Symbol event) \<longrightarrow>
       price_of_symbol s' T' sy' = price_of_symbol s T' sy')"
proof -
  obtain event where ev: "parseMarketPriceEvent rfc3339 clock msg = Inr event" and
    u: "upsert clock (mp_TenantID event) (mp_Symbol event) (mp_Price event) (mp_Source event) (mp_EventTime event) s = Inr s'"
    using assms unfolding handle_def and_then_Inr by (auto elim!: sum_case_Inr)
  obtain q where q: "mp_Price event = Fin q" using finite_only [OF u] by blast
  note n = parsed_event [OF ev]
  have "0 < q" using n(1) by (simp add: q not_positive_price_def)
  then show ?thesis
    using ev q updated [OF u [unfolded q] n(2,5)] others [OF u [unfolded q] n(2,5)] orders_kept [OF u] by blast
qed

end


definition symbol_price :: "db \<Rightarrow> string \<Rightarrow> string \<Rightarrow> (rat \<times> time) option" where
  "symbol_price d T sy = map_option (\<lambda>p. (rp_price p, rp_updated_at p))
     (find_by (\<lambda>p. (rp_tenant_id p, rp_symbol p)) (T, sy) (reference_prices d))"

definition stored_price :: "rat \<Rightarrow> numeric" where
  "stored_price q = dec_half_away 8 (shortest q)"

lemma upsert_price:
  assumes "UpsertMarketReferencePrice now T sy q src t d = Inr d'" "trim_space T = T" "to_upper (trim_space sy) = sy"
  shows "symbol_price d' T' sy' = (if (T', sy') = (T, sy) then Some (stored_price q, if t = zero_time then now else t)
    else symbol_price d T' sy')"
proof -
  define row where "row = \<lparr>rp_tenant_id = T, rp_symbol = sy, rp_price = stored_price q, rp_source = trim_space src,
    rp_updated_at = (if t = zero_time then now else t)\<rparr>"
  let ?key = "\<lambda>p. (rp_tenant_id p, rp_symbol p)"
  let ?f = "\<lambda>p. p\<lparr>rp_price := rp_price row, rp_source := rp_source row, rp_updated_at := rp_updated_at row\<rparr>"
  have "reference_prices d' =
      (if ?key row \<in> ?key ` set (reference_prices d)
       then upd_where (\<lambda>p. ?key p = ?key row) ?f (reference_prices d)
       else reference_prices d @ [row])"
    using assms
    by (auto simp: UpsertMarketReferencePrice_def UpsertReferencePrice_def Let_def ref_row_of_def row_def stored_price_def
        split: if_splits)
  then have f: "find_by ?key (T', sy') (reference_prices d') =
      (if (T', sy') = ?key row then Some (case find_by ?key (T', sy') (reference_prices d) of None \<Rightarrow> row | Some r \<Rightarrow> ?f r)
       else find_by ?key (T', sy') (reference_prices d))"
    using find_by_upsert [of ?key ?f "(T', sy')" row "reference_prices d"] by simp
  have key: "?key row = (T, sy)" by (simp add: row_def)
  show ?thesis
  proof (cases "(T', sy') = (T, sy)")
    case True
    then show ?thesis
      using f by (cases "find_by ?key (T, sy) (reference_prices d)") (simp_all add: key symbol_price_def row_def)
  next
    case False
    then have "find_by ?key (T', sy') (reference_prices d') = find_by ?key (T', sy') (reference_prices d)"
      using f by (simp only: key if_False)
    then show ?thesis using False unfolding symbol_price_def if_not_P [OF False] by simp
  qed
qed

interpretation repository_prices: reference_prices_kept db_price_store symbol_price stored_price orders
proof
  fix now T sy q src t s s' T' sy' p
  show "symbol_price s' T sy = Some (stored_price q, t)"
    if "db_price_store now T sy (Fin q) src t s = Inr s'" "trim_space T = T" "to_upper (trim_space sy) = sy" "t \<noteq> zero_time"
    using that upsert_price [of now T sy q src t s s' T sy] by (simp add: db_price_store_def)
  show "symbol_price s' T' sy' = symbol_price s T' sy'"
    if "db_price_store now T sy (Fin q) src t s = Inr s'" "trim_space T = T" "to_upper (trim_space sy) = sy"
      "(T', sy') \<noteq> (T, sy)"
    using upsert_price [of now T sy q src t s s' T' sy'] that(1-3) unfolding if_not_P [OF that(4)] by (simp add: db_price_store_def)
  show "orders s' = orders s" if "db_price_store now T sy p src t s = Inr s'"
    using that UpsertReferencePrice_frame
    by (cases p) (auto simp: db_price_store_def UpsertMarketReferencePrice_def)
  show "\<exists>q. p = Fin q" if "db_price_store now T sy p src t s = Inr s'"
    using that by (cases p) (simp_all add: db_price_store_def)
qed

text \<open>a market event and the price the trigger reads. An event that is handled carries a positive price;
  afterwards \<open>GetReferencePrice\<close> of its tenant and symbol returns that price, rounded to eight decimals,
  with the event's time; all other prices and all orders are as before.\<close>

theorem market_event_price:
  assumes "handle db_price_store rfc3339 clock msg d = Inr d'"
    "parseMarketPriceEvent rfc3339 clock msg = Inr event" "mp_EventTime event \<noteq> zero_time"
  shows "\<exists>q. mp_Price event = Fin q \<and> 0 < q \<and> orders d' = orders d \<and>
    (case GetReferencePrice (mp_TenantID event) (mp_Symbol event) d' of
       Inl e \<Rightarrow> False
     | Inr p \<Rightarrow> pr_Price p = fl64 (stored_price q) \<and> pr_UpdatedAt p = mp_EventTime event) \<and>
    (\<forall>T sy. (T, sy) \<noteq> (mp_TenantID event, mp_Symbol event) \<longrightarrow> symbol_price d' T sy = symbol_price d T sy)"
proof -
  obtain q where q: "mp_Price event = Fin q" "0 < q" "orders d' = orders d"
    "symbol_price d' (mp_TenantID event) (mp_Symbol event) = Some (stored_price q, mp_EventTime event)"
    "\<forall>T sy. (T, sy) \<noteq> (mp_TenantID event, mp_Symbol event) \<longrightarrow> symbol_price d' T sy = symbol_price d T sy"
    using repository_prices.handled_event [OF assms(1)] assms(2,3) by auto
  note n = parsed_event [OF assms(2)]
  have "case GetReferencePrice (mp_TenantID event) (mp_Symbol event) d' of
       Inl e \<Rightarrow> False
     | Inr p \<Rightarrow> pr_Price p = fl64 (stored_price q) \<and> pr_UpdatedAt p = mp_EventTime event"
    using q(4) n by (auto simp: GetReferencePrice_def symbol_price_def Let_def)
  then show ?thesis using q by blast
qed

text \<open>the consumer commits every message, also one whose handling failed: a price the database refused is
  not read again.\<close>

theorem price_consumer_commits_failures:
  "co_committed (consume_one store rfc3339 clock False msg c) = co_committed c + 1 \<and>
   (case handle store rfc3339 clock msg (co_store c) of
      Inl err \<Rightarrow> co_store (consume_one store rfc3339 clock False msg c) = co_store c \<and>
                 co_errors (consume_one store rfc3339 clock False msg c) = co_errors c @ [err]
    | Inr s \<Rightarrow> co_store (consume_one store rfc3339 clock False msg c) = s)"
  by (simp add: consume_one_def Let_def split: sum.splits)

text \<open>a price text of \<open>NaN\<close> passes the check that the price is positive.\<close>

theorem nan_price_accepted:
  "\<exists>event. parseMarketPriceEvent rfc3339 clock (Some (JObj [(''symbol'', JStr ''AAPL''), (''price'', JStr ''NaN'')])) = Inr event \<and>
     mp_Price event = NaN"
proof -
  have "ParseFloat (trim_space ''NaN'') = Some NaN" by code_simp
  moreover have "to_upper (trim_space ''AAPL'') \<noteq> ''''" by code_simp
  ultimately show ?thesis
    by (simp add: parseMarketPriceEvent_def checked_event_def member_of_def str_of_def price_numeric_def not_positive_price_def)
qed


subsection \<open>Concrete inputs\<close>

definition ex_stops :: db where
  "ex_stops = empty_db\<lparr>orders := [order_row_of ''o-1'' 0 (ex_order\<lparr>o_OrderType := OrderTypeStop, o_LimitPrice := None,
       o_StopPrice := Some 4, o_RiskStatus := ''APPROVED''\<rparr>)],
     reference_prices := [\<lparr>rp_tenant_id = ''t'', rp_symbol = ''AAPL'', rp_price = 5, rp_source = ''m'', rp_updated_at = 10\<rparr>]\<rparr>"

lemma stop_batch_exact_witness:
  "\<exists>b d'. TriggerDueStopOrders 5 60 20 ex_stops = Inr (b, d') \<and> map t_triggered_at (orders d') = [Some 20]"
proof -
  have "is_Inr (TriggerDueStopOrders 5 60 20 ex_stops)" by code_simp
  then obtain b d' where r: "TriggerDueStopOrders 5 60 20 ex_stops = Inr (b, d')" by (auto elim: is_InrE)
  have due: "hd (orders ex_stops) \<in> set (claimed_stops 20 60 5 ex_stops) \<and> due_to_trigger 20 60 ex_stops (hd (orders ex_stops))"
    by code_simp
  have d: "distinct (map t_id (orders ex_stops))" by (simp add: ex_stops_def)
  have n: "(0::int) < 5" by simp
  obtain r0 where o: "orders ex_stops = [r0]" by (simp add: ex_stops_def)
  then obtain r1 where "orders d' = [r1]" "t_triggered_at r1 = Some 20"
    using stop_batch_exact [OF r d n] due by (cases "orders d'") auto
  then show ?thesis using r by auto
qed

definition ex_tick :: json where
  "ex_tick = JObj [(''symbol'', JStr ''aapl''), (''price'', JNum 5), (''eventTime'', JStr ''now'')]"

lemma market_event_price_witness:
  "\<exists>d' event. handle db_price_store (\<lambda>s. Some 30) 40 (Some ex_tick) ex_stops = Inr d' \<and>
     parseMarketPriceEvent (\<lambda>s. Some 30) 40 (Some ex_tick) = Inr event \<and> mp_EventTime event = 30 \<and>
     orders d' = orders ex_stops"
proof -
  have "case handle db_price_store (\<lambda>s. Some 30) 40 (Some ex_tick) ex_stops of Inl e \<Rightarrow> False | Inr d \<Rightarrow> True" by code_simp
  then obtain d' where h: "handle db_price_store (\<lambda>s. Some 30) 40 (Some ex_tick) ex_stops = Inr d'" by (auto split: sum.splits)
  have "case parseMarketPriceEvent (\<lambda>s. Some 30) 40 (Some ex_tick) of Inl e \<Rightarrow> False | Inr v \<Rightarrow> mp_EventTime v = 30" by code_simp
  then obtain event where p: "parseMarketPriceEvent (\<lambda>s. Some 30) 40 (Some ex_tick) = Inr event" "mp_EventTime event = 30"
    by (auto split: sum.splits)
  have "mp_EventTime event \<noteq> zero_time" using p(2) by (simp add: zero_time_def)
  then show ?thesis using market_event_price [OF h p(1)] h p by blast
qed

end
