(* ===== verification/PortfolioStore.thy ===== *)
theory PortfolioStore
  imports GoText "HOL-Library.List_Lexorder" "HOL-Library.Char_ord"
begin

text \<open>
  The portfolio service's data: the events and views of \<open>internal/domain\<close>, the idempotency key of
  \<open>internal/idempotency\<close>, the tables of \<open>services/portfolio-service/migrations\<close>, and the text
  that the payload hash and the published event carry. A plain NUMERIC column holds any rational, a NUMERIC(20,8) column rounds half away
  from zero to eight decimals and refuses amounts from 10^12 on. SHA-256 is a parameter.
\<close>

subsection \<open>Domain types\<close>

record OrderFilledEvent =
  of_EventID :: string
  of_EventType :: string
  of_EventVersion :: string
  of_TenantID :: string
  of_OrderID :: string
  of_UserID :: string
  of_Symbol :: string
  of_Side :: string
  of_OrderType :: string
  of_Quantity :: float64
  of_Status :: string
  of_FillPrice :: "float64 option"
  of_OccurredAt :: time
  of_CorrelationID :: string

record TradeExecutedEvent =
  te_EventID :: string
  te_EventType :: string
  te_EventVersion :: string
  te_TenantID :: string
  te_CorrelationID :: string
  te_TraceParent :: string
  te_OccurredAt :: time
  te_ExecutionID :: string
  te_TradeID :: string
  te_BuyOrderID :: string
  te_SellOrderID :: string
  te_BuyerUserID :: string
  te_SellerUserID :: string
  te_Symbol :: string
  te_ExecutionQuantity :: float64
  te_ExecutionPrice :: float64
  te_Currency :: string
  te_Source :: string

record PortfolioEvent =
  ve_EventID :: string
  ve_EventType :: string
  ve_EventVersion :: string
  ve_TenantID :: string
  ve_PortfolioID :: string
  ve_UserID :: string
  ve_AccountID :: string
  ve_Symbol :: string
  ve_PositionQuantity :: string
  ve_AveragePrice :: string
  ve_CashDelta :: string
  ve_CashBalance :: float64
  ve_TotalValue :: float64
  ve_RealizedPnL :: float64
  ve_SourceEventID :: string
  ve_SourceExecutionID :: string
  ve_UpdatedAt :: time
  ve_OccurredAt :: time
  ve_CorrelationID :: string

record Holding =
  hd_ID :: string
  hd_PortfolioID :: string
  hd_UserID :: string
  hd_Symbol :: string
  hd_Quantity :: float64
  hd_AverageBuyPrice :: float64
  hd_UpdatedAt :: time

record Portfolio =
  pv_ID :: string
  pv_TenantID :: string
  pv_UserID :: string
  pv_CashBalance :: float64
  pv_RealizedPnL :: float64
  pv_TotalValue :: float64
  pv_CreatedAt :: time
  pv_UpdatedAt :: time

record PortfolioSnapshot =
  sn_ID :: string
  sn_PortfolioID :: string
  sn_TenantID :: string
  sn_UserID :: string
  sn_CashBalance :: float64
  sn_HoldingsValue :: float64
  sn_TotalValue :: float64
  sn_RealizedPnL :: float64
  sn_CreatedAt :: time

definition defaultTenant :: "string \<Rightarrow> string" where
  "defaultTenant value = (if value = '''' then ''default-tenant'' else value)"

definition sourceService :: "string \<Rightarrow> string" where
  "sourceService value = (let v = trim_space value in if v = '''' then ''order-service'' else v)"

definition defaultCurrency :: "string \<Rightarrow> string" where
  "defaultCurrency value = (if trim_space value = '''' then ''USD'' else to_upper (trim_space value))"

definition BuildIdempotencyKey :: "TradeExecutedEvent \<Rightarrow> string" where
  "BuildIdempotencyKey event =
     (if trim_space (te_ExecutionID event) \<noteq> '''' then ''execution:'' @ trim_space (te_ExecutionID event)
      else if trim_space (te_TradeID event) \<noteq> '''' then ''trade:'' @ trim_space (te_TradeID event)
      else ''event:'' @ trim_space (te_EventID event))"

subsection \<open>Amounts as text\<close>

definition formatDecimal8 :: "float64 \<Rightarrow> string" where
  "formatDecimal8 value = trim_right (CHR ''.'') (trim_right (CHR ''0'') (sprintf_f 8 value))"

definition normalized_payload :: "TradeExecutedEvent \<Rightarrow> string" where
  "normalized_payload event = join_with ''|''
     [defaultTenant (te_TenantID event), te_ExecutionID event, te_BuyOrderID event, te_SellOrderID event,
      te_BuyerUserID event, te_SellerUserID event, to_upper (trim_space (te_Symbol event)),
      sprintf_f 10 (te_ExecutionQuantity event), sprintf_f 10 (te_ExecutionPrice event),
      to_upper (defaultCurrency (te_Currency event))]"

definition PayloadHash :: "(string \<Rightarrow> string) \<Rightarrow> TradeExecutedEvent \<Rightarrow> string" where
  "PayloadHash sha256_hex event = sha256_hex (normalized_payload event)"

text \<open>\<open>uniqueSorted\<close>: the loop over the sorted values keeps a value that is neither empty nor equal to
  the last one kept.\<close>

definition unique_loop :: "string list \<Rightarrow> string list" where
  "unique_loop values = fold (\<lambda>value out. if value = '''' \<or> (out \<noteq> [] \<and> List.last out = value) then out
     else out @ [value]) values []"

definition uniqueSorted :: "string list \<Rightarrow> string list" where
  "uniqueSorted values = unique_loop (sort values)"

subsection \<open>Tables\<close>

record portfolio_row =
  pf_id :: string
  pf_tenant_id :: string
  pf_user_id :: string
  pf_created_at :: time
  pf_updated_at :: time

record cash_row =
  cb_portfolio_id :: string
  cb_cash_balance :: numeric
  cb_realized_pnl :: numeric
  cb_updated_at :: time

record holding_row =
  ph_id :: string
  ph_tenant_id :: "string option"
  ph_portfolio_id :: string
  ph_user_id :: string
  ph_symbol :: string
  ph_quantity :: numeric
  ph_average_buy_price :: numeric
  ph_updated_at :: time

record snapshot_row =
  ps_id :: string
  ps_tenant_id :: "string option"
  ps_portfolio_id :: string
  ps_user_id :: string
  ps_cash_balance :: numeric
  ps_holdings_value :: numeric
  ps_total_value :: numeric
  ps_realized_pnl :: numeric
  ps_created_at :: time

record pnl_row =
  rl_tenant_id :: "string option"
  rl_portfolio_id :: string
  rl_user_id :: string
  rl_order_id :: string
  rl_symbol :: string
  rl_quantity :: numeric
  rl_fill_price :: numeric
  rl_average_buy_price :: numeric
  rl_realized_pnl :: numeric
  rl_occurred_at :: time
  rl_correlation_id :: string

record processed_order_row =
  oe_event_id :: string
  oe_tenant_id :: "string option"
  oe_order_id :: string
  oe_user_id :: string

record processed_row =
  pz_event_id :: string
  pz_execution_id :: "string option"
  pz_tenant_id :: string
  pz_event_type :: string
  pz_event_version :: string
  pz_source_service :: string
  pz_aggregate_id :: string
  pz_idempotency_key :: string
  pz_correlation_id :: string
  pz_payload_hash :: "string option"
  pz_consumer_version :: string
  pz_processed_at :: time

record transaction_row =
  tx_tenant_id :: string
  tx_portfolio_id :: string
  tx_user_id :: string
  tx_execution_id :: string
  tx_order_id :: string
  tx_symbol :: string
  tx_side :: string
  tx_quantity :: numeric
  tx_price :: numeric
  tx_gross_amount :: numeric
  tx_fee_amount :: numeric
  tx_net_cash_amount :: numeric
  tx_currency :: string
  tx_realized_pnl :: numeric
  tx_correlation_id :: string
  tx_occurred_at :: time

record portfolio_outbox_row =
  px_id :: nat
  px_event_id :: string
  px_tenant_id :: string
  px_aggregate_type :: string
  px_aggregate_id :: string
  px_event_type :: string
  px_event_version :: string
  px_topic :: string
  px_payload :: PortfolioEvent
  px_headers :: "(string \<times> string) list"
  px_status :: string
  px_attempts :: int
  px_next_attempt_at :: time
  px_last_error :: "string option"
  px_created_at :: time
  px_published_at :: "time option"

record pdb =
  portfolios :: "portfolio_row list"
  cash_balances :: "cash_row list"
  portfolio_holdings :: "holding_row list"
  portfolio_snapshots :: "snapshot_row list"
  realized_pnl_events :: "pnl_row list"
  processed_order_events :: "processed_order_row list"
  processed_events :: "processed_row list"
  portfolio_transactions :: "transaction_row list"
  portfolio_outbox :: "portfolio_outbox_row list"
  outbox_serial :: nat
  pdb_ids :: "nat \<Rightarrow> string"
  pdb_next :: nat

datatype portfolio_error = PNotFound | ErrDuplicateEvent | ErrInsufficientHoldings | ErrInsufficientCash
  | ErrInvalidExecution string | ErrPayloadConflict | ErrSelfTrade | ErrInvalidFill | ErrUnsupportedSide
  | ErrNoRows | PConstraint string | PForbidden | PDecode

definition pnew_id :: "pdb \<Rightarrow> string" where
  "pnew_id d = pdb_ids d (pdb_next d)"

definition puse_id :: "pdb \<Rightarrow> pdb" where
  "puse_id d = d\<lparr>pdb_next := Suc (pdb_next d)\<rparr>"

text \<open>A value assigned to a NUMERIC(20,8) column.\<close>

definition numeric_20_8 :: "numeric \<Rightarrow> portfolio_error + numeric" where
  "numeric_20_8 x = (if \<bar>dec_half_away 8 x\<bar> \<ge> 10 ^ 12 then Inl (PConstraint ''numeric field overflow'')
     else Inr (dec_half_away 8 x))"

end
