(* ===== verification/PortfolioRepository.thy ===== *)
theory PortfolioRepository
  imports PortfolioStore
begin

text \<open>
  \<open>internal/repository/portfolio_repository.go\<close> of the portfolio service: every transaction and query,
  as functions on the tables. A transaction gives an error, which rolls back, or its result with the
  tables it commits; row locks are its atomicity, and the order in which it takes them is
  \<open>trade_locks\<close>. \<open>now\<close> is the transaction's \<open>now()\<close> and \<open>time.Now\<close>. The quotient of two NUMERIC
  values is rounded by the database to a scale it chooses: \<open>numeric_div\<close> is a parameter.
\<close>

subsection \<open>Portfolios, balances and holdings\<close>

definition ensurePortfolio :: "time \<Rightarrow> string \<Rightarrow> string \<Rightarrow> float64 \<Rightarrow> pdb \<Rightarrow> string \<times> pdb" where
  "ensurePortfolio now tenantID userID initialCash d =
     (let (portfolioID, d1) =
        (case find_by (\<lambda>r. (pf_tenant_id r, pf_user_id r)) (defaultTenant tenantID, userID) (portfolios d) of
           Some r \<Rightarrow> (pf_id r, d)
         | None \<Rightarrow> (pnew_id d, (puse_id d)\<lparr>portfolios := portfolios d @ [\<lparr>pf_id = pnew_id d,
             pf_tenant_id = defaultTenant tenantID, pf_user_id = userID, pf_created_at = now,
             pf_updated_at = now\<rparr>]\<rparr>))
      in (portfolioID,
          if portfolioID \<in> cb_portfolio_id ` set (cash_balances d1) then d1
          else d1\<lparr>cash_balances := cash_balances d1 @ [\<lparr>cb_portfolio_id = portfolioID,
            cb_cash_balance = shortest initialCash, cb_realized_pnl = 0, cb_updated_at = now\<rparr>]\<rparr>))"

definition ensureHoldingForUpdate :: "time \<Rightarrow> string \<Rightarrow> string \<Rightarrow> string \<Rightarrow> string \<Rightarrow> pdb \<Rightarrow> pdb" where
  "ensureHoldingForUpdate now tenantID portfolioID userID symbol d =
     (if (portfolioID, symbol) \<in> (\<lambda>r. (ph_portfolio_id r, ph_symbol r)) ` set (portfolio_holdings d) then d
      else (puse_id d)\<lparr>portfolio_holdings := portfolio_holdings d @ [\<lparr>ph_id = pnew_id d,
        ph_tenant_id = Some tenantID, ph_portfolio_id = portfolioID, ph_user_id = userID, ph_symbol = symbol,
        ph_quantity = 0, ph_average_buy_price = 0, ph_updated_at = now\<rparr>]\<rparr>)"

definition holding_tenant :: "holding_row \<Rightarrow> string" where
  "holding_tenant r = coalesce (ph_tenant_id r) ''default-tenant''"

definition scan_holding :: "holding_row \<Rightarrow> Holding" where
  "scan_holding r = \<lparr>hd_ID = ph_id r, hd_PortfolioID = ph_portfolio_id r, hd_UserID = ph_user_id r,
     hd_Symbol = ph_symbol r, hd_Quantity = fl64 (ph_quantity r),
     hd_AverageBuyPrice = fl64 (ph_average_buy_price r), hd_UpdatedAt = ph_updated_at r\<rparr>"

definition scanHoldings :: "holding_row list \<Rightarrow> Holding list" where
  "scanHoldings rows = map scan_holding rows"

definition readHoldings :: "string \<Rightarrow> string \<Rightarrow> pdb \<Rightarrow> Holding list" where
  "readHoldings tenantID userID d = scanHoldings (sort_key ph_symbol
     (filter (\<lambda>r. holding_tenant r = defaultTenant tenantID \<and> ph_user_id r = userID \<and> ph_quantity r > 0)
       (portfolio_holdings d)))"

text \<open>The JOIN of a portfolio with its balance, and the SUM over its holdings.\<close>

definition readPortfolio :: "string \<Rightarrow> string \<Rightarrow> pdb \<Rightarrow> portfolio_error + Portfolio" where
  "readPortfolio tenantID userID d =
     (case find_by (\<lambda>r. (pf_tenant_id r, pf_user_id r)) (defaultTenant tenantID, userID) (portfolios d) of
        None \<Rightarrow> Inl PNotFound
      | Some p \<Rightarrow>
          (case find_by cb_portfolio_id (pf_id p) (cash_balances d) of
             None \<Rightarrow> Inl PNotFound
           | Some cb \<Rightarrow>
               Inr \<lparr>pv_ID = pf_id p, pv_TenantID = pf_tenant_id p, pv_UserID = pf_user_id p,
                 pv_CashBalance = fl64 (cb_cash_balance cb), pv_RealizedPnL = fl64 (cb_realized_pnl cb),
                 pv_TotalValue = fl64 (fl64 (cb_cash_balance cb) +
                   fl64 (sum_list (map (\<lambda>h. ph_quantity h * ph_average_buy_price h)
                     (filter (\<lambda>h. ph_portfolio_id h = pf_id p) (portfolio_holdings d))))),
                 pv_CreatedAt = pf_created_at p, pv_UpdatedAt = pf_updated_at p\<rparr>))"

definition createSnapshot :: "time \<Rightarrow> Portfolio \<Rightarrow> Holding list \<Rightarrow> pdb \<Rightarrow> PortfolioSnapshot \<times> pdb" where
  "createSnapshot now portfolio holdings d =
     (let holdingsValue = fold (\<lambda>h v. fl64 (v + fl64 (hd_Quantity h * hd_AverageBuyPrice h))) holdings 0;
          row = \<lparr>ps_id = pnew_id d, ps_tenant_id = Some (defaultTenant (pv_TenantID portfolio)),
            ps_portfolio_id = pv_ID portfolio, ps_user_id = pv_UserID portfolio,
            ps_cash_balance = shortest (pv_CashBalance portfolio), ps_holdings_value = shortest holdingsValue,
            ps_total_value = shortest (fl64 (pv_CashBalance portfolio + holdingsValue)),
            ps_realized_pnl = shortest (pv_RealizedPnL portfolio), ps_created_at = now\<rparr>
      in (\<lparr>sn_ID = ps_id row, sn_PortfolioID = ps_portfolio_id row,
            sn_TenantID = coalesce (ps_tenant_id row) ''default-tenant'', sn_UserID = ps_user_id row,
            sn_CashBalance = fl64 (ps_cash_balance row), sn_HoldingsValue = fl64 (ps_holdings_value row),
            sn_TotalValue = fl64 (ps_total_value row), sn_RealizedPnL = fl64 (ps_realized_pnl row),
            sn_CreatedAt = ps_created_at row\<rparr>,
          (puse_id d)\<lparr>portfolio_snapshots := portfolio_snapshots d @ [row]\<rparr>))"

subsection \<open>The two sides of an execution\<close>

text \<open>An UPDATE of the balance of a portfolio, with a condition on the row.\<close>

definition update_cash :: "string \<Rightarrow> (cash_row \<Rightarrow> cash_row) \<Rightarrow> pdb \<Rightarrow> pdb" where
  "update_cash portfolioID f d = d\<lparr>cash_balances := upd_where (\<lambda>r. cb_portfolio_id r = portfolioID) f (cash_balances d)\<rparr>"

definition gross_amount :: "TradeExecutedEvent \<Rightarrow> float64" where
  "gross_amount event = fl64 (te_ExecutionQuantity event * te_ExecutionPrice event)"

definition applyExecutionBuyer :: "(rat \<Rightarrow> rat \<Rightarrow> rat) \<Rightarrow> time \<Rightarrow> string \<Rightarrow> string \<Rightarrow> TradeExecutedEvent \<Rightarrow> pdb
    \<Rightarrow> portfolio_error + pdb" where
  "applyExecutionBuyer numeric_div now tenantID portfolioID event d =
     (let gross = fmt_dec 10 (gross_amount event);
          quantity = fmt_dec 10 (te_ExecutionQuantity event); price = fmt_dec 10 (te_ExecutionPrice event);
          payable = (\<lambda>r. cb_portfolio_id r = portfolioID \<and> cb_cash_balance r \<ge> gross)
      in if rows_affected payable (cash_balances d) = 0 then Inl ErrInsufficientCash
         else Inr (d\<lparr>
           cash_balances := upd_where payable
             (\<lambda>r. r\<lparr>cb_cash_balance := cb_cash_balance r - gross, cb_updated_at := now\<rparr>) (cash_balances d),
           portfolio_holdings := upd_where
             (\<lambda>r. ph_tenant_id r = Some tenantID \<and> ph_portfolio_id r = portfolioID \<and> ph_symbol r = te_Symbol event)
             (\<lambda>r. r\<lparr>ph_average_buy_price :=
                   (if ph_quantity r + quantity = 0 then 0
                    else numeric_div (ph_quantity r * ph_average_buy_price r + quantity * price) (ph_quantity r + quantity)),
                 ph_quantity := ph_quantity r + quantity, ph_updated_at := now\<rparr>) (portfolio_holdings d)\<rparr>))"

definition applyExecutionSeller :: "time \<Rightarrow> string \<Rightarrow> string \<Rightarrow> TradeExecutedEvent \<Rightarrow> pdb
    \<Rightarrow> portfolio_error + (float64 \<times> pdb)" where
  "applyExecutionSeller now tenantID portfolioID event d =
     (let at_holding = (\<lambda>r. ph_tenant_id r = Some tenantID \<and> ph_portfolio_id r = portfolioID \<and> ph_symbol r = te_Symbol event)
      in case List.find at_holding (portfolio_holdings d) of
           None \<Rightarrow> Inl ErrNoRows
         | Some h \<Rightarrow>
             let currentQty = fl64 (ph_quantity h); averageBuyPrice = fl64 (ph_average_buy_price h)
             in if currentQty < te_ExecutionQuantity event then Inl ErrInsufficientHoldings
                else
                  let realized = fl64 (fl64 (te_ExecutionPrice event - averageBuyPrice) * te_ExecutionQuantity event);
                      quantity = fmt_dec 10 (te_ExecutionQuantity event)
                  in Inr (realized, (update_cash portfolioID
                       (\<lambda>r. r\<lparr>cb_cash_balance := cb_cash_balance r + fmt_dec 10 (gross_amount event),
                             cb_realized_pnl := cb_realized_pnl r + fmt_dec 10 realized, cb_updated_at := now\<rparr>) d)
                     \<lparr>portfolio_holdings := upd_where at_holding
                        (\<lambda>r. r\<lparr>ph_quantity := ph_quantity r - quantity, ph_updated_at := now\<rparr>) (portfolio_holdings d),
                      realized_pnl_events := realized_pnl_events d @ [\<lparr>rl_tenant_id = Some tenantID,
                        rl_portfolio_id = portfolioID, rl_user_id = te_SellerUserID event,
                        rl_order_id = te_SellOrderID event, rl_symbol = te_Symbol event, rl_quantity = quantity,
                        rl_fill_price = fmt_dec 10 (te_ExecutionPrice event),
                        rl_average_buy_price = fmt_dec 10 averageBuyPrice, rl_realized_pnl = fmt_dec 10 realized,
                        rl_occurred_at = te_OccurredAt event, rl_correlation_id = te_CorrelationID event\<rparr>]\<rparr>))"

text \<open>The ledger row. The amounts pass through \<open>%.10f\<close> and then the NUMERIC(20,8) columns.\<close>

definition insertPortfolioTransaction :: "string \<Rightarrow> string \<Rightarrow> string \<Rightarrow> string \<Rightarrow> string \<Rightarrow> string \<Rightarrow> string
    \<Rightarrow> float64 \<Rightarrow> float64 \<Rightarrow> float64 \<Rightarrow> float64 \<Rightarrow> float64 \<Rightarrow> string \<Rightarrow> float64 \<Rightarrow> string \<Rightarrow> time \<Rightarrow> pdb
    \<Rightarrow> portfolio_error + pdb" where
  "insertPortfolioTransaction tenantID portfolioID userID executionID orderID symbol side quantity price gross fee
       netCash currency0 realizedPnL corr occurredAt d =
     and_then (numeric_20_8 (fmt_dec 10 quantity)) (\<lambda>q.
     and_then (numeric_20_8 (fmt_dec 10 price)) (\<lambda>p.
     and_then (numeric_20_8 (fmt_dec 10 gross)) (\<lambda>g.
     and_then (numeric_20_8 (fmt_dec 10 fee)) (\<lambda>f.
     and_then (numeric_20_8 (fmt_dec 10 netCash)) (\<lambda>n.
     and_then (numeric_20_8 (fmt_dec 10 realizedPnL)) (\<lambda>rp.
       if (tenantID, portfolioID, executionID, side)
            \<in> (\<lambda>r. (tx_tenant_id r, tx_portfolio_id r, tx_execution_id r, tx_side r)) ` set (portfolio_transactions d)
       then Inr d
       else Inr (d\<lparr>portfolio_transactions := portfolio_transactions d @ [\<lparr>tx_tenant_id = tenantID,
         tx_portfolio_id = portfolioID, tx_user_id = userID, tx_execution_id = executionID,
         tx_order_id = orderID, tx_symbol = symbol, tx_side = side, tx_quantity = q, tx_price = p,
         tx_gross_amount = g, tx_fee_amount = f, tx_net_cash_amount = n,
         tx_currency = (if currency0 = '''' then ''USD'' else currency0), tx_realized_pnl = rp,
         tx_correlation_id = corr, tx_occurred_at = occurredAt\<rparr>]\<rparr>)))))))"

subsection \<open>Events\<close>

definition buildPortfolioUpdatedEvent :: "string \<Rightarrow> time \<Rightarrow> TradeExecutedEvent \<Rightarrow> Portfolio \<Rightarrow> Holding list \<Rightarrow> float64
    \<Rightarrow> PortfolioEvent" where
  "buildPortfolioUpdatedEvent i now event portfolio holdings cashDelta =
     (let (positionQuantity, averagePrice) =
        (case find_by hd_Symbol (te_Symbol event) holdings of
           None \<Rightarrow> ('''', '''')
         | Some h \<Rightarrow> (formatDecimal8 (hd_Quantity h), formatDecimal8 (hd_AverageBuyPrice h)))
      in \<lparr>ve_EventID = i, ve_EventType = ''portfolio.updated'', ve_EventVersion = ''v1'',
          ve_TenantID = pv_TenantID portfolio, ve_PortfolioID = pv_ID portfolio, ve_UserID = pv_UserID portfolio,
          ve_AccountID = pv_ID portfolio, ve_Symbol = te_Symbol event, ve_PositionQuantity = positionQuantity,
          ve_AveragePrice = averagePrice, ve_CashDelta = formatDecimal8 cashDelta,
          ve_CashBalance = pv_CashBalance portfolio, ve_TotalValue = pv_TotalValue portfolio,
          ve_RealizedPnL = pv_RealizedPnL portfolio, ve_SourceEventID = te_EventID event,
          ve_SourceExecutionID = te_ExecutionID event, ve_UpdatedAt = now, ve_OccurredAt = now,
          ve_CorrelationID = te_CorrelationID event\<rparr>)"

text \<open>\<open>outbox.Insert\<close>, with its ON CONFLICT (event_id) DO NOTHING.\<close>

definition insertPortfolioOutbox :: "time \<Rightarrow> string \<Rightarrow> PortfolioEvent \<Rightarrow> pdb \<Rightarrow> pdb" where
  "insertPortfolioOutbox now topic event d =
     (if ve_EventID event \<in> px_event_id ` set (portfolio_outbox d) then d
      else d\<lparr>outbox_serial := Suc (outbox_serial d),
        portfolio_outbox := portfolio_outbox d @ [\<lparr>px_id = outbox_serial d, px_event_id = ve_EventID event,
          px_tenant_id = ve_TenantID event, px_aggregate_type = ''portfolio'',
          px_aggregate_id = ve_PortfolioID event, px_event_type = ve_EventType event,
          px_event_version = ve_EventVersion event, px_topic = topic, px_payload = event,
          px_headers = [(''eventType'', ve_EventType event), (''eventVersion'', ve_EventVersion event),
            (''correlationId'', ve_CorrelationID event), (''tenantId'', ve_TenantID event)],
          px_status = ''pending'', px_attempts = 0, px_next_attempt_at = now, px_last_error = None,
          px_created_at = now, px_published_at = None\<rparr>]\<rparr>)"

text \<open>The row that marks an execution as applied. A NULL execution id does not conflict with another.\<close>

definition insertProcessed :: "processed_row \<Rightarrow> pdb \<Rightarrow> portfolio_error + pdb" where
  "insertProcessed row d =
     (if \<exists>r\<in>set (processed_events d). pz_tenant_id r = pz_tenant_id row \<and>
           (pz_event_id r = pz_event_id row \<or> pz_idempotency_key r = pz_idempotency_key row \<or>
            (pz_execution_id row \<noteq> None \<and> pz_execution_id r = pz_execution_id row))
      then Inl (PConstraint ''portfolio_processed_events'')
      else Inr (d\<lparr>processed_events := processed_events d @ [row]\<rparr>))"

definition processed_row_of :: "time \<Rightarrow> string \<Rightarrow> TradeExecutedEvent \<Rightarrow> string \<Rightarrow> processed_row" where
  "processed_row_of now tenantID event payloadHash =
     \<lparr>pz_event_id = te_EventID event,
      pz_execution_id = (if te_ExecutionID event = '''' then None else Some (te_ExecutionID event)),
      pz_tenant_id = tenantID, pz_event_type = te_EventType event, pz_event_version = te_EventVersion event,
      pz_source_service = sourceService (te_Source event), pz_aggregate_id = te_ExecutionID event,
      pz_idempotency_key = BuildIdempotencyKey event, pz_correlation_id = te_CorrelationID event,
      pz_payload_hash = Some payloadHash, pz_consumer_version = ''v3.3.0'', pz_processed_at = now\<rparr>"

subsection \<open>Applying a trade\<close>

record UpdateResult =
  ur_Portfolio :: "Portfolio option"
  ur_Seller :: "Portfolio option"
  ur_Holdings :: "Holding list"
  ur_Snapshot :: "PortfolioSnapshot option"
  ur_PortfolioEvent :: "PortfolioEvent option"
  ur_Duplicate :: bool

definition duplicate_result :: UpdateResult where
  "duplicate_result = \<lparr>ur_Portfolio = None, ur_Seller = None, ur_Holdings = [], ur_Snapshot = None,
     ur_PortfolioEvent = None, ur_Duplicate = True\<rparr>"

text \<open>The mutations of \<open>ApplyTradeExecution\<close> for an execution that is not recorded yet, in three parts:
  balances and holdings, the ledger with the processed row, the views and the outbox row.\<close>

definition move_positions :: "(rat \<Rightarrow> rat \<Rightarrow> rat) \<Rightarrow> time \<Rightarrow> string \<Rightarrow> TradeExecutedEvent \<Rightarrow> float64 \<Rightarrow> pdb
    \<Rightarrow> portfolio_error + (string \<times> string \<times> float64 \<times> pdb)" where
  "move_positions numeric_div now tenantID event initialCash d =
     (let (buyerPortfolioID, d1) = ensurePortfolio now tenantID (te_BuyerUserID event) initialCash d;
          (sellerPortfolioID, d2) = ensurePortfolio now tenantID (te_SellerUserID event) initialCash d1;
          holdingKeys = sort_key fst [(buyerPortfolioID, te_BuyerUserID event), (sellerPortfolioID, te_SellerUserID event)];
          d3 = fold (\<lambda>k. ensureHoldingForUpdate now tenantID (fst k) (snd k) (te_Symbol event)) holdingKeys d2
      in and_then (applyExecutionBuyer numeric_div now tenantID buyerPortfolioID event d3) (\<lambda>d4.
         and_then (applyExecutionSeller now tenantID sellerPortfolioID event d4) (\<lambda>(sellerRealized, d5).
         Inr (buyerPortfolioID, sellerPortfolioID, sellerRealized, d5))))"

definition record_execution :: "time \<Rightarrow> string \<Rightarrow> TradeExecutedEvent \<Rightarrow> string \<Rightarrow> string \<Rightarrow> string \<Rightarrow> float64 \<Rightarrow> pdb
    \<Rightarrow> portfolio_error + pdb" where
  "record_execution now tenantID event payloadHash buyerPortfolioID sellerPortfolioID sellerRealized d =
     and_then (insertPortfolioTransaction tenantID buyerPortfolioID (te_BuyerUserID event) (te_ExecutionID event)
       (te_BuyOrderID event) (te_Symbol event) ''BUY'' (te_ExecutionQuantity event) (te_ExecutionPrice event)
       (gross_amount event) 0 (- gross_amount event) (te_Currency event) 0 (te_CorrelationID event)
       (te_OccurredAt event) d) (\<lambda>d1.
     and_then (insertPortfolioTransaction tenantID sellerPortfolioID (te_SellerUserID event) (te_ExecutionID event)
       (te_SellOrderID event) (te_Symbol event) ''SELL'' (te_ExecutionQuantity event) (te_ExecutionPrice event)
       (gross_amount event) 0 (gross_amount event) (te_Currency event) sellerRealized (te_CorrelationID event)
       (te_OccurredAt event) d1)
     (insertProcessed (processed_row_of now tenantID event payloadHash)))"

definition publish_update :: "time \<Rightarrow> string \<Rightarrow> TradeExecutedEvent \<Rightarrow> string \<Rightarrow> pdb \<Rightarrow> portfolio_error + (UpdateResult \<times> pdb)" where
  "publish_update now tenantID event portfolioTopic d =
     and_then (readPortfolio tenantID (te_BuyerUserID event) d) (\<lambda>buyer.
     and_then (readPortfolio tenantID (te_SellerUserID event) d) (\<lambda>seller.
     let holdings = readHoldings tenantID (te_BuyerUserID event) d;
         (snapshot, d1) = createSnapshot now buyer holdings d;
         portfolioEvent = buildPortfolioUpdatedEvent (pnew_id d1) now event buyer holdings (- gross_amount event)
     in Inr (\<lparr>ur_Portfolio = Some buyer, ur_Seller = Some seller, ur_Holdings = holdings,
               ur_Snapshot = Some snapshot, ur_PortfolioEvent = Some portfolioEvent, ur_Duplicate = False\<rparr>,
             insertPortfolioOutbox now portfolioTopic portfolioEvent (puse_id d1))))"

definition ApplyTradeExecution :: "(rat \<Rightarrow> rat \<Rightarrow> rat) \<Rightarrow> time \<Rightarrow> TradeExecutedEvent \<Rightarrow> float64 \<Rightarrow> string \<Rightarrow> string \<Rightarrow> pdb
    \<Rightarrow> portfolio_error + (UpdateResult \<times> pdb)" where
  "ApplyTradeExecution numeric_div now event initialCash payloadHash portfolioTopic d =
     (let tenantID = defaultTenant (te_TenantID event); idempotencyKey = BuildIdempotencyKey event
      in case find_by (\<lambda>r. (pz_tenant_id r, pz_idempotency_key r)) (tenantID, idempotencyKey) (processed_events d) of
           Some r \<Rightarrow>
             (case pz_payload_hash r of
                None \<Rightarrow> Inl (PConstraint ''scan payload_hash'')
              | Some existingHash \<Rightarrow>
                  if existingHash \<noteq> '''' \<and> existingHash \<noteq> payloadHash then Inl ErrPayloadConflict
                  else Inr (duplicate_result, d))
         | None \<Rightarrow>
             and_then (move_positions numeric_div now tenantID event initialCash d)
               (\<lambda>(buyerPortfolioID, sellerPortfolioID, sellerRealized, d1).
             and_then (record_execution now tenantID event payloadHash buyerPortfolioID sellerPortfolioID sellerRealized d1)
               (publish_update now tenantID event portfolioTopic)))"

text \<open>The rows the transaction locks, in order: the portfolio rows that the two upserts touch, the balances,
  the holdings.\<close>

datatype lock = LockPortfolio string | LockCash string | LockHolding string

definition trade_locks :: "string \<Rightarrow> string \<Rightarrow> lock list" where
  "trade_locks buyerPortfolioID sellerPortfolioID =
     [LockPortfolio buyerPortfolioID, LockPortfolio sellerPortfolioID] @
     map LockCash (uniqueSorted [buyerPortfolioID, sellerPortfolioID]) @
     map LockHolding (sort [buyerPortfolioID, sellerPortfolioID])"

subsection \<open>The legacy event\<close>

definition applyBuy :: "(rat \<Rightarrow> rat \<Rightarrow> rat) \<Rightarrow> time \<Rightarrow> string \<Rightarrow> OrderFilledEvent \<Rightarrow> float64 \<Rightarrow> pdb
    \<Rightarrow> portfolio_error + pdb" where
  "applyBuy numeric_div now portfolioID event fillPrice d =
     (let cost = fl64 (of_Quantity event * fillPrice);
          quantity = shortest (of_Quantity event); price = shortest fillPrice;
          d1 = update_cash portfolioID
            (\<lambda>r. r\<lparr>cb_cash_balance := cb_cash_balance r - shortest cost, cb_updated_at := now\<rparr>) d
      in case find_by (\<lambda>r. (ph_portfolio_id r, ph_symbol r)) (portfolioID, of_Symbol event) (portfolio_holdings d1) of
           None \<Rightarrow> Inr ((puse_id d1)\<lparr>portfolio_holdings := portfolio_holdings d1 @ [\<lparr>ph_id = pnew_id d1,
             ph_tenant_id = Some (defaultTenant (of_TenantID event)), ph_portfolio_id = portfolioID,
             ph_user_id = of_UserID event, ph_symbol = of_Symbol event, ph_quantity = quantity,
             ph_average_buy_price = price, ph_updated_at = now\<rparr>]\<rparr>)
         | Some h \<Rightarrow>
             if ph_quantity h + quantity = 0 then Inl (PConstraint ''average_buy_price is null'')
             else Inr (d1\<lparr>portfolio_holdings := upd_where
               (\<lambda>r. (ph_portfolio_id r, ph_symbol r) = (portfolioID, of_Symbol event))
               (\<lambda>r. r\<lparr>ph_average_buy_price := numeric_div (ph_quantity r * ph_average_buy_price r + quantity * price)
                       (ph_quantity r + quantity),
                     ph_quantity := ph_quantity r + quantity, ph_updated_at := now\<rparr>) (portfolio_holdings d1)\<rparr>))"

definition applySell :: "time \<Rightarrow> string \<Rightarrow> OrderFilledEvent \<Rightarrow> float64 \<Rightarrow> pdb \<Rightarrow> portfolio_error + pdb" where
  "applySell now portfolioID event fillPrice d =
     (let at_holding = (\<lambda>r. (ph_portfolio_id r, ph_symbol r) = (portfolioID, of_Symbol event))
      in case find_by (\<lambda>r. (ph_portfolio_id r, ph_symbol r)) (portfolioID, of_Symbol event) (portfolio_holdings d) of
           None \<Rightarrow> Inl ErrInsufficientHoldings
         | Some h \<Rightarrow>
             let currentQty = fl64 (ph_quantity h); averageBuyPrice = fl64 (ph_average_buy_price h)
             in if currentQty < of_Quantity event then Inl ErrInsufficientHoldings
                else
                  let realized = fl64 (fl64 (fillPrice - averageBuyPrice) * of_Quantity event)
                  in Inr ((update_cash portfolioID
                       (\<lambda>r. r\<lparr>cb_cash_balance := cb_cash_balance r + shortest (fl64 (of_Quantity event * fillPrice)),
                             cb_realized_pnl := cb_realized_pnl r + shortest realized, cb_updated_at := now\<rparr>) d)
                     \<lparr>portfolio_holdings := upd_where at_holding
                        (\<lambda>r. r\<lparr>ph_quantity := ph_quantity r - shortest (of_Quantity event), ph_updated_at := now\<rparr>)
                        (portfolio_holdings d),
                      realized_pnl_events := realized_pnl_events d @ [\<lparr>rl_tenant_id = Some (defaultTenant (of_TenantID event)),
                        rl_portfolio_id = portfolioID, rl_user_id = of_UserID event, rl_order_id = of_OrderID event,
                        rl_symbol = of_Symbol event, rl_quantity = shortest (of_Quantity event),
                        rl_fill_price = shortest fillPrice, rl_average_buy_price = shortest averageBuyPrice,
                        rl_realized_pnl = shortest realized, rl_occurred_at = of_OccurredAt event,
                        rl_correlation_id = of_CorrelationID event\<rparr>]\<rparr>))"

definition ApplyFilledOrder :: "(rat \<Rightarrow> rat \<Rightarrow> rat) \<Rightarrow> time \<Rightarrow> OrderFilledEvent \<Rightarrow> float64 \<Rightarrow> pdb
    \<Rightarrow> portfolio_error + (UpdateResult \<times> pdb)" where
  "ApplyFilledOrder numeric_div now event initialCash d =
     (let tenantID = defaultTenant (of_TenantID event)
      in if \<exists>r\<in>set (processed_order_events d). oe_tenant_id r = Some tenantID \<and> oe_event_id r = of_EventID event
         then Inr (duplicate_result, d)
         else
           let (portfolioID, d1) = ensurePortfolio now tenantID (of_UserID event) initialCash d;
               fillPrice = coalesce (of_FillPrice event) 0
           in if fillPrice \<le> 0 \<or> of_Quantity event \<le> 0 then Inl ErrInvalidFill
              else and_then
                (if of_Side event = ''BUY'' then applyBuy numeric_div now portfolioID event fillPrice d1
                 else if of_Side event = ''SELL'' then applySell now portfolioID event fillPrice d1
                 else Inl ErrUnsupportedSide) (\<lambda>d2.
                if of_EventID event \<in> oe_event_id ` set (processed_order_events d2)
                then Inl (PConstraint ''processed_order_events_pkey'')
                else
                  let d3 = d2\<lparr>processed_order_events := processed_order_events d2 @ [\<lparr>oe_event_id = of_EventID event,
                        oe_tenant_id = Some tenantID, oe_order_id = of_OrderID event, oe_user_id = of_UserID event\<rparr>]\<rparr>
                  in and_then (readPortfolio tenantID (of_UserID event) d3) (\<lambda>portfolio.
                     let holdings = readHoldings tenantID (of_UserID event) d3;
                         (snapshot, d4) = createSnapshot now portfolio holdings d3
                     in Inr (\<lparr>ur_Portfolio = Some portfolio, ur_Seller = None, ur_Holdings = holdings,
                               ur_Snapshot = Some snapshot, ur_PortfolioEvent = None, ur_Duplicate = False\<rparr>, d4))))"

subsection \<open>Queries\<close>

definition GetPortfolio :: "time \<Rightarrow> string \<Rightarrow> string \<Rightarrow> float64 \<Rightarrow> pdb \<Rightarrow> portfolio_error + (Portfolio \<times> pdb)" where
  "GetPortfolio now tenantID userID initialCash d =
     (let (portfolioID, d1) = ensurePortfolio now (defaultTenant tenantID) userID initialCash d
      in and_then (readPortfolio (defaultTenant tenantID) userID d1) (\<lambda>portfolio. Inr (portfolio, d1)))"

definition GetHoldings :: "string \<Rightarrow> string \<Rightarrow> pdb \<Rightarrow> Holding list" where
  "GetHoldings tenantID userID d = scanHoldings (sort_key ph_symbol
     (filter (\<lambda>r. holding_tenant r = defaultTenant tenantID \<and> ph_user_id r = userID \<and> ph_quantity r > 0)
       (portfolio_holdings d)))"

definition GetSnapshots :: "string \<Rightarrow> string \<Rightarrow> pdb \<Rightarrow> PortfolioSnapshot list" where
  "GetSnapshots tenantID userID d = map (\<lambda>r. \<lparr>sn_ID = ps_id r, sn_PortfolioID = ps_portfolio_id r,
       sn_TenantID = coalesce (ps_tenant_id r) ''default-tenant'', sn_UserID = ps_user_id r,
       sn_CashBalance = fl64 (ps_cash_balance r), sn_HoldingsValue = fl64 (ps_holdings_value r),
       sn_TotalValue = fl64 (ps_total_value r), sn_RealizedPnL = fl64 (ps_realized_pnl r),
       sn_CreatedAt = ps_created_at r\<rparr>)
     (limit_rows 50 (sort_key (\<lambda>r. - ps_created_at r)
       (filter (\<lambda>r. coalesce (ps_tenant_id r) ''default-tenant'' = defaultTenant tenantID \<and> ps_user_id r = userID)
         (portfolio_snapshots d))))"

definition GetRealizedPnL :: "string \<Rightarrow> string \<Rightarrow> pdb \<Rightarrow> float64 \<times> pnl_row list" where
  "GetRealizedPnL tenantID userID d =
     (let rows = limit_rows 100 (sort_key (\<lambda>r. - rl_occurred_at r)
            (filter (\<lambda>r. coalesce (rl_tenant_id r) ''default-tenant'' = defaultTenant tenantID \<and> rl_user_id r = userID)
              (realized_pnl_events d)))
      in (fold (\<lambda>r total. fl64 (total + fl64 (rl_realized_pnl r))) rows 0,
          map (\<lambda>r. r\<lparr>rl_quantity := fl64 (rl_quantity r), rl_fill_price := fl64 (rl_fill_price r),
            rl_average_buy_price := fl64 (rl_average_buy_price r), rl_realized_pnl := fl64 (rl_realized_pnl r)\<rparr>) rows))"

text \<open>The tables after the migrations.\<close>

definition empty_pdb :: pdb where
  "empty_pdb = \<lparr>portfolios = [], cash_balances = [], portfolio_holdings = [], portfolio_snapshots = [],
     realized_pnl_events = [], processed_order_events = [], processed_events = [], portfolio_transactions = [],
     portfolio_outbox = [], outbox_serial = 0, pdb_ids = (\<lambda>n. replicate (Suc n) (CHR ''p'')), pdb_next = 0\<rparr>"

end
