(* ===== verification/PortfolioService.thy ===== *)
theory PortfolioService
  imports PortfolioRepository
begin

text \<open>
  \<open>internal/service/portfolio_service.go\<close> and \<open>internal/kafka/consumer.go\<close> of the portfolio service:
  decoding and normalising a message, applying the trade, the views a user may read, and the Kafka
  consumer around it with its retries and dead letter queue, and the health classification of
  \<open>internal/consumerobs\<close>. A payload is a JSON value, or None when it is no JSON. Metrics and logs are
  left out; the clock, the cancellation of the context and the failures of the dead letter writer are
  arguments.
\<close>

subsection \<open>Decoding\<close>

definition decodeTradeExecuted :: "(string \<Rightarrow> time option) \<Rightarrow> json option \<Rightarrow> TradeExecutedEvent option" where
  "decodeTradeExecuted rfc3339 payload = do {
     raw \<leftarrow> json_members payload;
     let str = decode_field json_string '''' raw; num = decode_field json_float 0 raw in do {
     eventID \<leftarrow> str ''eventId''; eventType \<leftarrow> str ''eventType''; eventVersion \<leftarrow> str ''eventVersion'';
     tenantID \<leftarrow> str ''tenantId''; corr \<leftarrow> str ''correlationId''; traceParent \<leftarrow> str ''traceparent'';
     occurredAt \<leftarrow> decode_field (json_time rfc3339) zero_time raw ''occurredAt'';
     executionID \<leftarrow> str ''executionId''; tradeID \<leftarrow> str ''tradeId''; buyOrderID \<leftarrow> str ''buyOrderId'';
     sellOrderID \<leftarrow> str ''sellOrderId''; buyerUserID \<leftarrow> str ''buyerUserId''; sellerUserID \<leftarrow> str ''sellerUserId'';
     symbol \<leftarrow> str ''symbol''; quantity \<leftarrow> num ''executionQuantity''; price \<leftarrow> num ''executionPrice'';
     currency \<leftarrow> str ''currency''; source \<leftarrow> str ''source'';
     Some \<lparr>te_EventID = eventID, te_EventType = eventType, te_EventVersion = eventVersion, te_TenantID = tenantID,
       te_CorrelationID = corr, te_TraceParent = traceParent, te_OccurredAt = occurredAt,
       te_ExecutionID = executionID, te_TradeID = tradeID, te_BuyOrderID = buyOrderID,
       te_SellOrderID = sellOrderID, te_BuyerUserID = buyerUserID, te_SellerUserID = sellerUserID,
       te_Symbol = symbol, te_ExecutionQuantity = quantity, te_ExecutionPrice = price, te_Currency = currency,
       te_Source = source\<rparr> }}"

definition decodeOrderFilled :: "(string \<Rightarrow> time option) \<Rightarrow> json option \<Rightarrow> OrderFilledEvent option" where
  "decodeOrderFilled rfc3339 payload = do {
     raw \<leftarrow> json_members payload;
     let str = decode_field json_string '''' raw in do {
     eventID \<leftarrow> str ''eventId''; eventType \<leftarrow> str ''eventType''; eventVersion \<leftarrow> str ''eventVersion'';
     tenantID \<leftarrow> str ''tenantId''; orderID \<leftarrow> str ''orderId''; userID \<leftarrow> str ''userId''; symbol \<leftarrow> str ''symbol'';
     side \<leftarrow> str ''side''; orderType \<leftarrow> str ''orderType''; quantity \<leftarrow> decode_field json_float 0 raw ''quantity'';
     status \<leftarrow> str ''status''; fillPrice \<leftarrow> decode_pointer json_float raw ''fillPrice'';
     occurredAt \<leftarrow> decode_field (json_time rfc3339) zero_time raw ''occurredAt''; corr \<leftarrow> str ''correlationId'';
     Some \<lparr>of_EventID = eventID, of_EventType = eventType, of_EventVersion = eventVersion, of_TenantID = tenantID,
       of_OrderID = orderID, of_UserID = userID, of_Symbol = symbol, of_Side = side, of_OrderType = orderType,
       of_Quantity = quantity, of_Status = status, of_FillPrice = fillPrice, of_OccurredAt = occurredAt,
       of_CorrelationID = corr\<rparr> }}"

subsection \<open>The service\<close>

record PortfolioService =
  sp_initialCash :: float64
  sp_portfolioTopic :: string
  sp_numeric_div :: "rat \<Rightarrow> rat \<Rightarrow> rat"
  sp_sha256_hex :: "string \<Rightarrow> string"
  sp_rfc3339 :: "string \<Rightarrow> time option"

definition NewPortfolioService :: "(rat \<Rightarrow> rat \<Rightarrow> rat) \<Rightarrow> (string \<Rightarrow> string) \<Rightarrow> (string \<Rightarrow> time option) \<Rightarrow> float64
    \<Rightarrow> string list \<Rightarrow> PortfolioService" where
  "NewPortfolioService numeric_div sha256_hex rfc3339 initialCash topics =
     \<lparr>sp_initialCash = initialCash,
      sp_portfolioTopic = (case topics of [] \<Rightarrow> ''portfolio.updated''
        | topic # _ \<Rightarrow> if trim_space topic = '''' then ''portfolio.updated'' else trim_space topic),
      sp_numeric_div = numeric_div, sp_sha256_hex = sha256_hex, sp_rfc3339 = rfc3339\<rparr>"

definition trimmed_trade :: "TradeExecutedEvent \<Rightarrow> TradeExecutedEvent" where
  "trimmed_trade event = event\<lparr>
     te_EventVersion := (if trim_space (te_EventVersion event) = '''' then ''1.0'' else trim_space (te_EventVersion event)),
     te_TenantID := trim_space (te_TenantID event), te_ExecutionID := trim_space (te_ExecutionID event),
     te_BuyOrderID := trim_space (te_BuyOrderID event), te_SellOrderID := trim_space (te_SellOrderID event),
     te_BuyerUserID := trim_space (te_BuyerUserID event), te_SellerUserID := trim_space (te_SellerUserID event),
     te_Symbol := to_upper (trim_space (te_Symbol event)),
     te_Currency := (if trim_space (te_Currency event) = '''' then ''USD'' else to_upper (trim_space (te_Currency event)))\<rparr>"

definition normalizeTradeExecuted :: "TradeExecutedEvent \<Rightarrow> portfolio_error + TradeExecutedEvent" where
  "normalizeTradeExecuted event0 =
     (let event = trimmed_trade event0
      in if te_EventVersion event \<noteq> ''1.0'' \<and> te_EventVersion event \<noteq> ''1''
           then Inl (ErrInvalidExecution ''unsupported event version'')
         else if te_EventID event = '''' \<or> te_TenantID event = '''' \<or> te_ExecutionID event = '''' \<or>
             te_BuyOrderID event = '''' \<or> te_SellOrderID event = '''' \<or> te_BuyerUserID event = '''' \<or>
             te_SellerUserID event = '''' \<or> te_Symbol event = ''''
           then Inl (ErrInvalidExecution ''required field missing'')
         else if te_BuyOrderID event = te_SellOrderID event
           then Inl (ErrInvalidExecution ''buy and sell order IDs match'')
         else if te_BuyerUserID event = te_SellerUserID event then Inl ErrSelfTrade
         else if te_ExecutionQuantity event \<le> 0 then Inl (ErrInvalidExecution ''quantity must be positive'')
         else if te_ExecutionPrice event \<le> 0 then Inl (ErrInvalidExecution ''price must be positive'')
         else if te_Currency event \<noteq> ''USD'' then Inl (ErrInvalidExecution ''unsupported currency'')
         else if te_OccurredAt event = zero_time then Inl (ErrInvalidExecution ''occurredAt is required'')
         else Inr event)"

definition ProcessTradeExecuted :: "PortfolioService \<Rightarrow> time \<Rightarrow> json option \<Rightarrow> pdb \<Rightarrow> portfolio_error + pdb" where
  "ProcessTradeExecuted s now payload d =
     (case decodeTradeExecuted (sp_rfc3339 s) payload of
        None \<Rightarrow> Inl PDecode
      | Some event \<Rightarrow>
          if te_EventType event \<noteq> ''trade.executed'' then Inr d
          else and_then (normalizeTradeExecuted event) (\<lambda>event.
               and_then (ApplyTradeExecution (sp_numeric_div s) now event (sp_initialCash s)
                 (PayloadHash (sp_sha256_hex s) event) (sp_portfolioTopic s) d) (\<lambda>(result, d').
               Inr d')))"

definition ProcessOrderFilled :: "PortfolioService \<Rightarrow> time \<Rightarrow> json option \<Rightarrow> pdb \<Rightarrow> portfolio_error + pdb" where
  "ProcessOrderFilled s now payload d =
     (case decodeOrderFilled (sp_rfc3339 s) payload of
        None \<Rightarrow> Inl PDecode
      | Some event \<Rightarrow>
          if of_EventType event = ''order.filled'' then Inr d
          else ProcessTradeExecuted s now payload d)"

definition errorReason :: "portfolio_error \<Rightarrow> string" where
  "errorReason err = (case err of
      ErrInsufficientCash \<Rightarrow> ''insufficient_cash''
    | ErrInsufficientHoldings \<Rightarrow> ''insufficient_holdings''
    | ErrPayloadConflict \<Rightarrow> ''payload_conflict''
    | ErrSelfTrade \<Rightarrow> ''self_trade''
    | ErrInvalidExecution _ \<Rightarrow> ''invalid_execution''
    | _ \<Rightarrow> ''repository_error'')"

record portfolio_user =
  pu_UserID :: string
  pu_TenantID :: string
  pu_Roles :: "string list"

definition canView :: "string list \<Rightarrow> bool" where
  "canView roles \<longleftrightarrow> list_ex (\<lambda>r. r \<in> {''trader'', ''trading_admin'', ''risk_manager'', ''analyst'', ''viewer''}) roles"

definition ViewPortfolio :: "PortfolioService \<Rightarrow> time \<Rightarrow> portfolio_user \<Rightarrow> pdb \<Rightarrow> portfolio_error + (Portfolio \<times> pdb)" where
  "ViewPortfolio s now user d =
     (if \<not> canView (pu_Roles user) then Inl PForbidden
      else GetPortfolio now (defaultTenant (pu_TenantID user)) (pu_UserID user) (sp_initialCash s) d)"

definition ViewHoldings :: "portfolio_user \<Rightarrow> pdb \<Rightarrow> portfolio_error + Holding list" where
  "ViewHoldings user d =
     (if \<not> canView (pu_Roles user) then Inl PForbidden
      else Inr (GetHoldings (defaultTenant (pu_TenantID user)) (pu_UserID user) d))"

definition ViewSnapshots :: "portfolio_user \<Rightarrow> pdb \<Rightarrow> portfolio_error + PortfolioSnapshot list" where
  "ViewSnapshots user d =
     (if \<not> canView (pu_Roles user) then Inl PForbidden
      else Inr (GetSnapshots (defaultTenant (pu_TenantID user)) (pu_UserID user) d))"

definition ViewPnL :: "portfolio_user \<Rightarrow> pdb \<Rightarrow> portfolio_error + (float64 \<times> float64 \<times> pnl_row list)" where
  "ViewPnL user d =
     (if \<not> canView (pu_Roles user) then Inl PForbidden
      else let (total, events) = GetRealizedPnL (defaultTenant (pu_TenantID user)) (pu_UserID user) d
           in Inr (total, 0, events))"

definition Exposure :: "portfolio_user \<Rightarrow> pdb \<Rightarrow> portfolio_error + (float64 \<times> (string \<times> float64 \<times> float64) list)" where
  "Exposure user d =
     (if \<not> canView (pu_Roles user) then Inl PForbidden
      else
        let holdings = GetHoldings (defaultTenant (pu_TenantID user)) (pu_UserID user) d;
            exposures = map (\<lambda>h. (hd_Symbol h, fl64 (hd_Quantity h * hd_AverageBuyPrice h), hd_Quantity h)) holdings
        in Inr (fold (\<lambda>x total. fl64 (total + fst (snd x))) exposures 0, exposures))"

subsection \<open>The consumer\<close>

record RetryConfig =
  rc_MaxRetries :: int
  rc_Backoff :: duration
  rc_BackoffMultiplier :: float64

definition normalizeRetryConfig :: "RetryConfig \<Rightarrow> RetryConfig" where
  "normalizeRetryConfig cfg =
     \<lparr>rc_MaxRetries = (if rc_MaxRetries cfg < 0 then 0 else rc_MaxRetries cfg),
      rc_Backoff = (if rc_Backoff cfg \<le> 0 then 500 * Millisecond else rc_Backoff cfg),
      rc_BackoffMultiplier = (if rc_BackoffMultiplier cfg < 1 then 2 else rc_BackoffMultiplier cfg)\<rparr>"

record ConsumerStatus =
  ks_Running :: bool
  ks_LastConsumedAt :: "time option"
  ks_LastProcessedAt :: "time option"
  ks_LastDLQAt :: "time option"
  ks_ProcessedCount :: int
  ks_DLQCount :: int
  ks_ConsecutiveErrors :: int
  ks_LastError :: "portfolio_error option"

record DLQEvent =
  dq_OriginalTopic :: string
  dq_OriginalPayload :: "json option"
  dq_ErrorMessage :: portfolio_error
  dq_ServiceName :: string
  dq_FailedAt :: time
  dq_CorrelationID :: string
  dq_RetryCount :: int

record kafka_message =
  km_Topic :: string
  km_Key :: string
  km_Value :: "json option"
  km_Headers :: "(string \<times> string) list"

text \<open>The consumer with what it writes to: the service's database, the dead letter topic, the offset it
  has committed.\<close>

record portfolio_consumer =
  kc_service :: PortfolioService
  kc_retryConfig :: RetryConfig
  kc_status :: ConsumerStatus
  kc_db :: pdb
  kc_dlq :: "DLQEvent list"
  kc_committed :: nat

text \<open>One round's environment: the clock of the attempts, whether the sleep after an attempt is
  cancelled, the failure of the dead letter writer and of the commit.\<close>

record round_env =
  re_now :: "nat \<Rightarrow> time"
  re_cancelled :: "nat \<Rightarrow> bool"
  re_dlqFails :: bool
  re_commitFails :: bool

datatype retry_result = Done pdb | Interrupted | Exhausted portfolio_error

text \<open>The attempts \<open>attempt, ..., MaxRetries\<close>; \<open>left\<close> is \<open>MaxRetries - attempt\<close>.\<close>

fun retry_from :: "(time \<Rightarrow> json option \<Rightarrow> pdb \<Rightarrow> portfolio_error + pdb) \<Rightarrow> round_env \<Rightarrow> json option \<Rightarrow> nat \<Rightarrow> nat \<Rightarrow> pdb
    \<Rightarrow> retry_result" where
  "retry_from process env payload 0 attempt d =
     (case process (re_now env attempt) payload d of Inr d' \<Rightarrow> Done d' | Inl err \<Rightarrow> Exhausted err)"
| "retry_from process env payload (Suc left) attempt d =
     (case process (re_now env attempt) payload d of
        Inr d' \<Rightarrow> Done d'
      | Inl err \<Rightarrow> if re_cancelled env attempt then Interrupted
                  else retry_from process env payload left (Suc attempt) d)"

definition headerValue :: "(string \<times> string) list \<Rightarrow> string \<Rightarrow> string" where
  "headerValue headers key = (case find_by fst key headers of None \<Rightarrow> '''' | Some h \<Rightarrow> snd h)"

definition dlq_event :: "time \<Rightarrow> kafka_message \<Rightarrow> portfolio_error \<Rightarrow> int \<Rightarrow> DLQEvent" where
  "dlq_event now msg processingErr retryCount =
     \<lparr>dq_OriginalTopic = km_Topic msg, dq_OriginalPayload = km_Value msg, dq_ErrorMessage = processingErr,
      dq_ServiceName = ''portfolio-service'', dq_FailedAt = now,
      dq_CorrelationID = headerValue (km_Headers msg) ''correlationId'', dq_RetryCount = retryCount\<rparr>"

definition recordConsumed :: "time \<Rightarrow> ConsumerStatus \<Rightarrow> ConsumerStatus" where
  "recordConsumed t st = st\<lparr>ks_LastConsumedAt := Some t\<rparr>"

definition recordProcessed :: "time \<Rightarrow> ConsumerStatus \<Rightarrow> ConsumerStatus" where
  "recordProcessed t st = st\<lparr>ks_LastProcessedAt := Some t, ks_ProcessedCount := ks_ProcessedCount st + 1,
     ks_ConsecutiveErrors := 0, ks_LastError := None\<rparr>"

definition recordConsumerError :: "portfolio_error option \<Rightarrow> ConsumerStatus \<Rightarrow> ConsumerStatus" where
  "recordConsumerError err st = st\<lparr>ks_ConsecutiveErrors := ks_ConsecutiveErrors st + 1, ks_LastError := err\<rparr>"

definition recordDLQ :: "time \<Rightarrow> ConsumerStatus \<Rightarrow> ConsumerStatus" where
  "recordDLQ t st = st\<lparr>ks_LastDLQAt := Some t, ks_DLQCount := ks_DLQCount st + 1\<rparr>"

text \<open>\<open>processWithRetry\<close>: the consumer left, and whether an error is returned; an interrupted sleep
  returns the context's error, which is no error of the service.\<close>

definition processWithRetry :: "round_env \<Rightarrow> kafka_message \<Rightarrow> portfolio_consumer
    \<Rightarrow> (portfolio_error option) option \<times> portfolio_consumer" where
  "processWithRetry env msg c =
     (let retries = nat (rc_MaxRetries (kc_retryConfig c)); t = re_now env (Suc retries)
      in case retry_from (ProcessOrderFilled (kc_service c)) env (km_Value msg) retries 0 (kc_db c) of
           Done d' \<Rightarrow> (None, c\<lparr>kc_db := d'\<rparr>)
         | Interrupted \<Rightarrow> (Some None, c)
         | Exhausted err \<Rightarrow>
             if re_dlqFails env then (Some (Some err), c)
             else (Some (Some err), c\<lparr>kc_dlq := kc_dlq c @ [dlq_event t msg err (rc_MaxRetries (kc_retryConfig c))],
                     kc_status := recordDLQ t (kc_status c)\<rparr>))"

text \<open>One round of the loop of \<open>Start\<close> for a fetched message.\<close>

definition consume_message :: "round_env \<Rightarrow> kafka_message \<Rightarrow> portfolio_consumer \<Rightarrow> portfolio_consumer" where
  "consume_message env msg c =
     (let c1 = c\<lparr>kc_status := recordConsumed (re_now env 0) (kc_status c)\<rparr>;
          (failed, c2) = processWithRetry env msg c1;
          c3 = (case failed of
                  None \<Rightarrow> c2\<lparr>kc_status := recordProcessed (re_now env 0) (kc_status c2)\<rparr>
                | Some err \<Rightarrow> c2\<lparr>kc_status := recordConsumerError err (kc_status c2)\<rparr>)
      in if re_commitFails env then c3 else c3\<lparr>kc_committed := kc_committed c3 + 1\<rparr>)"

definition retryDelay :: "(float64 \<Rightarrow> nat \<Rightarrow> float64) \<Rightarrow> RetryConfig \<Rightarrow> nat \<Rightarrow> duration" where
  "retryDelay pow cfg attempt = \<lfloor>fl64 (fl64 (of_int (rc_Backoff cfg)) * pow (rc_BackoffMultiplier cfg) attempt)\<rfloor>"

subsection \<open>Consumer health\<close>

record ObsConfig =
  ob_Enabled :: bool
  ob_LagWarnThreshold :: int
  ob_LagCriticalThreshold :: int
  ob_StalledAfter :: duration
  ob_DLQOldestAgeCritical :: duration

datatype health = Healthy | Degraded | Stalled | Unknown | Critical

definition CalculateLag :: "int \<Rightarrow> int \<Rightarrow> int" where
  "CalculateLag latestOffset currentOffset =
     (if latestOffset \<le> currentOffset then 0
      else latestOffset - (if currentOffset < 0 then 0 else currentOffset))"

definition ClassifyConsumer :: "int \<Rightarrow> int \<Rightarrow> time option \<Rightarrow> time \<Rightarrow> ObsConfig \<Rightarrow> health" where
  "ClassifyConsumer totalLag consecutiveErrors lastProcessed now cfg =
     (if totalLag \<ge> ob_LagCriticalThreshold cfg \<and> ob_LagCriticalThreshold cfg > 0 then Degraded
      else if lastProcessed = None \<and> totalLag > 0 then Unknown
      else if (case lastProcessed of None \<Rightarrow> False | Some t \<Rightarrow> ob_StalledAfter cfg > 0 \<and> totalLag > 0 \<and>
                 now - t \<ge> ob_StalledAfter cfg) then Stalled
      else if totalLag \<ge> ob_LagWarnThreshold cfg \<and> ob_LagWarnThreshold cfg > 0 then Degraded
      else if consecutiveErrors \<ge> 3 then Degraded
      else Healthy)"

definition ClassifyDLQ :: "int \<Rightarrow> duration \<Rightarrow> ObsConfig \<Rightarrow> health" where
  "ClassifyDLQ messageCount oldestAge cfg =
     (if messageCount \<le> 0 then Healthy
      else if ob_DLQOldestAgeCritical cfg > 0 \<and> oldestAge \<ge> ob_DLQOldestAgeCritical cfg then Critical
      else Degraded)"

fun aggregate_consumers :: "health list \<Rightarrow> health \<Rightarrow> health + health" where
  "aggregate_consumers [] overall = Inr overall"
| "aggregate_consumers (st # rest) overall =
     (if st = Stalled then Inl Stalled
      else aggregate_consumers rest (if st = Degraded \<or> st = Unknown then Degraded else overall))"

fun aggregate_dlq :: "health list \<Rightarrow> health \<Rightarrow> health" where
  "aggregate_dlq [] overall = overall"
| "aggregate_dlq (st # rest) overall =
     (if st = Critical then Degraded
      else aggregate_dlq rest (if st = Degraded then Degraded else overall))"

definition AggregateStatus :: "health list \<Rightarrow> health list \<Rightarrow> health" where
  "AggregateStatus consumers dlq =
     (case aggregate_consumers consumers Healthy of
        Inl st \<Rightarrow> st
      | Inr overall \<Rightarrow> aggregate_dlq dlq overall)"

definition ConsumerObsStatus :: "ObsConfig \<Rightarrow> time \<Rightarrow> bool \<Rightarrow> ConsumerStatus \<Rightarrow> health \<times> health \<times> health" where
  "ConsumerObsStatus cfg now running st =
     (let consumer0 = ClassifyConsumer 0 (ks_ConsecutiveErrors st) (ks_LastProcessedAt st) now cfg;
          consumer = (if \<not> running \<and> ob_Enabled cfg then Unknown else consumer0);
          dlqOldestAge = (case ks_LastDLQAt st of None \<Rightarrow> 0 | Some t \<Rightarrow> now - t);
          dlq = ClassifyDLQ (ks_DLQCount st) dlqOldestAge cfg
      in (AggregateStatus [consumer] [dlq], consumer, dlq))"

end
