(* ===== verification/PortfolioFacts.thy ===== *)
theory PortfolioFacts
  imports PortfolioService
begin

text \<open>
  What the portfolio service's transactions do to the books: the balance of an account, the position of an
  account in a symbol, the ledger of transactions. An account is a portfolio id; a portfolio that does
  not exist yet counts with the initial cash it will be opened with, and a position without a row as
  zero, so opening one changes neither.
  Lemmas: a trade moves cash and shares between exactly two accounts; balances never fall below zero; the
  ledger explains every balance up to the rounding of its columns; an execution is applied once; a
  service that starts with empty books never settles a trade.
\<close>

subsection \<open>The books\<close>

definition account_of :: "pdb \<Rightarrow> string \<Rightarrow> string \<Rightarrow> string option" where
  "account_of d T u = map_option pf_id (find_by (\<lambda>r. (pf_tenant_id r, pf_user_id r)) (T, u) (portfolios d))"

definition cash_or :: "numeric \<Rightarrow> pdb \<Rightarrow> string \<Rightarrow> numeric" where
  "cash_or opening d i = (case find_by cb_portfolio_id i (cash_balances d) of None \<Rightarrow> opening | Some r \<Rightarrow> cb_cash_balance r)"

definition position_of :: "pdb \<Rightarrow> string \<Rightarrow> string \<Rightarrow> numeric" where
  "position_of d i sy = (case find_by (\<lambda>h. (ph_portfolio_id h, ph_symbol h)) (i, sy) (portfolio_holdings d) of
     None \<Rightarrow> 0 | Some h \<Rightarrow> ph_quantity h)"

definition holding_info :: "holding_row \<Rightarrow> (string \<times> string) \<times> string option \<times> string" where
  "holding_info h = ((ph_portfolio_id h, ph_symbol h), ph_tenant_id h, ph_user_id h)"

definition books_ok :: "pdb \<Rightarrow> bool" where
  "books_ok d \<longleftrightarrow> inj (pdb_ids d) \<and>
     distinct (map pf_id (portfolios d)) \<and> distinct (map (\<lambda>r. (pf_tenant_id r, pf_user_id r)) (portfolios d)) \<and>
     (\<forall>p\<in>set (portfolios d). \<exists>n<pdb_next d. pf_id p = pdb_ids d n) \<and>
     map cb_portfolio_id (cash_balances d) = map pf_id (portfolios d) \<and>
     distinct (map fst (map holding_info (portfolio_holdings d))) \<and>
     (\<forall>x\<in>set (map holding_info (portfolio_holdings d)). \<exists>p\<in>set (portfolios d).
        fst (fst x) = pf_id p \<and> snd x = (Some (pf_tenant_id p), pf_user_id p))"

lemma books_ok_cong:
  assumes "portfolios d' = portfolios d" "pdb_ids d' = pdb_ids d" "pdb_next d \<le> pdb_next d'"
    and "map cb_portfolio_id (cash_balances d') = map cb_portfolio_id (cash_balances d)"
    and "map holding_info (portfolio_holdings d') = map holding_info (portfolio_holdings d)"
    and "books_ok d"
  shows "books_ok d'"
proof -
  have "\<forall>p\<in>set (portfolios d). \<exists>n<pdb_next d'. pf_id p = pdb_ids d n"
    using assms(3,6) unfolding books_ok_def by (meson order_less_le_trans)
  then show ?thesis using assms(6) unfolding books_ok_def assms(1,2,4,5) by blast
qed

lemma account_of_Some:
  "books_ok d \<Longrightarrow> account_of d T u = Some i \<longleftrightarrow>
     (\<exists>p\<in>set (portfolios d). pf_id p = i \<and> pf_tenant_id p = T \<and> pf_user_id p = u)"
proof -
  assume "books_ok d"
  then have "distinct (map (\<lambda>r. (pf_tenant_id r, pf_user_id r)) (portfolios d))" by (simp add: books_ok_def)
  then have "find_by (\<lambda>r. (pf_tenant_id r, pf_user_id r)) (T, u) (portfolios d) = Some p \<longleftrightarrow>
      p \<in> set (portfolios d) \<and> pf_tenant_id p = T \<and> pf_user_id p = u" for p
    using find_by_unique [of "\<lambda>r. (pf_tenant_id r, pf_user_id r)" "portfolios d" p]
      find_by_Some [of "\<lambda>r. (pf_tenant_id r, pf_user_id r)" "(T, u)" "portfolios d" p] by auto
  then show ?thesis by (auto simp: account_of_def)
qed

lemma account_of_inj:
  assumes "books_ok d" "account_of d T u = Some i" "account_of d T' u' = Some i" shows "T' = T \<and> u' = u"
proof -
  obtain p p' where "p \<in> set (portfolios d)" "pf_id p = i" "pf_tenant_id p = T" "pf_user_id p = u"
    "p' \<in> set (portfolios d)" "pf_id p' = i" "pf_tenant_id p' = T'" "pf_user_id p' = u'"
    using assms(2,3) unfolding account_of_Some [OF assms(1)] by blast
  moreover from this have "p' = p" using assms(1) by (auto simp: books_ok_def distinct_map inj_on_def)
  ultimately show ?thesis by simp
qed

lemma cash_row_ex:
  assumes "books_ok d" "account_of d T u = Some i"
  shows "i \<in> cb_portfolio_id ` set (cash_balances d)" "distinct (map cb_portfolio_id (cash_balances d))"
proof -
  have m: "map cb_portfolio_id (cash_balances d) = map pf_id (portfolios d)" using assms(1) by (simp add: books_ok_def)
  then have "cb_portfolio_id ` set (cash_balances d) = pf_id ` set (portfolios d)" by (metis list.set_map)
  moreover have "i \<in> pf_id ` set (portfolios d)" using assms(2) unfolding account_of_Some [OF assms(1)] by force
  ultimately show "i \<in> cb_portfolio_id ` set (cash_balances d)" by simp
  show "distinct (map cb_portfolio_id (cash_balances d))" using m assms(1) by (simp add: books_ok_def)
qed

subsection \<open>Opening accounts and positions\<close>

lemma ensurePortfolio_books:
  assumes "books_ok d" "ensurePortfolio now T u ini d = (i, d1)" "T \<noteq> ''''"
  shows "books_ok d1" "account_of d1 T u = Some i" "cash_or (shortest ini) d1 = cash_or (shortest ini) d"
    and "account_of d T' u' = Some j \<Longrightarrow> account_of d1 T' u' = Some j"
    and "portfolio_holdings d1 = portfolio_holdings d" "pdb_ids d1 = pdb_ids d" "pdb_next d \<le> pdb_next d1"
    and "portfolio_transactions d1 = portfolio_transactions d" "processed_events d1 = processed_events d"
proof -
  have T: "defaultTenant T = T" using assms(3) by (simp add: defaultTenant_def)
  have m: "map cb_portfolio_id (cash_balances d) = map pf_id (portfolios d)" using assms(1) by (simp add: books_ok_def)
  then have ids: "cb_portfolio_id ` set (cash_balances d) = pf_id ` set (portfolios d)" by (metis list.set_map)
  consider (old) "find_by (\<lambda>r. (pf_tenant_id r, pf_user_id r)) (T, u) (portfolios d) \<noteq> None"
    | (new) "find_by (\<lambda>r. (pf_tenant_id r, pf_user_id r)) (T, u) (portfolios d) = None" by blast
  then have "books_ok d1 \<and> account_of d1 T u = Some i \<and> cash_or (shortest ini) d1 = cash_or (shortest ini) d \<and>
     (account_of d T' u' = Some j \<longrightarrow> account_of d1 T' u' = Some j) \<and>
     portfolio_holdings d1 = portfolio_holdings d \<and> pdb_ids d1 = pdb_ids d \<and> pdb_next d \<le> pdb_next d1 \<and>
     portfolio_transactions d1 = portfolio_transactions d \<and> processed_events d1 = processed_events d"
  proof cases
    case old
    then obtain r where r: "find_by (\<lambda>r. (pf_tenant_id r, pf_user_id r)) (T, u) (portfolios d) = Some r" by blast
    then have "pf_id r \<in> cb_portfolio_id ` set (cash_balances d)" using find_by_Some [OF r] ids by blast
    then have "d1 = d" "i = pf_id r" using assms(2) r by (auto simp: ensurePortfolio_def T)
    then show ?thesis using assms(1) r by (simp add: account_of_def)
  next
    case new
    let ?p = "\<lparr>pf_id = pnew_id d, pf_tenant_id = T, pf_user_id = u, pf_created_at = now, pf_updated_at = now\<rparr>"
    have fresh: "pnew_id d \<notin> pf_id ` set (portfolios d)"
      using assms(1) unfolding books_ok_def pnew_id_def by (force simp: inj_eq)
    then have nc: "pnew_id d \<notin> cb_portfolio_id ` set (cash_balances d)" using ids by simp
    have d1: "d1 = (puse_id d)\<lparr>portfolios := portfolios d @ [?p], cash_balances := cash_balances d @
        [\<lparr>cb_portfolio_id = pnew_id d, cb_cash_balance = shortest ini, cb_realized_pnl = 0, cb_updated_at = now\<rparr>]\<rparr>"
      and i: "i = pnew_id d"
      using assms(2) new nc by (auto simp: ensurePortfolio_def T puse_id_def)
    have "(T, u) \<notin> (\<lambda>r. (pf_tenant_id r, pf_user_id r)) ` set (portfolios d)" using new by (simp add: find_by_None_iff)
    moreover have "\<exists>n<Suc (pdb_next d). pf_id p = pdb_ids d n" if "p \<in> set (portfolios d)" for p
      using assms(1) that less_SucI unfolding books_ok_def by metis
    ultimately have "books_ok d1"
      using assms(1) fresh m unfolding d1 books_ok_def by (auto simp: puse_id_def pnew_id_def)
    moreover have "cash_or (shortest ini) d1 j = cash_or (shortest ini) d j" for j
      by (simp add: d1 cash_or_def find_by_append sql_simps split: option.splits)
    ultimately show ?thesis
      using new by (auto simp: d1 i account_of_def find_by_append sql_simps puse_id_def split: option.splits)
  qed
  then show "books_ok d1" "account_of d1 T u = Some i" "cash_or (shortest ini) d1 = cash_or (shortest ini) d"
    and "account_of d T' u' = Some j \<Longrightarrow> account_of d1 T' u' = Some j"
    and "portfolio_holdings d1 = portfolio_holdings d" "pdb_ids d1 = pdb_ids d" "pdb_next d \<le> pdb_next d1"
    and "portfolio_transactions d1 = portfolio_transactions d" "processed_events d1 = processed_events d"
    by blast+
qed

lemma ensureHolding_books:
  assumes "books_ok d" "account_of d T u = Some i" and d1_def: "d1 = ensureHoldingForUpdate now T i u sy d"
  shows "books_ok d1" "portfolios d1 = portfolios d" "cash_balances d1 = cash_balances d"
    and "position_of d1 = position_of d" "(i, sy) \<in> fst ` holding_info ` set (portfolio_holdings d1)"
    and "fst ` holding_info ` set (portfolio_holdings d) \<subseteq> fst ` holding_info ` set (portfolio_holdings d1)"
    and "portfolio_transactions d1 = portfolio_transactions d" "processed_events d1 = processed_events d"
proof -
  let ?key = "\<lambda>h. (ph_portfolio_id h, ph_symbol h)"
  have k: "fst ` holding_info ` set hs = ?key ` set hs" for hs by (simp add: image_image holding_info_def)
  have "books_ok d1 \<and> portfolios d1 = portfolios d \<and> cash_balances d1 = cash_balances d \<and>
     position_of d1 = position_of d \<and> (i, sy) \<in> fst ` holding_info ` set (portfolio_holdings d1) \<and>
     fst ` holding_info ` set (portfolio_holdings d) \<subseteq> fst ` holding_info ` set (portfolio_holdings d1) \<and>
     portfolio_transactions d1 = portfolio_transactions d \<and> processed_events d1 = processed_events d"
  proof (cases "(i, sy) \<in> ?key ` set (portfolio_holdings d)")
    case True
    then have "d1 = d" by (simp add: d1_def ensureHoldingForUpdate_def)
    then show ?thesis using True assms(1) by (simp add: k)
  next
    case False
    then have d1: "d1 = (puse_id d)\<lparr>portfolio_holdings := portfolio_holdings d @ [\<lparr>ph_id = pnew_id d,
        ph_tenant_id = Some T, ph_portfolio_id = i, ph_user_id = u, ph_symbol = sy,
        ph_quantity = 0, ph_average_buy_price = 0, ph_updated_at = now\<rparr>]\<rparr>"
      by (simp add: d1_def ensureHoldingForUpdate_def)
    obtain p where p: "p \<in> set (portfolios d)" "pf_id p = i" "pf_tenant_id p = T" "pf_user_id p = u"
      using assms(2) account_of_Some [OF assms(1)] by blast
    have "\<exists>n<Suc (pdb_next d). pf_id q = pdb_ids d n" if "q \<in> set (portfolios d)" for q
      using assms(1) that less_SucI unfolding books_ok_def by metis
    moreover have "(i, sy) \<notin> fst ` holding_info ` set (portfolio_holdings d)" using False by (simp add: k)
    moreover have "distinct (map fst (map holding_info (portfolio_holdings d)))" using assms(1) by (simp add: books_ok_def)
    ultimately have "books_ok d1"
      using assms(1) p unfolding d1 books_ok_def by (auto simp: puse_id_def holding_info_def image_image)
    moreover have "position_of d1 j s = position_of d j s" for j s
      by (simp add: d1 position_of_def find_by_append sql_simps split: option.splits)
    ultimately show ?thesis by (auto simp: d1 puse_id_def k holding_info_def)
  qed
  then show "books_ok d1" "portfolios d1 = portfolios d" "cash_balances d1 = cash_balances d"
    and "position_of d1 = position_of d" "(i, sy) \<in> fst ` holding_info ` set (portfolio_holdings d1)"
    and "fst ` holding_info ` set (portfolio_holdings d) \<subseteq> fst ` holding_info ` set (portfolio_holdings d1)"
    and "portfolio_transactions d1 = portfolio_transactions d" "processed_events d1 = processed_events d"
    by blast+
qed

subsection \<open>The two sides of a trade\<close>

lemma holding_tenant_of:
  assumes "books_ok d" "account_of d T u = Some i" "h \<in> set (portfolio_holdings d)" "ph_portfolio_id h = i"
  shows "ph_tenant_id h = Some T \<and> ph_user_id h = u"
proof -
  have "\<exists>q\<in>set (portfolios d). ph_portfolio_id h = pf_id q \<and> ph_tenant_id h = Some (pf_tenant_id q) \<and> ph_user_id h = pf_user_id q"
    using assms(1,3) by (auto simp: books_ok_def holding_info_def)
  then obtain q where q: "q \<in> set (portfolios d)" "ph_portfolio_id h = pf_id q"
    "ph_tenant_id h = Some (pf_tenant_id q)" "ph_user_id h = pf_user_id q" by blast
  then have "account_of d (pf_tenant_id q) (pf_user_id q) = Some i"
    using account_of_Some [OF assms(1)] assms(4) by metis
  then show ?thesis using account_of_inj [OF assms(1,2)] q by auto
qed

lemma holding_at:
  assumes "(i, sy) \<in> fst ` holding_info ` set hs"
  obtains h where "find_by (\<lambda>h. (ph_portfolio_id h, ph_symbol h)) (i, sy) hs = Some h" "h \<in> set hs"
    "ph_portfolio_id h = i" "ph_symbol h = sy"
proof -
  have "(i, sy) \<in> (\<lambda>h. (ph_portfolio_id h, ph_symbol h)) ` set hs" using assms by (simp add: image_image holding_info_def)
  then have "find_by (\<lambda>h. (ph_portfolio_id h, ph_symbol h)) (i, sy) hs \<noteq> None" by (simp add: find_by_None_iff)
  then show ?thesis using that find_by_Some by fastforce
qed

lemma cash_or_upd:
  assumes "\<And>r. cb_portfolio_id (f r) = cb_portfolio_id r"
    and "cash_balances d' = upd_where P f (cash_balances d)"
  shows "cash_or c d' j = (case find_by cb_portfolio_id j (cash_balances d) of None \<Rightarrow> c
     | Some r \<Rightarrow> cb_cash_balance (if P r then f r else r))"
  by (simp add: cash_or_def assms(2) find_by_upd_where [where key = cb_portfolio_id, OF assms(1)] option.case_eq_if option.map_sel)

lemma position_of_upd:
  assumes "\<And>h. holding_info (f h) = holding_info h"
    and "portfolio_holdings d' = upd_where P f (portfolio_holdings d)"
  shows "position_of d' j s = (case find_by (\<lambda>h. (ph_portfolio_id h, ph_symbol h)) (j, s) (portfolio_holdings d) of None \<Rightarrow> 0
     | Some h \<Rightarrow> ph_quantity (if P h then f h else h))"
proof -
  have "(ph_portfolio_id (f h), ph_symbol (f h)) = (ph_portfolio_id h, ph_symbol h)" for h
    using assms(1) [of h] by (simp add: holding_info_def)
  then show ?thesis
    by (simp add: position_of_def assms(2) find_by_upd_where [where key = "\<lambda>h. (ph_portfolio_id h, ph_symbol h)"]
        option.case_eq_if option.map_sel)
qed

text \<open>A statement that changes one balance and one holding and keeps who they belong to.\<close>

definition moves :: "(numeric \<Rightarrow> numeric) \<Rightarrow> (numeric \<Rightarrow> numeric) \<Rightarrow> string \<Rightarrow> string \<Rightarrow> pdb \<Rightarrow> pdb \<Rightarrow> bool" where
  "moves cash quantity i sy d d' \<longleftrightarrow> books_ok d' \<and> portfolios d' = portfolios d \<and>
     map holding_info (portfolio_holdings d') = map holding_info (portfolio_holdings d) \<and>
     portfolio_transactions d' = portfolio_transactions d \<and> processed_events d' = processed_events d \<and>
     (\<forall>c. cash_or c d' = (cash_or c d)(i := cash (cash_or c d i))) \<and>
     position_of d' = (\<lambda>j s. if j = i \<and> s = sy then quantity (position_of d j s) else position_of d j s)"

lemma movesI:
  assumes ok: "books_ok d" and acc: "account_of d T u = Some i"
    and row: "(i, sy) \<in> fst ` holding_info ` set (portfolio_holdings d)"
    and cb: "cash_balances d' = upd_where P f (cash_balances d)"
    and P: "\<And>r. r \<in> set (cash_balances d) \<Longrightarrow> P r \<longleftrightarrow> cb_portfolio_id r = i"
    and f: "\<And>r. cb_portfolio_id (f r) = cb_portfolio_id r" "\<And>r. cb_cash_balance (f r) = cash (cb_cash_balance r)"
    and hb: "portfolio_holdings d' = upd_where (\<lambda>h. ph_tenant_id h = Some T \<and> ph_portfolio_id h = i \<and> ph_symbol h = sy) g (portfolio_holdings d)"
    and g: "\<And>h. holding_info (g h) = holding_info h" "\<And>h. ph_quantity (g h) = quantity (ph_quantity h)"
    and frame: "portfolios d' = portfolios d" "pdb_ids d' = pdb_ids d" "pdb_next d' = pdb_next d"
      "portfolio_transactions d' = portfolio_transactions d" "processed_events d' = processed_events d"
  shows "moves cash quantity i sy d d'"
proof -
  have info: "map holding_info (portfolio_holdings d') = map holding_info (portfolio_holdings d)"
    unfolding hb by (rule map_upd_where) (rule g)
  have ids: "map cb_portfolio_id (cash_balances d') = map cb_portfolio_id (cash_balances d)"
    unfolding cb by (rule map_upd_where) (rule f)
  have "books_ok d'" using books_ok_cong [OF frame(1,2) _ ids info ok] frame(3) by simp
  moreover have "cash_or c d' j = ((cash_or c d)(i := cash (cash_or c d i))) j" for c j
  proof (cases "find_by cb_portfolio_id j (cash_balances d)")
    case None
    then have "j \<noteq> i" using cash_row_ex(1) [OF ok acc] by (auto simp: find_by_None_iff)
    then show ?thesis unfolding cash_or_upd [OF f(1) cb] using None by (simp add: cash_or_def)
  next
    case (Some r)
    then have "r \<in> set (cash_balances d)" "cb_portfolio_id r = j" using find_by_Some [OF Some] by auto
    then show ?thesis unfolding cash_or_upd [OF f(1) cb] using Some P f(2) by (auto simp: cash_or_def)
  qed
  moreover have "position_of d' j s = (if j = i \<and> s = sy then quantity (position_of d j s) else position_of d j s)" for j s
  proof (cases "find_by (\<lambda>h. (ph_portfolio_id h, ph_symbol h)) (j, s) (portfolio_holdings d)")
    case None
    then have "(j, s) \<noteq> (i, sy)" using row by (auto simp: find_by_None_iff image_image holding_info_def)
    then show ?thesis unfolding position_of_upd [OF g(1) hb] using None by (auto simp: position_of_def)
  next
    case (Some h)
    then have "h \<in> set (portfolio_holdings d)" "ph_portfolio_id h = j" "ph_symbol h = s" using find_by_Some [OF Some] by auto
    then show ?thesis unfolding position_of_upd [OF g(1) hb] using Some g(2) holding_tenant_of [OF ok acc]
      by (auto simp: position_of_def)
  qed
  ultimately show ?thesis using info frame by (auto simp: moves_def fun_eq_iff)
qed

definition exec_gross :: "TradeExecutedEvent \<Rightarrow> numeric" where
  "exec_gross event = fmt_dec 10 (gross_amount event)"

definition exec_quantity :: "TradeExecutedEvent \<Rightarrow> numeric" where
  "exec_quantity event = fmt_dec 10 (te_ExecutionQuantity event)"

lemma buyer_moves:
  assumes ok: "books_ok d" and acc: "account_of d T u = Some i"
    and row: "(i, te_Symbol ev) \<in> fst ` holding_info ` set (portfolio_holdings d)"
    and b: "applyExecutionBuyer numeric_div now T i ev d = Inr d'"
  shows "moves (\<lambda>x. x - exec_gross ev) (\<lambda>q. q + exec_quantity ev) i (te_Symbol ev) d d'"
    and "exec_gross ev \<le> cash_or c d i"
proof -
  let ?P = "\<lambda>r. cb_portfolio_id r = i \<and> cb_cash_balance r \<ge> fmt_dec 10 (gross_amount ev)"
  have ne: "rows_affected ?P (cash_balances d) \<noteq> 0" using b by (auto simp: applyExecutionBuyer_def Let_def split: if_splits)
  then obtain r where r: "r \<in> set (cash_balances d)" "?P r" by (auto simp: rows_affected_def filter_empty_conv)
  have uniq: "r' = r" if "r' \<in> set (cash_balances d)" "cb_portfolio_id r' = i" for r'
    using r that cash_row_ex(2) [OF ok acc] by (auto simp: distinct_map inj_on_def)
  have "find_by cb_portfolio_id i (cash_balances d) = Some r"
    using find_by_unique [OF cash_row_ex(2) [OF ok acc] r(1)] r(2) by simp
  then show "exec_gross ev \<le> cash_or c d i" using r(2) by (simp add: cash_or_def exec_gross_def)
  have P: "?P r' \<longleftrightarrow> cb_portfolio_id r' = i" if "r' \<in> set (cash_balances d)" for r' using uniq that r(2) by blast
  show "moves (\<lambda>x. x - exec_gross ev) (\<lambda>q. q + exec_quantity ev) i (te_Symbol ev) d d'"
  proof -
    let ?f = "\<lambda>r. r\<lparr>cb_cash_balance := cb_cash_balance r - fmt_dec 10 (gross_amount ev), cb_updated_at := now\<rparr>"
    let ?q = "fmt_dec 10 (te_ExecutionQuantity ev)"
    let ?g = "\<lambda>r. r\<lparr>ph_average_buy_price := (if ph_quantity r + ?q = 0 then 0
        else numeric_div (ph_quantity r * ph_average_buy_price r + ?q * fmt_dec 10 (te_ExecutionPrice ev)) (ph_quantity r + ?q)),
      ph_quantity := ph_quantity r + ?q, ph_updated_at := now\<rparr>"
    have d': "d' = d\<lparr>cash_balances := upd_where ?P ?f (cash_balances d), portfolio_holdings := upd_where
        (\<lambda>h. ph_tenant_id h = Some T \<and> ph_portfolio_id h = i \<and> ph_symbol h = te_Symbol ev) ?g (portfolio_holdings d)\<rparr>"
      using b ne by (simp add: applyExecutionBuyer_def Let_def)
    show ?thesis unfolding d'
      by (rule movesI [OF ok acc row, where P = ?P and f = ?f and g = ?g])
        (simp_all add: P exec_gross_def exec_quantity_def holding_info_def)
  qed
qed

lemma seller_moves:
  assumes ok: "books_ok d" and acc: "account_of d T u = Some i"
    and row: "(i, te_Symbol ev) \<in> fst ` holding_info ` set (portfolio_holdings d)"
    and s: "applyExecutionSeller now T i ev d = Inr (realized, d')"
  shows "moves (\<lambda>x. x + exec_gross ev) (\<lambda>q. q - exec_quantity ev) i (te_Symbol ev) d d'"
    and "te_ExecutionQuantity ev \<le> fl64 (position_of d i (te_Symbol ev))"
proof -
  let ?P = "\<lambda>h. ph_tenant_id h = Some T \<and> ph_portfolio_id h = i \<and> ph_symbol h = te_Symbol ev"
  obtain h where h: "List.find ?P (portfolio_holdings d) = Some h"
    using s by (auto simp: applyExecutionSeller_def Let_def split: option.splits)
  then have hm: "h \<in> set (portfolio_holdings d)" "?P h" by (auto simp: find_Some_iff)
  have dist: "distinct (map (\<lambda>h. (ph_portfolio_id h, ph_symbol h)) (portfolio_holdings d))"
    using ok by (simp add: books_ok_def holding_info_def comp_def)
  have "find_by (\<lambda>h. (ph_portfolio_id h, ph_symbol h)) (i, te_Symbol ev) (portfolio_holdings d) = Some h"
    using find_by_unique [OF dist hm(1)] hm(2) by simp
  then have "position_of d i (te_Symbol ev) = ph_quantity h" by (simp add: position_of_def)
  moreover have q: "\<not> fl64 (ph_quantity h) < te_ExecutionQuantity ev"
    using s h by (auto simp: applyExecutionSeller_def Let_def split: if_splits)
  ultimately show "te_ExecutionQuantity ev \<le> fl64 (position_of d i (te_Symbol ev))" by simp
  show "moves (\<lambda>x. x + exec_gross ev) (\<lambda>q. q - exec_quantity ev) i (te_Symbol ev) d d'"
  proof -
    let ?f = "\<lambda>r. r\<lparr>cb_cash_balance := cb_cash_balance r + fmt_dec 10 (gross_amount ev),
      cb_realized_pnl := cb_realized_pnl r + fmt_dec 10 realized, cb_updated_at := now\<rparr>"
    let ?g = "\<lambda>r. r\<lparr>ph_quantity := ph_quantity r - fmt_dec 10 (te_ExecutionQuantity ev), ph_updated_at := now\<rparr>"
    have "\<exists>E. d' = d\<lparr>cash_balances := upd_where (\<lambda>r. cb_portfolio_id r = i) ?f (cash_balances d),
        portfolio_holdings := upd_where ?P ?g (portfolio_holdings d), realized_pnl_events := E\<rparr>"
      using s h q by (auto simp: applyExecutionSeller_def Let_def update_cash_def)
    then obtain E where d': "d' = d\<lparr>cash_balances := upd_where (\<lambda>r. cb_portfolio_id r = i) ?f (cash_balances d),
        portfolio_holdings := upd_where ?P ?g (portfolio_holdings d), realized_pnl_events := E\<rparr>" by blast
    show ?thesis unfolding d'
      by (rule movesI [OF ok acc row, where P = "\<lambda>r. cb_portfolio_id r = i" and f = ?f and g = ?g])
        (simp_all add: exec_gross_def exec_quantity_def holding_info_def)
  qed
qed

subsection \<open>A trade\<close>

text \<open>What a statement of the trade keeps: the books stay well formed, accounts stay open.\<close>

definition grows :: "pdb \<Rightarrow> pdb \<Rightarrow> bool" where
  "grows d d' \<longleftrightarrow> books_ok d' \<and> (\<forall>T u j. account_of d T u = Some j \<longrightarrow> account_of d' T u = Some j) \<and>
     portfolio_transactions d' = portfolio_transactions d \<and> processed_events d' = processed_events d"

lemma grows_trans: "grows d1 d2 \<Longrightarrow> grows d2 d3 \<Longrightarrow> grows d1 d3"
  by (simp add: grows_def)

lemma moves_grows: "moves f g i sy d d' \<Longrightarrow> grows d d'"
  by (simp add: moves_def grows_def account_of_def)

lemma moves_keys: "moves f g i sy d d' \<Longrightarrow> fst ` holding_info ` set (portfolio_holdings d') = fst ` holding_info ` set (portfolio_holdings d)"
proof -
  assume "moves f g i sy d d'"
  then have "map holding_info (portfolio_holdings d') = map holding_info (portfolio_holdings d)" by (simp add: moves_def)
  then have "set (map holding_info (portfolio_holdings d')) = set (map holding_info (portfolio_holdings d))" by (rule arg_cong)
  then show ?thesis by (simp only: set_map)
qed

lemma ensureHolding_grows:
  assumes "books_ok d" "account_of d T u = Some i"
  shows "grows d (ensureHoldingForUpdate now T i u sy d)"
  using ensureHolding_books [OF assms refl, where now = now and sy = sy] by (simp add: grows_def account_of_def)

text \<open>Both holding rows, in the order of the sorted keys.\<close>

lemma both_holdings:
  assumes ok: "books_ok d" and b: "account_of d T u = Some b" and s: "account_of d T v = Some s"
    and d'_def: "d' = fold (\<lambda>k. ensureHoldingForUpdate now T (fst k) (snd k) sy) (sort_key fst [(b, u), (s, v)]) d"
  shows "grows d d'" "cash_balances d' = cash_balances d" "position_of d' = position_of d"
    and "(b, sy) \<in> fst ` holding_info ` set (portfolio_holdings d')" "(s, sy) \<in> fst ` holding_info ` set (portfolio_holdings d')"
proof -
  have two: "grows d e \<and> cash_balances e = cash_balances d \<and> position_of e = position_of d \<and>
      (i, sy) \<in> fst ` holding_info ` set (portfolio_holdings e) \<and> (j, sy) \<in> fst ` holding_info ` set (portfolio_holdings e)"
    if "account_of d T x = Some i" "account_of d T y = Some j"
      "e = ensureHoldingForUpdate now T j y sy (ensureHoldingForUpdate now T i x sy d)" for i j x y e
  proof -
    let ?m = "ensureHoldingForUpdate now T i x sy d"
    note m = ensureHolding_books [OF ok that(1) refl, where now = now and sy = sy] ensureHolding_grows [OF ok that(1), where now = now and sy = sy]
    have "account_of ?m T y = Some j" using that(2) m(2) by (simp add: account_of_def)
    note e = ensureHolding_books [OF m(1) this that(3)] ensureHolding_grows [OF m(1) this, where now = now and sy = sy, folded that(3)]
    show ?thesis using grows_trans [OF m(9) e(9)] e(3,4,5) m(3,4) subsetD [OF e(6) m(5)] by simp
  qed
  have "sort_key fst [(b, u), (s, v)] = (if b \<le> s then [(b, u), (s, v)] else [(s, v), (b, u)])" by simp
  then have "grows d d' \<and> cash_balances d' = cash_balances d \<and> position_of d' = position_of d \<and>
      (b, sy) \<in> fst ` holding_info ` set (portfolio_holdings d') \<and> (s, sy) \<in> fst ` holding_info ` set (portfolio_holdings d')"
    using two [OF b s, of d'] two [OF s b, of d'] unfolding d'_def by (cases "b \<le> s") simp_all
  then show "grows d d'" "cash_balances d' = cash_balances d" "position_of d' = position_of d"
    "(b, sy) \<in> fst ` holding_info ` set (portfolio_holdings d')" "(s, sy) \<in> fst ` holding_info ` set (portfolio_holdings d')"
    by blast+
qed

text \<open>The books after the trade of \<open>event\<close> between the accounts \<open>b\<close> and \<open>s\<close>.\<close>

definition traded :: "TradeExecutedEvent \<Rightarrow> numeric \<Rightarrow> string \<Rightarrow> string \<Rightarrow> pdb \<Rightarrow> pdb \<Rightarrow> bool" where
  "traded event c b s d d' \<longleftrightarrow> b \<noteq> s \<and>
     exec_gross event \<le> cash_or c d b \<and> te_ExecutionQuantity event \<le> fl64 (position_of d s (te_Symbol event)) \<and>
     cash_or c d' = (cash_or c d)(b := cash_or c d b - exec_gross event, s := cash_or c d s + exec_gross event) \<and>
     position_of d' = (\<lambda>i sy. position_of d i sy +
       (if sy \<noteq> te_Symbol event then 0 else if i = b then exec_quantity event
        else if i = s then - exec_quantity event else 0))"

lemma move_positions_books:
  assumes ok: "books_ok d" and T: "T \<noteq> ''''" and ne: "te_BuyerUserID ev \<noteq> te_SellerUserID ev"
    and mv: "move_positions numeric_div now T ev ini d = Inr (b, s, realized, d')"
  shows "grows d d'" "traded ev (shortest ini) b s d d'"
    and "account_of d' T (te_BuyerUserID ev) = Some b" "account_of d' T (te_SellerUserID ev) = Some s"
proof -
  let ?u = "te_BuyerUserID ev" and ?v = "te_SellerUserID ev" and ?sy = "te_Symbol ev" and ?c = "shortest ini"
  obtain b' d1 where e1: "ensurePortfolio now T ?u ini d = (b', d1)" by fastforce
  obtain s' d2 where e2: "ensurePortfolio now T ?v ini d1 = (s', d2)" by fastforce
  define d3 where "d3 = fold (\<lambda>k. ensureHoldingForUpdate now T (fst k) (snd k) ?sy) (sort_key fst [(b', ?u), (s', ?v)]) d2"
  obtain d4 where bu: "applyExecutionBuyer numeric_div now T b' ev d3 = Inr d4"
    and se: "applyExecutionSeller now T s' ev d4 = Inr (realized, d')" and id: "b' = b" "s' = s"
    using mv by (auto simp: move_positions_def e1 e2 d3_def [symmetric] and_then_Inr Let_def simp del: sort_key_simps)
  note p1 = ensurePortfolio_books [OF ok e1 T]
  note p2 = ensurePortfolio_books [OF p1(1) e2 T]
  have g2: "grows d d2" using p1 p2 by (auto simp: grows_def)
  have b2: "account_of d2 T ?u = Some b" using p2(4) [OF p1(2)] id by simp
  have s2: "account_of d2 T ?v = Some s" using p2(2) id by simp
  have bs: "b \<noteq> s" using account_of_inj [OF p2(1) b2, of T ?v] s2 ne by auto
  have h3: "grows d2 d3" "cash_balances d3 = cash_balances d2" "position_of d3 = position_of d2"
    "(b, ?sy) \<in> fst ` holding_info ` set (portfolio_holdings d3)" "(s, ?sy) \<in> fst ` holding_info ` set (portfolio_holdings d3)"
    using both_holdings [OF p2(1) b2 s2 d3_def [unfolded id]] by blast+
  have ok3: "books_ok d3" and b3: "account_of d3 T ?u = Some b" and s3: "account_of d3 T ?v = Some s"
    using h3(1) b2 s2 by (auto simp: grows_def)
  note m4 = buyer_moves [OF ok3 b3 h3(4) bu [unfolded id]]
  have ok4: "books_ok d4" and s4: "account_of d4 T ?v = Some s" and b4: "account_of d4 T ?u = Some b"
    using moves_grows [OF m4(1)] s3 b3 by (auto simp: grows_def)
  have r4: "(s, ?sy) \<in> fst ` holding_info ` set (portfolio_holdings d4)" using h3(5) moves_keys [OF m4(1)] by simp
  note m5 = seller_moves [OF ok4 s4 r4 se [unfolded id]]
  show "grows d d'" using g2 h3(1) moves_grows [OF m4(1)] moves_grows [OF m5(1)] grows_trans by blast
  then show "account_of d' T ?u = Some b" "account_of d' T ?v = Some s"
    using moves_grows [OF m5(1)] b4 s4 by (auto simp: grows_def)
  have c3: "cash_or ?c d3 = cash_or ?c d" using p1(3) p2(3) h3(2) by (simp add: cash_or_def fun_eq_iff)
  have q3: "position_of d3 = position_of d" using p1(5) p2(5) h3(3) by (simp add: position_of_def fun_eq_iff)
  have c5: "cash_or ?c d' = (cash_or ?c d)(b := cash_or ?c d b - exec_gross ev, s := cash_or ?c d s + exec_gross ev)"
    using m4(1) m5(1) bs c3 by (simp add: moves_def)
  have q5: "position_of d' = (\<lambda>i sy. position_of d i sy + (if sy \<noteq> ?sy then 0 else if i = b then exec_quantity ev
        else if i = s then - exec_quantity ev else 0))"
    using m4(1) m5(1) bs q3 by (auto simp: moves_def fun_eq_iff)
  have "position_of d4 s ?sy = position_of d s ?sy" using m4(1) bs q3 by (simp add: moves_def)
  then show "traded ev ?c b s d d'"
    using bs m4(2) [of ?c] c3 m5(2) c5 q5 by (simp add: traded_def)
qed

subsection \<open>The ledger\<close>

lemma rna_error: "\<bar>y - of_int (rna y)\<bar> \<le> 1/2"
proof (cases "y < 0")
  case True
  have "y - - of_int \<lfloor>1/2 - y\<rfloor> \<le> 1/2 \<and> - (y - - of_int \<lfloor>1/2 - y\<rfloor>) \<le> 1/2"
    using floor_correct [of "1/2 - y"] by linarith
  then have "\<bar>y - - of_int \<lfloor>1/2 - y\<rfloor>\<bar> \<le> 1/2" by (simp only: abs_le_iff)
  then show ?thesis using True by (simp add: rna_def)
next
  case False
  have "y - of_int \<lfloor>y + 1/2\<rfloor> \<le> 1/2 \<and> - (y - of_int \<lfloor>y + 1/2\<rfloor>) \<le> 1/2"
    using floor_correct [of "y + 1/2"] by linarith
  then have "\<bar>y - of_int \<lfloor>y + 1/2\<rfloor>\<bar> \<le> 1/2" by (simp only: abs_le_iff)
  then show ?thesis using False by (simp add: rna_def)
qed

lemma dec_half_away_error: "\<bar>dec_half_away s x - x\<bar> \<le> 1 / (2 * 10 ^ s)"
proof -
  have "\<bar>x * 10 ^ s - of_int (rna (x * 10 ^ s))\<bar> \<le> 1/2" by (rule rna_error)
  then have "\<bar>x * 10 ^ s - of_int (rna (x * 10 ^ s))\<bar> / 10 ^ s \<le> (1/2) / 10 ^ s" by (rule divide_right_mono) simp
  moreover have "dec_half_away s x - x = - ((x * 10 ^ s - of_int (rna (x * 10 ^ s))) / 10 ^ s)"
    by (simp add: dec_half_away_def field_simps)
  ultimately show ?thesis by simp
qed

definition entry_for :: "TradeExecutedEvent \<Rightarrow> string \<Rightarrow> string \<Rightarrow> string \<Rightarrow> numeric \<Rightarrow> transaction_row \<Rightarrow> bool" where
  "entry_for event T i side net t \<longleftrightarrow> tx_tenant_id t = T \<and> tx_portfolio_id t = i \<and> tx_side t = side \<and>
     tx_execution_id t = te_ExecutionID event \<and> tx_symbol t = te_Symbol event \<and>
     tx_quantity t = dec_half_away 8 (exec_quantity event) \<and> tx_net_cash_amount t = dec_half_away 8 net"

lemma insertPortfolioTransaction_Inr:
  assumes "insertPortfolioTransaction T i u (te_ExecutionID event) oid (te_Symbol event) side (te_ExecutionQuantity event)
      price gross fee net cur rp corr t d = Inr d'"
    and "\<And>t. t \<in> set (portfolio_transactions d) \<Longrightarrow> (tx_tenant_id t, tx_execution_id t) \<noteq> (T, te_ExecutionID event) \<or> tx_side t \<noteq> side"
  shows "\<exists>t. d' = d\<lparr>portfolio_transactions := portfolio_transactions d @ [t]\<rparr> \<and> entry_for event T i side (fmt_dec 10 net) t"
proof -
  have "(T, i, te_ExecutionID event, side)
      \<notin> (\<lambda>r. (tx_tenant_id r, tx_portfolio_id r, tx_execution_id r, tx_side r)) ` set (portfolio_transactions d)"
    using assms(2) by force
  with assms(1) show ?thesis
    by (auto simp: insertPortfolioTransaction_def and_then_Inr numeric_20_8_def entry_for_def exec_quantity_def split: if_splits)
qed

text \<open>Every ledger entry belongs to an execution that is recorded as applied.\<close>

definition entries_recorded :: "pdb \<Rightarrow> bool" where
  "entries_recorded d \<longleftrightarrow> (\<forall>t\<in>set (portfolio_transactions d). \<exists>r\<in>set (processed_events d).
     pz_tenant_id r = tx_tenant_id t \<and> pz_idempotency_key r = ''execution:'' @ tx_execution_id t)"

text \<open>What the service has checked of an event it applies.\<close>

definition trade_event :: "TradeExecutedEvent \<Rightarrow> bool" where
  "trade_event event \<longleftrightarrow> te_TenantID event \<noteq> '''' \<and> te_ExecutionID event \<noteq> '''' \<and>
     trim_space (te_ExecutionID event) = te_ExecutionID event \<and> te_BuyerUserID event \<noteq> te_SellerUserID event \<and>
     0 < te_ExecutionQuantity event \<and> 0 < te_ExecutionPrice event"

lemma trade_event_key:
  "trade_event event \<Longrightarrow> BuildIdempotencyKey event = ''execution:'' @ te_ExecutionID event \<and>
     defaultTenant (te_TenantID event) = te_TenantID event"
  by (simp add: trade_event_def BuildIdempotencyKey_def defaultTenant_def)

lemma record_execution_Inr:
  assumes "record_execution now T event hash b s realized d = Inr d'"
    and "\<And>t. t \<in> set (portfolio_transactions d) \<Longrightarrow> (tx_tenant_id t, tx_execution_id t) \<noteq> (T, te_ExecutionID event)"
  obtains tb ts where "entry_for event T b ''BUY'' (- exec_gross event) tb" "entry_for event T s ''SELL'' (exec_gross event) ts"
    "d' = d\<lparr>portfolio_transactions := portfolio_transactions d @ [tb, ts],
       processed_events := processed_events d @ [processed_row_of now T event hash]\<rparr>"
proof -
  obtain d1 d2 where
    i1: "insertPortfolioTransaction T b (te_BuyerUserID event) (te_ExecutionID event) (te_BuyOrderID event) (te_Symbol event)
      ''BUY'' (te_ExecutionQuantity event) (te_ExecutionPrice event) (gross_amount event) 0 (- gross_amount event)
      (te_Currency event) 0 (te_CorrelationID event) (te_OccurredAt event) d = Inr d1" and
    i2: "insertPortfolioTransaction T s (te_SellerUserID event) (te_ExecutionID event) (te_SellOrderID event) (te_Symbol event)
      ''SELL'' (te_ExecutionQuantity event) (te_ExecutionPrice event) (gross_amount event) 0 (gross_amount event)
      (te_Currency event) realized (te_CorrelationID event) (te_OccurredAt event) d1 = Inr d2" and
    i3: "insertProcessed (processed_row_of now T event hash) d2 = Inr d'"
    using assms(1) by (auto simp: record_execution_def and_then_Inr)
  obtain tb where tb: "d1 = d\<lparr>portfolio_transactions := portfolio_transactions d @ [tb]\<rparr>"
    "entry_for event T b ''BUY'' (fmt_dec 10 (- gross_amount event)) tb"
    using insertPortfolioTransaction_Inr [OF i1] assms(2) by blast
  have "(tx_tenant_id t, tx_execution_id t) \<noteq> (T, te_ExecutionID event) \<or> tx_side t \<noteq> ''SELL''"
    if "t \<in> set (portfolio_transactions d1)" for t
    using that assms(2) tb by (auto simp: entry_for_def)
  then obtain ts where ts: "d2 = d1\<lparr>portfolio_transactions := portfolio_transactions d1 @ [ts]\<rparr>"
    "entry_for event T s ''SELL'' (fmt_dec 10 (gross_amount event)) ts"
    using insertPortfolioTransaction_Inr [OF i2] by blast
  have "d' = d2\<lparr>processed_events := processed_events d2 @ [processed_row_of now T event hash]\<rparr>"
    using i3 by (simp add: insertProcessed_def split: if_splits)
  then show ?thesis
    using that [of tb ts] tb ts by (simp add: exec_gross_def fmt.rnd_minus)
qed

lemma publish_update_Inr:
  assumes "publish_update now T event topic d = Inr (res, d')"
  shows "\<exists>n rows sn k. d' = d\<lparr>pdb_next := n, portfolio_outbox := rows, portfolio_snapshots := sn, outbox_serial := k\<rparr> \<and> pdb_next d \<le> n"
    and "\<not> ur_Duplicate res"
proof -
  have f: "\<exists>n sn. snd (createSnapshot now p hs d) = d\<lparr>pdb_next := n, portfolio_snapshots := sn\<rparr> \<and> pdb_next d \<le> n" for p hs
    by (auto simp: createSnapshot_def Let_def puse_id_def)
  obtain buyer hs d1 ev where d1: "d1 = snd (createSnapshot now buyer hs d)" and
    d': "d' = insertPortfolioOutbox now topic ev (puse_id d1)" and r: "\<not> ur_Duplicate res"
    using assms unfolding publish_update_def and_then_Inr Let_def case_prod_beta by auto
  obtain n sn where "d1 = d\<lparr>pdb_next := n, portfolio_snapshots := sn\<rparr>" "pdb_next d \<le> n" using f d1 by metis
  then have p: "puse_id d1 = d\<lparr>pdb_next := Suc n, portfolio_snapshots := sn\<rparr>" "pdb_next d \<le> Suc n"
    by (simp_all add: puse_id_def)
  have "d' = (puse_id d1)\<lparr>portfolio_outbox := portfolio_outbox d', outbox_serial := outbox_serial d'\<rparr>"
    by (simp add: d' insertPortfolioOutbox_def)
  then obtain rows k where "d' = (puse_id d1)\<lparr>portfolio_outbox := rows, outbox_serial := k\<rparr>" by blast
  then have "d' = d\<lparr>pdb_next := Suc n, portfolio_outbox := rows, portfolio_snapshots := sn, outbox_serial := k\<rparr>" using p by simp
  then show "\<exists>n rows sn k. d' = d\<lparr>pdb_next := n, portfolio_outbox := rows, portfolio_snapshots := sn, outbox_serial := k\<rparr> \<and> pdb_next d \<le> n"
    using p(2) by blast
  show "\<not> ur_Duplicate res" by (rule r)
qed

subsection \<open>Applying a trade once\<close>

lemma replay:
  assumes "find_by (\<lambda>r. (pz_tenant_id r, pz_idempotency_key r)) (defaultTenant (te_TenantID event), BuildIdempotencyKey event)
      (processed_events d) = Some row" "pz_payload_hash row = Some h"
  shows "ApplyTradeExecution numeric_div now event ini hash topic d =
    (if h \<noteq> '''' \<and> h \<noteq> hash then Inl ErrPayloadConflict else Inr (duplicate_result, d))"
  using assms by (simp add: ApplyTradeExecution_def Let_def)

text \<open>The state after an execution that was not recorded yet.\<close>

definition applied :: "TradeExecutedEvent \<Rightarrow> string \<Rightarrow> numeric \<Rightarrow> pdb \<Rightarrow> pdb \<Rightarrow> bool" where
  "applied event hash c d d' \<longleftrightarrow> (\<exists>b s tb ts now.
     account_of d' (te_TenantID event) (te_BuyerUserID event) = Some b \<and>
     account_of d' (te_TenantID event) (te_SellerUserID event) = Some s \<and> traded event c b s d d' \<and>
     entry_for event (te_TenantID event) b ''BUY'' (- exec_gross event) tb \<and>
     entry_for event (te_TenantID event) s ''SELL'' (exec_gross event) ts \<and>
     portfolio_transactions d' = portfolio_transactions d @ [tb, ts] \<and>
     processed_events d' = processed_events d @ [processed_row_of now (te_TenantID event) event hash])"

lemma ApplyTradeExecution_Inr:
  assumes ev: "trade_event event" and ok: "books_ok d" and rec: "entries_recorded d"
    and a: "ApplyTradeExecution numeric_div now event ini hash topic d = Inr (res, d')" and nd: "\<not> ur_Duplicate res"
  shows "books_ok d'" "entries_recorded d'" "applied event hash (shortest ini) d d'"
    and "account_of d T u = Some j \<Longrightarrow> account_of d' T u = Some j"
    and "find_by (\<lambda>r. (pz_tenant_id r, pz_idempotency_key r)) (te_TenantID event, BuildIdempotencyKey event) (processed_events d) = None"
proof -
  let ?T = "te_TenantID event" and ?pk = "\<lambda>r. (pz_tenant_id r, pz_idempotency_key r)"
  note key = trade_event_key [OF ev]
  show none: "find_by ?pk (?T, BuildIdempotencyKey event) (processed_events d) = None"
    using a nd key by (auto simp: ApplyTradeExecution_def Let_def duplicate_result_def split: option.splits if_splits)
  obtain b s realized d1 d2 where mv: "move_positions numeric_div now ?T event ini d = Inr (b, s, realized, d1)"
    and re: "record_execution now ?T event hash b s realized d1 = Inr d2"
    and pu: "publish_update now ?T event topic d2 = Inr (res, d')"
    using a none key by (auto simp: ApplyTradeExecution_def Let_def and_then_Inr)
  have ne: "?T \<noteq> ''''" "te_BuyerUserID event \<noteq> te_SellerUserID event" using ev by (auto simp: trade_event_def)
  note m = move_positions_books [OF ok ne mv]
  have tx1: "portfolio_transactions d1 = portfolio_transactions d" "processed_events d1 = processed_events d"
    using m(1) by (auto simp: grows_def)
  have "(tx_tenant_id t, tx_execution_id t) \<noteq> (?T, te_ExecutionID event)" if "t \<in> set (portfolio_transactions d1)" for t
    using that rec none key by (force simp: tx1 entries_recorded_def find_by_None_iff)
  then obtain tb ts where tb: "entry_for event ?T b ''BUY'' (- exec_gross event) tb"
    and ts: "entry_for event ?T s ''SELL'' (exec_gross event) ts"
    and d2: "d2 = d1\<lparr>portfolio_transactions := portfolio_transactions d1 @ [tb, ts],
       processed_events := processed_events d1 @ [processed_row_of now ?T event hash]\<rparr>"
    using record_execution_Inr [OF re] by metis
  obtain n rows sn k where d': "d' = d2\<lparr>pdb_next := n, portfolio_outbox := rows, portfolio_snapshots := sn, outbox_serial := k\<rparr>"
    and n: "pdb_next d2 \<le> n" using publish_update_Inr(1) [OF pu] by blast
  have same: "portfolios d' = portfolios d1" "pdb_ids d' = pdb_ids d1" "cash_balances d' = cash_balances d1"
    "portfolio_holdings d' = portfolio_holdings d1" by (simp_all add: d' d2)
  have n1: "pdb_next d1 \<le> pdb_next d'" using n by (simp add: d' d2)
  show "books_ok d'" using books_ok_cong [OF same(1,2) n1] same m(1) by (simp add: grows_def)
  have acc: "account_of d' T u = account_of d1 T u" for T u by (simp add: account_of_def same)
  show "account_of d T u = Some j \<Longrightarrow> account_of d' T u = Some j" using m(1) by (simp add: acc grows_def)
  have tr: "traded event (shortest ini) b s d d'"
    using m(2) by (simp add: traded_def cash_or_def position_of_def same fun_eq_iff)
  have tx: "portfolio_transactions d' = portfolio_transactions d @ [tb, ts]"
    "processed_events d' = processed_events d @ [processed_row_of now ?T event hash]" by (simp_all add: d' d2 tx1)
  show "applied event hash (shortest ini) d d'"
    unfolding applied_def using m(3,4) tr tb ts tx acc by metis
  show "entries_recorded d'"
    using rec tb ts key unfolding entries_recorded_def tx
    by (auto simp: entry_for_def processed_row_of_def)
qed

subsection \<open>The service's steps\<close>

text \<open>What happens to the database: the consumer handles a message, a user opens the portfolio view, the
  outbox publisher marks its rows.\<close>

inductive portfolio_step :: "PortfolioService \<Rightarrow> pdb \<Rightarrow> pdb \<Rightarrow> bool" for sv where
  consumed: "ProcessOrderFilled sv now payload d = Inr d' \<Longrightarrow> portfolio_step sv d d'"
| viewed: "ViewPortfolio sv now user d = Inr (p, d') \<Longrightarrow> portfolio_step sv d d'"
| published: "portfolio_step sv d (d\<lparr>portfolio_outbox := rows\<rparr>)"

lemma normalized_trade:
  assumes "normalizeTradeExecuted ev = Inr event" shows "trade_event event"
proof -
  have "event = trimmed_trade ev" "te_TenantID event \<noteq> ''''" "te_ExecutionID event \<noteq> ''''"
    "te_BuyerUserID event \<noteq> te_SellerUserID event" "\<not> te_ExecutionQuantity event \<le> 0" "\<not> te_ExecutionPrice event \<le> 0"
    using assms by (auto simp: normalizeTradeExecuted_def Let_def split: if_splits)
  then show ?thesis by (simp add: trade_event_def trimmed_trade_def)
qed

lemma ViewPortfolio_ensure:
  assumes "ViewPortfolio sv now user d = Inr (p, d')"
  obtains T i where "T \<noteq> ''''" "ensurePortfolio now T (pu_UserID user) (sp_initialCash sv) d = (i, d')"
proof -
  let ?T = "defaultTenant (defaultTenant (pu_TenantID user))"
  obtain i d1 where "ensurePortfolio now ?T (pu_UserID user) (sp_initialCash sv) d = (i, d1)" "d1 = d'"
    using assms by (cases "ensurePortfolio now ?T (pu_UserID user) (sp_initialCash sv) d")
      (auto simp: ViewPortfolio_def GetPortfolio_def and_then_Inr Let_def split: if_splits)
  moreover have "?T \<noteq> ''''" by (simp add: defaultTenant_def)
  ultimately show thesis using that by blast
qed

lemma portfolio_step_cases:
  assumes "portfolio_step sv d d'"
  obtains (same) rows where "d' = d\<lparr>portfolio_outbox := rows\<rparr>"
  | (opened) now T u i where "T \<noteq> ''''" "ensurePortfolio now T u (sp_initialCash sv) d = (i, d')"
  | (traded) now event res where "trade_event event" "\<not> ur_Duplicate res"
      "ApplyTradeExecution (sp_numeric_div sv) now event (sp_initialCash sv) (PayloadHash (sp_sha256_hex sv) event)
         (sp_portfolioTopic sv) d = Inr (res, d')"
  using assms
proof (cases rule: portfolio_step.cases)
  case (consumed now payload)
  have t: "thesis" if p: "ProcessTradeExecuted sv now payload d = Inr d'"
  proof -
    obtain ev where ev: "decodeTradeExecuted (sp_rfc3339 sv) payload = Some ev"
      using p by (auto simp: ProcessTradeExecuted_def split: option.splits)
    show thesis
    proof (cases "te_EventType ev = ''trade.executed''")
      case False
      then have "d' = d" using p ev by (simp add: ProcessTradeExecuted_def)
      then show thesis using same [of "portfolio_outbox d"] by simp
    next
      case True
      then obtain event res where e: "normalizeTradeExecuted ev = Inr event" and
        a: "ApplyTradeExecution (sp_numeric_div sv) now event (sp_initialCash sv) (PayloadHash (sp_sha256_hex sv) event)
         (sp_portfolioTopic sv) d = Inr (res, d')"
        using p ev by (auto simp: ProcessTradeExecuted_def and_then_Inr)
      show thesis
      proof (cases "ur_Duplicate res")
        case True
        obtain r where "find_by (\<lambda>r. (pz_tenant_id r, pz_idempotency_key r)) (defaultTenant (te_TenantID event),
            BuildIdempotencyKey event) (processed_events d) = Some r"
          using a True publish_update_Inr(2) by (force simp: ApplyTradeExecution_def Let_def and_then_Inr split: option.splits)
        then have "d' = d" using a by (auto simp: ApplyTradeExecution_def Let_def split: option.splits if_splits)
        then show thesis using same [of "portfolio_outbox d"] by simp
      next
        case False
        then show thesis using traded [OF normalized_trade [OF e] False a] by simp
      qed
    qed
  qed
  have "d' = d \<or> ProcessTradeExecuted sv now payload d = Inr d'"
  proof (cases "decodeOrderFilled (sp_rfc3339 sv) payload")
    case None
    then show ?thesis using consumed by (simp add: ProcessOrderFilled_def)
  next
    case (Some ev)
    then show ?thesis using consumed by (cases "of_EventType ev = ''order.filled''") (simp_all add: ProcessOrderFilled_def)
  qed
  then show thesis
  proof
    assume "d' = d"
    then show thesis using same [of "portfolio_outbox d"] by simp
  qed (rule t)
next
  case (viewed now user p)
  show thesis by (rule ViewPortfolio_ensure [OF viewed]) (rule opened)
next
  case (published rows)
  then show thesis using same by blast
qed

text \<open>The invariant: well-formed books, no entry without its execution.\<close>

definition books_inv :: "pdb \<Rightarrow> bool" where
  "books_inv d \<longleftrightarrow> books_ok d \<and> entries_recorded d"

text \<open>What a step does to the books.\<close>

lemma portfolio_step_books:
  assumes st: "portfolio_step sv d d'" and inv: "books_inv d"
  shows "books_inv d'" "account_of d T u = Some j \<Longrightarrow> account_of d' T u = Some j"
    and "(cash_or (shortest (sp_initialCash sv)) d' = cash_or (shortest (sp_initialCash sv)) d \<and>
        position_of d' = position_of d \<and> portfolio_transactions d' = portfolio_transactions d \<and>
        processed_events d' = processed_events d) \<or>
      (\<exists>event. trade_event event \<and>
        find_by (\<lambda>r. (pz_tenant_id r, pz_idempotency_key r)) (te_TenantID event, BuildIdempotencyKey event) (processed_events d) = None \<and>
        applied event (PayloadHash (sp_sha256_hex sv) event) (shortest (sp_initialCash sv)) d d')"
proof -
  have ok: "books_ok d" "entries_recorded d" using inv by (auto simp: books_inv_def)
  let ?c = "shortest (sp_initialCash sv)"
  have "books_inv d' \<and> (account_of d T u = Some j \<longrightarrow> account_of d' T u = Some j) \<and>
    ((cash_or ?c d' = cash_or ?c d \<and> position_of d' = position_of d \<and> portfolio_transactions d' = portfolio_transactions d \<and>
      processed_events d' = processed_events d) \<or>
     (\<exists>event. trade_event event \<and>
        find_by (\<lambda>r. (pz_tenant_id r, pz_idempotency_key r)) (te_TenantID event, BuildIdempotencyKey event) (processed_events d) = None \<and>
        applied event (PayloadHash (sp_sha256_hex sv) event) ?c d d'))"
    using st
  proof (cases rule: portfolio_step_cases)
    case (same rows)
    then have "books_ok d'" by (intro books_ok_cong [OF _ _ _ _ _ ok(1)]) simp_all
    then show ?thesis using same ok(2)
      by (simp add: books_inv_def entries_recorded_def account_of_def cash_or_def position_of_def fun_eq_iff)
  next
    case (opened now T' u' i)
    note e = ensurePortfolio_books [OF ok(1) opened(2,1)]
    have "position_of d' = position_of d" using e(5) by (simp add: position_of_def fun_eq_iff)
    then show ?thesis using e(1,3,4,8,9) ok(2) by (simp add: books_inv_def entries_recorded_def)
  next
    case (traded now event res)
    note a = ApplyTradeExecution_Inr [OF traded(1) ok traded(3,2)]
    then show ?thesis using traded(1) by (auto simp: books_inv_def)
  qed
  then show "books_inv d'" "account_of d T u = Some j \<Longrightarrow> account_of d' T u = Some j"
    and "(cash_or ?c d' = cash_or ?c d \<and> position_of d' = position_of d \<and> portfolio_transactions d' = portfolio_transactions d \<and>
        processed_events d' = processed_events d) \<or>
      (\<exists>event. trade_event event \<and>
        find_by (\<lambda>r. (pz_tenant_id r, pz_idempotency_key r)) (te_TenantID event, BuildIdempotencyKey event) (processed_events d) = None \<and>
        applied event (PayloadHash (sp_sha256_hex sv) event) ?c d d')"
    by blast+
qed

subsection \<open>Sums over the accounts\<close>

definition account_ids :: "pdb \<Rightarrow> string set" where
  "account_ids d = pf_id ` set (portfolios d)"

lemma cash_ids: "books_ok d \<Longrightarrow> cb_portfolio_id ` set (cash_balances d) = account_ids d"
  unfolding books_ok_def account_ids_def by (metis list.set_map)

lemma account_in: "books_ok d \<Longrightarrow> account_of d T u = Some i \<Longrightarrow> i \<in> account_ids d"
  by (auto simp: account_ids_def account_of_Some)

lemma holding_account:
  assumes "books_ok d" "h \<in> set (portfolio_holdings d)" shows "ph_portfolio_id h \<in> account_ids d"
  using assms by (auto simp: books_ok_def account_ids_def holding_info_def)

lemma no_account:
  assumes "books_ok d" "i \<notin> account_ids d" shows "cash_or c d i = c" "position_of d i sy = 0"
proof -
  have "find_by cb_portfolio_id i (cash_balances d) = None"
    using assms cash_ids by (simp add: find_by_None_iff)
  then show "cash_or c d i = c" by (simp add: cash_or_def)
  have "find_by (\<lambda>h. (ph_portfolio_id h, ph_symbol h)) (i, sy) (portfolio_holdings d) = None"
    using assms holding_account by (force simp: find_by_None_iff)
  then show "position_of d i sy = 0" by (simp add: position_of_def)
qed

lemma total_cash:
  assumes ok: "books_ok d"
  shows "(\<Sum>r\<leftarrow>cash_balances d. cb_cash_balance r - c) = (\<Sum>i\<in>account_ids d. cash_or c d i - c)"
proof -
  have dist: "distinct (map cb_portfolio_id (cash_balances d))" using ok by (simp add: books_ok_def)
  have "cash_or c d (cb_portfolio_id r) = cb_cash_balance r" if "r \<in> set (cash_balances d)" for r
    using find_by_unique [OF dist that] by (simp add: cash_or_def)
  then have "(\<Sum>r\<leftarrow>cash_balances d. cb_cash_balance r - c) = (\<Sum>r\<leftarrow>cash_balances d. cash_or c d (cb_portfolio_id r) - c)"
    by (intro arg_cong [where f = sum_list] map_cong) auto
  also have "\<dots> = (\<Sum>i\<leftarrow>map cb_portfolio_id (cash_balances d). cash_or c d i - c)" by (simp add: comp_def)
  also have "\<dots> = (\<Sum>i\<in>cb_portfolio_id ` set (cash_balances d). cash_or c d i - c)"
    by (simp only: sum_list_distinct_conv_sum_set [OF dist] set_map)
  finally show ?thesis by (simp add: cash_ids [OF ok])
qed

lemma total_position:
  assumes ok: "books_ok d"
  shows "(\<Sum>h\<leftarrow>filter (\<lambda>h. ph_symbol h = sy) (portfolio_holdings d). ph_quantity h) = (\<Sum>i\<in>account_ids d. position_of d i sy)"
proof -
  let ?key = "\<lambda>h. (ph_portfolio_id h, ph_symbol h)" and ?hs = "filter (\<lambda>h. ph_symbol h = sy) (portfolio_holdings d)"
  have dist: "distinct (map ?key (portfolio_holdings d))"
    using ok by (simp add: books_ok_def holding_info_def comp_def)
  have q: "position_of d (ph_portfolio_id h) sy = ph_quantity h" if "h \<in> set ?hs" for h
    using find_by_unique [OF dist, of h] that by (auto simp: position_of_def)
  have "distinct (map ?key ?hs)" using dist by (rule distinct_map_filter)
  then have d: "distinct (map ph_portfolio_id ?hs)" by (auto simp: distinct_map inj_on_def)
  have "(\<Sum>h\<leftarrow>?hs. ph_quantity h) = (\<Sum>h\<leftarrow>?hs. position_of d (ph_portfolio_id h) sy)"
    using q by (intro arg_cong [where f = sum_list] map_cong) auto
  also have "\<dots> = (\<Sum>i\<leftarrow>map ph_portfolio_id ?hs. position_of d i sy)" by (simp add: comp_def)
  also have "\<dots> = (\<Sum>i\<in>ph_portfolio_id ` set ?hs. position_of d i sy)"
    by (simp only: sum_list_distinct_conv_sum_set [OF d] set_map)
  also have "\<dots> = (\<Sum>i\<in>account_ids d. position_of d i sy)"
  proof (rule sum.mono_neutral_left)
    show "finite (account_ids d)" by (simp add: account_ids_def)
    show "ph_portfolio_id ` set ?hs \<subseteq> account_ids d" using holding_account [OF ok] by auto
    show "\<forall>i\<in>account_ids d - ph_portfolio_id ` set ?hs. position_of d i sy = 0"
    proof
      fix i assume "i \<in> account_ids d - ph_portfolio_id ` set ?hs"
      then have "find_by ?key (i, sy) (portfolio_holdings d) = None" by (force simp: find_by_None_iff)
      then show "position_of d i sy = 0" by (simp add: position_of_def)
    qed
  qed
  finally show ?thesis .
qed

lemma sum_swap:
  fixes f :: "'a \<Rightarrow> rat"
  assumes "finite A" "b \<in> A" "s \<in> A" "b \<noteq> s" "\<And>i. i \<in> A \<Longrightarrow> g i = f i + (if i = b then - x else if i = s then x else 0)"
  shows "sum g A = sum f A"
proof -
  have "sum g A = (\<Sum>i\<in>A. f i + ((if i = b then - x else 0) + (if i = s then x else 0)))"
    using assms(4,5) by (intro sum.cong) auto
  also have "\<dots> = sum f A + (- x + x)" using assms(1-3) by (simp add: sum.distrib)
  finally show ?thesis by simp
qed

lemma step_sums:
  assumes st: "portfolio_step sv d d'" and inv: "books_inv d"
  defines "c \<equiv> shortest (sp_initialCash sv)"
  shows "(\<Sum>i\<in>account_ids d'. cash_or c d' i - c) = (\<Sum>i\<in>account_ids d. cash_or c d i - c)"
    and "(\<Sum>i\<in>account_ids d'. position_of d' i sy) = (\<Sum>i\<in>account_ids d. position_of d i sy)"
proof -
  note s = portfolio_step_books [OF st inv, folded c_def]
  have ok: "books_ok d" and ok': "books_ok d'" using inv s(1) by (auto simp: books_inv_def)
  have fin: "finite (account_ids d')" by (simp add: account_ids_def)
  have sub: "account_ids d \<subseteq> account_ids d'"
  proof
    fix i assume "i \<in> account_ids d"
    then obtain T u where "account_of d T u = Some i" unfolding account_ids_def using account_of_Some [OF ok] by blast
    then show "i \<in> account_ids d'" using s(2) account_in [OF ok'] by blast
  qed
  have grow: "(\<Sum>i\<in>account_ids d'. cash_or c d i - c) = (\<Sum>i\<in>account_ids d. cash_or c d i - c)"
    "(\<Sum>i\<in>account_ids d'. position_of d i sy) = (\<Sum>i\<in>account_ids d. position_of d i sy)"
    by (rule sum.mono_neutral_right [OF fin sub]; use no_account [OF ok] in simp)+
  have "(\<Sum>i\<in>account_ids d'. cash_or c d' i - c) = (\<Sum>i\<in>account_ids d'. cash_or c d i - c) \<and>
      (\<Sum>i\<in>account_ids d'. position_of d' i sy) = (\<Sum>i\<in>account_ids d'. position_of d i sy)"
    using s(3)
  proof (elim disjE exE conjE)
    assume "cash_or c d' = cash_or c d" "position_of d' = position_of d"
    then show ?thesis by simp
  next
    fix event assume "applied event (PayloadHash (sp_sha256_hex sv) event) c d d'"
    then obtain b t where b: "b \<in> account_ids d'" "t \<in> account_ids d'" and tr: "traded event c b t d d'"
      unfolding applied_def using account_in [OF ok'] by blast
    have "(\<Sum>i\<in>account_ids d'. cash_or c d' i - c) = (\<Sum>i\<in>account_ids d'. cash_or c d i - c)"
      by (rule sum_swap [OF fin b, where x = "exec_gross event"]) (use tr in \<open>auto simp: traded_def\<close>)
    moreover have "(\<Sum>i\<in>account_ids d'. position_of d' i sy) = (\<Sum>i\<in>account_ids d'. position_of d i sy)"
      by (rule sum_swap [OF fin b, where x = "if sy = te_Symbol event then - exec_quantity event else 0"])
        (use tr in \<open>auto simp: traded_def\<close>)
    ultimately show ?thesis by simp
  qed
  then show "(\<Sum>i\<in>account_ids d'. cash_or c d' i - c) = (\<Sum>i\<in>account_ids d. cash_or c d i - c)"
    and "(\<Sum>i\<in>account_ids d'. position_of d' i sy) = (\<Sum>i\<in>account_ids d. position_of d i sy)"
    using grow by simp_all
qed

lemma steps_inv: "(portfolio_step sv)\<^sup>*\<^sup>* d0 d \<Longrightarrow> books_inv d0 \<Longrightarrow> books_inv d"
  by (induction rule: rtranclp_induct) (auto dest: portfolio_step_books(1))

subsection \<open>Properties\<close>


text \<open>C9: no money and no share is made or lost. Along any steps of the service the balances beyond the initial
  cash of the accounts, and the quantities held of each symbol, keep their sums.\<close>

theorem money_and_shares_conserved:
  assumes "(portfolio_step sv)\<^sup>*\<^sup>* d0 d" "books_inv d0"
  shows "(\<Sum>r\<leftarrow>cash_balances d. cb_cash_balance r - shortest (sp_initialCash sv)) =
      (\<Sum>r\<leftarrow>cash_balances d0. cb_cash_balance r - shortest (sp_initialCash sv)) \<and>
    (\<Sum>h\<leftarrow>filter (\<lambda>h. ph_symbol h = sy) (portfolio_holdings d). ph_quantity h) =
      (\<Sum>h\<leftarrow>filter (\<lambda>h. ph_symbol h = sy) (portfolio_holdings d0). ph_quantity h)"
proof -
  let ?c = "shortest (sp_initialCash sv)"
  have "(\<Sum>i\<in>account_ids d. cash_or ?c d i - ?c) = (\<Sum>i\<in>account_ids d0. cash_or ?c d0 i - ?c) \<and>
      (\<Sum>i\<in>account_ids d. position_of d i sy) = (\<Sum>i\<in>account_ids d0. position_of d0 i sy)"
    using assms
  proof (induction rule: rtranclp_induct)
    case (step y z)
    then show ?case using step_sums [OF step.hyps(2) steps_inv [OF step.hyps(1)]] by simp
  qed simp
  moreover have "books_ok d" "books_ok d0" using steps_inv [OF assms] assms(2) by (auto simp: books_inv_def)
  ultimately show ?thesis by (simp only: total_cash total_position)
qed

lemma exec_gross_nonneg: "trade_event event \<Longrightarrow> 0 \<le> exec_gross event"
  by (simp add: exec_gross_def gross_amount_def trade_event_def fmt.rnd_nonneg fl64_nonneg)


definition net_of :: "pdb \<Rightarrow> string \<Rightarrow> numeric" where
  "net_of d i = (\<Sum>t\<leftarrow>filter (\<lambda>t. tx_portfolio_id t = i) (portfolio_transactions d). tx_net_cash_amount t)"

definition entries_of :: "pdb \<Rightarrow> string \<Rightarrow> nat" where
  "entries_of d i = length (filter (\<lambda>t. tx_portfolio_id t = i) (portfolio_transactions d))"

lemma traded_entries:
  assumes "applied event hash c d d'"
  shows "\<bar>(cash_or c d' i - net_of d' i) - (cash_or c d i - net_of d i)\<bar> \<le>
    (rat_of_nat (entries_of d' i) - rat_of_nat (entries_of d i)) / (2 * 10 ^ 8)"
proof -
  obtain b s tb ts where a: "traded event c b s d d'" "tx_portfolio_id tb = b" "tx_portfolio_id ts = s"
    "tx_net_cash_amount tb = dec_half_away 8 (- exec_gross event)" "tx_net_cash_amount ts = dec_half_away 8 (exec_gross event)"
    "portfolio_transactions d' = portfolio_transactions d @ [tb, ts]"
    using assms unfolding applied_def entry_for_def by blast
  note e = dec_half_away_error [of 8 "- exec_gross event"] dec_half_away_error [of 8 "exec_gross event"]
  have bs: "b \<noteq> s" using a(1) by (simp add: traded_def)
  consider "i = b" | "i = s" | "i \<noteq> b" "i \<noteq> s" by blast
  then show ?thesis
  proof cases
    case 1
    then have "net_of d' i = net_of d i + dec_half_away 8 (- exec_gross event)" "entries_of d' i = Suc (entries_of d i)"
      "cash_or c d' i = cash_or c d i - exec_gross event"
      using a bs by (simp_all add: net_of_def entries_of_def traded_def)
    moreover have "\<bar>- exec_gross event - dec_half_away 8 (- exec_gross event)\<bar> \<le> 1 / (2 * 10 ^ 8)"
      using e(1) by (subst abs_minus_commute)
    ultimately show ?thesis by simp
  next
    case 2
    then have "net_of d' i = net_of d i + dec_half_away 8 (exec_gross event)" "entries_of d' i = Suc (entries_of d i)"
      "cash_or c d' i = cash_or c d i + exec_gross event"
      using a bs by (simp_all add: net_of_def entries_of_def traded_def)
    moreover have "\<bar>exec_gross event - dec_half_away 8 (exec_gross event)\<bar> \<le> 1 / (2 * 10 ^ 8)"
      using e(2) by (subst abs_minus_commute)
    ultimately show ?thesis by simp
  next
    case 3
    then show ?thesis using a by (simp add: net_of_def entries_of_def traded_def)
  qed
qed

text \<open>C12: the ledger explains the balances. Along any steps of the service a balance and the sum of the net
  amounts of its ledger entries change by the same amount, up to half a unit of the eighth decimal for
  each entry: the entries are stored with eight decimals, the balance moves by ten.\<close>

theorem ledger_explains_balances:
  assumes "(portfolio_step sv)\<^sup>*\<^sup>* d0 d" "books_inv d0"
  shows "\<bar>(cash_or (shortest (sp_initialCash sv)) d i - net_of d i) - (cash_or (shortest (sp_initialCash sv)) d0 i - net_of d0 i)\<bar>
    \<le> (rat_of_nat (entries_of d i) - rat_of_nat (entries_of d0 i)) / (2 * 10 ^ 8)"
  using assms
proof (induction rule: rtranclp_induct)
  case base
  then show ?case by simp
next
  case (step y z)
  let ?c = "shortest (sp_initialCash sv)"
  have "\<bar>(cash_or ?c z i - net_of z i) - (cash_or ?c y i - net_of y i)\<bar> \<le>
      (rat_of_nat (entries_of z i) - rat_of_nat (entries_of y i)) / (2 * 10 ^ 8)"
    using portfolio_step_books(3) [OF step.hyps(2) steps_inv [OF step.hyps(1) step.prems]]
  proof (elim disjE exE conjE)
    assume "cash_or ?c z = cash_or ?c y" "portfolio_transactions z = portfolio_transactions y"
    then show ?thesis by (simp add: net_of_def entries_of_def)
  next
    fix event assume "applied event (PayloadHash (sp_sha256_hex sv) event) ?c y z"
    then show ?thesis by (rule traded_entries)
  qed
  moreover have "\<bar>(cash_or ?c y i - net_of y i) - (cash_or ?c d0 i - net_of d0 i)\<bar> \<le>
      (rat_of_nat (entries_of y i) - rat_of_nat (entries_of d0 i)) / (2 * 10 ^ 8)"
    using step by simp
  ultimately show ?case by (simp add: abs_le_iff diff_divide_distrib)
qed

lemma steps_processed:
  assumes "(portfolio_step sv)\<^sup>*\<^sup>* d0 d" "books_inv d0"
  shows "\<exists>rows. processed_events d = processed_events d0 @ rows"
  using assms
proof (induction rule: rtranclp_induct)
  case base
  then show ?case by simp
next
  case (step y z)
  then show ?case using portfolio_step_books(3) [OF step.hyps(2) steps_inv [OF step.hyps(1) step.prems]]
    unfolding applied_def by fastforce
qed

text \<open>C11: an execution is applied once. After it has been applied, and whatever the service does then, an event
  of the same tenant and execution changes nothing: it is skipped as a duplicate when its payload hash
  is the recorded one, and refused as a conflict when it is another.\<close>

theorem execution_applied_once:
  assumes "trade_event event" "books_inv d" "\<not> ur_Duplicate res" "hash \<noteq> ''''"
    and "ApplyTradeExecution numeric_div now event (sp_initialCash sv) hash topic d = Inr (res, d1)"
    and "(portfolio_step sv)\<^sup>*\<^sup>* d1 d2"
    and "trade_event event2" "te_TenantID event2 = te_TenantID event" "te_ExecutionID event2 = te_ExecutionID event"
  shows "ApplyTradeExecution numeric_div now2 event2 ini hash2 topic2 d2 =
    (if hash2 = hash then Inr (duplicate_result, d2) else Inl ErrPayloadConflict)"
proof -
  let ?pk = "\<lambda>r. (pz_tenant_id r, pz_idempotency_key r)" and ?k = "(te_TenantID event, BuildIdempotencyKey event)"
  have ok: "books_ok d" "entries_recorded d" using assms(2) by (auto simp: books_inv_def)
  note a = ApplyTradeExecution_Inr [OF assms(1) ok assms(5,3)]
  obtain t where p1: "processed_events d1 = processed_events d @ [processed_row_of t (te_TenantID event) event hash]"
    using a(3) unfolding applied_def by blast
  have "books_inv d1" using a(1,2) by (simp add: books_inv_def)
  then obtain rows where p2: "processed_events d2 = processed_events d1 @ rows" using steps_processed [OF assms(6)] by blast
  have f: "find_by ?pk ?k (processed_events d2) = Some (processed_row_of t (te_TenantID event) event hash)"
    using a(5) by (simp add: p2 p1 find_by_append sql_simps processed_row_of_def)
  have "(defaultTenant (te_TenantID event2), BuildIdempotencyKey event2) = ?k"
    using trade_event_key [OF assms(1)] trade_event_key [OF assms(7)] assms(8,9) by simp
  with f have "find_by ?pk (defaultTenant (te_TenantID event2), BuildIdempotencyKey event2) (processed_events d2) =
      Some (processed_row_of t (te_TenantID event) event hash)" by simp
  then show ?thesis using replay [of event2 d2 _ hash] assms(4) by (auto simp: processed_row_of_def)
qed

text \<open>a service whose books hold no share never settles a trade. Whatever it does, no ledger entry is
  written and all positions stay zero, and an execution is refused or already recorded. Only writing
  \<open>portfolio_holdings\<close> outside the service gives a first seller something to sell.\<close>

theorem fresh_books_settle_nothing:
  assumes "(portfolio_step sv)\<^sup>*\<^sup>* d0 d" "books_inv d0" "list_all (\<lambda>h. ph_quantity h = 0) (portfolio_holdings d0)"
    and "trade_event event"
  shows "portfolio_transactions d = portfolio_transactions d0 \<and> list_all (\<lambda>h. ph_quantity h = 0) (portfolio_holdings d) \<and>
    (case ApplyTradeExecution numeric_div now event (sp_initialCash sv) hash topic d of
       Inl err \<Rightarrow> True | Inr (res, d') \<Rightarrow> ur_Duplicate res)"
proof -
  have refuse: "\<not> applied ev h c x x'" if z: "\<forall>i sy. position_of x i sy = 0" and ev: "trade_event ev" for ev h c x x'
    using z ev unfolding applied_def traded_def trade_event_def by auto
  have zero: "position_of d0 i sy = 0" for i sy
    using assms(3) find_by_Some by (fastforce simp: position_of_def list_all_iff split: option.splits)
  with assms(1) have p: "portfolio_transactions d = portfolio_transactions d0 \<and> (\<forall>i sy. position_of d i sy = 0)"
  proof (induction rule: rtranclp_induct)
    case (step y z)
    then have y: "portfolio_transactions y = portfolio_transactions d0" "\<forall>i sy. position_of y i sy = 0" by simp_all
    then show ?case
      using portfolio_step_books(3) [OF step.hyps(2) steps_inv [OF step.hyps(1) assms(2)]] refuse [OF y(2)] by auto
  qed simp
  have ok: "books_ok d" "entries_recorded d" using steps_inv [OF assms(1,2)] by (auto simp: books_inv_def)
  have dist: "distinct (map (\<lambda>h. (ph_portfolio_id h, ph_symbol h)) (portfolio_holdings d))"
    using ok(1) by (simp add: books_ok_def holding_info_def comp_def)
  have "ph_quantity h = 0" if "h \<in> set (portfolio_holdings d)" for h
  proof -
    have "position_of d (ph_portfolio_id h) (ph_symbol h) = 0" using p by blast
    then show ?thesis using find_by_unique [OF dist that] by (simp add: position_of_def)
  qed
  moreover have "ur_Duplicate res" if "ApplyTradeExecution numeric_div now event (sp_initialCash sv) hash topic d = Inr (res, d')" for res d'
    using ApplyTradeExecution_Inr(3) [OF assms(4) ok that] refuse [OF _ assms(4)] p by blast
  ultimately show ?thesis using p by (auto simp: list_all_iff split: sum.splits)
qed

subsection \<open>Locks\<close>

lemma le_last: "x \<in> set xs \<Longrightarrow> sorted_wrt (<) xs \<Longrightarrow> (x :: string) \<le> List.last xs"
  by (induction xs) (auto intro: order_less_imp_le)

lemma unique_loop_strict:
  fixes out :: "string list"
  assumes "sorted vs" "sorted_wrt (<) out" "'''' \<notin> set out" "\<forall>x\<in>set out. \<forall>y\<in>set vs. x \<le> y"
  defines "res \<equiv> fold (\<lambda>value out. if value = '''' \<or> (out \<noteq> [] \<and> List.last out = value) then out else out @ [value]) vs out"
  shows "sorted_wrt (<) res \<and> set res = set out \<union> (set vs - {''''})"
  using assms(1-4) unfolding res_def
proof (induction vs arbitrary: out)
  case Nil
  then show ?case by simp
next
  case (Cons v vs)
  let ?out = "if v = '''' \<or> (out \<noteq> [] \<and> List.last out = v) then out else out @ [v]"
  have less: "x < v" if "x \<in> set out" "v \<noteq> ''''" "\<not> (out \<noteq> [] \<and> List.last out = v)" for x
  proof -
    have "x \<le> List.last out" using that(1) Cons.prems(2) by (rule le_last)
    also have "List.last out < v" using that Cons.prems(4) last_in_set [of out] by (cases "out = []") (auto simp: order_less_le)
    finally show ?thesis .
  qed
  have "sorted_wrt (<) ?out \<and> '''' \<notin> set ?out \<and> (\<forall>x\<in>set ?out. \<forall>y\<in>set vs. x \<le> y)"
    using Cons.prems less by (auto simp: sorted_wrt_append)
  then have "sorted_wrt (<) (fold (\<lambda>value out. if value = '''' \<or> (out \<noteq> [] \<and> List.last out = value) then out else out @ [value]) vs ?out) \<and>
      set (fold (\<lambda>value out. if value = '''' \<or> (out \<noteq> [] \<and> List.last out = value) then out else out @ [value]) vs ?out) =
        set ?out \<union> (set vs - {''''})"
    using Cons.IH [of ?out] Cons.prems(1) by simp
  moreover have "set ?out \<union> (set vs - {''''}) = set out \<union> (set (v # vs) - {''''})" by auto
  ultimately show ?case by simp
qed

lemma uniqueSorted_set:
  "sorted_wrt (<) (uniqueSorted vs) \<and> set (uniqueSorted vs) = set vs - {''''}"
  using unique_loop_strict [of "sort vs" "[]"] by (simp add: uniqueSorted_def unique_loop_def)

lemma uniqueSorted_eq: "uniqueSorted vs = sorted_list_of_set (set vs - {''''})"
  using uniqueSorted_set [of vs] by (metis sorted_list_of_set.idem_if_sorted_distinct strict_sorted_iff)

text \<open>lock order. Two trades between the same two accounts, whoever buys, lock the balances and then the
  holdings in the same ascending order, but the portfolio rows before them in opposite orders, which
  lets the two transactions deadlock.\<close>

theorem trade_lock_order:
  "drop 2 (trade_locks b s) = drop 2 (trade_locks s b) \<and>
   drop 2 (trade_locks b s) = map LockCash (sorted_list_of_set ({b, s} - {''''})) @ map LockHolding (sort [b, s]) \<and>
   take 2 (trade_locks b s) = [LockPortfolio b, LockPortfolio s] \<and>
   take 2 (trade_locks s b) = [LockPortfolio s, LockPortfolio b]"
proof -
  have "sort [b, s] = sort [s, b]" by auto
  then show ?thesis by (simp add: trade_locks_def uniqueSorted_eq insert_commute)
qed

subsection \<open>Trades that go through\<close>

definition in_range :: "float64 \<Rightarrow> bool" where
  "in_range x \<longleftrightarrow> \<bar>dec_half_away 8 (fmt_dec 10 x)\<bar> < 10 ^ 12"

lemma insertPortfolioTransaction_ok:
  assumes "in_range quantity" "in_range price" "in_range gross" "in_range fee" "in_range net" "in_range rp"
  shows "\<exists>d'. insertPortfolioTransaction T i u x oid sy side quantity price gross fee net cur rp corr t d = Inr d' \<and>
    processed_events d' = processed_events d"
  using assms by (auto simp: insertPortfolioTransaction_def numeric_20_8_def in_range_def)

lemma in_range_simps: "in_range (- x) = in_range x" "in_range 0"
  by (simp_all add: in_range_def fmt.rnd_minus dha.rnd_minus fmt.rnd_zero dha.rnd_zero)

lemma record_execution_ok:
  assumes "in_range (te_ExecutionQuantity event)" "in_range (te_ExecutionPrice event)" "in_range (gross_amount event)"
    and "in_range realized"
    and "list_all (\<lambda>r. pz_tenant_id r = T \<longrightarrow> pz_event_id r \<noteq> te_EventID event \<and>
      pz_idempotency_key r \<noteq> BuildIdempotencyKey event \<and> pz_execution_id r \<noteq> Some (te_ExecutionID event)) (processed_events d)"
  shows "\<exists>d'. record_execution now T event hash b s realized d = Inr d'"
proof -
  have g: "in_range (- gross_amount event)" "in_range 0" using assms(3) by (simp_all add: in_range_simps)
  obtain d1 where d1: "insertPortfolioTransaction T b (te_BuyerUserID event) (te_ExecutionID event) (te_BuyOrderID event)
      (te_Symbol event) ''BUY'' (te_ExecutionQuantity event) (te_ExecutionPrice event) (gross_amount event) 0
      (- gross_amount event) (te_Currency event) 0 (te_CorrelationID event) (te_OccurredAt event) d = Inr d1"
    "processed_events d1 = processed_events d"
    using insertPortfolioTransaction_ok [OF assms(1-3) g(2,1,2)] by blast
  obtain d2 where d2: "insertPortfolioTransaction T s (te_SellerUserID event) (te_ExecutionID event) (te_SellOrderID event)
      (te_Symbol event) ''SELL'' (te_ExecutionQuantity event) (te_ExecutionPrice event) (gross_amount event) 0
      (gross_amount event) (te_Currency event) realized (te_CorrelationID event) (te_OccurredAt event) d1 = Inr d2"
    "processed_events d2 = processed_events d1"
    using insertPortfolioTransaction_ok [OF assms(1-3) g(2) assms(3,4)] by blast
  have "insertProcessed (processed_row_of now T event hash) d2 =
      Inr (d2\<lparr>processed_events := processed_events d2 @ [processed_row_of now T event hash]\<rparr>)"
    using assms(5) d1(2) d2(2) by (auto simp: insertProcessed_def processed_row_of_def list_all_iff)
  then show ?thesis using d1(1) d2(1) by (simp add: record_execution_def)
qed

lemma readPortfolio_ok:
  assumes "books_ok d" "account_of d T u = Some i" "T \<noteq> ''''"
  shows "\<exists>p. readPortfolio T u d = Inr p"
proof -
  have "i \<in> cb_portfolio_id ` set (cash_balances d)" by (rule cash_row_ex(1) [OF assms(1,2)])
  then have "find_by cb_portfolio_id i (cash_balances d) \<noteq> None" by (simp add: find_by_None_iff)
  then show ?thesis using assms(2,3) by (auto simp: readPortfolio_def account_of_def defaultTenant_def)
qed

lemma ApplyTradeExecution_ok:
  assumes ev: "trade_event event" and ok: "books_ok d"
    and new: "list_all (\<lambda>r. pz_tenant_id r = te_TenantID event \<longrightarrow> pz_event_id r \<noteq> te_EventID event \<and>
      pz_idempotency_key r \<noteq> BuildIdempotencyKey event \<and> pz_execution_id r \<noteq> Some (te_ExecutionID event)) (processed_events d)"
    and mv: "move_positions numeric_div now (te_TenantID event) event ini d = Inr (b, s, realized, d1)"
    and rng: "in_range (te_ExecutionQuantity event)" "in_range (te_ExecutionPrice event)" "in_range (gross_amount event)"
      "in_range realized"
  shows "\<exists>res d'. ApplyTradeExecution numeric_div now event ini hash topic d = Inr (res, d') \<and> \<not> ur_Duplicate res"
proof -
  let ?T = "te_TenantID event"
  note key = trade_event_key [OF ev]
  have T: "?T \<noteq> ''''" and ne: "te_BuyerUserID event \<noteq> te_SellerUserID event" using ev by (auto simp: trade_event_def)
  note m = move_positions_books [OF ok T ne mv]
  have none: "find_by (\<lambda>r. (pz_tenant_id r, pz_idempotency_key r)) (?T, BuildIdempotencyKey event) (processed_events d) = None"
    using new by (auto simp: find_by_None_iff list_all_iff)
  have pe: "processed_events d1 = processed_events d" using m(1) by (simp add: grows_def)
  obtain d2 where d2: "record_execution now ?T event hash b s realized d1 = Inr d2"
    using record_execution_ok [OF rng new [folded pe]] by blast
  obtain d1' where i: "insertPortfolioTransaction ?T b (te_BuyerUserID event) (te_ExecutionID event) (te_BuyOrderID event)
      (te_Symbol event) ''BUY'' (te_ExecutionQuantity event) (te_ExecutionPrice event) (gross_amount event) 0
      (- gross_amount event) (te_Currency event) 0 (te_CorrelationID event) (te_OccurredAt event) d1 = Inr d1'"
    using d2 by (auto simp: record_execution_def and_then_Inr)
  have same: "portfolios d2 = portfolios d1" "cash_balances d2 = cash_balances d1" "portfolio_holdings d2 = portfolio_holdings d1"
    "pdb_ids d2 = pdb_ids d1" "pdb_next d2 = pdb_next d1"
    using d2 by (auto simp: record_execution_def and_then_Inr insertPortfolioTransaction_def insertProcessed_def split: if_splits)
  have ok2: "books_ok d2" using m(1) books_ok_cong [OF same(1,4)] same by (simp add: grows_def)
  have acc: "account_of d2 T u = account_of d1 T u" for T u by (simp add: account_of_def same)
  obtain p where "readPortfolio ?T (te_BuyerUserID event) d2 = Inr p"
    using readPortfolio_ok [OF ok2 m(3) [folded acc] T] by blast
  moreover obtain q where "readPortfolio ?T (te_SellerUserID event) d2 = Inr q"
    using readPortfolio_ok [OF ok2 m(4) [folded acc] T] by blast
  ultimately obtain res d' where p: "publish_update now ?T event topic d2 = Inr (res, d')"
    by (cases "createSnapshot now p (readHoldings ?T (te_BuyerUserID event) d2) d2") (simp add: publish_update_def Let_def)
  then have "ApplyTradeExecution numeric_div now event ini hash topic d = Inr (res, d')"
    using none key mv d2 by (simp add: ApplyTradeExecution_def Let_def)
  then show ?thesis using publish_update_Inr(2) [OF p] by blast
qed

subsection \<open>Concrete inputs\<close>

definition ex_trade :: TradeExecutedEvent where
  "ex_trade = \<lparr>te_EventID = ''e-1'', te_EventType = ''trade.executed'', te_EventVersion = ''1.0'', te_TenantID = ''t'',
     te_CorrelationID = ''c'', te_TraceParent = '''', te_OccurredAt = 1, te_ExecutionID = ''x-1'', te_TradeID = '''',
     te_BuyOrderID = ''o-1'', te_SellOrderID = ''o-2'', te_BuyerUserID = ''u'', te_SellerUserID = ''v'',
     te_Symbol = ''AAPL'', te_ExecutionQuantity = 10, te_ExecutionPrice = 5, te_Currency = ''USD'',
     te_Source = ''order-service''\<rparr>"

definition ex_payload :: json where
  "ex_payload = JObj [(''eventId'', JStr ''e-1''), (''eventType'', JStr ''trade.executed''), (''tenantId'', JStr ''t''),
     (''correlationId'', JStr ''c''), (''occurredAt'', JStr ''now''), (''executionId'', JStr '' x-1''),
     (''buyOrderId'', JStr ''o-1''), (''sellOrderId'', JStr ''o-2''), (''buyerUserId'', JStr ''u''),
     (''sellerUserId'', JStr ''v''), (''symbol'', JStr ''aapl''), (''executionQuantity'', JNum 10),
     (''executionPrice'', JNum 5), (''source'', JStr ''order-service'')]"

definition ex_books :: pdb where
  "ex_books = empty_pdb\<lparr>
     portfolios := [\<lparr>pf_id = ''p'', pf_tenant_id = ''t'', pf_user_id = ''v'', pf_created_at = 0, pf_updated_at = 0\<rparr>],
     cash_balances := [\<lparr>cb_portfolio_id = ''p'', cb_cash_balance = 7, cb_realized_pnl = 0, cb_updated_at = 0\<rparr>],
     portfolio_holdings := [\<lparr>ph_id = ''h'', ph_tenant_id = Some ''t'', ph_portfolio_id = ''p'', ph_user_id = ''v'',
       ph_symbol = ''AAPL'', ph_quantity = 100, ph_average_buy_price = 4, ph_updated_at = 0\<rparr>],
     pdb_next := 1\<rparr>"

definition ex_portfolio_service :: PortfolioService where
  "ex_portfolio_service = NewPortfolioService (\<lambda>x y. x / y) id (\<lambda>s. Some 1) 1000 []"

lemma inj_replicate: "inj (\<lambda>n. replicate (Suc n) (CHR ''p''))"
  by (rule injI) (drule arg_cong [where f = length], simp)

lemma ex_books_inv: "books_inv ex_books"
  using inj_replicate
  by (simp add: books_inv_def books_ok_def entries_recorded_def ex_books_def empty_pdb_def holding_info_def)

lemma empty_books_inv: "books_inv empty_pdb"
  using inj_replicate by (simp add: books_inv_def books_ok_def entries_recorded_def empty_pdb_def)

lemma ex_trade_event: "trade_event ex_trade"
proof -
  have "trim_space ''x-1'' = ''x-1''" by code_simp
  then show ?thesis by (simp add: trade_event_def ex_trade_def)
qed

abbreviation "ex_apply d \<equiv> ApplyTradeExecution (\<lambda>x y. x / y) 5 ex_trade (sp_initialCash ex_portfolio_service) ''hash'' ''topic'' d"

lemma ex_applies:
  "\<exists>res d'. ApplyTradeExecution (\<lambda>x y. x / y) 5 ex_trade (sp_initialCash ex_portfolio_service) hash topic ex_books = Inr (res, d') \<and>
     \<not> ur_Duplicate res"
proof -
  have "case move_positions (\<lambda>x y. x / y) 5 (te_TenantID ex_trade) ex_trade (sp_initialCash ex_portfolio_service) ex_books of
      Inl e \<Rightarrow> False | Inr (b, s, realized, d1) \<Rightarrow> realized = 10" by code_simp
  moreover have "in_range 10" by code_simp
  ultimately obtain b s realized d1 where
    m: "move_positions (\<lambda>x y. x / y) 5 (te_TenantID ex_trade) ex_trade (sp_initialCash ex_portfolio_service) ex_books =
      Inr (b, s, realized, d1)" and r: "in_range realized"
    by (auto split: sum.splits)
  have ok: "books_ok ex_books" using ex_books_inv by (simp add: books_inv_def)
  show ?thesis
    by (rule ApplyTradeExecution_ok [OF ex_trade_event ok _ m _ _ _ r])
      (simp add: ex_books_def empty_pdb_def, code_simp, code_simp, code_simp)
qed

lemma ex_step: "\<exists>d. portfolio_step ex_portfolio_service ex_books d"
proof -
  have e: "map_option normalizeTradeExecuted (decodeTradeExecuted (\<lambda>s. Some 1) (Some ex_payload)) = Some (Inr ex_trade)"
    by code_simp
  have o: "map_option of_EventType (decodeOrderFilled (\<lambda>s. Some 1) (Some ex_payload)) = Some ''trade.executed''"
    by code_simp
  obtain ev where ev: "decodeTradeExecuted (\<lambda>s. Some 1) (Some ex_payload) = Some ev" "normalizeTradeExecuted ev = Inr ex_trade"
    using e by auto
  have t: "te_EventType ev = ''trade.executed''"
  proof -
    have "ex_trade = trimmed_trade ev" using ev(2) by (auto simp: normalizeTradeExecuted_def Let_def split: if_splits)
    then have "te_EventType ex_trade = te_EventType (trimmed_trade ev)" by (rule arg_cong)
    also have "\<dots> = te_EventType ev" by (simp add: trimmed_trade_def)
    finally have "te_EventType ex_trade = te_EventType ev" .
    then show ?thesis by (simp add: ex_trade_def)
  qed
  obtain res d' where "ApplyTradeExecution (\<lambda>x y. x / y) 5 ex_trade (sp_initialCash ex_portfolio_service)
      (PayloadHash id ex_trade) ''portfolio.updated'' ex_books = Inr (res, d')" using ex_applies by blast
  then have "ProcessOrderFilled ex_portfolio_service 5 (Some ex_payload) ex_books = Inr d'"
    using o ev t by (auto simp: ProcessOrderFilled_def ProcessTradeExecuted_def ex_portfolio_service_def NewPortfolioService_def)
  then show ?thesis by (blast intro: portfolio_step.consumed)
qed


lemma money_and_shares_conserved_witness:
  "\<exists>d. portfolio_step ex_portfolio_service ex_books d \<and>
     (\<Sum>r\<leftarrow>cash_balances d. cb_cash_balance r - shortest (sp_initialCash ex_portfolio_service)) =
     (\<Sum>r\<leftarrow>cash_balances ex_books. cb_cash_balance r - shortest (sp_initialCash ex_portfolio_service))"
proof -
  obtain d where "portfolio_step ex_portfolio_service ex_books d" using ex_step by blast
  then show ?thesis using money_and_shares_conserved [OF r_into_rtranclp ex_books_inv] by blast
qed


lemma ledger_explains_balances_witness:
  "\<exists>d. portfolio_step ex_portfolio_service ex_books d \<and>
     \<bar>(cash_or (shortest (sp_initialCash ex_portfolio_service)) d ''p'' - net_of d ''p'') -
       (cash_or (shortest (sp_initialCash ex_portfolio_service)) ex_books ''p'' - net_of ex_books ''p'')\<bar>
     \<le> (rat_of_nat (entries_of d ''p'') - rat_of_nat (entries_of ex_books ''p'')) / (2 * 10 ^ 8)"
proof -
  obtain d where "portfolio_step ex_portfolio_service ex_books d" using ex_step by blast
  then show ?thesis using ledger_explains_balances [OF r_into_rtranclp ex_books_inv] by blast
qed

lemma execution_applied_once_witness:
  "\<exists>res d1. ex_apply ex_books = Inr (res, d1) \<and> ex_apply d1 = Inr (duplicate_result, d1)"
proof -
  obtain res d1 where a: "ex_apply ex_books = Inr (res, d1)" "\<not> ur_Duplicate res" using ex_applies by blast
  have "ex_apply d1 = Inr (duplicate_result, d1)"
    using execution_applied_once [OF ex_trade_event ex_books_inv a(2) _ a(1) rtranclp.rtrancl_refl ex_trade_event refl refl,
      of 5 "sp_initialCash ex_portfolio_service" "''hash''" "''topic''"] by simp
  then show ?thesis using a by blast
qed

lemma fresh_books_settle_nothing_witness:
  "portfolio_transactions empty_pdb = [] \<and>
   (case ex_apply empty_pdb of Inl err \<Rightarrow> True | Inr (res, d') \<Rightarrow> ur_Duplicate res)"
  using fresh_books_settle_nothing [OF rtranclp.rtrancl_refl empty_books_inv _ ex_trade_event, of "(\<lambda>x y. x / y)" 5
      ex_portfolio_service "''hash''" "''topic''"]
  by (simp add: empty_pdb_def)

end
