(* ===== verification/PortfolioOutbox.thy ===== *)
theory PortfolioOutbox
  imports PortfolioRepository "HOL-Library.Product_Lexorder"
begin

text \<open>
  \<open>internal/outbox\<close> of the portfolio service: fetching and marking the rows of
  \<open>portfolio_outbox_events\<close> and the publisher around them. The producer's answer is an argument; the
  clock of the database and of the service is one \<open>now\<close> per statement. A float64 that does not fit
  into an int64 converts to a value Go leaves to the implementation: \<open>oob\<close>.
  Lemmas: what a poll does to a row; a row left in \<open>publishing\<close> is never fetched again; a row that has
  used up its attempts is fetched again.
\<close>

subsection \<open>Repository\<close>

record PublisherStatus =
  os_Enabled :: bool
  os_Running :: bool
  os_BatchSize :: int
  os_Pending :: nat
  os_Publishing :: nat
  os_PublishedLastHour :: nat
  os_Failed :: nat
  os_OldestPendingAge :: duration
  os_LastPublishedAt :: "time option"
  os_ConsecutiveErrors :: int
  os_LastError :: string

definition fetchable :: "time \<Rightarrow> portfolio_outbox_row \<Rightarrow> bool" where
  "fetchable now r \<longleftrightarrow> (px_status r = ''pending'' \<or> px_status r = ''failed'') \<and> px_published_at r = None \<and>
     px_next_attempt_at r \<le> now"

text \<open>The rows as read, which become \<open>publishing\<close> in the returned events only after the update.\<close>

definition FetchPending :: "time \<Rightarrow> int \<Rightarrow> pdb \<Rightarrow> portfolio_outbox_row list \<times> pdb" where
  "FetchPending now limit0 d =
     (let limit = (if limit0 \<le> 0 then 100 else limit0);
          events = limit_rows limit (sort_key (\<lambda>r. (px_created_at r, px_id r)) (filter (fetchable now) (portfolio_outbox d)))
      in if events = [] then ([], d)
         else (map (\<lambda>e. e\<lparr>px_status := ''publishing''\<rparr>) events,
               d\<lparr>portfolio_outbox := upd_where (\<lambda>r. px_id r \<in> px_id ` set events)
                   (\<lambda>r. r\<lparr>px_status := ''publishing''\<rparr>) (portfolio_outbox d)\<rparr>))"

definition MarkEventPublished :: "string \<Rightarrow> time \<Rightarrow> pdb \<Rightarrow> pdb" where
  "MarkEventPublished eventID publishedAt d =
     d\<lparr>portfolio_outbox := upd_where (\<lambda>r. px_event_id r = eventID \<and> px_published_at r = None)
         (\<lambda>r. r\<lparr>px_status := ''published'', px_published_at := Some publishedAt, px_last_error := None\<rparr>)
         (portfolio_outbox d)\<rparr>"

definition MarkEventFailed :: "string \<Rightarrow> string \<Rightarrow> time \<Rightarrow> bool \<Rightarrow> pdb \<Rightarrow> pdb" where
  "MarkEventFailed eventID publishErr nextAttemptAt terminal d =
     d\<lparr>portfolio_outbox := upd_where (\<lambda>r. px_event_id r = eventID \<and> px_published_at r = None)
         (\<lambda>r. r\<lparr>px_status := (if terminal then ''failed'' else ''pending''), px_attempts := px_attempts r + 1,
               px_next_attempt_at := nextAttemptAt, px_last_error := Some publishErr\<rparr>)
         (portfolio_outbox d)\<rparr>"

definition min_of :: "int list \<Rightarrow> int option" where
  "min_of xs = (if xs = [] then None else Some (Min (set xs)))"

definition max_of :: "int list \<Rightarrow> int option" where
  "max_of xs = (if xs = [] then None else Some (Max (set xs)))"

definition OutboxSnapshot :: "time \<Rightarrow> pdb \<Rightarrow> PublisherStatus" where
  "OutboxSnapshot now d =
     (let count = (\<lambda>P. length (filter P (portfolio_outbox d)))
      in \<lparr>os_Enabled = False, os_Running = False, os_BatchSize = 0,
          os_Pending = count (\<lambda>r. px_status r = ''pending''),
          os_Publishing = count (\<lambda>r. px_status r = ''publishing''),
          os_PublishedLastHour = count (\<lambda>r. px_status r = ''published'' \<and>
            (case px_published_at r of None \<Rightarrow> False | Some t \<Rightarrow> t \<ge> now - 60 * Minute)),
          os_Failed = count (\<lambda>r. px_status r = ''failed''),
          os_OldestPendingAge =
            (case min_of (map px_created_at (filter (\<lambda>r. px_status r = ''pending'') (portfolio_outbox d))) of
               None \<Rightarrow> 0 | Some t \<Rightarrow> now - t),
          os_LastPublishedAt = max_of (List.map_filter px_published_at (portfolio_outbox d)),
          os_ConsecutiveErrors = 0, os_LastError = ''''\<rparr>)"

subsection \<open>Publisher\<close>

record PublisherConfig =
  pc_Enabled :: bool
  pc_PollInterval :: duration
  pc_BatchSize :: int
  pc_MaxAttempts :: int
  pc_BaseBackoff :: duration
  pc_MaxBackoff :: duration

definition normalizeConfig :: "PublisherConfig \<Rightarrow> PublisherConfig" where
  "normalizeConfig cfg =
     \<lparr>pc_Enabled = pc_Enabled cfg,
      pc_PollInterval = (if pc_PollInterval cfg \<le> 0 then 2 * Second else pc_PollInterval cfg),
      pc_BatchSize = (if pc_BatchSize cfg \<le> 0 then 100 else pc_BatchSize cfg),
      pc_MaxAttempts = (if pc_MaxAttempts cfg \<le> 0 then 10 else pc_MaxAttempts cfg),
      pc_BaseBackoff = (if pc_BaseBackoff cfg \<le> 0 then Second else pc_BaseBackoff cfg),
      pc_MaxBackoff = (if pc_MaxBackoff cfg \<le> 0 then Minute else pc_MaxBackoff cfg)\<rparr>"

text \<open>\<open>math.Pow(2, attempts)\<close> is exact for the attempts of a row, and so is the product.\<close>

definition to_duration :: "duration \<Rightarrow> float64 \<Rightarrow> duration" where
  "to_duration oob x = (if - (2 ^ 63) \<le> x \<and> x < 2 ^ 63 then \<lfloor>x\<rfloor> else oob)"

definition portfolio_backoff :: "duration \<Rightarrow> PublisherConfig \<Rightarrow> nat \<Rightarrow> duration" where
  "portfolio_backoff oob cfg attempts =
     (let delay = to_duration oob (fl64 (fl64 (of_int (pc_BaseBackoff cfg)) * 2 ^ attempts))
      in if delay > pc_MaxBackoff cfg then pc_MaxBackoff cfg else delay)"

record portfolio_publisher =
  pp_cfg :: PublisherConfig
  pp_status :: PublisherStatus
  pp_running :: bool
  pp_db :: pdb
  pp_sent :: "(string \<times> string \<times> PortfolioEvent \<times> (string \<times> string) list) list"

definition NewPortfolioPublisher :: "bool \<Rightarrow> bool \<Rightarrow> pdb \<Rightarrow> PublisherConfig \<Rightarrow> string + portfolio_publisher" where
  "NewPortfolioPublisher store_nil prod_nil d cfg0 =
     (if store_nil then Inl ''outbox store is required''
      else if prod_nil then Inl ''outbox producer is required''
      else let cfg = normalizeConfig cfg0
           in Inr \<lparr>pp_cfg = cfg, pp_status = \<lparr>os_Enabled = pc_Enabled cfg, os_Running = False,
                os_BatchSize = pc_BatchSize cfg, os_Pending = 0, os_Publishing = 0, os_PublishedLastHour = 0,
                os_Failed = 0, os_OldestPendingAge = 0, os_LastPublishedAt = None, os_ConsecutiveErrors = 0,
                os_LastError = ''''\<rparr>, pp_running = False, pp_db = d, pp_sent = []\<rparr>)"

definition recordPublisherError :: "string \<Rightarrow> portfolio_publisher \<Rightarrow> portfolio_publisher" where
  "recordPublisherError err p = p\<lparr>pp_status := (pp_status p)\<lparr>
     os_ConsecutiveErrors := os_ConsecutiveErrors (pp_status p) + 1, os_LastError := err\<rparr>\<rparr>"

definition clearError :: "portfolio_publisher \<Rightarrow> portfolio_publisher" where
  "clearError p = p\<lparr>pp_status := (pp_status p)\<lparr>os_ConsecutiveErrors := 0, os_LastError := ''''\<rparr>\<rparr>"

text \<open>The environment of one event's publication: the producer's error, the failures of the two marking
  statements, the clock; \<open>oe_done\<close> is the context's cancellation before the event.\<close>

record event_env =
  oe_publish :: "(string \<times> string \<times> PortfolioEvent \<times> (string \<times> string) list) \<Rightarrow> string option"
  oe_markErr :: "string option"
  oe_now :: time
  oe_done :: bool

definition kafka_record :: "portfolio_outbox_row \<Rightarrow> string \<times> string \<times> PortfolioEvent \<times> (string \<times> string) list" where
  "kafka_record event = (px_topic event, px_tenant_id event @ '':'' @ px_aggregate_id event, px_payload event, px_headers event)"

definition publishEvent :: "duration \<Rightarrow> event_env \<Rightarrow> portfolio_outbox_row \<Rightarrow> portfolio_publisher \<Rightarrow> portfolio_publisher" where
  "publishEvent oob env event p =
     (case oe_publish env (kafka_record event) of
        None \<Rightarrow>
          let p1 = p\<lparr>pp_sent := pp_sent p @ [kafka_record event]\<rparr>
          in (case oe_markErr env of
                Some err \<Rightarrow> recordPublisherError err p1
              | None \<Rightarrow> p1\<lparr>pp_db := MarkEventPublished (px_event_id event) (oe_now env) (pp_db p1)\<rparr>)
      | Some err \<Rightarrow>
          let terminal = px_attempts event + 1 \<ge> pc_MaxAttempts (pp_cfg p);
              next_at = oe_now env + portfolio_backoff oob (pp_cfg p) (nat (px_attempts event))
          in (case oe_markErr env of
                Some e \<Rightarrow> recordPublisherError e p
              | None \<Rightarrow> p\<lparr>pp_db := MarkEventFailed (px_event_id event) err next_at terminal (pp_db p)\<rparr>))"

definition refreshStatus :: "time \<Rightarrow> string option \<Rightarrow> portfolio_publisher \<Rightarrow> portfolio_publisher" where
  "refreshStatus now err p =
     (case err of
        Some e \<Rightarrow> recordPublisherError e p
      | None \<Rightarrow> p\<lparr>pp_status := (OutboxSnapshot now (pp_db p))\<lparr>os_Enabled := pc_Enabled (pp_cfg p),
          os_Running := pp_running p, os_BatchSize := pc_BatchSize (pp_cfg p),
          os_ConsecutiveErrors := os_ConsecutiveErrors (pp_status p), os_LastError := os_LastError (pp_status p)\<rparr>\<rparr>)"

fun publish_events :: "duration \<Rightarrow> (nat \<Rightarrow> event_env) \<Rightarrow> nat \<Rightarrow> portfolio_outbox_row list \<Rightarrow> portfolio_publisher
    \<Rightarrow> bool \<times> portfolio_publisher" where
  "publish_events oob env i [] p = (True, p)"
| "publish_events oob env i (event # events) p =
     (if oe_done (env i) then (False, p)
      else publish_events oob env (Suc i) events (publishEvent oob (env i) event p))"

record poll_env =
  pn_now :: time
  pn_snapshotErr :: "string option"
  pn_fetchErr :: "string option"
  pn_event :: "nat \<Rightarrow> event_env"
  pn_end :: time

definition portfolio_poll :: "duration \<Rightarrow> poll_env \<Rightarrow> portfolio_publisher \<Rightarrow> portfolio_publisher" where
  "portfolio_poll oob env p0 =
     (let p = refreshStatus (pn_now env) (pn_snapshotErr env) p0
      in case pn_fetchErr env of
           Some err \<Rightarrow> recordPublisherError err p
         | None \<Rightarrow>
             let (events, d) = FetchPending (pn_now env) (pc_BatchSize (pp_cfg p)) (pp_db p);
                 (finished, p1) = publish_events oob (pn_event env) 0 events (p\<lparr>pp_db := d\<rparr>)
             in if \<not> finished then p1
                else refreshStatus (pn_end env) (pn_snapshotErr env) (clearError p1))"

definition publisher_status :: "portfolio_publisher \<Rightarrow> PublisherStatus" where
  "publisher_status p = (pp_status p)\<lparr>os_Running := pp_running p, os_Enabled := pc_Enabled (pp_cfg p),
     os_BatchSize := pc_BatchSize (pp_cfg p)\<rparr>"

subsection \<open>Rows across the operations\<close>

definition outbox_keys_ok :: "pdb \<Rightarrow> bool" where
  "outbox_keys_ok d \<longleftrightarrow> distinct (map px_id (portfolio_outbox d)) \<and> distinct (map px_event_id (portfolio_outbox d)) \<and>
     (\<forall>r\<in>set (portfolio_outbox d). px_id r < outbox_serial d)"

definition event_row :: "pdb \<Rightarrow> string \<Rightarrow> portfolio_outbox_row option" where
  "event_row d e = find_by px_event_id e (portfolio_outbox d)"

lemma event_row_mem:
  assumes "outbox_keys_ok d"
  shows "event_row d e = Some r \<longleftrightarrow> r \<in> set (portfolio_outbox d) \<and> px_event_id r = e"
  using assms find_by_unique [of px_event_id "portfolio_outbox d" r] find_by_Some [of px_event_id e "portfolio_outbox d" r]
  by (auto simp: event_row_def outbox_keys_ok_def)

definition fetched_rows :: "time \<Rightarrow> int \<Rightarrow> pdb \<Rightarrow> portfolio_outbox_row list" where
  "fetched_rows now limit d = limit_rows (if limit \<le> 0 then 100 else limit)
     (sort_key (\<lambda>r. (px_created_at r, px_id r)) (filter (fetchable now) (portfolio_outbox d)))"

lemma set_fetched_rows: "set (fetched_rows now limit d) \<subseteq> {r \<in> set (portfolio_outbox d). fetchable now r}"
  using set_limit_rows [of _ "sort_key (\<lambda>r. (px_created_at r, px_id r)) (filter (fetchable now) (portfolio_outbox d))"]
  by (auto simp: fetched_rows_def)

lemma FetchPending_rows:
  "FetchPending now limit d = (map (\<lambda>e. e\<lparr>px_status := ''publishing''\<rparr>) (fetched_rows now limit d),
     d\<lparr>portfolio_outbox := upd_where (\<lambda>r. px_id r \<in> px_id ` set (fetched_rows now limit d))
        (\<lambda>r. r\<lparr>px_status := ''publishing''\<rparr>) (portfolio_outbox d)\<rparr>)"
proof (cases "fetched_rows now limit d = []")
  case True
  then show ?thesis
    using upd_where_id [of "portfolio_outbox d" "\<lambda>r. False"] by (simp add: FetchPending_def fetched_rows_def Let_def)
next
  case False
  then show ?thesis by (simp add: FetchPending_def fetched_rows_def Let_def)
qed

lemma fetched_events: "px_event_id ` set (fst (FetchPending now limit d)) = px_event_id ` set (fetched_rows now limit d)"
  by (simp add: FetchPending_rows image_image)

lemma event_row_FetchPending:
  assumes "outbox_keys_ok d"
  shows "event_row (snd (FetchPending now limit d)) e = map_option
    (\<lambda>r. if r \<in> set (fetched_rows now limit d) then r\<lparr>px_status := ''publishing''\<rparr> else r) (event_row d e)"
proof (cases "event_row d e")
  case None
  then show ?thesis by (simp add: event_row_def FetchPending_rows find_by_upd_where)
next
  case (Some r)
  then have r: "r \<in> set (portfolio_outbox d)" using event_row_mem [OF assms] by simp
  have "px_id r \<in> px_id ` set (fetched_rows now limit d) \<longleftrightarrow> r \<in> set (fetched_rows now limit d)"
  proof
    assume "px_id r \<in> px_id ` set (fetched_rows now limit d)"
    then obtain r' where "r' \<in> set (fetched_rows now limit d)" "px_id r' = px_id r" by force
    moreover then have "r' = r"
      using assms r set_fetched_rows [of now limit d] by (auto simp: outbox_keys_ok_def distinct_map inj_on_def)
    ultimately show "r \<in> set (fetched_rows now limit d)" by simp
  qed simp
  with Some show ?thesis by (simp add: event_row_def FetchPending_rows find_by_upd_where)
qed

lemma event_row_marks:
  "event_row (MarkEventPublished x t d) e = map_option (\<lambda>r. if px_event_id r = x \<and> px_published_at r = None
     then r\<lparr>px_status := ''published'', px_published_at := Some t, px_last_error := None\<rparr> else r) (event_row d e)"
  "event_row (MarkEventFailed x err t terminal d) e = map_option (\<lambda>r. if px_event_id r = x \<and> px_published_at r = None
     then r\<lparr>px_status := (if terminal then ''failed'' else ''pending''), px_attempts := px_attempts r + 1,
            px_next_attempt_at := t, px_last_error := Some err\<rparr> else r) (event_row d e)"
  by (simp_all add: event_row_def MarkEventPublished_def MarkEventFailed_def find_by_upd_where)

lemma keys_upd_where:
  assumes "outbox_keys_ok d" "\<And>r. px_id (f r) = px_id r" "\<And>r. px_event_id (f r) = px_event_id r"
  shows "outbox_keys_ok (d\<lparr>portfolio_outbox := upd_where P f (portfolio_outbox d)\<rparr>)"
proof -
  have i: "map px_id (upd_where P f (portfolio_outbox d)) = map px_id (portfolio_outbox d)"
    by (rule map_upd_where) (rule assms(2))
  have e: "map px_event_id (upd_where P f (portfolio_outbox d)) = map px_event_id (portfolio_outbox d)"
    by (rule map_upd_where) (rule assms(3))
  have "px_id ` set (upd_where P f (portfolio_outbox d)) = px_id ` set (portfolio_outbox d)"
    by (metis i list.set_map)
  then have "\<forall>r\<in>set (upd_where P f (portfolio_outbox d)). px_id r < outbox_serial d"
    using assms(1) unfolding outbox_keys_ok_def by (metis (no_types, lifting) imageE imageI)
  then show ?thesis using assms(1) i e by (simp add: outbox_keys_ok_def)
qed

lemma keys_FetchPending: "outbox_keys_ok d \<Longrightarrow> outbox_keys_ok (snd (FetchPending now limit d))"
  unfolding FetchPending_rows snd_conv by (rule keys_upd_where) simp_all

lemma keys_marks:
  "outbox_keys_ok d \<Longrightarrow> outbox_keys_ok (MarkEventPublished x t d)"
  "outbox_keys_ok d \<Longrightarrow> outbox_keys_ok (MarkEventFailed x err t terminal d)"
  unfolding MarkEventPublished_def MarkEventFailed_def by (rule keys_upd_where; simp)+

lemma keys_insert: "outbox_keys_ok d \<Longrightarrow> outbox_keys_ok (insertPortfolioOutbox now topic event d)"
  by (force simp: outbox_keys_ok_def insertPortfolioOutbox_def)

lemma event_row_insert:
  "event_row d e = Some r \<Longrightarrow> event_row (insertPortfolioOutbox now topic event d) e = Some r"
  by (simp add: event_row_def insertPortfolioOutbox_def find_by_append)

subsection \<open>Rows nobody comes back for\<close>

text \<open>What happens to the outbox while no publisher settles the event \<open>e\<close>: fetches of any publisher, marks of
  other events, new events.\<close>

inductive unsettled :: "string \<Rightarrow> pdb \<Rightarrow> pdb \<Rightarrow> bool" for e where
  fetched: "unsettled e d (snd (FetchPending now limit d))"
| published: "x \<noteq> e \<Longrightarrow> unsettled e d (MarkEventPublished x t d)"
| failed: "x \<noteq> e \<Longrightarrow> unsettled e d (MarkEventFailed x err t terminal d)"
| inserted: "unsettled e d (insertPortfolioOutbox now topic event d)"

lemma unsettled_step:
  assumes "unsettled e d d'" "outbox_keys_ok d" "event_row d e = Some r" "px_status r = ''publishing''"
  shows "outbox_keys_ok d' \<and> event_row d' e = Some r"
  using assms
proof (cases rule: unsettled.cases)
  case (fetched now limit)
  have "r \<notin> set (fetched_rows now limit d)"
    using set_fetched_rows [of now limit d] assms(4) by (auto simp: fetchable_def)
  then show ?thesis using fetched assms by (simp add: event_row_FetchPending keys_FetchPending)
next
  case (published x t)
  then show ?thesis using assms find_by_Some [of px_event_id e "portfolio_outbox d" r]
    by (simp add: event_row_marks keys_marks) (simp add: event_row_def)
next
  case (failed x err t terminal)
  then show ?thesis using assms find_by_Some [of px_event_id e "portfolio_outbox d" r]
    by (simp add: event_row_marks keys_marks) (simp add: event_row_def)
next
  case (inserted now topic event)
  then show ?thesis using assms by (simp add: event_row_insert keys_insert)
qed

text \<open>C40: an event lost by a crash. A row that a publisher has fetched and not settled stays in the status
  \<open>publishing\<close>, and no fetch of any publisher at any later time returns it again.\<close>

theorem fetched_event_is_lost:
  assumes "outbox_keys_ok d" "e \<in> px_event_id ` set (fst (FetchPending now limit d))"
    and "(unsettled e)\<^sup>*\<^sup>* (snd (FetchPending now limit d)) d'"
  shows "e \<notin> px_event_id ` set (fst (FetchPending now' limit' d')) \<and>
    map_option px_status (event_row d' e) = Some ''publishing''"
proof -
  obtain r where r: "r \<in> set (fetched_rows now limit d)" "px_event_id r = e"
    using assms(2) unfolding fetched_events by force
  then have "event_row d e = Some r" using set_fetched_rows [of now limit d] event_row_mem [OF assms(1)] by auto
  then have "event_row (snd (FetchPending now limit d)) e = Some (r\<lparr>px_status := ''publishing''\<rparr>)"
    using r by (simp add: event_row_FetchPending [OF assms(1)])
  with assms(3) have "outbox_keys_ok d' \<and> event_row d' e = Some (r\<lparr>px_status := ''publishing''\<rparr>)"
  proof (induction rule: rtranclp_induct)
    case base
    then show ?case using keys_FetchPending [OF assms(1)] by simp
  next
    case (step y z)
    then show ?case using unsettled_step [OF step.hyps(2)] by simp
  qed
  moreover have "px_event_id x \<noteq> e" if x: "x \<in> set (fetched_rows now' limit' d')" and k: "outbox_keys_ok d'"
    and row: "event_row d' e = Some (r\<lparr>px_status := ''publishing''\<rparr>)" for x
  proof
    assume "px_event_id x = e"
    moreover have "x \<in> set (portfolio_outbox d')" "fetchable now' x" using x set_fetched_rows by blast+
    ultimately have "event_row d' e = Some x" using event_row_mem [OF k] by simp
    then have "px_status x = ''publishing''" using row by auto
    then show False using \<open>fetchable now' x\<close> by (simp add: fetchable_def)
  qed
  ultimately show ?thesis unfolding fetched_events by force
qed

text \<open>attempts without end. When the last attempt of a row has failed, the row is marked \<open>failed\<close> and, once
  its delay is over, the next fetch of sufficient size returns it like a pending one.\<close>

theorem failed_row_fetched_again:
  assumes "outbox_keys_ok d" "event_row d e = Some r" "px_published_at r = None" "t \<le> now"
    and "int (length (portfolio_outbox d)) \<le> limit"
  shows "map_option px_status (event_row (MarkEventFailed e err t True d) e) = Some ''failed'' \<and>
    e \<in> px_event_id ` set (fst (FetchPending now limit (MarkEventFailed e err t True d)))"
proof -
  let ?d = "MarkEventFailed e err t True d"
  define r' where "r' = r\<lparr>px_status := ''failed'', px_attempts := px_attempts r + 1, px_next_attempt_at := t,
    px_last_error := Some err\<rparr>"
  have e: "px_event_id r = e" using assms(2) event_row_mem [OF assms(1)] by simp
  have row: "event_row ?d e = Some r'" using assms(2,3) e by (simp add: event_row_marks r'_def)
  then have m: "r' \<in> set (portfolio_outbox ?d)" "px_event_id r' = e"
    using event_row_mem [OF keys_marks(2) [OF assms(1)]] by auto
  have f: "fetchable now r'" using assms(3,4) by (simp add: fetchable_def r'_def)
  have "length (portfolio_outbox d) > 0" using assms(2) event_row_mem [OF assms(1)] by (cases "portfolio_outbox d") auto
  then have l: "0 < limit" using assms(5) by linarith
  have "length (filter (fetchable now) (portfolio_outbox ?d)) \<le> nat limit"
    using assms(5) by (intro order_trans [OF length_filter_le]) (simp add: MarkEventFailed_def)
  then have "set (fetched_rows now limit ?d) = {r \<in> set (portfolio_outbox ?d). fetchable now r}"
    using l by (simp add: fetched_rows_def limit_rows_def)
  then have "r' \<in> set (fetched_rows now limit ?d)" using m f by simp
  then have "e \<in> px_event_id ` set (fetched_rows now limit ?d)" using m(2) by (metis imageI)
  then show ?thesis unfolding fetched_events using row by (simp add: r'_def)
qed

subsection \<open>Back-off\<close>

lemma fl64_scaled:
  assumes "\<bar>n\<bar> \<le> 2 ^ 53" shows "fl64 (of_int n * 2 ^ k) = of_int n * 2 ^ k"
  using fl64_exact [of "int k" n] assms by (simp add: power_int_of_nat)

text \<open>the delay before the next attempt doubles up to the maximum while it fits in 64 bits; from the
  attempt on at which it no longer fits it is whatever the conversion gives, and a negative value is
  not capped: the row is due at once.\<close>

theorem portfolio_backoff_bounds:
  assumes "0 < pc_BaseBackoff cfg" "pc_BaseBackoff cfg \<le> 2 ^ 53" "0 < pc_MaxBackoff cfg" "oob \<le> 0"
  shows "portfolio_backoff oob cfg n =
    (if pc_BaseBackoff cfg * 2 ^ n < 2 ^ 63 then min (pc_MaxBackoff cfg) (pc_BaseBackoff cfg * 2 ^ n) else oob)"
proof -
  let ?b = "pc_BaseBackoff cfg"
  have b: "fl64 (of_int ?b) = of_int ?b" using fl64_scaled [of ?b 0] assms by simp
  have p: "fl64 (of_int ?b * 2 ^ n) = of_int (?b * 2 ^ n)" using fl64_scaled [of ?b n] assms by simp
  have lt: "(of_int (?b * 2 ^ n) :: rat) < 2 ^ 63 \<longleftrightarrow> ?b * 2 ^ n < 2 ^ 63"
    by (metis of_int_less_iff of_int_numeral of_int_power)
  have "(0 :: rat) \<le> of_int (?b * 2 ^ n)" using assms(1) by simp
  then have lo: "- (2 ^ 63) \<le> (of_int (?b * 2 ^ n) :: rat)" by (rule order_trans [rotated]) simp
  show ?thesis
  proof (cases "?b * 2 ^ n < 2 ^ 63")
    case True
    then have "to_duration oob (of_int (?b * 2 ^ n)) = ?b * 2 ^ n"
      using lt lo unfolding to_duration_def by (simp only: simp_thms if_True floor_of_int)
    then show ?thesis unfolding portfolio_backoff_def b p Let_def using True by (simp add: min_def)
  next
    case False
    then have "to_duration oob (of_int (?b * 2 ^ n)) = oob"
      using lt unfolding to_duration_def by (simp only: simp_thms if_False)
    then show ?thesis unfolding portfolio_backoff_def b p Let_def using False assms(3,4) by simp
  qed
qed

subsection \<open>Concrete inputs\<close>

definition ex_update :: PortfolioEvent where
  "ex_update = \<lparr>ve_EventID = ''e-1'', ve_EventType = ''portfolio.updated'', ve_EventVersion = ''v1'',
     ve_TenantID = ''t'', ve_PortfolioID = ''p-1'', ve_UserID = ''u'', ve_AccountID = ''p-1'', ve_Symbol = ''AAPL'',
     ve_PositionQuantity = ''1'', ve_AveragePrice = ''5'', ve_CashDelta = ''-5'', ve_CashBalance = 95,
     ve_TotalValue = 100, ve_RealizedPnL = 0, ve_SourceEventID = ''s-1'', ve_SourceExecutionID = ''x-1'',
     ve_UpdatedAt = 1, ve_OccurredAt = 1, ve_CorrelationID = ''c''\<rparr>"

definition ex_pdb :: pdb where
  "ex_pdb = insertPortfolioOutbox 1 ''portfolio.updated'' ex_update empty_pdb"

lemma ex_pdb_keys: "outbox_keys_ok ex_pdb"
  unfolding ex_pdb_def by (rule keys_insert) (simp add: outbox_keys_ok_def empty_pdb_def)

lemma fetched_event_is_lost_witness:
  "''e-1'' \<notin> px_event_id ` set (fst (FetchPending 100 5 (snd (FetchPending 50 5 (snd (FetchPending 2 5 ex_pdb))))))"
proof -
  have "''e-1'' \<in> px_event_id ` set (fst (FetchPending 2 5 ex_pdb))" by code_simp
  moreover have "(unsettled ''e-1'')\<^sup>*\<^sup>* (snd (FetchPending 2 5 ex_pdb)) (snd (FetchPending 50 5 (snd (FetchPending 2 5 ex_pdb))))"
    by (rule r_into_rtranclp) (rule unsettled.fetched)
  ultimately show ?thesis using fetched_event_is_lost [OF ex_pdb_keys] by blast
qed

lemma failed_row_fetched_again_witness:
  "''e-1'' \<in> px_event_id ` set (fst (FetchPending 9 5 (MarkEventFailed ''e-1'' ''broker'' 7 True ex_pdb)))"
proof -
  have "event_row ex_pdb ''e-1'' \<noteq> None \<and> px_published_at (the (event_row ex_pdb ''e-1'')) = None \<and>
      int (length (portfolio_outbox ex_pdb)) \<le> 5" by code_simp
  then show ?thesis using failed_row_fetched_again [OF ex_pdb_keys, of "''e-1''" _ 7 9 5 "''broker''"] by auto
qed

lemma portfolio_backoff_bounds_witness:
  "portfolio_backoff (- (2 ^ 63)) \<lparr>pc_Enabled = True, pc_PollInterval = Second, pc_BatchSize = 10, pc_MaxAttempts = 10,
     pc_BaseBackoff = Second, pc_MaxBackoff = Minute\<rparr> 34 = - (2 ^ 63) \<and>
   portfolio_backoff (- (2 ^ 63)) \<lparr>pc_Enabled = True, pc_PollInterval = Second, pc_BatchSize = 10, pc_MaxAttempts = 10,
     pc_BaseBackoff = Second, pc_MaxBackoff = Minute\<rparr> 3 = 8 * Second"
  by (simp add: portfolio_backoff_bounds Second_def Minute_def)

end
