(* ===== verification/EventConsumer.thy ===== *)
theory EventConsumer
  imports GoText
begin

text \<open>
  The Kafka consumer of the surveillance, notification and audit services
  (\<open>internal/kafka/consumer.go\<close>, the same code in each up to the name of the service): a message becomes
  a \<open>SourceEvent\<close>, the service's \<open>ProcessEvent\<close> is tried until it succeeds or the retries are used up,
  then the event goes to the dead letter topic, and the message is committed in every case. A service
  is a function from its state that may fail after having changed the state; the number of the attempt
  stands for what changes between attempts (clock, random values). Telemetry and logs are left out.
\<close>

subsection \<open>Events and messages\<close>

text \<open>The bytes of a message: none, no JSON text, or a JSON text.\<close>

datatype payload = NoBytes | NotJson | Json json

record SourceEvent =
  se_Topic :: string
  se_Key :: string
  se_Value :: payload
  se_CorrelationID :: string
  se_TraceParent :: string

record event_message =
  em_Topic :: string
  em_Key :: string
  em_Value :: payload
  em_Headers :: "(string \<times> string) list"

definition event_header :: "(string \<times> string) list \<Rightarrow> string \<Rightarrow> string" where
  "event_header headers key = (case find_by fst key headers of None \<Rightarrow> '''' | Some h \<Rightarrow> snd h)"

fun firstNonEmpty :: "string list \<Rightarrow> string" where
  "firstNonEmpty [] = ''''"
| "firstNonEmpty (v # values) = (if v \<noteq> '''' then v else firstNonEmpty values)"

text \<open>What decodes into a map: an object, or a null for the empty map.\<close>

definition decodeMap :: "payload \<Rightarrow> (string \<times> json) list" where
  "decodeMap data = (case data of Json (JObj raw) \<Rightarrow> raw | _ \<Rightarrow> [])"

definition payloadField :: "payload \<Rightarrow> string \<Rightarrow> string" where
  "payloadField payload key = (case member_of (decodeMap payload) key of JStr s \<Rightarrow> s | _ \<Rightarrow> '''')"

text \<open>The first key whose member is a string, or a number; other members are passed over.\<close>

fun firstString :: "(string \<times> json) list \<Rightarrow> string list \<Rightarrow> string" where
  "firstString payload [] = ''''"
| "firstString payload (key # keys) =
     (case member_of payload key of JStr s \<Rightarrow> s | _ \<Rightarrow> firstString payload keys)"

fun firstFloat :: "(string \<times> json) list \<Rightarrow> string list \<Rightarrow> float64" where
  "firstFloat payload [] = 0"
| "firstFloat payload (key # keys) =
     (case member_of payload key of JNum q \<Rightarrow> q | _ \<Rightarrow> firstFloat payload keys)"

definition some_text :: "string \<Rightarrow> string option" where
  "some_text s = (if s = '''' then None else Some s)"

definition source_event :: "event_message \<Rightarrow> SourceEvent" where
  "source_event msg =
     \<lparr>se_Topic = em_Topic msg, se_Key = em_Key msg, se_Value = em_Value msg,
      se_CorrelationID = event_header (em_Headers msg) ''correlationId'',
      se_TraceParent = firstNonEmpty [event_header (em_Headers msg) ''traceparent'',
        payloadField (em_Value msg) ''traceparent'']\<rparr>"

subsection \<open>Retries\<close>

record EventRetryConfig =
  er_MaxRetries :: int
  er_Backoff :: duration
  er_BackoffMultiplier :: float64

definition normalizeEventRetry :: "EventRetryConfig \<Rightarrow> EventRetryConfig" where
  "normalizeEventRetry cfg =
     \<lparr>er_MaxRetries = (if er_MaxRetries cfg < 0 then 0 else er_MaxRetries cfg),
      er_Backoff = (if er_Backoff cfg \<le> 0 then 500 * Millisecond else er_Backoff cfg),
      er_BackoffMultiplier = (if er_BackoffMultiplier cfg < 1 then 2 else er_BackoffMultiplier cfg)\<rparr>"

definition eventRetryDelay :: "(float64 \<Rightarrow> nat \<Rightarrow> float64) \<Rightarrow> EventRetryConfig \<Rightarrow> nat \<Rightarrow> duration" where
  "eventRetryDelay pow cfg attempt =
     trunc_int (fl64 (fl64 (of_int (er_Backoff cfg)) * pow (er_BackoffMultiplier cfg) attempt))"

type_synonym ('e, 's) event_service = "nat \<Rightarrow> SourceEvent \<Rightarrow> 's \<Rightarrow> 'e option \<times> 's"

datatype 'e outcome = Processed | Interrupted | Exhausted 'e

text \<open>The attempts from \<open>attempt\<close> on; \<open>todo\<close> is the number of retries left, \<open>cancelled\<close> says whether the
  sleep after an attempt is interrupted.\<close>

fun attempt_from :: "('e, 's) event_service \<Rightarrow> (nat \<Rightarrow> bool) \<Rightarrow> SourceEvent \<Rightarrow> nat \<Rightarrow> nat \<Rightarrow> 's \<Rightarrow> 'e outcome \<times> 's" where
  "attempt_from process cancelled event 0 attempt s =
     (case process attempt event s of (None, s') \<Rightarrow> (Processed, s') | (Some err, s') \<Rightarrow> (Exhausted err, s'))"
| "attempt_from process cancelled event (Suc todo) attempt s =
     (case process attempt event s of
        (None, s') \<Rightarrow> (Processed, s')
      | (Some err, s') \<Rightarrow> if cancelled attempt then (Interrupted, s')
                        else attempt_from process cancelled event todo (Suc attempt) s')"

subsection \<open>Dead letters and commits\<close>

record 'e EventDLQ =
  dl_OriginalTopic :: string
  dl_OriginalPayload :: payload
  dl_ErrorMessage :: 'e
  dl_ServiceName :: string
  dl_FailedAt :: time
  dl_CorrelationID :: string
  dl_RetryCount :: int

text \<open>The consumer with what it changes: the state of its service, the dead letter topic, the number of
  committed messages.\<close>

record ('e, 's) event_consumer =
  ec_state :: 's
  ec_dlq :: "'e EventDLQ list"
  ec_committed :: nat

record consume_env =
  ce_cancelled :: "nat \<Rightarrow> bool"
  ce_now :: time
  ce_dlqFails :: bool
  ce_commitFails :: bool

definition event_dead_letter :: "string \<Rightarrow> time \<Rightarrow> SourceEvent \<Rightarrow> 'e \<Rightarrow> int \<Rightarrow> 'e EventDLQ" where
  "event_dead_letter service now event err retryCount =
     \<lparr>dl_OriginalTopic = se_Topic event, dl_OriginalPayload = se_Value event, dl_ErrorMessage = err,
      dl_ServiceName = service, dl_FailedAt = now, dl_CorrelationID = se_CorrelationID event,
      dl_RetryCount = retryCount\<rparr>"

definition processEventWithRetry :: "string \<Rightarrow> ('e, 's) event_service \<Rightarrow> EventRetryConfig \<Rightarrow> consume_env \<Rightarrow> SourceEvent
    \<Rightarrow> ('e, 's) event_consumer \<Rightarrow> ('e, 's) event_consumer" where
  "processEventWithRetry service process cfg env event c =
     (case attempt_from process (ce_cancelled env) event (nat (er_MaxRetries cfg)) 0 (ec_state c) of
        (Exhausted err, s') \<Rightarrow>
          if ce_dlqFails env then c\<lparr>ec_state := s'\<rparr>
          else c\<lparr>ec_state := s',
                 ec_dlq := ec_dlq c @ [event_dead_letter service (ce_now env) event err (er_MaxRetries cfg)]\<rparr>
      | (_, s') \<Rightarrow> c\<lparr>ec_state := s'\<rparr>)"

text \<open>One round of \<open>consume\<close> for a fetched message.\<close>

definition consume_event :: "string \<Rightarrow> ('e, 's) event_service \<Rightarrow> EventRetryConfig \<Rightarrow> consume_env \<Rightarrow> event_message
    \<Rightarrow> ('e, 's) event_consumer \<Rightarrow> ('e, 's) event_consumer" where
  "consume_event service process cfg env msg c =
     (let c1 = processEventWithRetry service process cfg env (source_event msg) c
      in if ce_commitFails env then c1 else c1\<lparr>ec_committed := ec_committed c1 + 1\<rparr>)"

subsection \<open>What a service promises its consumer\<close>

text \<open>
  A service keeps its invariant on every attempt, failing ones included, and moves its state only along
  \<open>kept\<close>; an attempt that succeeds leaves the event handled, and what is handled stays handled.
\<close>

locale event_processor =
  fixes process :: "('e, 's) event_service" and inv :: "'s \<Rightarrow> bool" and kept :: "'s \<Rightarrow> 's \<Rightarrow> bool"
    and handled :: "SourceEvent \<Rightarrow> 's \<Rightarrow> bool"
  assumes keeps: "inv s \<Longrightarrow> inv (snd (process k event s)) \<and> kept s (snd (process k event s))"
    and handles: "inv s \<Longrightarrow> process k event s = (None, s') \<Longrightarrow> handled event s'"
    and stays: "handled event s \<Longrightarrow> kept s s' \<Longrightarrow> handled event s'"
    and kept_trans: "kept s t \<Longrightarrow> kept t u \<Longrightarrow> kept s u"
begin

lemma attempts_keep:
  "inv s \<Longrightarrow> inv (snd (attempt_from process cancelled event todo attempt s)) \<and>
    kept s (snd (attempt_from process cancelled event todo attempt s))"
proof (induction todo arbitrary: attempt s)
  case 0
  then show ?case using keeps [of s attempt event] by (auto split: prod.splits option.splits)
next
  case (Suc todo)
  obtain r t where t: "process attempt event s = (r, t)" by fastforce
  have "inv t \<and> kept s t" using keeps [OF Suc.prems, of attempt event] t by simp
  then show ?case using Suc.IH [of t "Suc attempt"] t kept_trans by (auto split: option.splits)
qed

lemma attempts_handle:
  assumes "inv s" "attempt_from process cancelled event todo attempt s = (Processed, s')"
  shows "handled event s'"
  using assms
proof (induction todo arbitrary: attempt s)
  case 0
  then show ?case using handles [of s attempt event] by (auto split: prod.splits option.splits)
next
  case (Suc todo)
  then show ?case
    using handles [of s attempt event] keeps [of s attempt event]
    by (auto split: prod.splits option.splits if_splits)
qed

text \<open>The fate of a consumed event: handled, or dead-lettered with its last error, or lost because the
  dead letter could not be written or the service was stopping; in every case the message is committed
  unless the commit fails.\<close>

lemma consumed:
  assumes "inv (ec_state c)" and c': "c' = consume_event service process cfg env msg c"
  shows "inv (ec_state c') \<and> kept (ec_state c) (ec_state c')"
    and "handled event (ec_state c) \<Longrightarrow> handled event (ec_state c')"
    and "handled (source_event msg) (ec_state c') \<or>
      (\<exists>err. ec_dlq c' = ec_dlq c @ [event_dead_letter service (ce_now env) (source_event msg) err (er_MaxRetries cfg)]) \<or>
      ce_dlqFails env \<or> (\<exists>k. ce_cancelled env k)"
    and "ec_committed c' = ec_committed c + (if ce_commitFails env then 0 else 1)"
proof -
  let ?e = "source_event msg" and ?n = "nat (er_MaxRetries cfg)"
  obtain out s' where a: "attempt_from process (ce_cancelled env) ?e ?n 0 (ec_state c) = (out, s')" by fastforce
  have st: "ec_state c' = s'"
    unfolding c' consume_event_def processEventWithRetry_def a by (simp add: Let_def split: outcome.splits)
  show k: "inv (ec_state c') \<and> kept (ec_state c) (ec_state c')"
    using attempts_keep [OF assms(1), of "ce_cancelled env" ?e ?n 0] by (simp add: st a)
  show "handled event (ec_state c) \<Longrightarrow> handled event (ec_state c')" using stays k by blast
  show "ec_committed c' = ec_committed c + (if ce_commitFails env then 0 else 1)"
    unfolding c' consume_event_def processEventWithRetry_def a by (simp add: Let_def split: outcome.splits)
  have interrupted: "\<exists>k. cancelled k"
    if "attempt_from process cancelled event todo attempt s = (Interrupted, s')" for cancelled event todo attempt s s'
    using that by (induction todo arbitrary: attempt s) (auto split: prod.splits option.splits if_splits)
  show "handled ?e (ec_state c') \<or>
      (\<exists>err. ec_dlq c' = ec_dlq c @ [event_dead_letter service (ce_now env) ?e err (er_MaxRetries cfg)]) \<or>
      ce_dlqFails env \<or> (\<exists>k. ce_cancelled env k)"
  proof (cases out)
    case Processed
    then show ?thesis using attempts_handle [OF assms(1), of "ce_cancelled env" ?e ?n 0 s'] a st by simp
  next
    case Interrupted
    then show ?thesis using interrupted a by blast
  next
    case (Exhausted err)
    then show ?thesis
      unfolding c' consume_event_def processEventWithRetry_def a by (auto simp: Let_def)
  qed
qed

end

end
