(* ===== verification/SurveillanceRules.thy ===== *)
theory SurveillanceRules
  imports EventConsumer
begin

text \<open>
  The surveillance service's rule engine, \<open>internal/service/rules.go\<close>, and its domain types,
  \<open>internal/domain\<close>. The engine's maps are functions that give the zero value of a missing key, as
  reading a Go map does; the rule configurations are a partial map, where a missing tenant matters.
  Every operation runs under the engine's mutex, so it is one step on the state. The UUIDs an
  evaluation draws and the milliseconds it measures come from its environment.
\<close>

subsection \<open>Domain types\<close>

datatype alert_status = Open | Acknowledged | Resolved | Dismissed

abbreviation "SeverityLow \<equiv> ''LOW''"
abbreviation "SeverityMedium \<equiv> ''MEDIUM''"
abbreviation "SeverityHigh \<equiv> ''HIGH''"
abbreviation "SeverityCritical \<equiv> ''CRITICAL''"

record Alert =
  al_ID :: string
  al_TenantID :: string
  al_AlertType :: string
  al_Severity :: string
  al_EntityType :: string
  al_EntityID :: string
  al_UserID :: "string option"
  al_Symbol :: "string option"
  al_Description :: string
  al_Status :: alert_status
  al_Metadata :: "(string \<times> json) list"
  al_CreatedAt :: time
  al_AcknowledgedAt :: "time option"
  al_ResolvedAt :: "time option"
  al_DismissedAt :: "time option"

record RuleExecution =
  xe_ID :: string
  xe_TenantID :: string
  xe_RuleName :: string
  xe_SourceTopic :: string
  xe_EntityID :: "string option"
  xe_Matched :: bool
  xe_ExecutionTimeMS :: int
  xe_ErrorMessage :: "string option"

abbreviation "RuleLargeOrder \<equiv> ''LargeOrderRule''"
abbreviation "RuleRapidOrderSubmission \<equiv> ''RapidOrderSubmissionRule''"
abbreviation "RuleHighCancelRate \<equiv> ''HighCancelRateRule''"
abbreviation "RuleRiskScoreBreach \<equiv> ''RiskScoreBreachRule''"
abbreviation "RuleAbnormalPriceMovement \<equiv> ''AbnormalPriceMovementRule''"

record RuleConfig =
  ru_ID :: string
  ru_TenantID :: string
  ru_RuleName :: string
  ru_Enabled :: bool
  ru_Severity :: string
  ru_ThresholdNumeric :: "float64 option"
  ru_ThresholdCount :: "int option"
  ru_WindowSeconds :: "int option"
  ru_ThresholdPercent :: "float64 option"
  ru_Config :: "(string \<times> json) list"
  ru_Description :: "string option"
  ru_UpdatedBy :: "string option"
  ru_CreatedAt :: time
  ru_UpdatedAt :: time

definition KnownRuleNames :: "string list" where
  "KnownRuleNames = [RuleLargeOrder, RuleRapidOrderSubmission, RuleHighCancelRate, RuleRiskScoreBreach,
     RuleAbnormalPriceMovement]"

definition IsKnownRule :: "string \<Rightarrow> bool" where
  "IsKnownRule name \<longleftrightarrow> name \<in> set KnownRuleNames"

subsection \<open>Settings\<close>

text \<open>The thresholds the service is started with (\<open>RuleConfig\<close> of the service package).\<close>

record RuleThresholds =
  th_LargeOrderThreshold :: float64
  th_RapidOrderLimit :: int
  th_RapidOrderWindow :: duration
  th_HighCancelLimit :: int
  th_HighCancelWindow :: duration
  th_RiskScoreThreshold :: float64
  th_AbnormalPriceMovementPercent :: float64

record RuleSetting =
  es_Enabled :: bool
  es_Severity :: string
  es_ThresholdNumeric :: float64
  es_ThresholdCount :: int
  es_ThresholdPercent :: float64
  es_Window :: duration

record RuleEngine =
  en_cfg :: RuleThresholds
  en_orderTimestamps :: "string \<Rightarrow> time list"
  en_cancelTimestamps :: "string \<Rightarrow> time list"
  en_lastPrices :: "string \<Rightarrow> float64"
  en_ruleConfigs :: "string \<rightharpoonup> (string \<rightharpoonup> RuleConfig)"

definition NewRuleEngine :: "RuleThresholds \<Rightarrow> RuleEngine" where
  "NewRuleEngine cfg = \<lparr>en_cfg = cfg, en_orderTimestamps = (\<lambda>_. []), en_cancelTimestamps = (\<lambda>_. []),
     en_lastPrices = (\<lambda>_. 0), en_ruleConfigs = Map.empty\<rparr>"

definition eventTenant :: "string \<Rightarrow> string" where
  "eventTenant value = (if value = '''' then ''default-tenant'' else value)"

definition default_rule :: "string \<Rightarrow> string \<Rightarrow> string \<Rightarrow> string \<Rightarrow> string \<Rightarrow> RuleConfig" where
  "default_rule uuid tenantID ruleName severity description =
     \<lparr>ru_ID = uuid, ru_TenantID = eventTenant tenantID, ru_RuleName = ruleName, ru_Enabled = True,
      ru_Severity = severity, ru_ThresholdNumeric = None, ru_ThresholdCount = None, ru_WindowSeconds = None,
      ru_ThresholdPercent = None, ru_Config = [], ru_Description = Some description, ru_UpdatedBy = None,
      ru_CreatedAt = zero_time, ru_UpdatedAt = zero_time\<rparr>"

definition DefaultDomainRuleConfigs :: "(nat \<Rightarrow> string) \<Rightarrow> string \<Rightarrow> RuleThresholds \<Rightarrow> RuleConfig list" where
  "DefaultDomainRuleConfigs uuid tenantID cfg =
     [(default_rule (uuid 0) tenantID RuleLargeOrder SeverityHigh
         ''Triggers when order notional exceeds configured threshold'')
        \<lparr>ru_ThresholdNumeric := Some (th_LargeOrderThreshold cfg)\<rparr>,
      (default_rule (uuid 1) tenantID RuleRapidOrderSubmission SeverityMedium
         ''Triggers when a user submits too many orders within a rolling window'')
        \<lparr>ru_ThresholdCount := Some (th_RapidOrderLimit cfg),
         ru_WindowSeconds := Some (trunc_int (seconds_of (th_RapidOrderWindow cfg)))\<rparr>,
      (default_rule (uuid 2) tenantID RuleHighCancelRate SeverityHigh
         ''Triggers when a user cancels too many orders within a rolling window'')
        \<lparr>ru_ThresholdCount := Some (th_HighCancelLimit cfg),
         ru_WindowSeconds := Some (trunc_int (seconds_of (th_HighCancelWindow cfg)))\<rparr>,
      (default_rule (uuid 3) tenantID RuleRiskScoreBreach SeverityHigh
         ''Triggers when risk score meets or exceeds configured threshold'')
        \<lparr>ru_ThresholdNumeric := Some (th_RiskScoreThreshold cfg)\<rparr>,
      (default_rule (uuid 4) tenantID RuleAbnormalPriceMovement SeverityMedium
         ''Triggers when symbol price moves beyond configured percentage'')
        \<lparr>ru_ThresholdPercent := Some (th_AbnormalPriceMovementPercent cfg)\<rparr>]"

text \<open>\<open>domain.RuleConfig{}\<close>\<close>

definition empty_rule :: RuleConfig where
  "empty_rule = \<lparr>ru_ID = '''', ru_TenantID = '''', ru_RuleName = '''', ru_Enabled = False, ru_Severity = '''',
     ru_ThresholdNumeric = None, ru_ThresholdCount = None, ru_WindowSeconds = None, ru_ThresholdPercent = None,
     ru_Config = [], ru_Description = None, ru_UpdatedBy = None, ru_CreatedAt = zero_time,
     ru_UpdatedAt = zero_time\<rparr>"

definition fallbackDomainRuleConfig :: "(nat \<Rightarrow> string) \<Rightarrow> string \<Rightarrow> string \<Rightarrow> RuleThresholds \<Rightarrow> RuleConfig" where
  "fallbackDomainRuleConfig uuid tenantID ruleName cfg =
     (case find_by ru_RuleName ruleName (DefaultDomainRuleConfigs uuid tenantID cfg) of
        None \<Rightarrow> empty_rule
      | Some config \<Rightarrow> config)"

definition rule_setting :: "string \<Rightarrow> RuleSetting" where
  "rule_setting severity = \<lparr>es_Enabled = True, es_Severity = severity, es_ThresholdNumeric = 0,
     es_ThresholdCount = 0, es_ThresholdPercent = 0, es_Window = 0\<rparr>"

definition fallbackSetting :: "RuleEngine \<Rightarrow> string \<Rightarrow> RuleSetting" where
  "fallbackSetting e ruleName =
     (let cfg = en_cfg e in
      if ruleName = RuleLargeOrder
        then (rule_setting SeverityHigh)\<lparr>es_ThresholdNumeric := th_LargeOrderThreshold cfg\<rparr>
      else if ruleName = RuleRapidOrderSubmission
        then (rule_setting SeverityMedium)\<lparr>es_ThresholdCount := th_RapidOrderLimit cfg,
               es_Window := th_RapidOrderWindow cfg\<rparr>
      else if ruleName = RuleHighCancelRate
        then (rule_setting SeverityHigh)\<lparr>es_ThresholdCount := th_HighCancelLimit cfg,
               es_Window := th_HighCancelWindow cfg\<rparr>
      else if ruleName = RuleRiskScoreBreach
        then (rule_setting SeverityCritical)\<lparr>es_ThresholdNumeric := th_RiskScoreThreshold cfg\<rparr>
      else if ruleName = RuleAbnormalPriceMovement
        then (rule_setting SeverityMedium)\<lparr>es_ThresholdPercent := th_AbnormalPriceMovementPercent cfg\<rparr>
      else rule_setting SeverityMedium)"

text \<open>A configuration overlays the fallback field by field.\<close>

definition overlay_setting :: "RuleConfig \<Rightarrow> RuleSetting \<Rightarrow> RuleSetting" where
  "overlay_setting config setting =
     \<lparr>es_Enabled = ru_Enabled config,
      es_Severity = (if ru_Severity config \<noteq> '''' then ru_Severity config else es_Severity setting),
      es_ThresholdNumeric = coalesce (ru_ThresholdNumeric config) (es_ThresholdNumeric setting),
      es_ThresholdCount = coalesce (ru_ThresholdCount config) (es_ThresholdCount setting),
      es_ThresholdPercent = coalesce (ru_ThresholdPercent config) (es_ThresholdPercent setting),
      es_Window = (case ru_WindowSeconds config of
                     None \<Rightarrow> es_Window setting
                   | Some w \<Rightarrow> if w > 0 then w * Second else es_Window setting)\<rparr>"

definition ruleSetting :: "RuleEngine \<Rightarrow> string \<Rightarrow> string \<Rightarrow> RuleSetting" where
  "ruleSetting e tenantID ruleName =
     (let setting = fallbackSetting e ruleName;
          own = en_ruleConfigs e (eventTenant tenantID);
          configs = (if own = None \<and> eventTenant tenantID \<noteq> ''default-tenant''
                     then en_ruleConfigs e ''default-tenant'' else own)
      in case configs of
           None \<Rightarrow> setting
         | Some byRule \<Rightarrow> (case byRule ruleName of None \<Rightarrow> setting | Some config \<Rightarrow> overlay_setting config setting))"

definition SetTenantRuleConfigs :: "string \<Rightarrow> RuleConfig list \<Rightarrow> RuleEngine \<Rightarrow> RuleEngine" where
  "SetTenantRuleConfigs tenantID configs e =
     e\<lparr>en_ruleConfigs := (en_ruleConfigs e)(eventTenant tenantID \<mapsto>
        map_of (rev (map (\<lambda>config. (ru_RuleName config, config)) configs)))\<rparr>"

subsection \<open>Alerts and executions\<close>

text \<open>What an evaluation draws from outside: UUIDs and measured times.\<close>

record eval_env =
  ev_uuid :: "nat \<Rightarrow> string"
  ev_ms :: "nat \<Rightarrow> int"

definition newAlert :: "eval_env \<Rightarrow> nat \<Rightarrow> string \<Rightarrow> string \<Rightarrow> string \<Rightarrow> string \<Rightarrow> string \<Rightarrow> string \<Rightarrow> string
    \<Rightarrow> (string \<times> json) list \<Rightarrow> time \<Rightarrow> Alert" where
  "newAlert env k alertType severity entityType entityID userID symbol description metadata now =
     \<lparr>al_ID = ev_uuid env (k + 1), al_TenantID = '''', al_AlertType = alertType, al_Severity = severity,
      al_EntityType = entityType, al_EntityID = (if entityID = '''' then ev_uuid env k else entityID),
      al_UserID = some_text userID, al_Symbol = some_text symbol, al_Description = description,
      al_Status = Open, al_Metadata = metadata, al_CreatedAt = now, al_AcknowledgedAt = None,
      al_ResolvedAt = None, al_DismissedAt = None\<rparr>"

definition ruleExecution :: "eval_env \<Rightarrow> nat \<Rightarrow> string \<Rightarrow> string \<Rightarrow> string \<Rightarrow> bool \<Rightarrow> string option \<Rightarrow> RuleExecution" where
  "ruleExecution env k ruleName topic entityID matched err =
     \<lparr>xe_ID = ev_uuid env k, xe_TenantID = '''', xe_RuleName = ruleName, xe_SourceTopic = topic,
      xe_EntityID = some_text entityID, xe_Matched = matched, xe_ExecutionTimeMS = ev_ms env k,
      xe_ErrorMessage = err\<rparr>"

subsection \<open>Rolling windows\<close>

definition kept_times :: "time \<Rightarrow> duration \<Rightarrow> time list \<Rightarrow> time list" where
  "kept_times now window ts = filter (\<lambda>t. t > now - window) ts @ [now]"

definition appendRolling :: "bool \<Rightarrow> string \<Rightarrow> time \<Rightarrow> duration \<Rightarrow> RuleEngine \<Rightarrow> int \<times> RuleEngine" where
  "appendRolling cancel userID now window e =
     (let store = (if cancel then en_cancelTimestamps e else en_orderTimestamps e);
          kept = kept_times now window (store userID);
          store' = store(userID := kept)
      in (int (length kept),
          if cancel then e\<lparr>en_cancelTimestamps := store'\<rparr> else e\<lparr>en_orderTimestamps := store'\<rparr>))"

subsection \<open>The rules\<close>

type_synonym evaluation = "Alert list \<times> RuleExecution list \<times> string list"

definition large_order_rule :: "eval_env \<Rightarrow> string \<Rightarrow> (string \<times> json) list \<Rightarrow> time \<Rightarrow> RuleSetting \<Rightarrow> evaluation" where
  "large_order_rule env topic payload now largeRule =
     (let entityID = firstString payload [''orderId'', ''order_id'', ''id''];
          userID = firstString payload [''userId'', ''user_id''];
          symbol = to_upper (firstString payload [''symbol'']);
          price = firstFloat payload [''price'', ''limitPrice'', ''limit_price'', ''fillPrice'', ''fill_price''];
          quantity = firstFloat payload [''quantity'', ''qty''];
          notional0 = firstFloat payload [''notional'', ''notionalValue'', ''notional_value''];
          notional = (if notional0 = 0 then fl64 (price * quantity) else notional0);
          matched = notional > es_ThresholdNumeric largeRule
      in if \<not> es_Enabled largeRule then ([], [], [RuleLargeOrder])
         else (if matched then [newAlert env 0 RuleLargeOrder (es_Severity largeRule) ''ORDER'' entityID userID symbol
                 (''Order notional '' @ sprintf_f 2 notional @ '' exceeds configured threshold '' @
                  sprintf_f 2 (es_ThresholdNumeric largeRule))
                 [(''notional'', JNum notional), (''threshold'', JNum (es_ThresholdNumeric largeRule)),
                  (''sourceTopic'', JStr topic)] now] else [],
               [ruleExecution env 2 RuleLargeOrder topic entityID matched None], []))"

text \<open>The metadata of the two counting rules.\<close>

definition count_metadata :: "int \<Rightarrow> RuleSetting \<Rightarrow> string \<Rightarrow> (string \<times> json) list" where
  "count_metadata count rule topic =
     [(''count'', JNum (of_int count)), (''limit'', JNum (of_int (es_ThresholdCount rule))),
      (''windowSeconds'', JNum (of_int (trunc_int (seconds_of (es_Window rule))))), (''sourceTopic'', JStr topic)]"

definition rapid_order_rule :: "eval_env \<Rightarrow> string \<Rightarrow> (string \<times> json) list \<Rightarrow> time \<Rightarrow> RuleSetting \<Rightarrow> RuleEngine
    \<Rightarrow> evaluation \<times> RuleEngine" where
  "rapid_order_rule env topic payload now rapidRule e =
     (let userID = firstString payload [''userId'', ''user_id''];
          symbol = to_upper (firstString payload [''symbol''])
      in if userID = '''' then (([], [], []), e)
         else if \<not> es_Enabled rapidRule then (([], [], [RuleRapidOrderSubmission]), e)
         else
           let (count, e') = appendRolling False userID now (es_Window rapidRule) e;
               matched = count > es_ThresholdCount rapidRule
           in ((if matched then [newAlert env 3 RuleRapidOrderSubmission (es_Severity rapidRule) ''USER'' userID userID
                  symbol (''User submitted '' @ sprintf_d count @ '' orders within '' @ duration_text (es_Window rapidRule))
                  (count_metadata count rapidRule topic) now] else [],
                [ruleExecution env 5 RuleRapidOrderSubmission topic userID matched None], []), e'))"

definition evaluateOrder :: "eval_env \<Rightarrow> string \<Rightarrow> SourceEvent \<Rightarrow> time \<Rightarrow> bool \<Rightarrow> RuleEngine \<Rightarrow> evaluation \<times> RuleEngine" where
  "evaluateOrder env tenantID event now includeRapidRule e =
     (let largeRule = ruleSetting e tenantID RuleLargeOrder;
          rapidRule = ruleSetting e tenantID RuleRapidOrderSubmission;
          payload = decodeMap (se_Value event);
          (alerts, executions, skipped) = large_order_rule env (se_Topic event) payload now largeRule;
          ((alerts', executions', skipped'), e') =
            (if includeRapidRule then rapid_order_rule env (se_Topic event) payload now rapidRule e else (([], [], []), e))
      in ((alerts @ alerts', executions @ executions', skipped @ skipped'), e'))"

definition evaluateCancelled :: "eval_env \<Rightarrow> string \<Rightarrow> SourceEvent \<Rightarrow> time \<Rightarrow> RuleEngine \<Rightarrow> evaluation \<times> RuleEngine" where
  "evaluateCancelled env tenantID event now e =
     (let rule = ruleSetting e tenantID RuleHighCancelRate
      in if \<not> es_Enabled rule then (([], [], [RuleHighCancelRate]), e)
         else
           let payload = decodeMap (se_Value event);
               entityID = firstString payload [''orderId'', ''order_id'', ''id''];
               userID = firstString payload [''userId'', ''user_id''];
               symbol = to_upper (firstString payload [''symbol'']);
               (count, e') = (if userID \<noteq> '''' then appendRolling True userID now (es_Window rule) e else (0, e));
               matched = userID \<noteq> '''' \<and> count > es_ThresholdCount rule
           in ((if matched then [newAlert env 0 RuleHighCancelRate (es_Severity rule) ''USER'' userID userID symbol
                  (''User cancelled '' @ sprintf_d count @ '' orders within '' @ duration_text (es_Window rule))
                  (count_metadata count rule (se_Topic event)) now] else [],
                [ruleExecution env 2 RuleHighCancelRate (se_Topic event) entityID matched None], []), e'))"

definition evaluateRiskScore :: "eval_env \<Rightarrow> string \<Rightarrow> SourceEvent \<Rightarrow> time \<Rightarrow> RuleEngine \<Rightarrow> evaluation \<times> RuleEngine" where
  "evaluateRiskScore env tenantID event now e =
     (let rule = ruleSetting e tenantID RuleRiskScoreBreach
      in if \<not> es_Enabled rule then (([], [], [RuleRiskScoreBreach]), e)
         else
           let payload = decodeMap (se_Value event);
               entityID = firstString payload [''portfolioId'', ''portfolio_id'', ''userId'', ''user_id'', ''id''];
               userID = firstString payload [''userId'', ''user_id''];
               score = firstFloat payload [''score'', ''riskScore'', ''risk_score''];
               matched = score \<ge> es_ThresholdNumeric rule
           in ((if matched then [newAlert env 0 RuleRiskScoreBreach (es_Severity rule) ''RISK_SCORE'' entityID userID ''''
                  (''Risk score '' @ sprintf_f 2 score @ '' meets or exceeds threshold '' @
                   sprintf_f 2 (es_ThresholdNumeric rule))
                  [(''score'', JNum score), (''threshold'', JNum (es_ThresholdNumeric rule)),
                   (''sourceTopic'', JStr (se_Topic event))] now] else [],
                [ruleExecution env 2 RuleRiskScoreBreach (se_Topic event) entityID matched None], []), e))"

definition price_change :: "float64 \<Rightarrow> float64 \<Rightarrow> float64" where
  "price_change price lastPrice = fl64 (fl64 (\<bar>fl64 (price - lastPrice)\<bar> / lastPrice) * 100)"

definition evaluateMarketTick :: "eval_env \<Rightarrow> string \<Rightarrow> SourceEvent \<Rightarrow> time \<Rightarrow> RuleEngine \<Rightarrow> evaluation \<times> RuleEngine" where
  "evaluateMarketTick env tenantID event now e =
     (let rule = ruleSetting e tenantID RuleAbnormalPriceMovement
      in if \<not> es_Enabled rule then (([], [], [RuleAbnormalPriceMovement]), e)
         else
           let payload = decodeMap (se_Value event);
               symbol = to_upper (firstString payload [''symbol'']);
               price = firstFloat payload [''price'', ''lastPrice'', ''last_price''];
               metadata = [(''currentPrice'', JNum price), (''thresholdPercent'', JNum (es_ThresholdPercent rule)),
                           (''sourceTopic'', JStr (se_Topic event))];
               lastPrice = en_lastPrices e symbol;
               tracked = symbol \<noteq> '''' \<and> price > 0;
               compared = tracked \<and> lastPrice > 0;
               change = price_change price lastPrice;
               matched = compared \<and> change > es_ThresholdPercent rule
           in ((if matched then [newAlert env 0 RuleAbnormalPriceMovement (es_Severity rule) ''SYMBOL'' symbol '''' symbol
                  (symbol @ '' moved more than '' @ sprintf_f 2 (es_ThresholdPercent rule) @ ''% from the last seen price'')
                  (metadata @ [(''lastPrice'', JNum lastPrice), (''changePercent'', JNum change)]) now] else [],
                [ruleExecution env 2 RuleAbnormalPriceMovement (se_Topic event) symbol matched None], []),
               if tracked then e\<lparr>en_lastPrices := (en_lastPrices e)(symbol := price)\<rparr> else e))"

text \<open>The mode is not looked at.\<close>

datatype evaluation_mode = Live | DryRun

definition EvaluateForTenantWithMode :: "eval_env \<Rightarrow> string \<Rightarrow> SourceEvent \<Rightarrow> time \<Rightarrow> evaluation_mode \<Rightarrow> RuleEngine
    \<Rightarrow> evaluation \<times> RuleEngine" where
  "EvaluateForTenantWithMode env tenantID event now mode e =
     (if se_Topic event = ''order.created'' \<or> se_Topic event = ''order.filled''
        then evaluateOrder env tenantID event now (se_Topic event = ''order.created'') e
      else if se_Topic event = ''order.cancelled'' then evaluateCancelled env tenantID event now e
      else if se_Topic event = ''risk.score.updated'' then evaluateRiskScore env tenantID event now e
      else if se_Topic event = ''market.ticks'' then evaluateMarketTick env tenantID event now e
      else (([], [], []), e))"

definition EvaluateForTenant :: "eval_env \<Rightarrow> string \<Rightarrow> SourceEvent \<Rightarrow> time \<Rightarrow> RuleEngine \<Rightarrow> evaluation \<times> RuleEngine" where
  "EvaluateForTenant env tenantID event now = EvaluateForTenantWithMode env tenantID event now Live"

definition Evaluate_default :: "eval_env \<Rightarrow> SourceEvent \<Rightarrow> time \<Rightarrow> RuleEngine \<Rightarrow> (Alert list \<times> RuleExecution list) \<times> RuleEngine" where
  "Evaluate_default env event now e =
     (let ((alerts, executions, _), e') = EvaluateForTenant env ''default-tenant'' event now e
      in ((alerts, executions), e'))"

end
