(* ===== verification/PgColumns.thy ===== *)
theory PgColumns
  imports GoText "HOL-Library.List_Lexorder" "HOL-Library.Char_ord"
begin

text \<open>
  What PostgreSQL accepts in a column, for the tables of the surveillance, audit and notification
  services: a statement fails on a text that is too long or holds a NUL, on a text that is no UUID and on
  an integer outside INT; \<open>pg_uuid\<close> is what PostgreSQL reads of a UUID text, in the form it prints.
\<close>

type_synonym pg_uuid = "string \<Rightarrow> string option"

definition pg_text :: "nat \<Rightarrow> string \<Rightarrow> bool" where
  "pg_text n s \<longleftrightarrow> length s \<le> n \<and> CHR 0x00 \<notin> set s"

text \<open>JSONB holds no NUL either.\<close>

fun pg_json :: "json \<Rightarrow> bool" where
  "pg_json (JStr s) \<longleftrightarrow> CHR 0x00 \<notin> set s"
| "pg_json (JArr xs) \<longleftrightarrow> list_all pg_json xs"
| "pg_json (JObj ms) \<longleftrightarrow> list_all (\<lambda>(k, v). CHR 0x00 \<notin> set k \<and> pg_json v) ms"
| "pg_json _ \<longleftrightarrow> True"

definition pg_int4 :: "int \<Rightarrow> bool" where
  "pg_int4 n \<longleftrightarrow> - (2 ^ 31) \<le> n \<and> n < 2 ^ 31"

definition opt_all :: "('a \<Rightarrow> bool) \<Rightarrow> 'a option \<Rightarrow> bool" where
  "opt_all P x \<longleftrightarrow> (case x of None \<Rightarrow> True | Some v \<Rightarrow> P v)"

text \<open>A nullable UUID parameter: whether it is valid, and what is stored.\<close>

definition opt_uuid :: "pg_uuid \<Rightarrow> string option \<Rightarrow> string option option" where
  "opt_uuid pg x = (case x of None \<Rightarrow> Some None | Some v \<Rightarrow> map_option Some (pg v))"

text \<open>\<open>SELECT key, COUNT(*) ... GROUP BY key\<close>\<close>

definition scanCounts :: "('r \<Rightarrow> string) \<Rightarrow> 'r list \<Rightarrow> (string \<times> nat) list" where
  "scanCounts key rows = map (\<lambda>k. (k, rows_affected (\<lambda>r. key r = k) rows)) (remdups (map key rows))"

end
