(* ===== verification/SurveillanceStore.thy ===== *)
theory SurveillanceStore
  imports SurveillanceRules PgColumns
begin

text \<open>
  The surveillance tables (\<open>services/surveillance-service/migrations\<close>) and the two repositories over
  them, \<open>internal/repository\<close>. A statement fails on a value that does not fit its column and on a repeated
  key. Connection failures belong to the service's
  store interface.
\<close>

datatype surveillance_error = ANotFound | AInvalidTransition | ADatabase string | AForbidden
  | AInvalidRuleConfig string | AInvalidEvent

subsection \<open>Tables\<close>

record alert_row =
  ar_id :: string
  ar_tenant_id :: "string option"
  ar_alert_type :: string
  ar_severity :: string
  ar_entity_type :: string
  ar_entity_id :: string
  ar_user_id :: "string option"
  ar_symbol :: "string option"
  ar_description :: string
  ar_status :: alert_status
  ar_metadata :: "(string \<times> json) list"
  ar_created_at :: time
  ar_acknowledged_at :: "time option"
  ar_resolved_at :: "time option"
  ar_dismissed_at :: "time option"

record sdb =
  surveillance_alerts :: "alert_row list"
  rule_executions :: "RuleExecution list"
  rule_configs :: "RuleConfig list"

definition alertTenant :: "string \<Rightarrow> string" where
  "alertTenant value = (if trim_space value = '''' then ''default-tenant'' else value)"

definition row_alert_tenant :: "alert_row \<Rightarrow> string" where
  "row_alert_tenant r = coalesce (ar_tenant_id r) ''default-tenant''"

subsection \<open>Alerts\<close>

definition scan_alert :: "alert_row \<Rightarrow> Alert" where
  "scan_alert r =
     \<lparr>al_ID = ar_id r, al_TenantID = row_alert_tenant r, al_AlertType = ar_alert_type r,
      al_Severity = ar_severity r, al_EntityType = ar_entity_type r, al_EntityID = ar_entity_id r,
      al_UserID = ar_user_id r, al_Symbol = ar_symbol r, al_Description = ar_description r,
      al_Status = ar_status r, al_Metadata = ar_metadata r, al_CreatedAt = ar_created_at r,
      al_AcknowledgedAt = ar_acknowledged_at r, al_ResolvedAt = ar_resolved_at r,
      al_DismissedAt = ar_dismissed_at r\<rparr>"

text \<open>The columns of an INSERT for an alert, when every value fits its column.\<close>

definition alert_row_of :: "pg_uuid \<Rightarrow> Alert \<Rightarrow> alert_row option" where
  "alert_row_of pg alert =
     (case (pg (al_ID alert), opt_uuid pg (al_UserID alert)) of
        (Some i, Some user) \<Rightarrow>
          if pg_text 100 (alertTenant (al_TenantID alert)) \<and> pg_text 100 (al_AlertType alert) \<and>
             pg_text 20 (al_Severity alert) \<and> pg_text 50 (al_EntityType alert) \<and> pg_text 100 (al_EntityID alert) \<and>
             opt_all (pg_text 30) (al_Symbol alert) \<and> CHR 0x00 \<notin> set (al_Description alert) \<and>
             pg_json (JObj (al_Metadata alert))
          then Some \<lparr>ar_id = i, ar_tenant_id = Some (alertTenant (al_TenantID alert)),
            ar_alert_type = al_AlertType alert, ar_severity = al_Severity alert,
            ar_entity_type = al_EntityType alert, ar_entity_id = al_EntityID alert, ar_user_id = user,
            ar_symbol = al_Symbol alert, ar_description = al_Description alert, ar_status = al_Status alert,
            ar_metadata = al_Metadata alert, ar_created_at = al_CreatedAt alert, ar_acknowledged_at = None,
            ar_resolved_at = None, ar_dismissed_at = None\<rparr>
          else None
      | _ \<Rightarrow> None)"

definition CreateAlert :: "pg_uuid \<Rightarrow> Alert \<Rightarrow> sdb \<Rightarrow> surveillance_error + (Alert \<times> sdb)" where
  "CreateAlert pg alert d =
     (case alert_row_of pg alert of
        None \<Rightarrow> Inl (ADatabase ''surveillance_alerts'')
      | Some row \<Rightarrow>
          if ar_id row \<in> ar_id ` set (surveillance_alerts d) then Inl (ADatabase ''surveillance_alerts_pkey'')
          else Inr (scan_alert row, d\<lparr>surveillance_alerts := surveillance_alerts d @ [row]\<rparr>))"

text \<open>\<open>metadata->>'sourceTopic'\<close>, empty when it is missing; the rules only write it as a string.\<close>

definition source_topic :: "(string \<times> json) list \<Rightarrow> string" where
  "source_topic metadata = (case member_of metadata ''sourceTopic'' of JStr s \<Rightarrow> s | _ \<Rightarrow> '''')"

definition DuplicateAlertExists :: "Alert \<Rightarrow> sdb \<Rightarrow> bool" where
  "DuplicateAlertExists alert d \<longleftrightarrow>
     (\<exists>r\<in>set (surveillance_alerts d). row_alert_tenant r = alertTenant (al_TenantID alert) \<and>
        ar_alert_type r = al_AlertType alert \<and> ar_entity_id r = al_EntityID alert \<and>
        source_topic (ar_metadata r) = source_topic (al_Metadata alert))"

record AlertFilters =
  fi_TenantID :: string
  fi_Status :: string
  fi_Severity :: string
  fi_AlertType :: string
  fi_UserID :: string
  fi_Symbol :: string
  fi_Limit :: int
  fi_Offset :: int

fun status_text :: "alert_status \<Rightarrow> string" where
  "status_text Open = ''OPEN''"
| "status_text Acknowledged = ''ACKNOWLEDGED''"
| "status_text Resolved = ''RESOLVED''"
| "status_text Dismissed = ''DISMISSED''"

text \<open>A clause \<open>column = value\<close> that an empty value leaves out; NULL equals nothing.\<close>

definition filter_clause :: "string option \<Rightarrow> string \<Rightarrow> bool" where
  "filter_clause column value \<longleftrightarrow> value = '''' \<or> column = Some value"

definition buildAlertFilters :: "AlertFilters \<Rightarrow> alert_row \<Rightarrow> bool" where
  "buildAlertFilters filters r \<longleftrightarrow>
     filter_clause (Some (status_text (ar_status r))) (to_upper (fi_Status filters)) \<and>
     filter_clause (Some (row_alert_tenant r)) (alertTenant (fi_TenantID filters)) \<and>
     filter_clause (Some (ar_severity r)) (to_upper (fi_Severity filters)) \<and>
     filter_clause (Some (ar_alert_type r)) (fi_AlertType filters) \<and>
     filter_clause (ar_user_id r) (fi_UserID filters) \<and>
     filter_clause (ar_symbol r) (to_upper (fi_Symbol filters))"

definition ListAlerts :: "AlertFilters \<Rightarrow> sdb \<Rightarrow> Alert list" where
  "ListAlerts filters d =
     map scan_alert (limit_rows (fi_Limit filters) (drop (nat (fi_Offset filters))
       (sort_key (\<lambda>r. - ar_created_at r) (filter (buildAlertFilters filters) (surveillance_alerts d)))))"

definition own_alert :: "string \<Rightarrow> string \<Rightarrow> alert_row \<Rightarrow> bool" where
  "own_alert tenantID i r \<longleftrightarrow> ar_id r = i \<and> row_alert_tenant r = alertTenant tenantID"

definition GetAlert :: "pg_uuid \<Rightarrow> string \<Rightarrow> string \<Rightarrow> sdb \<Rightarrow> surveillance_error + Alert" where
  "GetAlert pg tenantID i d =
     (case pg i of
        None \<Rightarrow> Inl (ADatabase ''uuid'')
      | Some u \<Rightarrow> (case List.find (own_alert tenantID u) (surveillance_alerts d) of
                    None \<Rightarrow> Inl ANotFound | Some r \<Rightarrow> Inr (scan_alert r)))"

text \<open>The column of the status, and the guard of the UPDATE.\<close>

definition stamp_alert :: "alert_status \<Rightarrow> time \<Rightarrow> alert_row \<Rightarrow> alert_row" where
  "stamp_alert status clock r =
     (case status of
        Open \<Rightarrow> r
      | Acknowledged \<Rightarrow> r\<lparr>ar_status := status, ar_acknowledged_at := Some clock\<rparr>
      | Resolved \<Rightarrow> r\<lparr>ar_status := status, ar_resolved_at := Some clock\<rparr>
      | Dismissed \<Rightarrow> r\<lparr>ar_status := status, ar_dismissed_at := Some clock\<rparr>)"

definition UpdateStatus :: "pg_uuid \<Rightarrow> time \<Rightarrow> string \<Rightarrow> string \<Rightarrow> alert_status \<Rightarrow> sdb
    \<Rightarrow> surveillance_error + (Alert \<times> sdb)" where
  "UpdateStatus pg clock tenantID i status d =
     (if status = Open then Inl AInvalidTransition
      else case pg i of
        None \<Rightarrow> Inl (ADatabase ''uuid'')
      | Some u \<Rightarrow>
          let guarded = (\<lambda>r. own_alert tenantID u r \<and> (status = Acknowledged \<longrightarrow> ar_status r = Open))
          in case List.find guarded (surveillance_alerts d) of
               None \<Rightarrow> if GetAlert pg tenantID i d = Inl ANotFound then Inl ANotFound else Inl AInvalidTransition
             | Some r \<Rightarrow> Inr (scan_alert (stamp_alert status clock r),
                 d\<lparr>surveillance_alerts := upd_where guarded (stamp_alert status clock) (surveillance_alerts d)\<rparr>))"

definition SaveExecution :: "pg_uuid \<Rightarrow> RuleExecution \<Rightarrow> sdb \<Rightarrow> surveillance_error + sdb" where
  "SaveExecution pg x d =
     (case pg (xe_ID x) of
        None \<Rightarrow> Inl (ADatabase ''uuid'')
      | Some u \<Rightarrow>
          if \<not> (pg_text 100 (alertTenant (xe_TenantID x)) \<and> pg_text 100 (xe_RuleName x) \<and>
                 pg_text 100 (xe_SourceTopic x) \<and> opt_all (pg_text 100) (xe_EntityID x))
             then Inl (ADatabase ''surveillance_rule_executions'')
          else if u \<in> xe_ID ` set (rule_executions d) then Inl (ADatabase ''surveillance_rule_executions_pkey'')
          else Inr (d\<lparr>rule_executions := rule_executions d @
                 [x\<lparr>xe_ID := u, xe_TenantID := alertTenant (xe_TenantID x)\<rparr>]\<rparr>))"

record Summary =
  su_OpenAlerts :: nat
  su_AlertsBySeverity :: "(string \<times> nat) list"
  su_AlertsByType :: "(string \<times> nat) list"
  su_CreatedLast24Hours :: nat

definition AlertSummary :: "time \<Rightarrow> string \<Rightarrow> sdb \<Rightarrow> Summary" where
  "AlertSummary clock tenantID d =
     (let own = filter (\<lambda>r. row_alert_tenant r = alertTenant tenantID) (surveillance_alerts d)
      in \<lparr>su_OpenAlerts = rows_affected (\<lambda>r. ar_status r = Open) own,
          su_AlertsBySeverity = scanCounts ar_severity own, su_AlertsByType = scanCounts ar_alert_type own,
          su_CreatedLast24Hours = rows_affected (\<lambda>r. ar_created_at r \<ge> clock - 24 * 60 * Minute) own\<rparr>)"

subsection \<open>Rule configurations\<close>

record UpdateRuleConfigRequest =
  uq_Enabled :: "bool option"
  uq_Severity :: "string option"
  uq_ThresholdNumeric :: "float64 option"
  uq_ThresholdCount :: "int option"
  uq_WindowSeconds :: "int option"
  uq_ThresholdPercent :: "float64 option"
  uq_Config :: "(string \<times> json) list option"
  uq_Description :: "string option"

definition rule_key :: "RuleConfig \<Rightarrow> string \<times> string" where
  "rule_key r = (ru_TenantID r, ru_RuleName r)"

definition ListRuleConfigs :: "string \<Rightarrow> sdb \<Rightarrow> RuleConfig list" where
  "ListRuleConfigs tenantID d =
     sort_key ru_RuleName (filter (\<lambda>r. ru_TenantID r = alertTenant tenantID) (rule_configs d))"

definition getRuleConfigExact :: "string \<Rightarrow> string \<Rightarrow> sdb \<Rightarrow> surveillance_error + RuleConfig" where
  "getRuleConfigExact tenantID ruleName d =
     (case find_by rule_key (alertTenant tenantID, ruleName) (rule_configs d) of
        None \<Rightarrow> Inl ANotFound | Some config \<Rightarrow> Inr config)"

definition GetRuleConfig :: "string \<Rightarrow> string \<Rightarrow> sdb \<Rightarrow> surveillance_error + RuleConfig" where
  "GetRuleConfig tenantID ruleName d =
     (case getRuleConfigExact (alertTenant tenantID) ruleName d of
        Inr config \<Rightarrow> Inr config
      | Inl err \<Rightarrow>
          if err \<noteq> ANotFound \<or> alertTenant tenantID = ''default-tenant'' then Inl err
          else getRuleConfigExact ''default-tenant'' ruleName d)"

text \<open>The row of an INSERT, when every value fits its column.\<close>

definition rule_row_of :: "pg_uuid \<Rightarrow> time \<Rightarrow> RuleConfig \<Rightarrow> RuleConfig option" where
  "rule_row_of pg clock config =
     (case (pg (ru_ID config), opt_uuid pg (ru_UpdatedBy config)) of
        (Some i, Some user) \<Rightarrow>
          if pg_text 100 (alertTenant (ru_TenantID config)) \<and> pg_text 100 (ru_RuleName config) \<and>
             pg_text 20 (ru_Severity config) \<and> opt_all pg_int4 (ru_ThresholdCount config) \<and>
             opt_all pg_int4 (ru_WindowSeconds config) \<and> opt_all (\<lambda>s. CHR 0x00 \<notin> set s) (ru_Description config) \<and>
             pg_json (JObj (ru_Config config))
          then Some (config\<lparr>ru_ID := i, ru_TenantID := alertTenant (ru_TenantID config), ru_UpdatedBy := user,
                 ru_CreatedAt := clock, ru_UpdatedAt := clock\<rparr>)
          else None
      | _ \<Rightarrow> None)"

definition conflict_update :: "time \<Rightarrow> RuleConfig \<Rightarrow> RuleConfig \<Rightarrow> RuleConfig" where
  "conflict_update clock excluded r =
     r\<lparr>ru_Enabled := ru_Enabled excluded, ru_Severity := ru_Severity excluded,
       ru_ThresholdNumeric := ru_ThresholdNumeric excluded, ru_ThresholdCount := ru_ThresholdCount excluded,
       ru_WindowSeconds := ru_WindowSeconds excluded, ru_ThresholdPercent := ru_ThresholdPercent excluded,
       ru_Config := ru_Config excluded, ru_Description := ru_Description excluded,
       ru_UpdatedBy := ru_UpdatedBy excluded, ru_UpdatedAt := clock\<rparr>"

text \<open>\<open>ON CONFLICT (tenant_id, rule_name)\<close> names one of the two unique constraints: a row with another
  key but the same id is an error.\<close>

definition UpsertRuleConfig :: "pg_uuid \<Rightarrow> time \<Rightarrow> string \<Rightarrow> RuleConfig \<Rightarrow> sdb \<Rightarrow> surveillance_error + (RuleConfig \<times> sdb)" where
  "UpsertRuleConfig pg clock uuid config0 d =
     (let config = (if ru_ID config0 = '''' then config0\<lparr>ru_ID := uuid\<rparr> else config0)
      in case rule_row_of pg clock config of
           None \<Rightarrow> Inl (ADatabase ''surveillance_rule_configs'')
         | Some row \<Rightarrow>
             (case find_by rule_key (rule_key row) (rule_configs d) of
                Some old \<Rightarrow> Inr (conflict_update clock row old,
                  d\<lparr>rule_configs := upd_where (\<lambda>r. rule_key r = rule_key row) (conflict_update clock row) (rule_configs d)\<rparr>)
              | None \<Rightarrow>
                  if ru_ID row \<in> ru_ID ` set (rule_configs d) then Inl (ADatabase ''surveillance_rule_configs_pkey'')
                  else Inr (row, d\<lparr>rule_configs := rule_configs d @ [row]\<rparr>)))"

definition or_else :: "'a option \<Rightarrow> 'a option \<Rightarrow> 'a option" where
  "or_else x y = (case x of None \<Rightarrow> y | Some _ \<Rightarrow> x)"

definition UpdateRuleConfig :: "pg_uuid \<Rightarrow> time \<Rightarrow> string \<Rightarrow> string \<Rightarrow> string \<Rightarrow> UpdateRuleConfigRequest \<Rightarrow> string \<Rightarrow> sdb
    \<Rightarrow> surveillance_error + (RuleConfig \<times> sdb)" where
  "UpdateRuleConfig pg clock uuid tenantID ruleName request updatedBy d =
     and_then (GetRuleConfig tenantID ruleName d) (\<lambda>current.
       UpsertRuleConfig pg clock uuid
         (current\<lparr>ru_TenantID := alertTenant tenantID,
            ru_Enabled := coalesce (uq_Enabled request) (ru_Enabled current),
            ru_Severity := (case uq_Severity request of None \<Rightarrow> ru_Severity current | Some s \<Rightarrow> to_upper (trim_space s)),
            ru_ThresholdNumeric := or_else (uq_ThresholdNumeric request) (ru_ThresholdNumeric current),
            ru_ThresholdCount := or_else (uq_ThresholdCount request) (ru_ThresholdCount current),
            ru_WindowSeconds := or_else (uq_WindowSeconds request) (ru_WindowSeconds current),
            ru_ThresholdPercent := or_else (uq_ThresholdPercent request) (ru_ThresholdPercent current),
            ru_Config := coalesce (uq_Config request) (ru_Config current),
            ru_Description := or_else (uq_Description request) (ru_Description current),
            ru_UpdatedBy := (if updatedBy \<noteq> '''' then Some updatedBy else ru_UpdatedBy current)\<rparr>) d)"

definition no_update :: UpdateRuleConfigRequest where
  "no_update = \<lparr>uq_Enabled = None, uq_Severity = None, uq_ThresholdNumeric = None, uq_ThresholdCount = None,
     uq_WindowSeconds = None, uq_ThresholdPercent = None, uq_Config = None, uq_Description = None\<rparr>"

definition SetRuleEnabled :: "pg_uuid \<Rightarrow> time \<Rightarrow> string \<Rightarrow> string \<Rightarrow> string \<Rightarrow> bool \<Rightarrow> string \<Rightarrow> sdb
    \<Rightarrow> surveillance_error + (RuleConfig \<times> sdb)" where
  "SetRuleEnabled pg clock uuid tenantID ruleName enabled updatedBy =
     UpdateRuleConfig pg clock uuid tenantID ruleName (no_update\<lparr>uq_Enabled := Some enabled\<rparr>) updatedBy"

text \<open>\<open>ON CONFLICT (tenant_id, rule_name) DO NOTHING\<close>; each default is a statement of its own, so the
  rows before a failing one stay.\<close>

definition ensure_default :: "pg_uuid \<Rightarrow> time \<Rightarrow> string \<Rightarrow> string \<Rightarrow> RuleConfig \<Rightarrow> sdb \<Rightarrow> surveillance_error + sdb" where
  "ensure_default pg clock uuid tenantID config d =
     (case rule_row_of pg clock (config\<lparr>ru_ID := (if ru_ID config = '''' then uuid else ru_ID config),
             ru_TenantID := alertTenant tenantID, ru_UpdatedBy := None\<rparr>) of
        None \<Rightarrow> Inl (ADatabase ''surveillance_rule_configs'')
      | Some row \<Rightarrow>
          if rule_key row \<in> rule_key ` set (rule_configs d) then Inr d
          else if ru_ID row \<in> ru_ID ` set (rule_configs d) then Inl (ADatabase ''surveillance_rule_configs_pkey'')
          else Inr (d\<lparr>rule_configs := rule_configs d @ [row]\<rparr>))"

fun EnsureDefaultRuleConfigs :: "pg_uuid \<Rightarrow> time \<Rightarrow> (nat \<Rightarrow> string) \<Rightarrow> string \<Rightarrow> RuleConfig list \<Rightarrow> sdb
    \<Rightarrow> surveillance_error option \<times> sdb" where
  "EnsureDefaultRuleConfigs pg clock uuid tenantID [] d = (None, d)"
| "EnsureDefaultRuleConfigs pg clock uuid tenantID (config # defaults) d =
     (case ensure_default pg clock (uuid (length defaults)) tenantID config d of
        Inl err \<Rightarrow> (Some err, d)
      | Inr d' \<Rightarrow> EnsureDefaultRuleConfigs pg clock uuid tenantID defaults d')"

end
