(* ===== verification/SurveillanceService.thy ===== *)
theory SurveillanceService
  imports SurveillanceStore
begin

text \<open>
  \<open>internal/service/surveillance_service.go\<close> and \<open>internal/service/rule_config_service.go\<close>: an event is
  evaluated by the rule engine, its executions and alerts are stored and the alerts published; alerts are
  moved through their states; rule configurations are read with their fallbacks, changed, and reloaded
  into the engine. The two stores are the interfaces \<open>alertStore\<close> and \<open>ruleConfigStore\<close>, records of
  operations on any state; \<open>alert_repository\<close> and \<open>rule_repository\<close> are the SQL repositories behind a
  connection that may be down. Metrics are left out, and so is the trace context the producer adds.
\<close>

subsection \<open>The stores\<close>

record 's alert_store =
  as_SaveExecution :: "RuleExecution \<Rightarrow> 's \<Rightarrow> surveillance_error + 's"
  as_DuplicateAlertExists :: "Alert \<Rightarrow> 's \<Rightarrow> surveillance_error + bool"
  as_CreateAlert :: "Alert \<Rightarrow> 's \<Rightarrow> surveillance_error + (Alert \<times> 's)"
  as_ListAlerts :: "AlertFilters \<Rightarrow> 's \<Rightarrow> surveillance_error + Alert list"
  as_GetAlert :: "string \<Rightarrow> string \<Rightarrow> 's \<Rightarrow> surveillance_error + Alert"
  as_UpdateStatus :: "time \<Rightarrow> string \<Rightarrow> string \<Rightarrow> alert_status \<Rightarrow> 's \<Rightarrow> surveillance_error + (Alert \<times> 's)"
  as_Summary :: "time \<Rightarrow> string \<Rightarrow> 's \<Rightarrow> surveillance_error + Summary"

record 's rule_store =
  rs_ListRuleConfigs :: "string \<Rightarrow> 's \<Rightarrow> surveillance_error + RuleConfig list"
  rs_GetRuleConfig :: "string \<Rightarrow> string \<Rightarrow> 's \<Rightarrow> surveillance_error + RuleConfig"
  rs_UpdateRuleConfig :: "time \<Rightarrow> string \<Rightarrow> string \<Rightarrow> UpdateRuleConfigRequest \<Rightarrow> string \<Rightarrow> 's
    \<Rightarrow> surveillance_error + (RuleConfig \<times> 's)"
  rs_SetRuleEnabled :: "time \<Rightarrow> string \<Rightarrow> string \<Rightarrow> bool \<Rightarrow> string \<Rightarrow> 's \<Rightarrow> surveillance_error + (RuleConfig \<times> 's)"
  rs_EnsureDefaultRuleConfigs :: "time \<Rightarrow> string \<Rightarrow> RuleConfig list \<Rightarrow> 's \<Rightarrow> surveillance_error option \<times> 's"

text \<open>A connection: an operation fails while it is down.\<close>

definition via :: "surveillance_error option \<Rightarrow> (surveillance_error + 'a) \<Rightarrow> surveillance_error + 'a" where
  "via down r = (case down of None \<Rightarrow> r | Some err \<Rightarrow> Inl err)"

definition alert_repository :: "pg_uuid \<Rightarrow> surveillance_error option \<Rightarrow> sdb alert_store" where
  "alert_repository pg down =
     \<lparr>as_SaveExecution = (\<lambda>x d. via down (SaveExecution pg x d)),
      as_DuplicateAlertExists = (\<lambda>a d. via down (Inr (DuplicateAlertExists a d))),
      as_CreateAlert = (\<lambda>a d. via down (CreateAlert pg a d)),
      as_ListAlerts = (\<lambda>f d. via down (Inr (ListAlerts f d))),
      as_GetAlert = (\<lambda>t i d. via down (GetAlert pg t i d)),
      as_UpdateStatus = (\<lambda>clock t i st d. via down (UpdateStatus pg clock t i st d)),
      as_Summary = (\<lambda>clock t d. via down (Inr (AlertSummary clock t d)))\<rparr>"

text \<open>The ids that \<open>UpsertRuleConfig\<close> and \<open>EnsureDefaultRuleConfigs\<close> draw for a row without one are never
  needed, since the rows they get have ids; \<open>uuid\<close> stands for them.\<close>

definition rule_repository :: "pg_uuid \<Rightarrow> (nat \<Rightarrow> string) \<Rightarrow> surveillance_error option \<Rightarrow> sdb rule_store" where
  "rule_repository pg uuid down =
     \<lparr>rs_ListRuleConfigs = (\<lambda>t d. via down (Inr (ListRuleConfigs t d))),
      rs_GetRuleConfig = (\<lambda>t n d. via down (GetRuleConfig t n d)),
      rs_UpdateRuleConfig = (\<lambda>clock t n req by d. via down (UpdateRuleConfig pg clock (uuid 0) t n req by d)),
      rs_SetRuleEnabled = (\<lambda>clock t n en by d. via down (SetRuleEnabled pg clock (uuid 0) t n en by d)),
      rs_EnsureDefaultRuleConfigs = (\<lambda>clock t cs d. case down of
         None \<Rightarrow> EnsureDefaultRuleConfigs pg clock uuid t cs d
       | Some err \<Rightarrow> (if cs = [] then None else Some err, d))\<rparr>"

subsection \<open>Events and state\<close>

record AlertEvent =
  ae_EventID :: string
  ae_EventType :: string
  ae_EventVersion :: string
  ae_TenantID :: string
  ae_AlertID :: string
  ae_AlertType :: string
  ae_Severity :: string
  ae_EntityType :: string
  ae_EntityID :: string
  ae_UserID :: "string option"
  ae_Symbol :: "string option"
  ae_Status :: alert_status
  ae_Metadata :: "(string \<times> json) list"
  ae_OccurredAt :: time
  ae_CorrelationID :: string

record RuleConfigEvent =
  ce_EventID :: string
  ce_EventType :: string
  ce_EventVersion :: string
  ce_TenantID :: string
  ce_CorrelationID :: string
  ce_RuleName :: string
  ce_Enabled :: bool
  ce_Severity :: string
  ce_ThresholdNumeric :: "float64 option"
  ce_ThresholdCount :: "int option"
  ce_WindowSeconds :: "int option"
  ce_ThresholdPercent :: "float64 option"
  ce_UpdatedBy :: "string option"
  ce_UpdatedAt :: time
  ce_Changes :: "(string \<times> json) list"

record surveillance_user =
  us_UserID :: string
  us_TenantID :: string
  us_Roles :: "string list"

text \<open>The service: its store, the engine, and the events the producer has written.\<close>

record 's surveillance =
  sv_store :: 's
  sv_engine :: RuleEngine
  sv_alert_events :: "AlertEvent list"
  sv_rule_events :: "RuleConfigEvent list"

text \<open>What a call meets: the clock, UUIDs, and which of its publications the producer writes (none, when
  there is no producer).\<close>

record service_env =
  vc_now :: time
  vc_uuid :: "nat \<Rightarrow> string"
  vc_publishes :: "nat \<Rightarrow> bool"

definition alert_viewer :: "string list \<Rightarrow> bool" where
  "alert_viewer roles \<longleftrightarrow> list_ex (\<lambda>r. r \<in> {''trading_admin'', ''risk_manager'', ''analyst'', ''viewer''}) roles"

definition alert_manager :: "string list \<Rightarrow> bool" where
  "alert_manager roles \<longleftrightarrow> list_ex (\<lambda>r. r \<in> {''trading_admin'', ''risk_manager''}) roles"

text \<open>The producer sets the version when it is empty; the service never sets one.\<close>

definition alert_event :: "service_env \<Rightarrow> nat \<Rightarrow> string \<Rightarrow> Alert \<Rightarrow> string \<Rightarrow> AlertEvent" where
  "alert_event env k eventType alert corr =
     \<lparr>ae_EventID = vc_uuid env k, ae_EventType = eventType, ae_EventVersion = ''1.0'',
      ae_TenantID = eventTenant (al_TenantID alert), ae_AlertID = al_ID alert, ae_AlertType = al_AlertType alert,
      ae_Severity = al_Severity alert, ae_EntityType = al_EntityType alert, ae_EntityID = al_EntityID alert,
      ae_UserID = al_UserID alert, ae_Symbol = al_Symbol alert, ae_Status = al_Status alert,
      ae_Metadata = al_Metadata alert, ae_OccurredAt = vc_now env, ae_CorrelationID = corr\<rparr>"

definition publishAlertEvent :: "service_env \<Rightarrow> nat \<Rightarrow> string \<Rightarrow> Alert \<Rightarrow> string \<Rightarrow> 's surveillance \<Rightarrow> 's surveillance" where
  "publishAlertEvent env k eventType alert corr s =
     (if vc_publishes env k
      then s\<lparr>sv_alert_events := sv_alert_events s @ [alert_event env k eventType alert corr]\<rparr> else s)"

subsection \<open>Processing an event\<close>

text \<open>The one field of the struct decides; a member of another type is an error and gives the default.\<close>

definition tenantIDFromEvent :: "payload \<Rightarrow> string" where
  "tenantIDFromEvent value =
     (case value of
        Json v \<Rightarrow> (case json_members (Some v) of
            None \<Rightarrow> ''default-tenant''
          | Some raw \<Rightarrow> (case decode_field json_string '''' raw ''tenantId'' of
                None \<Rightarrow> ''default-tenant''
              | Some t \<Rightarrow> if t = '''' then ''default-tenant'' else t))
      | _ \<Rightarrow> ''default-tenant'')"

fun save_executions :: "'s alert_store \<Rightarrow> string \<Rightarrow> RuleExecution list \<Rightarrow> 's surveillance
    \<Rightarrow> surveillance_error option \<times> 's surveillance" where
  "save_executions store tenantID [] s = (None, s)"
| "save_executions store tenantID (x # xs) s =
     (case as_SaveExecution store (x\<lparr>xe_TenantID := tenantID\<rparr>) (sv_store s) of
        Inl err \<Rightarrow> (Some err, s)
      | Inr st \<Rightarrow> save_executions store tenantID xs (s\<lparr>sv_store := st\<rparr>))"

fun create_alerts :: "'s alert_store \<Rightarrow> service_env \<Rightarrow> string \<Rightarrow> string \<Rightarrow> Alert list \<Rightarrow> 's surveillance
    \<Rightarrow> surveillance_error option \<times> 's surveillance" where
  "create_alerts store env tenantID corr [] s = (None, s)"
| "create_alerts store env tenantID corr (alert # alerts) s =
     (let a = alert\<lparr>al_TenantID := tenantID\<rparr>
      in case as_DuplicateAlertExists store a (sv_store s) of
           Inl err \<Rightarrow> (Some err, s)
         | Inr True \<Rightarrow> create_alerts store env tenantID corr alerts s
         | Inr False \<Rightarrow>
             (case as_CreateAlert store a (sv_store s) of
                Inl err \<Rightarrow> (Some err, s)
              | Inr (created, st) \<Rightarrow>
                  create_alerts store env tenantID corr alerts
                    (publishAlertEvent env (length alerts) ''surveillance.alert.created'' created corr
                       (s\<lparr>sv_store := st\<rparr>))))"

definition ProcessEvent :: "'s alert_store \<Rightarrow> eval_env \<Rightarrow> service_env \<Rightarrow> SourceEvent \<Rightarrow> 's surveillance
    \<Rightarrow> surveillance_error option \<times> 's surveillance" where
  "ProcessEvent store ev env event s =
     (if se_Value event = NotJson then (Some AInvalidEvent, s)
      else
        let tenantID = tenantIDFromEvent (se_Value event);
            ((alerts, executions, _), engine) = EvaluateForTenant ev tenantID event (vc_now env) (sv_engine s);
            (failed, s1) = save_executions store tenantID executions (s\<lparr>sv_engine := engine\<rparr>)
        in if failed \<noteq> None then (failed, s1)
           else create_alerts store env tenantID (se_CorrelationID event) alerts s1)"

subsection \<open>Reading and moving alerts\<close>

definition ServiceListAlerts :: "'s alert_store \<Rightarrow> surveillance_user \<Rightarrow> AlertFilters \<Rightarrow> 's surveillance
    \<Rightarrow> surveillance_error + Alert list" where
  "ServiceListAlerts store user filters s =
     (if \<not> alert_viewer (us_Roles user) then Inl AForbidden
      else as_ListAlerts store (filters\<lparr>fi_TenantID := eventTenant (us_TenantID user)\<rparr>) (sv_store s))"

definition ServiceGetAlert :: "'s alert_store \<Rightarrow> surveillance_user \<Rightarrow> string \<Rightarrow> 's surveillance
    \<Rightarrow> surveillance_error + Alert" where
  "ServiceGetAlert store user i s =
     (if \<not> alert_viewer (us_Roles user) then Inl AForbidden
      else as_GetAlert store (eventTenant (us_TenantID user)) i (sv_store s))"

definition ServiceSummary :: "'s alert_store \<Rightarrow> time \<Rightarrow> surveillance_user \<Rightarrow> 's surveillance \<Rightarrow> surveillance_error + Summary" where
  "ServiceSummary store clock user s =
     (if \<not> alert_viewer (us_Roles user) then Inl AForbidden
      else as_Summary store clock (eventTenant (us_TenantID user)) (sv_store s))"

definition alert_transition :: "'s alert_store \<Rightarrow> service_env \<Rightarrow> surveillance_user \<Rightarrow> string \<Rightarrow> alert_status \<Rightarrow> string \<Rightarrow> string
    \<Rightarrow> 's surveillance \<Rightarrow> surveillance_error + (Alert \<times> 's surveillance)" where
  "alert_transition store env user i status eventType corr s =
     (if \<not> alert_manager (us_Roles user) then Inl AForbidden
      else and_then (as_UpdateStatus store (vc_now env) (eventTenant (us_TenantID user)) i status (sv_store s))
        (\<lambda>(alert, st). Inr (alert, publishAlertEvent env 0 eventType alert corr (s\<lparr>sv_store := st\<rparr>))))"

definition Acknowledge :: "'s alert_store \<Rightarrow> service_env \<Rightarrow> surveillance_user \<Rightarrow> string \<Rightarrow> string
    \<Rightarrow> 's surveillance \<Rightarrow> surveillance_error + (Alert \<times> 's surveillance)" where
  "Acknowledge store env user i = alert_transition store env user i Acknowledged ''surveillance.alert.acknowledged''"

definition Resolve :: "'s alert_store \<Rightarrow> service_env \<Rightarrow> surveillance_user \<Rightarrow> string \<Rightarrow> string
    \<Rightarrow> 's surveillance \<Rightarrow> surveillance_error + (Alert \<times> 's surveillance)" where
  "Resolve store env user i = alert_transition store env user i Resolved ''surveillance.alert.resolved''"

definition Dismiss :: "'s alert_store \<Rightarrow> service_env \<Rightarrow> surveillance_user \<Rightarrow> string \<Rightarrow> string
    \<Rightarrow> 's surveillance \<Rightarrow> surveillance_error + (Alert \<times> 's surveillance)" where
  "Dismiss store env user i = alert_transition store env user i Dismissed ''surveillance.alert.dismissed''"

subsection \<open>Rule configurations\<close>

text \<open>Later rows replace earlier ones in \<open>byRule\<close>; the default tenant only fills the gaps.\<close>

definition LoadEffectiveRuleConfigs :: "'s rule_store \<Rightarrow> (nat \<Rightarrow> string) \<Rightarrow> RuleThresholds \<Rightarrow> string \<Rightarrow> 's \<Rightarrow> RuleConfig list" where
  "LoadEffectiveRuleConfigs store uuid fallback tenantID0 st =
     (let tenantID = eventTenant tenantID0
      in case rs_ListRuleConfigs store tenantID st of
           Inl _ \<Rightarrow> DefaultDomainRuleConfigs uuid tenantID fallback
         | Inr configs \<Rightarrow>
             let byRule = map_of (rev (map (\<lambda>c. (ru_RuleName c, c)) configs));
                 filled = (if tenantID = ''default-tenant'' then byRule
                   else case rs_ListRuleConfigs store ''default-tenant'' st of
                          Inl _ \<Rightarrow> byRule
                        | Inr defaults \<Rightarrow>
                            fold (\<lambda>c m. if m (ru_RuleName c) = None then m(ru_RuleName c \<mapsto> c\<lparr>ru_TenantID := tenantID\<rparr>) else m)
                              defaults byRule)
             in map (\<lambda>ruleName. case filled ruleName of
                       Some config \<Rightarrow> config
                     | None \<Rightarrow> fallbackDomainRuleConfig uuid tenantID ruleName fallback) KnownRuleNames)"

definition refreshTenant :: "'s rule_store \<Rightarrow> (nat \<Rightarrow> string) \<Rightarrow> RuleThresholds \<Rightarrow> string \<Rightarrow> 's surveillance \<Rightarrow> 's surveillance" where
  "refreshTenant store uuid fallback tenantID s =
     s\<lparr>sv_engine := SetTenantRuleConfigs (eventTenant tenantID)
         (LoadEffectiveRuleConfigs store uuid fallback tenantID (sv_store s)) (sv_engine s)\<rparr>"

definition EnsureDefaults :: "'s rule_store \<Rightarrow> service_env \<Rightarrow> RuleThresholds \<Rightarrow> string \<Rightarrow> 's surveillance
    \<Rightarrow> surveillance_error option \<times> 's surveillance" where
  "EnsureDefaults store env fallback tenantID s =
     (case rs_EnsureDefaultRuleConfigs store (vc_now env) (eventTenant tenantID)
             (DefaultDomainRuleConfigs (vc_uuid env) (eventTenant tenantID) fallback) (sv_store s) of
        (Some err, st) \<Rightarrow> (Some err, s\<lparr>sv_store := st\<rparr>)
      | (None, st) \<Rightarrow> (None, refreshTenant store (vc_uuid env) fallback tenantID (s\<lparr>sv_store := st\<rparr>)))"

definition ListRules :: "'s rule_store \<Rightarrow> (nat \<Rightarrow> string) \<Rightarrow> RuleThresholds \<Rightarrow> surveillance_user \<Rightarrow> 's surveillance
    \<Rightarrow> surveillance_error + RuleConfig list" where
  "ListRules store uuid fallback user s =
     (if \<not> alert_viewer (us_Roles user) then Inl AForbidden
      else Inr (LoadEffectiveRuleConfigs store uuid fallback (eventTenant (us_TenantID user)) (sv_store s)))"

definition GetRule :: "'s rule_store \<Rightarrow> (nat \<Rightarrow> string) \<Rightarrow> RuleThresholds \<Rightarrow> surveillance_user \<Rightarrow> string \<Rightarrow> 's surveillance
    \<Rightarrow> surveillance_error + RuleConfig" where
  "GetRule store uuid fallback user ruleName s =
     (if \<not> alert_viewer (us_Roles user) then Inl AForbidden
      else if \<not> IsKnownRule ruleName then Inl (AInvalidRuleConfig '''')
      else case rs_GetRuleConfig store (eventTenant (us_TenantID user)) ruleName (sv_store s) of
             Inl ANotFound \<Rightarrow> Inr (fallbackDomainRuleConfig uuid (eventTenant (us_TenantID user)) ruleName fallback)
           | r \<Rightarrow> r)"

definition validSeverity :: "string \<Rightarrow> bool" where
  "validSeverity value \<longleftrightarrow> to_upper (trim_space value) \<in> {SeverityLow, SeverityMedium, SeverityHigh, SeverityCritical}"

definition validateRuleConfigRequest :: "string \<Rightarrow> UpdateRuleConfigRequest \<Rightarrow> surveillance_error option" where
  "validateRuleConfigRequest ruleName request =
     (if \<not> IsKnownRule ruleName then Some (AInvalidRuleConfig ''unknown rule name'')
      else if \<not> opt_all validSeverity (uq_Severity request) then Some (AInvalidRuleConfig ''invalid severity'')
      else if \<not> opt_all (\<lambda>x. x \<ge> 0) (uq_ThresholdNumeric request)
        then Some (AInvalidRuleConfig ''thresholdNumeric must be non-negative'')
      else if \<not> opt_all (\<lambda>x. x \<ge> 0) (uq_ThresholdCount request)
        then Some (AInvalidRuleConfig ''thresholdCount must be non-negative'')
      else if \<not> opt_all (\<lambda>x. x > 0) (uq_WindowSeconds request)
        then Some (AInvalidRuleConfig ''windowSeconds must be positive'')
      else if \<not> opt_all (\<lambda>x. x \<ge> 0) (uq_ThresholdPercent request)
        then Some (AInvalidRuleConfig ''thresholdPercent must be non-negative'')
      else None)"

definition changed_member :: "string \<Rightarrow> ('a \<Rightarrow> json) \<Rightarrow> 'a option \<Rightarrow> (string \<times> json) list" where
  "changed_member key f x = (case x of None \<Rightarrow> [] | Some v \<Rightarrow> [(key, f v)])"

definition changesFromRequest :: "UpdateRuleConfigRequest \<Rightarrow> (string \<times> json) list" where
  "changesFromRequest request =
     changed_member ''enabled'' JBool (uq_Enabled request) @
     changed_member ''severity'' (\<lambda>s. JStr (to_upper (trim_space s))) (uq_Severity request) @
     changed_member ''thresholdNumeric'' JNum (uq_ThresholdNumeric request) @
     changed_member ''thresholdCount'' (\<lambda>n. JNum (of_int n)) (uq_ThresholdCount request) @
     changed_member ''windowSeconds'' (\<lambda>n. JNum (of_int n)) (uq_WindowSeconds request) @
     changed_member ''thresholdPercent'' JNum (uq_ThresholdPercent request) @
     changed_member ''config'' JObj (uq_Config request) @
     changed_member ''description'' JStr (uq_Description request)"

definition publishRuleConfigEvent :: "service_env \<Rightarrow> string \<Rightarrow> RuleConfig \<Rightarrow> string \<Rightarrow> string \<Rightarrow> (string \<times> json) list
    \<Rightarrow> 's surveillance \<Rightarrow> 's surveillance" where
  "publishRuleConfigEvent env eventType config updatedBy corr changes s =
     (if \<not> vc_publishes env 0 then s
      else s\<lparr>sv_rule_events := sv_rule_events s @
        [\<lparr>ce_EventID = vc_uuid env 0, ce_EventType = eventType, ce_EventVersion = ''1.0'',
          ce_TenantID = eventTenant (ru_TenantID config), ce_CorrelationID = corr, ce_RuleName = ru_RuleName config,
          ce_Enabled = ru_Enabled config, ce_Severity = ru_Severity config,
          ce_ThresholdNumeric = ru_ThresholdNumeric config, ce_ThresholdCount = ru_ThresholdCount config,
          ce_WindowSeconds = ru_WindowSeconds config, ce_ThresholdPercent = ru_ThresholdPercent config,
          ce_UpdatedBy = some_text updatedBy, ce_UpdatedAt = vc_now env, ce_Changes = changes\<rparr>]\<rparr>)"

definition UpdateRule :: "'s rule_store \<Rightarrow> service_env \<Rightarrow> RuleThresholds \<Rightarrow> surveillance_user \<Rightarrow> string
    \<Rightarrow> UpdateRuleConfigRequest \<Rightarrow> string \<Rightarrow> 's surveillance \<Rightarrow> surveillance_error + (RuleConfig \<times> 's surveillance)" where
  "UpdateRule store env fallback user ruleName request corr s =
     (if \<not> alert_manager (us_Roles user) then Inl AForbidden
      else case validateRuleConfigRequest ruleName request of
        Some err \<Rightarrow> Inl err
      | None \<Rightarrow>
          and_then (rs_UpdateRuleConfig store (vc_now env) (eventTenant (us_TenantID user)) ruleName request
                      (us_UserID user) (sv_store s)) (\<lambda>(config, st).
            let s1 = refreshTenant store (vc_uuid env) fallback (eventTenant (us_TenantID user)) (s\<lparr>sv_store := st\<rparr>)
            in Inr (config, publishRuleConfigEvent env ''surveillance.rule_config.updated'' config (us_UserID user) corr
                              (changesFromRequest request) s1)))"

definition setEnabled :: "'s rule_store \<Rightarrow> service_env \<Rightarrow> RuleThresholds \<Rightarrow> surveillance_user \<Rightarrow> string \<Rightarrow> bool
    \<Rightarrow> string \<Rightarrow> string \<Rightarrow> 's surveillance \<Rightarrow> surveillance_error + (RuleConfig \<times> 's surveillance)" where
  "setEnabled store env fallback user ruleName enabled eventType corr s =
     (if \<not> alert_manager (us_Roles user) then Inl AForbidden
      else if \<not> IsKnownRule ruleName then Inl (AInvalidRuleConfig '''')
      else
        and_then (rs_SetRuleEnabled store (vc_now env) (eventTenant (us_TenantID user)) ruleName enabled
                    (us_UserID user) (sv_store s)) (\<lambda>(config, st).
          let s1 = refreshTenant store (vc_uuid env) fallback (eventTenant (us_TenantID user)) (s\<lparr>sv_store := st\<rparr>)
          in Inr (config, publishRuleConfigEvent env eventType config (us_UserID user) corr
                            [(''enabled'', JBool enabled)] s1)))"

definition EnableRule :: "'s rule_store \<Rightarrow> service_env \<Rightarrow> RuleThresholds \<Rightarrow> surveillance_user \<Rightarrow> string
    \<Rightarrow> string \<Rightarrow> 's surveillance \<Rightarrow> surveillance_error + (RuleConfig \<times> 's surveillance)" where
  "EnableRule store env fallback user ruleName =
     setEnabled store env fallback user ruleName True ''surveillance.rule_config.enabled''"

definition DisableRule :: "'s rule_store \<Rightarrow> service_env \<Rightarrow> RuleThresholds \<Rightarrow> surveillance_user \<Rightarrow> string
    \<Rightarrow> string \<Rightarrow> 's surveillance \<Rightarrow> surveillance_error + (RuleConfig \<times> 's surveillance)" where
  "DisableRule store env fallback user ruleName =
     setEnabled store env fallback user ruleName False ''surveillance.rule_config.disabled''"

end
