(* ===== verification/RuleSimulation.thy ===== *)
theory RuleSimulation
  imports SurveillanceService
begin

text \<open>
  \<open>internal/simulation\<close> of the surveillance service: a proposed rule configuration is laid over the
  tenant's effective ones and run against a list of past events in a fresh rule engine. The providers of
  the configurations and of the events are functions that may fail; \<open>DemoEventLoader\<close> is the loader the
  service is started with. \<open>rfc3339\<close> is the text of a time in that layout. An \<open>int\<close> conversion of a
  threshold outside the int64 range is outside the model.
\<close>

definition DefaultLookbackMinutes :: int where "DefaultLookbackMinutes = 60"
definition MaxLookbackMinutes :: int where "MaxLookbackMinutes = 1440"
definition MaxSampleMatches :: nat where "MaxSampleMatches = 5"

subsection \<open>Requests and results\<close>

record ProposedRuleConfig =
  pr_Enabled :: "bool option"
  pr_Severity :: "string option"
  pr_Threshold :: "float64 option"
  pr_ThresholdNumeric :: "float64 option"
  pr_ThresholdCount :: "int option"
  pr_WindowSeconds :: "int option"
  pr_ThresholdPercent :: "float64 option"
  pr_Config :: "(string \<times> json) list option"
  pr_Description :: "string option"

record RuleSimulation =
  ri_RuleName :: string
  ri_Config :: ProposedRuleConfig

record RuleSimulationRequest =
  rq_TenantID :: string
  rq_RuleName :: string
  rq_Config :: ProposedRuleConfig
  rq_LookbackMinutes :: "int option"
  rq_DryRun :: "bool option"
  rq_Rules :: "RuleSimulation list"

record SampleMatch =
  sm_Symbol :: string
  sm_ObservedValue :: float64
  sm_Threshold :: float64
  sm_Timestamp :: time
  sm_Reason :: string

record RuleSimulationResult =
  rr_TenantID :: string
  rr_RuleName :: string
  rr_DryRun :: bool
  rr_LookbackMinutes :: int
  rr_MatchedEvents :: nat
  rr_WouldTriggerAlerts :: nat
  rr_SampleMatches :: "SampleMatch list"

record BulkSimulationResponse =
  br_TenantID :: string
  br_DryRun :: bool
  br_LookbackMinutes :: int
  br_Results :: "RuleSimulationResult list"

record RuleSimulationEvent =
  rv_EventID :: string
  rv_EventType :: string
  rv_EventVersion :: string
  rv_TenantID :: string
  rv_CorrelationID :: string
  rv_RuleName :: string
  rv_LookbackMinutes :: int
  rv_DryRun :: bool
  rv_MatchedEvents :: nat
  rv_WouldTriggerAlerts :: nat
  rv_Status :: string
  rv_Error :: string
  rv_OccurredAt :: time

datatype simulation_error = InvalidSimulation string | SimulationFailed string

fun simulation_error_text :: "simulation_error \<Rightarrow> string" where
  "simulation_error_text (InvalidSimulation msg) = ''invalid rule simulation request: '' @ msg"
| "simulation_error_text (SimulationFailed msg) = msg"

subsection \<open>The proposed configuration\<close>

definition count_rule :: "string \<Rightarrow> bool" where
  "count_rule ruleName \<longleftrightarrow> ruleName = RuleRapidOrderSubmission \<or> ruleName = RuleHighCancelRate"

definition toUpdate :: "string \<Rightarrow> ProposedRuleConfig \<Rightarrow> UpdateRuleConfigRequest" where
  "toUpdate ruleName c =
     (let request = \<lparr>uq_Enabled = pr_Enabled c, uq_Severity = pr_Severity c,
            uq_ThresholdNumeric = pr_ThresholdNumeric c, uq_ThresholdCount = pr_ThresholdCount c,
            uq_WindowSeconds = pr_WindowSeconds c, uq_ThresholdPercent = pr_ThresholdPercent c,
            uq_Config = pr_Config c, uq_Description = pr_Description c\<rparr>
      in case pr_Threshold c of
           None \<Rightarrow> request
         | Some t \<Rightarrow>
             if ruleName = RuleLargeOrder \<or> ruleName = RuleRiskScoreBreach
               then request\<lparr>uq_ThresholdNumeric := Some t\<rparr>
             else if ruleName = RuleAbnormalPriceMovement then request\<lparr>uq_ThresholdPercent := Some t\<rparr>
             else if count_rule ruleName then request\<lparr>uq_ThresholdCount := Some (trunc_int t)\<rparr>
             else request)"

text \<open>\<open>math.Round\<close> rounds half away from zero.\<close>

definition validateProposed :: "string \<Rightarrow> ProposedRuleConfig \<Rightarrow> simulation_error option" where
  "validateProposed ruleName config =
     (case pr_Threshold config of
        None \<Rightarrow> None
      | Some t \<Rightarrow>
          if t < 0 then Some (InvalidSimulation ''threshold must be non-negative'')
          else if count_rule ruleName \<and> \<bar>fl64 (t - of_int (rna t))\<bar> > fl64 (1 / 1000000)
            then Some (InvalidSimulation ''threshold must be a whole number for count-based rules'')
          else None)"

definition validateConfig :: "string \<Rightarrow> UpdateRuleConfigRequest \<Rightarrow> simulation_error option" where
  "validateConfig ruleName request =
     (if \<not> IsKnownRule ruleName then Some (InvalidSimulation ''unknown rule name'')
      else if \<not> opt_all validSeverity (uq_Severity request) then Some (InvalidSimulation ''invalid severity'')
      else if \<not> opt_all (\<lambda>x. x \<ge> 0) (uq_ThresholdNumeric request)
        then Some (InvalidSimulation ''thresholdNumeric must be non-negative'')
      else if \<not> opt_all (\<lambda>x. x \<ge> 0) (uq_ThresholdCount request)
        then Some (InvalidSimulation ''thresholdCount must be non-negative'')
      else if \<not> opt_all (\<lambda>x. x > 0) (uq_WindowSeconds request)
        then Some (InvalidSimulation ''windowSeconds must be positive'')
      else if \<not> opt_all (\<lambda>x. x \<ge> 0) (uq_ThresholdPercent request)
        then Some (InvalidSimulation ''thresholdPercent must be non-negative'')
      else None)"

definition overlay :: "UpdateRuleConfigRequest \<Rightarrow> RuleConfig \<Rightarrow> RuleConfig" where
  "overlay update config = config\<lparr>
     ru_Enabled := coalesce (uq_Enabled update) (ru_Enabled config),
     ru_Severity := (case uq_Severity update of None \<Rightarrow> ru_Severity config | Some s \<Rightarrow> to_upper (trim_space s)),
     ru_ThresholdNumeric := or_else (uq_ThresholdNumeric update) (ru_ThresholdNumeric config),
     ru_ThresholdCount := or_else (uq_ThresholdCount update) (ru_ThresholdCount config),
     ru_WindowSeconds := or_else (uq_WindowSeconds update) (ru_WindowSeconds config),
     ru_ThresholdPercent := or_else (uq_ThresholdPercent update) (ru_ThresholdPercent config),
     ru_Config := coalesce (uq_Config update) (ru_Config config),
     ru_Description := or_else (uq_Description update) (ru_Description config)\<rparr>"

definition applyProposedConfig :: "RuleConfig list \<Rightarrow> string \<Rightarrow> ProposedRuleConfig \<Rightarrow> simulation_error + RuleConfig list" where
  "applyProposedConfig current ruleName config =
     (case validateProposed ruleName config of
        Some err \<Rightarrow> Inl err
      | None \<Rightarrow>
          let update = toUpdate ruleName config
          in case validateConfig ruleName update of
               Some err \<Rightarrow> Inl err
             | None \<Rightarrow>
                 if \<not> list_ex (\<lambda>c. ru_RuleName c = ruleName) current
                   then Inl (InvalidSimulation ''unknown rule name'')
                 else Inr (upd_where (\<lambda>c. ru_RuleName c = ruleName) (overlay update) current))"

subsection \<open>Requests\<close>

definition lookbackMinutes :: "int option \<Rightarrow> int" where
  "lookbackMinutes value = coalesce value DefaultLookbackMinutes"

definition validateRequest :: "RuleSimulationRequest \<Rightarrow> string \<Rightarrow> simulation_error option" where
  "validateRequest request ruleName =
     (if trim_space (rq_TenantID request) = '''' then Some (InvalidSimulation ''tenantId is required'')
      else if ruleName = '''' then Some (InvalidSimulation ''ruleName is required'')
      else if rq_DryRun request = Some False
        then Some (InvalidSimulation ''simulation endpoints only support dryRun=true'')
      else let lookback = lookbackMinutes (rq_LookbackMinutes request)
           in if lookback < 1 \<or> lookback > MaxLookbackMinutes
              then Some (InvalidSimulation (''lookbackMinutes must be between 1 and '' @ sprintf_d MaxLookbackMinutes))
              else None)"

definition normalizeRuleName :: "string \<Rightarrow> simulation_error + string" where
  "normalizeRuleName value =
     (let v = to_lower (trim_space value)
      in if v \<in> {to_lower RuleLargeOrder, ''large_order'', ''large-order''} then Inr RuleLargeOrder
         else if v \<in> {to_lower RuleRapidOrderSubmission, ''rapid_order_submission'', ''rapid-order-submission'',
                      ''rapid_order''} then Inr RuleRapidOrderSubmission
         else if v \<in> {to_lower RuleHighCancelRate, ''high_cancel_rate'', ''high-cancel-rate'', ''cancel_rate''}
           then Inr RuleHighCancelRate
         else if v \<in> {to_lower RuleRiskScoreBreach, ''risk_score_breach'', ''risk-score-breach'', ''risk_score''}
           then Inr RuleRiskScoreBreach
         else if v \<in> {to_lower RuleAbnormalPriceMovement, ''abnormal_price_movement'', ''abnormal-price-movement'',
                      ''price_spike'', ''price-spike''} then Inr RuleAbnormalPriceMovement
         else Inl (InvalidSimulation ''unknown rule name''))"

definition topicApplies :: "string \<Rightarrow> string \<Rightarrow> bool" where
  "topicApplies ruleName topic \<longleftrightarrow>
     (if ruleName = RuleLargeOrder then topic = ''order.created'' \<or> topic = ''order.filled''
      else if ruleName = RuleRapidOrderSubmission then topic = ''order.created''
      else if ruleName = RuleHighCancelRate then topic = ''order.cancelled''
      else if ruleName = RuleRiskScoreBreach then topic = ''risk.score.updated''
      else if ruleName = RuleAbnormalPriceMovement then topic = ''market.ticks''
      else False)"

subsection \<open>The run\<close>

fun firstNumber :: "(string \<times> json) list \<Rightarrow> string list \<Rightarrow> float64" where
  "firstNumber values [] = 0"
| "firstNumber values (key # keys) =
     (case member_of values key of JNum q \<Rightarrow> q | _ \<Rightarrow> firstNumber values keys)"

definition sampleFromAlert :: "Alert \<Rightarrow> SampleMatch" where
  "sampleFromAlert alert =
     \<lparr>sm_Symbol = coalesce (al_Symbol alert) '''',
      sm_ObservedValue = firstNumber (al_Metadata alert) [''notional'', ''count'', ''score'', ''changePercent'', ''currentPrice''],
      sm_Threshold = firstNumber (al_Metadata alert) [''threshold'', ''limit'', ''thresholdPercent''],
      sm_Timestamp = al_CreatedAt alert, sm_Reason = al_Description alert\<rparr>"

definition count_result :: "string \<Rightarrow> Alert list \<Rightarrow> RuleExecution list \<Rightarrow> RuleSimulationResult \<Rightarrow> RuleSimulationResult" where
  "count_result ruleName alerts executions result =
     (let own = filter (\<lambda>a. al_AlertType a = ruleName) alerts
      in result\<lparr>rr_MatchedEvents := rr_MatchedEvents result +
                  rows_affected (\<lambda>x. xe_RuleName x = ruleName \<and> xe_Matched x) executions,
                rr_WouldTriggerAlerts := rr_WouldTriggerAlerts result + length own,
                rr_SampleMatches := rr_SampleMatches result @
                  map sampleFromAlert (take (MaxSampleMatches - length (rr_SampleMatches result)) own)\<rparr>)"

text \<open>The loop of \<open>run\<close>: the i-th event is evaluated i seconds after the start.\<close>

fun simulate_events :: "(nat \<Rightarrow> eval_env) \<Rightarrow> string \<Rightarrow> string \<Rightarrow> time \<Rightarrow> nat \<Rightarrow> SourceEvent list
    \<Rightarrow> RuleEngine \<Rightarrow> RuleSimulationResult \<Rightarrow> RuleSimulationResult" where
  "simulate_events ev tenantID ruleName start i [] engine result = result"
| "simulate_events ev tenantID ruleName start i (event # events) engine result =
     (if \<not> topicApplies ruleName (se_Topic event)
      then simulate_events ev tenantID ruleName start (Suc i) events engine result
      else let ((alerts, executions, _), engine') =
                 EvaluateForTenantWithMode (ev i) tenantID event (start + int i * Second) DryRun engine
           in simulate_events ev tenantID ruleName start (Suc i) events engine'
                (count_result ruleName alerts executions result))"

record simulation_service =
  ss_configs :: "string \<Rightarrow> simulation_error + RuleConfig list"
  ss_loader :: "string \<Rightarrow> duration \<Rightarrow> simulation_error + SourceEvent list"
  ss_fallback :: RuleThresholds

record simulation_env =
  sn_now :: time
  sn_eval :: "nat \<Rightarrow> eval_env"
  sn_uuid :: string
  sn_publishes :: "string \<Rightarrow> bool"

definition empty_result :: "string \<Rightarrow> string \<Rightarrow> int \<Rightarrow> RuleSimulationResult" where
  "empty_result tenantID ruleName lookback =
     \<lparr>rr_TenantID = tenantID, rr_RuleName = ruleName, rr_DryRun = True, rr_LookbackMinutes = lookback,
      rr_MatchedEvents = 0, rr_WouldTriggerAlerts = 0, rr_SampleMatches = []\<rparr>"

definition run_simulation :: "simulation_service \<Rightarrow> simulation_env \<Rightarrow> string \<Rightarrow> string \<Rightarrow> ProposedRuleConfig \<Rightarrow> int
    \<Rightarrow> simulation_error + RuleSimulationResult" where
  "run_simulation svc env tenantID ruleName config lookback =
     and_then (ss_configs svc tenantID) (\<lambda>current.
     and_then (applyProposedConfig current ruleName config) (\<lambda>proposed.
     and_then (ss_loader svc tenantID (lookback * Minute)) (\<lambda>events.
       let engine = SetTenantRuleConfigs tenantID proposed (NewRuleEngine (ss_fallback svc))
       in Inr (simulate_events (sn_eval env) tenantID ruleName (sn_now env - lookback * Minute) 0 events engine
                 (empty_result tenantID ruleName lookback)))))"

text \<open>The lifecycle events the service publishes are returned beside the result.\<close>

definition simulation_event :: "simulation_env \<Rightarrow> string \<Rightarrow> string \<Rightarrow> string \<Rightarrow> int \<Rightarrow> nat \<Rightarrow> nat \<Rightarrow> string \<Rightarrow> string \<Rightarrow> string
    \<Rightarrow> RuleSimulationEvent list" where
  "simulation_event env eventType tenantID ruleName lookback matched alerts status errorMessage corr =
     (if \<not> sn_publishes env eventType then []
      else [\<lparr>rv_EventID = sn_uuid env, rv_EventType = eventType, rv_EventVersion = ''1.0'',
             rv_TenantID = (if tenantID = '''' then ''default-tenant'' else tenantID), rv_CorrelationID = corr,
             rv_RuleName = ruleName, rv_LookbackMinutes = lookback, rv_DryRun = True, rv_MatchedEvents = matched,
             rv_WouldTriggerAlerts = alerts, rv_Status = status, rv_Error = errorMessage,
             rv_OccurredAt = sn_now env\<rparr>])"

definition failure_event :: "simulation_env \<Rightarrow> string \<Rightarrow> string \<Rightarrow> int \<Rightarrow> string \<Rightarrow> simulation_error \<Rightarrow> RuleSimulationEvent list" where
  "failure_event env tenantID ruleName lookback corr err =
     simulation_event env ''surveillance.rule_simulation.failed'' tenantID
       (if ruleName = '''' then ''unknown'' else ruleName) lookback 0 0 ''failed'' (simulation_error_text err) corr"

definition Simulate :: "simulation_service \<Rightarrow> simulation_env \<Rightarrow> RuleSimulationRequest \<Rightarrow> string
    \<Rightarrow> (simulation_error + RuleSimulationResult) \<times> RuleSimulationEvent list" where
  "Simulate svc env request corr =
     (let lookback = lookbackMinutes (rq_LookbackMinutes request); tenantID = rq_TenantID request
      in case normalizeRuleName (rq_RuleName request) of
           Inl err \<Rightarrow> (Inl err, failure_event env tenantID (rq_RuleName request) lookback corr err)
         | Inr ruleName \<Rightarrow>
             (case validateRequest request ruleName of
                Some err \<Rightarrow> (Inl err, failure_event env tenantID ruleName lookback corr err)
              | None \<Rightarrow>
                  let requested = simulation_event env ''surveillance.rule_simulation.requested'' tenantID ruleName
                        lookback 0 0 ''requested'' '''' corr
                  in case run_simulation svc env tenantID ruleName (rq_Config request) lookback of
                       Inl err \<Rightarrow> (Inl err, requested @ failure_event env tenantID ruleName lookback corr err)
                     | Inr result \<Rightarrow>
                         (Inr result, requested @
                            simulation_event env ''surveillance.rule_simulation.completed'' tenantID ruleName lookback
                              (rr_MatchedEvents result) (rr_WouldTriggerAlerts result) ''completed'' '''' corr)))"

text \<open>The loop of \<open>SimulateBulk\<close>; \<open>env i\<close> is the environment of the i-th call.\<close>

fun simulate_items :: "simulation_service \<Rightarrow> (nat \<Rightarrow> simulation_env) \<Rightarrow> string \<Rightarrow> int \<Rightarrow> string \<Rightarrow> nat \<Rightarrow> RuleSimulation list
    \<Rightarrow> (simulation_error + RuleSimulationResult list) \<times> RuleSimulationEvent list" where
  "simulate_items svc env tenantID lookback corr i [] = (Inr [], [])"
| "simulate_items svc env tenantID lookback corr i (item # items) =
     (case Simulate svc (env i)
             \<lparr>rq_TenantID = tenantID, rq_RuleName = ri_RuleName item, rq_Config = ri_Config item,
              rq_LookbackMinutes = Some lookback, rq_DryRun = Some True, rq_Rules = []\<rparr> corr of
        (Inl err, published) \<Rightarrow> (Inl err, published)
      | (Inr result, published) \<Rightarrow>
          (case simulate_items svc env tenantID lookback corr (Suc i) items of
             (Inl err, published') \<Rightarrow> (Inl err, published @ published')
           | (Inr results, published') \<Rightarrow> (Inr (result # results), published @ published')))"

definition SimulateBulk :: "simulation_service \<Rightarrow> (nat \<Rightarrow> simulation_env) \<Rightarrow> RuleSimulationRequest \<Rightarrow> string
    \<Rightarrow> (simulation_error + BulkSimulationResponse) \<times> RuleSimulationEvent list" where
  "SimulateBulk svc env request corr =
     (let lookback = lookbackMinutes (rq_LookbackMinutes request);
          items = (if rq_Rules request = [] \<and> trim_space (rq_RuleName request) \<noteq> ''''
                   then [\<lparr>ri_RuleName = rq_RuleName request, ri_Config = rq_Config request\<rparr>] else rq_Rules request)
      in if trim_space (rq_TenantID request) = '''' then (Inl (InvalidSimulation ''tenantId is required''), [])
         else if rq_DryRun request = Some False
           then (Inl (InvalidSimulation ''simulation endpoints only support dryRun=true''), [])
         else if items = [] then (Inl (InvalidSimulation ''at least one rule is required''), [])
         else case simulate_items svc env (rq_TenantID request) lookback corr 0 items of
                (Inl err, published) \<Rightarrow> (Inl err, published)
              | (Inr results, published) \<Rightarrow>
                  (Inr \<lparr>br_TenantID = rq_TenantID request, br_DryRun = True, br_LookbackMinutes = lookback,
                        br_Results = results\<rparr>, published))"

subsection \<open>The demo events\<close>

text \<open>The payload is a map: the order of its members does not matter.\<close>

definition demo_event :: "(time \<Rightarrow> string) \<Rightarrow> string \<Rightarrow> string \<Rightarrow> time \<Rightarrow> (string \<times> json) list \<Rightarrow> SourceEvent" where
  "demo_event rfc3339 topic key ts payload =
     \<lparr>se_Topic = topic, se_Key = key, se_Value = Json (JObj (payload @ [(''occurredAt'', JStr (rfc3339 ts))])),
      se_CorrelationID = ''rule-simulation-demo'', se_TraceParent = ''''\<rparr>"

definition DemoEventLoader :: "(time \<Rightarrow> string) \<Rightarrow> time \<Rightarrow> string \<Rightarrow> duration \<Rightarrow> SourceEvent list" where
  "DemoEventLoader rfc3339 now tenantID lookback =
     (let start = now - lookback;
          large = (\<lambda>key m symbol price quantity notional. demo_event rfc3339 ''order.filled'' key (start + m * Minute)
            [(''tenantId'', JStr tenantID), (''orderId'', JStr key), (''userId'', JStr ''demo-risk-user''),
             (''symbol'', JStr symbol), (''price'', JNum price), (''quantity'', JNum quantity), (''notional'', JNum notional)]);
          score = (\<lambda>key m sc. demo_event rfc3339 ''risk.score.updated'' key (start + m * Minute)
            [(''tenantId'', JStr tenantID), (''portfolioId'', JStr ''portfolio-demo''), (''userId'', JStr ''demo-risk-user''),
             (''score'', JNum sc)]);
          tick = (\<lambda>key m price volume. demo_event rfc3339 ''market.ticks'' key (start + m * Minute)
            [(''tenantId'', JStr tenantID), (''symbol'', JStr ''AAPL''), (''price'', JNum price), (''volume'', JNum volume)]);
          rapid = (\<lambda>i. let key = ''sim-rapid-'' @ sprintf_d (i + 1)
            in demo_event rfc3339 ''order.created'' key (start + (35 + i) * Minute)
            [(''tenantId'', JStr tenantID), (''orderId'', JStr key), (''userId'', JStr ''rapid-demo-user''),
             (''symbol'', JStr ''TSLA''), (''price'', JNum 250), (''quantity'', JNum 10)]);
          cancel = (\<lambda>i. let key = ''sim-cancel-'' @ sprintf_d (i + 1)
            in demo_event rfc3339 ''order.cancelled'' key (start + (45 + i) * Minute)
            [(''tenantId'', JStr tenantID), (''orderId'', JStr key), (''userId'', JStr ''cancel-demo-user''),
             (''symbol'', JStr ''AMD'')])
      in [large ''sim-large-1'' 5 ''AAPL'' (fl64 (2105 / 10)) 200 42100, large ''sim-large-2'' 10 ''MSFT'' 420 400 168000,
          large ''sim-large-3'' 15 ''NVDA'' 950 300 285000, score ''sim-risk-1'' 20 72, score ''sim-risk-2'' 25 86,
          tick ''sim-price-1'' 30 100 1000, tick ''sim-price-2'' 31 (fl64 (1125 / 10)) 2300] @
         map rapid [0, 1, 2, 3, 4, 5, 6] @ map cancel [0, 1, 2, 3, 4])"

end
