(* ===== verification/RuleEngineFacts.thy ===== *)
theory RuleEngineFacts
  imports RuleSimulation
begin

text \<open>
  What the rule engine guarantees: a simulation counts what the live engine would report, and the two
  counting rules are exact sliding windows over the events of a user.
\<close>

subsection \<open>Simulation and the live engine\<close>

text \<open>The reference: every event is evaluated by the live engine, whatever its topic.\<close>

fun live_run :: "(nat \<Rightarrow> eval_env) \<Rightarrow> string \<Rightarrow> time \<Rightarrow> nat \<Rightarrow> SourceEvent list \<Rightarrow> RuleEngine
    \<Rightarrow> (Alert list \<times> RuleExecution list) \<times> RuleEngine" where
  "live_run ev tenantID start i [] e = (([], []), e)"
| "live_run ev tenantID start i (event # events) e =
     (let ((alerts, executions, _), e1) = EvaluateForTenant (ev i) tenantID event (start + int i * Second) e;
          ((alerts', executions'), e2) = live_run ev tenantID start (Suc i) events e1
      in ((alerts @ alerts', executions @ executions'), e2))"

definition own_alerts :: "string \<Rightarrow> Alert list \<Rightarrow> Alert list" where
  "own_alerts ruleName alerts = filter (\<lambda>a. al_AlertType a = ruleName) alerts"

definition own_executions :: "string \<Rightarrow> RuleExecution list \<Rightarrow> RuleExecution list" where
  "own_executions ruleName executions = filter (\<lambda>x. xe_RuleName x = ruleName) executions"

text \<open>Two engines a rule cannot tell apart: the same settings and the same memory of that rule.\<close>

definition same_for :: "string \<Rightarrow> RuleEngine \<Rightarrow> RuleEngine \<Rightarrow> bool" where
  "same_for ruleName e e' \<longleftrightarrow> en_cfg e = en_cfg e' \<and> en_ruleConfigs e = en_ruleConfigs e' \<and>
     (ruleName = RuleRapidOrderSubmission \<longrightarrow> en_orderTimestamps e = en_orderTimestamps e') \<and>
     (ruleName = RuleHighCancelRate \<longrightarrow> en_cancelTimestamps e = en_cancelTimestamps e') \<and>
     (ruleName = RuleAbnormalPriceMovement \<longrightarrow> en_lastPrices e = en_lastPrices e')"

lemma same_for_refl: "same_for ruleName e e"
  by (simp add: same_for_def)

lemma ruleSetting_cong:
  "en_cfg e = en_cfg e' \<Longrightarrow> en_ruleConfigs e = en_ruleConfigs e' \<Longrightarrow> ruleSetting e tenantID = ruleSetting e' tenantID"
  by (rule ext) (simp add: ruleSetting_def fallbackSetting_def Let_def)

lemma newAlert_type [simp]: "al_AlertType (newAlert env k ty sev et ei u sy de me now) = ty"
  by (simp add: newAlert_def)

lemma newAlert_status [simp]: "al_Status (newAlert env k ty sev et ei u sy de me now) = Open"
  by (simp add: newAlert_def)

lemma ruleExecution_name [simp]: "xe_RuleName (ruleExecution env k n topic ei m err) = n"
  by (simp add: ruleExecution_def)

lemma rolling_frame:
  assumes "appendRolling cancel u now w e = (n, e')"
  shows "en_cfg e' = en_cfg e" "en_ruleConfigs e' = en_ruleConfigs e" "en_lastPrices e' = en_lastPrices e"
    "cancel \<Longrightarrow> en_orderTimestamps e' = en_orderTimestamps e"
    "\<not> cancel \<Longrightarrow> en_cancelTimestamps e' = en_cancelTimestamps e"
  using assms by (auto simp: appendRolling_def Let_def)

lemma rolling_cong:
  assumes "if cancel then en_cancelTimestamps e1 = en_cancelTimestamps e2 else en_orderTimestamps e1 = en_orderTimestamps e2"
    "appendRolling cancel u now w e1 = (n1, f1)" "appendRolling cancel u now w e2 = (n2, f2)"
  shows "n1 = n2 \<and> (if cancel then en_cancelTimestamps f1 = en_cancelTimestamps f2
    else en_orderTimestamps f1 = en_orderTimestamps f2)"
  using assms by (auto simp: appendRolling_def Let_def split: if_splits)

lemma own_simps [simp]:
  "own_alerts ruleName [] = []" "own_executions ruleName [] = []"
  "own_alerts ruleName (a # as) = (if al_AlertType a = ruleName then a # own_alerts ruleName as else own_alerts ruleName as)"
  "own_executions ruleName (x # xs) =
    (if xe_RuleName x = ruleName then x # own_executions ruleName xs else own_executions ruleName xs)"
  "own_alerts ruleName (as @ bs) = own_alerts ruleName as @ own_alerts ruleName bs"
  "own_executions ruleName (xs @ ys) = own_executions ruleName xs @ own_executions ruleName ys"
  by (simp_all add: own_alerts_def own_executions_def)

lemma ruleExecution_matched [simp]: "xe_Matched (ruleExecution env k n topic ei m err) = m"
  by (simp add: ruleExecution_def)

declare firstString.simps [simp del]

lemma topics_apply:
  "topicApplies RuleLargeOrder ''order.created''" "topicApplies RuleLargeOrder ''order.filled''"
  "topicApplies RuleRapidOrderSubmission ''order.created''" "topicApplies RuleHighCancelRate ''order.cancelled''"
  "topicApplies RuleRiskScoreBreach ''risk.score.updated''" "topicApplies RuleAbnormalPriceMovement ''market.ticks''"
  by (simp_all add: topicApplies_def)

text \<open>The shape of each rule's result: at most one alert and one execution, both of the rule; alerts are born open.\<close>

definition reports :: "string \<Rightarrow> evaluation \<Rightarrow> bool" where
  "reports ruleName ev \<longleftrightarrow> (case ev of (alerts, executions, skipped) \<Rightarrow>
     (\<forall>a\<in>set alerts. al_AlertType a = ruleName \<and> al_Status a = Open) \<and> (\<forall>x\<in>set executions. xe_RuleName x = ruleName))"

lemma reportsI: "(a \<noteq> [] \<Longrightarrow> al_AlertType (hd a) = ruleName) \<Longrightarrow> (a \<noteq> [] \<Longrightarrow> al_Status (hd a) = Open) \<Longrightarrow> length a \<le> 1 \<Longrightarrow> xe_RuleName x = ruleName \<Longrightarrow>
  reports ruleName (a, [x], k)"
  by (cases a) (simp_all add: reports_def)

lemma reports_none: "reports ruleName ([], [], k)"
  by (simp add: reports_def)

lemma reports_own:
  assumes "reports r (alerts, executions, skipped)" "ruleName \<noteq> r"
  shows "own_alerts ruleName alerts = [] \<and> own_executions ruleName executions = []"
  using assms by (auto simp: reports_def own_alerts_def own_executions_def filter_empty_conv)

lemma large_reports: "reports RuleLargeOrder (large_order_rule env topic payload now r)"
  unfolding large_order_rule_def Let_def
  by (cases "es_Enabled r") (simp_all only: if_True if_False not_True_eq_False not_False_eq_True reports_none,
      rule reportsI, simp_all only: ruleExecution_name newAlert_type newAlert_status list.sel length_Cons list.size split: if_splits, simp_all)

text \<open>The counting rules: when the rule counts the event, the engine is the one with the grown window, and the
  rule fires when the window holds more than the limit; otherwise nothing happens.\<close>

abbreviation "user_of payload \<equiv> firstString payload [''userId'', ''user_id'']"

lemma rapid_silent:
  "user_of payload = '''' \<or> \<not> es_Enabled r \<Longrightarrow>
   \<exists>skipped. rapid_order_rule env topic payload now r e = (([], [], skipped), e)"
  by (auto simp add: rapid_order_rule_def Let_def)

lemma rapid_counts:
  assumes "user_of payload \<noteq> ''''" "es_Enabled r"
    and a: "appendRolling False (user_of payload) now (es_Window r) e = (n, e1)"
  shows "\<exists>alerts x. rapid_order_rule env topic payload now r e = ((alerts, [x], []), e1) \<and>
    reports RuleRapidOrderSubmission (alerts, [x], []) \<and> (alerts \<noteq> [] \<longleftrightarrow> n > es_ThresholdCount r) \<and>
    (xe_Matched x \<longleftrightarrow> n > es_ThresholdCount r)"
  using assms(1,2) unfolding rapid_order_rule_def Let_def a prod.case
  by (auto simp only: if_False if_True not_not de_Morgan_disj ruleExecution_name newAlert_type newAlert_status list.sel length_Cons list.size
      not_True_eq_False ruleExecution_matched intro!: reportsI exI split: if_splits)

lemma cancelled_silent:
  "\<not> es_Enabled (ruleSetting e tenantID RuleHighCancelRate) \<Longrightarrow>
   evaluateCancelled env tenantID event now e = (([], [], [RuleHighCancelRate]), e)"
  unfolding evaluateCancelled_def Let_def by (simp only: if_True not_False_eq_True)

lemma cancelled_nobody:
  assumes "user_of (decodeMap (se_Value event)) = ''''" "es_Enabled (ruleSetting e tenantID RuleHighCancelRate)"
  shows "\<exists>x. evaluateCancelled env tenantID event now e = (([], [x], []), e) \<and> reports RuleHighCancelRate ([], [x], []) \<and>
    \<not> xe_Matched x"
proof -
  let ?x = "ruleExecution env 2 RuleHighCancelRate (se_Topic event)
    (firstString (decodeMap (se_Value event)) [''orderId'', ''order_id'', ''id'']) False None"
  have "evaluateCancelled env tenantID event now e = (([], [?x], []), e)"
    using assms by (simp add: evaluateCancelled_def Let_def)
  moreover have "reports RuleHighCancelRate ([], [?x], [])" by (rule reportsI) simp_all
  ultimately show ?thesis by (metis ruleExecution_matched)
qed

lemma cancelled_counts:
  assumes "user_of (decodeMap (se_Value event)) \<noteq> ''''" "es_Enabled (ruleSetting e tenantID RuleHighCancelRate)"
    and a: "appendRolling True (user_of (decodeMap (se_Value event))) now
      (es_Window (ruleSetting e tenantID RuleHighCancelRate)) e = (n, e1)"
  shows "\<exists>alerts x. evaluateCancelled env tenantID event now e = ((alerts, [x], []), e1) \<and>
    reports RuleHighCancelRate (alerts, [x], []) \<and>
    (alerts \<noteq> [] \<longleftrightarrow> n > es_ThresholdCount (ruleSetting e tenantID RuleHighCancelRate)) \<and>
    (xe_Matched x \<longleftrightarrow> n > es_ThresholdCount (ruleSetting e tenantID RuleHighCancelRate))"
  using assms(1,2) unfolding evaluateCancelled_def Let_def
  by (auto simp only: a prod.case if_False if_True not_not de_Morgan_disj ruleExecution_name newAlert_type newAlert_status list.sel length_Cons list.size
      not_True_eq_False ruleExecution_matched intro!: reportsI exI split: if_splits)

lemma risk_reports: 
  "\<exists>ev. evaluateRiskScore env tenantID event now e = (ev, e) \<and> reports RuleRiskScoreBreach ev"
  unfolding evaluateRiskScore_def Let_def
  by (auto simp only: if_False if_True not_not ruleExecution_name newAlert_type newAlert_status list.sel length_Cons list.size
      intro!: reportsI reports_none exI split: if_splits)

text \<open>The price rule only changes what it remembers of the symbol.\<close>

lemma tick_reports:
  "\<exists>ev lp. evaluateMarketTick env tenantID event now e = (ev, e\<lparr>en_lastPrices := lp\<rparr>) \<and> reports RuleAbnormalPriceMovement ev"
proof (cases "es_Enabled (ruleSetting e tenantID RuleAbnormalPriceMovement)")
  case False
  then have "evaluateMarketTick env tenantID event now e = (([], [], [RuleAbnormalPriceMovement]), e)"
    unfolding evaluateMarketTick_def Let_def by (simp only: if_True not_False_eq_True)
  moreover have "e\<lparr>en_lastPrices := en_lastPrices e\<rparr> = e" by simp
  ultimately show ?thesis using reports_none by metis
next
  case True
  let ?p = "decodeMap (se_Value event)"
  let ?s = "to_upper (firstString ?p [''symbol''])" and ?q = "firstFloat ?p [''price'', ''lastPrice'', ''last_price'']"
  let ?c = "?s \<noteq> '''' \<and> ?q > 0"
  let ?e = "if ?c then e\<lparr>en_lastPrices := (en_lastPrices e)(?s := ?q)\<rparr> else e"
  have "\<exists>ev. evaluateMarketTick env tenantID event now e = (ev, ?e) \<and> reports RuleAbnormalPriceMovement ev"
    unfolding evaluateMarketTick_def Let_def
    by (rule exI, rule conjI, simp only: True not_True_eq_False if_False, rule reportsI)
      (simp_all only: ruleExecution_name newAlert_type newAlert_status list.sel length_Cons list.size split: if_splits, simp_all)
  then obtain ev where ev: "evaluateMarketTick env tenantID event now e = (ev, ?e)" "reports RuleAbnormalPriceMovement ev"
    by blast
  have "\<exists>lp. ?e = e\<lparr>en_lastPrices := lp\<rparr>"
  proof (cases ?c)
    case True
    then have "?e = e\<lparr>en_lastPrices := (en_lastPrices e)(?s := ?q)\<rparr>" by (rule if_P)
    then show ?thesis by blast
  next
    case False
    then have "?e = e" by (rule if_not_P)
    then have "?e = e\<lparr>en_lastPrices := en_lastPrices e\<rparr>" by simp
    then show ?thesis by blast
  qed
  then obtain lp where "?e = e\<lparr>en_lastPrices := lp\<rparr>" by blast
  then show ?thesis using ev by (simp only:) blast
qed

text \<open>What a rule reports and remembers depends on nothing but its settings and its own memory.\<close>

lemma rapid_cong:
  assumes "en_orderTimestamps e1 = en_orderTimestamps e2"
  shows "fst (rapid_order_rule env topic payload now r e1) = fst (rapid_order_rule env topic payload now r e2) \<and>
    en_orderTimestamps (snd (rapid_order_rule env topic payload now r e1)) =
    en_orderTimestamps (snd (rapid_order_rule env topic payload now r e2))"
proof -
  obtain n1 f1 n2 f2 where a: "appendRolling False (user_of payload) now (es_Window r) e1 = (n1, f1)"
    "appendRolling False (user_of payload) now (es_Window r) e2 = (n2, f2)" by fastforce
  have "n1 = n2" "en_orderTimestamps f1 = en_orderTimestamps f2"
    using rolling_cong [OF _ a] assms by simp_all
  then show ?thesis using assms by (simp add: rapid_order_rule_def Let_def a)
qed

lemma cancelled_cong:
  assumes "ruleSetting e1 tenantID = ruleSetting e2 tenantID" "en_cancelTimestamps e1 = en_cancelTimestamps e2"
  shows "fst (evaluateCancelled env tenantID event now e1) = fst (evaluateCancelled env tenantID event now e2) \<and>
    en_cancelTimestamps (snd (evaluateCancelled env tenantID event now e1)) =
    en_cancelTimestamps (snd (evaluateCancelled env tenantID event now e2))"
proof -
  let ?u = "user_of (decodeMap (se_Value event))" and ?w = "es_Window (ruleSetting e2 tenantID RuleHighCancelRate)"
  obtain n1 f1 n2 f2 where a: "appendRolling True ?u now ?w e1 = (n1, f1)" "appendRolling True ?u now ?w e2 = (n2, f2)"
    by fastforce
  have "n1 = n2" "en_cancelTimestamps f1 = en_cancelTimestamps f2"
    using rolling_cong [OF _ a] assms by simp_all
  then show ?thesis using assms by (simp add: evaluateCancelled_def Let_def a)
qed

lemma risk_cong:
  "ruleSetting e1 tenantID = ruleSetting e2 tenantID \<Longrightarrow>
   fst (evaluateRiskScore env tenantID event now e1) = fst (evaluateRiskScore env tenantID event now e2)"
  by (simp add: evaluateRiskScore_def Let_def)

lemma tick_cong:
  assumes "ruleSetting e1 tenantID = ruleSetting e2 tenantID" "en_lastPrices e1 = en_lastPrices e2"
  shows "fst (evaluateMarketTick env tenantID event now e1) = fst (evaluateMarketTick env tenantID event now e2) \<and>
    en_lastPrices (snd (evaluateMarketTick env tenantID event now e1)) =
    en_lastPrices (snd (evaluateMarketTick env tenantID event now e2))"
  using assms by (simp add: evaluateMarketTick_def Let_def)

lemma order_parts:
  "evaluateOrder env tenantID event now rapid e =
    (let (la, lx, lk) = large_order_rule env (se_Topic event) (decodeMap (se_Value event)) now
           (ruleSetting e tenantID RuleLargeOrder);
         ((ra, rx, rk), e') = (if rapid then rapid_order_rule env (se_Topic event) (decodeMap (se_Value event)) now
           (ruleSetting e tenantID RuleRapidOrderSubmission) e else (([], [], []), e))
     in ((la @ ra, lx @ rx, lk @ rk), e'))"
  by (simp add: evaluateOrder_def Let_def)

definition own :: "string \<Rightarrow> evaluation \<Rightarrow> Alert list \<times> RuleExecution list" where
  "own ruleName ev = (own_alerts ruleName (fst ev), own_executions ruleName (fst (snd ev)))"

lemma own_reports: "reports r ev \<Longrightarrow> ruleName \<noteq> r \<Longrightarrow> own ruleName ev = ([], [])"
  by (cases ev) (simp add: own_def reports_own)

lemma rapid_frame:
  assumes "rapid_order_rule env topic payload now r e = (ev, e')"
  shows "reports RuleRapidOrderSubmission ev \<and> same_for RuleHighCancelRate e e' \<and> same_for RuleAbnormalPriceMovement e e'"
proof (cases "user_of payload = '''' \<or> \<not> es_Enabled r")
  case True
  then show ?thesis using rapid_silent [OF True, of env topic now e] assms by (auto simp: reports_none same_for_refl)
next
  case False
  obtain n e1 where a: "appendRolling False (user_of payload) now (es_Window r) e = (n, e1)" by fastforce
  have "user_of payload \<noteq> ''''" "es_Enabled r" using False by simp_all
  from rapid_counts [OF this a, of env topic] show ?thesis
    using assms rolling_frame [OF a] by (auto simp: same_for_def)
qed

lemma cancelled_frame:
  assumes "evaluateCancelled env tenantID event now e = (ev, e')"
  shows "reports RuleHighCancelRate ev \<and> same_for RuleRapidOrderSubmission e e' \<and> same_for RuleAbnormalPriceMovement e e'"
proof -
  let ?r = "ruleSetting e tenantID RuleHighCancelRate" and ?u = "user_of (decodeMap (se_Value event))"
  obtain n e1 where a: "appendRolling True ?u now (es_Window ?r) e = (n, e1)" by fastforce
  consider "\<not> es_Enabled ?r" | "?u = ''''" "es_Enabled ?r" | "?u \<noteq> ''''" "es_Enabled ?r" by blast
  then show ?thesis
  proof cases
    case 1
    then show ?thesis using cancelled_silent [OF 1, of env event now] assms by (auto simp: reports_none same_for_refl)
  next
    case 2
    from cancelled_nobody [OF 2, of env now] show ?thesis using assms by (auto simp: same_for_refl)
  next
    case 3
    from cancelled_counts [OF 3 a, of env] show ?thesis using assms rolling_frame [OF a] by (auto simp: same_for_def)
  qed
qed

lemma tick_frame:
  assumes "evaluateMarketTick env tenantID event now e = (ev, e')"
  shows "reports RuleAbnormalPriceMovement ev \<and> same_for RuleRapidOrderSubmission e e' \<and> same_for RuleHighCancelRate e e'"
  using tick_reports [of env tenantID event now e] assms by (auto simp: same_for_def)

lemma risk_frame:
  assumes "evaluateRiskScore env tenantID event now e = (ev, e')" shows "reports RuleRiskScoreBreach ev \<and> e' = e"
  using risk_reports [of env tenantID event now e] assms by auto

lemma same_forI:
  assumes "same_for r e e'" "r = RuleRapidOrderSubmission \<or> r = RuleHighCancelRate \<or> r = RuleAbnormalPriceMovement"
    "ruleName \<noteq> RuleRapidOrderSubmission" "ruleName \<noteq> RuleHighCancelRate" "ruleName \<noteq> RuleAbnormalPriceMovement"
  shows "same_for ruleName e e'"
  using assms(1,3,4,5) by (simp add: same_for_def)

lemma order_eq:
  assumes "large_order_rule env (se_Topic event) (decodeMap (se_Value event)) now
      (ruleSetting e tenantID RuleLargeOrder) = (la, lx, lk)"
    "rapid_order_rule env (se_Topic event) (decodeMap (se_Value event)) now
      (ruleSetting e tenantID RuleRapidOrderSubmission) e = ((ra, rx, rk), e1)"
  shows "evaluateOrder env tenantID event now True e = ((la @ ra, lx @ rx, lk @ rk), e1)"
    "evaluateOrder env tenantID event now False e = ((la, lx, lk), e)"
  by (simp_all add: order_parts assms)

lemma evaluate_other:
  assumes "\<not> topicApplies ruleName (se_Topic event)"
    and ev: "EvaluateForTenantWithMode env tenantID event now mode e = (ev, e')"
  shows "own ruleName ev = ([], []) \<and> same_for ruleName e e'"
proof -
  have all: "same_for ruleName e e'" if "r = RuleRapidOrderSubmission \<or> r = RuleHighCancelRate \<or> r = RuleAbnormalPriceMovement"
    "same_for r e e'" "ruleName \<in> {RuleRapidOrderSubmission, RuleHighCancelRate, RuleAbnormalPriceMovement} \<Longrightarrow>
      same_for ruleName e e'" for r
    using that same_forI [OF that(2,1)] by blast
  consider (order) "se_Topic event = ''order.created'' \<or> se_Topic event = ''order.filled''"
    | (cancelled) "se_Topic event = ''order.cancelled''" | (risk) "se_Topic event = ''risk.score.updated''"
    | (tick) "se_Topic event = ''market.ticks''"
    | (other) "se_Topic event \<notin> {''order.created'', ''order.filled'', ''order.cancelled'', ''risk.score.updated'', ''market.ticks''}"
    by blast
  then show ?thesis
  proof cases
    case order
    obtain la lx lk where l: "large_order_rule env (se_Topic event) (decodeMap (se_Value event)) now
        (ruleSetting e tenantID RuleLargeOrder) = (la, lx, lk)" by (metis prod_cases3)
    obtain ra rx rk e1 where r: "rapid_order_rule env (se_Topic event) (decodeMap (se_Value event)) now
        (ruleSetting e tenantID RuleRapidOrderSubmission) e = ((ra, rx, rk), e1)" by (metis prod_cases4 prod.exhaust)
    have lr: "reports RuleLargeOrder (la, lx, lk)" using large_reports l by metis
    have neq: "ruleName \<noteq> RuleLargeOrder" using order assms(1) topics_apply by metis
    have ev': "evaluateOrder env tenantID event now (se_Topic event = ''order.created'') e = (ev, e')"
      using ev order by (auto simp: EvaluateForTenantWithMode_def)
    show ?thesis
    proof (cases "se_Topic event = ''order.created''")
      case True
      then have "ruleName \<noteq> RuleRapidOrderSubmission" using assms(1) topics_apply by metis
      then show ?thesis
        using ev' True order_eq(1) [OF l r] rapid_frame [OF r] reports_own [OF lr neq] reports_own [of RuleRapidOrderSubmission ra rx rk]
          all [of RuleHighCancelRate] all [of RuleAbnormalPriceMovement] by (auto simp: own_def)
    next
      case False
      then show ?thesis using ev' order_eq(2) [OF l r] own_reports [OF lr neq] same_for_refl by (simp add: own_def)
    qed
  next
    case cancelled
    then have neq: "ruleName \<noteq> RuleHighCancelRate" using assms(1) topics_apply by metis
    have "evaluateCancelled env tenantID event now e = (ev, e')" using ev cancelled by (simp add: EvaluateForTenantWithMode_def)
    then show ?thesis using cancelled_frame own_reports [OF _ neq] all [of RuleRapidOrderSubmission] neq by blast
  next
    case risk
    then have neq: "ruleName \<noteq> RuleRiskScoreBreach" using assms(1) topics_apply by metis
    have "evaluateRiskScore env tenantID event now e = (ev, e')" using ev risk by (simp add: EvaluateForTenantWithMode_def)
    then show ?thesis using risk_frame own_reports [OF _ neq] same_for_refl by metis
  next
    case tick
    then have neq: "ruleName \<noteq> RuleAbnormalPriceMovement" using assms(1) topics_apply by metis
    have "evaluateMarketTick env tenantID event now e = (ev, e')" using ev tick by (simp add: EvaluateForTenantWithMode_def)
    then show ?thesis using tick_frame own_reports [OF _ neq] all [of RuleRapidOrderSubmission] neq by blast
  next
    case other
    then show ?thesis using ev by (auto simp: EvaluateForTenantWithMode_def same_for_refl own_def)
  qed
qed

lemma same_settings:
  assumes "EvaluateForTenantWithMode env tenantID event now mode e = (ev, e')"
  shows "en_cfg e' = en_cfg e \<and> en_ruleConfigs e' = en_ruleConfigs e"
proof -
  have "\<exists>r. same_for r e e'"
  proof (cases "topicApplies RuleHighCancelRate (se_Topic event)")
    case True
    then have "\<not> topicApplies RuleAbnormalPriceMovement (se_Topic event)" by (auto simp: topicApplies_def)
    then show ?thesis using evaluate_other assms by blast
  next
    case False
    then show ?thesis using evaluate_other assms by blast
  qed
  then show ?thesis by (auto simp: same_for_def)
qed

lemma own_append: "own r (a @ a', x @ x', k @ k') = (own_alerts r a @ own_alerts r a', own_executions r x @ own_executions r x')"
  by (simp add: own_def)

lemma evaluate_same:
  assumes same: "same_for ruleName e1 e2" and applies: "topicApplies ruleName (se_Topic event)"
    and ev1: "EvaluateForTenantWithMode env tenantID event now mode e1 = (v1, f1)"
    and ev2: "EvaluateForTenantWithMode env tenantID event now mode' e2 = (v2, f2)"
  shows "own ruleName v1 = own ruleName v2 \<and> same_for ruleName f1 f2"
proof -
  have set1: "en_cfg f1 = en_cfg e1 \<and> en_ruleConfigs f1 = en_ruleConfigs e1" using same_settings [OF ev1] .
  have set2: "en_cfg f2 = en_cfg e2 \<and> en_ruleConfigs f2 = en_ruleConfigs e2" using same_settings [OF ev2] .
  have sets: "en_cfg f1 = en_cfg f2" "en_ruleConfigs f1 = en_ruleConfigs f2" using set1 set2 same by (auto simp: same_for_def)
  have setting: "ruleSetting e1 tenantID = ruleSetting e2 tenantID"
    using same ruleSetting_cong [of e1 e2 tenantID] by (simp add: same_for_def)
  consider (large) "ruleName = RuleLargeOrder" "se_Topic event = ''order.created'' \<or> se_Topic event = ''order.filled''"
    | (rapid) "ruleName = RuleRapidOrderSubmission" "se_Topic event = ''order.created''"
    | (cancelled) "ruleName = RuleHighCancelRate" "se_Topic event = ''order.cancelled''"
    | (risk) "ruleName = RuleRiskScoreBreach" "se_Topic event = ''risk.score.updated''"
    | (tick) "ruleName = RuleAbnormalPriceMovement" "se_Topic event = ''market.ticks''"
    using applies by (simp add: topicApplies_def split: if_splits)
  then show ?thesis
  proof cases
    case large
    let ?p = "decodeMap (se_Value event)"
    obtain la lx lk where l: "large_order_rule env (se_Topic event) ?p now (ruleSetting e2 tenantID RuleLargeOrder) = (la, lx, lk)"
      by (metis prod_cases3)
    have part: "own ruleName v = (own_alerts ruleName la, own_executions ruleName lx)"
      if v: "EvaluateForTenantWithMode env tenantID event now m e = (v, f)" "ruleSetting e tenantID = ruleSetting e2 tenantID"
      for e v f m
    proof -
      obtain ra rx rk g where r: "rapid_order_rule env (se_Topic event) ?p now
          (ruleSetting e tenantID RuleRapidOrderSubmission) e = ((ra, rx, rk), g)" by (metis prod_cases4 prod.exhaust)
      have "own_alerts ruleName ra = [] \<and> own_executions ruleName rx = []"
        using rapid_frame [OF r] reports_own [of RuleRapidOrderSubmission ra rx rk ruleName] large(1) by simp
      moreover have l': "large_order_rule env (se_Topic event) ?p now (ruleSetting e tenantID RuleLargeOrder) = (la, lx, lk)"
        using l v(2) by simp
      moreover have "v = (la @ ra, lx @ rx, lk @ rk) \<or> v = (la, lx, lk)"
      proof (cases "se_Topic event = ''order.created''")
        case True
        then have "evaluateOrder env tenantID event now True e = (v, f)" using v(1) by (simp add: EvaluateForTenantWithMode_def)
        then show ?thesis using order_eq(1) [OF l' r] by simp
      next
        case False
        then have "evaluateOrder env tenantID event now False e = (v, f)"
          using v(1) large(2) by (simp add: EvaluateForTenantWithMode_def)
        then show ?thesis using order_eq(2) [OF l' r] by simp
      qed
      ultimately show ?thesis by (auto simp: own_def)
    qed
    show ?thesis using part [OF ev1 setting] part [OF ev2] sets large(1) by (simp add: same_for_def)
  next
    case rapid
    let ?p = "decodeMap (se_Value event)" and ?r = "ruleSetting e2 tenantID RuleRapidOrderSubmission"
    obtain la lx lk where l: "large_order_rule env (se_Topic event) ?p now (ruleSetting e2 tenantID RuleLargeOrder) = (la, lx, lk)"
      by (metis prod_cases3)
    obtain ra rx rk g where r: "rapid_order_rule env (se_Topic event) ?p now ?r e1 = ((ra, rx, rk), g)"
      by (metis prod_cases4 prod.exhaust)
    obtain ra' rx' rk' g' where r': "rapid_order_rule env (se_Topic event) ?p now ?r e2 = ((ra', rx', rk'), g')"
      by (metis prod_cases4 prod.exhaust)
    have "(ra, rx, rk) = (ra', rx', rk')" "en_orderTimestamps g = en_orderTimestamps g'"
      using rapid_cong [of e1 e2 env "se_Topic event" ?p now ?r] same rapid(1) r r' by (simp_all add: same_for_def)
    moreover have "v1 = (la @ ra, lx @ rx, lk @ rk) \<and> f1 = g" "v2 = (la @ ra', lx @ rx', lk @ rk') \<and> f2 = g'"
      using ev1 ev2 rapid(2) order_eq(1) [of env event now e1 tenantID la lx lk ra rx rk g] l r setting
        order_eq(1) [of env event now e2 tenantID la lx lk ra' rx' rk' g'] r'
      by (simp_all add: EvaluateForTenantWithMode_def)
    ultimately show ?thesis using sets rapid(1) by (simp add: same_for_def)
  next
    case cancelled
    then show ?thesis
      using ev1 ev2 cancelled_cong [OF setting, of env event now] same sets
      by (simp add: EvaluateForTenantWithMode_def same_for_def)
  next
    case risk
    then show ?thesis
      using ev1 ev2 risk_cong [OF setting, of env event now] sets by (simp add: EvaluateForTenantWithMode_def same_for_def)
  next
    case tick
    then show ?thesis
      using ev1 ev2 tick_cong [OF setting, of env event now] same sets
      by (simp add: EvaluateForTenantWithMode_def same_for_def)
  qed
qed

lemma count_result_append:
  "count_result ruleName (a @ a') (x @ x') result = count_result ruleName a' x' (count_result ruleName a x result)"
  by (simp add: count_result_def Let_def rows_affected_def) (simp add: min_def)

lemma count_result_own:
  "count_result ruleName a x = count_result ruleName (own_alerts ruleName a) (own_executions ruleName x)"
  by (rule ext) (simp add: count_result_def own_alerts_def own_executions_def Let_def rows_affected_def conj_commute
    conj_left_commute)

lemma count_result_none: "count_result ruleName [] [] result = result"
  by (simp add: count_result_def rows_affected_def)

lemma simulate_live:
  assumes "same_for ruleName e1 e2" "live_run ev tenantID start i events e2 = ((alerts, executions), f)"
  shows "simulate_events ev tenantID ruleName start i events e1 result = count_result ruleName alerts executions result"
  using assms
proof (induction events arbitrary: i e1 e2 alerts executions result)
  case Nil
  then show ?case by (simp add: count_result_none)
next
  case (Cons event events)
  let ?t = "start + int i * Second"
  obtain a x k g where v: "EvaluateForTenantWithMode (ev i) tenantID event ?t Live e2 = ((a, x, k), g)" by (metis prod_cases4 prod.exhaust)
  obtain a' x' h where rest0: "live_run ev tenantID start (Suc i) events g = ((a', x'), h)" by (metis prod.exhaust)
  have ax: "alerts = a @ a'" "executions = x @ x'" and rest: "live_run ev tenantID start (Suc i) events g = ((a', x'), f)"
    using Cons.prems(2) v rest0 by (simp_all add: EvaluateForTenant_def)
  show ?case
  proof (cases "topicApplies ruleName (se_Topic event)")
    case True
    obtain b y l g' where w: "EvaluateForTenantWithMode (ev i) tenantID event ?t DryRun e1 = ((b, y, l), g')"
      by (metis prod_cases4 prod.exhaust)
    have "own ruleName (b, y, l) = own ruleName (a, x, k)" "same_for ruleName g' g"
      using evaluate_same [OF Cons.prems(1) True w v] by simp_all
    then show ?thesis
      using Cons.IH [OF _ rest, of g' "count_result ruleName b y result"] True w
        count_result_own [of ruleName b y] count_result_own [of ruleName a x]
      by (simp add: ax count_result_append own_def)
  next
    case False
    have "own ruleName (a, x, k) = ([], [])" "same_for ruleName e2 g" using evaluate_other [OF False v] by simp_all
    moreover have "same_for ruleName e1 g"
      using Cons.prems(1) \<open>same_for ruleName e2 g\<close> by (auto simp: same_for_def)
    ultimately show ?thesis
      using Cons.IH [OF _ rest, of e1 result] False count_result_own [of ruleName a x]
      by (simp add: ax count_result_append own_def count_result_none)
  qed
qed

lemma Simulate_Inr:
  assumes "fst (Simulate svc env request corr) = Inr result"
  obtains ruleName current proposed events
  where "normalizeRuleName (rq_RuleName request) = Inr ruleName" "validateRequest request ruleName = None"
    "ss_configs svc (rq_TenantID request) = Inr current"
    "applyProposedConfig current ruleName (rq_Config request) = Inr proposed"
    "ss_loader svc (rq_TenantID request) (lookbackMinutes (rq_LookbackMinutes request) * Minute) = Inr events"
    "result = simulate_events (sn_eval env) (rq_TenantID request) ruleName
       (sn_now env - lookbackMinutes (rq_LookbackMinutes request) * Minute) 0 events
       (SetTenantRuleConfigs (rq_TenantID request) proposed (NewRuleEngine (ss_fallback svc)))
       (empty_result (rq_TenantID request) ruleName (lookbackMinutes (rq_LookbackMinutes request)))"
  using assms
  by (auto simp: Simulate_def run_simulation_def Let_def and_then_Inr split: sum.splits option.splits)


subsection \<open>Sliding windows\<close>

definition window_rule :: "bool \<Rightarrow> string" where
  "window_rule cancel = (if cancel then RuleHighCancelRate else RuleRapidOrderSubmission)"

definition window_topic :: "bool \<Rightarrow> string" where
  "window_topic cancel = (if cancel then ''order.cancelled'' else ''order.created'')"

definition window_of :: "bool \<Rightarrow> RuleEngine \<Rightarrow> string \<Rightarrow> time list" where
  "window_of cancel e = (if cancel then en_cancelTimestamps e else en_orderTimestamps e)"

definition event_user :: "SourceEvent \<Rightarrow> string" where
  "event_user event = user_of (decodeMap (se_Value event))"

definition counts_for :: "bool \<Rightarrow> RuleEngine \<Rightarrow> string \<Rightarrow> string \<Rightarrow> SourceEvent \<Rightarrow> bool" where
  "counts_for cancel e u tenantID event \<longleftrightarrow> se_Topic event = window_topic cancel \<and> event_user event = u \<and> u \<noteq> '''' \<and>
     es_Enabled (ruleSetting e tenantID (window_rule cancel))"

lemma rolling_window:
  assumes "appendRolling cancel u now w e = (n, e')"
  shows "window_of cancel e' v = (if v = u then kept_times now w (window_of cancel e u) else window_of cancel e v)"
    "n = int (length (window_of cancel e' u))"
  using assms by (auto simp: appendRolling_def window_of_def Let_def)

lemma rolling_window_other:
  "appendRolling (\<not> cancel) u now w e = (n, e') \<Longrightarrow> window_of cancel e' = window_of cancel e"
  by (auto simp: appendRolling_def window_of_def Let_def)

lemma window_untouched:
  assumes "se_Topic event \<noteq> window_topic cancel" "EvaluateForTenant env tenantID event now e = (v, e')"
  shows "window_of cancel e' = window_of cancel e"
proof -
  have "\<not> topicApplies (window_rule cancel) (se_Topic event)"
    using assms(1) by (auto simp: topicApplies_def window_rule_def window_topic_def)
  from evaluate_other [OF this] show ?thesis
    using assms(2) by (fastforce simp: EvaluateForTenant_def same_for_def window_of_def window_rule_def)
qed

text \<open>One evaluation of a counting rule.\<close>

lemma window_step:
  assumes ev: "EvaluateForTenant env tenantID event now e = ((alerts, executions, skipped), e')"
  shows "window_of cancel e' u = (if counts_for cancel e u tenantID event
      then kept_times now (es_Window (ruleSetting e tenantID (window_rule cancel))) (window_of cancel e u)
      else window_of cancel e u) \<and>
    (own_alerts (window_rule cancel) alerts \<noteq> [] \<longleftrightarrow>
      counts_for cancel e (event_user event) tenantID event \<and>
      int (length (window_of cancel e' (event_user event))) > es_ThresholdCount (ruleSetting e tenantID (window_rule cancel)))"
proof (cases "se_Topic event = window_topic cancel")
  case False
  have no: "\<not> topicApplies (window_rule cancel) (se_Topic event)"
    using False by (auto simp: topicApplies_def window_rule_def window_topic_def)
  have "own_alerts (window_rule cancel) alerts = []"
    using evaluate_other [OF no] ev by (fastforce simp: EvaluateForTenant_def own_def)
  then show ?thesis using False window_untouched [OF False ev] by (simp add: counts_for_def)
next
  case topic: True
  show ?thesis
  proof (cases cancel)
    case True
    let ?r = "ruleSetting e tenantID RuleHighCancelRate" and ?u = "user_of (decodeMap (se_Value event))"
    have c: "evaluateCancelled env tenantID event now e = ((alerts, executions, skipped), e')"
      using ev topic True by (simp add: EvaluateForTenant_def EvaluateForTenantWithMode_def window_topic_def)
    obtain n e1 where a: "appendRolling True ?u now (es_Window ?r) e = (n, e1)" by fastforce
    consider "\<not> es_Enabled ?r" | "?u = ''''" "es_Enabled ?r" | "?u \<noteq> ''''" "es_Enabled ?r" by blast
    then show ?thesis
    proof cases
      case 1
      then show ?thesis using cancelled_silent [OF 1, of env event now] c True by (auto simp: counts_for_def window_rule_def)
    next
      case 2
      from cancelled_nobody [OF 2, of env now] show ?thesis
        using c True 2 by (auto simp: counts_for_def window_rule_def event_user_def)
    next
      case 3
      obtain al x where r: "evaluateCancelled env tenantID event now e = ((al, [x], []), e1)"
        "reports RuleHighCancelRate (al, [x], [])" "al \<noteq> [] \<longleftrightarrow> n > es_ThresholdCount ?r"
        using cancelled_counts [OF 3 a, of env] by blast
      have "own_alerts RuleHighCancelRate al = al" using r(2) by (simp add: reports_def own_alerts_def filter_id_conv)
      then show ?thesis
        using c r 3 topic True rolling_window(1) [OF a, of u] rolling_window(2) [OF a] rolling_window(1) [OF a, of ?u]
        by (auto simp: counts_for_def window_rule_def event_user_def)
    qed
  next
    case False
    let ?r = "ruleSetting e tenantID RuleRapidOrderSubmission" and ?p = "decodeMap (se_Value event)"
    obtain la lx lk where l: "large_order_rule env (se_Topic event) ?p now (ruleSetting e tenantID RuleLargeOrder) = (la, lx, lk)"
      by (metis prod_cases3)
    have la: "own_alerts RuleRapidOrderSubmission la = []"
      using large_reports [of env "se_Topic event" ?p now "ruleSetting e tenantID RuleLargeOrder"] l
        reports_own [of RuleLargeOrder la lx lk RuleRapidOrderSubmission] by simp
    have o: "evaluateOrder env tenantID event now True e = ((alerts, executions, skipped), e')"
      using ev topic False by (simp add: EvaluateForTenant_def EvaluateForTenantWithMode_def window_topic_def)
    obtain n e1 where a: "appendRolling False (user_of ?p) now (es_Window ?r) e = (n, e1)" by fastforce
    show ?thesis
    proof (cases "user_of ?p = '''' \<or> \<not> es_Enabled ?r")
      case True
      obtain sk where "rapid_order_rule env (se_Topic event) ?p now ?r e = (([], [], sk), e)"
        using rapid_silent [OF True] by blast
      from order_eq(1) [OF l this] show ?thesis
        using o True False la by (auto simp: counts_for_def window_rule_def event_user_def)
    next
      case counted: False
      have ue: "user_of ?p \<noteq> ''''" "es_Enabled ?r" using counted by simp_all
      obtain al x where r: "rapid_order_rule env (se_Topic event) ?p now ?r e = ((al, [x], []), e1)"
        "reports RuleRapidOrderSubmission (al, [x], [])" "al \<noteq> [] \<longleftrightarrow> n > es_ThresholdCount ?r"
        using rapid_counts [OF ue a, of env "se_Topic event"] by blast
      have "own_alerts RuleRapidOrderSubmission al = al" using r(2) by (simp add: reports_def own_alerts_def filter_id_conv)
      then show ?thesis
        using o order_eq(1) [OF l r(1)] la r(3) ue topic False rolling_window(1) [OF a, of u] rolling_window(2) [OF a] rolling_window(1) [OF a, of "user_of ?p"]
        by (auto simp: counts_for_def window_rule_def event_user_def)
    qed
  qed
qed

text \<open>A history of evaluations: the environment, the tenant, the event, the time.\<close>

type_synonym observation = "eval_env \<times> string \<times> SourceEvent \<times> time"

definition observe1 :: "observation \<Rightarrow> RuleEngine \<Rightarrow> RuleEngine" where
  "observe1 obs e = (case obs of (env, tenantID, event, now) \<Rightarrow> snd (EvaluateForTenant env tenantID event now e))"

definition observe :: "observation list \<Rightarrow> RuleEngine \<Rightarrow> RuleEngine" where
  "observe history = fold observe1 history"

definition seen_at :: "observation \<Rightarrow> time" where
  "seen_at obs = (case obs of (env, tenantID, event, now) \<Rightarrow> now)"

definition seen_counts :: "bool \<Rightarrow> RuleEngine \<Rightarrow> string \<Rightarrow> observation \<Rightarrow> bool" where
  "seen_counts cancel e u obs = (case obs of (env, tenantID, event, now) \<Rightarrow> counts_for cancel e u tenantID event)"

definition seen_window :: "bool \<Rightarrow> RuleEngine \<Rightarrow> observation \<Rightarrow> duration" where
  "seen_window cancel e obs =
     (case obs of (env, tenantID, event, now) \<Rightarrow> es_Window (ruleSetting e tenantID (window_rule cancel)))"

text \<open>The times of the events of a user that a counting rule counts, of any tenant.\<close>

definition counted_times :: "bool \<Rightarrow> RuleEngine \<Rightarrow> observation list \<Rightarrow> string \<Rightarrow> time list" where
  "counted_times cancel e history u = map seen_at (filter (seen_counts cancel e u) history)"

lemma observe_settings: "ruleSetting (observe history e) = ruleSetting e"
proof -
  have "en_cfg (observe history e) = en_cfg e \<and> en_ruleConfigs (observe history e) = en_ruleConfigs e"
  proof (induction history arbitrary: e)
    case Nil
    then show ?case by (simp add: observe_def)
  next
    case (Cons obs history)
    obtain env tenantID event now where obs: "obs = (env, tenantID, event, now)" by (metis prod_cases4)
    obtain v e1 where v: "EvaluateForTenantWithMode env tenantID event now Live e = (v, e1)" by fastforce
    show ?case
      using Cons.IH [of e1] same_settings [OF v] v by (simp add: observe_def observe1_def obs EvaluateForTenant_def)
  qed
  then show ?thesis by (intro ext) (simp add: ruleSetting_def fallbackSetting_def Let_def)
qed

lemma observe_window:
  assumes "sorted (map seen_at history)" "\<And>obs. obs \<in> set history \<Longrightarrow> seen_window cancel e obs = w" "0 < w"
    and "window_of cancel e u = []"
  shows "window_of cancel (observe history e) u =
    filter (\<lambda>s. s > List.last (counted_times cancel e history u) - w) (counted_times cancel e history u)"
  using assms(1,2)
proof (induction history rule: rev_induct)
  case Nil
  then show ?case using assms(4) by (simp add: observe_def counted_times_def)
next
  case (snoc obs history)
  let ?T = "counted_times cancel e history u" and ?e = "observe history e"
  obtain env tenantID event now where obs: "obs = (env, tenantID, event, now)" by (metis prod_cases4)
  obtain al x k e1 where v: "EvaluateForTenant env tenantID event now ?e = ((al, x, k), e1)" by (metis prod_cases4 prod.exhaust)
  have e1: "observe (history @ [obs]) e = e1" by (simp add: observe_def observe1_def obs v [unfolded observe_def])
  have IH: "window_of cancel ?e u = filter (\<lambda>s. s > List.last ?T - w) ?T"
    using snoc.IH snoc.prems by (simp add: sorted_append)
  have w: "es_Window (ruleSetting e tenantID (window_rule cancel)) = w"
    using snoc.prems(2) [of obs] by (simp add: seen_window_def obs)
  have late: "s \<le> now" if "s \<in> set ?T" for s
    using that snoc.prems(1) by (auto simp: counted_times_def sorted_append seen_at_def obs)
  have same: "counts_for cancel ?e u tenantID event = counts_for cancel e u tenantID event"
    by (simp add: counts_for_def observe_settings)
  show ?case
  proof (cases "counts_for cancel e u tenantID event")
    case True
    have T: "counted_times cancel e (history @ [obs]) u = ?T @ [now]"
      using True by (simp add: counted_times_def seen_counts_def seen_at_def obs)
    have "window_of cancel e1 u = kept_times now w (window_of cancel ?e u)"
      using window_step [OF v, of cancel u] True same by (simp add: observe_settings w)
    moreover have "s > List.last ?T - w" if "s \<in> set ?T" "s > now - w" for s
    proof -
      have "List.last ?T \<in> set ?T" using that(1) by (metis last_in_set list.set_cases list.distinct(1))
      then show ?thesis using late [of "List.last ?T"] that(2) by linarith
    qed
    ultimately show ?thesis
      unfolding e1 T by (auto simp: kept_times_def IH assms(3) intro!: filter_cong)
  next
    case False
    then have "counted_times cancel e (history @ [obs]) u = ?T"
      by (simp add: counted_times_def seen_counts_def obs)
    then show ?thesis using window_step [OF v, of cancel u] False same IH by (simp add: e1)
  qed
qed

text \<open>C20: the two counting rules are exact sliding windows. On an engine that starts with empty windows and
  sees events in the order of their times, with one window length for the tenants, an order (or a
  cancellation) of a user raises an alert exactly when the user's counted events of the last window, this
  one included and of whatever tenant, are more than the limit.\<close>

theorem counting_rules_are_sliding_windows:
  assumes "sorted (map seen_at (history @ [(env, tenantID, event, now)]))"
    and "\<And>obs. obs \<in> set (history @ [(env, tenantID, event, now)]) \<Longrightarrow> seen_window cancel e obs = w" "0 < w"
    and "window_of cancel e (event_user event) = []"
    and "EvaluateForTenant env tenantID event now (observe history e) = ((alerts, executions, skipped), e')"
  shows "own_alerts (window_rule cancel) alerts \<noteq> [] \<longleftrightarrow>
    counts_for cancel e (event_user event) tenantID event \<and>
    int (length (filter (\<lambda>s. s > now - w) (counted_times cancel e history (event_user event)))) + 1 >
      es_ThresholdCount (ruleSetting e tenantID (window_rule cancel))"
proof -
  let ?u = "event_user event" and ?obs = "(env, tenantID, event, now)" and ?r = "ruleSetting e tenantID (window_rule cancel)"
  have "counts_for cancel (observe history e) ?u tenantID event = counts_for cancel e ?u tenantID event"
    by (simp add: counts_for_def observe_settings)
  then have fired: "own_alerts (window_rule cancel) alerts \<noteq> [] \<longleftrightarrow>
      counts_for cancel e ?u tenantID event \<and> int (length (window_of cancel e' ?u)) > es_ThresholdCount ?r"
    using window_step [OF assms(5), of cancel ?u] by (simp add: observe_settings)
  have "int (length (window_of cancel e' ?u)) = int (length (filter (\<lambda>s. s > now - w) (counted_times cancel e history ?u))) + 1"
    if counts: "counts_for cancel e ?u tenantID event"
  proof -
    have "observe (history @ [?obs]) e = e'" by (simp add: observe_def observe1_def assms(5) [unfolded observe_def])
    then have win: "window_of cancel e' ?u = filter (\<lambda>s. s > List.last (counted_times cancel e (history @ [?obs]) ?u) - w)
        (counted_times cancel e (history @ [?obs]) ?u)"
      using observe_window [OF assms(1,2,3,4)] by simp
    have T: "counted_times cancel e (history @ [?obs]) ?u = counted_times cancel e history ?u @ [now]"
      using counts by (simp add: counted_times_def seen_counts_def seen_at_def)
    show ?thesis unfolding win T using assms(3) by simp
  qed
  then show ?thesis using fired by auto
qed

subsection \<open>Examples\<close>

definition ex_thresholds :: RuleThresholds where
  "ex_thresholds = \<lparr>th_LargeOrderThreshold = 100000, th_RapidOrderLimit = 5, th_RapidOrderWindow = 60 * Second,
     th_HighCancelLimit = 3, th_HighCancelWindow = 300 * Second, th_RiskScoreThreshold = 80,
     th_AbnormalPriceMovementPercent = 10\<rparr>"

definition no_proposal :: ProposedRuleConfig where
  "no_proposal = \<lparr>pr_Enabled = None, pr_Severity = None, pr_Threshold = None, pr_ThresholdNumeric = None,
     pr_ThresholdCount = None, pr_WindowSeconds = None, pr_ThresholdPercent = None, pr_Config = None,
     pr_Description = None\<rparr>"

definition ex_eval :: eval_env where
  "ex_eval = \<lparr>ev_uuid = (\<lambda>_. ''u''), ev_ms = (\<lambda>_. 0)\<rparr>"

definition ex_simulation :: simulation_service where
  "ex_simulation = \<lparr>ss_configs = (\<lambda>t. Inr (DefaultDomainRuleConfigs (\<lambda>_. ''id'') t ex_thresholds)),
     ss_loader = (\<lambda>t lookback. Inr (DemoEventLoader (\<lambda>_. ''time'') 0 t lookback)), ss_fallback = ex_thresholds\<rparr>"

definition ex_sim_env :: simulation_env where
  "ex_sim_env = \<lparr>sn_now = 0, sn_eval = (\<lambda>_. ex_eval), sn_uuid = ''u'', sn_publishes = (\<lambda>_. True)\<rparr>"

definition ex_request :: RuleSimulationRequest where
  "ex_request = \<lparr>rq_TenantID = ''t'', rq_RuleName = ''rapid_order'', rq_Config = no_proposal, rq_LookbackMinutes = None,
     rq_DryRun = None, rq_Rules = []\<rparr>"


definition ex_order_event :: SourceEvent where
  "ex_order_event = \<lparr>se_Topic = ''order.created'', se_Key = '''', se_Value = Json (JObj [(''userId'', JStr ''u1'')]),
     se_CorrelationID = '''', se_TraceParent = ''''\<rparr>"

definition ex_engine :: RuleEngine where
  "ex_engine = NewRuleEngine (ex_thresholds\<lparr>th_RapidOrderLimit := 1\<rparr>)"

lemma counting_rules_are_sliding_windows_witness:
  "\<exists>alerts executions skipped e'.
    EvaluateForTenant ex_eval ''b'' ex_order_event (10 * Second)
      (observe [(ex_eval, ''a'', ex_order_event, 0)] ex_engine) = ((alerts, executions, skipped), e') \<and>
    own_alerts (window_rule False) alerts \<noteq> []"
proof -
  let ?h = "[(ex_eval, ''a'', ex_order_event, 0)]" and ?o = "(ex_eval, ''b'', ex_order_event, 10 * Second)"
  obtain alerts executions skipped e' where v: "EvaluateForTenant ex_eval ''b'' ex_order_event (10 * Second)
      (observe ?h ex_engine) = ((alerts, executions, skipped), e')" by (metis prod_cases4 prod.exhaust)
  have sorted: "sorted (map seen_at (?h @ [?o]))" by code_simp
  have "list_all (\<lambda>obs. seen_window False ex_engine obs = 60 * Second) (?h @ [?o])" by code_simp
  then have windows: "seen_window False ex_engine obs = 60 * Second" if "obs \<in> set (?h @ [?o])" for obs
    using that by (simp only: list_all_iff)
  have "(0 :: int) < 60 * Second" "window_of False ex_engine (event_user ex_order_event) = []" by code_simp+
  note fires = counting_rules_are_sliding_windows [OF sorted windows this v]
  have "counts_for False ex_engine (event_user ex_order_event) ''b'' ex_order_event \<and>
      int (length (filter (\<lambda>s. s > 10 * Second - 60 * Second) (counted_times False ex_engine ?h (event_user ex_order_event)))) + 1 >
      es_ThresholdCount (ruleSetting ex_engine ''b'' (window_rule False))" by code_simp
  then show ?thesis using fires v by blast
qed

end
