(* ===== verification/SurveillanceFacts.thy ===== *)
theory SurveillanceFacts
  imports RuleEngineFacts
begin

text \<open>
  What the surveillance service guarantees of its tables, over any sequence of its operations: an alert
  exists once per subject, moves only as its transitions allow and is never lost; rule configurations
  resolve by tenant, default tenant and start-up values, and only the default tenant ever has rows.
\<close>

subsection \<open>Alerts\<close>

definition alert_key :: "alert_row \<Rightarrow> string \<times> string \<times> string \<times> string" where
  "alert_key r = (row_alert_tenant r, ar_alert_type r, ar_entity_id r, source_topic (ar_metadata r))"

text \<open>The stamps of a row agree with its status.\<close>

definition stamps_ok :: "alert_row \<Rightarrow> bool" where
  "stamps_ok r \<longleftrightarrow> (case ar_status r of
      Open \<Rightarrow> ar_acknowledged_at r = None \<and> ar_resolved_at r = None \<and> ar_dismissed_at r = None
    | Acknowledged \<Rightarrow> ar_acknowledged_at r \<noteq> None \<and> ar_resolved_at r = None \<and> ar_dismissed_at r = None
    | Resolved \<Rightarrow> ar_resolved_at r \<noteq> None
    | Dismissed \<Rightarrow> ar_dismissed_at r \<noteq> None)"

definition alerts_ok :: "sdb \<Rightarrow> bool" where
  "alerts_ok d \<longleftrightarrow> distinct (map ar_id (surveillance_alerts d)) \<and> distinct (map alert_key (surveillance_alerts d)) \<and>
     list_all stamps_ok (surveillance_alerts d)"

text \<open>What of an alert never changes, and how its status may move.\<close>

definition alert_identity :: "alert_row \<Rightarrow> alert_row" where
  "alert_identity r = r\<lparr>ar_status := Open, ar_acknowledged_at := None, ar_resolved_at := None, ar_dismissed_at := None\<rparr>"

definition moves_to :: "alert_status \<Rightarrow> alert_status \<Rightarrow> bool" where
  "moves_to a b \<longleftrightarrow> b = a \<or> (b \<noteq> Open \<and> (b = Acknowledged \<longrightarrow> a = Open))"

definition alert_moves :: "alert_row \<Rightarrow> alert_row \<Rightarrow> bool" where
  "alert_moves r r' \<longleftrightarrow> alert_identity r' = alert_identity r \<and> moves_to (ar_status r) (ar_status r')"

definition alerts_kept :: "sdb \<Rightarrow> sdb \<Rightarrow> bool" where
  "alerts_kept d d' \<longleftrightarrow> (\<exists>old new. surveillance_alerts d' = old @ new \<and> list_all2 alert_moves (surveillance_alerts d) old)"

lemma moves_to_refl: "moves_to a a" by (simp add: moves_to_def)

lemma moves_to_trans: "moves_to a b \<Longrightarrow> moves_to b c \<Longrightarrow> moves_to a c"
  by (auto simp: moves_to_def)

lemma alert_moves_refl: "alert_moves r r" by (simp add: alert_moves_def moves_to_refl)

lemma alert_moves_trans: "alert_moves r s \<Longrightarrow> alert_moves s t \<Longrightarrow> alert_moves r t"
  unfolding alert_moves_def using moves_to_trans by metis

lemma alerts_kept_refl: "surveillance_alerts d' = surveillance_alerts d \<Longrightarrow> alerts_kept d d'"
  unfolding alerts_kept_def by (intro exI [of _ "surveillance_alerts d"] exI [of _ "[]"] conjI list_all2_refl alert_moves_refl) simp

lemma alerts_kept_trans:
  assumes "alerts_kept d e" "alerts_kept e f" shows "alerts_kept d f"
proof -
  obtain old new where e: "surveillance_alerts e = old @ new" "list_all2 alert_moves (surveillance_alerts d) old"
    using assms(1) unfolding alerts_kept_def by blast
  obtain old' new' where f: "surveillance_alerts f = old' @ new'" "list_all2 alert_moves (old @ new) old'"
    using assms(2) unfolding alerts_kept_def e by blast
  obtain a b where ab: "old' = a @ b" "list_all2 alert_moves old a" using f(2) by (auto simp: list_all2_append1)
  have "list_all2 alert_moves (surveillance_alerts d) a"
    by (rule list_all2_trans [OF _ e(2) ab(2)]) (rule alert_moves_trans)
  then show ?thesis unfolding alerts_kept_def using f(1) ab(1) by auto
qed

lemma identity_fields:
  assumes "alert_identity r' = alert_identity r"
  shows "ar_id r' = ar_id r" "alert_key r' = alert_key r"
proof -
  have "ar_id (alert_identity x) = ar_id x" "alert_key (alert_identity x) = alert_key x" for x
    by (simp_all add: alert_identity_def alert_key_def row_alert_tenant_def)
  then show "ar_id r' = ar_id r" "alert_key r' = alert_key r" using assms by metis+
qed

lemma moved_fields:
  assumes "list_all2 alert_moves xs ys"
  shows "map ar_id ys = map ar_id xs \<and> map alert_key ys = map alert_key xs"
  using assms by (induction rule: list_all2_induct) (auto simp: alert_moves_def dest: identity_fields)

lemma stamp_identity: "alert_identity (stamp_alert st clock r) = alert_identity r"
  by (cases st) (simp_all add: stamp_alert_def alert_identity_def)

lemma stamp_moves:
  assumes "st \<noteq> Open" "st = Acknowledged \<longrightarrow> ar_status r = Open"
  shows "alert_moves r (stamp_alert st clock r)"
proof -
  have "ar_status (stamp_alert st clock r) = st" using assms(1) by (cases st) (simp_all add: stamp_alert_def)
  then show ?thesis using assms by (simp add: alert_moves_def stamp_identity moves_to_def)
qed

text \<open>Creating an alert that is no duplicate.\<close>

lemma alert_row_of_fields:
  assumes "alert_row_of pg a = Some row"
  shows "alert_key row = (alertTenant (al_TenantID a), al_AlertType a, al_EntityID a, source_topic (al_Metadata a))"
    "ar_status row = al_Status a" "ar_acknowledged_at row = None" "ar_resolved_at row = None" "ar_dismissed_at row = None"
  using assms
  by (auto simp: alert_row_of_def alert_key_def row_alert_tenant_def split: option.splits if_splits)

lemma CreateAlert_effect:
  assumes "CreateAlert pg a d = Inr (created, d')" "\<not> DuplicateAlertExists a d" "al_Status a = Open" "alerts_ok d"
  shows "alerts_ok d' \<and> alerts_kept d d' \<and> rule_configs d' = rule_configs d"
proof -
  obtain row where row: "alert_row_of pg a = Some row" "ar_id row \<notin> ar_id ` set (surveillance_alerts d)"
    "d' = d\<lparr>surveillance_alerts := surveillance_alerts d @ [row]\<rparr>"
    using assms(1) by (auto simp: CreateAlert_def split: option.splits if_splits)
  have "alert_key row \<notin> alert_key ` set (surveillance_alerts d)"
    using assms(2) alert_row_of_fields(1) [OF row(1)] by (auto simp: DuplicateAlertExists_def alert_key_def)
  moreover have "stamps_ok row" using alert_row_of_fields [OF row(1)] assms(3) by (simp add: stamps_ok_def)
  moreover have "alerts_kept d d'"
    unfolding alerts_kept_def row(3)
    by (rule exI [of _ "surveillance_alerts d"]) (auto intro!: list_all2_refl alert_moves_refl)
  ultimately show ?thesis using assms(4) row(2,3) by (auto simp: alerts_ok_def)
qed

lemma CreateAlert_rules: "CreateAlert pg a d = Inr (created, d') \<Longrightarrow> rule_configs d' = rule_configs d"
  by (auto simp: CreateAlert_def split: option.splits if_splits)

text \<open>Moving an alert.\<close>

lemma UpdateStatus_Inr:
  assumes "UpdateStatus pg clock tenantID i st d = Inr (alert, d')"
  obtains u where "pg i = Some u" "st \<noteq> Open"
    "d' = d\<lparr>surveillance_alerts := upd_where (\<lambda>r. own_alert tenantID u r \<and> (st = Acknowledged \<longrightarrow> ar_status r = Open))
        (stamp_alert st clock) (surveillance_alerts d)\<rparr>"
  using assms by (auto simp: UpdateStatus_def Let_def split: if_splits option.splits)

lemma UpdateStatus_effect:
  assumes "UpdateStatus pg clock tenantID i st d = Inr (alert, d')" "alerts_ok d"
  shows "alerts_ok d' \<and> alerts_kept d d' \<and> rule_configs d' = rule_configs d"
proof -
  obtain u where u: "st \<noteq> Open"
    "d' = d\<lparr>surveillance_alerts := upd_where (\<lambda>r. own_alert tenantID u r \<and> (st = Acknowledged \<longrightarrow> ar_status r = Open))
        (stamp_alert st clock) (surveillance_alerts d)\<rparr>"
    using UpdateStatus_Inr [OF assms(1)] by metis
  let ?rows = "upd_where (\<lambda>r. own_alert tenantID u r \<and> (st = Acknowledged \<longrightarrow> ar_status r = Open))
    (stamp_alert st clock) (surveillance_alerts d)"
  have moved: "list_all2 alert_moves (surveillance_alerts d) ?rows"
    unfolding upd_where_def list_all2_map2
    by (rule list_all2_refl) (simp add: alert_moves_refl stamp_moves [OF u(1)])
  have "list_all stamps_ok ?rows"
    unfolding list_all_iff
  proof (rule ball_upd_where)
    show "\<forall>r\<in>set (surveillance_alerts d). stamps_ok r" using assms(2) by (simp add: alerts_ok_def list_all_iff)
    show "stamps_ok (stamp_alert st clock r)" if "own_alert tenantID u r \<and> (st = Acknowledged \<longrightarrow> ar_status r = Open)" "stamps_ok r" for r
      using that u(1) by (cases st) (auto simp: stamps_ok_def stamp_alert_def)
  qed
  then have "alerts_ok d'" using moved_fields [OF moved] assms(2) unfolding alerts_ok_def by (simp add: u(2))
  moreover have "alerts_kept d d'"
    unfolding alerts_kept_def by (rule exI [of _ ?rows], rule exI [of _ "[]"]) (simp add: u(2) moved)
  ultimately show ?thesis by (simp add: u(2))
qed

text \<open>Processing an event, also when it fails.\<close>

definition sv_effect :: "sdb surveillance \<Rightarrow> sdb surveillance \<Rightarrow> bool" where
  "sv_effect s s' \<longleftrightarrow> (alerts_ok (sv_store s) \<longrightarrow> alerts_ok (sv_store s') \<and> alerts_kept (sv_store s) (sv_store s')) \<and>
     rule_configs (sv_store s') = rule_configs (sv_store s)"

lemma sv_effect_refl: "sv_store s' = sv_store s \<Longrightarrow> sv_effect s s'"
  by (simp add: sv_effect_def alerts_kept_refl)

lemma sv_effect_trans: "sv_effect s t \<Longrightarrow> sv_effect t u \<Longrightarrow> sv_effect s u"
  unfolding sv_effect_def using alerts_kept_trans by metis

lemma SaveExecution_effect:
  "SaveExecution pg x d = Inr d' \<Longrightarrow> surveillance_alerts d' = surveillance_alerts d \<and> rule_configs d' = rule_configs d"
  by (auto simp: SaveExecution_def split: option.splits if_splits)

lemma save_executions_effect:
  "save_executions (alert_repository pg down) tenantID xs s = (r, s') \<Longrightarrow> sv_effect s s'"
proof (induction xs arbitrary: s)
  case Nil
  then show ?case by (simp add: sv_effect_refl)
next
  case (Cons x xs)
  show ?case
  proof (cases "as_SaveExecution (alert_repository pg down) (x\<lparr>xe_TenantID := tenantID\<rparr>) (sv_store s)")
    case (Inl err)
    then show ?thesis using Cons.prems by (auto simp: sv_effect_refl)
  next
    case (Inr d)
    have "SaveExecution pg (x\<lparr>xe_TenantID := tenantID\<rparr>) (sv_store s) = Inr d"
      using Inr by (simp add: alert_repository_def via_def split: option.splits)
    from SaveExecution_effect [OF this] have "sv_effect s (s\<lparr>sv_store := d\<rparr>)"
      by (auto simp: sv_effect_def alerts_ok_def alerts_kept_refl)
    moreover have "save_executions (alert_repository pg down) tenantID xs (s\<lparr>sv_store := d\<rparr>) = (r, s')"
      using Cons.prems Inr by simp
    ultimately show ?thesis using Cons.IH sv_effect_trans by blast
  qed
qed

lemma publishAlertEvent_store [simp]:
  "sv_store (publishAlertEvent env k ty alert corr s) = sv_store s"
  "sv_engine (publishAlertEvent env k ty alert corr s) = sv_engine s"
  by (simp_all add: publishAlertEvent_def)

lemma create_alerts_effect:
  assumes "create_alerts (alert_repository pg down) env tenantID corr alerts s = (r, s')"
    "\<And>a. a \<in> set alerts \<Longrightarrow> al_Status a = Open"
  shows "sv_effect s s'"
  using assms
proof (induction alerts arbitrary: s)
  case Nil
  then show ?case by (simp add: sv_effect_refl)
next
  case (Cons a alerts)
  let ?store = "alert_repository pg down" and ?a = "a\<lparr>al_TenantID := tenantID\<rparr>"
  have IH: "create_alerts ?store env tenantID corr alerts t = (r, s') \<Longrightarrow> sv_effect t s'" for t
    using Cons.IH Cons.prems(2) by simp
  show ?case
  proof (cases "as_DuplicateAlertExists ?store ?a (sv_store s)")
    case (Inl err)
    then show ?thesis using Cons.prems(1) by (auto simp: Let_def sv_effect_refl)
  next
    case dup: (Inr b)
    show ?thesis
    proof (cases "as_CreateAlert ?store ?a (sv_store s)")
      case (Inl err)
      then show ?thesis using Cons.prems(1) dup IH by (cases b) (auto simp: Let_def sv_effect_refl)
    next
      case (Inr cd)
      obtain created d where cd: "cd = (created, d)" by (metis prod.exhaust)
      show ?thesis
      proof (cases b)
        case True
        then show ?thesis using Cons.prems(1) dup IH by (simp add: Let_def)
      next
        case False
        have "CreateAlert pg ?a (sv_store s) = Inr (created, d)"
          using Inr cd by (auto simp: alert_repository_def via_def split: option.splits)
        moreover have "\<not> DuplicateAlertExists ?a (sv_store s)"
          using dup False by (auto simp: alert_repository_def via_def split: option.splits)
        moreover have "al_Status ?a = Open" using Cons.prems(2) by simp
        ultimately have "sv_effect s (s\<lparr>sv_store := d\<rparr>)"
          using CreateAlert_effect [of pg ?a "sv_store s" created d] CreateAlert_rules [of pg ?a "sv_store s" created d]
          by (auto simp: sv_effect_def)
        then have "sv_effect s (publishAlertEvent env (length alerts) ''surveillance.alert.created'' created corr (s\<lparr>sv_store := d\<rparr>))"
          by (simp add: sv_effect_def)
        moreover have "create_alerts ?store env tenantID corr alerts
            (publishAlertEvent env (length alerts) ''surveillance.alert.created'' created corr (s\<lparr>sv_store := d\<rparr>)) = (r, s')"
          using Cons.prems(1) dup False Inr cd by (simp add: Let_def)
        ultimately show ?thesis using IH sv_effect_trans by blast
      qed
    qed
  qed
qed

text \<open>What an evaluation raises is open.\<close>

lemma evaluation_open:
  assumes "EvaluateForTenant env tenantID event now e = ((alerts, executions, skipped), e')" "a \<in> set alerts"
  shows "al_Status a = Open"
proof -
  note v = assms(1) [unfolded EvaluateForTenant_def EvaluateForTenantWithMode_def]
  consider "se_Topic event = ''order.created'' \<or> se_Topic event = ''order.filled''"
    | "se_Topic event = ''order.cancelled''" | "se_Topic event = ''risk.score.updated''" | "se_Topic event = ''market.ticks''"
    | "alerts = []" using v by (auto split: if_splits)
  then show ?thesis
  proof cases
    case 1
    let ?rapid = "se_Topic event = ''order.created''"
    have o: "evaluateOrder env tenantID event now ?rapid e = ((alerts, executions, skipped), e')" using v 1 by simp
    obtain la lx lk where l: "large_order_rule env (se_Topic event) (decodeMap (se_Value event)) now
      (ruleSetting e tenantID RuleLargeOrder) = (la, lx, lk)" by (metis prod.exhaust)
    obtain ra rx rk e1 where r: "rapid_order_rule env (se_Topic event) (decodeMap (se_Value event)) now
      (ruleSetting e tenantID RuleRapidOrderSubmission) e = ((ra, rx, rk), e1)" by (metis prod.exhaust)
    have "set alerts \<subseteq> set la \<union> set ra" using o unfolding order_parts l r by (auto split: if_splits)
    moreover have "\<forall>x\<in>set la. al_Status x = Open"
      using large_reports [of env "se_Topic event" "decodeMap (se_Value event)" now "ruleSetting e tenantID RuleLargeOrder"]
      unfolding l by (simp add: reports_def)
    moreover have "\<forall>x\<in>set ra. al_Status x = Open" using rapid_frame [OF r] by (simp add: reports_def)
    ultimately show ?thesis using assms(2) by blast
  next
    case 2
    then have "evaluateCancelled env tenantID event now e = ((alerts, executions, skipped), e')" using v by simp
    from cancelled_frame [OF this] show ?thesis using assms(2) by (simp add: reports_def)
  next
    case 3
    then have "evaluateRiskScore env tenantID event now e = ((alerts, executions, skipped), e')" using v by simp
    from risk_frame [OF this] show ?thesis using assms(2) by (simp add: reports_def)
  next
    case 4
    then have "evaluateMarketTick env tenantID event now e = ((alerts, executions, skipped), e')" using v by simp
    from tick_frame [OF this] show ?thesis using assms(2) by (simp add: reports_def)
  next
    case 5
    then show ?thesis using assms(2) by simp
  qed
qed

lemma ProcessEvent_effect:
  assumes "ProcessEvent (alert_repository pg down) ev env event s = (err, s')"
  shows "sv_effect s s'"
proof (cases "se_Value event = NotJson")
  case True
  then show ?thesis using assms by (simp add: ProcessEvent_def sv_effect_refl)
next
  case False
  let ?t = "tenantIDFromEvent (se_Value event)"
  obtain alerts executions skipped engine where
    e: "EvaluateForTenant ev ?t event (vc_now env) (sv_engine s) = ((alerts, executions, skipped), engine)" by (metis prod.exhaust)
  obtain failed s1 where
    x: "save_executions (alert_repository pg down) ?t executions (s\<lparr>sv_engine := engine\<rparr>) = (failed, s1)" by fastforce
  have s1: "sv_effect s s1"
    using save_executions_effect [OF x] sv_effect_trans [OF sv_effect_refl [of "s\<lparr>sv_engine := engine\<rparr>" s]] by simp
  show ?thesis
  proof (cases failed)
    case (Some f)
    then have "s' = s1" using assms False e x by (simp add: ProcessEvent_def Let_def)
    then show ?thesis using s1 by simp
  next
    case None
    then have c: "create_alerts (alert_repository pg down) env ?t (se_CorrelationID event) alerts s1 = (err, s')"
      using assms False e x by (simp add: ProcessEvent_def Let_def)
    have "sv_effect s1 s'" by (rule create_alerts_effect [OF c]) (rule evaluation_open [OF e])
    then show ?thesis using s1 sv_effect_trans by blast
  qed
qed

lemma alert_transition_Inr:
  assumes "alert_transition (alert_repository pg down) env user i st ty corr s = Inr (alert, s')"
  shows "alert_manager (us_Roles user) \<and> down = None \<and> (\<exists>d. UpdateStatus pg (vc_now env) (eventTenant (us_TenantID user)) i st (sv_store s) = Inr (alert, d) \<and>
    s' = publishAlertEvent env 0 ty alert corr (s\<lparr>sv_store := d\<rparr>))"
  using assms
  by (auto simp: alert_transition_def alert_repository_def via_def and_then_Inr split: if_splits option.splits)

lemma alert_transition_effect:
  assumes "alert_transition (alert_repository pg down) env user i st ty corr s = Inr (alert, s')"
  shows "sv_effect s s'"
proof -
  obtain d where d: "UpdateStatus pg (vc_now env) (eventTenant (us_TenantID user)) i st (sv_store s) = Inr (alert, d)"
    "s' = publishAlertEvent env 0 ty alert corr (s\<lparr>sv_store := d\<rparr>)"
    using alert_transition_Inr [OF assms] by blast
  have "rule_configs d = rule_configs (sv_store s)" using d(1) by (auto elim!: UpdateStatus_Inr)
  then show ?thesis using UpdateStatus_effect [OF d(1)] by (simp add: sv_effect_def d(2))
qed


subsection \<open>Rule configurations\<close>

text \<open>The rows of the rule table: one per tenant and rule, one per id, only of the default tenant; an id is
  in the form PostgreSQL prints.\<close>

definition rules_ok :: "pg_uuid \<Rightarrow> sdb \<Rightarrow> bool" where
  "rules_ok pg d \<longleftrightarrow> distinct (map rule_key (rule_configs d)) \<and> distinct (map ru_ID (rule_configs d)) \<and>
     list_all (\<lambda>r. ru_TenantID r = ''default-tenant'' \<and> pg (ru_ID r) = Some (ru_ID r) \<and> ru_ID r \<noteq> '''') (rule_configs d)"

text \<open>What PostgreSQL prints of a UUID it reads as the same text, and that is no empty text.\<close>

definition uuid_reader :: "pg_uuid \<Rightarrow> bool" where
  "uuid_reader pg \<longleftrightarrow> (\<forall>x y. pg x = Some y \<longrightarrow> pg y = Some y \<and> y \<noteq> '''')"

lemma rule_row_of_fields:
  assumes "rule_row_of pg clock c = Some row"
  shows "pg (ru_ID c) = Some (ru_ID row) \<and> ru_TenantID row = alertTenant (ru_TenantID c) \<and> ru_RuleName row = ru_RuleName c"
  using assms by (auto simp: rule_row_of_def split: option.splits if_splits)

lemma conflict_update_keys [simp]:
  "ru_ID (conflict_update clock row r) = ru_ID r" "ru_TenantID (conflict_update clock row r) = ru_TenantID r"
  "rule_key (conflict_update clock row r) = rule_key r"
  by (simp_all add: conflict_update_def rule_key_def)

lemma alertTenant_default [simp]: "alertTenant ''default-tenant'' = ''default-tenant''"
  by code_simp

lemma alertTenant_empty: "alertTenant '''' = ''default-tenant''"
  by code_simp

lemma alertTenant_idem [simp]: "alertTenant (alertTenant t) = alertTenant t"
  by (simp add: alertTenant_def trim_space_def is_space_def)

lemma getRuleConfigExact_Inr:
  assumes "getRuleConfigExact t n d = Inr c"
  shows "c \<in> set (rule_configs d) \<and> ru_TenantID c = alertTenant t \<and> ru_RuleName c = n"
  using assms find_by_Some [of rule_key "(alertTenant t, n)" "rule_configs d" c]
  by (auto simp: getRuleConfigExact_def rule_key_def split: option.splits)

lemma GetRuleConfig_Inr:
  assumes "GetRuleConfig t n d = Inr c"
  shows "c \<in> set (rule_configs d) \<and> ru_RuleName c = n"
  using assms getRuleConfigExact_Inr [of "alertTenant t" n d c] getRuleConfigExact_Inr [of "''default-tenant''" n d c]
  by (auto simp: GetRuleConfig_def split: sum.splits if_splits)

text \<open>An upsert of a row read from the table under another tenant meets the old row's primary key.\<close>

lemma UpsertRuleConfig_taken:
  assumes "rules_ok pg d" "r \<in> set (rule_configs d)" "ru_ID config = ru_ID r" "alertTenant (ru_TenantID config) \<noteq> ''default-tenant''"
  shows "\<exists>err. UpsertRuleConfig pg clock uuid config d = Inl err"
proof -
  have r: "pg (ru_ID r) = Some (ru_ID r)" "ru_ID r \<noteq> ''''" using assms(1,2) by (auto simp: rules_ok_def list_all_iff)
  show ?thesis
  proof (cases "rule_row_of pg clock config")
    case None
    then show ?thesis using r(2) assms(3) by (simp add: UpsertRuleConfig_def)
  next
    case (Some row)
    have row: "ru_ID row = ru_ID r" "ru_TenantID row \<noteq> ''default-tenant''"
      using rule_row_of_fields [OF Some] assms(3,4) r(1) by simp_all
    have "find_by rule_key (rule_key row) (rule_configs d) = None"
      unfolding find_by_None_iff using assms(1) row(2) by (auto simp: rules_ok_def list_all_iff rule_key_def)
    moreover have "ru_ID row \<in> ru_ID ` set (rule_configs d)" using assms(2) row(1) by simp
    ultimately show ?thesis using Some r(2) assms(3) by (simp add: UpsertRuleConfig_def)
  qed
qed

lemma UpdateRuleConfig_tenant:
  assumes "rules_ok pg d" "alertTenant tenantID \<noteq> ''default-tenant''"
  shows "\<exists>err. UpdateRuleConfig pg clock uuid tenantID ruleName request updatedBy d = Inl err"
proof (cases "GetRuleConfig tenantID ruleName d")
  case (Inl err)
  then show ?thesis by (simp add: UpdateRuleConfig_def)
next
  case (Inr c)
  have "c \<in> set (rule_configs d)" using GetRuleConfig_Inr [OF Inr] by simp
  then show ?thesis unfolding UpdateRuleConfig_def Inr and_then_simps
    by (intro UpsertRuleConfig_taken [OF assms(1)]) (simp_all add: assms(2))
qed

text \<open>What is stored stays a table of default-tenant rows.\<close>

lemma UpsertRuleConfig_ok:
  assumes "UpsertRuleConfig pg clock uuid config d = Inr (c, d')" "rules_ok pg d" "uuid_reader pg"
    "alertTenant (ru_TenantID config) = ''default-tenant''"
  shows "rules_ok pg d' \<and> surveillance_alerts d' = surveillance_alerts d"
proof -
  let ?config = "if ru_ID config = '''' then config\<lparr>ru_ID := uuid\<rparr> else config"
  obtain row where row: "rule_row_of pg clock ?config = Some row"
    and cases: "(\<exists>old. find_by rule_key (rule_key row) (rule_configs d) = Some old \<and>
        d' = d\<lparr>rule_configs := upd_where (\<lambda>r. rule_key r = rule_key row) (conflict_update clock row) (rule_configs d)\<rparr>) \<or>
      (find_by rule_key (rule_key row) (rule_configs d) = None \<and> ru_ID row \<notin> ru_ID ` set (rule_configs d) \<and>
        d' = d\<lparr>rule_configs := rule_configs d @ [row]\<rparr>)"
    using assms(1) by (auto simp: UpsertRuleConfig_def Let_def split: option.splits if_splits)
  have fields: "ru_TenantID row = ''default-tenant''" "pg (ru_ID row) = Some (ru_ID row)" "ru_ID row \<noteq> ''''"
    using rule_row_of_fields [OF row] assms(3,4) by (auto simp: uuid_reader_def split: if_splits)
  show ?thesis
    using cases
  proof
    assume "\<exists>old. find_by rule_key (rule_key row) (rule_configs d) = Some old \<and>
        d' = d\<lparr>rule_configs := upd_where (\<lambda>r. rule_key r = rule_key row) (conflict_update clock row) (rule_configs d)\<rparr>"
    then have d': "d' = d\<lparr>rule_configs := upd_where (\<lambda>r. rule_key r = rule_key row) (conflict_update clock row) (rule_configs d)\<rparr>"
      by blast
    show ?thesis using assms(2) unfolding d' rules_ok_def
      by (auto simp: list_all_iff map_upd_where elim!: in_upd_whereE)
  next
    assume "find_by rule_key (rule_key row) (rule_configs d) = None \<and> ru_ID row \<notin> ru_ID ` set (rule_configs d) \<and>
        d' = d\<lparr>rule_configs := rule_configs d @ [row]\<rparr>"
    then show ?thesis using assms(2) fields find_by_None_iff [of rule_key "rule_key row" "rule_configs d"]
      by (auto simp: rules_ok_def list_all_iff)
  qed
qed

lemma UpdateRuleConfig_ok:
  assumes "UpdateRuleConfig pg clock uuid tenantID ruleName request updatedBy d = Inr (c, d')" "rules_ok pg d" "uuid_reader pg"
  shows "rules_ok pg d' \<and> surveillance_alerts d' = surveillance_alerts d"
proof -
  have t: "alertTenant tenantID = ''default-tenant''"
    using UpdateRuleConfig_tenant [OF assms(2), of tenantID clock uuid ruleName request updatedBy] assms(1) by force
  obtain current where "GetRuleConfig tenantID ruleName d = Inr current"
    using assms(1) by (auto simp: UpdateRuleConfig_def and_then_Inr)
  then show ?thesis using assms(1) unfolding UpdateRuleConfig_def
    by (auto intro!: UpsertRuleConfig_ok [OF _ assms(2,3)] simp: t)
qed

lemma EnsureDefaultRuleConfigs_ok:
  assumes "EnsureDefaultRuleConfigs pg clock uuid ''default-tenant'' cs d = (err, d')" "rules_ok pg d" "uuid_reader pg"
  shows "rules_ok pg d' \<and> surveillance_alerts d' = surveillance_alerts d"
  using assms(1,2)
proof (induction cs arbitrary: d)
  case Nil
  then show ?case by simp
next
  case (Cons c cs)
  show ?case
  proof (cases "ensure_default pg clock (uuid (length cs)) ''default-tenant'' c d")
    case (Inl e)
    then show ?thesis using Cons.prems by simp
  next
    case (Inr e)
    have "rules_ok pg e \<and> surveillance_alerts e = surveillance_alerts d"
      using Inr Cons.prems(2) assms(3)
      by (auto simp: ensure_default_def rules_ok_def list_all_iff uuid_reader_def split: option.splits if_splits
          dest!: rule_row_of_fields)
    then show ?thesis using Cons.IH [of e] Cons.prems(1) Inr by simp
  qed
qed


subsection \<open>The service's steps\<close>

text \<open>Events from the consumer, the handlers of the API, and the defaults of the start-up; an operation that
  fails may still be a step, when it is one that changes state before it fails.\<close>

inductive surveillance_step :: "pg_uuid \<Rightarrow> RuleThresholds \<Rightarrow> sdb surveillance \<Rightarrow> sdb surveillance \<Rightarrow> bool"
  for pg :: pg_uuid and fallback :: RuleThresholds where
  event: "ProcessEvent (alert_repository pg down) ev env e s = (err, s') \<Longrightarrow> surveillance_step pg fallback s s'"
| acknowledge: "Acknowledge (alert_repository pg down) env user i corr s = Inr (alert, s') \<Longrightarrow> surveillance_step pg fallback s s'"
| resolve: "Resolve (alert_repository pg down) env user i corr s = Inr (alert, s') \<Longrightarrow> surveillance_step pg fallback s s'"
| dismiss: "Dismiss (alert_repository pg down) env user i corr s = Inr (alert, s') \<Longrightarrow> surveillance_step pg fallback s s'"
| update: "UpdateRule (rule_repository pg uuid down) env fallback user ruleName request corr s = Inr (config, s')
    \<Longrightarrow> surveillance_step pg fallback s s'"
| enable: "EnableRule (rule_repository pg uuid down) env fallback user ruleName corr s = Inr (config, s')
    \<Longrightarrow> surveillance_step pg fallback s s'"
| disable: "DisableRule (rule_repository pg uuid down) env fallback user ruleName corr s = Inr (config, s')
    \<Longrightarrow> surveillance_step pg fallback s s'"
| defaults: "EnsureDefaults (rule_repository pg uuid down) env fallback ''default-tenant'' s = (err, s')
    \<Longrightarrow> surveillance_step pg fallback s s'"

lemma publishRuleConfigEvent_store [simp]:
  "sv_store (publishRuleConfigEvent env ty config user corr changes s) = sv_store s"
  "sv_engine (publishRuleConfigEvent env ty config user corr changes s) = sv_engine s"
  by (simp_all add: publishRuleConfigEvent_def)

lemma refreshTenant_store [simp]: "sv_store (refreshTenant store uuid fallback t s) = sv_store s"
  by (simp add: refreshTenant_def)

text \<open>The write of a rule operation that succeeded.\<close>

lemma UpdateRule_Inr:
  assumes "UpdateRule (rule_repository pg uuid down) env fallback user ruleName request corr s = Inr (config, s')"
  shows "UpdateRuleConfig pg (vc_now env) (uuid 0) (eventTenant (us_TenantID user)) ruleName request (us_UserID user) (sv_store s)
    = Inr (config, sv_store s')"
  using assms
  by (auto simp: UpdateRule_def rule_repository_def via_def and_then_Inr Let_def split: if_splits option.splits)

lemma setEnabled_Inr:
  assumes "setEnabled (rule_repository pg uuid down) env fallback user ruleName enabled ty corr s = Inr (config, s')"
  shows "UpdateRuleConfig pg (vc_now env) (uuid 0) (eventTenant (us_TenantID user)) ruleName (no_update\<lparr>uq_Enabled := Some enabled\<rparr>)
    (us_UserID user) (sv_store s) = Inr (config, sv_store s')"
  using assms
  by (auto simp: setEnabled_def rule_repository_def via_def and_then_Inr Let_def SetRuleEnabled_def split: if_splits option.splits)

lemma EnsureDefaults_store:
  assumes "EnsureDefaults (rule_repository pg uuid down) env fallback ''default-tenant'' s = (err, s')"
  shows "sv_store s' = sv_store s \<or> (\<exists>cs e. EnsureDefaultRuleConfigs pg (vc_now env) uuid ''default-tenant'' cs (sv_store s) = (e, sv_store s'))"
  using assms
  by (auto simp: EnsureDefaults_def rule_repository_def eventTenant_def split: option.splits prod.splits if_splits)

definition surveillance_ok :: "pg_uuid \<Rightarrow> sdb surveillance \<Rightarrow> bool" where
  "surveillance_ok pg s \<longleftrightarrow> alerts_ok (sv_store s) \<and> rules_ok pg (sv_store s)"

text \<open>What a change of the alerts keeps, and what a change of the rules keeps.\<close>

lemma sv_effect_ok:
  assumes "sv_effect s s'" "surveillance_ok pg s"
  shows "surveillance_ok pg s' \<and> alerts_kept (sv_store s) (sv_store s')"
  using assms by (simp add: sv_effect_def surveillance_ok_def rules_ok_def)

lemma rules_effect_ok:
  assumes "rules_ok pg (sv_store s') \<and> surveillance_alerts (sv_store s') = surveillance_alerts (sv_store s)" "surveillance_ok pg s"
  shows "surveillance_ok pg s' \<and> alerts_kept (sv_store s) (sv_store s')"
  using assms by (simp add: surveillance_ok_def alerts_ok_def alerts_kept_refl)

lemma step_effect:
  assumes "surveillance_step pg fallback s s'" "uuid_reader pg" "surveillance_ok pg s"
  shows "surveillance_ok pg s' \<and> alerts_kept (sv_store s) (sv_store s')"
  using assms(1)
proof cases
  case event
  then show ?thesis using ProcessEvent_effect sv_effect_ok assms(3) by blast
next
  case acknowledge
  then show ?thesis using sv_effect_ok [OF alert_transition_effect assms(3)] by (simp add: Acknowledge_def)
next
  case resolve
  then show ?thesis using sv_effect_ok [OF alert_transition_effect assms(3)] by (simp add: Resolve_def)
next
  case dismiss
  then show ?thesis using sv_effect_ok [OF alert_transition_effect assms(3)] by (simp add: Dismiss_def)
next
  case update
  from UpdateRuleConfig_ok [OF UpdateRule_Inr [OF update] _ assms(2)] show ?thesis
    using rules_effect_ok assms(3) by (simp add: surveillance_ok_def)
next
  case enable
  from UpdateRuleConfig_ok [OF setEnabled_Inr [OF enable [unfolded EnableRule_def]] _ assms(2)] show ?thesis
    using rules_effect_ok assms(3) by (simp add: surveillance_ok_def)
next
  case disable
  from UpdateRuleConfig_ok [OF setEnabled_Inr [OF disable [unfolded DisableRule_def]] _ assms(2)] show ?thesis
    using rules_effect_ok assms(3) by (simp add: surveillance_ok_def)
next
  case (defaults uuid down env err)
  have "rules_ok pg (sv_store s)" using assms(3) by (simp add: surveillance_ok_def)
  then have "rules_ok pg (sv_store s') \<and> surveillance_alerts (sv_store s') = surveillance_alerts (sv_store s)"
    using EnsureDefaults_store [OF defaults] EnsureDefaultRuleConfigs_ok [OF _ _ assms(2)] by auto
  then show ?thesis using rules_effect_ok assms(3) by blast
qed

lemma steps_effect:
  assumes "(surveillance_step pg fallback)\<^sup>*\<^sup>* s s'" "uuid_reader pg" "surveillance_ok pg s"
  shows "surveillance_ok pg s' \<and> alerts_kept (sv_store s) (sv_store s')"
  using assms(1)
proof (induction rule: rtranclp_induct)
  case base
  then show ?case using assms(3) by (simp add: alerts_kept_refl)
next
  case (step t u)
  then show ?case using step_effect [OF step(2) assms(2)] alerts_kept_trans by blast
qed



subsection \<open>Moving one alert\<close>

lemma find_own_guarded:
  assumes "distinct (map ar_id rows)"
  shows "List.find (\<lambda>r. own_alert t u r \<and> G r) rows =
    (case List.find (own_alert t u) rows of None \<Rightarrow> None | Some r \<Rightarrow> if G r then Some r else None)"
  using assms
proof (induction rows)
  case Nil
  then show ?case by simp
next
  case (Cons x rows)
  show ?case
  proof (cases "own_alert t u x")
    case True
    have "List.find (\<lambda>r. own_alert t u r \<and> G r) rows = None"
      using Cons.prems True by (auto simp: find_None_iff own_alert_def image_iff)
    then show ?thesis using True by simp
  next
    case False
    then show ?thesis using Cons by simp
  qed
qed

text \<open>An UPDATE of one own row is one of every row with its id.\<close>

lemma guarded_update:
  assumes d: "distinct (map ar_id rows)" and r: "r \<in> set rows" "own_alert t u r" "G r"
  shows "upd_where (\<lambda>x. own_alert t u x \<and> G x) f rows = upd_where (\<lambda>x. ar_id x = u) f rows"
  unfolding upd_where_def
proof (rule map_cong [OF refl])
  fix x assume x: "x \<in> set rows"
  have "own_alert t u x \<and> G x \<longleftrightarrow> ar_id x = u"
  proof
    assume "ar_id x = u"
    then have "x = r" using d r x by (auto simp: distinct_map own_alert_def dest: inj_onD)
    then show "own_alert t u x \<and> G x" using r(2,3) by simp
  qed (simp add: own_alert_def)
  then show "(if own_alert t u x \<and> G x then f x else x) = (if ar_id x = u then f x else x)" by simp
qed

lemma UpdateStatus_outcome:
  assumes "pg i = Some u" "st \<noteq> Open" "alerts_ok d"
  shows "UpdateStatus pg clock t i st d =
    (case List.find (own_alert t u) (surveillance_alerts d) of
       None \<Rightarrow> Inl ANotFound
     | Some r \<Rightarrow>
         if st = Acknowledged \<and> ar_status r \<noteq> Open then Inl AInvalidTransition
         else Inr (scan_alert (stamp_alert st clock r),
           d\<lparr>surveillance_alerts := upd_where (\<lambda>x. ar_id x = u) (stamp_alert st clock) (surveillance_alerts d)\<rparr>))"
proof -
  let ?rows = "surveillance_alerts d" and ?G = "\<lambda>r. st = Acknowledged \<longrightarrow> ar_status r = Open"
  have d: "distinct (map ar_id ?rows)" using assms(3) by (simp add: alerts_ok_def)
  note f = find_own_guarded [OF d, of t u ?G]
  show ?thesis
  proof (cases "List.find (own_alert t u) ?rows")
    case None
    then show ?thesis using assms(1,2) f by (simp add: UpdateStatus_def GetAlert_def Let_def)
  next
    case (Some r)
    have r: "r \<in> set ?rows" "own_alert t u r" using find_Some_iff [THEN iffD1, OF Some] by (auto simp: in_set_conv_nth)
    show ?thesis
    proof (cases "?G r")
      case True
      then show ?thesis
        using assms(1,2) f Some guarded_update [OF d r, of ?G "stamp_alert st clock"] by (auto simp: UpdateStatus_def Let_def)
    next
      case False
      then show ?thesis using assms(1,2) f Some by (simp add: UpdateStatus_def GetAlert_def Let_def)
    qed
  qed
qed

text \<open>what moving an alert does. A manager of the alert's tenant who names no alert of the tenant gets
  not-found; an acknowledgement of an alert that is not open is an invalid transition; resolving and dismissing
  succeed from every status, and so does acknowledging an open alert: then the alert's row has the new
  status and its stamp, every other row is as it was, and the new state is returned and published.\<close>

theorem alert_transition_outcome:
  assumes "alert_manager (us_Roles user)" "pg i = Some u" "st \<noteq> Open" "alerts_ok (sv_store s)"
  shows "case List.find (own_alert (eventTenant (us_TenantID user)) u) (surveillance_alerts (sv_store s)) of
      None \<Rightarrow> alert_transition (alert_repository pg None) env user i st ty corr s = Inl ANotFound
    | Some r \<Rightarrow>
        if st = Acknowledged \<and> ar_status r \<noteq> Open
        then alert_transition (alert_repository pg None) env user i st ty corr s = Inl AInvalidTransition
        else alert_transition (alert_repository pg None) env user i st ty corr s =
          Inr (scan_alert (stamp_alert st (vc_now env) r),
            publishAlertEvent env 0 ty (scan_alert (stamp_alert st (vc_now env) r)) corr
              (s\<lparr>sv_store := (sv_store s)\<lparr>surveillance_alerts :=
                 upd_where (\<lambda>x. ar_id x = u) (stamp_alert st (vc_now env)) (surveillance_alerts (sv_store s))\<rparr>\<rparr>))"
proof -
  have t: "alert_transition (alert_repository pg None) env user i st ty corr s =
    and_then (UpdateStatus pg (vc_now env) (eventTenant (us_TenantID user)) i st (sv_store s))
      (\<lambda>(alert, d). Inr (alert, publishAlertEvent env 0 ty alert corr (s\<lparr>sv_store := d\<rparr>)))"
    using assms(1) by (simp add: alert_transition_def alert_repository_def via_def)
  show ?thesis
    unfolding t UpdateStatus_outcome [where pg = pg and i = i and u = u and st = st and d = "sv_store s", OF assms(2,3,4)]
    by (auto split: option.splits)
qed

subsection \<open>Whose rules can be changed\<close>

text \<open>C28: the rules of other tenants. After any run from a rule table that holds default-tenant rows only - as
  every start-up leaves it - a user of any other tenant cannot change, enable or disable a rule: the
  row that is to be written as the tenant's own carries the id of the default tenant's row it was read
  from, and the insert meets that row's primary key.\<close>

theorem tenants_cannot_configure_rules:
  assumes "(surveillance_step pg fallback)\<^sup>*\<^sup>* s0 s" "uuid_reader pg" "surveillance_ok pg s0"
    "alertTenant (us_TenantID user) \<noteq> ''default-tenant''"
  shows "(\<exists>err. UpdateRule (rule_repository pg uuid down) env fallback user ruleName request corr s = Inl err) \<and>
    (\<exists>err. EnableRule (rule_repository pg uuid down) env fallback user ruleName corr s = Inl err) \<and>
    (\<exists>err. DisableRule (rule_repository pg uuid down) env fallback user ruleName corr s = Inl err)"
proof -
  have ok: "rules_ok pg (sv_store s)" using steps_effect [OF assms(1-3)] by (simp add: surveillance_ok_def)
  have t: "alertTenant (eventTenant (us_TenantID user)) \<noteq> ''default-tenant''"
    using assms(4) by (cases "us_TenantID user = ''''") (simp_all add: eventTenant_def alertTenant_empty)
  have fails: "UpdateRuleConfig pg clock u (eventTenant (us_TenantID user)) n req by_user (sv_store s) \<noteq> Inr r" for clock u n req by_user r
    using UpdateRuleConfig_tenant [OF ok t, of clock u n req by_user] by fastforce
  have "UpdateRule (rule_repository pg uuid down) env fallback user ruleName request corr s \<noteq> Inr (c, t)" for c t
    using UpdateRule_Inr [of pg uuid down env fallback user ruleName request corr s c t] fails by blast
  then have "UpdateRule (rule_repository pg uuid down) env fallback user ruleName request corr s \<noteq> Inr r" for r
    by (cases r) blast
  moreover have "setEnabled (rule_repository pg uuid down) env fallback user ruleName enabled ty corr s \<noteq> Inr (c, t)" for enabled ty c t
    using setEnabled_Inr [of pg uuid down env fallback user ruleName enabled ty corr s c t] fails by blast
  then have "setEnabled (rule_repository pg uuid down) env fallback user ruleName enabled ty corr s \<noteq> Inr r" for enabled ty r
    by (cases r) blast
  ultimately show ?thesis unfolding EnableRule_def DisableRule_def by (metis sum.exhaust)
qed


subsection \<open>Which rules apply\<close>

lemma map_of_rev_find: "map_of (rev (map (\<lambda>c. (key c, c)) xs)) k = find_by key k (rev xs)"
  unfolding rev_map by (induction "rev xs" arbitrary: xs) (auto simp: sql_simps rev_swap [symmetric])

lemma find_by_permuted:
  assumes "distinct (map key xs)" "set ys = set xs" "distinct (map key ys)"
  shows "find_by key k ys = find_by key k xs"
proof (cases "find_by key k xs")
  case None
  then have "find_by key k ys = None" using assms(2) by (simp add: find_by_None_iff)
  then show ?thesis using None by simp
next
  case (Some r)
  have "r \<in> set ys" "key r = k" using find_by_Some [OF Some] assms(2) by simp_all
  then show ?thesis using find_by_unique [OF assms(3), of r] Some by simp
qed

lemma find_by_rule_key:
  "find_by ru_RuleName n (filter (\<lambda>r. ru_TenantID r = t) rows) = find_by rule_key (t, n) rows"
  by (induction rows) (auto simp: sql_simps rule_key_def)

lemma distinct_rule_names:
  assumes "distinct (map rule_key rows)"
  shows "distinct (map ru_RuleName (filter (\<lambda>r. ru_TenantID r = t) rows))"
  using assms by (induction rows) (auto simp: rule_key_def image_iff)

lemma find_ListRuleConfigs:
  assumes "distinct (map rule_key (rule_configs d))"
  shows "find_by ru_RuleName n (ListRuleConfigs t d) = find_by rule_key (alertTenant t, n) (rule_configs d)"
    "find_by ru_RuleName n (rev (ListRuleConfigs t d)) = find_by rule_key (alertTenant t, n) (rule_configs d)"
proof -
  let ?rows = "filter (\<lambda>r. ru_TenantID r = alertTenant t) (rule_configs d)"
  have names: "distinct (map ru_RuleName ?rows)" by (rule distinct_rule_names [OF assms])
  then have sorted: "distinct (map ru_RuleName (ListRuleConfigs t d))"
    by (simp add: ListRuleConfigs_def distinct_map)
  show "find_by ru_RuleName n (ListRuleConfigs t d) = find_by rule_key (alertTenant t, n) (rule_configs d)"
    using find_by_permuted [OF names _ sorted, of n] by (simp add: ListRuleConfigs_def find_by_rule_key)
  moreover have "find_by ru_RuleName n (rev (ListRuleConfigs t d)) = find_by ru_RuleName n (ListRuleConfigs t d)"
    using find_by_permuted [OF sorted, of "rev (ListRuleConfigs t d)" n] sorted by (simp add: rev_map [symmetric])
  ultimately show "find_by ru_RuleName n (rev (ListRuleConfigs t d)) = find_by rule_key (alertTenant t, n) (rule_configs d)"
    by simp
qed

lemma fold_fill:
  "fold (\<lambda>c m. if m (key c) = None then m(key c \<mapsto> f c) else m) xs m k =
    (case m k of Some v \<Rightarrow> Some v | None \<Rightarrow> map_option f (find_by key k xs))"
  by (induction xs arbitrary: m) (auto simp: sql_simps split: option.splits)

text \<open>The configuration of a rule: the tenant's row, else the default tenant's, else the start-up values.\<close>

definition effective_rule :: "(nat \<Rightarrow> string) \<Rightarrow> RuleThresholds \<Rightarrow> string \<Rightarrow> string \<Rightarrow> sdb \<Rightarrow> RuleConfig" where
  "effective_rule uuid fallback t n d =
     (case find_by rule_key (t, n) (rule_configs d) of
        Some c \<Rightarrow> c
      | None \<Rightarrow> (case find_by rule_key (''default-tenant'', n) (rule_configs d) of
                  Some c \<Rightarrow> c
                | None \<Rightarrow> fallbackDomainRuleConfig uuid t n fallback))"

lemma fallback_name: "IsKnownRule n \<Longrightarrow> ru_RuleName (fallbackDomainRuleConfig uuid t n fallback) = n"
  by (auto simp: IsKnownRule_def KnownRuleNames_def fallbackDomainRuleConfig_def DefaultDomainRuleConfigs_def
      default_rule_def sql_simps)

lemma effective_name: "IsKnownRule n \<Longrightarrow> ru_RuleName (effective_rule uuid fallback t n d) = n"
  using find_by_Some [of rule_key "(t, n)" "rule_configs d"] find_by_Some [of rule_key "(''default-tenant'', n)" "rule_configs d"]
  by (auto simp: effective_rule_def fallback_name rule_key_def split: option.splits)

lemma load_effective:
  assumes "distinct (map rule_key (rule_configs d))" "alertTenant (eventTenant t) = eventTenant t"
  shows "\<exists>f. LoadEffectiveRuleConfigs (rule_repository pg u None) uuid fallback t d = map f KnownRuleNames \<and>
    (\<forall>n. \<exists>own. f n = (effective_rule uuid fallback (eventTenant t) n d)\<lparr>ru_TenantID := own\<rparr>)"
proof -
  let ?t = "eventTenant t"
  let ?by = "map_of (rev (map (\<lambda>c. (ru_RuleName c, c)) (ListRuleConfigs ?t d)))"
  have by_rule: "?by n = find_by rule_key (?t, n) (rule_configs d)" for n
    unfolding map_of_rev_find find_ListRuleConfigs(2) [OF assms(1)] by (simp add: assms(2))
  let ?filled = "if ?t = ''default-tenant'' then ?by
     else fold (\<lambda>c m. if m (ru_RuleName c) = None then m(ru_RuleName c \<mapsto> c\<lparr>ru_TenantID := ?t\<rparr>) else m)
            (ListRuleConfigs ''default-tenant'' d) ?by"
  let ?f = "\<lambda>n. case ?filled n of Some config \<Rightarrow> config | None \<Rightarrow> fallbackDomainRuleConfig uuid ?t n fallback"
  have "LoadEffectiveRuleConfigs (rule_repository pg u None) uuid fallback t d = map ?f KnownRuleNames"
    by (simp add: LoadEffectiveRuleConfigs_def rule_repository_def via_def Let_def)
  moreover have self: "\<exists>own. c = c\<lparr>ru_TenantID := own\<rparr>" for c :: RuleConfig
    by (rule exI [of _ "ru_TenantID c"]) simp
  have "\<exists>own. ?f n = (effective_rule uuid fallback ?t n d)\<lparr>ru_TenantID := own\<rparr>" for n
  proof (cases "?t = ''default-tenant''")
    case True
    have "?filled n = find_by rule_key (?t, n) (rule_configs d)" using True by_rule by simp
    then have "?f n = effective_rule uuid fallback ?t n d" unfolding effective_rule_def True by (simp split: option.split)
    then show ?thesis using self by simp
  next
    case False
    have default: "find_by ru_RuleName n (ListRuleConfigs ''default-tenant'' d) = find_by rule_key (''default-tenant'', n) (rule_configs d)"
      using find_ListRuleConfigs(1) [OF assms(1), of n "''default-tenant''"] by (simp only: alertTenant_default)
    have fill: "?filled n = (case find_by rule_key (?t, n) (rule_configs d) of Some v \<Rightarrow> Some v
       | None \<Rightarrow> map_option (\<lambda>c. c\<lparr>ru_TenantID := ?t\<rparr>) (find_by rule_key (''default-tenant'', n) (rule_configs d)))"
      using False by (simp add: fold_fill by_rule default cong: option.case_cong)
    show ?thesis unfolding fill effective_rule_def using self by (auto split: option.splits)
  qed
  ultimately show ?thesis by blast
qed


lemma GetRule_effective:
  assumes "alert_viewer (us_Roles user)" "IsKnownRule n" "alertTenant (eventTenant (us_TenantID user)) = eventTenant (us_TenantID user)"
  shows "GetRule (rule_repository pg u None) uuid fallback user n s =
    Inr (effective_rule uuid fallback (eventTenant (us_TenantID user)) n (sv_store s))"
  using assms
  by (auto simp: GetRule_def rule_repository_def via_def GetRuleConfig_def getRuleConfigExact_def effective_rule_def
      split: option.splits)

lemma overlay_tenant [simp]: "overlay_setting (c\<lparr>ru_TenantID := t\<rparr>) setting = overlay_setting c setting"
  by (simp add: overlay_setting_def)

lemma map_of_named:
  assumes "n \<in> set ns" "\<And>m. m \<in> set ns \<Longrightarrow> ru_RuleName (f m) = m"
  shows "map_of (rev (map (\<lambda>c. (ru_RuleName c, c)) (map f ns))) n = Some (f n)"
proof -
  have "rev (map (\<lambda>c. (ru_RuleName c, c)) (map f ns)) = map (\<lambda>m. (m, f m)) (rev ns)"
    using assms(2) by (simp add: rev_map)
  moreover have "map_of (map (\<lambda>m. (m, f m)) ms) n = (if n \<in> set ms then Some (f n) else None)" for ms
    by (induction ms) auto
  ultimately show ?thesis using assms(1) by simp
qed

lemma ruleSetting_own:
  assumes "en_ruleConfigs e (eventTenant t) = Some byRule" "byRule n = Some c"
  shows "ruleSetting e t n = overlay_setting c (fallbackSetting e n)"
  using assms by (simp add: ruleSetting_def)

text \<open>the rules the engine applies are the rules the API shows. After the engine has reloaded a tenant,
  the setting it evaluates a known rule with for that tenant is the configuration that reading the rule
  returns - the tenant's row, else the default tenant's, else the values the service was started with -
  laid over the engine's own start-up setting.\<close>

theorem engine_applies_shown_rules:
  assumes "distinct (map rule_key (rule_configs (sv_store s)))" "alert_viewer (us_Roles user)" "IsKnownRule ruleName"
    "alertTenant (eventTenant (us_TenantID user)) = eventTenant (us_TenantID user)"
  shows "\<exists>config. GetRule (rule_repository pg u None) uuid fallback user ruleName s = Inr config \<and>
    ruleSetting (sv_engine (refreshTenant (rule_repository pg u None) uuid fallback (us_TenantID user) s)) (us_TenantID user) ruleName =
      overlay_setting config (fallbackSetting (sv_engine s) ruleName)"
proof -
  let ?t = "us_TenantID user" and ?d = "sv_store s"
  let ?e = "sv_engine (refreshTenant (rule_repository pg u None) uuid fallback ?t s)"
  let ?c = "\<lambda>n. effective_rule uuid fallback (eventTenant ?t) n ?d"
  obtain f where f: "LoadEffectiveRuleConfigs (rule_repository pg u None) uuid fallback ?t ?d = map f KnownRuleNames"
    "\<And>n. \<exists>own. f n = (?c n)\<lparr>ru_TenantID := own\<rparr>"
    using load_effective [OF assms(1,4)] by blast
  have names: "ru_RuleName (f m) = m" if "m \<in> set KnownRuleNames" for m
  proof -
    obtain own where "f m = (?c m)\<lparr>ru_TenantID := own\<rparr>" using f(2) by blast
    then show ?thesis using effective_name [of m] that by (simp add: IsKnownRule_def)
  qed
  have twice: "eventTenant (eventTenant ?t) = eventTenant ?t" by (simp add: eventTenant_def)
  have "en_ruleConfigs ?e (eventTenant ?t) = Some (map_of (rev (map (\<lambda>c. (ru_RuleName c, c)) (map f KnownRuleNames))))"
    unfolding refreshTenant_def f(1) by (simp add: SetTenantRuleConfigs_def twice del: map_map)
  moreover have "map_of (rev (map (\<lambda>c. (ru_RuleName c, c)) (map f KnownRuleNames))) ruleName = Some (f ruleName)"
    by (rule map_of_named) (use assms(3) names in \<open>simp_all add: IsKnownRule_def\<close>)
  ultimately have "ruleSetting ?e ?t ruleName = overlay_setting (f ruleName) (fallbackSetting ?e ruleName)"
    by (rule ruleSetting_own)
  moreover have "fallbackSetting ?e = fallbackSetting (sv_engine s)"
    by (rule ext) (simp add: fallbackSetting_def refreshTenant_def SetTenantRuleConfigs_def)
  moreover have "overlay_setting (f ruleName) = overlay_setting (?c ruleName)" using f(2) [of ruleName] by fastforce
  ultimately show ?thesis using GetRule_effective [OF assms(2,3,4)] by simp
qed


subsection \<open>A run\<close>

definition ex_pg :: pg_uuid where
  "ex_pg x = (if x = '''' then None else Some x)"

lemma ex_pg_reader: "uuid_reader ex_pg"
  by (simp add: uuid_reader_def ex_pg_def)

definition ex_ids :: "nat \<Rightarrow> string" where
  "ex_ids n = replicate (n + 1) (CHR ''u'')"

definition ex_service_env :: service_env where
  "ex_service_env = \<lparr>vc_now = 5, vc_uuid = ex_ids, vc_publishes = (\<lambda>_. True)\<rparr>"

definition ex_manager :: surveillance_user where
  "ex_manager = \<lparr>us_UserID = ''m'', us_TenantID = ''t1'', us_Roles = [''risk_manager'', ''viewer'']\<rparr>"

definition ex_risk_event :: SourceEvent where
  "ex_risk_event = \<lparr>se_Topic = ''risk.score.updated'', se_Key = '''',
     se_Value = Json (JObj [(''tenantId'', JStr ''t1''), (''portfolioId'', JStr ''p1''), (''score'', JNum 95)]),
     se_CorrelationID = ''c'', se_TraceParent = ''''\<rparr>"

definition ex_start :: "sdb surveillance" where
  "ex_start = \<lparr>sv_store = \<lparr>surveillance_alerts = [], rule_executions = [], rule_configs = []\<rparr>,
     sv_engine = NewRuleEngine ex_thresholds, sv_alert_events = [], sv_rule_events = []\<rparr>"

text \<open>The start-up, a risk score that breaches the threshold, the same event again, an acknowledgement.\<close>

definition ex_ready :: "sdb surveillance" where
  "ex_ready = snd (EnsureDefaults (rule_repository ex_pg ex_ids None) ex_service_env ex_thresholds ''default-tenant'' ex_start)"

definition ex_alerted :: "sdb surveillance" where
  "ex_alerted = snd (ProcessEvent (alert_repository ex_pg None) \<lparr>ev_uuid = ex_ids, ev_ms = (\<lambda>_. 0)\<rparr> ex_service_env
     ex_risk_event ex_ready)"

definition ex_again :: "sdb surveillance" where
  "ex_again = snd (ProcessEvent (alert_repository ex_pg None) \<lparr>ev_uuid = (\<lambda>n. ex_ids (n + 10)), ev_ms = (\<lambda>_. 0)\<rparr> ex_service_env
     ex_risk_event ex_alerted)"

definition ex_acknowledged :: "surveillance_error + (Alert \<times> sdb surveillance)" where
  "ex_acknowledged = Acknowledge (alert_repository ex_pg None) ex_service_env ex_manager ''uu'' ''c'' ex_again"

lemma ex_start_ok: "surveillance_ok ex_pg ex_start"
  by (simp add: surveillance_ok_def alerts_ok_def rules_ok_def ex_start_def)

lemma ex_run: "(surveillance_step ex_pg ex_thresholds)\<^sup>*\<^sup>* ex_start ex_again"
proof -
  have "surveillance_step ex_pg ex_thresholds ex_start ex_ready"
    unfolding ex_ready_def by (rule surveillance_step.defaults [OF prod.collapse [symmetric]])
  moreover have "surveillance_step ex_pg ex_thresholds ex_ready ex_alerted"
    unfolding ex_alerted_def by (rule surveillance_step.event [OF prod.collapse [symmetric]])
  moreover have "surveillance_step ex_pg ex_thresholds ex_alerted ex_again"
    unfolding ex_again_def by (rule surveillance_step.event [OF prod.collapse [symmetric]])
  ultimately show ?thesis by (meson rtranclp.rtrancl_into_rtrancl rtranclp.rtrancl_refl)
qed


lemma alert_transition_outcome_witness:
  "\<exists>r. List.find (own_alert ''t1'' ''uu'') (surveillance_alerts (sv_store ex_again)) = Some r \<and>
    (\<exists>s'. alert_transition (alert_repository ex_pg None) ex_service_env ex_manager ''uu'' Dismissed ''surveillance.alert.dismissed'' ''c''
      ex_again = Inr (scan_alert (stamp_alert Dismissed 5 r), s'))"
proof -
  have ok: "alerts_ok (sv_store ex_again)"
    using steps_effect [OF ex_run ex_pg_reader ex_start_ok] by (simp add: surveillance_ok_def)
  have "List.find (own_alert ''t1'' ''uu'') (surveillance_alerts (sv_store ex_again)) \<noteq> None" by code_simp
  then obtain r where r: "List.find (own_alert ''t1'' ''uu'') (surveillance_alerts (sv_store ex_again)) = Some r" by blast
  have user: "alert_manager (us_Roles ex_manager)" "eventTenant (us_TenantID ex_manager) = ''t1''" by code_simp+
  have id: "ex_pg ''uu'' = Some ''uu''" by (simp add: ex_pg_def)
  have now: "vc_now ex_service_env = 5" by (simp add: ex_service_env_def)
  show ?thesis
    using alert_transition_outcome [where user = ex_manager and pg = ex_pg and i = "''uu''" and u = "''uu''" and st = Dismissed
        and s = ex_again and env = ex_service_env and ty = "''surveillance.alert.dismissed''" and corr = "''c''"] user(1) id ok
    unfolding user(2) r now by auto
qed

lemma tenants_cannot_configure_rules_witness:
  "\<exists>err. EnableRule (rule_repository ex_pg ex_ids None) ex_service_env ex_thresholds ex_manager RuleLargeOrder ''c'' ex_again = Inl err"
proof -
  have "alertTenant (us_TenantID ex_manager) \<noteq> ''default-tenant''" by code_simp
  from tenants_cannot_configure_rules [OF ex_run ex_pg_reader ex_start_ok this] show ?thesis by blast
qed

lemma engine_applies_shown_rules_witness:
  "\<exists>config. GetRule (rule_repository ex_pg ex_ids None) ex_ids ex_thresholds ex_manager RuleRiskScoreBreach ex_again = Inr config \<and>
    es_Severity (ruleSetting (sv_engine (refreshTenant (rule_repository ex_pg ex_ids None) ex_ids ex_thresholds ''t1'' ex_again))
      ''t1'' RuleRiskScoreBreach) = ru_Severity config \<and> ru_Severity config = SeverityHigh"
proof -
  have d: "distinct (map rule_key (rule_configs (sv_store ex_again)))"
    using steps_effect [OF ex_run ex_pg_reader ex_start_ok] by (simp add: surveillance_ok_def rules_ok_def)
  have user: "alert_viewer (us_Roles ex_manager)" "IsKnownRule RuleRiskScoreBreach"
    "alertTenant (eventTenant (us_TenantID ex_manager)) = eventTenant (us_TenantID ex_manager)" by code_simp+
  have t: "us_TenantID ex_manager = ''t1''" by (simp add: ex_manager_def)
  obtain config where c: "GetRule (rule_repository ex_pg ex_ids None) ex_ids ex_thresholds ex_manager RuleRiskScoreBreach ex_again = Inr config"
    "ruleSetting (sv_engine (refreshTenant (rule_repository ex_pg ex_ids None) ex_ids ex_thresholds ''t1'' ex_again))
      ''t1'' RuleRiskScoreBreach = overlay_setting config (fallbackSetting (sv_engine ex_again) RuleRiskScoreBreach)"
    using engine_applies_shown_rules [OF d user, of ex_pg ex_ids ex_ids ex_thresholds] unfolding t by blast
  have "map_sum (\<lambda>_. ()) ru_Severity (GetRule (rule_repository ex_pg ex_ids None) ex_ids ex_thresholds ex_manager RuleRiskScoreBreach ex_again)
      = Inr SeverityHigh" by code_simp
  then have "ru_Severity config = SeverityHigh" unfolding c(1) by simp
  then show ?thesis using c by (auto simp: overlay_setting_def)
qed

end
