(* ===== verification/AuditService.thy ===== *)
theory AuditService
  imports EventConsumer PgColumns
begin

text \<open>
  The audit service: \<open>internal/domain\<close>, \<open>internal/service/event_normalizer.go\<close>,
  \<open>internal/service/audit_service.go\<close> and \<open>internal/repository/audit_repository.go\<close>. An event of any topic
  becomes one row of the audit log under its source event key; users read, summarise and export the rows
  of their tenant. The UUIDs the service draws are a supply that its state walks through; the clock,
  failing statements and the producer come from the environment of a call, what \<open>time.Parse\<close> reads of a
  text (with the text that \<open>Format(RFC3339Nano)\<close> gives of it) is a parameter. Metrics and the trace
  context the producer adds are left out.
\<close>

subsection \<open>Domain types\<close>

abbreviation "SeverityInfo \<equiv> ''INFO''"
abbreviation "SeverityWarning \<equiv> ''WARNING''"
abbreviation "AuditHigh \<equiv> ''HIGH''"
abbreviation "AuditCritical \<equiv> ''CRITICAL''"

record AuditLog =
  lo_ID :: string
  lo_TenantID :: string
  lo_EventType :: string
  lo_ServiceName :: string
  lo_ActorUserID :: "string option"
  lo_ActorRole :: "string option"
  lo_EntityType :: "string option"
  lo_EntityID :: "string option"
  lo_Action :: string
  lo_Description :: string
  lo_Severity :: string
  lo_CorrelationID :: "string option"
  lo_IPAddress :: "string option"
  lo_UserAgent :: "string option"
  lo_Metadata :: "(string \<times> json) list"
  lo_SourceEventKey :: "string option"
  lo_CreatedAt :: time

record AuditEvent =
  an_TenantID :: string
  an_EventType :: string
  an_ServiceName :: string
  an_ActorUserID :: "string option"
  an_ActorRole :: "string option"
  an_EntityType :: "string option"
  an_EntityID :: "string option"
  an_Action :: string
  an_Description :: string
  an_Severity :: string
  an_CorrelationID :: "string option"
  an_IPAddress :: "string option"
  an_UserAgent :: "string option"
  an_Metadata :: "(string \<times> json) list"
  an_SourceEventKey :: "string option"
  an_CreatedAt :: time

record ExportRequest =
  xr_ID :: string
  xr_TenantID :: string
  xr_RequestedBy :: "string option"
  xr_Filters :: "(string \<times> json) list"
  xr_Status :: string
  xr_FileName :: "string option"
  xr_RecordCount :: int
  xr_CreatedAt :: time

record AuditLogEvent =
  le_EventID :: string
  le_EventType :: string
  le_EventVersion :: string
  le_TenantID :: string
  le_AuditLogID :: string
  le_ServiceName :: string
  le_Action :: string
  le_Severity :: string
  le_EntityType :: "string option"
  le_EntityID :: "string option"
  le_ActorUserID :: "string option"
  le_CorrelationID :: "string option"
  le_Metadata :: "(string \<times> json) list"
  le_OccurredAt :: time

datatype audit_error = LogNotFound | LogDuplicate | LogDatabase string | LogForbidden | InvalidExportFormat
  | InvalidPayload | MissingAction

subsection \<open>Normalising an event\<close>

record audit_env =
  ue_now :: time
  ue_nowText :: string
  ue_down :: "nat \<Rightarrow> bool"
  ue_publishes :: bool

type_synonym parse_time = "string \<Rightarrow> (time \<times> string) option"

text \<open>The tenant of a payload, blank for missing: the service's \<open>defaultTenant\<close> looks at the trimmed text, the
  repository's at the text.\<close>

definition serviceTenant :: "string \<Rightarrow> string" where
  "serviceTenant v = (if trim_space v = '''' then ''default-tenant'' else v)"

definition repositoryTenant :: "string \<Rightarrow> string" where
  "repositoryTenant v = (if v = '''' then ''default-tenant'' else v)"

definition parseTime :: "parse_time \<Rightarrow> audit_env \<Rightarrow> string \<Rightarrow> time \<times> string" where
  "parseTime parse env v =
     (case (if v = '''' then None else parse v) of Some p \<Rightarrow> p | None \<Rightarrow> (ue_now env, ue_nowText env))"

definition number_of :: "(string \<times> json) list \<Rightarrow> string \<Rightarrow> float64" where
  "number_of payload key = (case member_of payload key of JNum q \<Rightarrow> q | _ \<Rightarrow> 0)"

definition audit_text :: "string \<Rightarrow> string" where
  "audit_text action = map (\<lambda>c. if c = CHR ''_'' then CHR '' '' else c) (to_lower action)"

definition description :: "string \<Rightarrow> string option \<Rightarrow> string option \<Rightarrow> string" where
  "description action entityType entityID =
     (case (entityType, entityID) of
        (Some ty, Some i) \<Rightarrow> if i = '''' then audit_text action else audit_text action @ '' '' @ ty @ '' '' @ i
      | _ \<Rightarrow> audit_text action)"

definition ptrValue :: "string option \<Rightarrow> string" where
  "ptrValue v = coalesce v ''''"

definition sourceEventKey :: "string \<Rightarrow> string \<Rightarrow> string \<Rightarrow> string \<Rightarrow> string \<Rightarrow> string" where
  "sourceEventKey topic action entityID eventID createdAt =
     (if eventID \<noteq> '''' then topic @ '':'' @ eventID
      else topic @ '':'' @ action @ '':'' @ entityID @ '':'' @ createdAt)"

text \<open>The switch over the topics: service, action, entity type, the first key of the entity's id, and the
  severity where it does not depend on the payload.\<close>

definition topic_cases :: "(string \<times> string \<times> string \<times> string \<times> string \<times> string) list" where
  "topic_cases =
    [(''user.registered'', ''identity-service'', ''USER_REGISTERED'', ''USER'', ''userId'', SeverityInfo),
     (''user.login'', ''identity-service'', ''USER_LOGIN'', ''USER'', ''userId'', SeverityInfo),
     (''user.logout'', ''identity-service'', ''USER_LOGOUT'', ''USER'', ''userId'', SeverityInfo),
     (''order.created'', ''order-service'', ''ORDER_CREATED'', ''ORDER'', ''orderId'', SeverityInfo),
     (''order.cancelled'', ''order-service'', ''ORDER_CANCELLED'', ''ORDER'', ''orderId'', SeverityWarning),
     (''order.filled'', ''order-service'', ''ORDER_FILLED'', ''ORDER'', ''orderId'', SeverityInfo),
     (''portfolio.updated'', ''portfolio-service'', ''PORTFOLIO_UPDATED'', ''PORTFOLIO'', ''portfolioId'', SeverityInfo),
     (''risk.score.updated'', ''risk-engine-service'', ''RISK_SCORE_UPDATED'', ''PORTFOLIO'', ''portfolioId'', SeverityInfo),
     (''risk.breached'', ''risk-engine-service'', ''RISK_BREACHED'', ''PORTFOLIO'', ''portfolioId'', AuditHigh),
     (''surveillance.alert.created'', ''surveillance-service'', ''SURVEILLANCE_ALERT_CREATED'', ''ALERT'', ''alertId'', SeverityWarning),
     (''surveillance.alert.acknowledged'', ''surveillance-service'', ''SURVEILLANCE_ALERT_ACKNOWLEDGED'', ''ALERT'', ''alertId'', SeverityInfo),
     (''surveillance.alert.resolved'', ''surveillance-service'', ''SURVEILLANCE_ALERT_RESOLVED'', ''ALERT'', ''alertId'', SeverityInfo),
     (''surveillance.alert.dismissed'', ''surveillance-service'', ''SURVEILLANCE_ALERT_DISMISSED'', ''ALERT'', ''alertId'', SeverityInfo),
     (''notification.read'', ''notification-service'', ''NOTIFICATION_READ'', ''NOTIFICATION'', ''notificationId'', SeverityInfo),
     (''notification.failed'', ''notification-service'', ''NOTIFICATION_FAILED'', ''NOTIFICATION'', ''notificationId'', SeverityWarning),
     (''notification.sent'', ''notification-service'', ''NOTIFICATION_SENT'', ''NOTIFICATION'', ''notificationId'', SeverityInfo),
     (''notification.retry_requested'', ''notification-service'', ''NOTIFICATION_RETRY_REQUESTED'', ''NOTIFICATION'', ''notificationId'', SeverityWarning)]"

definition event_severity :: "string \<Rightarrow> (string \<times> json) list \<Rightarrow> string \<Rightarrow> string" where
  "event_severity topic data severity =
     (if topic = ''risk.score.updated'' then (if number_of data ''score'' \<ge> 80 then SeverityWarning else SeverityInfo)
      else if topic = ''surveillance.alert.created''
        then (if to_upper (firstString data [''severity'']) \<in> {AuditHigh, AuditCritical} then AuditHigh else SeverityWarning)
      else severity)"

text \<open>The arguments of \<open>apply\<close>: service, action, entity type, entity id, severity.\<close>

definition applied :: "string \<Rightarrow> (string \<times> json) list \<Rightarrow> string \<times> string \<times> string \<times> string \<times> string" where
  "applied topic data =
     (case map_of topic_cases topic of
        None \<Rightarrow> (''unknown-service'', ''EVENT_OBSERVED'', ''EVENT'', topic, SeverityInfo)
      | Some (service, action, entityType, key, severity) \<Rightarrow>
          (service, action, entityType, firstString data [key, ''id''], event_severity topic data severity))"

definition event_data :: "payload \<Rightarrow> (string \<times> json) list option" where
  "event_data payload = (case payload of NoBytes \<Rightarrow> Some [] | NotJson \<Rightarrow> None | Json v \<Rightarrow> json_members (Some v))"

definition baseEvent :: "parse_time \<Rightarrow> audit_env \<Rightarrow> string \<Rightarrow> payload \<Rightarrow> (string \<times> json) list \<Rightarrow> string \<Rightarrow> AuditEvent" where
  "baseEvent parse env topic payload data corr0 =
     (let corr = (if corr0 = '''' then firstString data [''correlationId'', ''correlation_id''] else corr0)
      in \<lparr>an_TenantID = serviceTenant (firstString data [''tenantId'', ''tenant_id'']), an_EventType = topic,
          an_ServiceName = '''', an_ActorUserID = None, an_ActorRole = None, an_EntityType = None, an_EntityID = None,
          an_Action = '''', an_Description = '''', an_Severity = '''', an_CorrelationID = some_text corr,
          an_IPAddress = None, an_UserAgent = None,
          an_Metadata = [(''originalPayload'', if payload = Json JNull then JNull else JObj data)],
          an_SourceEventKey = None,
          an_CreatedAt = fst (parseTime parse env (firstString data [''occurredAt'', ''createdAt'', ''timestamp'']))\<rparr>)"

definition NormalizeEvent :: "parse_time \<Rightarrow> audit_env \<Rightarrow> string \<Rightarrow> payload \<Rightarrow> string \<Rightarrow> audit_error + AuditEvent" where
  "NormalizeEvent parse env topic payload corr =
     (case event_data payload of
        None \<Rightarrow> Inl InvalidPayload
      | Some data \<Rightarrow>
          (let base = baseEvent parse env topic payload data corr;
               (service, action, entityType, entityID, severity) = applied topic data
           in if action = '''' then Inl MissingAction
              else Inr (base\<lparr>an_ServiceName := service, an_Action := action, an_EntityType := some_text entityType,
                an_EntityID := some_text entityID, an_Severity := severity,
                an_ActorUserID := some_text (firstString data [''userId'', ''actorUserId'', ''actor_user_id'']),
                an_ActorRole := some_text (firstString data [''role'', ''actorRole'', ''actor_role'']),
                an_IPAddress := some_text (firstString data [''ipAddress'', ''ip_address'']),
                an_UserAgent := some_text (firstString data [''userAgent'', ''user_agent'']),
                an_Description := description action (some_text entityType) (some_text entityID),
                an_SourceEventKey := Some (sourceEventKey topic action (ptrValue (some_text entityID))
                  (firstString data [''eventId'', ''id''])
                  (snd (parseTime parse env (firstString data [''occurredAt'', ''createdAt'', ''timestamp'']))))\<rparr>)))"

subsection \<open>Tables\<close>

text \<open>A row of \<open>audit_logs\<close>: its \<open>tenant_id\<close>, which may be NULL, and the other columns; and the state of the
  service with its tables, what it published and the UUIDs to come.\<close>

type_synonym audit_row = "string option \<times> AuditLog"

record audit_state =
  audit_logs :: "audit_row list"
  audit_export_requests :: "ExportRequest list"
  audit_events :: "AuditLogEvent list"
  audit_uuids :: "nat \<Rightarrow> string"
  audit_drawn :: nat

definition NewString :: "audit_state \<Rightarrow> string \<times> audit_state" where
  "NewString s = (audit_uuids s (audit_drawn s), s\<lparr>audit_drawn := audit_drawn s + 1\<rparr>)"

definition audit_row_of :: "pg_uuid \<Rightarrow> AuditLog \<Rightarrow> audit_row option" where
  "audit_row_of pg entry =
     (case (pg (lo_ID entry), opt_uuid pg (lo_ActorUserID entry)) of
        (Some i, Some actor) \<Rightarrow>
          if pg_text 100 (repositoryTenant (lo_TenantID entry)) \<and> pg_text 150 (lo_EventType entry) \<and>
             pg_text 100 (lo_ServiceName entry) \<and> opt_all (pg_text 100) (lo_ActorRole entry) \<and>
             opt_all (pg_text 100) (lo_EntityType entry) \<and> opt_all (pg_text 150) (lo_EntityID entry) \<and>
             pg_text 100 (lo_Action entry) \<and> CHR 0x00 \<notin> set (lo_Description entry) \<and> pg_text 30 (lo_Severity entry) \<and>
             opt_all (pg_text 150) (lo_CorrelationID entry) \<and> opt_all (pg_text 100) (lo_IPAddress entry) \<and>
             opt_all (\<lambda>s. CHR 0x00 \<notin> set s) (lo_UserAgent entry) \<and> pg_json (JObj (lo_Metadata entry)) \<and>
             opt_all (pg_text 255) (lo_SourceEventKey entry)
          then Some (Some (repositoryTenant (lo_TenantID entry)), entry\<lparr>lo_ID := i, lo_ActorUserID := actor\<rparr>)
          else None
      | _ \<Rightarrow> None)"

text \<open>The INSERT; both unique indexes raise the error that is taken for a duplicate.\<close>

definition CreateAuditLog :: "pg_uuid \<Rightarrow> audit_env \<Rightarrow> AuditLog \<Rightarrow> audit_state \<Rightarrow> audit_error + (AuditLog \<times> audit_state)" where
  "CreateAuditLog pg env given s =
     (let entry = given\<lparr>lo_CreatedAt := (if lo_CreatedAt given = zero_time then ue_now env else lo_CreatedAt given),
                     lo_Severity := (if lo_Severity given = '''' then SeverityInfo else lo_Severity given)\<rparr>
      in if ue_down env 0 then Inl (LogDatabase ''connection'')
         else case audit_row_of pg entry of
           None \<Rightarrow> Inl (LogDatabase ''audit_logs'')
         | Some row \<Rightarrow>
             if lo_ID (snd row) \<in> (\<lambda>r. lo_ID (snd r)) ` set (audit_logs s) \<or>
                (lo_SourceEventKey entry \<noteq> None \<and>
                 lo_SourceEventKey entry \<in> (\<lambda>r. lo_SourceEventKey (snd r)) ` set (audit_logs s))
             then Inl LogDuplicate
             else Inr (entry, s\<lparr>audit_logs := audit_logs s @ [row]\<rparr>))"

subsection \<open>Reading the log\<close>

record AuditFilters =
  af_TenantID :: string
  af_EventType :: string
  af_ServiceName :: string
  af_ActorUserID :: string
  af_EntityType :: string
  af_EntityID :: string
  af_Action :: string
  af_Severity :: string
  af_CorrelationID :: string
  af_From :: "time option"
  af_To :: "time option"
  af_Limit :: int
  af_Offset :: int

record AuditSummary =
  as_Total :: nat
  as_Last24Hours :: nat
  as_ByService :: "(string \<times> nat) list"
  as_ByEventType :: "(string \<times> nat) list"
  as_BySeverity :: "(string \<times> nat) list"
  as_ByAction :: "(string \<times> nat) list"

definition row_tenant :: "audit_row \<Rightarrow> string" where
  "row_tenant r = coalesce (fst r) ''default-tenant''"

definition scanAuditLog :: "audit_row \<Rightarrow> AuditLog" where
  "scanAuditLog r = (snd r)\<lparr>lo_TenantID := row_tenant r\<rparr>"

definition GetAuditLogByID :: "pg_uuid \<Rightarrow> audit_env \<Rightarrow> string \<Rightarrow> string \<Rightarrow> audit_state \<Rightarrow> audit_error + AuditLog" where
  "GetAuditLogByID pg env tenantID i s =
     (if ue_down env 0 then Inl (LogDatabase ''connection'')
      else case pg i of
        None \<Rightarrow> Inl (LogDatabase ''uuid'')
      | Some u \<Rightarrow>
          (case List.find (\<lambda>r. lo_ID (snd r) = u \<and> row_tenant r = repositoryTenant tenantID) (audit_logs s) of
             None \<Rightarrow> Inl LogNotFound
           | Some r \<Rightarrow> Inr (scanAuditLog r)))"

text \<open>A clause \<open>value = '' OR column = value\<close>; NULL equals nothing.\<close>

definition optional_match :: "string option \<Rightarrow> string \<Rightarrow> bool" where
  "optional_match column v \<longleftrightarrow> v = '''' \<or> column = Some v"

definition log_matches :: "AuditFilters \<Rightarrow> audit_row \<Rightarrow> bool" where
  "log_matches f r \<longleftrightarrow>
     (let entry = snd r in
      row_tenant r = repositoryTenant (af_TenantID f) \<and>
      optional_match (Some (lo_EventType entry)) (af_EventType f) \<and>
      optional_match (Some (lo_ServiceName entry)) (af_ServiceName f) \<and>
      optional_match (lo_ActorUserID entry) (af_ActorUserID f) \<and>
      optional_match (lo_EntityType entry) (af_EntityType f) \<and>
      optional_match (lo_EntityID entry) (af_EntityID f) \<and>
      optional_match (Some (lo_Action entry)) (af_Action f) \<and>
      optional_match (Some (lo_Severity entry)) (af_Severity f) \<and>
      optional_match (lo_CorrelationID entry) (af_CorrelationID f) \<and>
      opt_all (\<lambda>t. lo_CreatedAt entry \<ge> t) (af_From f) \<and> opt_all (\<lambda>t. lo_CreatedAt entry \<le> t) (af_To f))"

definition ListAuditLogs :: "audit_env \<Rightarrow> AuditFilters \<Rightarrow> audit_state \<Rightarrow> audit_error + AuditLog list" where
  "ListAuditLogs env f s =
     (if ue_down env 0 \<or> af_Limit f < 0 \<or> af_Offset f < 0 then Inl (LogDatabase ''query'')
      else Inr (map scanAuditLog (limit_rows (af_Limit f) (drop (nat (af_Offset f))
        (sort_key (\<lambda>r. - lo_CreatedAt (snd r)) (filter (log_matches f) (audit_logs s)))))))"

text \<open>Six statements, each of which may fail.\<close>

definition GetAuditSummary :: "audit_env \<Rightarrow> AuditFilters \<Rightarrow> audit_state \<Rightarrow> audit_error + AuditSummary" where
  "GetAuditSummary env f s =
     (let own = filter (\<lambda>r. row_tenant r = repositoryTenant (af_TenantID f)) (audit_logs s)
      in if list_ex (ue_down env) [0..<6] then Inl (LogDatabase ''query'')
         else Inr \<lparr>as_Total = length own,
           as_Last24Hours = rows_affected (\<lambda>r. lo_CreatedAt (snd r) \<ge> ue_now env - 24 * 60 * Minute) own,
           as_ByService = scanCounts (\<lambda>r. lo_ServiceName (snd r)) own,
           as_ByEventType = scanCounts (\<lambda>r. lo_EventType (snd r)) own,
           as_BySeverity = scanCounts (\<lambda>r. lo_Severity (snd r)) own,
           as_ByAction = scanCounts (\<lambda>r. lo_Action (snd r)) own\<rparr>)"

definition ExportAuditLogs :: "audit_env \<Rightarrow> AuditFilters \<Rightarrow> audit_state \<Rightarrow> audit_error + AuditLog list" where
  "ExportAuditLogs env f = ListAuditLogs env
     (f\<lparr>af_Limit := (if af_Limit f \<le> 0 \<or> af_Limit f > 1000 then 1000 else af_Limit f)\<rparr>)"

text \<open>The second statement of an export. The id is drawn in any case.\<close>

definition CreateExportRequest :: "pg_uuid \<Rightarrow> audit_env \<Rightarrow> ExportRequest \<Rightarrow> audit_state \<Rightarrow> audit_state" where
  "CreateExportRequest pg env request0 s0 =
     (let (i, s) = (if xr_ID request0 = '''' then NewString s0 else (xr_ID request0, s0));
          request = request0\<lparr>xr_ID := i, xr_TenantID := repositoryTenant (xr_TenantID request0),
            xr_Status := (if xr_Status request0 = '''' then ''COMPLETED'' else xr_Status request0),
            xr_CreatedAt := (if xr_CreatedAt request0 = zero_time then ue_now env else xr_CreatedAt request0)\<rparr>
      in case (pg i, opt_uuid pg (xr_RequestedBy request)) of
           (Some u, Some by_user) \<Rightarrow>
             if ue_down env 1 \<or> u \<in> xr_ID ` set (audit_export_requests s) \<or>
                \<not> (pg_text 100 (xr_TenantID request) \<and> pg_text 30 (xr_Status request) \<and>
                   opt_all (pg_text 255) (xr_FileName request) \<and> pg_int4 (xr_RecordCount request) \<and>
                   pg_json (JObj (xr_Filters request)))
             then s
             else s\<lparr>audit_export_requests := audit_export_requests s @
                      [request\<lparr>xr_ID := u, xr_RequestedBy := by_user\<rparr>]\<rparr>
         | _ \<Rightarrow> s)"

subsection \<open>The service\<close>

record audit_user =
  ux_UserID :: string
  ux_TenantID :: string
  ux_Roles :: "string list"

definition canRead :: "string list \<Rightarrow> bool" where
  "canRead roles \<longleftrightarrow> list_ex (\<lambda>r. r \<in> {''trading_admin'', ''risk_manager'', ''analyst''}) roles"

definition canExport :: "string list \<Rightarrow> bool" where
  "canExport roles \<longleftrightarrow> list_ex (\<lambda>r. r \<in> {''trading_admin'', ''risk_manager''}) roles"

definition log_of :: "string \<Rightarrow> AuditEvent \<Rightarrow> AuditLog" where
  "log_of i event =
     \<lparr>lo_ID = i, lo_TenantID = serviceTenant (an_TenantID event), lo_EventType = an_EventType event,
      lo_ServiceName = an_ServiceName event, lo_ActorUserID = an_ActorUserID event, lo_ActorRole = an_ActorRole event,
      lo_EntityType = an_EntityType event, lo_EntityID = an_EntityID event, lo_Action = an_Action event,
      lo_Description = an_Description event, lo_Severity = an_Severity event, lo_CorrelationID = an_CorrelationID event,
      lo_IPAddress = an_IPAddress event, lo_UserAgent = an_UserAgent event, lo_Metadata = an_Metadata event,
      lo_SourceEventKey = an_SourceEventKey event, lo_CreatedAt = an_CreatedAt event\<rparr>"

text \<open>The producer sets the version; a failing publication is only logged.\<close>

definition publishAuditLog :: "audit_env \<Rightarrow> AuditLog \<Rightarrow> audit_state \<Rightarrow> audit_state" where
  "publishAuditLog env created s0 =
     (let (i, s) = NewString s0
      in if \<not> ue_publishes env then s
         else s\<lparr>audit_events := audit_events s @
           [\<lparr>le_EventID = i, le_EventType = ''audit.log.created'', le_EventVersion = ''1.0'',
             le_TenantID = serviceTenant (lo_TenantID created), le_AuditLogID = lo_ID created,
             le_ServiceName = lo_ServiceName created, le_Action = lo_Action created, le_Severity = lo_Severity created,
             le_EntityType = lo_EntityType created, le_EntityID = lo_EntityID created,
             le_ActorUserID = lo_ActorUserID created, le_CorrelationID = lo_CorrelationID created,
             le_Metadata = lo_Metadata created, le_OccurredAt = ue_now env\<rparr>]\<rparr>)"

definition ServiceCreateAuditLog :: "pg_uuid \<Rightarrow> audit_env \<Rightarrow> AuditEvent \<Rightarrow> audit_state
    \<Rightarrow> (audit_error + AuditLog) \<times> audit_state" where
  "ServiceCreateAuditLog pg env event s =
     (let (i, s1) = NewString s
      in case CreateAuditLog pg env (log_of i event) s1 of
           Inl err \<Rightarrow> (Inl err, s1)
         | Inr (created, s2) \<Rightarrow> (Inr created, publishAuditLog env created s2))"

definition AuditProcessEvent :: "pg_uuid \<Rightarrow> parse_time \<Rightarrow> audit_env \<Rightarrow> SourceEvent \<Rightarrow> audit_state
    \<Rightarrow> audit_error option \<times> audit_state" where
  "AuditProcessEvent pg parse env event s =
     (case NormalizeEvent parse env (se_Topic event) (se_Value event) (se_CorrelationID event) of
        Inl err \<Rightarrow> (Some err, s)
      | Inr auditEvent \<Rightarrow>
          (case ServiceCreateAuditLog pg env auditEvent s of
             (Inl err, s') \<Rightarrow> (if err = LogDuplicate then None else Some err, s')
           | (Inr _, s') \<Rightarrow> (None, s')))"

definition ServiceListAuditLogs :: "audit_env \<Rightarrow> audit_user \<Rightarrow> AuditFilters \<Rightarrow> audit_state \<Rightarrow> audit_error + AuditLog list" where
  "ServiceListAuditLogs env user f s =
     (if \<not> canRead (ux_Roles user) then Inl LogForbidden
      else ListAuditLogs env (f\<lparr>af_TenantID := serviceTenant (ux_TenantID user)\<rparr>) s)"

definition GetAuditLog :: "pg_uuid \<Rightarrow> audit_env \<Rightarrow> audit_user \<Rightarrow> string \<Rightarrow> audit_state \<Rightarrow> audit_error + AuditLog" where
  "GetAuditLog pg env user i s =
     (if \<not> canRead (ux_Roles user) then Inl LogForbidden
      else GetAuditLogByID pg env (serviceTenant (ux_TenantID user)) i s)"

definition ServiceAuditSummary :: "audit_env \<Rightarrow> audit_user \<Rightarrow> AuditFilters \<Rightarrow> audit_state \<Rightarrow> audit_error + AuditSummary" where
  "ServiceAuditSummary env user f s =
     (if \<not> canRead (ux_Roles user) then Inl LogForbidden
      else GetAuditSummary env (f\<lparr>af_TenantID := serviceTenant (ux_TenantID user)\<rparr>) s)"

subsection \<open>Exports\<close>

text \<open>A body is the value that is encoded as JSON, or the records of the CSV text, before quoting.\<close>

datatype export_body = JsonBody "AuditLog list" nat | CsvBody "string list list"

record ExportResult =
  xs_ContentType :: string
  xs_FileName :: string
  xs_Body :: export_body
  xs_Count :: nat

definition csvExport :: "(time \<Rightarrow> string) \<Rightarrow> AuditLog list \<Rightarrow> string list list" where
  "csvExport rfc3339 logs =
     [''id'', ''tenant_id'', ''event_type'', ''service_name'', ''actor_user_id'', ''entity_type'', ''entity_id'',
      ''action'', ''severity'', ''correlation_id'', ''created_at'', ''description''] #
     map (\<lambda>entry. [lo_ID entry, serviceTenant (lo_TenantID entry), lo_EventType entry, lo_ServiceName entry,
       ptrValue (lo_ActorUserID entry), ptrValue (lo_EntityType entry), ptrValue (lo_EntityID entry), lo_Action entry,
       lo_Severity entry, ptrValue (lo_CorrelationID entry), rfc3339 (lo_CreatedAt entry), lo_Description entry]) logs"

definition filtersMap :: "AuditFilters \<Rightarrow> string \<Rightarrow> (string \<times> json) list" where
  "filtersMap f format =
     [(''eventType'', JStr (af_EventType f)), (''serviceName'', JStr (af_ServiceName f)),
      (''actorUserId'', JStr (af_ActorUserID f)), (''entityType'', JStr (af_EntityType f)),
      (''entityId'', JStr (af_EntityID f)), (''action'', JStr (af_Action f)), (''severity'', JStr (af_Severity f)),
      (''correlationId'', JStr (af_CorrelationID f)), (''format'', JStr format)]"

text \<open>The export request is recorded, as completed, before the format is looked at; its failure is ignored.\<close>

definition Export :: "pg_uuid \<Rightarrow> (time \<Rightarrow> string) \<Rightarrow> audit_env \<Rightarrow> audit_user \<Rightarrow> AuditFilters \<Rightarrow> string \<Rightarrow> audit_state
    \<Rightarrow> (audit_error + ExportResult) \<times> audit_state" where
  "Export pg rfc3339 env user filters0 format0 s =
     (if \<not> canExport (ux_Roles user) then (Inl LogForbidden, s)
      else
        let filters = filters0\<lparr>af_TenantID := serviceTenant (ux_TenantID user)\<rparr>;
            trimmed = to_lower (trim_space format0);
            format = (if trimmed = '''' then ''json'' else trimmed)
        in case ExportAuditLogs env filters s of
             Inl err \<Rightarrow> (Inl err, s)
           | Inr logs \<Rightarrow>
               let s' = CreateExportRequest pg env
                     \<lparr>xr_ID = '''', xr_TenantID = serviceTenant (ux_TenantID user), xr_RequestedBy = some_text (ux_UserID user),
                      xr_Filters = filtersMap filters format, xr_Status = ''COMPLETED'', xr_FileName = None,
                      xr_RecordCount = int (length logs), xr_CreatedAt = zero_time\<rparr> s
               in if format = ''json''
                    then (Inr \<lparr>xs_ContentType = ''application/json'', xs_FileName = ''audit-export.json'',
                            xs_Body = JsonBody logs (length logs), xs_Count = length logs\<rparr>, s')
                  else if format = ''csv''
                    then (Inr \<lparr>xs_ContentType = ''text/csv'', xs_FileName = ''audit-export.csv'',
                            xs_Body = CsvBody (csvExport rfc3339 logs), xs_Count = length logs\<rparr>, s')
                  else (Inl InvalidExportFormat, s'))"

end
