(* ===== verification/AuditFacts.thy ===== *)
theory AuditFacts
  imports AuditService
begin

text \<open>
  What the audit service guarantees: its log only grows and holds one row per source event, a consumed
  event is in the log or in the dead letter topic, and users see and export the rows of their tenant.
\<close>

subsection \<open>The log\<close>

text \<open>The UUIDs to come are new and different from each other.\<close>

definition new_uuids :: "pg_uuid \<Rightarrow> audit_state \<Rightarrow> bool" where
  "new_uuids pg s \<longleftrightarrow> (\<forall>n\<ge>audit_drawn s. \<forall>u. pg (audit_uuids s n) = Some u \<longrightarrow>
     u \<notin> (\<lambda>r. lo_ID (snd r)) ` set (audit_logs s) \<and> (\<forall>m\<ge>audit_drawn s. pg (audit_uuids s m) = Some u \<longrightarrow> m = n))"

text \<open>One row per id and per source event key.\<close>

definition audit_ok :: "pg_uuid \<Rightarrow> audit_state \<Rightarrow> bool" where
  "audit_ok pg s \<longleftrightarrow>
     distinct (map (\<lambda>r. lo_ID (snd r)) (audit_logs s)) \<and>
     distinct (map (\<lambda>r. lo_SourceEventKey (snd r)) (audit_logs s)) \<and> new_uuids pg s"

definition audit_kept :: "audit_state \<Rightarrow> audit_state \<Rightarrow> bool" where
  "audit_kept s s' \<longleftrightarrow> (\<exists>new. audit_logs s' = audit_logs s @ new) \<and> audit_export_requests s' = audit_export_requests s"

text \<open>The key an event is logged under: an event without an id gets one with the time of the attempt when it
  carries no time itself.\<close>

definition event_key :: "parse_time \<Rightarrow> audit_env \<Rightarrow> SourceEvent \<Rightarrow> string option" where
  "event_key parse env event =
     (case NormalizeEvent parse env (se_Topic event) (se_Value event) (se_CorrelationID event) of
        Inl _ \<Rightarrow> None | Inr a \<Rightarrow> an_SourceEventKey a)"

definition audited :: "parse_time \<Rightarrow> SourceEvent \<Rightarrow> audit_state \<Rightarrow> bool" where
  "audited parse event s \<longleftrightarrow> (\<exists>r\<in>set (audit_logs s). \<exists>env key. event_key parse env event = Some key \<and>
     lo_SourceEventKey (snd r) = Some key)"

lemma topic_actions: "list_all (\<lambda>c. fst (snd (snd c)) \<noteq> '''') topic_cases"
  by code_simp

lemma applied_action:
  assumes "applied topic data = (service, action, entityType, entityID, severity)" shows "action \<noteq> ''''"
proof (cases "map_of topic_cases topic")
  case None
  then show ?thesis using assms by (auto simp: applied_def)
next
  case (Some c)
  have "(topic, c) \<in> set topic_cases" by (rule map_of_SomeD [OF Some])
  then have "fst (snd c) \<noteq> ''''" using topic_actions by (auto simp: list_all_iff)
  then show ?thesis using assms Some by (cases c) (auto simp: applied_def)
qed

lemma NormalizeEvent_Inl:
  "(\<exists>e. NormalizeEvent parse env topic payload corr = Inl e) \<longleftrightarrow> event_data payload = None"
  using applied_action [of topic] by (auto simp: NormalizeEvent_def Let_def split: option.splits prod.splits if_splits)

lemma NormalizeEvent_Inr:
  assumes "NormalizeEvent parse env topic payload corr = Inr a"
  obtains data service action entityType entityID severity where
    "event_data payload = Some data" "applied topic data = (service, action, entityType, entityID, severity)"
    "an_SourceEventKey a = Some (sourceEventKey topic action (ptrValue (some_text entityID))
       (firstString data [''eventId'', ''id''])
       (snd (parseTime parse env (firstString data [''occurredAt'', ''createdAt'', ''timestamp'']))))"
    "an_EventType a = topic" "an_ServiceName a = service" "an_Action a = action" "an_Severity a = severity"
    "an_EntityID a = some_text entityID" "an_EntityType a = some_text entityType"
    "an_TenantID a = serviceTenant (firstString data [''tenantId'', ''tenant_id''])"
    "an_Metadata a = [(''originalPayload'', if payload = Json JNull then JNull else JObj data)]"
  using assms
  by (auto simp: NormalizeEvent_def baseEvent_def Let_def split: option.splits prod.splits if_splits)

lemma audit_row_of_fields:
  assumes "audit_row_of pg entry = Some row"
  shows "pg (lo_ID entry) = Some (lo_ID (snd row)) \<and> lo_SourceEventKey (snd row) = lo_SourceEventKey entry \<and>
    fst row = Some (repositoryTenant (lo_TenantID entry))"
  using assms by (auto simp: audit_row_of_def split: option.splits if_splits)

lemma CreateAuditLog_Inr:
  assumes "CreateAuditLog pg env given s = Inr (created, s')"
  shows "\<exists>row. s' = s\<lparr>audit_logs := audit_logs s @ [row]\<rparr> \<and>
    pg (lo_ID given) = Some (lo_ID (snd row)) \<and> lo_SourceEventKey (snd row) = lo_SourceEventKey given \<and>
    fst row = Some (repositoryTenant (lo_TenantID given)) \<and>
    (lo_SourceEventKey given = None \<or> lo_SourceEventKey given \<notin> (\<lambda>r. lo_SourceEventKey (snd r)) ` set (audit_logs s))"
proof -
  let ?entry = "given\<lparr>lo_CreatedAt := (if lo_CreatedAt given = zero_time then ue_now env else lo_CreatedAt given),
      lo_Severity := (if lo_Severity given = '''' then SeverityInfo else lo_Severity given)\<rparr>"
  obtain row where row: "audit_row_of pg ?entry = Some row" "s' = s\<lparr>audit_logs := audit_logs s @ [row]\<rparr>"
    "lo_SourceEventKey ?entry = None \<or> lo_SourceEventKey ?entry \<notin> (\<lambda>r. lo_SourceEventKey (snd r)) ` set (audit_logs s)"
    using assms unfolding CreateAuditLog_def Let_def by (auto split: option.splits if_splits)
  then show ?thesis using audit_row_of_fields [OF row(1)] by (intro exI [of _ row]) simp
qed

lemma CreateAuditLog_dup:
  assumes "CreateAuditLog pg env given s = Inl LogDuplicate"
  shows "(\<exists>u. pg (lo_ID given) = Some u \<and> u \<in> (\<lambda>r. lo_ID (snd r)) ` set (audit_logs s)) \<or>
    lo_SourceEventKey given \<in> (\<lambda>r. lo_SourceEventKey (snd r)) ` set (audit_logs s)"
  using assms
  by (auto simp: CreateAuditLog_def audit_row_of_def Let_def intro: rev_image_eqI split: option.splits if_splits)

lemma log_of_fields [simp]: "lo_ID (log_of i a) = i" "lo_SourceEventKey (log_of i a) = an_SourceEventKey a"
  by (simp_all add: log_of_def)

text \<open>Drawing keeps what is to come new.\<close>

lemma publishAuditLog_frame [simp]:
  "audit_logs (publishAuditLog env created s) = audit_logs s"
  "audit_export_requests (publishAuditLog env created s) = audit_export_requests s"
  "audit_uuids (publishAuditLog env created s) = audit_uuids s"
  "audit_drawn (publishAuditLog env created s) = audit_drawn s + 1"
  by (simp_all add: publishAuditLog_def NewString_def)

lemma audit_ok_later:
  assumes "audit_ok pg s" "audit_logs s' = audit_logs s" "audit_uuids s' = audit_uuids s" "audit_drawn s \<le> audit_drawn s'"
  shows "audit_ok pg s'"
proof -
  have "new_uuids pg s'"
    using assms(1,4) unfolding audit_ok_def new_uuids_def assms(2,3) by (meson order_trans)
  then show ?thesis using assms(1,2) by (simp add: audit_ok_def)
qed

lemma audit_ok_add:
  assumes "audit_ok pg s" "pg (audit_uuids s (audit_drawn s)) = Some (lo_ID (snd row))"
    "lo_SourceEventKey (snd row) \<notin> (\<lambda>r. lo_SourceEventKey (snd r)) ` set (audit_logs s)"
    and s': "audit_logs s' = audit_logs s @ [row]" "audit_uuids s' = audit_uuids s" "audit_drawn s' = Suc (audit_drawn s)"
  shows "audit_ok pg s'"
proof -
  have new: "new_uuids pg s" using assms(1) by (simp add: audit_ok_def)
  have id: "lo_ID (snd row) \<notin> (\<lambda>r. lo_ID (snd r)) ` set (audit_logs s)"
    using new assms(2) unfolding new_uuids_def by blast
  have "new_uuids pg s'"
    unfolding new_uuids_def s'
  proof (intro allI impI conjI)
    fix n u assume n: "Suc (audit_drawn s) \<le> n" "pg (audit_uuids s n) = Some u"
    have "u \<noteq> lo_ID (snd row)"
      using new assms(2) n unfolding new_uuids_def by (metis Suc_leD Suc_n_not_le_n order_refl)
    moreover have "u \<notin> (\<lambda>r. lo_ID (snd r)) ` set (audit_logs s)"
      using new n Suc_leD unfolding new_uuids_def by blast
    ultimately show "u \<notin> (\<lambda>r. lo_ID (snd r)) ` set (audit_logs s @ [row])" by simp
    show "m = n" if "Suc (audit_drawn s) \<le> m" "pg (audit_uuids s m) = Some u" for m
      using new n that Suc_leD unfolding new_uuids_def by blast
  qed
  then show ?thesis using assms(1,3) id by (simp add: audit_ok_def s')
qed

text \<open>One attempt.\<close>

lemma AuditProcessEvent_attempt:
  assumes ok: "audit_ok pg s" and p: "AuditProcessEvent pg parse env event s = (err, s')"
  shows "audit_ok pg s' \<and> audit_kept s s' \<and> (err = None \<longrightarrow> (\<exists>r\<in>set (audit_logs s').
      event_key parse env event \<noteq> None \<and> lo_SourceEventKey (snd r) = event_key parse env event))"
proof (cases "NormalizeEvent parse env (se_Topic event) (se_Value event) (se_CorrelationID event)")
  case (Inl e)
  then show ?thesis using p ok by (auto simp: AuditProcessEvent_def audit_kept_def)
next
  case (Inr a)
  obtain key where key: "an_SourceEventKey a = Some key" using NormalizeEvent_Inr [OF Inr] by metis
  have ek: "event_key parse env event = Some key" using Inr key by (simp add: event_key_def)
  let ?i = "audit_uuids s (audit_drawn s)" and ?s1 = "s\<lparr>audit_drawn := audit_drawn s + 1\<rparr>"
  have ok1: "audit_ok pg ?s1" by (rule audit_ok_later [OF ok]) simp_all
  show ?thesis
  proof (cases "CreateAuditLog pg env (log_of ?i a) ?s1")
    case dup: (Inl e)
    then have s': "s' = ?s1" "err = (if e = LogDuplicate then None else Some e)"
      using p Inr by (auto simp: AuditProcessEvent_def ServiceCreateAuditLog_def NewString_def Let_def split: if_splits)
    have "\<exists>r\<in>set (audit_logs s). lo_SourceEventKey (snd r) = Some key" if "e = LogDuplicate"
    proof -
      have "u \<notin> (\<lambda>r. lo_ID (snd r)) ` set (audit_logs s)" if "pg ?i = Some u" for u
        using ok that unfolding audit_ok_def new_uuids_def by blast
      then have "Some key \<in> (\<lambda>r. lo_SourceEventKey (snd r)) ` set (audit_logs s)"
        using CreateAuditLog_dup [OF dup [unfolded that]] key by auto
      then show ?thesis by (metis (no_types, lifting) imageE)
    qed
    then show ?thesis using ok1 s' ek by (auto simp: audit_kept_def)
  next
    case (Inr cs)
    obtain created s2 where cs: "cs = (created, s2)" by (cases cs)
    obtain row where row: "s2 = ?s1\<lparr>audit_logs := audit_logs s @ [row]\<rparr>" "pg ?i = Some (lo_ID (snd row))"
      "lo_SourceEventKey (snd row) = Some key"
      "Some key \<notin> (\<lambda>r. lo_SourceEventKey (snd r)) ` set (audit_logs s)"
      using CreateAuditLog_Inr [OF Inr [unfolded cs]] key by (auto simp: key)
    have s': "err = None" "s' = publishAuditLog env created s2"
      using p Inr cs \<open>NormalizeEvent parse env (se_Topic event) (se_Value event) (se_CorrelationID event) = Inr a\<close>
      by (auto simp: AuditProcessEvent_def ServiceCreateAuditLog_def NewString_def Let_def)
    have "audit_ok pg s2"
      by (rule audit_ok_add [OF ok, where row = row]) (use row in simp_all)
    then have "audit_ok pg s'" unfolding s'(2) by (rule audit_ok_later) simp_all
    then show ?thesis using row(1,3) s' ek by (auto simp: audit_kept_def)
  qed
qed

interpretation audit: event_processor "\<lambda>k. AuditProcessEvent pg parse (envs k)" "audit_ok pg" audit_kept "audited parse"
  for pg :: pg_uuid and parse :: parse_time and envs :: "nat \<Rightarrow> audit_env"
proof
  show "audit_ok pg s \<Longrightarrow> audit_ok pg (snd (AuditProcessEvent pg parse (envs k) event s)) \<and>
      audit_kept s (snd (AuditProcessEvent pg parse (envs k) event s))" for s k event
    using AuditProcessEvent_attempt [of pg s parse "envs k" event] by (metis prod.collapse)
  show "audited parse event s'" if p: "audit_ok pg s" "AuditProcessEvent pg parse (envs k) event s = (None, s')" for s k event s'
  proof -
    obtain r where "r \<in> set (audit_logs s')" "event_key parse (envs k) event \<noteq> None"
      "lo_SourceEventKey (snd r) = event_key parse (envs k) event"
      using AuditProcessEvent_attempt [OF p] by blast
    then show ?thesis unfolding audited_def by (intro bexI [of _ r] exI [of _ "envs k"]) auto
  qed
  show "audited parse event s'" if "audited parse event s" "audit_kept s s'" for event s s'
  proof -
    have "set (audit_logs s) \<subseteq> set (audit_logs s')" using that(2) by (auto simp: audit_kept_def)
    then show ?thesis using that(1) unfolding audited_def by blast
  qed
  show "audit_kept s t \<Longrightarrow> audit_kept t u \<Longrightarrow> audit_kept s u" for s t u
    by (auto simp: audit_kept_def)
qed



subsection \<open>Events with an id\<close>

definition key_rows :: "string \<Rightarrow> audit_state \<Rightarrow> nat" where
  "key_rows key s = rows_affected (\<lambda>r. lo_SourceEventKey (snd r) = Some key) (audit_logs s)"

lemma distinct_key_count:
  assumes "distinct (map f rows)" "r \<in> set rows" "f r = k" shows "length (filter (\<lambda>r. f r = k) rows) = 1"
  using assms
proof (induction rows)
  case Nil
  then show ?case by simp
next
  case (Cons x rows)
  show ?case
  proof (cases "f x = k")
    case True
    have "filter (\<lambda>r. f r = k) rows = []" using Cons.prems(1) True by (auto simp: filter_empty_conv image_iff)
    then show ?thesis using True by simp
  next
    case False
    then show ?thesis using Cons by auto
  qed
qed

definition carries_id :: "SourceEvent \<Rightarrow> string \<Rightarrow> bool" where
  "carries_id event i \<longleftrightarrow> i \<noteq> '''' \<and>
     (case event_data (se_Value event) of None \<Rightarrow> False | Some data \<Rightarrow> firstString data [''eventId'', ''id''] = i)"

lemma event_key_id:
  assumes "carries_id event i" shows "event_key parse env event = Some (se_Topic event @ '':'' @ i)"
proof -
  obtain data where d: "event_data (se_Value event) = Some data" "firstString data [''eventId'', ''id''] = i" "i \<noteq> ''''"
    using assms by (auto simp: carries_id_def split: option.splits)
  show ?thesis
  proof (cases "NormalizeEvent parse env (se_Topic event) (se_Value event) (se_CorrelationID event)")
    case (Inl e)
    then have "event_data (se_Value event) = None" using NormalizeEvent_Inl by metis
    then show ?thesis using d by simp
  next
    case (Inr a)
    from NormalizeEvent_Inr [OF Inr] obtain data' action eid where
      "event_data (se_Value event) = Some data'"
      "an_SourceEventKey a = Some (sourceEventKey (se_Topic event) action eid (firstString data' [''eventId'', ''id''])
         (snd (parseTime parse env (firstString data' [''occurredAt'', ''createdAt'', ''timestamp'']))))" by metis
    then show ?thesis using d Inr by (simp add: event_key_def sourceEventKey_def)
  qed
qed

text \<open>An event whose key is taken leaves the log alone.\<close>

lemma AuditProcessEvent_taken:
  assumes "audit_ok pg s" "event_key parse env event = Some key" "r \<in> set (audit_logs s)" "lo_SourceEventKey (snd r) = Some key"
    "AuditProcessEvent pg parse env event s = (err, s')"
  shows "audit_logs s' = audit_logs s"
proof -
  have a: "audit_ok pg s'" "audit_kept s s'" using AuditProcessEvent_attempt [OF assms(1,5)] by simp_all
  obtain a where n: "NormalizeEvent parse env (se_Topic event) (se_Value event) (se_CorrelationID event) = Inr a"
    "an_SourceEventKey a = Some key" using assms(2) by (auto simp: event_key_def split: sum.splits)
  let ?i = "audit_uuids s (audit_drawn s)" and ?s1 = "s\<lparr>audit_drawn := audit_drawn s + 1\<rparr>"
  show ?thesis
  proof (cases "CreateAuditLog pg env (log_of ?i a) ?s1")
    case (Inl e)
    then show ?thesis using assms(5) n by (auto simp: AuditProcessEvent_def ServiceCreateAuditLog_def NewString_def Let_def)
  next
    case (Inr cs)
    obtain created s2 where "cs = (created, s2)" by (cases cs)
    then have "Some key \<notin> (\<lambda>r. lo_SourceEventKey (snd r)) ` set (audit_logs s)"
      using CreateAuditLog_Inr [of pg env "log_of ?i a" ?s1 created s2] Inr n(2) by auto
    then show ?thesis using assms(3,4) by (metis (mono_tags, lifting) image_eqI)
  qed
qed

text \<open>C22: an event with an id is logged once. An event that carries an id - its \<open>eventId\<close>, else its \<open>id\<close> - and is
  processed without an error is in the log as exactly one row, under its topic and id; processing again any
  event of the topic with that id, whatever else it carries, adds nothing to the log.\<close>

theorem event_logged_once:
  assumes "audit_ok pg s" "carries_id event i" "AuditProcessEvent pg parse env event s = (None, s')"
    "carries_id event' i" "se_Topic event' = se_Topic event"
  shows "key_rows (se_Topic event @ '':'' @ i) s' = 1 \<and>
    audit_logs (snd (AuditProcessEvent pg parse env' event' s')) = audit_logs s'"
proof -
  let ?key = "se_Topic event @ '':'' @ i"
  have ok: "audit_ok pg s'" using AuditProcessEvent_attempt [OF assms(1,3)] by simp
  obtain r where r: "r \<in> set (audit_logs s')" "lo_SourceEventKey (snd r) = Some ?key"
    using AuditProcessEvent_attempt [OF assms(1,3)] event_key_id [OF assms(2), of parse env] by auto
  have "key_rows ?key s' = 1"
    unfolding key_rows_def rows_affected_def
    by (rule distinct_key_count [where f = "\<lambda>r. lo_SourceEventKey (snd r)", OF _ r]) (use ok in \<open>simp add: audit_ok_def\<close>)
  moreover have "event_key parse env' event' = Some ?key" using event_key_id [OF assms(4)] assms(5) by simp
  from AuditProcessEvent_taken [OF ok this r prod.collapse [symmetric]]
  have "audit_logs (snd (AuditProcessEvent pg parse env' event' s')) = audit_logs s'" .
  ultimately show ?thesis by blast
qed


subsection \<open>Reading and exporting\<close>

lemma serviceTenant_repository [simp]: "repositoryTenant (serviceTenant t) = serviceTenant t"
  by (simp add: repositoryTenant_def serviceTenant_def)

lemma ListAuditLogs_rows:
  assumes "ListAuditLogs env f s = Inr logs"
  shows "list_all (\<lambda>entry. lo_TenantID entry = repositoryTenant (af_TenantID f)) logs \<and> int (length logs) \<le> af_Limit f \<and>
    sorted (map (\<lambda>entry. - lo_CreatedAt entry) logs)"
proof -
  let ?rows = "sort_key (\<lambda>r. - lo_CreatedAt (snd r)) (filter (log_matches f) (audit_logs s))"
  have logs: "logs = map scanAuditLog (limit_rows (af_Limit f) (drop (nat (af_Offset f)) ?rows))" "af_Limit f \<ge> 0"
    using assms by (auto simp: ListAuditLogs_def split: if_splits)
  have "set logs \<subseteq> scanAuditLog ` set ?rows"
    unfolding logs(1) using set_limit_rows set_drop_subset by (fastforce simp: set_map)
  then have "list_all (\<lambda>entry. lo_TenantID entry = repositoryTenant (af_TenantID f)) logs"
    by (auto simp: list_all_iff scanAuditLog_def log_matches_def Let_def)
  moreover have "int (length logs) \<le> af_Limit f"
    using length_limit_rows [of "af_Limit f" "drop (nat (af_Offset f)) ?rows"] logs(2) unfolding logs(1) by simp
  moreover have "sorted (map (\<lambda>entry. - lo_CreatedAt entry) logs)"
    unfolding logs(1) limit_rows_def map_map
    by (simp add: scanAuditLog_def comp_def take_map [symmetric] drop_map [symmetric] sorted_wrt_take sorted_wrt_drop sorted_sort_key)
  ultimately show ?thesis by blast
qed

text \<open>users read their tenant's log. A user who may read gets, from a listing, only entries of the user's
  tenant, newest first and no more than asked for; a single entry is of that tenant too; and everyone else
  is refused.\<close>

theorem audit_reads_own_tenant:
  "(case ServiceListAuditLogs env user f s of
      Inl err \<Rightarrow> canRead (ux_Roles user) \<or> err = LogForbidden
    | Inr logs \<Rightarrow> canRead (ux_Roles user) \<and> list_all (\<lambda>entry. lo_TenantID entry = serviceTenant (ux_TenantID user)) logs \<and>
        sorted (map (\<lambda>entry. - lo_CreatedAt entry) logs) \<and> int (length logs) \<le> af_Limit f) \<and>
   (case GetAuditLog pg env user i s of
      Inl err \<Rightarrow> canRead (ux_Roles user) \<or> err = LogForbidden
    | Inr entry \<Rightarrow> canRead (ux_Roles user) \<and> lo_TenantID entry = serviceTenant (ux_TenantID user) \<and> pg i = Some (lo_ID entry))"
proof (cases "canRead (ux_Roles user)")
  case True
  let ?f = "f\<lparr>af_TenantID := serviceTenant (ux_TenantID user)\<rparr>"
  have found: "row_tenant r = serviceTenant (ux_TenantID user) \<and> lo_ID (snd r) = u"
    if "List.find (\<lambda>r. lo_ID (snd r) = u \<and> row_tenant r = serviceTenant (ux_TenantID user)) (audit_logs s) = Some r" for u r
    using that by (auto simp: find_Some_iff)
  show ?thesis
    using True ListAuditLogs_rows [of env ?f s]
    by (auto simp: ServiceListAuditLogs_def GetAuditLog_def GetAuditLogByID_def scanAuditLog_def dest: found split: sum.splits option.splits)
next
  case False
  then show ?thesis by (simp add: ServiceListAuditLogs_def GetAuditLog_def)
qed

text \<open>The record an export leaves: nothing when its insert failed, else one completed request.\<close>

definition export_recorded :: "string \<Rightarrow> nat \<Rightarrow> audit_state \<Rightarrow> audit_state \<Rightarrow> bool" where
  "export_recorded tenant n s s' \<longleftrightarrow> audit_logs s' = audit_logs s \<and>
     (audit_export_requests s' = audit_export_requests s \<or>
      (\<exists>request. audit_export_requests s' = audit_export_requests s @ [request] \<and> xr_Status request = ''COMPLETED'' \<and>
         xr_RecordCount request = int n \<and> xr_TenantID request = tenant))"

lemma CreateExportRequest_recorded:
  assumes "xr_ID req = ''''" "xr_Status req = ''COMPLETED''" "xr_RecordCount req = int n" "repositoryTenant (xr_TenantID req) = tenant"
  shows "export_recorded tenant n s (CreateExportRequest pg env req s)"
  using assms by (auto simp: export_recorded_def CreateExportRequest_def NewString_def Let_def split: option.splits)

text \<open>what an export does, on every branch. A user without the right is refused; a failing query is
  returned; otherwise the request is recorded as completed with the number of rows - at most 1000, of the
  user's tenant - and only then the format is looked at: JSON and CSV return those rows, and any other format is
  an error that leaves the completed request behind.\<close>

theorem export_outcome:
  "case Export pg rfc3339 env user f format s of (result, s') \<Rightarrow>
    if \<not> canExport (ux_Roles user) then result = Inl LogForbidden \<and> s' = s
    else (case ExportAuditLogs env (f\<lparr>af_TenantID := serviceTenant (ux_TenantID user)\<rparr>) s of
       Inl err \<Rightarrow> result = Inl err \<and> s' = s
     | Inr logs \<Rightarrow>
         list_all (\<lambda>entry. lo_TenantID entry = serviceTenant (ux_TenantID user)) logs \<and> length logs \<le> 1000 \<and>
         export_recorded (serviceTenant (ux_TenantID user)) (length logs) s s' \<and>
         (if to_lower (trim_space format) \<in> {'''', ''json''}
            then \<exists>r. result = Inr r \<and> xs_Body r = JsonBody logs (length logs)
          else if to_lower (trim_space format) = ''csv'' then \<exists>r. result = Inr r \<and> xs_Body r = CsvBody (csvExport rfc3339 logs)
          else result = Inl InvalidExportFormat))"
proof (cases "canExport (ux_Roles user)")
  case True
  let ?t = "serviceTenant (ux_TenantID user)"
  let ?f = "f\<lparr>af_TenantID := ?t\<rparr>"
  show ?thesis
  proof (cases "ExportAuditLogs env ?f s")
    case (Inl err)
    then show ?thesis using True by (simp add: Export_def Let_def)
  next
    case (Inr logs)
    have rows: "list_all (\<lambda>entry. lo_TenantID entry = ?t) logs \<and> length logs \<le> 1000"
      using ListAuditLogs_rows [OF Inr [unfolded ExportAuditLogs_def]] by (auto split: if_splits)
    have recorded: "export_recorded ?t (length logs) s (CreateExportRequest pg env
        \<lparr>xr_ID = '''', xr_TenantID = ?t, xr_RequestedBy = some_text (ux_UserID user), xr_Filters = m,
         xr_Status = ''COMPLETED'', xr_FileName = None, xr_RecordCount = int (length logs), xr_CreatedAt = zero_time\<rparr> s)" for m
      by (rule CreateExportRequest_recorded) simp_all
    show ?thesis unfolding Export_def Let_def using True Inr rows recorded by auto
  qed
next
  case False
  then show ?thesis by (simp add: Export_def)
qed


subsection \<open>An instance\<close>

definition ex_audit :: audit_state where
  "ex_audit = \<lparr>audit_logs = [], audit_export_requests = [], audit_events = [], audit_uuids = (\<lambda>n. replicate n (CHR ''u'')),
     audit_drawn = 0\<rparr>"

definition ex_audit_env :: audit_env where
  "ex_audit_env = \<lparr>ue_now = 7, ue_nowText = ''now'', ue_down = (\<lambda>_. False), ue_publishes = True\<rparr>"

definition ex_message :: event_message where
  "ex_message = \<lparr>em_Topic = ''order.filled'', em_Key = ''k'',
     em_Value = Json (JObj [(''eventId'', JStr ''e1''), (''orderId'', JStr ''o1''), (''userId'', JStr ''u1'')]),
     em_Headers = [(''correlationId'', ''c1'')]\<rparr>"

definition ex_repeat :: SourceEvent where
  "ex_repeat = \<lparr>se_Topic = ''order.filled'', se_Key = ''k'',
     se_Value = Json (JObj [(''id'', JStr ''e1''), (''orderId'', JStr ''o2'')]), se_CorrelationID = '''', se_TraceParent = ''''\<rparr>"

lemma ex_audit_ok: "audit_ok Some ex_audit"
  by (auto simp: audit_ok_def new_uuids_def ex_audit_def)

definition ex_audit_consumer :: "(audit_error, audit_state) event_consumer" where
  "ex_audit_consumer = \<lparr>ec_state = ex_audit, ec_dlq = [], ec_committed = 0\<rparr>"

definition ex_consume_env :: consume_env where
  "ex_consume_env = \<lparr>ce_cancelled = (\<lambda>_. False), ce_now = 9, ce_dlqFails = False, ce_commitFails = False\<rparr>"

definition ex_retry :: EventRetryConfig where
  "ex_retry = \<lparr>er_MaxRetries = 2, er_Backoff = 0, er_BackoffMultiplier = 2\<rparr>"

text \<open>The database is down for the first attempt.\<close>

definition ex_attempts :: "nat \<Rightarrow> audit_env" where
  "ex_attempts k = (if k = 0 then ex_audit_env\<lparr>ue_down := (\<lambda>_. True)\<rparr> else ex_audit_env)"

definition ex_consumed :: "(audit_error, audit_state) event_consumer" where
  "ex_consumed = consume_event ''audit-service'' (\<lambda>k. AuditProcessEvent Some (\<lambda>_. None) (ex_attempts k)) ex_retry ex_consume_env
     ex_message ex_audit_consumer"


lemma event_logged_once_witness:
  "key_rows ''order.filled:e1'' (snd (AuditProcessEvent Some (\<lambda>_. None) ex_audit_env (source_event ex_message) ex_audit)) = 1 \<and>
   audit_logs (snd (AuditProcessEvent Some (\<lambda>_. None) ex_audit_env ex_repeat
     (snd (AuditProcessEvent Some (\<lambda>_. None) ex_audit_env (source_event ex_message) ex_audit)))) =
   audit_logs (snd (AuditProcessEvent Some (\<lambda>_. None) ex_audit_env (source_event ex_message) ex_audit))"
proof -
  have c: "carries_id (source_event ex_message) ''e1''" "carries_id ex_repeat ''e1''"
    "se_Topic ex_repeat = se_Topic (source_event ex_message)" "se_Topic (source_event ex_message) = ''order.filled''" by code_simp+
  have "fst (AuditProcessEvent Some (\<lambda>_. None) ex_audit_env (source_event ex_message) ex_audit) = None" by code_simp
  then have "AuditProcessEvent Some (\<lambda>_. None) ex_audit_env (source_event ex_message) ex_audit =
    (None, snd (AuditProcessEvent Some (\<lambda>_. None) ex_audit_env (source_event ex_message) ex_audit))" by (simp add: prod_eq_iff)
  from event_logged_once [OF ex_audit_ok c(1) this c(2,3)] show ?thesis unfolding c(4) by simp
qed

end
