(* ===== verification/NotificationStore.thy ===== *)
theory NotificationStore
  imports EventConsumer PgColumns
begin

text \<open>
  The notification service's domain types, \<open>internal/domain\<close>, and its tables and repository,
  \<open>internal/repository/notification_repository.go\<close>. An operation of the service is an action: it takes the
  state and gives a result or an error, and the state it leaves in either case. The environment of a call
  says which statements of the call fail, what the webhook endpoints answer, whether the producer
  writes and how PostgreSQL prints a JSON value; UUIDs are a supply that the state walks through. Metrics, logs and the waiting between two
  webhook attempts are left out.
\<close>

subsection \<open>Domain types\<close>

datatype notification_status = StatusPending | StatusSent | StatusFailed | StatusRetrying | StatusRead

datatype channel = ChannelInApp | ChannelWebhook | ChannelEmail

abbreviation "PriorityLow \<equiv> ''LOW''"
abbreviation "PriorityMedium \<equiv> ''MEDIUM''"
abbreviation "PriorityHigh \<equiv> ''HIGH''"
abbreviation "PriorityCritical \<equiv> ''CRITICAL''"

fun notification_status_text :: "notification_status \<Rightarrow> string" where
  "notification_status_text StatusPending = ''PENDING''"
| "notification_status_text StatusSent = ''SENT''"
| "notification_status_text StatusFailed = ''FAILED''"
| "notification_status_text StatusRetrying = ''RETRYING''"
| "notification_status_text StatusRead = ''READ''"

fun channel_text :: "channel \<Rightarrow> string" where
  "channel_text ChannelInApp = ''IN_APP''"
| "channel_text ChannelWebhook = ''WEBHOOK''"
| "channel_text ChannelEmail = ''EMAIL''"

record Notification =
  nf_ID :: string
  nf_TenantID :: string
  nf_UserID :: "string option"
  nf_Channel :: channel
  nf_Priority :: string
  nf_Status :: notification_status
  nf_Title :: string
  nf_Message :: string
  nf_Source :: string
  nf_Metadata :: "(string \<times> json) list"
  nf_ReadAt :: "time option"
  nf_CreatedAt :: time
  nf_UpdatedAt :: time

record NotificationEvent =
  nv_EventID :: string
  nv_EventType :: string
  nv_EventVersion :: string
  nv_TenantID :: string
  nv_NotificationID :: string
  nv_UserID :: "string option"
  nv_Channel :: channel
  nv_Priority :: string
  nv_Status :: notification_status
  nv_Source :: string
  nv_Metadata :: "(string \<times> json) list"
  nv_OccurredAt :: time
  nv_CorrelationID :: string

record DeliveryAttempt =
  da_ID :: string
  da_TenantID :: string
  da_NotificationID :: string
  da_Channel :: channel
  da_Status :: notification_status
  da_AttemptNumber :: int
  da_ErrorMessage :: "string option"
  da_AttemptedAt :: time

record NotificationPreferences =
  pf_TenantID :: string
  pf_UserID :: string
  pf_InAppEnabled :: bool
  pf_WebhookEnabled :: bool
  pf_EmailEnabled :: bool
  pf_WebhookURL :: "string option"
  pf_EmailAddress :: "string option"
  pf_MinPriority :: string
  pf_CreatedAt :: time
  pf_UpdatedAt :: time

subsection \<open>State and actions\<close>

datatype notification_error = NotificationNotFound | NotificationTransition | NotificationDatabase string
  | NotificationForbidden | InvalidPreference | InvalidAlertEvent | InvalidWebhookURL

text \<open>A row: its \<open>tenant_id\<close>, which may be NULL, and the other columns.\<close>

type_synonym notification_row = "string option \<times> Notification"

record notification_state =
  nt_notifications :: "notification_row list"
  nt_attempts :: "DeliveryAttempt list"
  nt_preferences :: "NotificationPreferences list"
  nt_events :: "NotificationEvent list"
  nt_posts :: "(string \<times> Notification) list"
  nt_uuids :: "nat \<Rightarrow> string"
  nt_drawn :: nat
  nt_statements :: nat

record notification_env =
  ny_now :: time
  ny_down :: "nat \<Rightarrow> bool"
  ny_post :: "nat \<Rightarrow> string + int"
  ny_url :: "string \<Rightarrow> bool"
  ny_text :: "json \<Rightarrow> string"
  ny_publishes :: bool

type_synonym 'a notification_action = "notification_state \<Rightarrow> (notification_error + 'a) \<times> notification_state"

definition give :: "'a \<Rightarrow> 'a notification_action" where
  "give x s = (Inr x, s)"

definition fail_with :: "notification_error \<Rightarrow> 'a notification_action" where
  "fail_with err s = (Inl err, s)"

definition and_next :: "'a notification_action \<Rightarrow> ('a \<Rightarrow> 'b notification_action) \<Rightarrow> 'b notification_action" where
  "and_next m f s = (case m s of (Inl err, s') \<Rightarrow> (Inl err, s') | (Inr x, s') \<Rightarrow> f x s')"

text \<open>\<open>uuid.NewString\<close>\<close>

definition new_uuid :: "string notification_action" where
  "new_uuid s = (Inr (nt_uuids s (nt_drawn s)), s\<lparr>nt_drawn := nt_drawn s + 1\<rparr>)"

text \<open>One round trip to the database.\<close>

definition statement :: "notification_env \<Rightarrow> (notification_state \<Rightarrow> notification_error + ('a \<times> notification_state))
    \<Rightarrow> 'a notification_action" where
  "statement env q s =
     (let s1 = s\<lparr>nt_statements := nt_statements s + 1\<rparr>
      in if ny_down env (nt_statements s) then (Inl (NotificationDatabase ''connection''), s1)
         else case q s1 of Inl err \<Rightarrow> (Inl err, s1) | Inr (x, s2) \<Rightarrow> (Inr x, s2))"

definition query :: "notification_env \<Rightarrow> (notification_state \<Rightarrow> notification_error + 'a) \<Rightarrow> 'a notification_action" where
  "query env q = statement env (\<lambda>s. and_then (q s) (\<lambda>x. Inr (x, s)))"

subsection \<open>Notifications\<close>

definition notifyTenant :: "string \<Rightarrow> string" where
  "notifyTenant v = (if trim_space v = '''' then ''default-tenant'' else v)"

definition notification_tenant :: "notification_row \<Rightarrow> string" where
  "notification_tenant r = coalesce (fst r) ''default-tenant''"

definition scanNotification :: "notification_row \<Rightarrow> Notification" where
  "scanNotification r = (snd r)\<lparr>nf_TenantID := notification_tenant r\<rparr>"

definition notification_row_of :: "pg_uuid \<Rightarrow> Notification \<Rightarrow> notification_row option" where
  "notification_row_of pg n =
     (case (pg (nf_ID n), opt_uuid pg (nf_UserID n)) of
        (Some i, Some user) \<Rightarrow>
          if pg_text 100 (notifyTenant (nf_TenantID n)) \<and> pg_text 30 (nf_Priority n) \<and>
             CHR 0x00 \<notin> set (nf_Title n) \<and> CHR 0x00 \<notin> set (nf_Message n) \<and> pg_text 100 (nf_Source n) \<and>
             pg_json (JObj (nf_Metadata n))
          then Some (Some (notifyTenant (nf_TenantID n)), n\<lparr>nf_ID := i, nf_UserID := user\<rparr>)
          else None
      | _ \<Rightarrow> None)"

definition CreateNotification :: "pg_uuid \<Rightarrow> notification_env \<Rightarrow> Notification \<Rightarrow> Notification notification_action" where
  "CreateNotification pg env n = statement env (\<lambda>s.
     case notification_row_of pg n of
       None \<Rightarrow> Inl (NotificationDatabase ''notifications'')
     | Some row \<Rightarrow>
         if nf_ID (snd row) \<in> (\<lambda>r. nf_ID (snd r)) ` set (nt_notifications s)
         then Inl (NotificationDatabase ''notifications_pkey'')
         else Inr (scanNotification row, s\<lparr>nt_notifications := nt_notifications s @ [row]\<rparr>))"

text \<open>\<open>metadata->>'key' = value\<close>; \<open>ny_text\<close> is the text of a value that is neither a string nor null.\<close>

definition has_text :: "notification_env \<Rightarrow> (string \<times> json) list \<Rightarrow> string \<Rightarrow> string \<Rightarrow> bool" where
  "has_text env metadata key v \<longleftrightarrow>
     (case member_of metadata key of JStr s \<Rightarrow> s = v | JNull \<Rightarrow> False | w \<Rightarrow> ny_text env w = v)"

definition delivers :: "notification_env \<Rightarrow> string \<Rightarrow> string \<Rightarrow> string \<Rightarrow> channel \<Rightarrow> notification_row \<Rightarrow> bool" where
  "delivers env tenantID sourceEventID sourceEventType ch r \<longleftrightarrow>
     notification_tenant r = notifyTenant tenantID \<and> has_text env (nf_Metadata (snd r)) ''sourceEventId'' sourceEventID \<and>
     has_text env (nf_Metadata (snd r)) ''eventType'' sourceEventType \<and> nf_Channel (snd r) = ch"

definition DuplicateExists :: "notification_env \<Rightarrow> string \<Rightarrow> string \<Rightarrow> string \<Rightarrow> channel \<Rightarrow> bool notification_action" where
  "DuplicateExists env tenantID sourceEventID sourceEventType ch =
     query env (\<lambda>s. Inr (list_ex (delivers env tenantID sourceEventID sourceEventType ch) (nt_notifications s)))"

record NotificationFilters =
  nl_TenantID :: string
  nl_UserID :: string
  nl_Status :: string
  nl_Channel :: string
  nl_Priority :: string
  nl_Limit :: int
  nl_Offset :: int

text \<open>A clause \<open>column = value\<close> that an empty value leaves out; NULL equals nothing.\<close>

definition given_equals :: "string option \<Rightarrow> string \<Rightarrow> bool" where
  "given_equals column v \<longleftrightarrow> v = '''' \<or> column = Some v"

definition buildFilters :: "NotificationFilters \<Rightarrow> notification_row \<Rightarrow> bool" where
  "buildFilters f r \<longleftrightarrow>
     given_equals (nf_UserID (snd r)) (nl_UserID f) \<and>
     given_equals (Some (notification_tenant r)) (notifyTenant (nl_TenantID f)) \<and>
     given_equals (Some (notification_status_text (nf_Status (snd r)))) (to_upper (nl_Status f)) \<and>
     given_equals (Some (channel_text (nf_Channel (snd r)))) (to_upper (nl_Channel f)) \<and>
     given_equals (Some (nf_Priority (snd r))) (to_upper (nl_Priority f))"

definition ListNotifications :: "notification_env \<Rightarrow> NotificationFilters \<Rightarrow> Notification list notification_action" where
  "ListNotifications env f = query env (\<lambda>s.
     if nl_Limit f < 0 \<or> nl_Offset f < 0 then Inl (NotificationDatabase ''query'')
     else Inr (map scanNotification (limit_rows (nl_Limit f) (drop (nat (nl_Offset f))
       (sort_key (\<lambda>r. - nf_CreatedAt (snd r)) (filter (buildFilters f) (nt_notifications s)))))))"

definition own_notification :: "string \<Rightarrow> string \<Rightarrow> notification_row \<Rightarrow> bool" where
  "own_notification tenantID u r \<longleftrightarrow> nf_ID (snd r) = u \<and> notification_tenant r = notifyTenant tenantID"

definition GetNotification :: "pg_uuid \<Rightarrow> notification_env \<Rightarrow> string \<Rightarrow> string \<Rightarrow> Notification notification_action" where
  "GetNotification pg env tenantID i = query env (\<lambda>s.
     case pg i of
       None \<Rightarrow> Inl (NotificationDatabase ''uuid'')
     | Some u \<Rightarrow> (case List.find (own_notification tenantID u) (nt_notifications s) of
                   None \<Rightarrow> Inl NotificationNotFound | Some r \<Rightarrow> Inr (scanNotification r)))"

text \<open>What an UPDATE that hit no row means is found out by a second statement.\<close>

definition missing_or_guarded :: "pg_uuid \<Rightarrow> notification_env \<Rightarrow> string \<Rightarrow> string \<Rightarrow> 'a notification_action" where
  "missing_or_guarded pg env tenantID i s =
     (case GetNotification pg env tenantID i s of
        (Inl NotificationNotFound, s') \<Rightarrow> (Inl NotificationNotFound, s')
      | (_, s') \<Rightarrow> (Inl NotificationTransition, s'))"

definition set_status :: "notification_status \<Rightarrow> bool \<Rightarrow> time \<Rightarrow> notification_row \<Rightarrow> notification_row" where
  "set_status st markRead now r =
     (fst r, (snd r)\<lparr>nf_Status := st, nf_ReadAt := (if markRead then Some now else nf_ReadAt (snd r)), nf_UpdatedAt := now\<rparr>)"

definition update_returning :: "pg_uuid \<Rightarrow> notification_env \<Rightarrow> string \<Rightarrow> string \<Rightarrow> (notification_row \<Rightarrow> bool)
    \<Rightarrow> (notification_row \<Rightarrow> notification_row) \<Rightarrow> Notification option notification_action" where
  "update_returning pg env tenantID i guard f = statement env (\<lambda>s.
     case pg i of
       None \<Rightarrow> Inl (NotificationDatabase ''uuid'')
     | Some u \<Rightarrow>
         let hit = (\<lambda>r. own_notification tenantID u r \<and> guard r)
         in Inr (map_option (\<lambda>r. scanNotification (f r)) (List.find hit (nt_notifications s)),
              s\<lparr>nt_notifications := upd_where hit f (nt_notifications s)\<rparr>))"

definition updateStatus :: "pg_uuid \<Rightarrow> notification_env \<Rightarrow> string \<Rightarrow> string \<Rightarrow> notification_status \<Rightarrow> bool
    \<Rightarrow> Notification notification_action" where
  "updateStatus pg env tenantID i st markRead =
     and_next (update_returning pg env tenantID i (\<lambda>r. st = StatusRetrying \<longrightarrow> nf_Status (snd r) = StatusFailed)
                 (set_status st markRead (ny_now env)))
       (\<lambda>found. case found of Some n \<Rightarrow> give n | None \<Rightarrow> missing_or_guarded pg env tenantID i)"

definition MarkNotificationRead :: "pg_uuid \<Rightarrow> notification_env \<Rightarrow> string \<Rightarrow> string \<Rightarrow> Notification notification_action" where
  "MarkNotificationRead pg env tenantID i = updateStatus pg env tenantID i StatusRead True"

definition UpdateNotificationStatus :: "pg_uuid \<Rightarrow> notification_env \<Rightarrow> string \<Rightarrow> string \<Rightarrow> notification_status
    \<Rightarrow> Notification notification_action" where
  "UpdateNotificationStatus pg env tenantID i st = updateStatus pg env tenantID i st False"

subsection \<open>Delivery attempts\<close>

definition attempts_of :: "string \<Rightarrow> notification_state \<Rightarrow> int list" where
  "attempts_of u s = map da_AttemptNumber (filter (\<lambda>a. da_NotificationID a = u) (nt_attempts s))"

text \<open>\<open>COALESCE(MAX(attempt_number) + 1, 1)\<close>\<close>

definition next_number :: "string \<Rightarrow> notification_state \<Rightarrow> int" where
  "next_number u s = (case attempts_of u s of [] \<Rightarrow> 1 | n # ns \<Rightarrow> fold max ns n + 1)"

definition NextAttemptNumber :: "pg_uuid \<Rightarrow> notification_env \<Rightarrow> string \<Rightarrow> int notification_action" where
  "NextAttemptNumber pg env i = query env (\<lambda>s.
     case pg i of None \<Rightarrow> Inl (NotificationDatabase ''uuid'') | Some u \<Rightarrow> Inr (next_number u s))"

text \<open>The row of an attempt; its notification must exist.\<close>

definition insert_attempt :: "pg_uuid \<Rightarrow> DeliveryAttempt \<Rightarrow> notification_state \<Rightarrow> notification_error + (DeliveryAttempt \<times> notification_state)" where
  "insert_attempt pg a s =
     (case (pg (da_ID a), pg (da_NotificationID a)) of
        (Some i, Some u) \<Rightarrow>
          (let row = a\<lparr>da_ID := i, da_NotificationID := u, da_TenantID := notifyTenant (da_TenantID a)\<rparr>
           in if pg_text 100 (da_TenantID row) \<and> pg_int4 (da_AttemptNumber a) \<and>
                 opt_all (\<lambda>e. CHR 0x00 \<notin> set e) (da_ErrorMessage a) \<and> i \<notin> da_ID ` set (nt_attempts s) \<and>
                 u \<in> (\<lambda>r. nf_ID (snd r)) ` set (nt_notifications s)
              then Inr (row, s\<lparr>nt_attempts := nt_attempts s @ [row]\<rparr>)
              else Inl (NotificationDatabase ''notification_delivery_attempts''))
      | _ \<Rightarrow> Inl (NotificationDatabase ''uuid''))"

definition RecordAttempt :: "pg_uuid \<Rightarrow> notification_env \<Rightarrow> DeliveryAttempt \<Rightarrow> DeliveryAttempt notification_action" where
  "RecordAttempt pg env a = statement env (insert_attempt pg a)"

text \<open>\<open>Retry\<close> is one transaction: the guarded UPDATE and the attempt that records the request, or nothing; when
  the UPDATE hits no row its reason is looked up outside.\<close>

definition retry_rows :: "pg_uuid \<Rightarrow> notification_env \<Rightarrow> string \<Rightarrow> string \<Rightarrow> string \<Rightarrow> notification_state
    \<Rightarrow> notification_error + (Notification option \<times> notification_state)" where
  "retry_rows pg env tenantID i attemptID s =
     (case pg i of
        None \<Rightarrow> Inl (NotificationDatabase ''uuid'')
      | Some u \<Rightarrow>
          let hit = (\<lambda>r. own_notification tenantID u r \<and> nf_Status (snd r) = StatusFailed);
              s1 = s\<lparr>nt_notifications := upd_where hit (set_status StatusRetrying False (ny_now env)) (nt_notifications s)\<rparr>
          in case List.find hit (nt_notifications s) of
               None \<Rightarrow> Inr (None, s)
             | Some r \<Rightarrow>
                 and_then (insert_attempt pg
                    \<lparr>da_ID = attemptID, da_TenantID = notifyTenant tenantID, da_NotificationID = u,
                     da_Channel = nf_Channel (snd r), da_Status = StatusRetrying, da_AttemptNumber = next_number u s,
                     da_ErrorMessage = Some ''manual retry requested'', da_AttemptedAt = ny_now env\<rparr> s1)
                   (\<lambda>(_, s2). Inr (Some (scanNotification (set_status StatusRetrying False (ny_now env) r)), s2)))"

definition RetryNotification :: "pg_uuid \<Rightarrow> notification_env \<Rightarrow> string \<Rightarrow> string \<Rightarrow> Notification notification_action" where
  "RetryNotification pg env tenantID i =
     and_next new_uuid (\<lambda>attemptID. and_next (statement env (retry_rows pg env tenantID i attemptID))
       (\<lambda>found. case found of Some n \<Rightarrow> give n | None \<Rightarrow> missing_or_guarded pg env tenantID i))"

subsection \<open>Preferences\<close>

text \<open>The key of the table is the user alone; \<open>pf_TenantID\<close> of a row is the tenant of its first access.\<close>

definition default_preferences :: "time \<Rightarrow> string \<Rightarrow> string \<Rightarrow> NotificationPreferences" where
  "default_preferences now tenantID u =
     \<lparr>pf_TenantID = tenantID, pf_UserID = u, pf_InAppEnabled = True, pf_WebhookEnabled = False,
      pf_EmailEnabled = False, pf_WebhookURL = None, pf_EmailAddress = None, pf_MinPriority = PriorityLow,
      pf_CreatedAt = now, pf_UpdatedAt = now\<rparr>"

definition LoadPreferences :: "pg_uuid \<Rightarrow> notification_env \<Rightarrow> string \<Rightarrow> string \<Rightarrow> NotificationPreferences notification_action" where
  "LoadPreferences pg env tenantID userID = statement env (\<lambda>s.
     case pg userID of
       None \<Rightarrow> Inl (NotificationDatabase ''uuid'')
     | Some u \<Rightarrow>
         (case find_by pf_UserID u (nt_preferences s) of
            Some prefs \<Rightarrow> Inr (prefs, s)
          | None \<Rightarrow>
              if \<not> pg_text 100 (notifyTenant tenantID) then Inl (NotificationDatabase ''notification_preferences'')
              else let prefs = default_preferences (ny_now env) (notifyTenant tenantID) u
                   in Inr (prefs, s\<lparr>nt_preferences := nt_preferences s @ [prefs]\<rparr>)))"

definition changed_preferences :: "time \<Rightarrow> NotificationPreferences \<Rightarrow> NotificationPreferences \<Rightarrow> NotificationPreferences" where
  "changed_preferences now excluded r =
     r\<lparr>pf_InAppEnabled := pf_InAppEnabled excluded, pf_WebhookEnabled := pf_WebhookEnabled excluded,
       pf_EmailEnabled := pf_EmailEnabled excluded, pf_WebhookURL := pf_WebhookURL excluded,
       pf_EmailAddress := pf_EmailAddress excluded, pf_MinPriority := pf_MinPriority excluded, pf_UpdatedAt := now\<rparr>"

definition StorePreferences :: "pg_uuid \<Rightarrow> notification_env \<Rightarrow> NotificationPreferences \<Rightarrow> NotificationPreferences notification_action" where
  "StorePreferences pg env prefs = statement env (\<lambda>s.
     case pg (pf_UserID prefs) of
       None \<Rightarrow> Inl (NotificationDatabase ''uuid'')
     | Some u \<Rightarrow>
         if \<not> (pg_text 100 (notifyTenant (pf_TenantID prefs)) \<and> pg_text 30 (pf_MinPriority prefs) \<and>
                opt_all (\<lambda>t. CHR 0x00 \<notin> set t) (pf_WebhookURL prefs) \<and> opt_all (\<lambda>t. CHR 0x00 \<notin> set t) (pf_EmailAddress prefs))
         then Inl (NotificationDatabase ''notification_preferences'')
         else case find_by pf_UserID u (nt_preferences s) of
           Some old \<Rightarrow> Inr (changed_preferences (ny_now env) prefs old,
             s\<lparr>nt_preferences := upd_where (\<lambda>r. pf_UserID r = u) (changed_preferences (ny_now env) prefs) (nt_preferences s)\<rparr>)
         | None \<Rightarrow>
             let row = prefs\<lparr>pf_UserID := u, pf_TenantID := notifyTenant (pf_TenantID prefs), pf_CreatedAt := ny_now env,
                   pf_UpdatedAt := ny_now env\<rparr>
             in Inr (row, s\<lparr>nt_preferences := nt_preferences s @ [row]\<rparr>))"

subsection \<open>Summary\<close>

record NotificationSummary =
  ns_Unread :: nat
  ns_ByStatus :: "(string \<times> nat) list"
  ns_ByChannel :: "(string \<times> nat) list"
  ns_ByPriority :: "(string \<times> nat) list"
  ns_CreatedLast24Hours :: nat

text \<open>Five statements over the rows of the user in the tenant.\<close>

definition NotificationSummaryOf :: "pg_uuid \<Rightarrow> notification_env \<Rightarrow> string \<Rightarrow> string \<Rightarrow> NotificationSummary notification_action" where
  "NotificationSummaryOf pg env tenantID userID =
     (let rows = (\<lambda>s. filter (\<lambda>r. nf_UserID (snd r) = pg userID \<and> notification_tenant r = notifyTenant tenantID) (nt_notifications s));
          counted = (\<lambda>f. query env (\<lambda>s. if pg userID = None then Inl (NotificationDatabase ''uuid'') else Inr (f (rows s))))
      in and_next (counted (\<lambda>rs. [('''', rows_affected (\<lambda>r. nf_Status (snd r) \<noteq> StatusRead) rs)])) (\<lambda>unread.
         and_next (counted (\<lambda>rs. [('''', rows_affected (\<lambda>r. nf_CreatedAt (snd r) \<ge> ny_now env - 24 * 60 * Minute) rs)])) (\<lambda>recent.
         and_next (counted (scanCounts (\<lambda>r. notification_status_text (nf_Status (snd r))))) (\<lambda>byStatus.
         and_next (counted (scanCounts (\<lambda>r. channel_text (nf_Channel (snd r))))) (\<lambda>byChannel.
         and_next (counted (scanCounts (\<lambda>r. nf_Priority (snd r)))) (\<lambda>byPriority.
           give \<lparr>ns_Unread = snd (hd unread), ns_ByStatus = byStatus, ns_ByChannel = byChannel,
             ns_ByPriority = byPriority, ns_CreatedLast24Hours = snd (hd recent)\<rparr>))))))"

end
