(* ===== verification/NotificationService.thy ===== *)
theory NotificationService
  imports NotificationStore
begin

text \<open>
  \<open>internal/service/notification_service.go\<close>: an alert event of the surveillance service becomes a
  notification per channel that its user has enabled, sent in the application, by a mock e-mail or by
  posting to the user's webhook; users read and mark theirs, managers request retries, users keep
  preferences.
\<close>

subsection \<open>Alert events\<close>

record SurveillanceAlertEvent =
  sa_EventID :: string
  sa_EventType :: string
  sa_EventVersion :: string
  sa_TenantID :: string
  sa_AlertID :: string
  sa_AlertType :: string
  sa_Severity :: string
  sa_EntityType :: string
  sa_EntityID :: string
  sa_UserID :: "string option"
  sa_Symbol :: "string option"
  sa_Status :: string
  sa_Metadata :: "(string \<times> json) list"
  sa_OccurredAt :: time
  sa_CorrelationID :: string
  sa_TraceParent :: string

definition json_object :: "json \<Rightarrow> (string \<times> json) list option" where
  "json_object v = (case v of JObj raw \<Rightarrow> Some raw | _ \<Rightarrow> None)"

definition decodeAlertEvent :: "(string \<Rightarrow> time option) \<Rightarrow> payload \<Rightarrow> SurveillanceAlertEvent option" where
  "decodeAlertEvent rfc3339 payload = do {
     raw \<leftarrow> (case payload of Json v \<Rightarrow> json_members (Some v) | _ \<Rightarrow> None);
     let str = decode_field json_string '''' raw in do {
     eventID \<leftarrow> str ''eventId''; eventType \<leftarrow> str ''eventType''; eventVersion \<leftarrow> str ''eventVersion'';
     tenantID \<leftarrow> str ''tenantId''; alertID \<leftarrow> str ''alertId''; alertType \<leftarrow> str ''alertType'';
     severity \<leftarrow> str ''severity''; entityType \<leftarrow> str ''entityType''; entityID \<leftarrow> str ''entityId'';
     userID \<leftarrow> decode_pointer json_string raw ''userId''; symbol \<leftarrow> decode_pointer json_string raw ''symbol'';
     status \<leftarrow> str ''status''; metadata \<leftarrow> decode_field json_object [] raw ''metadata'';
     occurredAt \<leftarrow> decode_field (json_time rfc3339) zero_time raw ''occurredAt'';
     corr \<leftarrow> str ''correlationId''; traceParent \<leftarrow> str ''traceparent'';
     Some \<lparr>sa_EventID = eventID, sa_EventType = eventType, sa_EventVersion = eventVersion, sa_TenantID = tenantID,
       sa_AlertID = alertID, sa_AlertType = alertType, sa_Severity = severity, sa_EntityType = entityType,
       sa_EntityID = entityID, sa_UserID = userID, sa_Symbol = symbol, sa_Status = status, sa_Metadata = metadata,
       sa_OccurredAt = occurredAt, sa_CorrelationID = corr, sa_TraceParent = traceParent\<rparr> }}"

definition ParseSurveillanceAlertEvent :: "(string \<Rightarrow> time option) \<Rightarrow> payload \<Rightarrow> notification_error + SurveillanceAlertEvent" where
  "ParseSurveillanceAlertEvent rfc3339 payload =
     (case decodeAlertEvent rfc3339 payload of
        None \<Rightarrow> Inl InvalidAlertEvent
      | Some event \<Rightarrow>
          if sa_EventID event = '''' \<or> sa_AlertID event = '''' \<or> sa_EventType event = '''' then Inl InvalidAlertEvent
          else Inr event)"

subsection \<open>The notification of an alert\<close>

definition SeverityToPriority :: "string \<Rightarrow> string" where
  "SeverityToPriority severity =
     (if to_upper severity = ''LOW'' then PriorityLow
      else if to_upper severity = ''MEDIUM'' then PriorityMedium
      else if to_upper severity = ''HIGH'' then PriorityHigh
      else if to_upper severity = ''CRITICAL'' then PriorityCritical
      else PriorityMedium)"

text \<open>\<open>m[key] = value\<close>\<close>

definition put_member :: "string \<Rightarrow> json \<Rightarrow> (string \<times> json) list \<Rightarrow> (string \<times> json) list" where
  "put_member key v raw =
     (if key \<in> fst ` set raw then map (\<lambda>(k, w). (k, if k = key then v else w)) raw else raw @ [(key, v)])"

definition alert_message :: "SurveillanceAlertEvent \<Rightarrow> string" where
  "alert_message alert =
     (if sa_EventType alert = ''surveillance.alert.created''
        then sa_AlertType alert @ '' alert created for '' @ sa_EntityType alert @ '' '' @ sa_EntityID alert
      else if sa_EventType alert = ''surveillance.alert.acknowledged'' then sa_AlertType alert @ '' alert acknowledged''
      else if sa_EventType alert = ''surveillance.alert.resolved'' then sa_AlertType alert @ '' alert resolved''
      else if sa_EventType alert = ''surveillance.alert.dismissed'' then sa_AlertType alert @ '' alert dismissed''
      else sa_AlertType alert @ '' alert '' @ sa_AlertID alert @ '' is '' @ sa_Status alert)"

text \<open>The members of the alert's own metadata come last and replace those of the same name.\<close>

definition alert_metadata :: "SurveillanceAlertEvent \<Rightarrow> (string \<times> json) list" where
  "alert_metadata alert =
     fold (\<lambda>(k, v). put_member k v) (sa_Metadata alert)
       ([(''sourceEventId'', JStr (sa_EventID alert)), (''alertId'', JStr (sa_AlertID alert)),
         (''alertType'', JStr (sa_AlertType alert)), (''entityType'', JStr (sa_EntityType alert)),
         (''entityId'', JStr (sa_EntityID alert)), (''alertStatus'', JStr (sa_Status alert)),
         (''eventType'', JStr (sa_EventType alert))] @
        (case sa_Symbol alert of None \<Rightarrow> [] | Some s \<Rightarrow> [(''symbol'', JStr s)]))"

definition notificationFromAlert :: "notification_env \<Rightarrow> SurveillanceAlertEvent \<Rightarrow> Notification notification_action" where
  "notificationFromAlert env alert = and_next new_uuid (\<lambda>i. give
     \<lparr>nf_ID = i, nf_TenantID = notifyTenant (sa_TenantID alert), nf_UserID = sa_UserID alert, nf_Channel = ChannelInApp,
      nf_Priority = SeverityToPriority (sa_Severity alert), nf_Status = StatusPending,
      nf_Title = ''Surveillance alert: '' @ sa_AlertType alert, nf_Message = alert_message alert,
      nf_Source = ''surveillance-service'', nf_Metadata = alert_metadata alert, nf_ReadAt = None,
      nf_CreatedAt = ny_now env, nf_UpdatedAt = ny_now env\<rparr>)"

subsection \<open>Sending\<close>

text \<open>The producer sets the version; a failing publication is ignored. The service never passes a correlation id.\<close>

definition publishNotification :: "notification_env \<Rightarrow> string \<Rightarrow> Notification \<Rightarrow> unit notification_action" where
  "publishNotification env eventType n = and_next new_uuid (\<lambda>i s.
     if \<not> ny_publishes env then (Inr (), s)
     else (Inr (), s\<lparr>nt_events := nt_events s @
       [\<lparr>nv_EventID = i, nv_EventType = eventType, nv_EventVersion = ''1.0'', nv_TenantID = notifyTenant (nf_TenantID n),
         nv_NotificationID = nf_ID n, nv_UserID = nf_UserID n, nv_Channel = nf_Channel n, nv_Priority = nf_Priority n,
         nv_Status = nf_Status n, nv_Source = nf_Source n, nv_Metadata = nf_Metadata n, nv_OccurredAt = ny_now env,
         nv_CorrelationID = ''''\<rparr>]\<rparr>))"

definition metadataString :: "(string \<times> json) list \<Rightarrow> string \<Rightarrow> string" where
  "metadataString metadata key = (case member_of metadata key of JStr s \<Rightarrow> s | _ \<Rightarrow> '''')"

definition duplicateNotification :: "notification_env \<Rightarrow> Notification \<Rightarrow> bool notification_action" where
  "duplicateNotification env n =
     (let sourceEventID = metadataString (nf_Metadata n) ''sourceEventId'';
          eventType = metadataString (nf_Metadata n) ''eventType''
      in if sourceEventID = '''' \<or> eventType = '''' then give False
         else DuplicateExists env (notifyTenant (nf_TenantID n)) sourceEventID eventType (nf_Channel n))"

definition recordAttempt :: "pg_uuid \<Rightarrow> notification_env \<Rightarrow> string \<Rightarrow> channel \<Rightarrow> notification_status \<Rightarrow> string option
    \<Rightarrow> unit notification_action" where
  "recordAttempt pg env notificationID ch st errorMessage =
     and_next (NextAttemptNumber pg env notificationID) (\<lambda>number.
     and_next new_uuid (\<lambda>i.
     and_next (RecordAttempt pg env
        \<lparr>da_ID = i, da_TenantID = '''', da_NotificationID = notificationID, da_Channel = ch, da_Status = st,
         da_AttemptNumber = number, da_ErrorMessage = errorMessage, da_AttemptedAt = ny_now env\<rparr>) (\<lambda>_.
       give ())))"

definition sendInApp :: "pg_uuid \<Rightarrow> notification_env \<Rightarrow> Notification \<Rightarrow> unit notification_action" where
  "sendInApp pg env n0 =
     (let n = n0\<lparr>nf_Channel := ChannelInApp, nf_Status := StatusSent\<rparr>
      in and_next (duplicateNotification env n) (\<lambda>duplicate.
         if duplicate then give ()
         else and_next (CreateNotification pg env n) (\<lambda>created.
              and_next (publishNotification env ''notification.created'' created) (\<lambda>_.
                publishNotification env ''notification.sent'' created))))"

definition sendEmail :: "pg_uuid \<Rightarrow> notification_env \<Rightarrow> Notification \<Rightarrow> unit notification_action" where
  "sendEmail pg env n0 =
     (let n = n0\<lparr>nf_Channel := ChannelEmail, nf_Status := StatusSent\<rparr>
      in and_next (duplicateNotification env n) (\<lambda>duplicate.
         if duplicate then give ()
         else and_next (CreateNotification pg env n) (\<lambda>created.
              and_next (recordAttempt pg env (nf_ID created) ChannelEmail StatusSent None) (\<lambda>_.
              and_next (publishNotification env ''notification.created'' created) (\<lambda>_.
                publishNotification env ''notification.sent'' created)))))"

text \<open>A POST: the endpoint's status code, or why there is none.\<close>

definition post_webhook :: "notification_env \<Rightarrow> string \<Rightarrow> Notification \<Rightarrow> (string + int) notification_action" where
  "post_webhook env url n s = (Inr (ny_post env (length (nt_posts s))), s\<lparr>nt_posts := nt_posts s @ [(url, n)]\<rparr>)"

definition accepted_code :: "string + int \<Rightarrow> bool" where
  "accepted_code r = (case r of Inl _ \<Rightarrow> False | Inr code \<Rightarrow> code \<ge> 200 \<and> code < 300)"

definition post_error :: "string + int \<Rightarrow> string" where
  "post_error r = (case r of Inl err \<Rightarrow> err | Inr code \<Rightarrow> ''webhook returned status '' @ sprintf_d code)"

text \<open>The attempts that are left; an exhausted loop leaves the notification FAILED.\<close>

fun post_attempts :: "pg_uuid \<Rightarrow> notification_env \<Rightarrow> string \<Rightarrow> Notification \<Rightarrow> nat \<Rightarrow> unit notification_action" where
  "post_attempts pg env url created 0 =
     and_next (UpdateNotificationStatus pg env (notifyTenant (nf_TenantID created)) (nf_ID created) StatusFailed) (\<lambda>failed.
       publishNotification env ''notification.failed'' failed)"
| "post_attempts pg env url created (Suc k) =
     (if \<not> ny_url env url then fail_with InvalidWebhookURL
      else and_next (post_webhook env url created) (\<lambda>r.
        if accepted_code r
        then and_next (recordAttempt pg env (nf_ID created) ChannelWebhook StatusSent None) (\<lambda>_.
             and_next (UpdateNotificationStatus pg env (notifyTenant (nf_TenantID created)) (nf_ID created) StatusSent) (\<lambda>sent.
               publishNotification env ''notification.sent'' sent))
        else and_next (recordAttempt pg env (nf_ID created) ChannelWebhook StatusFailed (Some (post_error r))) (\<lambda>_.
               post_attempts pg env url created k)))"

record notification_config =
  nc_rfc3339 :: "string \<Rightarrow> time option"
  nc_webhookMaxRetries :: int

text \<open>The constructor raises the number of webhook attempts to one.\<close>

definition webhook_attempts :: "notification_config \<Rightarrow> nat" where
  "webhook_attempts cfg = nat (if nc_webhookMaxRetries cfg < 1 then 1 else nc_webhookMaxRetries cfg)"

definition sendWebhook :: "pg_uuid \<Rightarrow> notification_config \<Rightarrow> notification_env \<Rightarrow> Notification \<Rightarrow> string \<Rightarrow> unit notification_action" where
  "sendWebhook pg cfg env n0 url =
     (let n = n0\<lparr>nf_Channel := ChannelWebhook, nf_Status := StatusPending\<rparr>
      in and_next (duplicateNotification env n) (\<lambda>duplicate.
         if duplicate then give ()
         else and_next (CreateNotification pg env n) (\<lambda>created.
              and_next (publishNotification env ''notification.created'' created) (\<lambda>_.
                post_attempts pg env url created (webhook_attempts cfg)))))"
text \<open>The copies of the notification share one metadata map: what the e-mail branch writes into it is still
  there in the webhook branch.\<close>

definition createFromAlert :: "pg_uuid \<Rightarrow> notification_config \<Rightarrow> notification_env \<Rightarrow> SurveillanceAlertEvent \<Rightarrow> unit notification_action" where
  "createFromAlert pg cfg env alert =
     and_next (LoadPreferences pg env (notifyTenant (sa_TenantID alert)) (coalesce (sa_UserID alert) '''')) (\<lambda>prefs.
     and_next (notificationFromAlert env alert) (\<lambda>base.
     and_next (if pf_InAppEnabled prefs then sendInApp pg env base else give ()) (\<lambda>_.
       let m1 = (if pf_EmailEnabled prefs
                 then (case pf_EmailAddress prefs of None \<Rightarrow> nf_Metadata base
                       | Some a \<Rightarrow> put_member ''emailAddress'' (JStr a) (nf_Metadata base))
                 else nf_Metadata base)
       in and_next (if pf_EmailEnabled prefs
                    then and_next new_uuid (\<lambda>i. sendEmail pg env (base\<lparr>nf_ID := i, nf_Channel := ChannelEmail, nf_Metadata := m1\<rparr>))
                    else give ()) (\<lambda>_.
          case pf_WebhookURL prefs of
            None \<Rightarrow> give ()
          | Some url \<Rightarrow>
              if pf_WebhookEnabled prefs \<and> trim_space url \<noteq> ''''
              then and_next new_uuid (\<lambda>i. sendWebhook pg cfg env
                     (base\<lparr>nf_ID := i, nf_Channel := ChannelWebhook, nf_Metadata := put_member ''webhookUrl'' (JStr url) m1\<rparr>) url)
              else give ()))))"

definition NotificationProcessEvent :: "pg_uuid \<Rightarrow> notification_config \<Rightarrow> notification_env \<Rightarrow> SourceEvent \<Rightarrow> unit notification_action" where
  "NotificationProcessEvent pg cfg env event s =
     (case ParseSurveillanceAlertEvent (nc_rfc3339 cfg) (se_Value event) of
        Inl err \<Rightarrow> (Inl err, s)
      | Inr alert0 \<Rightarrow>
          let alert1 = (if sa_EventType alert0 = '''' then alert0\<lparr>sa_EventType := se_Topic event\<rparr> else alert0);
              alert2 = (if sa_CorrelationID alert1 = '''' then alert1\<lparr>sa_CorrelationID := se_CorrelationID event\<rparr> else alert1);
              alert = (if sa_TenantID alert2 = '''' then alert2\<lparr>sa_TenantID := ''default-tenant''\<rparr> else alert2)
          in if sa_UserID alert = None \<or> sa_UserID alert = Some '''' then (Inr (), s)
             else createFromAlert pg cfg env alert s)"

subsection \<open>Reading and moving\<close>

record notification_user =
  un_UserID :: string
  un_TenantID :: string
  un_Roles :: "string list"

definition canViewNotifications :: "string list \<Rightarrow> bool" where
  "canViewNotifications roles \<longleftrightarrow>
     list_ex (\<lambda>r. r \<in> {''trading_admin'', ''risk_manager'', ''analyst'', ''viewer'', ''trader''}) roles"

definition canViewAll :: "string list \<Rightarrow> bool" where
  "canViewAll roles \<longleftrightarrow> list_ex (\<lambda>r. r \<in> {''trading_admin'', ''risk_manager''}) roles"

definition canManage :: "string list \<Rightarrow> bool" where
  "canManage roles \<longleftrightarrow> list_ex (\<lambda>r. r \<in> {''trading_admin'', ''risk_manager''}) roles"

definition canAccess :: "notification_user \<Rightarrow> Notification \<Rightarrow> bool" where
  "canAccess user n \<longleftrightarrow>
     (if notifyTenant (un_TenantID user) \<noteq> notifyTenant (nf_TenantID n) \<and> \<not> canViewAll (un_Roles user) then False
      else if canViewAll (un_Roles user) then True
      else nf_UserID n = Some (un_UserID user))"

definition ServiceListNotifications :: "notification_env \<Rightarrow> notification_user \<Rightarrow> NotificationFilters \<Rightarrow> Notification list notification_action" where
  "ServiceListNotifications env user f =
     (if \<not> canViewNotifications (un_Roles user) then fail_with NotificationForbidden
      else ListNotifications env
        (f\<lparr>nl_UserID := (if \<not> canViewAll (un_Roles user) \<or> nl_UserID f = '''' then un_UserID user else nl_UserID f),
           nl_TenantID := notifyTenant (un_TenantID user)\<rparr>))"

definition ServiceGetNotification :: "pg_uuid \<Rightarrow> notification_env \<Rightarrow> notification_user \<Rightarrow> string \<Rightarrow> Notification notification_action" where
  "ServiceGetNotification pg env user i =
     (if \<not> canViewNotifications (un_Roles user) then fail_with NotificationForbidden
      else and_next (GetNotification pg env (notifyTenant (un_TenantID user)) i) (\<lambda>n.
        if canAccess user n then give n else fail_with NotificationForbidden))"

definition ServiceMarkRead :: "pg_uuid \<Rightarrow> notification_env \<Rightarrow> notification_user \<Rightarrow> string \<Rightarrow> Notification notification_action" where
  "ServiceMarkRead pg env user i =
     and_next (ServiceGetNotification pg env user i) (\<lambda>_.
     and_next (MarkNotificationRead pg env (notifyTenant (un_TenantID user)) i) (\<lambda>n.
     and_next (publishNotification env ''notification.read'' n) (\<lambda>_. give n)))"

definition ServiceRetry :: "pg_uuid \<Rightarrow> notification_env \<Rightarrow> notification_user \<Rightarrow> string \<Rightarrow> Notification notification_action" where
  "ServiceRetry pg env user i =
     (if \<not> canManage (un_Roles user) then fail_with NotificationForbidden
      else and_next (GetNotification pg env (notifyTenant (un_TenantID user)) i) (\<lambda>_.
           and_next (RetryNotification pg env (notifyTenant (un_TenantID user)) i) (\<lambda>n.
           and_next (publishNotification env ''notification.retry_requested'' n) (\<lambda>_. give n))))"

definition ServiceNotificationSummary :: "pg_uuid \<Rightarrow> notification_env \<Rightarrow> notification_user \<Rightarrow> NotificationSummary notification_action" where
  "ServiceNotificationSummary pg env user =
     (if \<not> canViewNotifications (un_Roles user) then fail_with NotificationForbidden
      else NotificationSummaryOf pg env (notifyTenant (un_TenantID user)) (un_UserID user))"

subsection \<open>Preferences\<close>

definition ServicePreferences :: "pg_uuid \<Rightarrow> notification_env \<Rightarrow> notification_user \<Rightarrow> NotificationPreferences notification_action" where
  "ServicePreferences pg env user =
     (if un_UserID user = '''' then fail_with NotificationForbidden
      else LoadPreferences pg env (notifyTenant (un_TenantID user)) (un_UserID user))"

definition validPriority :: "string \<Rightarrow> bool" where
  "validPriority priority \<longleftrightarrow> priority \<in> {PriorityLow, PriorityMedium, PriorityHigh, PriorityCritical}"

definition ServiceUpdatePreferences :: "pg_uuid \<Rightarrow> notification_env \<Rightarrow> notification_user \<Rightarrow> NotificationPreferences
    \<Rightarrow> NotificationPreferences notification_action" where
  "ServiceUpdatePreferences pg env user prefs0 =
     (if un_UserID user = '''' then fail_with NotificationForbidden
      else
        let trimmed = to_upper (trim_space (pf_MinPriority prefs0));
            prefs = prefs0\<lparr>pf_UserID := un_UserID user, pf_TenantID := notifyTenant (un_TenantID user),
              pf_MinPriority := (if trimmed = '''' then PriorityLow else trimmed)\<rparr>
        in if \<not> validPriority (pf_MinPriority prefs) then fail_with InvalidPreference
           else StorePreferences pg env prefs)"

end
