(* ===== verification/NotificationFacts.thy ===== *)
theory NotificationFacts
  imports NotificationService
begin

text \<open>
  What the notification service guarantees. Every action of the service is framed by a relation between
  the state before and after: a locale closes such a frame under the ways actions are composed, and is
  interpreted on the rows an action may move. From the frames follow the invariant of the tables over any
  run of calls, what a run may do to a stored notification, who may read and move one, and how a webhook
  delivery ends.
\<close>

subsection \<open>Frames\<close>

text \<open>An action framed by a relation: it keeps the invariant and relates the states, whether it fails or not.\<close>

definition framed :: "('s \<Rightarrow> bool) \<Rightarrow> ('s \<Rightarrow> 's \<Rightarrow> bool) \<Rightarrow> ('s \<Rightarrow> 'r \<times> 's) \<Rightarrow> bool" where
  "framed good kept m \<longleftrightarrow> (\<forall>s. good s \<longrightarrow> good (snd (m s)) \<and> kept s (snd (m s)))"

lemma framedD: "framed good kept m \<Longrightarrow> good s \<Longrightarrow> good (snd (m s)) \<and> kept s (snd (m s))"
  by (simp add: framed_def)

lemma missing_state: "snd (missing_or_guarded pg env tenantID i s) = snd (GetNotification pg env tenantID i s)"
  by (simp add: missing_or_guarded_def split: prod.splits sum.splits notification_error.splits)

locale action_frame =
  fixes inv :: "notification_state \<Rightarrow> bool" and kept :: "notification_state \<Rightarrow> notification_state \<Rightarrow> bool"
  assumes still: "kept s s" and onward: "kept s t \<Longrightarrow> kept t u \<Longrightarrow> kept s u"
    and counter: "inv s \<Longrightarrow> inv (s\<lparr>nt_statements := k\<rparr>) \<and> kept s (s\<lparr>nt_statements := k\<rparr>)"
    and drawing: "inv s \<Longrightarrow> inv (s\<lparr>nt_drawn := k\<rparr>) \<and> kept s (s\<lparr>nt_drawn := k\<rparr>)"
    and publishing: "inv s \<Longrightarrow> inv (s\<lparr>nt_events := es\<rparr>) \<and> kept s (s\<lparr>nt_events := es\<rparr>)"
begin

lemma frame_give: "framed inv kept (give x)"
  by (simp add: framed_def give_def still)

lemma frame_fail: "framed inv kept (fail_with err)"
  by (simp add: framed_def fail_with_def still)

lemma frame_next:
  assumes "framed inv kept m" "\<And>x. framed inv kept (f x)" shows "framed inv kept (and_next m f)"
  unfolding framed_def and_next_def
proof (intro allI impI)
  fix s assume "inv s"
  then have m: "inv (snd (m s)) \<and> kept s (snd (m s))" by (rule framedD [OF assms(1)])
  obtain r t where r: "m s = (r, t)" by fastforce
  show "inv (snd (case m s of (Inl err, s') \<Rightarrow> (Inl err, s') | (Inr x, s') \<Rightarrow> f x s')) \<and>
    kept s (snd (case m s of (Inl err, s') \<Rightarrow> (Inl err, s') | (Inr x, s') \<Rightarrow> f x s'))"
  proof (cases r)
    case (Inl err)
    then show ?thesis using m r by simp
  next
    case (Inr x)
    then show ?thesis using m r framedD [OF assms(2), of t x] onward [of s t "snd (f x t)"] by simp
  qed
qed

lemma frame_uuid: "framed inv kept new_uuid"
  by (simp add: framed_def new_uuid_def drawing)

lemma frame_statement:
  assumes "\<And>s x t. inv s \<Longrightarrow> q s = Inr (x, t) \<Longrightarrow> inv t \<and> kept s t"
  shows "framed inv kept (statement env q)"
proof -
  have "inv t \<and> kept s t" if "inv s" "q (s\<lparr>nt_statements := Suc (nt_statements s)\<rparr>) = Inr (x, t)" for s x t
    using assms counter onward that by blast
  then show ?thesis by (auto simp: framed_def statement_def Let_def counter split: sum.splits)
qed

lemma frame_query: "framed inv kept (query env q)"
  unfolding query_def by (rule frame_statement) (auto simp: and_then_Inr still)

lemma frame_get: "framed inv kept (GetNotification pg env tenantID i)"
  unfolding GetNotification_def by (rule frame_query)

lemma frame_missing: "framed inv kept (missing_or_guarded pg env tenantID i)"
  using frame_get [of pg env tenantID i] by (simp add: framed_def missing_state)

lemma frame_publish: "framed inv kept (publishNotification env eventType n)"
  unfolding publishNotification_def
  by (rule frame_next [OF frame_uuid]) (simp add: framed_def still publishing)

lemmas frames = frame_give frame_fail frame_uuid frame_query frame_get frame_missing frame_publish

end

subsection \<open>The tables\<close>

abbreviation row_id :: "notification_row \<Rightarrow> string" where
  "row_id r \<equiv> nf_ID (snd r)"

definition ids :: "notification_state \<Rightarrow> string set" where
  "ids s = row_id ` set (nt_notifications s)"

text \<open>What a notification delivers, when it says so: an event of a tenant over a channel.\<close>

definition delivery_key :: "notification_row \<Rightarrow> (string \<times> string \<times> string \<times> channel) option" where
  "delivery_key r =
     (let source = metadataString (nf_Metadata (snd r)) ''sourceEventId'';
          event = metadataString (nf_Metadata (snd r)) ''eventType''
      in if source = '''' \<or> event = '''' then None
         else Some (notification_tenant r, source, event, nf_Channel (snd r)))"

text \<open>The attempts of a notification are numbered from 1 in the order they were made.\<close>

definition numbered :: "notification_state \<Rightarrow> bool" where
  "numbered s \<longleftrightarrow> (\<forall>u. \<forall>k<length (attempts_of u s). attempts_of u s ! k = int k + 1)"

definition notifications_ok :: "notification_state \<Rightarrow> bool" where
  "notifications_ok s \<longleftrightarrow>
     distinct (map row_id (nt_notifications s)) \<and>
     distinct (List.map_filter delivery_key (nt_notifications s)) \<and>
     numbered s \<and> da_NotificationID ` set (nt_attempts s) \<subseteq> ids s \<and>
     distinct (map pf_UserID (nt_preferences s))"

text \<open>How a stored notification may change: its content never does; unless its id is among \<open>X\<close> its status stays,
  becomes READ, or goes from FAILED to RETRYING.\<close>

definition status_moves :: "notification_status \<Rightarrow> notification_status \<Rightarrow> bool" where
  "status_moves a b \<longleftrightarrow> a = b \<or> b = StatusRead \<or> (a = StatusFailed \<and> b = StatusRetrying)"

definition row_kept :: "string set \<Rightarrow> notification_row \<Rightarrow> notification_row \<Rightarrow> bool" where
  "row_kept X r r' \<longleftrightarrow>
     (\<exists>st readAt now. r' = (fst r, (snd r)\<lparr>nf_Status := st, nf_ReadAt := readAt, nf_UpdatedAt := now\<rparr>) \<and>
       (row_id r \<in> X \<or> status_moves (nf_Status (snd r)) st))"

text \<open>No row is lost, and nothing is posted for a stored notification outside \<open>X\<close>.\<close>

definition rows_kept :: "string set \<Rightarrow> notification_state \<Rightarrow> notification_state \<Rightarrow> bool" where
  "rows_kept X s s' \<longleftrightarrow>
     (\<exists>old new. nt_notifications s' = old @ new \<and> list_all2 (row_kept X) (nt_notifications s) old) \<and>
     (\<exists>new. nt_attempts s' = nt_attempts s @ new) \<and>
     (\<exists>new. nt_posts s' = nt_posts s @ new \<and> (\<forall>p\<in>set new. nf_ID (snd p) \<in> ids s \<longrightarrow> nf_ID (snd p) \<in> X))"

lemma row_kept_refl: "row_kept X r r"
  unfolding row_kept_def status_moves_def
  by (intro exI [of _ "nf_Status (snd r)"] exI [of _ "nf_ReadAt (snd r)"] exI [of _ "nf_UpdatedAt (snd r)"]) simp

lemma row_kept_fields:
  assumes "row_kept X r r'"
  shows "fst r' = fst r" "row_id r' = row_id r" "delivery_key r' = delivery_key r"
    "notification_tenant r' = notification_tenant r" "nf_UserID (snd r') = nf_UserID (snd r)"
  using assms by (auto simp: row_kept_def delivery_key_def notification_tenant_def Let_def)

lemma status_moves_trans: "status_moves a b \<Longrightarrow> status_moves b c \<Longrightarrow> status_moves a c"
  by (auto simp: status_moves_def)

lemma row_kept_trans: "row_kept X r r' \<Longrightarrow> row_kept X r' r'' \<Longrightarrow> row_kept X r r''"
  unfolding row_kept_def by (elim exE conjE) (auto intro: status_moves_trans)

lemma row_kept_map:
  assumes "list_all2 (row_kept X) xs ys"
  shows "map row_id ys = map row_id xs" "List.map_filter delivery_key ys = List.map_filter delivery_key xs"
  using assms by (induction rule: list_all2_induct) (auto simp: row_kept_fields List.map_filter_def)

lemma rows_kept_ids:
  assumes "rows_kept X s s'" shows "ids s \<subseteq> ids s'"
proof -
  obtain old new where o: "nt_notifications s' = old @ new" "list_all2 (row_kept X) (nt_notifications s) old"
    using assms unfolding rows_kept_def by blast
  have "row_id ` set old = ids s"
    using row_kept_map(1) [OF o(2)] unfolding ids_def by (metis set_map)
  then show ?thesis using o(1) by (auto simp: ids_def)
qed

lemma rows_kept_refl: "rows_kept X s s"
  unfolding rows_kept_def
  by (intro conjI exI [of _ "nt_notifications s"] exI [of _ "[]"]) (simp_all add: list.rel_refl row_kept_refl)

lemma rows_kept_trans:
  assumes "rows_kept X s t" "rows_kept X t u" shows "rows_kept X s u"
proof -
  obtain old new where t: "nt_notifications t = old @ new" "list_all2 (row_kept X) (nt_notifications s) old"
    using assms(1) unfolding rows_kept_def by blast
  obtain old' new' where u: "nt_notifications u = old' @ new'" "list_all2 (row_kept X) (old @ new) old'"
    using assms(2) t(1) unfolding rows_kept_def by auto
  obtain a b where ab: "old' = a @ b" "list_all2 (row_kept X) old a"
    using u(2) by (auto simp: list_all2_append1)
  have "list_all2 (row_kept X) (nt_notifications s) a"
    by (rule list_all2_trans [OF _ t(2) ab(2)]) (rule row_kept_trans)
  then have rows: "\<exists>old new. nt_notifications u = old @ new \<and> list_all2 (row_kept X) (nt_notifications s) old"
    using u(1) ab(1) by (intro exI [of _ a] exI [of _ "b @ new'"]) simp
  obtain p q where pq: "nt_posts t = nt_posts s @ p" "\<forall>x\<in>set p. nf_ID (snd x) \<in> ids s \<longrightarrow> nf_ID (snd x) \<in> X"
    "nt_posts u = nt_posts t @ q" "\<forall>x\<in>set q. nf_ID (snd x) \<in> ids t \<longrightarrow> nf_ID (snd x) \<in> X"
    using assms unfolding rows_kept_def by blast
  have "ids s \<subseteq> ids t" using assms(1) by (rule rows_kept_ids)
  then have "\<exists>new. nt_posts u = nt_posts s @ new \<and> (\<forall>x\<in>set new. nf_ID (snd x) \<in> ids s \<longrightarrow> nf_ID (snd x) \<in> X)"
    using pq by (intro exI [of _ "p @ q"]) auto
  moreover have "\<exists>new. nt_attempts u = nt_attempts s @ new" using assms unfolding rows_kept_def by auto
  ultimately show ?thesis using rows by (simp add: rows_kept_def)
qed

lemma rows_kept_mono:
  assumes "rows_kept X s s'" "X \<inter> ids s \<subseteq> Y" shows "rows_kept Y s s'"
proof -
  obtain old new where o: "nt_notifications s' = old @ new" "list_all2 (row_kept X) (nt_notifications s) old"
    using assms(1) unfolding rows_kept_def by blast
  have "list_all2 (row_kept Y) (nt_notifications s) old"
    using o(2)
  proof (rule list.rel_mono_strong)
    fix r r' assume "r \<in> set (nt_notifications s)" and k: "row_kept X r r'"
    then have "row_id r \<in> X \<Longrightarrow> row_id r \<in> Y" using assms(2) by (auto simp: ids_def)
    then show "row_kept Y r r'" using k unfolding row_kept_def by blast
  qed
  then show ?thesis using assms o(1) unfolding rows_kept_def by (auto 4 3)
qed

text \<open>Neither looks at the statements, the UUIDs or the published events.\<close>

lemma tables_only [simp]:
  "notifications_ok (s\<lparr>nt_statements := k\<rparr>) = notifications_ok s"
  "notifications_ok (s\<lparr>nt_drawn := k\<rparr>) = notifications_ok s"
  "notifications_ok (s\<lparr>nt_events := es\<rparr>) = notifications_ok s"
  by (simp_all add: notifications_ok_def numbered_def attempts_of_def ids_def)

lemma rows_kept_tables [simp]:
  "rows_kept X s (s\<lparr>nt_statements := k\<rparr>)" "rows_kept X s (s\<lparr>nt_drawn := k\<rparr>)" "rows_kept X s (s\<lparr>nt_events := es\<rparr>)"
  using rows_kept_refl [of X s] by (simp_all add: rows_kept_def)

interpretation rows: action_frame notifications_ok "rows_kept X" for X
  by unfold_locales (fact rows_kept_refl, fact rows_kept_trans, simp_all)

subsection \<open>The statements\<close>

lemma notifyTenant_idem [simp]: "notifyTenant (notifyTenant v) = notifyTenant v"
proof -
  have "trim_space ''default-tenant'' \<noteq> ''''" by code_simp
  then show ?thesis by (simp add: notifyTenant_def)
qed

text \<open>An insertion whose key is new.\<close>

lemma notification_row_of_Some:
  assumes "notification_row_of pg n = Some row"
  shows "fst row = Some (notifyTenant (nf_TenantID n)) \<and> pg (nf_ID n) = Some (row_id row) \<and>
    nf_Metadata (snd row) = nf_Metadata n \<and> nf_Channel (snd row) = nf_Channel n \<and> nf_Status (snd row) = nf_Status n \<and>
    opt_uuid pg (nf_UserID n) = Some (nf_UserID (snd row))"
  using assms by (auto simp: notification_row_of_def split: option.splits if_splits)

lemma CreateNotification_Inr:
  assumes "CreateNotification pg env n s = (Inr created, s')"
  obtains row where "notification_row_of pg n = Some row" "created = scanNotification row" "row_id row \<notin> ids s"
    "s' = s\<lparr>nt_notifications := nt_notifications s @ [row], nt_statements := nt_statements s + 1\<rparr>"
  using assms by (auto simp: CreateNotification_def statement_def Let_def ids_def split: option.splits if_splits)

lemma CreateNotification_Inl:
  assumes "CreateNotification pg env n s = (Inl err, s')" shows "s' = s\<lparr>nt_statements := nt_statements s + 1\<rparr>"
  using assms by (auto simp: CreateNotification_def statement_def Let_def split: option.splits if_splits)

lemma notifications_ok_create:
  assumes "notifications_ok s" "row_id row \<notin> ids s"
    "delivery_key row = None \<or> delivery_key row \<notin> delivery_key ` set (nt_notifications s)"
  shows "notifications_ok (s\<lparr>nt_notifications := nt_notifications s @ [row], nt_statements := k\<rparr>)"
  using assms
  by (auto simp: notifications_ok_def numbered_def attempts_of_def ids_def List.map_filter_def rev_image_eqI
      intro: rev_image_eqI split: option.splits)

lemma rows_kept_create:
  "rows_kept X s (s\<lparr>nt_notifications := nt_notifications s @ rows, nt_statements := k\<rparr>)"
  unfolding rows_kept_def by (simp add: list.rel_refl row_kept_refl) (blast intro: list.rel_refl row_kept_refl)

text \<open>A notification that is no duplicate has a key of its own.\<close>

lemma duplicateNotification_rows:
  assumes "duplicateNotification env n s = (r, t)"
  shows "nt_notifications t = nt_notifications s"
  using assms
  by (auto simp: duplicateNotification_def DuplicateExists_def query_def statement_def give_def Let_def split: if_splits)

lemma delivers_key:
  assumes "delivery_key r = Some (notifyTenant tenantID, source, event, ch)"
  shows "delivers env tenantID source event ch r"
  using assms by (auto simp: delivery_key_def delivers_def has_text_def metadataString_def Let_def
      split: json.splits if_splits)

lemma not_duplicate_key:
  assumes d: "duplicateNotification env n s = (Inr False, t)" and row: "notification_row_of pg n = Some row"
  shows "delivery_key row = None \<or> delivery_key row \<notin> delivery_key ` set (nt_notifications s)"
proof (rule ccontr)
  let ?src = "metadataString (nf_Metadata n) ''sourceEventId''" and ?ev = "metadataString (nf_Metadata n) ''eventType''"
  assume "\<not> (delivery_key row = None \<or> delivery_key row \<notin> delivery_key ` set (nt_notifications s))"
  then obtain r where r: "r \<in> set (nt_notifications s)" "delivery_key r = delivery_key row" "delivery_key row \<noteq> None" by auto
  have k: "delivery_key row = Some (notifyTenant (nf_TenantID n), ?src, ?ev, nf_Channel n)" "?src \<noteq> ''''" "?ev \<noteq> ''''"
    using r(3) notification_row_of_Some [OF row]
    by (auto simp: delivery_key_def notification_tenant_def Let_def split: if_splits)
  have "delivers env (notifyTenant (nf_TenantID n)) ?src ?ev (nf_Channel n) r"
    by (rule delivers_key) (simp add: r(2) k(1))
  then have "list_ex (delivers env (notifyTenant (nf_TenantID n)) ?src ?ev (nf_Channel n)) (nt_notifications s)"
    using r(1) by (auto simp: list_ex_iff)
  then show False
    using d k(2,3) by (auto simp: duplicateNotification_def DuplicateExists_def query_def statement_def Let_def split: if_splits)
qed

text \<open>PostgreSQL reads back the UUIDs it prints.\<close>

definition printed_uuids :: "pg_uuid \<Rightarrow> bool" where
  "printed_uuids pg \<longleftrightarrow> (\<forall>x u. pg x = Some u \<longrightarrow> pg u = Some u)"

subsection \<open>Attempts\<close>

lemma next_number_length:
  assumes "numbered s" shows "next_number u s = int (length (attempts_of u s)) + 1"
proof (cases "attempts_of u s")
  case Nil
  then show ?thesis by (simp add: next_number_def)
next
  case (Cons n ns)
  let ?xs = "attempts_of u s"
  have at_k: "\<forall>k<length ?xs. ?xs ! k = int k + 1" using assms by (simp add: numbered_def)
  have "Max (set ?xs) = int (length ?xs)"
  proof (rule Max_eqI)
    show "y \<le> int (length ?xs)" if y: "y \<in> set ?xs" for y
    proof -
      obtain k where "k < length ?xs" "y = ?xs ! k" using y by (metis in_set_conv_nth)
      then show ?thesis using at_k by simp
    qed
    have "length ?xs - 1 < length ?xs" using Cons by simp
    moreover from this have "?xs ! (length ?xs - 1) = int (length ?xs)" using at_k by fastforce
    ultimately show "int (length ?xs) \<in> set ?xs" by (metis nth_mem)
  qed simp
  then have "fold max ns n = int (length ?xs)" using Max.set_eq_fold [of n ns] Cons by simp
  then show ?thesis by (simp add: next_number_def Cons)
qed

lemma attempts_of_add:
  "attempts_of u (s\<lparr>nt_attempts := nt_attempts s @ [row]\<rparr>) =
    attempts_of u s @ (if da_NotificationID row = u then [da_AttemptNumber row] else [])"
  by (simp add: attempts_of_def)

lemma numbered_add:
  assumes "numbered s" "da_AttemptNumber row = next_number (da_NotificationID row) s"
  shows "numbered (s\<lparr>nt_attempts := nt_attempts s @ [row]\<rparr>)"
  using assms next_number_length [OF assms(1)]
  unfolding numbered_def attempts_of_add by (auto simp: nth_append less_Suc_eq)

lemma insert_attempt_Inr:
  assumes "insert_attempt pg a s = Inr (row, t)"
  shows "t = s\<lparr>nt_attempts := nt_attempts s @ [row]\<rparr> \<and> pg (da_NotificationID a) = Some (da_NotificationID row) \<and>
    da_NotificationID row \<in> ids s \<and> da_AttemptNumber row = da_AttemptNumber a \<and> da_Status row = da_Status a \<and>
    da_Channel row = da_Channel a"
  using assms by (auto simp: insert_attempt_def ids_def Let_def intro: rev_image_eqI split: option.splits if_splits)

lemma insert_attempt_ok:
  assumes ok: "notifications_ok s" and a: "insert_attempt pg a s = Inr (row, t)"
    and number: "da_AttemptNumber a = next_number (da_NotificationID row) s"
  shows "notifications_ok t \<and> rows_kept X s t"
proof -
  note t = insert_attempt_Inr [OF a]
  have "numbered t" using numbered_add [of s row] ok t number by (simp add: notifications_ok_def)
  moreover have "ids t = ids s" using t by (simp add: ids_def)
  moreover have "rows_kept X s t"
    using rows_kept_refl [of X s] t by (simp add: rows_kept_def)
  ultimately show ?thesis using ok t by (simp add: notifications_ok_def)
qed

lemma frame_recordAttempt: "framed notifications_ok (rows_kept X) (recordAttempt pg env i ch st err)"
proof -
  have "notifications_ok (snd (recordAttempt pg env i ch st err s)) \<and> rows_kept X s (snd (recordAttempt pg env i ch st err s))"
    if ok: "notifications_ok s" for s
  proof -
    obtain r s1 where r: "NextAttemptNumber pg env i s = (r, s1)" by fastforce
    have s1: "notifications_ok s1 \<and> rows_kept X s s1"
      using framedD [OF rows.frame_query ok] r unfolding NextAttemptNumber_def by (metis snd_conv)
    show ?thesis
    proof (cases r)
      case (Inl e)
      then show ?thesis using s1 r by (simp add: recordAttempt_def and_next_def)
    next
      case (Inr number)
      then obtain u where u: "pg i = Some u" "number = next_number u s" "s1 = s\<lparr>nt_statements := Suc (nt_statements s)\<rparr>"
        using r by (auto simp: NextAttemptNumber_def query_def statement_def Let_def next_number_def attempts_of_def
            and_then_Inr split: if_splits sum.splits option.splits)
      let ?a = "\<lparr>da_ID = nt_uuids s1 (nt_drawn s1), da_TenantID = '''', da_NotificationID = i, da_Channel = ch, da_Status = st,
         da_AttemptNumber = number, da_ErrorMessage = err, da_AttemptedAt = ny_now env\<rparr>"
      let ?s2 = "s1\<lparr>nt_drawn := nt_drawn s1 + 1\<rparr>"
      let ?s3 = "?s2\<lparr>nt_statements := nt_statements ?s2 + 1\<rparr>"
      have s3: "notifications_ok ?s3 \<and> rows_kept X s ?s3"
        using s1 rows_kept_trans [of X s s1 ?s3] rows_kept_trans [of X s1 ?s2 ?s3] by simp
      have number: "number = next_number u ?s3" by (simp add: u next_number_def attempts_of_def)
      have eq: "snd (recordAttempt pg env i ch st err s) =
          (if ny_down env (nt_statements ?s2) then ?s3
           else case insert_attempt pg ?a ?s3 of Inl _ \<Rightarrow> ?s3 | Inr (x, t) \<Rightarrow> t)"
        unfolding recordAttempt_def and_next_def r Inr new_uuid_def RecordAttempt_def statement_def give_def Let_def
        by (simp split: sum.splits)
      show ?thesis
      proof (cases "\<exists>x t. insert_attempt pg ?a ?s3 = Inr (x, t)")
        case True
        then obtain x t where x: "insert_attempt pg ?a ?s3 = Inr (x, t)" by blast
        have "da_NotificationID x = u" using insert_attempt_Inr [OF x] u(1) by simp
        then have "notifications_ok t \<and> rows_kept X ?s3 t"
          by (intro insert_attempt_ok [OF _ x]) (use s3 number in simp_all)
        then show ?thesis using eq x s3 rows_kept_trans by (auto simp del: tables_only)
      next
        case False
        then show ?thesis using eq s3 by (auto split: sum.splits)
      qed
    qed
  qed
  then show ?thesis by (simp add: framed_def)
qed

subsection \<open>Updates\<close>

lemma rows_update:
  assumes ok: "notifications_ok s" and f: "\<And>r. r \<in> set (nt_notifications s) \<Longrightarrow> hit r \<Longrightarrow> row_kept X r (f r)"
  shows "notifications_ok (s\<lparr>nt_notifications := upd_where hit f (nt_notifications s)\<rparr>) \<and>
    rows_kept X s (s\<lparr>nt_notifications := upd_where hit f (nt_notifications s)\<rparr>)"
proof -
  let ?t = "s\<lparr>nt_notifications := upd_where hit f (nt_notifications s)\<rparr>"
  have l: "list_all2 (row_kept X) (nt_notifications s) (nt_notifications ?t)"
    using f by (auto simp: upd_where_def list_all2_conv_all_nth row_kept_refl)
  have "ids ?t = ids s" using row_kept_map(1) [OF l] unfolding ids_def by (metis set_map)
  then have "notifications_ok ?t"
    using ok row_kept_map [OF l] by (simp add: notifications_ok_def numbered_def attempts_of_def)
  moreover have "rows_kept X s ?t"
    unfolding rows_kept_def using l by (intro conjI exI [of _ "nt_notifications ?t"] exI [of _ "[]"]) simp_all
  ultimately show ?thesis by blast
qed

lemma set_status_kept:
  "row_id r \<in> X \<or> status_moves (nf_Status (snd r)) st \<Longrightarrow> row_kept X r (set_status st markRead now r)"
  unfolding row_kept_def set_status_def by blast

lemma frame_updateStatus:
  assumes "st = StatusRead \<or> st = StatusRetrying \<or> (\<forall>u. pg i = Some u \<longrightarrow> u \<in> X)"
  shows "framed notifications_ok (rows_kept X) (updateStatus pg env tenantID i st markRead)"
  unfolding updateStatus_def update_returning_def
proof (intro rows.frame_next rows.frame_statement, goal_cases)
  case (1 s x t)
  then obtain u where u: "pg i = Some u" "t = s\<lparr>nt_notifications := upd_where
      (\<lambda>r. own_notification tenantID u r \<and> (st = StatusRetrying \<longrightarrow> nf_Status (snd r) = StatusFailed))
      (set_status st markRead (ny_now env)) (nt_notifications s)\<rparr>"
    by (auto simp: Let_def split: option.splits)
  show ?case unfolding u(2) using 1(1) assms u(1)
    by (intro rows_update set_status_kept) (auto simp: own_notification_def status_moves_def)
next
  case (2 x)
  show ?case by (auto simp: rows.frame_give rows.frame_missing split: option.splits)
qed

lemma frame_retry:
  assumes printed: "printed_uuids pg"
  shows "framed notifications_ok (rows_kept X) (RetryNotification pg env tenantID i)"
  unfolding RetryNotification_def
proof (intro rows.frame_next rows.frame_statement rows.frame_uuid, goal_cases)
  case (1 attemptID s x t)
  show ?case
  proof (cases x)
    case None
    then have "t = s" using 1(2) by (auto simp: retry_rows_def and_then_Inr Let_def split: option.splits)
    then show ?thesis using 1(1) rows_kept_refl by simp
  next
    case (Some n)
    then obtain u r y where u: "pg i = Some u"
      "List.find (\<lambda>r. own_notification tenantID u r \<and> nf_Status (snd r) = StatusFailed) (nt_notifications s) = Some r"
      "insert_attempt pg \<lparr>da_ID = attemptID, da_TenantID = notifyTenant tenantID, da_NotificationID = u,
         da_Channel = nf_Channel (snd r), da_Status = StatusRetrying, da_AttemptNumber = next_number u s,
         da_ErrorMessage = Some ''manual retry requested'', da_AttemptedAt = ny_now env\<rparr>
        (s\<lparr>nt_notifications := upd_where (\<lambda>r. own_notification tenantID u r \<and> nf_Status (snd r) = StatusFailed)
          (set_status StatusRetrying False (ny_now env)) (nt_notifications s)\<rparr>) = Inr (y, t)"
      using 1(2) by (auto simp: retry_rows_def and_then_Inr Let_def split: option.splits)
    let ?s1 = "s\<lparr>nt_notifications := upd_where (\<lambda>r. own_notification tenantID u r \<and> nf_Status (snd r) = StatusFailed)
          (set_status StatusRetrying False (ny_now env)) (nt_notifications s)\<rparr>"
    have s1: "notifications_ok ?s1 \<and> rows_kept X s ?s1"
      by (rule rows_update [OF 1(1)]) (auto intro!: set_status_kept simp: status_moves_def)
    have y: "da_NotificationID y = u" using insert_attempt_Inr [OF u(3)] printed u(1) by (simp add: printed_uuids_def)
    have "notifications_ok t \<and> rows_kept X ?s1 t"
      by (intro insert_attempt_ok [OF _ u(3)]) (use s1 y in \<open>simp_all add: next_number_def attempts_of_def\<close>)
    then show ?thesis using s1 rows_kept_trans by blast
  qed
next
  case (2 attemptID x)
  show ?case by (auto simp: rows.frame_give rows.frame_missing split: option.splits)
qed

subsection \<open>Sending\<close>

lemma frame_post:
  assumes "nf_ID n \<in> X" shows "framed notifications_ok (rows_kept X) (post_webhook env url n)"
proof -
  have "rows_kept X s (s\<lparr>nt_posts := nt_posts s @ [(url, n)]\<rparr>)" for s
    using rows_kept_refl [of X s] assms by (simp add: rows_kept_def)
  moreover have "notifications_ok (s\<lparr>nt_posts := ps\<rparr>) = notifications_ok s" for s ps
    by (simp add: notifications_ok_def numbered_def attempts_of_def ids_def)
  ultimately show ?thesis by (simp add: framed_def post_webhook_def)
qed

lemma frame_post_attempts:
  assumes "nf_ID created \<in> X" "pg (nf_ID created) = Some (nf_ID created)"
  shows "framed notifications_ok (rows_kept X) (post_attempts pg env url created k)"
proof (induction k)
  case 0
  then show ?case
    using assms by (auto simp: UpdateNotificationStatus_def intro!: rows.frame_next rows.frames frame_updateStatus)
next
  case (Suc k)
  then show ?case
    using assms
    by (auto simp: UpdateNotificationStatus_def intro!: rows.frame_next rows.frames frame_updateStatus frame_post frame_recordAttempt)
qed

text \<open>A notification that is no duplicate is stored and then handled under its own id.\<close>

lemma frame_send:
  assumes body: "\<And>created. pg (nf_ID n) = Some (nf_ID created) \<Longrightarrow>
    framed notifications_ok (rows_kept {nf_ID created}) (body created)"
  shows "framed notifications_ok (rows_kept {}) (and_next (duplicateNotification env n) (\<lambda>duplicate.
    if duplicate then give () else and_next (CreateNotification pg env n) body))"
proof -
  have frame_dup: "framed notifications_ok (rows_kept X) (duplicateNotification env n)" for X
    unfolding duplicateNotification_def DuplicateExists_def Let_def by (simp add: rows.frames)
  have "notifications_ok (snd (and_next (CreateNotification pg env n) body t)) \<and>
      rows_kept {} t (snd (and_next (CreateNotification pg env n) body t))"
    if ok: "notifications_ok t" and d: "duplicateNotification env n s = (Inr False, t)" for s t
  proof -
    obtain r t1 where c: "CreateNotification pg env n t = (r, t1)" by fastforce
    show ?thesis
    proof (cases r)
      case (Inl err)
      then show ?thesis using c ok CreateNotification_Inl [of pg env n t err t1] by (simp add: and_next_def)
    next
      case (Inr created)
      obtain row where row: "notification_row_of pg n = Some row" "created = scanNotification row" "row_id row \<notin> ids t"
        "t1 = t\<lparr>nt_notifications := nt_notifications t @ [row], nt_statements := nt_statements t + 1\<rparr>"
        using CreateNotification_Inr [OF c [unfolded Inr]] by blast
      have i: "nf_ID created = row_id row" by (simp add: row(2) scanNotification_def)
      have t1: "notifications_ok t1"
        unfolding row(4) using ok row(3) not_duplicate_key [OF d row(1)] duplicateNotification_rows [OF d]
        by (intro notifications_ok_create) simp_all
      have f: "framed notifications_ok (rows_kept {nf_ID created}) (body created)"
        by (rule body) (simp add: i notification_row_of_Some [OF row(1)])
      have "rows_kept {nf_ID created} t t1" unfolding row(4) by (rule rows_kept_create)
      then have "rows_kept {nf_ID created} t (snd (body created t1))"
        using framedD [OF f t1] rows_kept_trans by blast
      then have "rows_kept {} t (snd (body created t1))"
        by (rule rows_kept_mono) (simp add: i row(3))
      then show ?thesis using framedD [OF f t1] c Inr by (simp add: and_next_def)
    qed
  qed
  then show ?thesis
    using frame_dup [of "{}"] unfolding framed_def and_next_def [of "duplicateNotification env n"]
    by (auto simp: give_def split: prod.splits sum.splits) (metis rows_kept_trans snd_conv)+
qed

lemma frame_sendInApp: "framed notifications_ok (rows_kept {}) (sendInApp pg env n)"
  unfolding sendInApp_def Let_def by (intro frame_send rows.frame_next rows.frame_publish)

lemma frame_sendEmail: "framed notifications_ok (rows_kept {}) (sendEmail pg env n)"
  unfolding sendEmail_def Let_def by (intro frame_send rows.frame_next rows.frame_publish frame_recordAttempt)

lemma frame_sendWebhook:
  assumes "printed_uuids pg" shows "framed notifications_ok (rows_kept {}) (sendWebhook pg cfg env n url)"
  unfolding sendWebhook_def Let_def
  using assms by (intro frame_send rows.frame_next rows.frame_publish frame_post_attempts) (auto simp: printed_uuids_def)

subsection \<open>Preferences\<close>

lemma ok_preferences:
  assumes "notifications_ok s" "distinct (map pf_UserID ps)"
  shows "notifications_ok (s\<lparr>nt_preferences := ps\<rparr>) \<and> rows_kept X s (s\<lparr>nt_preferences := ps\<rparr>)"
  using assms rows_kept_refl [of X s]
  by (simp add: notifications_ok_def numbered_def attempts_of_def ids_def rows_kept_def)

lemma frame_LoadPreferences: "framed notifications_ok (rows_kept X) (LoadPreferences pg env tenantID u)"
  unfolding LoadPreferences_def
proof (rule rows.frame_statement)
  fix s x t
  assume ok: "notifications_ok s" and q: "(case pg u of None \<Rightarrow> Inl (NotificationDatabase ''uuid'')
     | Some u \<Rightarrow> (case find_by pf_UserID u (nt_preferences s) of Some prefs \<Rightarrow> Inr (prefs, s)
          | None \<Rightarrow> if \<not> pg_text 100 (notifyTenant tenantID) then Inl (NotificationDatabase ''notification_preferences'')
              else let prefs = default_preferences (ny_now env) (notifyTenant tenantID) u
                   in Inr (prefs, s\<lparr>nt_preferences := nt_preferences s @ [prefs]\<rparr>))) = Inr (x, t)"
  have "distinct (map pf_UserID (nt_preferences s))" using ok by (simp add: notifications_ok_def)
  then show "notifications_ok t \<and> rows_kept X s t"
    using ok q rows_kept_refl [of X s]
    by (auto simp: Let_def find_by_None_iff default_preferences_def intro!: ok_preferences [THEN conjunct1] ok_preferences [THEN conjunct2]
        split: option.splits if_splits)
qed

lemma frame_StorePreferences: "framed notifications_ok (rows_kept X) (StorePreferences pg env prefs)"
  unfolding StorePreferences_def
proof (rule rows.frame_statement)
  fix s x t
  assume ok: "notifications_ok s" and q: "(case pg (pf_UserID prefs) of
       None \<Rightarrow> Inl (NotificationDatabase ''uuid'')
     | Some u \<Rightarrow>
         if \<not> (pg_text 100 (notifyTenant (pf_TenantID prefs)) \<and> pg_text 30 (pf_MinPriority prefs) \<and>
                opt_all (\<lambda>t. CHR 0x00 \<notin> set t) (pf_WebhookURL prefs) \<and> opt_all (\<lambda>t. CHR 0x00 \<notin> set t) (pf_EmailAddress prefs))
         then Inl (NotificationDatabase ''notification_preferences'')
         else case find_by pf_UserID u (nt_preferences s) of
           Some old \<Rightarrow> Inr (changed_preferences (ny_now env) prefs old,
             s\<lparr>nt_preferences := upd_where (\<lambda>r. pf_UserID r = u) (changed_preferences (ny_now env) prefs) (nt_preferences s)\<rparr>)
         | None \<Rightarrow>
             let row = prefs\<lparr>pf_UserID := u, pf_TenantID := notifyTenant (pf_TenantID prefs), pf_CreatedAt := ny_now env,
                   pf_UpdatedAt := ny_now env\<rparr>
             in Inr (row, s\<lparr>nt_preferences := nt_preferences s @ [row]\<rparr>)) = Inr (x, t)"
  have d: "distinct (map pf_UserID (nt_preferences s))" using ok by (simp add: notifications_ok_def)
  have "map pf_UserID (upd_where P (changed_preferences (ny_now env) prefs) (nt_preferences s)) = map pf_UserID (nt_preferences s)" for P
    by (rule map_upd_where) (simp add: changed_preferences_def)
  then show "notifications_ok t \<and> rows_kept X s t"
    using ok q d
    by (auto simp: Let_def find_by_None_iff intro!: ok_preferences [THEN conjunct1] ok_preferences [THEN conjunct2]
        split: option.splits if_splits)
qed

subsection \<open>The calls of the service\<close>

lemma frame_createFromAlert:
  assumes "printed_uuids pg" shows "framed notifications_ok (rows_kept {}) (createFromAlert pg cfg env alert)"
  unfolding createFromAlert_def notificationFromAlert_def Let_def
  by (auto simp: rows.frame_give split: option.splits
      intro!: rows.frame_next rows.frame_uuid frame_LoadPreferences frame_sendInApp frame_sendEmail frame_sendWebhook assms)

lemma frame_ProcessEvent:
  assumes "printed_uuids pg" shows "framed notifications_ok (rows_kept {}) (NotificationProcessEvent pg cfg env event)"
  using frame_createFromAlert [OF assms, of cfg env] rows_kept_refl [of "{}"]
  by (simp add: framed_def NotificationProcessEvent_def Let_def split: sum.splits)

lemma frame_Get: "framed notifications_ok (rows_kept X) (ServiceGetNotification pg env user i)"
  unfolding ServiceGetNotification_def by (auto intro!: rows.frame_next rows.frames)

lemma frame_MarkRead: "framed notifications_ok (rows_kept X) (ServiceMarkRead pg env user i)"
  unfolding ServiceMarkRead_def MarkNotificationRead_def
  by (auto intro!: rows.frame_next rows.frames frame_Get frame_updateStatus)

lemma frame_ServiceRetry:
  assumes "printed_uuids pg" shows "framed notifications_ok (rows_kept X) (ServiceRetry pg env user i)"
  unfolding ServiceRetry_def by (auto intro!: rows.frame_next rows.frames frame_retry assms)

datatype notification_call =
    ConsumeAlert SourceEvent | ListThem notification_user NotificationFilters | GetOne notification_user string
  | MarkOneRead notification_user string | RetryOne notification_user string | SummariseThem notification_user
  | ReadPreferences notification_user | ChangePreferences notification_user NotificationPreferences

fun run_call :: "pg_uuid \<Rightarrow> notification_config \<Rightarrow> notification_env \<times> notification_call \<Rightarrow> notification_state \<Rightarrow> notification_state" where
  "run_call pg cfg (env, ConsumeAlert event) s = snd (NotificationProcessEvent pg cfg env event s)"
| "run_call pg cfg (env, ListThem user f) s = snd (ServiceListNotifications env user f s)"
| "run_call pg cfg (env, GetOne user i) s = snd (ServiceGetNotification pg env user i s)"
| "run_call pg cfg (env, MarkOneRead user i) s = snd (ServiceMarkRead pg env user i s)"
| "run_call pg cfg (env, RetryOne user i) s = snd (ServiceRetry pg env user i s)"
| "run_call pg cfg (env, SummariseThem user) s = snd (ServiceNotificationSummary pg env user s)"
| "run_call pg cfg (env, ReadPreferences user) s = snd (ServicePreferences pg env user s)"
| "run_call pg cfg (env, ChangePreferences user prefs) s = snd (ServiceUpdatePreferences pg env user prefs s)"

definition notification_run :: "pg_uuid \<Rightarrow> notification_config \<Rightarrow> (notification_env \<times> notification_call) list
    \<Rightarrow> notification_state \<Rightarrow> notification_state" where
  "notification_run pg cfg calls s = fold (run_call pg cfg) calls s"

lemma call_kept:
  assumes "printed_uuids pg" "notifications_ok s"
  shows "notifications_ok (run_call pg cfg call s) \<and> rows_kept {} s (run_call pg cfg call s)"
proof -
  obtain env c where call: "call = (env, c)" by fastforce
  have "framed notifications_ok (rows_kept {}) (ServiceListNotifications env user f)" for user f
    unfolding ServiceListNotifications_def ListNotifications_def by (simp add: rows.frames)
  moreover have "framed notifications_ok (rows_kept {}) (ServiceNotificationSummary pg env user)" for user
    unfolding ServiceNotificationSummary_def NotificationSummaryOf_def Let_def by (auto intro!: rows.frame_next rows.frames)
  moreover have "framed notifications_ok (rows_kept {}) (ServicePreferences pg env user)" for user
    unfolding ServicePreferences_def by (simp add: rows.frames frame_LoadPreferences)
  moreover have "framed notifications_ok (rows_kept {}) (ServiceUpdatePreferences pg env user prefs)" for user prefs
    unfolding ServiceUpdatePreferences_def Let_def by (simp add: rows.frames frame_StorePreferences)
  ultimately show ?thesis
    using assms(2) frame_ProcessEvent [OF assms(1)] frame_Get frame_MarkRead frame_ServiceRetry [OF assms(1)]
    unfolding call framed_def by (cases c) simp_all
qed

lemma run_kept:
  assumes "printed_uuids pg" "notifications_ok s"
  shows "notifications_ok (notification_run pg cfg calls s) \<and> rows_kept {} s (notification_run pg cfg calls s)"
  using assms(2)
proof (induction calls arbitrary: s)
  case Nil
  then show ?case by (simp add: notification_run_def rows_kept_refl)
next
  case (Cons c calls)
  then show ?case
    using call_kept [OF assms(1), of s cfg c] Cons.IH [of "run_call pg cfg c s"] rows_kept_trans
    unfolding notification_run_def by simp blast
qed

text \<open>Where a stored row is after a run.\<close>

lemma filter_key: "distinct (map f xs) \<Longrightarrow> x \<in> set xs \<Longrightarrow> filter (\<lambda>q. f q = f x) xs = [x]"
  by (induction xs) (auto simp: image_iff filter_empty_conv)

lemma rows_kept_row:
  assumes "rows_kept X s t" "notifications_ok t" "r \<in> set (nt_notifications s)"
  shows "\<exists>r'. row_kept X r r' \<and> filter (\<lambda>q. row_id q = row_id r) (nt_notifications t) = [r']"
proof -
  obtain old new where o: "nt_notifications t = old @ new" "list_all2 (row_kept X) (nt_notifications s) old"
    using assms(1) unfolding rows_kept_def by blast
  obtain k where k: "k < length (nt_notifications s)" "nt_notifications s ! k = r" using assms(3) by (metis in_set_conv_nth)
  then have r': "row_kept X r (old ! k)" "old ! k \<in> set (nt_notifications t)"
    using o by (auto simp: list_all2_conv_all_nth)
  have "filter (\<lambda>q. row_id q = row_id (old ! k)) (nt_notifications t) = [old ! k]"
    using assms(2) r'(2) unfolding notifications_ok_def by (intro filter_key) simp_all
  then show ?thesis using r'(1) row_kept_fields(2) [OF r'(1)] by (intro exI [of _ "old ! k"]) simp
qed



subsection \<open>Who reads and moves a notification\<close>

definition may_see :: "notification_user \<Rightarrow> Notification \<Rightarrow> bool" where
  "may_see user n \<longleftrightarrow> nf_TenantID n = notifyTenant (un_TenantID user) \<and>
     (canViewAll (un_Roles user) \<or> nf_UserID n = Some (un_UserID user))"

lemma query_Inr:
  assumes "query env q s = (Inr x, t)"
  shows "t = s\<lparr>nt_statements := nt_statements s + 1\<rparr> \<and> q t = Inr x"
  using assms by (auto simp: query_def statement_def and_then_Inr Let_def split: if_splits sum.splits)

lemma query_state: "snd (query env q s) = s\<lparr>nt_statements := nt_statements s + 1\<rparr>"
  by (auto simp: query_def statement_def and_then_def Let_def split: sum.splits)

lemma and_next_Inr:
  assumes "and_next m f s = (Inr y, t)" obtains x u where "m s = (Inr x, u)" "f x u = (Inr y, t)"
  using assms by (auto simp: and_next_def split: prod.splits sum.splits)

lemma GetNotification_Inr:
  assumes "GetNotification pg env tenantID i s = (Inr n, t)"
  obtains u r where "pg i = Some u" "List.find (own_notification tenantID u) (nt_notifications s) = Some r"
    "own_notification tenantID u r" "n = scanNotification r" "t = s\<lparr>nt_statements := nt_statements s + 1\<rparr>"
proof -
  have q: "t = s\<lparr>nt_statements := nt_statements s + 1\<rparr>" "(case pg i of
       None \<Rightarrow> Inl (NotificationDatabase ''uuid'')
     | Some u \<Rightarrow> (case List.find (own_notification tenantID u) (nt_notifications t) of
                   None \<Rightarrow> Inl NotificationNotFound | Some r \<Rightarrow> Inr (scanNotification r))) = Inr n"
    using query_Inr [OF assms [unfolded GetNotification_def]] by simp_all
  then obtain u r where "pg i = Some u" "List.find (own_notification tenantID u) (nt_notifications s) = Some r" "n = scanNotification r"
    by (auto split: option.splits)
  then show thesis using that q(1) by (metis find_Some_iff)
qed

lemma GetNotification_rows: "nt_notifications (snd (GetNotification pg env tenantID i s)) = nt_notifications s"
  by (simp add: GetNotification_def query_state)

lemma scan_own [simp]:
  "own_notification tenantID u r \<Longrightarrow> nf_TenantID (scanNotification r) = notifyTenant tenantID"
  "nf_UserID (scanNotification r) = nf_UserID (snd r)" "nf_ID (scanNotification r) = row_id r"
  by (simp_all add: own_notification_def scanNotification_def)

lemma own_tenant [simp]: "own_notification (notifyTenant tenantID) = own_notification tenantID"
  by (rule ext, rule ext) (simp add: own_notification_def)

lemma canAccess_see: "nf_TenantID n = notifyTenant (un_TenantID user) \<Longrightarrow> canAccess user n \<longleftrightarrow> may_see user n"
  by (auto simp: canAccess_def may_see_def)

lemma updateStatus_Inr:
  assumes "updateStatus pg env tenantID i st markRead s = (Inr n, t)"
  obtains u r where "pg i = Some u" "own_notification tenantID u r" "r \<in> set (nt_notifications s)"
    "List.find (\<lambda>r. own_notification tenantID u r \<and> (st = StatusRetrying \<longrightarrow> nf_Status (snd r) = StatusFailed)) (nt_notifications s) = Some r"
    "n = scanNotification (set_status st markRead (ny_now env) r)"
    "nt_notifications t = upd_where (\<lambda>r. own_notification tenantID u r \<and> (st = StatusRetrying \<longrightarrow> nf_Status (snd r) = StatusFailed))
      (set_status st markRead (ny_now env)) (nt_notifications s)"
    "nt_posts t = nt_posts s" "nt_attempts t = nt_attempts s"
proof -
  obtain found s1 where f: "update_returning pg env tenantID i (\<lambda>r. st = StatusRetrying \<longrightarrow> nf_Status (snd r) = StatusFailed)
      (set_status st markRead (ny_now env)) s = (Inr found, s1)"
    "(case found of Some n \<Rightarrow> give n | None \<Rightarrow> missing_or_guarded pg env tenantID i) s1 = (Inr n, t)"
    using assms unfolding updateStatus_def by (rule and_next_Inr)
  have "missing_or_guarded pg env tenantID i s1 \<noteq> (Inr n, t)"
    by (auto simp: missing_or_guarded_def split: prod.splits sum.splits notification_error.splits)
  then have n: "found = Some n" "t = s1" using f(2) by (auto simp: give_def split: option.splits)
  obtain u where u: "pg i = Some u"
    "map_option (\<lambda>r. scanNotification (set_status st markRead (ny_now env) r))
      (List.find (\<lambda>r. own_notification tenantID u r \<and> (st = StatusRetrying \<longrightarrow> nf_Status (snd r) = StatusFailed)) (nt_notifications s)) = Some n"
    "nt_notifications t = upd_where (\<lambda>r. own_notification tenantID u r \<and> (st = StatusRetrying \<longrightarrow> nf_Status (snd r) = StatusFailed))
      (set_status st markRead (ny_now env)) (nt_notifications s)" "nt_posts t = nt_posts s" "nt_attempts t = nt_attempts s"
    using f(1) n by (auto simp: update_returning_def statement_def Let_def split: option.splits if_splits)
  obtain r where r: "List.find (\<lambda>r. own_notification tenantID u r \<and> (st = StatusRetrying \<longrightarrow> nf_Status (snd r) = StatusFailed)) (nt_notifications s) = Some r"
    "n = scanNotification (set_status st markRead (ny_now env) r)"
    using u(2) by auto
  then have "r \<in> set (nt_notifications s) \<and> own_notification tenantID u r \<and> (st = StatusRetrying \<longrightarrow> nf_Status (snd r) = StatusFailed)"
    by (auto simp: find_Some_iff)
  then show thesis using that u(1,3-5) r by blast
qed

lemma publish_state [simp]:
  "nt_notifications (snd (publishNotification env eventType n s)) = nt_notifications s"
  "nt_posts (snd (publishNotification env eventType n s)) = nt_posts s"
  "nt_attempts (snd (publishNotification env eventType n s)) = nt_attempts s"
  "fst (publishNotification env eventType n s) = Inr ()"
  by (simp_all add: publishNotification_def and_next_def new_uuid_def)

lemma listed_seen:
  assumes "un_UserID user \<noteq> ''''" "ServiceListNotifications env user f s = (Inr ns, t)"
  shows "list_all (may_see user) ns"
proof -
  let ?f = "f\<lparr>nl_UserID := (if \<not> canViewAll (un_Roles user) \<or> nl_UserID f = '''' then un_UserID user else nl_UserID f),
           nl_TenantID := notifyTenant (un_TenantID user)\<rparr>"
  have "notifyTenant v \<noteq> ''''" for v by (auto simp: notifyTenant_def)
  then have "may_see user (scanNotification r)" if "buildFilters ?f r" for r
    using that assms(1)
    by (cases "canViewAll (un_Roles user)") (simp_all add: buildFilters_def given_equals_def may_see_def scanNotification_def)
  moreover have l: "ListNotifications env ?f s = (Inr ns, t)"
    using assms(2) by (auto simp: ServiceListNotifications_def fail_with_def split: if_splits)
  have "ns = map scanNotification (limit_rows (nl_Limit ?f) (drop (nat (nl_Offset ?f))
       (sort_key (\<lambda>r. - nf_CreatedAt (snd r)) (filter (buildFilters ?f) (nt_notifications t)))))"
    using query_Inr [OF l [unfolded ListNotifications_def]] by (auto split: if_splits)
  moreover have "set (limit_rows k (drop j (sort_key key (filter P rs)))) \<subseteq> {r. P r}"
    for k j and key :: "notification_row \<Rightarrow> int" and P rs
    using set_limit_rows [of k "drop j (sort_key key (filter P rs))"] set_drop_subset [of j "sort_key key (filter P rs)"] by auto
  ultimately show ?thesis by (fastforce simp: list_all_iff)
qed

lemma ServiceGet_Inr:
  assumes "ServiceGetNotification pg env user i s = (Inr n, t)"
  shows "may_see user n \<and> t = s\<lparr>nt_statements := nt_statements s + 1\<rparr> \<and> (\<exists>u r. pg i = Some u \<and>
    List.find (own_notification (un_TenantID user) u) (nt_notifications s) = Some r \<and> n = scanNotification r)"
proof -
  obtain x u where g: "GetNotification pg env (notifyTenant (un_TenantID user)) i s = (Inr x, u)"
    "(if canAccess user x then give x else fail_with NotificationForbidden) u = (Inr n, t)"
    using assms unfolding ServiceGetNotification_def by (auto simp: fail_with_def split: if_splits elim!: and_next_Inr)
  then have "canAccess user n" "n = x" "t = u" by (auto simp: give_def fail_with_def split: if_splits)
  moreover have "nf_TenantID x = notifyTenant (un_TenantID user)" using g(1) by (auto elim!: GetNotification_Inr)
  moreover obtain u' r where "pg i = Some u'" "List.find (own_notification (notifyTenant (un_TenantID user)) u') (nt_notifications s) = Some r"
    "x = scanNotification r" "u = s\<lparr>nt_statements := nt_statements s + 1\<rparr>" by (rule GetNotification_Inr [OF g(1)])
  ultimately show ?thesis using canAccess_see by (simp del: split_paired_Ex)
qed

lemma ServiceGet_rows: "nt_notifications (snd (ServiceGetNotification pg env user i s)) = nt_notifications s"
  using GetNotification_rows [of pg env "notifyTenant (un_TenantID user)" i s]
  by (auto simp: ServiceGetNotification_def and_next_def fail_with_def give_def split: prod.splits sum.splits)

lemma missing_rows: "missing_or_guarded pg env tenantID i s = (r, t) \<Longrightarrow> nt_notifications t = nt_notifications s"
  by (metis missing_state GetNotification_rows snd_conv)

lemma publish_outcome:
  assumes "publishNotification env eventType n s = (r, t)"
  shows "r = Inr () \<and> nt_notifications t = nt_notifications s \<and> nt_posts t = nt_posts s \<and> nt_attempts t = nt_attempts s"
  using assms publish_state [of env eventType n s] by simp

lemma updateStatus_Inl:
  assumes "updateStatus pg env tenantID i st markRead s = (Inl err, t)"
  shows "nt_notifications t = nt_notifications s"
proof -
  have "upd_where P f rs = rs" if "List.find P rs = None" for P f and rs :: "notification_row list"
    using that by (auto simp: find_None_iff intro!: upd_where_id)
  then show ?thesis
    using assms
    by (auto simp: updateStatus_def update_returning_def statement_def and_next_def give_def Let_def
        split: prod.splits sum.splits option.splits if_splits dest!: missing_rows)
qed

lemma MarkRead_outcome:
  assumes "ServiceMarkRead pg env user i s = (Inr n, t)"
  shows "may_see user n \<and> nf_Status n = StatusRead \<and> nf_ReadAt n = Some (ny_now env) \<and>
    nt_notifications t = upd_where (own_notification (un_TenantID user) (nf_ID n))
      (set_status StatusRead True (ny_now env)) (nt_notifications s)"
proof -
  obtain x s1 where g: "ServiceGetNotification pg env user i s = (Inr x, s1)"
    "and_next (MarkNotificationRead pg env (notifyTenant (un_TenantID user)) i) (\<lambda>n.
     and_next (publishNotification env ''notification.read'' n) (\<lambda>_. give n)) s1 = (Inr n, t)"
    using assms unfolding ServiceMarkRead_def by (rule and_next_Inr)
  obtain m s2 where m: "updateStatus pg env (notifyTenant (un_TenantID user)) i StatusRead True s1 = (Inr m, s2)"
    "and_next (publishNotification env ''notification.read'' m) (\<lambda>_. give m) s2 = (Inr n, t)"
    using g(2) unfolding MarkNotificationRead_def by (rule and_next_Inr)
  have n: "n = m" "nt_notifications t = nt_notifications s2"
    using m(2) by (auto simp: and_next_def give_def split: prod.splits sum.splits dest!: publish_outcome)
  obtain u r where r: "pg i = Some u" "List.find (own_notification (un_TenantID user) u) (nt_notifications s) = Some r"
    "x = scanNotification r" "nt_notifications s1 = nt_notifications s" "may_see user x"
    using ServiceGet_Inr [OF g(1)] by auto
  obtain u' r' where u': "pg i = Some u'" "own_notification (notifyTenant (un_TenantID user)) u' r'"
    "List.find (\<lambda>r. own_notification (notifyTenant (un_TenantID user)) u' r \<and>
      (StatusRead = StatusRetrying \<longrightarrow> nf_Status (snd r) = StatusFailed)) (nt_notifications s1) = Some r'"
    "m = scanNotification (set_status StatusRead True (ny_now env) r')"
    "nt_notifications s2 = upd_where (\<lambda>r. own_notification (notifyTenant (un_TenantID user)) u' r \<and>
      (StatusRead = StatusRetrying \<longrightarrow> nf_Status (snd r) = StatusFailed)) (set_status StatusRead True (ny_now env)) (nt_notifications s1)"
    by (rule updateStatus_Inr [OF m(1)])
  have same: "r' = r" "u' = u" using u'(1,3) r(1,2,4) by simp_all
  then have "row_id r = u" using u'(2) by (simp add: own_notification_def)
  then have u: "m = scanNotification (set_status StatusRead True (ny_now env) r)" "row_id r = u"
    "nt_notifications s2 = upd_where (own_notification (un_TenantID user) u) (set_status StatusRead True (ny_now env)) (nt_notifications s)"
    using same u'(4,5) r(4) by simp_all
  have "may_see user m" using r(3,5) unfolding u(1) may_see_def set_status_def scanNotification_def notification_tenant_def by simp
  then show ?thesis using u n by (simp add: scanNotification_def set_status_def)
qed

lemma MarkRead_fails:
  assumes "ServiceMarkRead pg env user i s = (Inl err, t)" shows "nt_notifications t = nt_notifications s"
  using assms ServiceGet_rows [of pg env user i s]
  by (auto simp: ServiceMarkRead_def MarkNotificationRead_def and_next_def give_def split: prod.splits sum.splits dest!: updateStatus_Inl publish_outcome)

text \<open>C26: A user is shown, and can mark as read, the notifications of his tenant that are addressed to him; a
  manager those of all users of the tenant. Marking sets the status and the time of reading, whatever the
  status was, and a failing call changes no notification.\<close>

theorem notifications_shown:
  assumes "un_UserID user \<noteq> ''''"
  shows "(\<forall>ns t. ServiceListNotifications env user f s = (Inr ns, t) \<longrightarrow> list_all (may_see user) ns) \<and>
    (\<forall>n t. ServiceGetNotification pg env user i s = (Inr n, t) \<longrightarrow> may_see user n) \<and>
    (case ServiceMarkRead pg env user i s of
       (Inl err, t) \<Rightarrow> nt_notifications t = nt_notifications s
     | (Inr n, t) \<Rightarrow> may_see user n \<and> nf_Status n = StatusRead \<and> nf_ReadAt n = Some (ny_now env) \<and>
         nt_notifications t = upd_where (own_notification (un_TenantID user) (nf_ID n))
           (set_status StatusRead True (ny_now env)) (nt_notifications s))"
  using listed_seen [OF assms] ServiceGet_Inr MarkRead_outcome MarkRead_fails by (simp split: prod.splits sum.splits)


subsection \<open>How a webhook delivery ends\<close>

text \<open>The answers to the first \<open>n\<close> posts of a delivery: the last one alone may have been accepted.\<close>

definition last_accepted :: "notification_env \<Rightarrow> nat \<Rightarrow> nat \<Rightarrow> bool" where
  "last_accepted env first n \<longleftrightarrow> 0 < n \<and> accepted_code (ny_post env (first + n - 1))"

lemma recordAttempt_outcome:
  assumes "recordAttempt pg env i ch st err s = (r, t)"
  shows "nt_notifications t = nt_notifications s \<and> nt_posts t = nt_posts s \<and>
    (r = Inr () \<longrightarrow> (\<exists>a. nt_attempts t = nt_attempts s @ [a] \<and> pg i = Some (da_NotificationID a) \<and> da_Status a = st))"
proof -
  have "nt_notifications t = nt_notifications s \<and> nt_posts t = nt_posts s \<and>
      (\<forall>x. r = Inr x \<longrightarrow> nt_attempts t = nt_attempts s @ [x] \<and> pg (da_NotificationID a) = Some (da_NotificationID x) \<and> da_Status x = da_Status a)"
    if "RecordAttempt pg env a s = (r, t)" for a s r t
    using that insert_attempt_Inr [of pg a _ _ t]
    by (auto simp: RecordAttempt_def statement_def Let_def split: if_splits sum.splits dest!: insert_attempt_Inr)
  note recorded = this
  have nxt: "nt_notifications t = nt_notifications s \<and> nt_posts t = nt_posts s \<and> nt_attempts t = nt_attempts s"
    if "NextAttemptNumber pg env i s = (r, t)" for s r t
    using that query_state [of env _ s] unfolding NextAttemptNumber_def by (metis (no_types, lifting) snd_conv notification_state.select_convs notification_state.update_convs(8) notification_state.surjective)
  show ?thesis
    using assms
    by (auto simp: recordAttempt_def and_next_def new_uuid_def give_def split: prod.splits sum.splits dest!: nxt recorded)
qed

lemma updateStatus_posts:
  assumes "updateStatus pg env tenantID i st markRead s = (r, t)"
  shows "nt_posts t = nt_posts s \<and> nt_attempts t = nt_attempts s"
proof -
  have missing: "nt_posts t = nt_posts s \<and> nt_attempts t = nt_attempts s"
    if "missing_or_guarded pg env tenantID i s = (r, t)" for s t and r :: "notification_error + Notification"
  proof -
    have "t = snd (GetNotification pg env tenantID i s)" using that missing_state by (metis snd_conv)
    then show ?thesis by (simp add: GetNotification_def query_state)
  qed
  show ?thesis
    using assms
    by (auto simp: updateStatus_def update_returning_def statement_def and_next_def give_def Let_def
        split: prod.splits sum.splits option.splits if_splits dest!: missing)
qed

text \<open>What a delivery of \<open>created\<close> that posted \<open>n\<close> times leaves when no statement failed: the row SENT or
  FAILED, and an attempt per post.\<close>

definition delivery_ended :: "notification_env \<Rightarrow> Notification \<Rightarrow> nat \<Rightarrow> nat \<Rightarrow> notification_state \<Rightarrow> notification_state \<Rightarrow> bool" where
  "delivery_ended env created first n s t \<longleftrightarrow>
     (\<exists>row\<in>set (nt_notifications t). row_id row = nf_ID created \<and>
        nf_Status (snd row) = (if last_accepted env first n then StatusSent else StatusFailed)) \<and>
     (\<exists>made. nt_attempts t = nt_attempts s @ made \<and> map da_NotificationID made = replicate n (nf_ID created) \<and>
        map da_Status made =
          map (\<lambda>j. if accepted_code (ny_post env (first + j)) then StatusSent else StatusFailed) [0..<n])"

lemma updated_row:
  assumes "updateStatus pg env tenantID i st False s = (Inr n, t)" "pg i = Some i" "st \<noteq> StatusRetrying"
  shows "\<exists>row\<in>set (nt_notifications t). row_id row = i \<and> nf_Status (snd row) = st"
proof -
  obtain u r where u: "pg i = Some u" "own_notification tenantID u r" "r \<in> set (nt_notifications s)"
    "nt_notifications t = upd_where (\<lambda>r. own_notification tenantID u r \<and> (st = StatusRetrying \<longrightarrow> nf_Status (snd r) = StatusFailed))
      (set_status st False (ny_now env)) (nt_notifications s)"
    by (rule updateStatus_Inr [OF assms(1)])
  have "set_status st False (ny_now env) r \<in> set (nt_notifications t)"
    unfolding u(4) upd_where_def using u(2,3) assms(3) by (auto intro!: rev_image_eqI)
  then show ?thesis using u(1,2) assms(2)
    by (intro bexI [of _ "set_status st False (ny_now env) r"]) (auto simp: set_status_def own_notification_def)
qed

text \<open>The last step of a delivery, and the step that records an attempt.\<close>

lemma settled:
  assumes "and_next (UpdateNotificationStatus pg env tenantID i st) (publishNotification env eventType) s = (r, t)"
    "pg i = Some i" "st \<noteq> StatusRetrying"
  shows "nt_posts t = nt_posts s \<and> nt_attempts t = nt_attempts s \<and>
    (r = Inr () \<longrightarrow> (\<exists>row\<in>set (nt_notifications t). row_id row = i \<and> nf_Status (snd row) = st))"
proof -
  obtain x s1 where u: "updateStatus pg env tenantID i st False s = (x, s1)" by fastforce
  show ?thesis
  proof (cases x)
    case (Inl err)
    then show ?thesis using assms(1) u updateStatus_posts [OF u] by (auto simp: UpdateNotificationStatus_def and_next_def)
  next
    case (Inr n)
    have "publishNotification env eventType n s1 = (r, t)"
      using assms(1) u Inr by (simp add: UpdateNotificationStatus_def and_next_def)
    then show ?thesis
      using publish_outcome updated_row [OF u [unfolded Inr] assms(2,3)] updateStatus_posts [OF u] by simp
  qed
qed

lemma recorded_then:
  assumes "and_next (recordAttempt pg env i ch st err) (\<lambda>_. m) s = (r, t)" "pg i = Some i"
  obtains e where "r = Inl e" "nt_posts t = nt_posts s"
    | s1 a where "m s1 = (r, t)" "nt_posts s1 = nt_posts s" "nt_attempts s1 = nt_attempts s @ [a]"
      "da_NotificationID a = i" "da_Status a = st"
proof -
  obtain y s1 where a: "recordAttempt pg env i ch st err s = (y, s1)" by fastforce
  note a' = recordAttempt_outcome [OF a]
  show thesis
  proof (cases y)
    case (Inl e)
    then show thesis using assms(1) a a' that(1) by (auto simp: and_next_def)
  next
    case (Inr x)
    then have "m s1 = (r, t)" using assms(1) a by (simp add: and_next_def)
    then show thesis using a' Inr assms(2) that(2) by auto
  qed
qed

text \<open>A post comes before those that are left.\<close>

lemma delivery_ended_Suc:
  assumes "delivery_ended env created (Suc first) n s1 t" "nt_attempts s1 = nt_attempts s @ [a]"
    "da_NotificationID a = nf_ID created" "da_Status a = StatusFailed" "\<not> accepted_code (ny_post env first)"
  shows "delivery_ended env created first (Suc n) s t"
proof -
  obtain made where made: "nt_attempts t = nt_attempts s1 @ made" "map da_NotificationID made = replicate n (nf_ID created)"
    "map da_Status made = map (\<lambda>j. if accepted_code (ny_post env (Suc first + j)) then StatusSent else StatusFailed) [0..<n]"
    using assms(1) unfolding delivery_ended_def by blast
  have shift: "map f [0..<Suc n] = f 0 # map (\<lambda>j. f (Suc j)) [0..<n]" for f :: "nat \<Rightarrow> notification_status"
    by (rule map_upt_Suc)
  have "last_accepted env first (Suc n) = last_accepted env (Suc first) n"
    using assms(5) by (cases n) (simp_all add: last_accepted_def)
  then show ?thesis
    using assms made unfolding delivery_ended_def shift by (auto intro!: exI [of _ "a # made"])
qed

lemma post_attempts_outcome:
  assumes "post_attempts pg env url c k s = (r, t)" "pg (nf_ID c) = Some (nf_ID c)"
  shows "\<exists>n\<le>k. nt_posts t = nt_posts s @ replicate n (url, c) \<and>
    (\<forall>j. Suc j < n \<longrightarrow> \<not> accepted_code (ny_post env (length (nt_posts s) + j))) \<and>
    (r = Inr () \<longrightarrow> delivery_ended env c (length (nt_posts s)) n s t \<and> (last_accepted env (length (nt_posts s)) n \<or> n = k))"
  using assms(1)
proof (induction k arbitrary: s)
  case 0
  show ?case
    using settled [OF 0 [unfolded post_attempts.simps] assms(2)] by (simp add: delivery_ended_def last_accepted_def)
next
  case (Suc k)
  let ?first = "length (nt_posts s)" and ?s1 = "s\<lparr>nt_posts := nt_posts s @ [(url, c)]\<rparr>"
  consider "\<not> ny_url env url" | "ny_url env url" "accepted_code (ny_post env ?first)" | "ny_url env url" "\<not> accepted_code (ny_post env ?first)"
    by blast
  then show ?case
  proof cases
    case 1
    then show ?thesis using Suc.prems by (intro exI [of _ 0]) (auto simp: fail_with_def)
  next
    case 2
    then have "and_next (recordAttempt pg env (nf_ID c) ChannelWebhook StatusSent None) (\<lambda>_.
        and_next (UpdateNotificationStatus pg env (notifyTenant (nf_TenantID c)) (nf_ID c) StatusSent)
          (publishNotification env ''notification.sent'')) ?s1 = (r, t)"
      using Suc.prems by (simp add: and_next_def [of "post_webhook env url c"] post_webhook_def)
    from this assms(2) have "nt_posts t = nt_posts s @ [(url, c)] \<and> (r = Inr () \<longrightarrow> delivery_ended env c ?first 1 s t)"
    proof (rule recorded_then)
      fix s2 a
      assume s2: "and_next (UpdateNotificationStatus pg env (notifyTenant (nf_TenantID c)) (nf_ID c) StatusSent)
          (publishNotification env ''notification.sent'') s2 = (r, t)" "nt_posts s2 = nt_posts ?s1"
        "nt_attempts s2 = nt_attempts ?s1 @ [a]" "da_NotificationID a = nf_ID c" "da_Status a = StatusSent"
      show ?thesis using settled [OF s2(1) assms(2)] s2(2-5) 2 by (auto simp: delivery_ended_def last_accepted_def)
    qed simp
    then show ?thesis using 2 by (intro exI [of _ "1::nat"]) (simp add: last_accepted_def)
  next
    case 3
    then have "and_next (recordAttempt pg env (nf_ID c) ChannelWebhook StatusFailed (Some (post_error (ny_post env ?first))))
        (\<lambda>_. post_attempts pg env url c k) ?s1 = (r, t)"
      using Suc.prems by (simp add: and_next_def [of "post_webhook env url c"] post_webhook_def)
    from this assms(2) show ?thesis
    proof (rule recorded_then)
      fix e assume "r = Inl e" "nt_posts t = nt_posts ?s1"
      then show ?thesis by (intro exI [of _ "1::nat"]) simp
    next
      fix s2 a
      assume s2: "post_attempts pg env url c k s2 = (r, t)" "nt_posts s2 = nt_posts ?s1"
        "nt_attempts s2 = nt_attempts ?s1 @ [a]" "da_NotificationID a = nf_ID c" "da_Status a = StatusFailed"
      obtain n where n: "n \<le> k" "nt_posts t = nt_posts s2 @ replicate n (url, c)"
        "\<forall>j. Suc j < n \<longrightarrow> \<not> accepted_code (ny_post env (Suc ?first + j))"
        "r = Inr () \<longrightarrow> delivery_ended env c (Suc ?first) n s2 t \<and> (last_accepted env (Suc ?first) n \<or> n = k)"
        using Suc.IH [OF s2(1)] s2(2) by auto
      have "\<not> accepted_code (ny_post env (?first + j))" if "Suc j < Suc n" for j
        using n(3) 3 that by (cases j) auto
      moreover have "last_accepted env ?first (Suc n)" if "last_accepted env (Suc ?first) n"
        using that by (simp add: last_accepted_def)
      moreover have "delivery_ended env c ?first (Suc n) s t" if "r = Inr ()"
        using delivery_ended_Suc [of env c ?first n s2 t s a] n(4) s2 3 that by simp
      ultimately show ?thesis using n s2(2) by (intro exI [of _ "Suc n"]) auto
    qed
  qed
qed

text \<open>C25: A webhook delivery posts the stored notification to the URL at most as often as configured and stops at the
  first accepted answer. When it returns without error, either the event had been delivered over this channel
  before and nothing was posted, or the notification is SENT exactly when the last post was accepted and FAILED
  when all the configured posts were refused, with one recorded attempt per post, in order, with its outcome.\<close>

theorem webhook_delivery:
  assumes "printed_uuids pg" "sendWebhook pg cfg env n url s = (r, t)"
  shows "(nt_posts t = nt_posts s \<and> nt_notifications t = nt_notifications s \<and>
      (r = Inr () \<longrightarrow> list_ex (delivers env (nf_TenantID n) (metadataString (nf_Metadata n) ''sourceEventId'')
        (metadataString (nf_Metadata n) ''eventType'') ChannelWebhook) (nt_notifications s))) \<or>
    (\<exists>created k. pg (nf_ID n) = Some (nf_ID created) \<and> k \<le> webhook_attempts cfg \<and>
      nt_posts t = nt_posts s @ replicate k (url, created) \<and>
      (\<forall>j. Suc j < k \<longrightarrow> \<not> accepted_code (ny_post env (length (nt_posts s) + j))) \<and>
      (r = Inr () \<longrightarrow> delivery_ended env created (length (nt_posts s)) k s t \<and>
        (last_accepted env (length (nt_posts s)) k \<or> k = webhook_attempts cfg)))"
proof -
  let ?n = "n\<lparr>nf_Channel := ChannelWebhook, nf_Status := StatusPending\<rparr>"
  obtain d s1 where d: "duplicateNotification env ?n s = (d, s1)" by fastforce
  have same: "nt_notifications s1 = nt_notifications s" "nt_posts s1 = nt_posts s" "nt_attempts s1 = nt_attempts s"
    using d by (auto simp: duplicateNotification_def DuplicateExists_def query_def statement_def give_def Let_def and_then_def split: if_splits sum.splits)
  consider err where "d = Inl err" | "d = Inr True" | "d = Inr False" by (cases d) auto
  then show ?thesis
  proof cases
    case 1
    then show ?thesis using assms(2) d same by (intro disjI1) (auto simp: sendWebhook_def and_next_def Let_def)
  next
    case 2
    then have "list_ex (delivers env (nf_TenantID n) (metadataString (nf_Metadata n) ''sourceEventId'')
        (metadataString (nf_Metadata n) ''eventType'') ChannelWebhook) (nt_notifications s)"
      using d by (auto simp: duplicateNotification_def DuplicateExists_def query_def statement_def give_def Let_def delivers_def list_ex_iff split: if_splits)
    then show ?thesis using assms(2) d same 2 by (intro disjI1) (auto simp: sendWebhook_def and_next_def give_def Let_def)
  next
    case 3
    obtain c s2 where c: "CreateNotification pg env ?n s1 = (c, s2)" by fastforce
    show ?thesis
    proof (cases c)
      case (Inl err)
      then show ?thesis using assms(2) d same 3 c CreateNotification_Inl [of pg env ?n s1 err s2]
        by (intro disjI1) (auto simp: sendWebhook_def and_next_def Let_def)
    next
      case (Inr created)
      obtain row where row: "notification_row_of pg ?n = Some row" "created = scanNotification row"
        "s2 = s1\<lparr>nt_notifications := nt_notifications s1 @ [row], nt_statements := nt_statements s1 + 1\<rparr>"
        using CreateNotification_Inr [OF c [unfolded Inr]] by blast
      have i: "pg (nf_ID n) = Some (nf_ID created)" using notification_row_of_Some [OF row(1)] row(2) by simp
      obtain s3 where s3: "publishNotification env ''notification.created'' created s2 = (Inr (), s3)"
        using publish_state(4) [of env "''notification.created''" created s2] by (metis prod.collapse)
      have p: "post_attempts pg env url created (webhook_attempts cfg) s3 = (r, t)"
        using assms(2) d 3 c Inr s3 by (simp add: sendWebhook_def and_next_def Let_def)
      have "nt_posts s3 = nt_posts s" "nt_attempts s3 = nt_attempts s" using publish_outcome [OF s3] row(3) same by simp_all
      then show ?thesis
        using post_attempts_outcome [OF p] i assms(1) unfolding printed_uuids_def delivery_ended_def by (intro disjI2 exI [of _ created]) auto
    qed
  qed
qed

subsection \<open>Preferences\<close>

text \<open>Preferences that a user stores are what is read for this user afterwards, by the service and by the events of
  every tenant: the table knows users only. The priority is stored in upper case and is one of the four levels,
  and the row keeps the tenant and the time of its creation.\<close>

theorem preferences_roundtrip:
  assumes "ServiceUpdatePreferences pg env user prefs s = (Inr p, t)" "\<not> ny_down env' (nt_statements t)"
  shows "LoadPreferences pg env' tenantID (un_UserID user) t = (Inr p, t\<lparr>nt_statements := nt_statements t + 1\<rparr>) \<and>
    pg (un_UserID user) = Some (pf_UserID p) \<and> validPriority (pf_MinPriority p) \<and>
    pf_InAppEnabled p = pf_InAppEnabled prefs \<and> pf_WebhookEnabled p = pf_WebhookEnabled prefs \<and>
    pf_EmailEnabled p = pf_EmailEnabled prefs \<and> pf_WebhookURL p = pf_WebhookURL prefs \<and>
    pf_EmailAddress p = pf_EmailAddress prefs \<and>
    (case find_by pf_UserID (pf_UserID p) (nt_preferences s) of
       None \<Rightarrow> pf_TenantID p = notifyTenant (un_TenantID user)
     | Some old \<Rightarrow> pf_TenantID p = pf_TenantID old \<and> pf_CreatedAt p = pf_CreatedAt old)"
proof -
  let ?trimmed = "to_upper (trim_space (pf_MinPriority prefs))"
  let ?prefs = "prefs\<lparr>pf_UserID := un_UserID user, pf_TenantID := notifyTenant (un_TenantID user),
              pf_MinPriority := (if ?trimmed = '''' then PriorityLow else ?trimmed)\<rparr>"
  have v: "validPriority (pf_MinPriority ?prefs)" and st: "StorePreferences pg env ?prefs s = (Inr p, t)"
    using assms(1) by (auto simp: ServiceUpdatePreferences_def fail_with_def Let_def split: if_splits)
  obtain u where u: "pg (un_UserID user) = Some u" "(case find_by pf_UserID u (nt_preferences s) of
           Some old \<Rightarrow> p = changed_preferences (ny_now env) ?prefs old \<and>
             nt_preferences t = upd_where (\<lambda>r. pf_UserID r = u) (changed_preferences (ny_now env) ?prefs) (nt_preferences s)
         | None \<Rightarrow> p = ?prefs\<lparr>pf_UserID := u, pf_CreatedAt := ny_now env, pf_UpdatedAt := ny_now env\<rparr> \<and>
             nt_preferences t = nt_preferences s @ [p])"
    using st by (auto simp: StorePreferences_def statement_def Let_def split: option.splits if_splits)
  have keyed: "pf_UserID (changed_preferences (ny_now env) ?prefs r) = pf_UserID r" for r by (simp add: changed_preferences_def)
  have "find_by pf_UserID u (nt_preferences t) = Some p"
    using u(2) by (auto simp: find_by_upd_where [where key = pf_UserID, OF keyed] find_by_append find_by_Cons dest: find_by_Some split: option.splits)
  then show ?thesis
    using u v assms(2) find_by_Some [of pf_UserID u "nt_preferences s"]
    by (auto simp: LoadPreferences_def statement_def changed_preferences_def Let_def split: option.splits)
qed

subsection \<open>Examples\<close>

text \<open>A user with a webhook whose endpoint refuses the first two posts; UUID texts are taken as they are.\<close>

definition demo_notify_env :: notification_env where
  "demo_notify_env = \<lparr>ny_now = 7, ny_down = (\<lambda>_. False), ny_post = (\<lambda>k. if k < 2 then Inr 500 else Inr 204),
     ny_url = (\<lambda>_. True), ny_text = (\<lambda>_. ''''), ny_publishes = True\<rparr>"

definition demo_notify_config :: "int \<Rightarrow> notification_config" where
  "demo_notify_config retries = \<lparr>nc_rfc3339 = (\<lambda>_. Some 5), nc_webhookMaxRetries = retries\<rparr>"

definition demo_preferences :: NotificationPreferences where
  "demo_preferences = \<lparr>pf_TenantID = ''acme'', pf_UserID = ''u1'', pf_InAppEnabled = True, pf_WebhookEnabled = True,
     pf_EmailEnabled = False, pf_WebhookURL = Some ''http://hook'', pf_EmailAddress = None, pf_MinPriority = ''LOW'',
     pf_CreatedAt = 1, pf_UpdatedAt = 1\<rparr>"

definition demo_notify_state :: notification_state where
  "demo_notify_state = \<lparr>nt_notifications = [], nt_attempts = [], nt_preferences = [demo_preferences], nt_events = [],
     nt_posts = [], nt_uuids = (\<lambda>k. replicate (Suc k) CHR ''i''), nt_drawn = 0, nt_statements = 0\<rparr>"

definition demo_alert_event :: SourceEvent where
  "demo_alert_event = \<lparr>se_Topic = ''surveillance.alert.created'', se_Key = '''',
     se_Value = Json (JObj [(''eventId'', JStr ''e1''), (''eventType'', JStr ''surveillance.alert.created''),
       (''alertId'', JStr ''a1''), (''tenantId'', JStr ''acme''), (''severity'', JStr ''high''), (''userId'', JStr ''u1'')]),
     se_CorrelationID = '''', se_TraceParent = ''''\<rparr>"

definition demo_notify_user :: "string list \<Rightarrow> notification_user" where
  "demo_notify_user roles = \<lparr>un_UserID = ''u1'', un_TenantID = ''acme'', un_Roles = roles\<rparr>"

definition demo_notification :: Notification where
  "demo_notification = \<lparr>nf_ID = ''n1'', nf_TenantID = ''acme'', nf_UserID = Some ''u1'', nf_Channel = ChannelWebhook,
     nf_Priority = ''HIGH'', nf_Status = StatusFailed, nf_Title = '''', nf_Message = '''', nf_Source = '''',
     nf_Metadata = [(''sourceEventId'', JStr ''e1''), (''eventType'', JStr ''surveillance.alert.created'')],
     nf_ReadAt = None, nf_CreatedAt = 2, nf_UpdatedAt = 2\<rparr>"

lemma printed_Some: "printed_uuids Some"
  by (simp add: printed_uuids_def)

lemma demo_state_ok: "notifications_ok demo_notify_state"
  by (simp add: notifications_ok_def demo_notify_state_def numbered_def attempts_of_def List.map_filter_def)

lemma demo_failed_ok: "notifications_ok (demo_notify_state\<lparr>nt_notifications := [(Some ''acme'', demo_notification)]\<rparr>)"
  by (simp add: notifications_ok_def demo_notify_state_def numbered_def attempts_of_def List.map_filter_def split: option.splits)

abbreviation demo_consume :: "notification_env \<times> notification_call" where
  "demo_consume \<equiv> (demo_notify_env, ConsumeAlert demo_alert_event)"

abbreviation demo_retry :: "notification_env \<times> notification_call" where
  "demo_retry \<equiv> (demo_notify_env, RetryOne (demo_notify_user [''risk_manager'']) ''n1'')"



lemma retried_not_sent:
  "map (\<lambda>r. (nf_Channel (snd r), nf_Status (snd r))) (nt_notifications (notification_run Some (demo_notify_config 3)
      [demo_retry, demo_consume] (demo_notify_state\<lparr>nt_notifications := [(Some ''acme'', demo_notification)]\<rparr>))) =
    [(ChannelWebhook, StatusRetrying), (ChannelInApp, StatusSent)]"
  by code_simp

abbreviation demo_filters :: NotificationFilters where
  "demo_filters \<equiv> \<lparr>nl_TenantID = '''', nl_UserID = ''u2'', nl_Status = '''', nl_Channel = '''', nl_Priority = '''', nl_Limit = 50, nl_Offset = 0\<rparr>"

lemma notifications_shown_witness:
  "list_all (may_see (demo_notify_user [''trader'']))
     (projr (fst (ServiceListNotifications demo_notify_env (demo_notify_user [''trader'']) demo_filters
       (demo_notify_state\<lparr>nt_notifications := [(Some ''acme'', demo_notification)]\<rparr>))))"
proof -
  let ?call = "ServiceListNotifications demo_notify_env (demo_notify_user [''trader'']) demo_filters
       (demo_notify_state\<lparr>nt_notifications := [(Some ''acme'', demo_notification)]\<rparr>)"
  have "un_UserID (demo_notify_user [''trader'']) \<noteq> ''''" by (simp add: demo_notify_user_def)
  moreover have "isl (fst ?call) = False" by code_simp
  then have "?call = (Inr (projr (fst ?call)), snd ?call)" by (cases "fst ?call") (auto simp: prod_eq_iff)
  ultimately show ?thesis using notifications_shown by blast
qed

text \<open>Two posts are configured and both are refused.\<close>

lemma webhook_delivery_witness:
  "\<exists>created k. k \<le> 2 \<and> nt_posts (snd (sendWebhook Some (demo_notify_config 2) demo_notify_env demo_notification ''http://hook'' demo_notify_state))
      = replicate k (''http://hook'', created)"
proof -
  have w: "webhook_attempts (demo_notify_config 2) = 2" "nt_posts demo_notify_state = []"
    by (simp_all add: webhook_attempts_def demo_notify_config_def demo_notify_state_def)
  show ?thesis
    using webhook_delivery [OF printed_Some, of "demo_notify_config 2" demo_notify_env demo_notification "''http://hook''" demo_notify_state
        "fst (sendWebhook Some (demo_notify_config 2) demo_notify_env demo_notification ''http://hook'' demo_notify_state)"
        "snd (sendWebhook Some (demo_notify_config 2) demo_notify_env demo_notification ''http://hook'' demo_notify_state)"]
    unfolding w by (auto intro: exI [of _ "0::nat"])
qed

lemma both_refused:
  "map (\<lambda>r. nf_Status (snd r)) (nt_notifications (snd (sendWebhook Some (demo_notify_config 2) demo_notify_env demo_notification
     ''http://hook'' demo_notify_state))) = [StatusFailed]"
  by code_simp

lemma preferences_roundtrip_witness:
  "fst (LoadPreferences Some demo_notify_env ''other'' ''u1''
     (snd (ServiceUpdatePreferences Some demo_notify_env (demo_notify_user []) demo_preferences demo_notify_state))) =
   fst (ServiceUpdatePreferences Some demo_notify_env (demo_notify_user []) demo_preferences demo_notify_state)"
proof -
  let ?call = "ServiceUpdatePreferences Some demo_notify_env (demo_notify_user []) demo_preferences demo_notify_state"
  have "isl (fst ?call) = False" by code_simp
  then have c: "?call = (Inr (projr (fst ?call)), snd ?call)" by (cases "fst ?call") (auto simp: prod_eq_iff)
  have "\<not> ny_down demo_notify_env k" for k by (simp add: demo_notify_env_def)
  note conjunct1 [OF preferences_roundtrip [OF c this, of "''other''"]]
  moreover have "un_UserID (demo_notify_user []) = ''u1''" by (simp add: demo_notify_user_def)
  ultimately show ?thesis using c by (metis fst_conv)
qed

text \<open>With both channels enabled the e-mail address goes to the webhook: the two notifications share their metadata.\<close>

lemma webhook_reveals_email:
  "map (\<lambda>p. (fst p, member_of (nf_Metadata (snd p)) ''emailAddress'')) (nt_posts (notification_run Some (demo_notify_config 1) [demo_consume]
     (demo_notify_state\<lparr>nt_preferences := [demo_preferences\<lparr>pf_EmailEnabled := True, pf_EmailAddress := Some ''u1@acme''\<rparr>]\<rparr>))) =
   [(''http://hook'', JStr ''u1@acme'')]"
  by code_simp

end
