(* ===== verification/MarketData.thy ===== *)
theory MarketData
  imports EventConsumer PgColumns StopTrigger
begin

text \<open>
  The market data service: \<open>internal/service/market_data_service.go\<close>, its table of ticks
  (\<open>internal/repository/tick_repository.go\<close>), the event it publishes (\<open>internal/kafka/producer.go\<close>) and the
  message handler of its MQTT subscriber (\<open>internal/mqtt/subscriber.go\<close>). The event feeds the market price
  consumer of the order service (theory \<open>StopTrigger\<close>): the last section composes the two. The text of
  a time is a parameter, as is its parsing; the database and the producer fail as the environment says.
\<close>

subsection \<open>Types\<close>

record incomingTick =
  it_Symbol :: string
  it_Price :: float64
  it_Volume :: float64
  it_Source :: string
  it_EventTime :: string

record Tick =
  tk_Symbol :: string
  tk_Price :: float64
  tk_Volume :: float64
  tk_Source :: string
  tk_EventTime :: time
  tk_ReceivedAt :: time
  tk_CorrelationID :: string

record NormalizedTickEvent =
  ne_EventID :: string
  ne_EventType :: string
  ne_EventVersion :: string
  ne_TenantID :: string
  ne_Symbol :: string
  ne_Price :: float64
  ne_Volume :: float64
  ne_Source :: string
  ne_EventTime :: time
  ne_ReceivedAt :: time
  ne_CorrelationID :: string

datatype tick_error = TickMalformed | SymbolRequired | PriceNotPositive | VolumeNegative | EventTimeRequired
  | EventTimeMalformed | TickNotStored | TickNotPublished

text \<open>The rows of \<open>market_ticks\<close> hold exact decimals in \<open>price\<close> and \<open>volume\<close>.\<close>

record market_state =
  mk_ticks :: "Tick list"
  mk_topic :: "event_message list"
  mk_uuids :: "nat \<Rightarrow> string"
  mk_drawn :: nat

record market_env =
  me_now :: time
  me_rfc3339 :: "string \<Rightarrow> time option"
  me_text :: "time \<Rightarrow> string"
  me_topic :: string
  me_stores :: bool
  me_publishes :: bool

subsection \<open>Parsing\<close>

definition decodeTick :: "payload \<Rightarrow> incomingTick option" where
  "decodeTick payload = do {
     raw \<leftarrow> (case payload of Json v \<Rightarrow> json_members (Some v) | _ \<Rightarrow> None);
     symbol \<leftarrow> decode_field json_string '''' raw ''symbol'';
     price \<leftarrow> decode_field json_float 0 raw ''price'';
     volume \<leftarrow> decode_field json_float 0 raw ''volume'';
     source \<leftarrow> decode_field json_string '''' raw ''source'';
     eventTime \<leftarrow> decode_field json_string '''' raw ''eventTime'';
     Some \<lparr>it_Symbol = symbol, it_Price = price, it_Volume = volume, it_Source = source, it_EventTime = eventTime\<rparr> }"

text \<open>The correlation id of the tick is the given one, which the subscriber always sets; an empty one is
  replaced by a new UUID.\<close>

definition parseAndValidate :: "market_env \<Rightarrow> string \<Rightarrow> payload \<Rightarrow> string \<Rightarrow> tick_error + Tick" where
  "parseAndValidate env uuid payload corr =
     (case decodeTick payload of
        None \<Rightarrow> Inl TickMalformed
      | Some incoming \<Rightarrow>
          let symbol = to_upper (trim_space (it_Symbol incoming)); source = trim_space (it_Source incoming)
          in if symbol = '''' then Inl SymbolRequired
             else if it_Price incoming \<le> 0 then Inl PriceNotPositive
             else if it_Volume incoming < 0 then Inl VolumeNegative
             else if trim_space (it_EventTime incoming) = '''' then Inl EventTimeRequired
             else (case me_rfc3339 env (it_EventTime incoming) of
                     None \<Rightarrow> Inl EventTimeMalformed
                   | Some eventTime \<Rightarrow> Inr
                       \<lparr>tk_Symbol = symbol, tk_Price = it_Price incoming, tk_Volume = it_Volume incoming,
                        tk_Source = (if source = '''' then ''unknown'' else source), tk_EventTime = eventTime,
                        tk_ReceivedAt = me_now env,
                        tk_CorrelationID = (if corr = '''' then uuid else corr)\<rparr>))"

subsection \<open>The table of ticks\<close>

text \<open>A float64 parameter of a NUMERIC column is its shortest decimal; a NUL in a text is refused.\<close>

definition StoreTick :: "market_env \<Rightarrow> Tick \<Rightarrow> market_state \<Rightarrow> tick_error + market_state" where
  "StoreTick env tick s =
     (if \<not> me_stores env \<or> CHR 0x00 \<in> set (tk_Symbol tick) \<or> CHR 0x00 \<in> set (tk_Source tick) \<or>
         CHR 0x00 \<in> set (tk_CorrelationID tick)
      then Inl TickNotStored
      else Inr (s\<lparr>mk_ticks := mk_ticks s @ [tick\<lparr>tk_Price := shortest (tk_Price tick), tk_Volume := shortest (tk_Volume tick)\<rparr>]\<rparr>))"

definition read_tick :: "Tick \<Rightarrow> Tick" where
  "read_tick r = r\<lparr>tk_Price := fl64 (tk_Price r), tk_Volume := fl64 (tk_Volume r)\<rparr>"

text \<open>\<open>DISTINCT ON (symbol) ... ORDER BY symbol, received_at DESC\<close>: of rows received at the same time the
  database may return any, here the first stored. Symbols are ordered by their bytes.\<close>

definition latest_of :: "string \<Rightarrow> Tick list \<Rightarrow> Tick" where
  "latest_of symbol rows = hd (sort_key (\<lambda>r. - tk_ReceivedAt r) (filter (\<lambda>r. tk_Symbol r = symbol) rows))"

definition stored_symbols :: "market_state \<Rightarrow> string list" where
  "stored_symbols s = sort (remdups (map tk_Symbol (mk_ticks s)))"

definition LatestTicks :: "int \<Rightarrow> market_state \<Rightarrow> Tick list" where
  "LatestTicks limit s = limit_rows limit (map (\<lambda>symbol. read_tick (latest_of symbol (mk_ticks s))) (stored_symbols s))"

definition ServiceLatestTicks :: "market_state \<Rightarrow> Tick list" where
  "ServiceLatestTicks s = LatestTicks 100 s"

definition Symbols :: "market_state \<Rightarrow> string list" where
  "Symbols s = stored_symbols s"

subsection \<open>Publishing\<close>

text \<open>The JSON of an event: \<open>eventVersion\<close> and \<open>tenantId\<close> are left out when empty.\<close>

definition tick_json :: "(time \<Rightarrow> string) \<Rightarrow> NormalizedTickEvent \<Rightarrow> json" where
  "tick_json time_text event = JObj
     ([(''eventId'', JStr (ne_EventID event)), (''eventType'', JStr (ne_EventType event))] @
      (if ne_EventVersion event = '''' then [] else [(''eventVersion'', JStr (ne_EventVersion event))]) @
      (if ne_TenantID event = '''' then [] else [(''tenantId'', JStr (ne_TenantID event))]) @
      [(''symbol'', JStr (ne_Symbol event)), (''price'', JNum (ne_Price event)), (''volume'', JNum (ne_Volume event)),
       (''source'', JStr (ne_Source event)), (''eventTime'', JStr (time_text (ne_EventTime event))),
       (''receivedAt'', JStr (time_text (ne_ReceivedAt event))), (''correlationId'', JStr (ne_CorrelationID event))])"

definition PublishTick :: "market_env \<Rightarrow> NormalizedTickEvent \<Rightarrow> market_state \<Rightarrow> tick_error + market_state" where
  "PublishTick env event0 s =
     (let event = (if ne_EventVersion event0 = '''' then event0\<lparr>ne_EventVersion := ''1.0''\<rparr> else event0)
      in if \<not> me_publishes env then Inl TickNotPublished
         else Inr (s\<lparr>mk_topic := mk_topic s @
           [\<lparr>em_Topic = me_topic env, em_Key = ne_Symbol event, em_Value = Json (tick_json (me_text env) event),
             em_Headers = [(''eventType'', ne_EventType event), (''correlationId'', ne_CorrelationID event)]\<rparr>]\<rparr>))"

definition tick_event :: "string \<Rightarrow> Tick \<Rightarrow> NormalizedTickEvent" where
  "tick_event uuid tick =
     \<lparr>ne_EventID = uuid, ne_EventType = ''market.price.updated'', ne_EventVersion = ''v1'', ne_TenantID = ''default-tenant'',
      ne_Symbol = tk_Symbol tick, ne_Price = tk_Price tick, ne_Volume = tk_Volume tick, ne_Source = tk_Source tick,
      ne_EventTime = tk_EventTime tick, ne_ReceivedAt = tk_ReceivedAt tick, ne_CorrelationID = tk_CorrelationID tick\<rparr>"

text \<open>\<open>HandleTickPayload\<close>; the result is None when it succeeds.\<close>

definition HandleTickPayload :: "market_env \<Rightarrow> payload \<Rightarrow> string \<Rightarrow> market_state \<Rightarrow> tick_error option \<times> market_state" where
  "HandleTickPayload env payload corr s =
     (let s0 = (if corr = '''' then s\<lparr>mk_drawn := mk_drawn s + 1\<rparr> else s)
      in case parseAndValidate env (mk_uuids s (mk_drawn s)) payload corr of
        Inl err \<Rightarrow> (Some err, s)
      | Inr tick \<Rightarrow>
          (case StoreTick env tick s0 of
             Inl err \<Rightarrow> (Some err, s0)
           | Inr s1 \<Rightarrow>
               let s2 = s1\<lparr>mk_drawn := mk_drawn s1 + 1\<rparr>
               in case PublishTick env (tick_event (mk_uuids s1 (mk_drawn s1)) tick) s2 of
                    Inl err \<Rightarrow> (Some err, s2)
                  | Inr s3 \<Rightarrow> (None, s3)))"

text \<open>The handler of the MQTT subscription: a new correlation id, and an error is only logged.\<close>

definition tick_message :: "market_env \<Rightarrow> payload \<Rightarrow> market_state \<Rightarrow> market_state" where
  "tick_message env payload s =
     snd (HandleTickPayload env payload (mk_uuids s (mk_drawn s)) (s\<lparr>mk_drawn := mk_drawn s + 1\<rparr>))"

subsection \<open>What a payload becomes\<close>

lemma parsed_tick:
  assumes "parseAndValidate env uuid payload corr = Inr tick"
  shows "tk_Symbol tick \<noteq> '''' \<and> to_upper (trim_space (tk_Symbol tick)) = tk_Symbol tick \<and> 0 < tk_Price tick \<and>
    0 \<le> tk_Volume tick \<and> tk_Source tick \<noteq> '''' \<and> tk_ReceivedAt tick = me_now env \<and>
    tk_CorrelationID tick = (if corr = '''' then uuid else corr)"
  using assms by (auto simp: parseAndValidate_def Let_def trim_upper split: option.splits if_splits)

definition tick_message_of :: "market_env \<Rightarrow> string \<Rightarrow> Tick \<Rightarrow> event_message" where
  "tick_message_of env uuid tick =
     \<lparr>em_Topic = me_topic env, em_Key = tk_Symbol tick, em_Value = Json (tick_json (me_text env) (tick_event uuid tick)),
      em_Headers = [(''eventType'', ''market.price.updated''), (''correlationId'', tk_CorrelationID tick)]\<rparr>"

lemma PublishTick_event:
  "PublishTick env (tick_event uuid tick) s =
     (if me_publishes env then Inr (s\<lparr>mk_topic := mk_topic s @ [tick_message_of env uuid tick]\<rparr>) else Inl TickNotPublished)"
  by (simp add: PublishTick_def tick_event_def tick_message_of_def)

text \<open>What becomes of a payload. A malformed or invalid one changes nothing; a valid one is stored as one row and
  published as one message, in this order; when the row cannot be stored nothing is published, and when the
  message cannot be written the row stays: the tick is in the table and no consumer ever sees it, since the
  subscriber does not process a message twice.\<close>

theorem tick_payload_outcome:
  "case HandleTickPayload env payload corr s of (result, t) \<Rightarrow>
     (case parseAndValidate env (mk_uuids s (mk_drawn s)) payload corr of
        Inl err \<Rightarrow> result = Some err \<and> t = s
      | Inr tick \<Rightarrow>
          tk_Symbol tick \<noteq> '''' \<and> 0 < tk_Price tick \<and> 0 \<le> tk_Volume tick \<and> mk_uuids t = mk_uuids s \<and>
          (if result = Some TickNotStored then mk_ticks t = mk_ticks s \<and> mk_topic t = mk_topic s
           else mk_ticks t = mk_ticks s @ [tick\<lparr>tk_Price := shortest (tk_Price tick), tk_Volume := shortest (tk_Volume tick)\<rparr>] \<and>
             (if me_publishes env then result = None \<and> (\<exists>k. mk_topic t = mk_topic s @ [tick_message_of env (mk_uuids s k) tick])
              else result = Some TickNotPublished \<and> mk_topic t = mk_topic s)))"
proof (cases "parseAndValidate env (mk_uuids s (mk_drawn s)) payload corr")
  case (Inl err)
  then show ?thesis by (simp add: HandleTickPayload_def Let_def)
next
  case (Inr tick)
  then show ?thesis
    using parsed_tick [OF Inr] by (auto simp: HandleTickPayload_def StoreTick_def PublishTick_event Let_def)
qed

subsection \<open>The latest ticks\<close>

lemma latest_of_spec:
  assumes "symbol \<in> set (map tk_Symbol rows)"
  shows "latest_of symbol rows \<in> set rows \<and> tk_Symbol (latest_of symbol rows) = symbol \<and>
    (\<forall>r\<in>set rows. tk_Symbol r = symbol \<longrightarrow> tk_ReceivedAt r \<le> tk_ReceivedAt (latest_of symbol rows))"
proof -
  let ?xs = "sort_key (\<lambda>r. - tk_ReceivedAt r) (filter (\<lambda>r. tk_Symbol r = symbol) rows)"
  have "filter (\<lambda>r. tk_Symbol r = symbol) rows \<noteq> []" using assms by (auto simp: filter_empty_conv)
  then have ne: "?xs \<noteq> []" by (metis set_empty set_sort)
  then have m: "hd ?xs \<in> set (filter (\<lambda>r. tk_Symbol r = symbol) rows)" by (metis hd_in_set set_sort)
  have "sorted (map (\<lambda>r. - tk_ReceivedAt r) ?xs)" by simp
  then have "\<forall>r\<in>set ?xs. - tk_ReceivedAt (hd ?xs) \<le> - tk_ReceivedAt r"
    using ne by (cases ?xs) auto
  then show ?thesis using m unfolding latest_of_def by auto
qed

text \<open>The latest ticks: the symbols that have ticks, in order, up to the limit, each with a tick of its own that no
  other of the symbol was received after. With more symbols than the limit, the service's 100, the later ones
  of the alphabet are never shown.\<close>

theorem latest_ticks_spec:
  "map tk_Symbol (LatestTicks limit s) = take (nat limit) (Symbols s) \<and>
   sorted (Symbols s) \<and> distinct (Symbols s) \<and> set (Symbols s) = tk_Symbol ` set (mk_ticks s) \<and>
   list_all (\<lambda>t. \<exists>r\<in>set (mk_ticks s). t = read_tick r \<and>
     list_all (\<lambda>r'. tk_ReceivedAt r' \<le> tk_ReceivedAt r) (filter (\<lambda>r'. tk_Symbol r' = tk_Symbol r) (mk_ticks s))) (LatestTicks limit s)"
proof -
  have sym: "set (stored_symbols s) = tk_Symbol ` set (mk_ticks s)" by (simp add: stored_symbols_def)
  then have l: "latest_of y (mk_ticks s) \<in> set (mk_ticks s) \<and> tk_Symbol (latest_of y (mk_ticks s)) = y \<and>
    (\<forall>r\<in>set (mk_ticks s). tk_Symbol r = y \<longrightarrow> tk_ReceivedAt r \<le> tk_ReceivedAt (latest_of y (mk_ticks s)))"
    if "y \<in> set (stored_symbols s)" for y
    using latest_of_spec [of y "mk_ticks s"] that by simp
  have "map tk_Symbol (LatestTicks limit s) = take (nat limit) (map (\<lambda>y. tk_Symbol (latest_of y (mk_ticks s))) (stored_symbols s))"
    by (simp add: LatestTicks_def limit_rows_def take_map read_tick_def comp_def)
  also have "map (\<lambda>y. tk_Symbol (latest_of y (mk_ticks s))) (stored_symbols s) = stored_symbols s"
    by (rule map_idI) (use l in blast)
  finally have "map tk_Symbol (LatestTicks limit s) = take (nat limit) (stored_symbols s)" .
  moreover have "\<exists>r\<in>set (mk_ticks s). t = read_tick r \<and>
     list_all (\<lambda>r'. tk_ReceivedAt r' \<le> tk_ReceivedAt r) (filter (\<lambda>r'. tk_Symbol r' = tk_Symbol r) (mk_ticks s))"
    if t: "t \<in> set (LatestTicks limit s)" for t
  proof -
    obtain y where y: "y \<in> set (stored_symbols s)" "t = read_tick (latest_of y (mk_ticks s))"
      using t set_limit_rows [of limit "map (\<lambda>symbol. read_tick (latest_of symbol (mk_ticks s))) (stored_symbols s)"]
      by (auto simp: LatestTicks_def)
    then show ?thesis using l [OF y(1)] by (intro bexI [of _ "latest_of y (mk_ticks s)"]) (simp_all add: list_all_iff)
  qed
  ultimately show ?thesis using sym by (auto simp: Symbols_def stored_symbols_def list_all_iff)
qed

subsection \<open>The tick a stop order sees\<close>

lemma member_of_simps:
  "member_of [] key = JNull"
  "member_of (raw @ [(k, v)]) key = (if key = k then v else member_of raw key)"
  by (simp_all add: member_of_def)

lemma tick_json_members:
  assumes "tick_json tx (tick_event uuid tick) = JObj raw"
  shows "member_of raw ''eventType'' = JStr ''market.price.updated'' \<and> member_of raw ''eventVersion'' = JStr ''v1'' \<and>
    member_of raw ''tenantId'' = JStr ''default-tenant'' \<and> member_of raw ''symbol'' = JStr (tk_Symbol tick) \<and>
    member_of raw ''price'' = JNum (tk_Price tick) \<and> member_of raw ''source'' = JStr (tk_Source tick) \<and>
    member_of raw ''eventTime'' = JStr (tx (tk_EventTime tick)) \<and> member_of raw ''correlationId'' = JStr (tk_CorrelationID tick)"
  using assms by (auto simp: tick_json_def tick_event_def member_of_def)

lemma tick_parsed:
  assumes tick: "parseAndValidate env uuid0 payload corr = Inr tick"
    and time: "tx (tk_EventTime tick) \<noteq> ''''" "rfc3339 (tx (tk_EventTime tick)) = Some (tk_EventTime tick)"
  shows "\<exists>event. parseMarketPriceEvent rfc3339 clock (Some (tick_json tx (tick_event uuid tick))) = Inr event \<and>
    mp_TenantID event = ''default-tenant'' \<and> mp_Symbol event = tk_Symbol tick \<and> mp_Price event = Fin (tk_Price tick) \<and>
    mp_EventTime event = tk_EventTime tick"
proof -
  obtain raw where raw: "tick_json tx (tick_event uuid tick) = JObj raw" by (simp add: tick_json_def)
  have d: "trim_space ''default-tenant'' = ''default-tenant''" "''default-tenant'' \<noteq> ''''" by code_simp+
  show ?thesis
    using parsed_tick [OF tick] tick_json_members [OF raw] time d
    by (simp add: raw parseMarketPriceEvent_def checked_event_def str_of_def price_numeric_def not_positive_price_def Let_def)
qed


subsection \<open>Example\<close>

definition demo_market_env :: market_env where
  "demo_market_env = \<lparr>me_now = 60, me_rfc3339 = (\<lambda>_. Some 50), me_text = (\<lambda>_. ''t''), me_topic = ''market.ticks'',
     me_stores = True, me_publishes = True\<rparr>"

definition demo_tick :: Tick where
  "demo_tick = \<lparr>tk_Symbol = ''AAPL'', tk_Price = 10, tk_Volume = 5, tk_Source = ''unknown'', tk_EventTime = 50,
     tk_ReceivedAt = 60, tk_CorrelationID = ''c''\<rparr>"

lemma demo_parsed: "parseAndValidate demo_market_env '''' (Json (JObj [(''symbol'', JStr '' aapl''), (''price'', JNum 10),
   (''volume'', JNum 5), (''eventTime'', JStr ''t'')])) ''c'' = Inr demo_tick"
  by code_simp


end
