(* ===== verification/IdentityService.thy ===== *)
theory IdentityService
  imports EventConsumer PgColumns "HOL-Library.Word"
begin

text \<open>
  The identity service: users, refresh tokens and audit rows (\<open>internal/repository\<close>), tokens
  (\<open>internal/security\<close>) and the operations on them (\<open>internal/service/auth_service.go\<close>). The libraries for
  passwords, message authentication and JSON web tokens are parameters, a web token is of a type of its own.
  A call's environment says which of its statements fail; Redis is a map from keys to a value and the time
  it expires at.
\<close>

subsection \<open>Types and state\<close>

record User =
  us_ID :: string
  us_TenantID :: string
  us_Email :: string
  us_PasswordHash :: string
  us_FullName :: string
  us_CreatedAt :: time
  us_UpdatedAt :: time
  us_Roles :: "string list"

record 't TokenPair =
  tp_AccessToken :: 't
  tp_RefreshToken :: string
  tp_TokenType :: string
  tp_ExpiresIn :: int

record RefreshToken =
  rt_ID :: string
  rt_UserID :: string
  rt_TokenHash :: string
  rt_ExpiresAt :: time
  rt_RevokedAt :: "time option"

record AuditContext =
  ac_CorrelationID :: string
  ac_IPAddress :: string
  ac_UserAgent :: string

datatype identity_error = IdentityNotFound | IdentityConflict | IdentityStore | HashingFailed | SigningFailed
  | RandomFailed | InvalidCredentials | InvalidToken

text \<open>A row of \<open>users\<close>: its tenant, which may be NULL, and the other columns; the roles of a user are rows of
  \<open>user_roles\<close>.\<close>

type_synonym user_row = "string option \<times> User"

record identity_state =
  iy_users :: "user_row list"
  iy_roles :: "string list"
  iy_user_roles :: "(string \<times> string) list"
  iy_tokens :: "RefreshToken list"
  iy_redis :: "string \<Rightarrow> (string \<times> time) option"
  iy_audit :: "(string \<times> string \<times> AuditContext) list"
  iy_uuids :: "nat \<Rightarrow> string"
  iy_drawn :: nat

datatype fault = UsersRead | UsersWrite | TokenInsert | TokenSelect | TokenUpdate | RedisSet | RedisGet | RedisDel
  | AuditWrite | RandomRead | Signing

record identity_env =
  iv_now :: time
  iv_fault :: "fault \<Rightarrow> bool"
  iv_random :: string
  iv_salt :: nat
  iv_jti :: string

text \<open>\<open>bcrypt.GenerateFromPassword\<close>, which may refuse a password, its check, and the HMAC of a refresh token under
  the service's secret.\<close>

record crypto =
  cy_bcrypt :: "nat \<Rightarrow> string \<Rightarrow> string option"
  cy_verify :: "string \<Rightarrow> string \<Rightarrow> bool"
  cy_hmac :: "string \<Rightarrow> string"

subsection \<open>Users\<close>

definition user_of :: "identity_state \<Rightarrow> user_row \<Rightarrow> User" where
  "user_of s r = (snd r)\<lparr>us_TenantID := coalesce (fst r) ''default-tenant'',
     us_Roles := sort (map snd (filter (\<lambda>ur. fst ur = us_ID (snd r)) (iy_user_roles s)))\<rparr>"

definition findOne :: "identity_env \<Rightarrow> (user_row \<Rightarrow> bool) \<Rightarrow> identity_state \<Rightarrow> identity_error + User" where
  "findOne env P s =
     (if iv_fault env UsersRead then Inl IdentityStore
      else case List.find P (iy_users s) of None \<Rightarrow> Inl IdentityNotFound | Some r \<Rightarrow> Inr (user_of s r))"

definition FindByEmail :: "identity_env \<Rightarrow> string \<Rightarrow> identity_state \<Rightarrow> identity_error + User" where
  "FindByEmail env email s =
     (if CHR 0x00 \<in> set email then Inl IdentityStore else findOne env (\<lambda>r. us_Email (snd r) = email) s)"

definition FindByID :: "pg_uuid \<Rightarrow> identity_env \<Rightarrow> string \<Rightarrow> identity_state \<Rightarrow> identity_error + User" where
  "FindByID pg env i s =
     (case pg i of None \<Rightarrow> Inl IdentityStore | Some u \<Rightarrow> findOne env (\<lambda>r. us_ID (snd r) = u) s)"

text \<open>\<open>Create\<close> is one transaction. The database chooses the id; of the roles only those of the table are given.\<close>

definition add_role :: "string \<Rightarrow> string \<Rightarrow> identity_state \<Rightarrow> identity_state" where
  "add_role userID role s =
     (if role \<in> set (iy_roles s) \<and> (userID, role) \<notin> set (iy_user_roles s)
      then s\<lparr>iy_user_roles := iy_user_roles s @ [(userID, role)]\<rparr> else s)"

definition CreateUser :: "identity_env \<Rightarrow> string \<Rightarrow> string \<Rightarrow> string \<Rightarrow> string list \<Rightarrow> identity_state
    \<Rightarrow> identity_error + (User \<times> identity_state)" where
  "CreateUser env email passwordHash fullName roles s =
     (let i = iy_uuids s (iy_drawn s);
          row = \<lparr>us_ID = i, us_TenantID = ''default-tenant'', us_Email = email, us_PasswordHash = passwordHash,
            us_FullName = fullName, us_CreatedAt = iv_now env, us_UpdatedAt = iv_now env, us_Roles = []\<rparr>
      in if iv_fault env UsersWrite \<or> CHR 0x00 \<in> set email \<or> CHR 0x00 \<in> set passwordHash \<or> CHR 0x00 \<in> set fullName
         then Inl IdentityStore
         else if email \<in> (\<lambda>r. us_Email (snd r)) ` set (iy_users s) \<or> i \<in> (\<lambda>r. us_ID (snd r)) ` set (iy_users s)
         then Inl IdentityConflict
         else Inr (row\<lparr>us_Roles := roles\<rparr>,
           fold (add_role i) roles
             (s\<lparr>iy_users := iy_users s @ [(Some ''default-tenant'', row)], iy_drawn := iy_drawn s + 1\<rparr>)))"

subsection \<open>Refresh tokens\<close>

definition redisKey :: "string \<Rightarrow> string" where
  "redisKey hash = ''identity:refresh:'' @ hash"

text \<open>The row and the key are two writes: when the second fails the row stays.\<close>

definition StoreToken :: "crypto \<Rightarrow> identity_env \<Rightarrow> string \<Rightarrow> string \<Rightarrow> duration \<Rightarrow> identity_state
    \<Rightarrow> identity_error option \<times> identity_state" where
  "StoreToken cy env userID token ttl s =
     (let hash = cy_hmac cy token; i = iy_uuids s (iy_drawn s); expiresAt = iv_now env + ttl;
          s1 = s\<lparr>iy_tokens := iy_tokens s @
                 [\<lparr>rt_ID = i, rt_UserID = userID, rt_TokenHash = hash, rt_ExpiresAt = expiresAt, rt_RevokedAt = None\<rparr>],
               iy_drawn := iy_drawn s + 1\<rparr>
      in if iv_fault env TokenInsert \<or> hash \<in> rt_TokenHash ` set (iy_tokens s) \<or> i \<in> rt_ID ` set (iy_tokens s) \<or>
            userID \<notin> (\<lambda>r. us_ID (snd r)) ` set (iy_users s)
         then (Some IdentityStore, s)
         else if iv_fault env RedisSet then (Some IdentityStore, s1)
         else (None, s1\<lparr>iy_redis := (iy_redis s1)(redisKey hash \<mapsto> (userID, iv_now env + ttl))\<rparr>))"

definition active :: "time \<Rightarrow> string \<Rightarrow> RefreshToken \<Rightarrow> bool" where
  "active now hash t \<longleftrightarrow> rt_TokenHash t = hash \<and> rt_RevokedAt t = None \<and> now < rt_ExpiresAt t"

definition redis_has :: "identity_state \<Rightarrow> time \<Rightarrow> string \<Rightarrow> bool" where
  "redis_has s now key \<longleftrightarrow> (case iy_redis s key of None \<Rightarrow> False | Some (_, expires) \<Rightarrow> now < expires)"

definition FindActive :: "crypto \<Rightarrow> identity_env \<Rightarrow> string \<Rightarrow> identity_state \<Rightarrow> identity_error + RefreshToken" where
  "FindActive cy env token s =
     (let hash = cy_hmac cy token
      in if iv_fault env RedisGet \<or> \<not> redis_has s (iv_now env) (redisKey hash) then Inl IdentityNotFound
         else if iv_fault env TokenSelect then Inl IdentityStore
         else case List.find (active (iv_now env) hash) (iy_tokens s) of None \<Rightarrow> Inl IdentityNotFound | Some t \<Rightarrow> Inr t)"

definition Revoke :: "crypto \<Rightarrow> identity_env \<Rightarrow> string \<Rightarrow> identity_state \<Rightarrow> identity_error option \<times> identity_state" where
  "Revoke cy env token s =
     (let hash = cy_hmac cy token;
          s1 = s\<lparr>iy_tokens := upd_where (\<lambda>t. rt_TokenHash t = hash \<and> rt_RevokedAt t = None)
                 (\<lambda>t. t\<lparr>rt_RevokedAt := Some (iv_now env)\<rparr>) (iy_tokens s)\<rparr>
      in if iv_fault env TokenUpdate then (Some IdentityStore, s)
         else if iv_fault env RedisDel then (Some IdentityStore, s1)
         else (None, s1\<lparr>iy_redis := (iy_redis s1)(redisKey hash := None)\<rparr>))"

text \<open>An audit row that cannot be written is dropped.\<close>

definition RecordAudit :: "identity_env \<Rightarrow> string \<Rightarrow> string \<Rightarrow> AuditContext \<Rightarrow> identity_state \<Rightarrow> identity_state" where
  "RecordAudit env userID action ctx s =
     (if iv_fault env AuditWrite \<or> userID \<notin> (\<lambda>r. us_ID (snd r)) ` set (iy_users s) \<or> CHR 0x00 \<in> set (ac_CorrelationID ctx) \<or>
         CHR 0x00 \<in> set (ac_IPAddress ctx) \<or> CHR 0x00 \<in> set (ac_UserAgent ctx)
      then s else s\<lparr>iy_audit := iy_audit s @ [(userID, action, ctx)]\<rparr>)"

subsection \<open>Access tokens\<close>

record Claims =
  cl_UserID :: string
  cl_TenantID :: string
  cl_AccountID :: string
  cl_Email :: string
  cl_Roles :: "string list"
  cl_Scopes :: "string set"
  cl_ID :: string
  cl_Issuer :: string
  cl_Audience :: "string list"
  cl_IssuedAt :: time
  cl_NotBefore :: time
  cl_ExpiresAt :: time

datatype signing_method = HS256 | RS256

record TokenManager =
  tm_secret :: string
  tm_privateKey :: "string option"
  tm_kid :: string
  tm_issuer :: string
  tm_audience :: string
  tm_ttl :: duration

text \<open>The library of web tokens: signing with a method, a key, a key id for the header and claims; parsing with
  the key the caller has for the token's method, the required issuer and audience and the clock; the public
  key of a private one; the precision of its dates.\<close>

record 't jwt =
  jw_sign :: "signing_method \<Rightarrow> string \<Rightarrow> string \<Rightarrow> Claims \<Rightarrow> 't option"
  jw_parse :: "(signing_method \<Rightarrow> string option) \<Rightarrow> string \<Rightarrow> string \<Rightarrow> time \<Rightarrow> 't \<Rightarrow> Claims option"
  jw_public :: "string \<Rightarrow> string"
  jw_date :: "time \<Rightarrow> time"

text \<open>The scopes come out of a Go map in no particular order: a set.\<close>

definition role_scopes :: "string \<Rightarrow> string set" where
  "role_scopes role =
     (if role = ''admin'' \<or> role = ''trading_admin''
        then {''orders:write'', ''orders:cancel'', ''audit:read'', ''admin:read'', ''metrics:read''}
      else if role = ''trader'' then {''orders:write'', ''orders:cancel''}
      else if role = ''risk_manager'' then {''risk:read'', ''admin:read''}
      else {})"

definition scopesForRoles :: "string list \<Rightarrow> string set" where
  "scopesForRoles roles = fold (\<lambda>role scopes. scopes \<union> role_scopes role) roles {''orders:read'', ''portfolio:read''}"

definition access_claims :: "TokenManager \<Rightarrow> (time \<Rightarrow> time) \<Rightarrow> time \<Rightarrow> string \<Rightarrow> string \<Rightarrow> string \<Rightarrow> string \<Rightarrow> string list \<Rightarrow> Claims" where
  "access_claims tm date now jti userID tenantID email roles =
     \<lparr>cl_UserID = userID, cl_TenantID = (if tenantID = '''' then ''default-tenant'' else tenantID), cl_AccountID = '''',
      cl_Email = email, cl_Roles = roles, cl_Scopes = scopesForRoles roles, cl_ID = jti, cl_Issuer = tm_issuer tm,
      cl_Audience = [tm_audience tm], cl_IssuedAt = date now, cl_NotBefore = date now, cl_ExpiresAt = date (now + tm_ttl tm)\<rparr>"

definition CreateAccessToken :: "'t jwt \<Rightarrow> TokenManager \<Rightarrow> identity_env \<Rightarrow> string \<Rightarrow> string \<Rightarrow> string \<Rightarrow> string list
    \<Rightarrow> identity_error + 't" where
  "CreateAccessToken jw tm env userID tenantID email roles =
     (let claims = access_claims tm (jw_date jw) (iv_now env) (iv_jti env) userID tenantID email roles;
          signed = (case tm_privateKey tm of
            Some key \<Rightarrow> jw_sign jw RS256 key (tm_kid tm) claims
          | None \<Rightarrow> jw_sign jw HS256 (tm_secret tm) '''' claims)
      in if iv_fault env Signing then Inl SigningFailed
         else case signed of None \<Rightarrow> Inl SigningFailed | Some token \<Rightarrow> Inr token)"

text \<open>The key that the parser is given for a token's method; None is the error \<open>unexpected signing method\<close>.\<close>

definition signing_key :: "'t jwt \<Rightarrow> TokenManager \<Rightarrow> signing_method \<Rightarrow> string option" where
  "signing_key jw tm signing =
     (case tm_privateKey tm of
        Some key \<Rightarrow> if signing = RS256 then Some (jw_public jw key) else None
      | None \<Rightarrow> if signing = HS256 then Some (tm_secret tm) else None)"

definition ValidateAccessToken :: "'t jwt \<Rightarrow> TokenManager \<Rightarrow> time \<Rightarrow> 't \<Rightarrow> identity_error + Claims" where
  "ValidateAccessToken jw tm now token =
     (case jw_parse jw (signing_key jw tm) (tm_issuer tm) (tm_audience tm) now token of
        None \<Rightarrow> Inl InvalidToken | Some claims \<Rightarrow> Inr claims)"

text \<open>The bytes of the public exponent in the key set.\<close>

function exponent_bytes :: "int \<Rightarrow> 8 word list \<Rightarrow> 8 word list" where
  "exponent_bytes e bytes = (if e > 0 then exponent_bytes (e div 256) (word_of_int (e mod 256) # bytes) else bytes)"
  by auto
termination by (relation "measure (\<lambda>(e, _). nat e)") auto

declare exponent_bytes.simps [simp del]

definition bigEndianExponent :: "int \<Rightarrow> 8 word list" where
  "bigEndianExponent e = (if e = 0 then [0] else exponent_bytes e [])"

subsection \<open>The operations\<close>

definition normalizeEmail :: "string \<Rightarrow> string" where
  "normalizeEmail email = to_lower (trim_space email)"

definition Register :: "crypto \<Rightarrow> identity_env \<Rightarrow> string \<Rightarrow> string \<Rightarrow> string \<Rightarrow> AuditContext \<Rightarrow> identity_state
    \<Rightarrow> (identity_error + User) \<times> identity_state" where
  "Register cy env email password fullName ctx s =
     (case cy_bcrypt cy (iv_salt env) password of
        None \<Rightarrow> (Inl HashingFailed, s)
      | Some hash \<Rightarrow>
          (case CreateUser env (normalizeEmail email) hash (trim_space fullName) [''trader''] s of
             Inl err \<Rightarrow> (Inl err, s)
           | Inr (user, s') \<Rightarrow> (Inr user, RecordAudit env (us_ID user) ''register'' ctx s')))"

definition issueTokens :: "crypto \<Rightarrow> 't jwt \<Rightarrow> TokenManager \<Rightarrow> duration \<Rightarrow> identity_env \<Rightarrow> User \<Rightarrow> identity_state
    \<Rightarrow> (identity_error + 't TokenPair) \<times> identity_state" where
  "issueTokens cy jw tm refreshTTL env user s =
     (case CreateAccessToken jw tm env (us_ID user) (us_TenantID user) (us_Email user) (us_Roles user) of
        Inl err \<Rightarrow> (Inl err, s)
      | Inr access \<Rightarrow>
          if iv_fault env RandomRead then (Inl RandomFailed, s)
          else (case StoreToken cy env (us_ID user) (iv_random env) refreshTTL s of
             (Some err, s') \<Rightarrow> (Inl err, s')
           | (None, s') \<Rightarrow> (Inr \<lparr>tp_AccessToken = access, tp_RefreshToken = iv_random env, tp_TokenType = ''Bearer'',
                 tp_ExpiresIn = trunc_int (seconds_of (tm_ttl tm))\<rparr>, s')))"

definition Login :: "crypto \<Rightarrow> 't jwt \<Rightarrow> TokenManager \<Rightarrow> duration \<Rightarrow> identity_env \<Rightarrow> string \<Rightarrow> string \<Rightarrow> AuditContext
    \<Rightarrow> identity_state \<Rightarrow> (identity_error + 't TokenPair) \<times> identity_state" where
  "Login cy jw tm refreshTTL env email password ctx s =
     (case FindByEmail env (normalizeEmail email) s of
        Inl _ \<Rightarrow> (Inl InvalidCredentials, s)
      | Inr user \<Rightarrow>
          if \<not> cy_verify cy password (us_PasswordHash user) then (Inl InvalidCredentials, s)
          else (case issueTokens cy jw tm refreshTTL env user s of
             (Inl err, s') \<Rightarrow> (Inl err, s')
           | (Inr pair, s') \<Rightarrow> (Inr pair, RecordAudit env (us_ID user) ''login'' ctx s')))"

definition Refresh :: "pg_uuid \<Rightarrow> crypto \<Rightarrow> 't jwt \<Rightarrow> TokenManager \<Rightarrow> identity_env \<Rightarrow> string \<Rightarrow> AuditContext
    \<Rightarrow> identity_state \<Rightarrow> (identity_error + 't TokenPair) \<times> identity_state" where
  "Refresh pg cy jw tm env refreshToken ctx s =
     (case FindActive cy env refreshToken s of
        Inl _ \<Rightarrow> (Inl InvalidToken, s)
      | Inr refresh \<Rightarrow>
          (case FindByID pg env (rt_UserID refresh) s of
             Inl _ \<Rightarrow> (Inl InvalidToken, s)
           | Inr user \<Rightarrow>
               (case CreateAccessToken jw tm env (us_ID user) (us_TenantID user) (us_Email user) (us_Roles user) of
                  Inl err \<Rightarrow> (Inl err, s)
                | Inr access \<Rightarrow>
                    (Inr \<lparr>tp_AccessToken = access, tp_RefreshToken = '''', tp_TokenType = ''Bearer'',
                       tp_ExpiresIn = trunc_int (seconds_of (tm_ttl tm))\<rparr>,
                     RecordAudit env (us_ID user) ''refresh'' ctx s))))"

text \<open>The error of \<open>FindActive\<close> is dropped: its token is then the empty one.\<close>

definition Logout :: "crypto \<Rightarrow> identity_env \<Rightarrow> string \<Rightarrow> AuditContext \<Rightarrow> identity_state \<Rightarrow> identity_error option \<times> identity_state" where
  "Logout cy env refreshToken ctx s =
     (let found = (case FindActive cy env refreshToken s of Inl _ \<Rightarrow> '''' | Inr t \<Rightarrow> rt_UserID t)
      in case Revoke cy env refreshToken s of (err, s') \<Rightarrow>
           (err, if found \<noteq> '''' then RecordAudit env found ''logout'' ctx s' else s'))"

definition Me :: "pg_uuid \<Rightarrow> identity_env \<Rightarrow> string \<Rightarrow> identity_state \<Rightarrow> identity_error + User" where
  "Me pg env userID s = FindByID pg env userID s"

subsection \<open>Requests\<close>

text \<open>The handlers of \<open>internal/http/handlers/auth.go\<close> on decoded requests: the status code of the answer and what
  it carries.\<close>

definition RegisterHandler :: "crypto \<Rightarrow> identity_env \<Rightarrow> string \<Rightarrow> string \<Rightarrow> string \<Rightarrow> AuditContext \<Rightarrow> identity_state
    \<Rightarrow> (int \<times> User option) \<times> identity_state" where
  "RegisterHandler cy env email password fullName ctx s =
     (if trim_space email = '''' \<or> length password < 8 \<or> trim_space fullName = '''' then ((400, None), s)
      else case Register cy env email password fullName ctx s of
        (Inl err, s') \<Rightarrow> ((if err = IdentityConflict then 409 else 500, None), s')
      | (Inr user, s') \<Rightarrow> ((201, Some user), s'))"

definition LoginHandler :: "crypto \<Rightarrow> 't jwt \<Rightarrow> TokenManager \<Rightarrow> duration \<Rightarrow> identity_env \<Rightarrow> string \<Rightarrow> string \<Rightarrow> AuditContext
    \<Rightarrow> identity_state \<Rightarrow> (int \<times> 't TokenPair option) \<times> identity_state" where
  "LoginHandler cy jw tm refreshTTL env email password ctx s =
     (case Login cy jw tm refreshTTL env email password ctx s of
        (Inl _, s') \<Rightarrow> ((401, None), s') | (Inr pair, s') \<Rightarrow> ((200, Some pair), s'))"

definition RefreshHandler :: "pg_uuid \<Rightarrow> crypto \<Rightarrow> 't jwt \<Rightarrow> TokenManager \<Rightarrow> identity_env \<Rightarrow> string \<Rightarrow> AuditContext
    \<Rightarrow> identity_state \<Rightarrow> (int \<times> 't TokenPair option) \<times> identity_state" where
  "RefreshHandler pg cy jw tm env refreshToken ctx s =
     (case Refresh pg cy jw tm env refreshToken ctx s of
        (Inl _, s') \<Rightarrow> ((401, None), s') | (Inr pair, s') \<Rightarrow> ((200, Some pair), s'))"

definition LogoutHandler :: "crypto \<Rightarrow> identity_env \<Rightarrow> string \<Rightarrow> AuditContext \<Rightarrow> identity_state \<Rightarrow> int \<times> identity_state" where
  "LogoutHandler cy env refreshToken ctx s =
     (if trim_space refreshToken = '''' then (400, s) else (200, snd (Logout cy env refreshToken ctx s)))"

definition MeHandler :: "pg_uuid \<Rightarrow> identity_env \<Rightarrow> Claims option \<Rightarrow> identity_state \<Rightarrow> int \<times> User option" where
  "MeHandler pg env claims s =
     (case claims of None \<Rightarrow> (401, None)
      | Some c \<Rightarrow> (case Me pg env (cl_UserID c) s of Inl _ \<Rightarrow> (401, None) | Inr user \<Rightarrow> (200, Some user)))"

end
