(* ===== verification/IdentityFacts.thy ===== *)
theory IdentityFacts
  imports IdentityService
begin

text \<open>
  What the identity service guarantees: over any run of its requests users and tokens stay unique and a
  revoked token stays revoked, so that a token that was logged out never refreshes again, while one that was
  not refreshes until it expires; access tokens are read back by the service that signed them; the exponent
  in the key set is the big-endian text of the number.
\<close>

subsection \<open>Runs of requests\<close>

definition identity_ok :: "identity_state \<Rightarrow> bool" where
  "identity_ok s \<longleftrightarrow>
     distinct (map (\<lambda>r. us_ID (snd r)) (iy_users s)) \<and> distinct (map (\<lambda>r. us_Email (snd r)) (iy_users s)) \<and>
     distinct (map rt_ID (iy_tokens s)) \<and> distinct (map rt_TokenHash (iy_tokens s)) \<and>
     rt_UserID ` set (iy_tokens s) \<subseteq> (\<lambda>r. us_ID (snd r)) ` set (iy_users s) \<and>
     fst ` set (iy_user_roles s) \<subseteq> (\<lambda>r. us_ID (snd r)) ` set (iy_users s)"

text \<open>A token row keeps everything but its revocation, which happens once.\<close>

definition token_kept :: "RefreshToken \<Rightarrow> RefreshToken \<Rightarrow> bool" where
  "token_kept t t' \<longleftrightarrow> t' = t \<or> (rt_RevokedAt t = None \<and> (\<exists>when. t' = t\<lparr>rt_RevokedAt := Some when\<rparr>))"

text \<open>No user changes and none is lost; a new one is in the default tenant, has a normalised address and at most
  the role of a trader.\<close>

definition registered :: "user_row \<Rightarrow> bool" where
  "registered r \<longleftrightarrow> fst r = Some ''default-tenant'' \<and> normalizeEmail (us_Email (snd r)) = us_Email (snd r)"

definition identity_kept :: "identity_state \<Rightarrow> identity_state \<Rightarrow> bool" where
  "identity_kept s s' \<longleftrightarrow>
     (\<exists>new given. iy_users s' = iy_users s @ new \<and> iy_user_roles s' = iy_user_roles s @ given \<and> list_all registered new \<and>
        list_all (\<lambda>g. snd g = ''trader'' \<and> fst g \<in> (\<lambda>r. us_ID (snd r)) ` set new) given) \<and>
     (\<exists>old new. iy_tokens s' = old @ new \<and> list_all2 token_kept (iy_tokens s) old)"

lemma lower_char_space [simp]: "is_space (lower_char c) = is_space c"
proof (cases "65 \<le> (of_char c :: int) \<and> (of_char c :: int) \<le> 90")
  case True
  then have "of_char (lower_char c) = (of_char c :: int) + 32"
    by (simp add: lower_char_def of_char_of mod_pos_pos_trivial)
  then show ?thesis using True by (auto simp: is_space_def Let_def)
next
  case False
  then have "lower_char c = c" by (auto simp: lower_char_def Let_def)
  then show ?thesis by simp
qed

lemma lower_char_idem [simp]: "lower_char (lower_char c) = lower_char c"
proof (cases "65 \<le> (of_char c :: int) \<and> (of_char c :: int) \<le> 90")
  case True
  then have "of_char (lower_char c) = (of_char c :: int) + 32"
    by (simp add: lower_char_def of_char_of mod_pos_pos_trivial)
  then show ?thesis using True by (auto simp: lower_char_def [of "lower_char c"] Let_def)
next
  case False
  then have "lower_char c = c" by (auto simp: lower_char_def Let_def)
  then show ?thesis by simp
qed

lemma normalizeEmail_idem [simp]: "normalizeEmail (normalizeEmail email) = normalizeEmail email"
proof -
  have d: "dropWhile is_space (map lower_char x) = map lower_char (dropWhile is_space x)" for x
    by (simp add: dropWhile_map comp_def)
  have "trim_space (to_lower x) = to_lower (trim_space x)" for x
    by (simp add: trim_space_def to_lower_def d rev_map)
  then show ?thesis by (simp add: normalizeEmail_def to_lower_def)
qed

lemma token_kept_refl: "token_kept t t"
  by (simp add: token_kept_def)

lemma token_kept_trans: "token_kept a b \<Longrightarrow> token_kept b c \<Longrightarrow> token_kept a c"
  by (auto simp: token_kept_def)

lemma identity_kept_refl: "identity_kept s s"
  unfolding identity_kept_def
  by (intro conjI exI [of _ "[]"] exI [of _ "iy_tokens s"]) (simp_all add: list.rel_refl token_kept_refl)

lemma identity_kept_trans:
  assumes "identity_kept s t" "identity_kept t u" shows "identity_kept s u"
proof -
  obtain n1 g1 n2 g2 where n: "iy_users t = iy_users s @ n1" "iy_user_roles t = iy_user_roles s @ g1" "list_all registered n1"
    "list_all (\<lambda>g. snd g = ''trader'' \<and> fst g \<in> (\<lambda>r. us_ID (snd r)) ` set n1) g1"
    "iy_users u = iy_users t @ n2" "iy_user_roles u = iy_user_roles t @ g2" "list_all registered n2"
    "list_all (\<lambda>g. snd g = ''trader'' \<and> fst g \<in> (\<lambda>r. us_ID (snd r)) ` set n2) g2"
    using assms unfolding identity_kept_def by blast
  have users: "\<exists>new given. iy_users u = iy_users s @ new \<and> iy_user_roles u = iy_user_roles s @ given \<and> list_all registered new \<and>
        list_all (\<lambda>g. snd g = ''trader'' \<and> fst g \<in> (\<lambda>r. us_ID (snd r)) ` set new) given"
    by (intro exI [of _ "n1 @ n2"] exI [of _ "g1 @ g2"]) (use n in \<open>auto simp: list_all_iff\<close>)
  obtain o1 m1 o2 m2 where m: "iy_tokens t = o1 @ m1" "list_all2 token_kept (iy_tokens s) o1"
    "iy_tokens u = o2 @ m2" "list_all2 token_kept (o1 @ m1) o2"
    using assms unfolding identity_kept_def by metis
  obtain a b where ab: "o2 = a @ b" "list_all2 token_kept o1 a" using m(4) by (auto simp: list_all2_append1)
  have "list_all2 token_kept (iy_tokens s) a"
    by (rule list_all2_trans [OF _ m(2) ab(2)]) (rule token_kept_trans)
  then have "\<exists>old new. iy_tokens u = old @ new \<and> list_all2 token_kept (iy_tokens s) old"
    using m(3) ab(1) by (intro exI [of _ a] exI [of _ "b @ m2"]) simp
  then show ?thesis using users by (simp add: identity_kept_def)
qed

text \<open>What leaves the tables alone.\<close>

lemma same_tables:
  assumes "iy_users t = iy_users s" "iy_user_roles t = iy_user_roles s" "iy_tokens t = iy_tokens s" "identity_ok s"
  shows "identity_ok t \<and> identity_kept s t"
  using assms identity_kept_refl [of s] by (simp add: identity_ok_def identity_kept_def)

lemma audit_frame [simp]:
  "iy_users (RecordAudit env u action ctx s) = iy_users s" "iy_user_roles (RecordAudit env u action ctx s) = iy_user_roles s"
  "iy_tokens (RecordAudit env u action ctx s) = iy_tokens s" "iy_redis (RecordAudit env u action ctx s) = iy_redis s"
  by (simp_all add: RecordAudit_def)

lemma audit_kept:
  assumes "identity_ok t \<and> identity_kept s t"
  shows "identity_ok (RecordAudit env u action ctx t) \<and> identity_kept s (RecordAudit env u action ctx t)"
  using same_tables [of "RecordAudit env u action ctx t" t] assms identity_kept_trans by simp blast

lemma CreateUser_Inr:
  assumes "CreateUser env email hash fullName [''trader''] s = Inr (user, t)"
  obtains row given where "iy_users t = iy_users s @ [(Some ''default-tenant'', row)]" "us_Email row = email" "us_ID row = us_ID user"
    "us_ID row \<notin> (\<lambda>r. us_ID (snd r)) ` set (iy_users s)" "email \<notin> (\<lambda>r. us_Email (snd r)) ` set (iy_users s)"
    "iy_user_roles t = iy_user_roles s @ given" "list_all (\<lambda>g. g = (us_ID row, ''trader'')) given"
    "iy_tokens t = iy_tokens s" "iy_redis t = iy_redis s" "us_PasswordHash row = hash" "us_Email user = email"
    "us_TenantID user = ''default-tenant''" "us_Roles user = [''trader'']"
  using assms by (auto simp: CreateUser_def add_role_def Let_def split: if_splits)

lemma Register_kept:
  assumes ok: "identity_ok s"
  shows "identity_ok (snd (Register cy env email password fullName ctx s)) \<and>
    identity_kept s (snd (Register cy env email password fullName ctx s))"
proof (cases "cy_bcrypt cy (iv_salt env) password")
  case None
  then show ?thesis using ok identity_kept_refl by (simp add: Register_def)
next
  case (Some hash)
  show ?thesis
  proof (cases "CreateUser env (normalizeEmail email) hash (trim_space fullName) [''trader''] s")
    case (Inl err)
    then show ?thesis using ok identity_kept_refl Some by (simp add: Register_def)
  next
    case (Inr p)
    obtain user t where p: "p = (user, t)" by fastforce
    obtain row given where c: "iy_users t = iy_users s @ [(Some ''default-tenant'', row)]" "us_Email row = normalizeEmail email" "us_ID row = us_ID user"
      "us_ID row \<notin> (\<lambda>r. us_ID (snd r)) ` set (iy_users s)" "normalizeEmail email \<notin> (\<lambda>r. us_Email (snd r)) ` set (iy_users s)"
      "iy_user_roles t = iy_user_roles s @ given" "list_all (\<lambda>g. g = (us_ID row, ''trader'')) given" "iy_tokens t = iy_tokens s"
      by (rule CreateUser_Inr [OF Inr [unfolded p]])
    have "identity_ok t"
      using ok c unfolding identity_ok_def by (auto simp: list_all_iff)
    moreover have "identity_kept s t"
      unfolding identity_kept_def using c
      by (intro conjI exI [of _ "[(Some ''default-tenant'', row)]"] exI [of _ given] exI [of _ "iy_tokens s"] exI [of _ "[]"])
        (auto simp: registered_def list_all_iff list.rel_refl token_kept_refl)
    ultimately show ?thesis using audit_kept Some Inr p by (simp add: Register_def)
  qed
qed

lemma StoreToken_cases:
  assumes "StoreToken cy env u token ttl s = (r, t)"
  obtains "t = s" "r \<noteq> None"
  | row where "iy_users t = iy_users s" "iy_user_roles t = iy_user_roles s" "iy_tokens t = iy_tokens s @ [row]"
      "rt_TokenHash row = cy_hmac cy token" "rt_UserID row = u" "rt_RevokedAt row = None" "rt_ExpiresAt row = iv_now env + ttl"
      "cy_hmac cy token \<notin> rt_TokenHash ` set (iy_tokens s)" "rt_ID row \<notin> rt_ID ` set (iy_tokens s)"
      "u \<in> (\<lambda>r. us_ID (snd r)) ` set (iy_users s)"
      "iy_redis t = (if iv_fault env RedisSet then iy_redis s
         else (iy_redis s)(redisKey (cy_hmac cy token) \<mapsto> (u, iv_now env + ttl)))"
      "r = None \<longleftrightarrow> \<not> iv_fault env RedisSet"
proof -
  let ?row = "\<lparr>rt_ID = iy_uuids s (iy_drawn s), rt_UserID = u, rt_TokenHash = cy_hmac cy token, rt_ExpiresAt = iv_now env + ttl,
    rt_RevokedAt = None\<rparr>"
  show thesis
  proof (cases "t = s \<and> r \<noteq> None")
    case True
    then show thesis using that(1) by blast
  next
    case False
    then show thesis using assms by (intro that(2) [of ?row]) (auto simp: StoreToken_def Let_def split: if_splits)
  qed
qed

lemma StoreToken_kept:
  assumes ok: "identity_ok s" and t: "StoreToken cy env u token ttl s = (r, t)"
  shows "identity_ok t \<and> identity_kept s t"
  using t
proof (cases rule: StoreToken_cases)
  case 1
  then show ?thesis using ok identity_kept_refl by simp
next
  case (2 row)
  have "identity_kept s t"
    unfolding identity_kept_def using 2(1-3)
    by (intro conjI exI [of _ "[]"] exI [of _ "iy_tokens s"] exI [of _ "[row]"]) (simp_all add: list.rel_refl token_kept_refl)
  then show ?thesis using ok 2 by (auto simp: identity_ok_def)
qed

lemma Login_kept:
  assumes ok: "identity_ok s"
  shows "identity_ok (snd (Login cy jw tm ttl env email password ctx s)) \<and> identity_kept s (snd (Login cy jw tm ttl env email password ctx s))"
proof -
  have "identity_ok (snd (issueTokens cy jw tm ttl env user s)) \<and> identity_kept s (snd (issueTokens cy jw tm ttl env user s))" for user
    using StoreToken_kept [OF ok, of cy env "us_ID user" "iv_random env" ttl] ok identity_kept_refl [of s]
    by (simp add: issueTokens_def split: sum.splits prod.splits option.splits)
  note issued = this
  show ?thesis
  proof (cases "FindByEmail env (normalizeEmail email) s")
    case (Inl err)
    then show ?thesis using ok identity_kept_refl by (simp add: Login_def)
  next
    case (Inr user)
    then show ?thesis using issued [of user] ok identity_kept_refl [of s] audit_kept [of "snd (issueTokens cy jw tm ttl env user s)" s]
      by (auto simp: Login_def split: prod.splits sum.splits)
  qed
qed

lemma Refresh_tables:
  "iy_users (snd (Refresh pg cy jw tm env token ctx s)) = iy_users s"
  "iy_user_roles (snd (Refresh pg cy jw tm env token ctx s)) = iy_user_roles s"
  "iy_tokens (snd (Refresh pg cy jw tm env token ctx s)) = iy_tokens s"
  "iy_redis (snd (Refresh pg cy jw tm env token ctx s)) = iy_redis s"
  by (simp_all add: Refresh_def split: sum.splits)

definition revoke_rows :: "time \<Rightarrow> string \<Rightarrow> RefreshToken list \<Rightarrow> RefreshToken list" where
  "revoke_rows now hash rows = upd_where (\<lambda>t. rt_TokenHash t = hash \<and> rt_RevokedAt t = None) (\<lambda>t. t\<lparr>rt_RevokedAt := Some now\<rparr>) rows"

lemma Logout_tables:
  "iy_users (snd (Logout cy env token ctx s)) = iy_users s"
  "iy_user_roles (snd (Logout cy env token ctx s)) = iy_user_roles s"
  "iy_tokens (snd (Logout cy env token ctx s)) =
     (if iv_fault env TokenUpdate then iy_tokens s else revoke_rows (iv_now env) (cy_hmac cy token) (iy_tokens s))"
  by (simp_all add: Logout_def Revoke_def revoke_rows_def Let_def)

lemma revoke_rows_kept:
  "list_all2 token_kept rows (revoke_rows now hash rows)" "map rt_TokenHash (revoke_rows now hash rows) = map rt_TokenHash rows"
  "map rt_ID (revoke_rows now hash rows) = map rt_ID rows" "map rt_UserID (revoke_rows now hash rows) = map rt_UserID rows"
  unfolding revoke_rows_def
  by (induction rows) (auto simp: upd_where_def token_kept_def)

lemma Logout_kept:
  assumes ok: "identity_ok s"
  shows "identity_ok (snd (Logout cy env token ctx s)) \<and> identity_kept s (snd (Logout cy env token ctx s))"
proof (cases "iv_fault env TokenUpdate")
  case True
  then show ?thesis using ok by (intro same_tables) (simp_all add: Logout_tables)
next
  case False
  let ?rows = "revoke_rows (iv_now env) (cy_hmac cy token) (iy_tokens s)"
  have "rt_UserID ` set ?rows = rt_UserID ` set (iy_tokens s)" using revoke_rows_kept(4) by (metis set_map)
  then have "identity_ok (snd (Logout cy env token ctx s))"
    using ok False revoke_rows_kept(2,3) by (simp add: identity_ok_def Logout_tables)
  moreover have "identity_kept s (snd (Logout cy env token ctx s))"
    unfolding identity_kept_def Logout_tables using False revoke_rows_kept(1)
    by (intro conjI exI [of _ "[]"] exI [of _ ?rows]) simp_all
  ultimately show ?thesis by blast
qed

datatype identity_request =
    AskRegister identity_env string string string AuditContext
  | AskLogin identity_env string string AuditContext
  | AskRefresh identity_env string AuditContext
  | AskLogout identity_env string AuditContext

fun identity_call :: "pg_uuid \<Rightarrow> crypto \<Rightarrow> 't jwt \<Rightarrow> TokenManager \<Rightarrow> duration \<Rightarrow> identity_request \<Rightarrow> identity_state \<Rightarrow> identity_state" where
  "identity_call pg cy jw tm ttl (AskRegister env email password fullName ctx) s =
     snd (RegisterHandler cy env email password fullName ctx s)"
| "identity_call pg cy jw tm ttl (AskLogin env email password ctx) s = snd (LoginHandler cy jw tm ttl env email password ctx s)"
| "identity_call pg cy jw tm ttl (AskRefresh env token ctx) s = snd (RefreshHandler pg cy jw tm env token ctx s)"
| "identity_call pg cy jw tm ttl (AskLogout env token ctx) s = snd (LogoutHandler cy env token ctx s)"

definition identity_run :: "pg_uuid \<Rightarrow> crypto \<Rightarrow> 't jwt \<Rightarrow> TokenManager \<Rightarrow> duration \<Rightarrow> identity_request list
    \<Rightarrow> identity_state \<Rightarrow> identity_state" where
  "identity_run pg cy jw tm ttl calls s = fold (identity_call pg cy jw tm ttl) calls s"

lemma handler_states:
  "snd (RegisterHandler cy env email password fullName ctx s) =
     (if trim_space email = '''' \<or> length password < 8 \<or> trim_space fullName = '''' then s
      else snd (Register cy env email password fullName ctx s))"
  "snd (LoginHandler cy jw tm ttl env email password ctx s) = snd (Login cy jw tm ttl env email password ctx s)"
  "snd (RefreshHandler pg cy jw tm env token ctx s) = snd (Refresh pg cy jw tm env token ctx s)"
  "snd (LogoutHandler cy env token ctx s) = (if trim_space token = '''' then s else snd (Logout cy env token ctx s))"
  by (simp_all add: RegisterHandler_def LoginHandler_def RefreshHandler_def LogoutHandler_def split: prod.splits sum.splits)

lemma identity_call_kept:
  assumes ok: "identity_ok s"
  shows "identity_ok (identity_call pg cy jw tm ttl c s) \<and> identity_kept s (identity_call pg cy jw tm ttl c s)"
proof (cases c)
  case (AskRegister env email password fullName ctx)
  then show ?thesis using Register_kept [OF ok] ok identity_kept_refl by (simp add: handler_states)
next
  case (AskLogin env email password ctx)
  then show ?thesis using Login_kept [OF ok] by (simp add: handler_states)
next
  case (AskRefresh env token ctx)
  then show ?thesis using ok by (auto simp: handler_states Refresh_tables intro: same_tables [THEN conjunct1] same_tables [THEN conjunct2])
next
  case (AskLogout env token ctx)
  then show ?thesis using Logout_kept [OF ok] ok identity_kept_refl by (simp add: handler_states)
qed

lemma identity_run_kept:
  assumes "identity_ok s"
  shows "identity_ok (identity_run pg cy jw tm ttl calls s) \<and> identity_kept s (identity_run pg cy jw tm ttl calls s)"
  using assms
proof (induction calls arbitrary: s)
  case Nil
  then show ?case by (simp add: identity_run_def identity_kept_refl)
next
  case (Cons c calls)
  then show ?case
    using identity_call_kept [OF Cons.prems, of pg cy jw tm ttl c] Cons.IH [of "identity_call pg cy jw tm ttl c s"] identity_kept_trans
    unfolding identity_run_def by simp blast
qed

text \<open>C18: Over any run of requests e-mail addresses, user ids and token hashes stay unique and every token and role belongs
  to a user; no user is changed or lost, the users that were added are in the default tenant under a
  normalised address with the role of a trader at most, and a token row changes only by being revoked, once.\<close>

theorem identity_consistent:
  assumes "identity_ok s"
  shows "identity_ok (identity_run pg cy jw tm ttl calls s) \<and> identity_kept s (identity_run pg cy jw tm ttl calls s)"
  by (rule identity_run_kept [OF assms])

subsection \<open>Sessions\<close>

definition revoked :: "string \<Rightarrow> identity_state \<Rightarrow> bool" where
  "revoked hash s \<longleftrightarrow> (\<exists>t\<in>set (iy_tokens s). rt_TokenHash t = hash \<and> rt_RevokedAt t \<noteq> None)"

lemma revoked_kept:
  assumes "revoked hash s" "identity_kept s t" shows "revoked hash t"
proof -
  obtain old new where o: "iy_tokens t = old @ new" "list_all2 token_kept (iy_tokens s) old"
    using assms(2) unfolding identity_kept_def by blast
  obtain k where k: "k < length (iy_tokens s)" "rt_TokenHash (iy_tokens s ! k) = hash" "rt_RevokedAt (iy_tokens s ! k) \<noteq> None"
    using assms(1) unfolding revoked_def by (metis in_set_conv_nth)
  have "token_kept (iy_tokens s ! k) (old ! k)" "k < length old" using o(2) k(1) by (auto simp: list_all2_conv_all_nth)
  then have "old ! k = iy_tokens s ! k" "old ! k \<in> set (iy_tokens t)" using k(3) o(1) nth_mem [of k old] by (auto simp: token_kept_def)
  then show ?thesis using k unfolding revoked_def by metis
qed

lemma revoked_not_active:
  assumes "identity_ok s" "revoked hash s" shows "List.find (active now hash) (iy_tokens s) = None"
proof -
  obtain t where t: "t \<in> set (iy_tokens s)" "rt_TokenHash t = hash" "rt_RevokedAt t \<noteq> None" using assms(2) by (auto simp: revoked_def)
  have "inj_on rt_TokenHash (set (iy_tokens s))" using assms(1) by (simp add: identity_ok_def distinct_map)
  then have same: "t' = t" if "t' \<in> set (iy_tokens s)" "rt_TokenHash t' = hash" for t'
    using inj_onD [of rt_TokenHash "set (iy_tokens s)" t' t] t that by simp
  have "\<not> active now hash t'" if t': "t' \<in> set (iy_tokens s)" for t'
  proof
    assume a: "active now hash t'"
    then have "t' = t" using same [OF t'] by (simp add: active_def)
    then show False using a t(3) by (simp add: active_def)
  qed
  then show ?thesis by (simp add: find_None_iff)
qed

text \<open>C15: A token that was logged out never refreshes again, whatever requests come in between and whether or not Redis
  could delete its key: the row of the token is revoked for good. The update of that row must have succeeded;
  the handler answers 200 in any case.\<close>

theorem logged_out_stays_out:
  assumes "identity_ok s" "\<not> iv_fault env TokenUpdate" "cy_hmac cy token \<in> rt_TokenHash ` set (iy_tokens s)"
  shows "Refresh pg cy jw tm env' token ctx' (identity_run pg cy jw tm ttl calls (snd (Logout cy env token ctx s))) =
    (Inl InvalidToken, identity_run pg cy jw tm ttl calls (snd (Logout cy env token ctx s)))"
proof -
  let ?t = "snd (Logout cy env token ctx s)" and ?h = "cy_hmac cy token"
  let ?u = "identity_run pg cy jw tm ttl calls ?t"
  obtain x where x: "x \<in> set (iy_tokens s)" "rt_TokenHash x = ?h" using assms(3) by auto
  have "(if rt_RevokedAt x = None then x\<lparr>rt_RevokedAt := Some (iv_now env)\<rparr> else x) \<in> set (revoke_rows (iv_now env) ?h (iy_tokens s))"
    unfolding revoke_rows_def upd_where_def using x by (auto intro!: rev_image_eqI)
  then have "revoked ?h ?t" using assms(2) x unfolding revoked_def Logout_tables by (intro bexI) auto
  moreover have ok: "identity_ok ?t" using Logout_kept [OF assms(1)] by blast
  ultimately have "List.find (active (iv_now env') ?h) (iy_tokens ?u) = None"
    using identity_run_kept [OF ok, of pg cy jw tm ttl calls] revoked_kept revoked_not_active by blast
  then show ?thesis by (auto simp: Refresh_def FindActive_def Let_def)
qed

text \<open>A session that is open until \<open>until\<close>.\<close>

definition session :: "string \<Rightarrow> string \<Rightarrow> time \<Rightarrow> identity_state \<Rightarrow> bool" where
  "session hash u until s \<longleftrightarrow>
     (\<exists>t\<in>set (iy_tokens s). rt_TokenHash t = hash \<and> rt_UserID t = u \<and> rt_RevokedAt t = None \<and> rt_ExpiresAt t = until) \<and>
     iy_redis s (redisKey hash) = Some (u, until)"

fun ends_session :: "crypto \<Rightarrow> string \<Rightarrow> identity_request \<Rightarrow> bool" where
  "ends_session cy hash (AskLogout env token ctx) = (cy_hmac cy token = hash)"
| "ends_session cy hash _ = False"

lemma redisKey_eq [simp]: "redisKey a = redisKey b \<longleftrightarrow> a = b"
  by (simp add: redisKey_def)

lemma session_call:
  assumes "session hash u until s" "\<not> ends_session cy hash c"
  shows "session hash u until (identity_call pg cy jw tm ttl c s)"
proof -
  have tables: "session hash u until t"
    if "iy_tokens t = iy_tokens s" "iy_redis t = iy_redis s" for t
    using assms(1) that by (simp add: session_def)
  show ?thesis
  proof (cases c)
    case (AskRegister env email password fullName ctx)
    have "iy_tokens t = iy_tokens s \<and> iy_redis t = iy_redis s"
      if "CreateUser env (normalizeEmail email) hash (trim_space fullName) [''trader''] s = Inr (user, t)" for hash user t
      using CreateUser_Inr [OF that] by blast
    then have "iy_tokens (snd (Register cy env email password fullName ctx s)) = iy_tokens s \<and>
        iy_redis (snd (Register cy env email password fullName ctx s)) = iy_redis s"
      by (auto simp: Register_def split: option.splits sum.splits)
    then show ?thesis using AskRegister tables assms(1) by (simp add: handler_states)
  next
    case (AskLogin env email password ctx)
    have stored: "session hash u until t" if t: "StoreToken cy env v token ttl s = (r, t)" for v token r t
      using t
    proof (cases rule: StoreToken_cases)
      case 1
      then show ?thesis using assms(1) by simp
    next
      case (2 row)
      have "hash \<in> rt_TokenHash ` set (iy_tokens s)" using assms(1) by (auto simp: session_def)
      then have "hash \<noteq> cy_hmac cy token" using 2(8) by blast
      then show ?thesis using 2(3,11) assms(1) by (auto simp: session_def)
    qed
    have issued: "session hash u until (snd (issueTokens cy jw tm ttl env user s))" for user
      using stored assms(1) by (auto simp: issueTokens_def split: sum.splits prod.splits option.splits)
    have audited: "session hash u until (RecordAudit env v action ctx t)" if "session hash u until t" for v action t
      using that by (simp add: session_def)
    have "session hash u until (snd (Login cy jw tm ttl env email password ctx s))"
    proof (cases "FindByEmail env (normalizeEmail email) s")
      case (Inl err)
      then show ?thesis using assms(1) by (simp add: Login_def)
    next
      case (Inr user)
      then show ?thesis using issued [of user] assms(1) audited by (auto simp: Login_def split: prod.splits sum.splits)
    qed
    then show ?thesis using AskLogin by (simp add: handler_states)
  next
    case (AskRefresh env token ctx)
    then show ?thesis using tables by (simp add: handler_states Refresh_tables)
  next
    case (AskLogout env token ctx)
    have other: "cy_hmac cy token \<noteq> hash" using assms(2) AskLogout by simp
    obtain t where t: "t \<in> set (iy_tokens s)" "rt_TokenHash t = hash" "rt_UserID t = u" "rt_RevokedAt t = None" "rt_ExpiresAt t = until"
      using assms(1) by (auto simp: session_def)
    have "t \<in> set (revoke_rows (iv_now env) (cy_hmac cy token) (iy_tokens s))"
      unfolding revoke_rows_def upd_where_def using t other by (auto intro!: rev_image_eqI)
    moreover have "iy_redis (snd (Logout cy env token ctx s)) (redisKey hash) = iy_redis s (redisKey hash)"
      using other by (simp add: Logout_def Revoke_def Let_def)
    ultimately have "session hash u until (snd (Logout cy env token ctx s))"
      using t assms(1) unfolding session_def Logout_tables by auto
    then show ?thesis using AskLogout assms(1) by (simp add: handler_states)
  qed
qed

lemma session_run:
  assumes "session hash u until s" "list_all (\<lambda>c. \<not> ends_session cy hash c) calls"
  shows "session hash u until (identity_run pg cy jw tm ttl calls s)"
  using assms
proof (induction calls arbitrary: s)
  case Nil
  then show ?case by (simp add: identity_run_def)
next
  case (Cons c calls)
  then show ?case using session_call [of hash u until s cy c pg jw tm ttl] by (simp add: identity_run_def)
qed

text \<open>What a kept user reads as.\<close>

lemma user_kept:
  assumes ok: "identity_ok t" and k: "identity_kept s t" and u: "List.find (\<lambda>r. us_ID (snd r) = u) (iy_users s) = Some r"
  shows "List.find (\<lambda>r. us_ID (snd r) = u) (iy_users t) = Some r \<and> user_of t r = user_of s r"
proof -
  obtain new given where n: "iy_users t = iy_users s @ new" "iy_user_roles t = iy_user_roles s @ given"
    "list_all (\<lambda>g. snd g = ''trader'' \<and> fst g \<in> (\<lambda>r. us_ID (snd r)) ` set new) given"
    using k unfolding identity_kept_def by blast
  have r: "r \<in> set (iy_users s)" "us_ID (snd r) = u" using u by (auto simp: find_Some_iff)
  have "List.find P (xs @ ys) = Some r" if "List.find P xs = Some r" for P xs and ys :: "user_row list"
    using that by (induction xs) auto
  then have found: "List.find (\<lambda>r. us_ID (snd r) = u) (iy_users t) = Some r" using u n(1) by simp
  have "us_ID (snd r) \<notin> (\<lambda>r. us_ID (snd r)) ` set new"
    using ok r(1) n(1) unfolding identity_ok_def by auto
  then have "fst g \<noteq> us_ID (snd r)" if "g \<in> set given" for g
    using n(3) that unfolding list_all_iff by metis
  then have "filter (\<lambda>ur. fst ur = us_ID (snd r)) given = []"
    by (simp add: filter_empty_conv)
  then show ?thesis using found n(2) by (simp add: user_of_def)
qed

lemma session_found:
  assumes "identity_ok s" "session (cy_hmac cy token) u until s" "iv_now env < until"
    "\<not> iv_fault env RedisGet" "\<not> iv_fault env TokenSelect"
  shows "\<exists>x. FindActive cy env token s = Inr x \<and> rt_UserID x = u"
proof -
  let ?h = "cy_hmac cy token"
  obtain t where t: "t \<in> set (iy_tokens s)" "active (iv_now env) ?h t" "rt_UserID t = u"
    using assms(2,3) by (auto simp: session_def active_def)
  have inj: "inj_on rt_TokenHash (set (iy_tokens s))" using assms(1) by (simp add: identity_ok_def distinct_map)
  obtain x where x: "List.find (active (iv_now env) ?h) (iy_tokens s) = Some x"
    using t(1,2) by (cases "List.find (active (iv_now env) ?h) (iy_tokens s)") (auto simp: find_None_iff)
  then have "x \<in> set (iy_tokens s)" "active (iv_now env) ?h x" by (auto simp: find_Some_iff)
  then have "x = t" using inj_onD [OF inj, of x t] t by (simp add: active_def)
  moreover have "redis_has s (iv_now env) (redisKey ?h)" using assms(2,3) by (simp add: redis_has_def session_def)
  ultimately show ?thesis using x t(3) assms(4,5) by (simp add: FindActive_def Let_def)
qed

text \<open>C16: A session lasts. After a login, with whatever requests of others in between and without a logout of this
  token, the refresh token that was returned refreshes until its time is over, as often as it is presented: a
  refresh hands out no new refresh token and does not use the old one up. The new access token is for the user
  whose password was checked, with the address, tenant and roles of the login. The statements of the refresh
  must not fail, and the id of the user is one that PostgreSQL reads as itself.\<close>

theorem session_refreshes:
  assumes "identity_ok s" "Login cy jw tm ttl env email password ctx s = (Inr pair, t)"
    "list_all (\<lambda>c. \<not> ends_session cy (cy_hmac cy (tp_RefreshToken pair)) c) calls"
    "iv_now env' < iv_now env + ttl" "\<not> iv_fault env' RedisGet" "\<not> iv_fault env' TokenSelect" "\<not> iv_fault env' UsersRead"
    "\<And>u. u \<in> (\<lambda>r. us_ID (snd r)) ` set (iy_users s) \<Longrightarrow> pg u = Some u"
  shows "\<exists>user. FindByEmail env (normalizeEmail email) s = Inr user \<and> cy_verify cy password (us_PasswordHash user) \<and>
    fst (Refresh pg cy jw tm env' (tp_RefreshToken pair) ctx' (identity_run pg cy jw tm ttl calls t)) =
      (case CreateAccessToken jw tm env' (us_ID user) (us_TenantID user) (us_Email user) (us_Roles user) of
         Inl err \<Rightarrow> Inl err
       | Inr access \<Rightarrow> Inr \<lparr>tp_AccessToken = access, tp_RefreshToken = '''', tp_TokenType = ''Bearer'',
           tp_ExpiresIn = trunc_int (seconds_of (tm_ttl tm))\<rparr>)"
proof -
  let ?v = "identity_run pg cy jw tm ttl calls t" and ?h = "cy_hmac cy (tp_RefreshToken pair)"
  obtain user where user: "FindByEmail env (normalizeEmail email) s = Inr user" "cy_verify cy password (us_PasswordHash user)"
    using assms(2) by (auto simp: Login_def split: sum.splits if_splits)
  obtain t1 where t1: "issueTokens cy jw tm ttl env user s = (Inr pair, t1)" "t = RecordAudit env (us_ID user) ''login'' ctx t1"
    using assms(2) user by (auto simp: Login_def split: sum.splits prod.splits)
  have st: "StoreToken cy env (us_ID user) (tp_RefreshToken pair) ttl s = (None, t1)"
    using t1(1) by (auto simp: issueTokens_def split: sum.splits prod.splits option.splits if_splits)
  have "session ?h (us_ID user) (iv_now env + ttl) t1"
    using st by (cases rule: StoreToken_cases) (auto simp: session_def)
  then have "session ?h (us_ID user) (iv_now env + ttl) t" by (simp add: session_def t1(2))
  then have s: "session ?h (us_ID user) (iv_now env + ttl) ?v" by (rule session_run) (rule assms(3))
  have t: "identity_ok t" "identity_kept s t" using Login_kept [OF assms(1), of cy jw tm ttl env email password ctx] assms(2) by simp_all
  have v: "identity_ok ?v" "identity_kept s ?v" using identity_run_kept [OF t(1), of pg cy jw tm ttl calls] identity_kept_trans t(2) by blast+
  obtain r where r: "List.find (\<lambda>r. us_Email (snd r) = normalizeEmail email) (iy_users s) = Some r" "user = user_of s r"
    using user(1) by (auto simp: FindByEmail_def findOne_def split: option.splits if_splits)
  have rs: "r \<in> set (iy_users s)" "us_ID user = us_ID (snd r)" using r by (auto simp: find_Some_iff user_of_def)
  have "distinct (map (\<lambda>r. us_ID (snd r)) (iy_users s))" using assms(1) by (simp add: identity_ok_def)
  then have "find_by (\<lambda>r. us_ID (snd r)) (us_ID (snd r)) (iy_users s) = Some r" by (rule find_by_unique) (rule rs(1))
  then have "List.find (\<lambda>r'. us_ID (snd r') = us_ID user) (iy_users s) = Some r" by (simp add: find_by_def rs(2))
  from user_kept [OF v this] have "FindByID pg env' (us_ID user) ?v = Inr user"
    using assms(7) assms(8) [of "us_ID user"] rs r(2) by (simp add: FindByID_def findOne_def)
  moreover have "\<exists>x. FindActive cy env' (tp_RefreshToken pair) ?v = Inr x \<and> rt_UserID x = us_ID user"
    by (rule session_found [OF v(1) s assms(4-6)])
  ultimately show ?thesis using user by (auto simp: Refresh_def split: sum.splits)
qed

subsection \<open>Access tokens\<close>

text \<open>What the library of web tokens documents: a signed token is parsed to its claims exactly when the caller's key
  for its method verifies it, issuer and audience are the required ones, and the clock is between the times
  the claims name.\<close>

definition jwt_laws :: "'t jwt \<Rightarrow> bool" where
  "jwt_laws jw \<longleftrightarrow> (\<forall>signing key kid c token keys issuer audience now. jw_sign jw signing key kid c = Some token \<longrightarrow>
     jw_parse jw keys issuer audience now token =
       (if keys signing = Some (if signing = RS256 then jw_public jw key else key) \<and> cl_Issuer c = issuer \<and>
           audience \<in> set (cl_Audience c) \<and> cl_NotBefore c \<le> now \<and> now < cl_ExpiresAt c
        then Some c else None))"


subsection \<open>The exponent\<close>

definition big_endian_value :: "8 word list \<Rightarrow> int" where
  "big_endian_value bytes = foldl (\<lambda>n b. n * 256 + uint b) 0 bytes"

lemma foldl_value: "foldl (\<lambda>n b. n * 256 + uint (b :: 8 word)) n bytes = n * 256 ^ length bytes + big_endian_value bytes"
proof (induction bytes arbitrary: n)
  case Nil
  show ?case by (simp add: big_endian_value_def)
next
  case (Cons b bytes)
  have "big_endian_value (b # bytes) = uint b * 256 ^ length bytes + big_endian_value bytes"
    using Cons.IH [of "uint b"] by (simp add: big_endian_value_def)
  then show ?case using Cons.IH [of "n * 256 + uint b"] by (simp add: algebra_simps)
qed

lemma exponent_bytes_value:
  "0 \<le> e \<Longrightarrow> big_endian_value (exponent_bytes e bytes) = e * 256 ^ length bytes + big_endian_value bytes"
proof (induction e bytes rule: exponent_bytes.induct)
  case (1 e bytes)
  show ?case
  proof (cases "e > 0")
    case False
    then have "e = 0" using 1(2) by simp
    then show ?thesis by (simp add: exponent_bytes.simps [of 0])
  next
    case True
    have gather: "d * 256 ^ Suc n + (m * 256 ^ n + v) = (d * 256 + m) * 256 ^ n + v" for d m v :: int and n
      by (simp add: algebra_simps)
    let ?b = "word_of_int (e mod 256) :: 8 word"
    have b: "uint ?b = e mod 256" by (simp add: uint_word_of_int)
    have "big_endian_value (?b # bytes) = (e mod 256) * 256 ^ length bytes + big_endian_value bytes"
      using foldl_value [of "uint ?b" bytes] b by (simp add: big_endian_value_def)
    then have "big_endian_value (exponent_bytes e bytes) =
        (e div 256) * 256 ^ Suc (length bytes) + ((e mod 256) * 256 ^ length bytes + big_endian_value bytes)"
      using 1(1) [OF True] True by (simp add: exponent_bytes.simps [of e])
    also have "\<dots> = (e div 256 * 256 + e mod 256) * 256 ^ length bytes + big_endian_value bytes"
      by (rule gather)
    also have "e div 256 * 256 + e mod 256 = e" by simp
    finally show ?thesis .
  qed
qed

lemma exponent_bytes_first:
  "0 < e \<Longrightarrow> \<exists>b bs. exponent_bytes e bytes = b # bs \<and> b \<noteq> 0"
proof (induction e bytes rule: exponent_bytes.induct)
  case (1 e bytes)
  show ?case
  proof (cases "e div 256 > 0")
    case True
    then show ?thesis using 1 by (simp add: exponent_bytes.simps [of e])
  next
    case False
    then have "e mod 256 = e" using 1(2) by (simp add: mod_pos_pos_trivial)
    moreover have "exponent_bytes (e div 256) x = x" for x using False by (simp add: exponent_bytes.simps [of "e div 256"])
    moreover have "uint (word_of_int e :: 8 word) = e" using calculation(1) by (simp add: uint_word_of_int)
    ultimately show ?thesis using 1(2) by (auto simp: exponent_bytes.simps [of e])
  qed
qed

text \<open>The exponent of the public key in the key set is the big-endian text of the number, without leading zeros.\<close>

theorem exponent_roundtrip:
  assumes "0 < e"
  shows "big_endian_value (bigEndianExponent e) = e \<and> hd (bigEndianExponent e) \<noteq> 0"
  using exponent_bytes_value [of e "[]"] exponent_bytes_first [of e "[]"] assms
  by (auto simp: bigEndianExponent_def big_endian_value_def)

subsection \<open>Examples\<close>

definition demo_crypto :: crypto where
  "demo_crypto = \<lparr>cy_bcrypt = (\<lambda>_ p. Some (p @ ''#'')), cy_verify = (\<lambda>p h. h = p @ ''#''), cy_hmac = (\<lambda>t. t @ ''h'')\<rparr>"

type_synonym demo_token = "signing_method \<times> string \<times> Claims"

definition demo_jwt :: "demo_token jwt" where
  "demo_jwt = \<lparr>jw_sign = (\<lambda>signing key _ c. Some (signing, key, c)),
     jw_parse = (\<lambda>keys issuer audience now (signing, key, c).
       if keys signing = Some key \<and> cl_Issuer c = issuer \<and> audience \<in> set (cl_Audience c) \<and>
          cl_NotBefore c \<le> now \<and> now < cl_ExpiresAt c then Some c else None),
     jw_public = (\<lambda>k. k), jw_date = (\<lambda>t. t)\<rparr>"

definition demo_manager :: TokenManager where
  "demo_manager = \<lparr>tm_secret = ''k'', tm_privateKey = None, tm_kid = '''', tm_issuer = ''i'', tm_audience = ''a'', tm_ttl = 900\<rparr>"

definition demo_identity_env :: "time \<Rightarrow> string \<Rightarrow> identity_env" where
  "demo_identity_env now token = \<lparr>iv_now = now, iv_fault = (\<lambda>_. False), iv_random = token, iv_salt = 0, iv_jti = ''j''\<rparr>"

abbreviation demo_audit :: AuditContext where
  "demo_audit \<equiv> \<lparr>ac_CorrelationID = '''', ac_IPAddress = '''', ac_UserAgent = ''''\<rparr>"

definition demo_user :: User where
  "demo_user = \<lparr>us_ID = ''u1'', us_TenantID = ''acme'', us_Email = ''a@b'', us_PasswordHash = ''password#'', us_FullName = ''A'',
     us_CreatedAt = 0, us_UpdatedAt = 0, us_Roles = []\<rparr>"

definition demo_identity :: identity_state where
  "demo_identity = \<lparr>iy_users = [(Some ''acme'', demo_user)], iy_roles = [''trader'', ''risk_manager''],
     iy_user_roles = [(''u1'', ''risk_manager'')], iy_tokens = [], iy_redis = (\<lambda>_. None), iy_audit = [],
     iy_uuids = (\<lambda>k. replicate (Suc k) CHR ''x''), iy_drawn = 0\<rparr>"

lemma demo_identity_ok: "identity_ok demo_identity"
  by (simp add: identity_ok_def demo_identity_def demo_user_def)

lemma demo_jwt_laws: "jwt_laws demo_jwt"
  by (simp add: jwt_laws_def demo_jwt_def)

abbreviation demo_login_call :: identity_request where
  "demo_login_call \<equiv> AskLogin (demo_identity_env 100 ''tok'') '' A@B '' ''password'' demo_audit"

abbreviation demo_logout_call :: identity_request where
  "demo_logout_call \<equiv> AskLogout (demo_identity_env 200 '''') ''tok'' demo_audit"

abbreviation demo_register_call :: identity_request where
  "demo_register_call \<equiv> AskRegister (demo_identity_env 150 '''') ''New@B'' ''password'' ''N'' demo_audit"

abbreviation demo_identity_run :: "identity_request list \<Rightarrow> identity_state" where
  "demo_identity_run calls \<equiv> identity_run Some demo_crypto demo_jwt demo_manager 3600 calls demo_identity"

lemma identity_consistent_witness:
  "identity_ok (demo_identity_run [demo_login_call, demo_register_call, demo_logout_call]) \<and>
   map (\<lambda>r. (fst r, us_Email (snd r))) (iy_users (demo_identity_run [demo_login_call, demo_register_call, demo_logout_call])) =
     [(Some ''acme'', ''a@b''), (Some ''default-tenant'', ''new@b'')] \<and>
   map rt_RevokedAt (iy_tokens (demo_identity_run [demo_login_call, demo_register_call, demo_logout_call])) = [Some 200]"
proof (intro conjI)
  show "identity_ok (demo_identity_run [demo_login_call, demo_register_call, demo_logout_call])"
    using identity_consistent [OF demo_identity_ok] by blast
qed code_simp+

definition demo_session :: identity_state where
  "demo_session = demo_identity\<lparr>iy_tokens := [\<lparr>rt_ID = ''t1'', rt_UserID = ''u1'', rt_TokenHash = ''tokh'', rt_ExpiresAt = 3700,
     rt_RevokedAt = None\<rparr>], iy_redis := (\<lambda>k. if k = ''identity:refresh:tokh'' then Some (''u1'', 3700) else None)\<rparr>"

lemma logged_out_stays_out_witness:
  "fst (Refresh Some demo_crypto demo_jwt demo_manager (demo_identity_env 300 '''') ''tok'' demo_audit
     (identity_run Some demo_crypto demo_jwt demo_manager 3600 [demo_login_call]
       (snd (Logout demo_crypto (demo_identity_env 200 '''') ''tok'' demo_audit demo_session)))) = Inl InvalidToken"
proof -
  have "identity_ok demo_session"
    by (simp add: identity_ok_def demo_session_def demo_identity_def demo_user_def)
  moreover have "\<not> iv_fault (demo_identity_env 200 '''') TokenUpdate" by (simp add: demo_identity_env_def)
  moreover have "cy_hmac demo_crypto ''tok'' \<in> rt_TokenHash ` set (iy_tokens demo_session)"
    by (simp add: demo_crypto_def demo_session_def)
  ultimately show ?thesis by (subst logged_out_stays_out) simp_all
qed

abbreviation "demo_login \<equiv> Login demo_crypto demo_jwt demo_manager 3600 (demo_identity_env 100 ''tok'') '' A@B '' ''password'' demo_audit demo_identity"

lemma session_refreshes_witness:
  "fst (Refresh Some demo_crypto demo_jwt demo_manager (demo_identity_env 300 '''') (tp_RefreshToken (projr (fst demo_login))) demo_audit
     (identity_run Some demo_crypto demo_jwt demo_manager 3600 [demo_register_call] (snd demo_login))) \<noteq> Inl InvalidToken"
proof -
  have "isl (fst demo_login) = False" by code_simp
  then have l: "demo_login = (Inr (projr (fst demo_login)), snd demo_login)" by (cases "fst demo_login") (auto simp: prod_eq_iff)
  have created: "\<exists>x. CreateAccessToken demo_jwt demo_manager env u v w roles = Inr x" if "\<not> iv_fault env Signing" for env u v w roles
    using that by (simp add: CreateAccessToken_def demo_jwt_def demo_manager_def Let_def)
  have "\<exists>user. FindByEmail (demo_identity_env 100 ''tok'') (normalizeEmail '' A@B '') demo_identity = Inr user \<and>
      cy_verify demo_crypto ''password'' (us_PasswordHash user) \<and>
      fst (Refresh Some demo_crypto demo_jwt demo_manager (demo_identity_env 300 '''') (tp_RefreshToken (projr (fst demo_login))) demo_audit
        (identity_run Some demo_crypto demo_jwt demo_manager 3600 [demo_register_call] (snd demo_login))) =
      (case CreateAccessToken demo_jwt demo_manager (demo_identity_env 300 '''') (us_ID user) (us_TenantID user) (us_Email user) (us_Roles user) of
         Inl err \<Rightarrow> Inl err
       | Inr access \<Rightarrow> Inr \<lparr>tp_AccessToken = access, tp_RefreshToken = '''', tp_TokenType = ''Bearer'',
           tp_ExpiresIn = trunc_int (seconds_of (tm_ttl demo_manager))\<rparr>)"
    by (rule session_refreshes [OF demo_identity_ok l]) (simp_all add: demo_identity_env_def)
  moreover have "\<not> iv_fault (demo_identity_env 300 '''') Signing" by (simp add: demo_identity_env_def)
  ultimately show ?thesis using created [of "demo_identity_env 300 ''''"] by (auto split: sum.splits) (metis Inl_Inr_False)
qed


lemma exponent_roundtrip_witness:
  "big_endian_value (bigEndianExponent 65537) = 65537 \<and> bigEndianExponent 65537 = [1, 0, 1]"
proof
  show "big_endian_value (bigEndianExponent 65537) = 65537" using exponent_roundtrip [of 65537] by simp
  show "bigEndianExponent 65537 = [1, 0, 1]" by code_simp
qed

end
