(* ===== verification/TradeFlow.thy ===== *)
theory TradeFlow
  imports OrderOutbox OrderService PortfolioFacts
begin

text \<open>
  From a match to the accounts. The order service records an execution and, in the same transaction, the
  \<open>trade.executed\<close> event of its outbox; the publisher sends the event as JSON; the portfolio service reads it
  and settles the trade. This theory has the JSON of \<open>domain.OrderEvent\<close> (\<open>internal/domain/event.go\<close> of the
  order service) and composes the two services: each execution has one event, the portfolio service reads it as
  that execution, and nothing else is ever settled. The text of a time is a parameter, as is its parsing.
\<close>

subsection \<open>The JSON of an event\<close>

text \<open>A field under \<open>omitempty\<close> is left out when it holds the zero value of its type.\<close>

definition omit_str :: "string \<Rightarrow> json option" where
  "omit_str v = (if v = '''' then None else Some (JStr v))"

definition omit_num :: "rat \<Rightarrow> json option" where
  "omit_num v = (if v = 0 then None else Some (JNum v))"

definition event_slots :: "(time \<Rightarrow> string) \<Rightarrow> OrderEvent \<Rightarrow> (string \<times> json option) list" where
  "event_slots time_text e = [
     (''eventId'', Some (JStr (e_EventID e))),
     (''eventType'', Some (JStr (e_EventType e))),
     (''eventVersion'', omit_str (e_EventVersion e)),
     (''tenantId'', Some (JStr (e_TenantID e))),
     (''orderId'', Some (JStr (e_OrderID e))),
     (''userId'', Some (JStr (e_UserID e))),
     (''symbol'', Some (JStr (e_Symbol e))),
     (''side'', Some (JStr (e_Side e))),
     (''orderType'', Some (JStr (e_OrderType e))),
     (''originalOrderType'', omit_str (e_OriginalOrderType e)),
     (''activatedOrderType'', omit_str (e_ActivatedOrderType e)),
     (''timeInForce'', omit_str (e_TimeInForce e)),
     (''quantity'', Some (JNum (e_Quantity e))),
     (''filledQuantity'', omit_num (e_FilledQuantity e)),
     (''remainingQuantity'', omit_num (e_RemainingQuantity e)),
     (''executionQuantity'', omit_num (e_ExecutionQuantity e)),
     (''executionPrice'', map_option JNum (e_ExecutionPrice e)),
     (''executionId'', omit_str (e_ExecutionID e)),
     (''buyerUserId'', omit_str (e_BuyerUserID e)),
     (''sellerUserId'', omit_str (e_SellerUserID e)),
     (''currency'', omit_str (e_Currency e)),
     (''source'', omit_str (e_Source e)),
     (''estimatedPrice'', map_option JNum (e_EstimatedPrice e)),
     (''estimatedNotional'', map_option JNum (e_EstimatedNotional e)),
     (''decisionId'', omit_str (e_DecisionID e)),
     (''reasonCode'', omit_str (e_ReasonCode e)),
     (''reasonMessage'', omit_str (e_ReasonMessage e)),
     (''policyVersion'', omit_str (e_PolicyVersion e)),
     (''evaluatedAt'', map_option (JStr \<circ> time_text) (e_EvaluatedAt e)),
     (''averageFillPrice'', map_option JNum (e_AverageFillPrice e)),
     (''status'', Some (JStr (case e_Status e of None \<Rightarrow> '''' | Some st \<Rightarrow> status_name st))),
     (''version'', omit_num (of_int (e_Version e))),
     (''expiresAt'', map_option (JStr \<circ> time_text) (e_ExpiresAt e)),
     (''expiredAt'', map_option (JStr \<circ> time_text) (e_ExpiredAt e)),
     (''expiryReason'', omit_str (e_ExpiryReason e)),
     (''stopPrice'', map_option JNum (e_StopPrice e)),
     (''referencePrice'', map_option JNum (e_ReferencePrice e)),
     (''triggeredAt'', map_option (JStr \<circ> time_text) (e_TriggeredAt e)),
     (''buyOrderId'', omit_str (e_BuyOrderID e)),
     (''sellOrderId'', omit_str (e_SellOrderID e)),
     (''fillPrice'', Some (case e_FillPrice e of None \<Rightarrow> JNull | Some p \<Rightarrow> JNum p)),
     (''occurredAt'', Some (JStr (time_text (e_OccurredAt e)))),
     (''correlationId'', Some (JStr (e_CorrelationID e))),
     (''traceparent'', omit_str (e_TraceParent e)),
     (''traceId'', omit_str (e_TraceID e)),
     (''spanId'', omit_str (e_SpanID e))]"

fun present :: "(string \<times> json option) list \<Rightarrow> (string \<times> json) list" where
  "present [] = []"
| "present ((key, None) # slots) = present slots"
| "present ((key, Some v) # slots) = (key, v) # present slots"

definition order_event_members :: "(time \<Rightarrow> string) \<Rightarrow> OrderEvent \<Rightarrow> (string \<times> json) list" where
  "order_event_members time_text e = present (event_slots time_text e)"

text \<open>The message carries the payload column, JSONB, which keeps the members in an order of its own.\<close>

definition event_payload :: "(time \<Rightarrow> string) \<Rightarrow> OrderEvent \<Rightarrow> json \<Rightarrow> bool" where
  "event_payload time_text e payload \<longleftrightarrow>
     (case payload of JObj raw \<Rightarrow> mset raw = mset (order_event_members time_text e) | _ \<Rightarrow> False)"

subsection \<open>Reading it\<close>

lemma filter_mset_eq: "mset raw = mset xs \<Longrightarrow> filter P xs = [] \<or> (\<exists>x. filter P xs = [x]) \<Longrightarrow> filter P raw = filter P xs"
proof -
  assume "mset raw = mset xs"
  then have "mset (filter P raw) = mset (filter P xs)" by (simp only: mset_filter)
  moreover assume "filter P xs = [] \<or> (\<exists>x. filter P xs = [x])"
  ultimately show ?thesis by (metis mset_zero_iff mset_single_iff_right mset.simps)
qed

lemma present_none: "to_upper key \<notin> set (map (to_upper \<circ> fst) slots) \<Longrightarrow>
    filter (\<lambda>m. to_upper (fst m) = to_upper key) (present slots) = []"
  by (induction slots rule: present.induct) auto

lemma present_slot: "distinct (map (to_upper \<circ> fst) slots) \<Longrightarrow> (key, slot) \<in> set slots \<Longrightarrow>
    filter (\<lambda>m. to_upper (fst m) = to_upper key) (present slots) = (case slot of None \<Rightarrow> [] | Some v \<Rightarrow> [(key, v)])"
proof (induction slots rule: present.induct)
  case (2 k slots)
  show ?case
  proof (cases "(key, slot) = (k, None)")
    case True
    then show ?thesis using 2 present_none [of k slots] by simp
  next
    case False
    then show ?thesis using 2 by auto
  qed
next
  case (3 k v slots)
  show ?case
  proof (cases "(key, slot) = (k, Some v)")
    case True
    then show ?thesis using 3 present_none [of k slots] by simp
  next
    case False
    then have m: "(key, slot) \<in> set slots" using 3 by auto
    then have "to_upper key \<in> set (map (to_upper \<circ> fst) slots)" by force
    moreover have "to_upper k \<notin> set (map (to_upper \<circ> fst) slots)" using 3(2) by simp
    ultimately have "to_upper k \<noteq> to_upper key" by metis
    then show ?thesis using 3 m by simp
  qed
qed simp

text \<open>What \<open>decode_field\<close> and \<open>decode_pointer\<close> read under the key of a slot.\<close>

definition slot_value :: "(json \<Rightarrow> 'a option) \<Rightarrow> 'a \<Rightarrow> json option \<Rightarrow> 'a option" where
  "slot_value conv zero slot = (case slot of None \<Rightarrow> Some zero | Some v \<Rightarrow> if v = JNull then Some zero else conv v)"

lemma decode_slot:
  assumes "mset raw = mset (present slots)" "distinct (map (to_upper \<circ> fst) slots)" "(key, slot) \<in> set slots"
  shows "decode_field conv zero raw key = slot_value conv zero slot"
    and "decode_pointer conv raw key = (case slot of None \<Rightarrow> Some None
      | Some v \<Rightarrow> if v = JNull then Some None else map_option Some (conv v))"
proof -
  let ?key = "\<lambda>m. to_upper (fst m) = to_upper key"
  note p = present_slot [OF assms(2,3)]
  have f: "filter ?key raw = (case slot of None \<Rightarrow> [] | Some v \<Rightarrow> [(key, v)])"
    using filter_mset_eq [OF assms(1), of ?key] p by (cases slot) simp_all
  have "filter (\<lambda>m. ?key m \<and> snd m \<noteq> JNull) raw = filter (\<lambda>m. snd m \<noteq> JNull) (filter ?key raw)"
    by (simp add: conj_commute)
  then show "decode_field conv zero raw key = slot_value conv zero slot"
    unfolding decode_field_def f slot_value_def Let_def by (cases slot) auto
  show "decode_pointer conv raw key = (case slot of None \<Rightarrow> Some None
      | Some v \<Rightarrow> if v = JNull then Some None else map_option Some (conv v))"
    unfolding decode_pointer_def f Let_def by (cases slot) auto
qed

lemma decode_absent:
  assumes "mset raw = mset (present slots)" "to_upper key \<notin> set (map (to_upper \<circ> fst) slots)"
  shows "decode_field conv zero raw key = Some zero"
proof -
  have "filter (\<lambda>m. to_upper (fst m) = to_upper key) raw = []"
    using filter_mset_eq [OF assms(1), of "\<lambda>m. to_upper (fst m) = to_upper key"] present_none [OF assms(2)] by simp
  then have "filter (\<lambda>m. to_upper (fst m) = to_upper key \<and> snd m \<noteq> JNull) raw = []" by (auto simp: filter_empty_conv)
  then show ?thesis by (simp add: decode_field_def)
qed

definition event_keys :: "string list" where
  "event_keys = map fst (event_slots (\<lambda>_. '''') empty_event)"

lemma event_keys: "map (to_upper \<circ> fst) (event_slots tx e) = map to_upper event_keys"
  by (simp add: event_keys_def event_slots_def)

lemma distinct_event_keys: "distinct (map to_upper event_keys)" by code_simp

lemma slot_values [simp]:
  "slot_value json_string '''' (Some (JStr s)) = Some s"
  "slot_value json_string '''' (omit_str s) = Some s"
  "slot_value json_float 0 (omit_num q) = Some q" "slot_value json_float 0 (Some (JNum q)) = Some q"
  "slot_value json_float 0 (map_option JNum p) = Some (coalesce p 0)"
  "slot_value (json_time rfc) z (Some (JStr s)) = rfc s"
  by (auto simp: slot_value_def omit_str_def omit_num_def json_string_def json_float_def json_time_def split: option.split)

text \<open>The event as the portfolio service's struct.\<close>

definition trade_message :: "OrderEvent \<Rightarrow> TradeExecutedEvent" where
  "trade_message e = \<lparr>te_EventID = e_EventID e, te_EventType = e_EventType e, te_EventVersion = e_EventVersion e,
     te_TenantID = e_TenantID e, te_CorrelationID = e_CorrelationID e, te_TraceParent = e_TraceParent e,
     te_OccurredAt = e_OccurredAt e, te_ExecutionID = e_ExecutionID e, te_TradeID = '''',
     te_BuyOrderID = e_BuyOrderID e, te_SellOrderID = e_SellOrderID e, te_BuyerUserID = e_BuyerUserID e,
     te_SellerUserID = e_SellerUserID e, te_Symbol = e_Symbol e, te_ExecutionQuantity = e_ExecutionQuantity e,
     te_ExecutionPrice = coalesce (e_ExecutionPrice e) 0, te_Currency = e_Currency e, te_Source = e_Source e\<rparr>"

lemma trade_message_decoded:
  assumes "event_payload tx e payload" "rfc3339 (tx (e_OccurredAt e)) = Some (e_OccurredAt e)"
  shows "decodeTradeExecuted rfc3339 (Some payload) = Some (trade_message e)"
    and "\<exists>old. decodeOrderFilled rfc3339 (Some payload) = Some old \<and> of_EventType old = e_EventType e"
proof -
  obtain raw where raw: "payload = JObj raw" "mset raw = mset (present (event_slots tx e))"
    using assms(1) by (auto simp: event_payload_def order_event_members_def split: json.splits)
  have dist: "distinct (map (to_upper \<circ> fst) (event_slots tx e))"
    unfolding event_keys by (rule distinct_event_keys)
  note d = decode_slot [OF raw(2) dist]
  have t: "to_upper ''tradeId'' \<notin> set (map (to_upper \<circ> fst) (event_slots tx e))"
    unfolding event_keys by code_simp
  have str: "decode_field json_string '''' raw k = Some v"
    if "(k, Some (JStr v)) \<in> set (event_slots tx e) \<or> (k, omit_str v) \<in> set (event_slots tx e)" for k v
    using that d(1) [where conv = json_string and zero = "''''"] by auto
  have num: "decode_field json_float 0 raw ''executionQuantity'' = Some (e_ExecutionQuantity e)"
    "decode_field json_float 0 raw ''executionPrice'' = Some (coalesce (e_ExecutionPrice e) 0)"
    "decode_field json_float 0 raw ''quantity'' = Some (e_Quantity e)"
    by (subst d(1), simp add: event_slots_def, simp)+
  have tm: "decode_field (json_time rfc3339) zero_time raw ''occurredAt'' = Some (e_OccurredAt e)"
    by (subst d(1), simp add: event_slots_def, simp add: assms(2))
  have fp: "decode_pointer json_float raw ''fillPrice'' = Some (e_FillPrice e)"
    by (subst d(2), simp add: event_slots_def, simp add: json_float_def split: option.split)
  have tr: "decode_field json_string '''' raw ''tradeId'' = Some ''''" by (rule decode_absent [OF raw(2) t])
  have s: "decode_field json_string '''' raw ''eventId'' = Some (e_EventID e)"
    "decode_field json_string '''' raw ''eventType'' = Some (e_EventType e)"
    "decode_field json_string '''' raw ''eventVersion'' = Some (e_EventVersion e)"
    "decode_field json_string '''' raw ''tenantId'' = Some (e_TenantID e)"
    "decode_field json_string '''' raw ''correlationId'' = Some (e_CorrelationID e)"
    "decode_field json_string '''' raw ''traceparent'' = Some (e_TraceParent e)"
    "decode_field json_string '''' raw ''executionId'' = Some (e_ExecutionID e)"
    "decode_field json_string '''' raw ''buyOrderId'' = Some (e_BuyOrderID e)"
    "decode_field json_string '''' raw ''sellOrderId'' = Some (e_SellOrderID e)"
    "decode_field json_string '''' raw ''buyerUserId'' = Some (e_BuyerUserID e)"
    "decode_field json_string '''' raw ''sellerUserId'' = Some (e_SellerUserID e)"
    "decode_field json_string '''' raw ''symbol'' = Some (e_Symbol e)"
    "decode_field json_string '''' raw ''currency'' = Some (e_Currency e)"
    "decode_field json_string '''' raw ''source'' = Some (e_Source e)"
    "decode_field json_string '''' raw ''orderId'' = Some (e_OrderID e)"
    "decode_field json_string '''' raw ''userId'' = Some (e_UserID e)"
    "decode_field json_string '''' raw ''side'' = Some (e_Side e)"
    "decode_field json_string '''' raw ''orderType'' = Some (e_OrderType e)"
    by (rule str, simp add: event_slots_def)+
  have st: "\<exists>v. decode_field json_string '''' raw ''status'' = Some v"
    by (rule exI, rule str, rule disjI1) (simp add: event_slots_def)
  show "decodeTradeExecuted rfc3339 (Some payload) = Some (trade_message e)"
    by (simp add: decodeTradeExecuted_def json_members_def raw(1) s num tm tr trade_message_def Let_def)
  show "\<exists>old. decodeOrderFilled rfc3339 (Some payload) = Some old \<and> of_EventType old = e_EventType e"
    using st by (auto simp: decodeOrderFilled_def json_members_def raw(1) s num tm fp Let_def)
qed

subsection \<open>One event per execution\<close>

text \<open>The event that reports an execution of the table: the same trade, with the quantity and the price as
  float64 where the columns have ten decimals.\<close>

definition announces :: "execution_row \<Rightarrow> OrderEvent \<Rightarrow> bool" where
  "announces x e \<longleftrightarrow> e_EventType e = ''trade.executed'' \<and> e_EventVersion e = ''1.0'' \<and>
     e_TenantID e = er_tenant_id x \<and> e_CorrelationID e = er_correlation_id x \<and> e_ExecutionID e = er_id x \<and>
     e_BuyOrderID e = er_buy_order_id x \<and> e_SellOrderID e = er_sell_order_id x \<and>
     e_BuyerUserID e = er_buyer_user_id x \<and> e_SellerUserID e = er_seller_user_id x \<and>
     e_Symbol e = er_symbol x \<and> e_Currency e = ''USD'' \<and> er_buy_order_id x \<noteq> er_sell_order_id x \<and>
     0 < er_quantity x \<and> 0 < er_price x \<and>
     (\<exists>q p. er_quantity x = RatString q \<and> e_ExecutionQuantity e = ratFloat q \<and>
        er_price x = RatString p \<and> e_ExecutionPrice e = Some (ratFloat p))"

definition is_trade :: "OrderEvent \<Rightarrow> bool" where
  "is_trade e \<longleftrightarrow> e_EventType e = ''trade.executed''"

lemma announces_ids [simp]:
  "announces x (with_order_id order e) = announces x e" "announces x (with_user_id order e) = announces x e"
  "is_trade (with_order_id order e) = is_trade e" "is_trade (with_user_id order e) = is_trade e"
  by (simp_all add: announces_def is_trade_def with_order_id_def with_user_id_def)

lemma announced_trades: "list_all2 announces rows evs \<Longrightarrow> filter is_trade evs = evs"
  by (induction rule: list_all2_induct) (auto simp: announces_def is_trade_def)

lemma match_loop_made:
  "match_loop now cs inc = (i, ms, xs) \<Longrightarrow> x \<in> set xs \<Longrightarrow> \<exists>c\<in>set cs. \<exists>q p. x = make_execution inc c q p now"
proof (induction now cs inc arbitrary: i ms xs rule: match_loop.induct)
  case (2 now maker candidates incoming)
  let ?q = "minRat (m_RemainingQuantity incoming) (m_RemainingQuantity maker)"
  consider "xs = []" | "match_loop now candidates incoming = (i, ms, xs)" "m_LimitPrice maker = None"
      "m_RemainingQuantity incoming \<noteq> 0" "crosses incoming maker"
    | p where "match_loop now candidates incoming = (i, ms, xs)" "m_LimitPrice maker = Some p" "?q = 0"
      "m_RemainingQuantity incoming \<noteq> 0" "crosses incoming maker"
    | p ms' xs' where "match_loop now candidates (fill_order ?q incoming) = (i, ms', xs')" "m_LimitPrice maker = Some p"
      "?q \<noteq> 0" "xs = make_execution incoming maker ?q p now # xs'" "m_RemainingQuantity incoming \<noteq> 0" "crosses incoming maker"
    using "2.prems"(1) by (auto simp: Let_def split: if_splits option.splits prod.splits)
  then show ?case
  proof cases
    case 1
    then show ?thesis using "2.prems"(2) by simp
  next
    case 2
    then show ?thesis using "2.IH"(1) [OF 2(3) _ refl 2(2,1)] "2.prems"(2) by auto
  next
    case (3 p)
    then show ?thesis using "2.IH"(2) [OF 3(4) _ refl 3(2) 3(3,1)] "2.prems"(2) by auto
  next
    case (4 p ms' xs')
    show ?thesis
    proof (cases "x \<in> set xs'")
      case True
      then show ?thesis using "2.IH"(3) [OF 4(5) _ refl 4(2,3,1)] 4(6) by auto
    next
      case False
      then have "x = make_execution incoming maker ?q p now" using "2.prems"(2) 4(4) by simp
      then show ?thesis by auto
    qed
  qed
qed simp

lemma Match_made:
  assumes "Match inc resting now = Some r" "x \<in> set (r_Executions r)"
  shows "\<exists>c\<in>set resting. \<exists>q p. x = make_execution inc c q p now"
  using assms(1)
proof (cases rule: Match_cases)
  case killed
  then show ?thesis using assms(2) by simp
next
  case (matched inc' ms xs)
  then show ?thesis using match_loop_made [OF matched(3), of x] assms(2) by (auto simp: set_candidates_of)
qed

lemma insert_executions_announced:
  assumes "insert_executions now order xs d = Inr (evs, d')"
    and "\<And>x. x \<in> set xs \<Longrightarrow> x_Symbol x = o_Symbol order \<and> x_BuyOrderID x \<noteq> x_SellOrderID x"
  shows "\<exists>rows. order_executions d' = order_executions d @ rows \<and> list_all2 announces rows evs \<and>
    (distinct (map er_id (order_executions d)) \<longrightarrow> distinct (map er_id (order_executions d')))"
  using assms
proof (induction xs arbitrary: d evs d')
  case Nil
  then show ?case by simp
next
  case (Cons x xs)
  define x1 where "x1 = (if x_ID x = [] then x\<lparr>x_ID := new_id d\<rparr> else x)"
  let ?row = "execution_row_of (o_TenantID order) (o_CorrelationID order) x1"
  from Cons.prems(1) obtain d1 evs' where
    ins: "insertExecution (o_TenantID order) (o_CorrelationID order) x1 (use_id d) = Inr d1" and
    rest: "insert_executions now order xs (use_id d1) = Inr (evs', d')" and
    evs: "evs = tradeExecutedEvent (new_id d1) now order x1 # evs'"
    by (auto simp: and_then_Inr Let_def x1_def)
  have d1: "d1 = (use_id d)\<lparr>order_executions := order_executions d @ [?row]\<rparr>"
    and ok: "0 < er_quantity ?row" "0 < er_price ?row" "er_id ?row \<notin> er_id ` set (order_executions d)"
    using ins by (auto simp: insertExecution_def Let_def split: if_splits)
  have x1: "x_Symbol x1 = o_Symbol order" "x_BuyOrderID x1 \<noteq> x_SellOrderID x1"
    using Cons.prems(2) [of x] by (auto simp: x1_def)
  have "announces ?row (tradeExecutedEvent (new_id d1) now order x1)"
    using ok x1 by (auto simp: announces_def tradeExecutedEvent_def newRepositoryEvent_def execution_row_of_def)
  moreover obtain rows where "order_executions d' = (order_executions d @ [?row]) @ rows" "list_all2 announces rows evs'"
    "distinct (map er_id (order_executions d @ [?row])) \<longrightarrow> distinct (map er_id (order_executions d'))"
    using Cons.IH [OF rest] Cons.prems(2) by (auto simp: d1)
  ultimately show ?case using ok(3) evs by (intro exI [of _ "?row # rows"]) auto
qed

lemma lifecycle_no_trade [simp]: "filter is_trade (lifecycleEvents i now order) = []"
  by (simp add: lifecycleEvents_def is_trade_def split: order_status.split)

lemma load_changed_no_trade: "load_changed now T ms d = Inr (os, evs, d') \<Longrightarrow> filter is_trade evs = []"
  by (induction ms arbitrary: d os evs d')
    (auto simp: and_then_Inr Let_def fillEventForTransition_def is_trade_def empty_event_def)

lemma compact_trades [simp]: "filter is_trade (compactEvents evs) = filter is_trade evs"
  by (induction evs) (auto simp: compactEvents_def is_trade_def)

lemma matched_announced:
  assumes m: "matchAcceptedOrder now order d = Inr (order', evs, d')"
    and ids: "distinct (map t_id (orders d))"
    and own: "find_order (o_TenantID order) (o_ID order) d = Some r0" "o_Side order = t_side r0"
  shows "\<exists>rows. order_executions d' = order_executions d @ rows \<and> list_all2 announces rows (filter is_trade evs) \<and>
    (distinct (map er_id (order_executions d)) \<longrightarrow> distinct (map er_id (order_executions d')))"
proof -
  obtain r where r: "Match (FromDomain order) (loadRestingOrders d order) now = Some r"
    using m by (auto simp: matchAcceptedOrder_def split: option.splits)
  let ?o = "updateOrderLifecycleFromFill now (ApplyToDomain (r_Incoming r) order) (r_Incoming r) (r_Cancelled r)"
  obtain os evs1 d1 evs2 d2 d3 where
    l: "load_changed now (o_TenantID ?o) (r_Resting r) (use_id d) = Inr (os, evs1, d1)" and
    x: "insert_executions now ?o (r_Executions r) d1 = Inr (evs2, d2)" and
    p: "fold_steps (persistOrderState now) os d2 = Inr d3"
    using m r by (auto simp: matchAcceptedOrder_def Let_def and_then_Inr split: if_splits)
  have fin: "if r_Executions r \<noteq> [] \<or> r_Cancelled r
      then persistOrderState now ?o d3 = Inr d' \<and> evs = compactEvents (lifecycleEvents (new_id d) now ?o @ evs1 @ evs2)
      else d' = d3 \<and> evs = compactEvents (if r_Rested r then [] else lifecycleEvents (new_id d) now ?o @ evs1 @ evs2)"
    using m r l x p by (auto simp: matchAcceptedOrder_def Let_def and_then_Inr split: if_splits)
  have sym: "o_Symbol ?o = o_Symbol order"
    by (simp add: updateOrderLifecycleFromFill_def ApplyToDomain_def Let_def)
  have r0: "r0 \<in> set (orders d)" "t_id r0 = o_ID order"
    using own(1) find_by_Some [of t_id "o_ID order" "orders d" r0] by (auto simp: find_order_iff)
  have made: "x_Symbol y = o_Symbol ?o \<and> x_BuyOrderID y \<noteq> x_SellOrderID y" if y: "y \<in> set (r_Executions r)" for y
  proof -
    obtain c q p where c: "c \<in> set (loadRestingOrders d order)" "y = make_execution (FromDomain order) c q p now"
      using Match_made [OF r y] by blast
    obtain row where row: "row \<in> set (orders d)" "c = FromDomain (scan_order row)" "t_side row \<noteq> o_Side order"
      using c(1) by (auto simp: loadRestingOrders_def)
    have "t_id row \<noteq> o_ID order"
      using row(1,3) r0 own(2) ids by (metis distinct_map inj_onD)
    then show ?thesis unfolding sym c(2) row(2) by (simp add: make_execution_def FromDomain_def)
  qed
  have ex: "order_executions d1 = order_executions d" using load_changed_frame [OF l] by simp
  obtain rows where rows: "order_executions d2 = order_executions d @ rows" "list_all2 announces rows evs2"
    "distinct (map er_id (order_executions d)) \<longrightarrow> distinct (map er_id (order_executions d2))"
    using insert_executions_announced [OF x made] by (auto simp: ex)
  have tn: "\<forall>ch\<in>set os. o_TenantID ch = o_TenantID order" using load_changed_frame [OF l] by simp
  have "order_executions d3 = order_executions d2" using persist_all_frame [OF p tn] by simp
  moreover have "order_executions d' = order_executions d3"
    using fin persistOrderState_frame [of now ?o d3 d'] by (auto split: if_splits)
  moreover have "filter is_trade evs = evs2"
  proof -
    have none: "evs2 = []" if "r_Executions r = []" using x that by simp
    show ?thesis using fin none load_changed_no_trade [OF l] announced_trades [OF rows(2)] by (auto split: if_splits)
  qed
  ultimately show ?thesis using rows by auto
qed

subsection \<open>The transactions of the order service\<close>

text \<open>What a transaction adds: executions, and the events that announce them.\<close>

definition trade_effect :: "db \<Rightarrow> db \<Rightarrow> bool" where
  "trade_effect d d' \<longleftrightarrow> distinct (map t_id (orders d')) \<and>
     (distinct (map er_id (order_executions d)) \<longrightarrow> distinct (map er_id (order_executions d'))) \<and>
     (\<exists>rows evs. order_executions d' = order_executions d @ rows \<and> records d d' evs \<and>
        list_all2 announces rows (filter is_trade evs))"

lemma trade_effect_quiet:
  assumes "distinct (map t_id (orders d))" "map t_id (orders d') = map t_id (orders d)"
    and "order_executions d' = order_executions d" "records d d' evs" "filter is_trade evs = []"
  shows "trade_effect d d'"
  unfolding trade_effect_def using assms by auto

lemma trade_effect_refl: "distinct (map t_id (orders d)) \<Longrightarrow> trade_effect d d"
  by (rule trade_effect_quiet [where evs = "[]"]) (simp_all add: records_def)

lemma trade_effect_ids: "trade_effect d d' \<Longrightarrow> distinct (map t_id (orders d'))"
  by (simp add: trade_effect_def)

lemma trade_effect_trans:
  assumes "trade_effect a b" "trade_effect b c" shows "trade_effect a c"
proof -
  obtain r1 e1 r2 e2 where "order_executions b = order_executions a @ r1" "records a b e1"
    "list_all2 announces r1 (filter is_trade e1)" "order_executions c = order_executions b @ r2" "records b c e2"
    "list_all2 announces r2 (filter is_trade e2)" using assms by (auto simp: trade_effect_def)
  then have "order_executions c = order_executions a @ r1 @ r2 \<and> records a c (e1 @ e2) \<and>
      list_all2 announces (r1 @ r2) (filter is_trade (e1 @ e2))"
    by (auto intro: records_trans list_all2_appendI)
  then show ?thesis using assms unfolding trade_effect_def by blast
qed

lemma trade_effect_same:
  "distinct (map t_id (orders d)) \<Longrightarrow> orders d' = orders d \<Longrightarrow> order_executions d' = order_executions d \<Longrightarrow>
   order_events d' = order_events d \<Longrightarrow> order_outbox d' = order_outbox d \<Longrightarrow> trade_effect d d'"
  by (rule trade_effect_quiet [where evs = "[]"]) (simp_all add: records_none)

lemma filter_is_trade_map [simp]:
  "filter is_trade (map (with_order_id order) evs) = map (with_order_id order) (filter is_trade evs)"
  "filter is_trade (map (\<lambda>e. with_user_id order (with_order_id order e)) evs) =
     map (\<lambda>e. with_user_id order (with_order_id order e)) (filter is_trade evs)"
  by (simp_all add: filter_map comp_def)

lemma announced_map:
  "list_all2 announces rows evs \<Longrightarrow> list_all2 announces rows (map (with_order_id order) evs)"
  "list_all2 announces rows evs \<Longrightarrow> list_all2 announces rows (map (\<lambda>e. with_user_id order (with_order_id order e)) evs)"
  by (simp_all add: list_all2_map2)

text \<open>A match whose events are recorded with others that are no trades.\<close>

lemma trade_effect_match:
  assumes m: "matchAcceptedOrder now order d = Inr (order', mevs, d2)" and ids: "distinct (map t_id (orders d))"
    and own: "find_order (o_TenantID order) (o_ID order) d = Some r0" "o_Side order = t_side r0"
    and e: "record_events now evs d2 = Inr d'" "filter is_trade evs = map f (filter is_trade mevs)"
    and f: "\<And>x e. announces x (f e) = announces x e"
  shows "trade_effect d d'"
proof -
  obtain rows where rows: "order_executions d2 = order_executions d @ rows" "list_all2 announces rows (filter is_trade mevs)"
    "distinct (map er_id (order_executions d)) \<longrightarrow> distinct (map er_id (order_executions d2))"
    using matched_announced [OF m ids own] by blast
  note fm = matchAcceptedOrder_frame [OF m] and re = record_events_Inr [OF e(1)]
  have "map t_id (orders d2) = map t_id (orders d)" using fm rows_only_ids by blast
  moreover have "records d d' evs" using records_intro [OF _ e(1)] fm by blast
  moreover have "list_all2 announces rows (filter is_trade evs)"
    unfolding e(2) list_all2_map2 using rows(2) by (simp add: f)
  ultimately show ?thesis using rows(1,3) ids re unfolding trade_effect_def tables_but_logs_def by auto
qed

lemma trade_effect_create:
  assumes c: "CreateOrder now od evs key hash d = Inr (od', evs', d')" and ids: "distinct (map t_id (orders d))"
    and quiet: "filter is_trade evs = []"
  shows "trade_effect d d'"
proof -
  obtain order1 d1 d2 d3 mevs where
    i: "insert_order now od d = Inr (order1, d1)" and
    m: "if o_Status od = StatusAccepted then matchAcceptedOrder now order1 d1 = Inr (od', mevs, d2)
     else od' = order1 \<and> d2 = d1 \<and> mevs = []" and
    e: "evs' = map (with_order_id od') (evs @ mevs)" "record_events now evs' d2 = Inr d3" and
    k: "insert_idempotency \<lparr>ir_TenantID = o_TenantID od', ir_UserID = o_UserID od', ir_Key = key,
       ir_RequestHash = hash, ir_OrderID = o_ID od', ir_CreatedAt = now\<rparr> d3 = Inr d'"
    by (rule CreateOrder_Inr [OF c])
  note i1 = insert_order_Inr [OF i]
  have new: "new_id d \<notin> t_id ` set (orders d)" using i by (auto simp: insert_order_def Let_def order_row_of_def split: if_splits)
  then have ids1: "distinct (map t_id (orders d1))" using ids by (simp add: i1(2))
  have q: "filter is_trade evs' = map (with_order_id od') (filter is_trade mevs)" unfolding e(1) using quiet by simp
  have "trade_effect d1 d3"
  proof (cases "o_Status od = StatusAccepted")
    case True
    have "find_by t_id (new_id d) (orders d1) = Some (order_row_of (new_id d) now od)"
      using new by (simp add: i1(2) find_by_append sql_simps find_by_None_iff [THEN iffD2] split: option.split)
    then have own: "find_order (o_TenantID order1) (o_ID order1) d1 = Some (order_row_of (new_id d) now od)"
      by (simp add: i1(1) find_order_iff row_tenant_def order_row_of_def)
    have side: "o_Side order1 = t_side (order_row_of (new_id d) now od)" by (simp add: i1(1) order_row_of_def)
    have "matchAcceptedOrder now order1 d1 = Inr (od', mevs, d2)" using m True by simp
    then show ?thesis by (rule trade_effect_match [OF _ ids1 own side e(2) q]) simp
  next
    case False
    then have "d2 = d1" "mevs = []" using m by auto
    then show ?thesis using record_events_Inr [OF e(2)] records_intro [OF same_logs_refl e(2)] q ids1
      by (intro trade_effect_quiet [where evs = evs']) (simp_all add: tables_but_logs_def)
  qed
  moreover have "order_executions d1 = order_executions d" "order_events d1 = order_events d" "order_outbox d1 = order_outbox d"
    by (simp_all add: i1(2) use_id_def)
  moreover have "orders d' = orders d3" "order_executions d' = order_executions d3" "order_events d' = order_events d3"
    "order_outbox d' = order_outbox d3"
    using k by (auto simp: insert_idempotency_def split: if_splits)
  ultimately show ?thesis by (simp add: trade_effect_def records_def outbox_in_step_def)
qed

lemma trade_effect_decide:
  assumes a: "ApplyRiskDecision clock T i dec approved rejected d = Inr (order, evs, d')"
    and ids: "distinct (map t_id (orders d))" and quiet: "filter is_trade approved = []" "\<not> is_trade rejected"
  shows "trade_effect d d'"
  using a
proof (cases rule: ApplyRiskDecision_cases)
  case decided_before
  then show ?thesis using trade_effect_refl [OF ids] by simp
next
  case (approved r order2 d1 d2 d3 mevs)
  obtain rows where rows: "d1 = d\<lparr>order_risk_decisions := order_risk_decisions d @ rows\<rparr>"
    using insertRiskDecision_Inr approved(4) by blast
  have key: "t_id (set_risk_state clock order2 r) = t_id r" "row_tenant (set_risk_state clock order2 r) = row_tenant r"
    "t_side (set_risk_state clock order2 r) = t_side r" for r
    using risk_state_identity(1) [of r clock order2] by (simp_all add: same_identity_def same_identity_tenant)
  have o2: "o_ID order2 = i" "o_TenantID order2 = T" "o_Side order2 = t_side r"
    using find_by_Some [OF approved(1)] approved(2) by (simp_all add: approved(6) approve_order_def decided_def Let_def scan_order_def)
  have d2: "d2 = d1\<lparr>orders := upd_where (own_row order2) (set_risk_state clock order2) (orders d1)\<rparr>"
    using approved(7) by (simp add: update_orders_Inr)
  have ids2: "distinct (map t_id (orders d2))" "map t_id (orders d2) = map t_id (orders d)"
    using ids by (simp_all add: d2 rows map_upd_where key)
  have f: "find_by t_id i (orders d2) = Some (if own_row order2 r then set_risk_state clock order2 r else r)"
    using approved(1) by (simp add: d2 rows find_by_upd_where key)
  have own: "find_order (o_TenantID order2) (o_ID order2) d2 = Some (if own_row order2 r then set_risk_state clock order2 r else r)"
    using f approved(2) by (simp add: find_order_iff o2 key)
  have "trade_effect d2 d'"
    by (rule trade_effect_match [OF approved(8) ids2(1) own _ approved(10),
          where f = "\<lambda>e. with_user_id order (with_order_id order e)"])
      (simp_all add: o2 key approved(9) quiet)
  moreover have "order_executions d2 = order_executions d" "order_events d2 = order_events d" "order_outbox d2 = order_outbox d"
    by (simp_all add: d2 rows)
  ultimately show ?thesis by (simp add: trade_effect_def records_def outbox_in_step_def)
next
  case (rejected r d1 d2)
  obtain rows where rows: "d1 = d\<lparr>order_risk_decisions := order_risk_decisions d @ rows\<rparr>"
    using insertRiskDecision_Inr rejected(4) by blast
  note e = ApplyRiskDecision_effect [OF a, unfolded tenant_effect_def]
  have ex: "order_executions d' = order_executions d"
    using rejected(7) record_events_Inr [OF rejected(9)] by (simp add: rows update_orders_Inr tables_but_logs_def)
  have "filter is_trade evs = []" using quiet by (simp add: rejected(8))
  then show ?thesis using e ex rows_only_ids [of T d d'] by (intro trade_effect_quiet [OF ids, where evs = evs]) auto
qed

lemma trade_effect_trigger_one:
  assumes t: "trigger_one now c (b, d) = Inr (b', d')" and ids: "distinct (map t_id (orders d))"
  shows "trade_effect d d'"
proof (cases "d' = d")
  case True
  then show ?thesis using trade_effect_refl [OF ids] by simp
next
  case False
  let ?ty = "ActivatedOrderType (tc_OriginalType c)"
  obtain order ev d1 where a: "activateLockedStopOrder c ?ty now d = Inr (order, ev, d1)"
    using t False by (auto simp: trigger_one_def split: if_splits sum.splits)
  then obtain mo mevs d2 evs where m: "matchAcceptedOrder now order d1 = Inr (mo, mevs, d2)"
    and evs: "evs = map (\<lambda>e. with_user_id mo (with_order_id mo e)) (ev # mevs)" and e: "record_events now evs d2 = Inr d'"
    using t False by (auto simp: trigger_one_def and_then_Inr Let_def split: if_splits)
  show ?thesis
  proof (rule activateLockedStopOrder_Inr [OF a])
    fix r
    assume r: "find_by t_id (tc_OrderID c) (orders d) = Some r" "activatable c r"
      "order = scan_order (activate_row now c ?ty r)"
      "orders d1 = upd_where (\<lambda>r. t_id r = tc_OrderID c \<and> activatable c r) (activate_row now c ?ty) (orders d)"
      "same_logs d d1" "order_executions d1 = order_executions d" "e_EventType ev = ''order.triggered''"
    have key: "t_id (activate_row now c ?ty r) = t_id r" for r by (simp add: activate_row_def)
    have ids1: "distinct (map t_id (orders d1))" using ids by (simp add: r(4) map_upd_where key)
    have f: "find_by t_id (tc_OrderID c) (orders d1) = Some (activate_row now c ?ty r)"
      unfolding r(4) by (rule find_by_updated(1) [where P = "activatable c", OF key r(1,2)])
    have own: "find_order (o_TenantID order) (o_ID order) d1 = Some (activate_row now c ?ty r)"
      using f find_by_Some [OF f] by (simp add: r(3) find_order_iff)
    have q: "filter is_trade evs = map (\<lambda>e. with_user_id mo (with_order_id mo e)) (filter is_trade mevs)"
      unfolding evs using r(7) by (simp add: is_trade_def [of ev])
    have "trade_effect d1 d'"
      by (rule trade_effect_match [OF m ids1 own _ e q]) (simp_all add: r(3) scan_order_def)
    then show "trade_effect d d'"
      using r(5,6) by (simp add: trade_effect_def records_def same_logs_def outbox_in_step_def)
  qed
qed

lemma trade_effect_steps:
  assumes "fold_steps f xs (b, d) = Inr (b', d')" "distinct (map t_id (orders d))"
    and "\<And>x b d b' d'. f x (b, d) = Inr (b', d') \<Longrightarrow> distinct (map t_id (orders d)) \<Longrightarrow> trade_effect d d'"
  shows "trade_effect d d'"
proof -
  have "trade_effect d (snd (b', d'))"
    using assms(1)
  proof (rule fold_steps_invariant [where I = "\<lambda>s. trade_effect d (snd s)", rotated 2])
    fix x s s'
    assume "trade_effect d (snd s)" "f x s = Inr s'"
    then show "trade_effect d (snd s')"
      using assms(3) [of x "fst s" "snd s" "fst s'" "snd s'"] trade_effect_ids trade_effect_trans by (metis prod.collapse)
  qed (use trade_effect_refl [OF assms(2)] in simp)
  then show ?thesis by simp
qed

lemma trade_effect_trigger:
  assumes "TriggerDueStopOrders limit age now d = Inr (b, d')" "distinct (map t_id (orders d))"
  shows "trade_effect d d'"
proof -
  obtain b0 cs where "fold_steps (trigger_one now) cs (b0, d) = Inr (b, d')"
    using assms(1) unfolding TriggerDueStopOrders_def Let_def by blast
  then show ?thesis using assms(2) trade_effect_trigger_one by (rule trade_effect_steps)
qed

lemma trade_effect_expire:
  assumes "ExpireDueBatch x limit now d = Inr (b, d')" "distinct (map t_id (orders d))"
  shows "trade_effect d d'"
proof -
  have one: "trade_effect d d'" if e: "expire_one x now due (b, d) = Inr (b', d')" and ids: "distinct (map t_id (orders d))"
    for due b d b' d'
  proof (cases "expireLockedOrder x now (du_ID due) d")
    case (Inl err)
    then show ?thesis using e trade_effect_refl [OF ids] by (auto simp: expire_one_def split: if_splits)
  next
    case (Inr od)
    obtain order d1 where od: "od = (order, d1)" by fastforce
    then have "d1 = d'" using e Inr by (simp add: expire_one_def)
    with Inr od have l: "expireLockedOrder x now (du_ID due) d = Inr (order, d')" by simp
    show ?thesis
    proof (rule expireLockedOrder_Inr [OF l])
      fix ev
      assume r: "records d d' [ev]" "e_EventType ev = ''order.expired''"
        "orders d' = upd_where (\<lambda>r. t_id r = du_ID due \<and> is_due now r) (expire_row x now) (orders d)"
        "order_executions d' = order_executions d"
      have "map t_id (orders d') = map t_id (orders d)" unfolding r(3) by (rule map_upd_where) (simp add: expire_row_def)
      then show "trade_effect d d'" by (rule trade_effect_quiet [OF ids _ r(4,1)]) (simp add: is_trade_def r(2))
    qed
  qed
  obtain b0 ds where "fold_steps (expire_one x now) ds (b0, d) = Inr (b, d')"
    using assms(1) unfolding ExpireDueBatch_def Let_def by blast
  then show ?thesis using assms(2) one by (rule trade_effect_steps)
qed

lemma trade_effect_cancel:
  assumes c: "CancelOrder now T i c ev d = Inr (order, d')" and ids: "distinct (map t_id (orders d))" and quiet: "\<not> is_trade ev"
  shows "trade_effect d d'"
proof (rule CancelOrder_Inr [OF c])
  assume r: "records d d' [ev\<lparr>e_OrderID := o_ID order, e_UserID := o_UserID order\<rparr>]"
    "orders d' = upd_where (\<lambda>r. t_id r = i \<and> is_live (t_status r) \<and> row_tenant r = T) (cancel_row now c) (orders d)"
    "order_executions d' = order_executions d"
  have "map t_id (orders d') = map t_id (orders d)" unfolding r(2) by (rule map_upd_where) (simp add: cancel_row_def)
  then show ?thesis by (rule trade_effect_quiet [OF ids _ r(3,1)]) (use quiet in \<open>simp add: is_trade_def\<close>)
qed

lemma trade_effect_amend:
  assumes a: "AmendOrder now T i req c d = Inr (order, d')" and ids: "distinct (map t_id (orders d))"
  shows "trade_effect d d'"
proof (rule AmendOrder_Inr [OF a])
  fix ev
  assume r: "records d d' [ev]" "e_EventType ev = ''order.amended''"
    "orders d' = upd_where (\<lambda>r. t_id r = i \<and> amendable T req r) (amend_row now req c) (orders d)"
    "order_executions d' = order_executions d"
  have "map t_id (orders d') = map t_id (orders d)" unfolding r(3) by (rule map_upd_where) (simp add: amend_row_def Let_def)
  then show ?thesis by (rule trade_effect_quiet [OF ids _ r(4,1)]) (simp add: is_trade_def r(2))
qed

subsection \<open>The service's calls\<close>

lemma drawn: "draw_event now order ty st c d = (ev, d1) \<Longrightarrow> d1 = use_id d \<and> e_EventType ev = ty"
  by (auto simp: draw_event_def makeEvent_def)

lemma trade_effect_draw:
  assumes "draw_event now order ty st c d = (ev, d1)" "distinct (map t_id (orders d))"
  shows "trade_effect d d1" "e_EventType ev = ty"
proof -
  show "trade_effect d d1" "e_EventType ev = ty"
    using drawn [OF assms(1)] trade_effect_same [OF assms(2), of d1] by (simp_all add: use_id_def)
qed

lemma trade_effect_persist:
  assumes p: "persistRiskDecision now order decision price notional err d = (res, e, d')" and ids: "distinct (map t_id (orders d))"
  shows "trade_effect d d'"
proof -
  obtain acc d1 where a: "draw_event now order ''order.accepted'' StatusAccepted (o_CorrelationID order) d = (acc, d1)" by fastforce
  note t1 = trade_effect_draw [OF a ids]
  define unavailable where "unavailable \<longleftrightarrow> pd_Decision decision = DecisionUnavailable \<or> pd_Decision decision = DecisionInvalidResponse"
  obtain rej d2 where r: "draw_event now order (if unavailable then ''order.risk_error'' else ''order.risk_rejected'')
      (if unavailable then StatusRiskError else StatusRiskRejected) (o_CorrelationID order) d1 = (rej, d2)" by fastforce
  note t2 = trade_effect_draw [OF r trade_effect_ids [OF t1(1)]]
  let ?rej = "rej\<lparr>e_DecisionID := pd_DecisionID decision, e_ReasonCode := pd_ReasonCode decision,
     e_ReasonMessage := pd_ReasonMessage decision, e_PolicyVersion := pd_PolicyVersion decision,
     e_EvaluatedAt := Some (pd_EvaluatedAt decision), e_EstimatedPrice := Some price,
     e_EstimatedNotional := Some notional, e_Source := ''order-service''\<rparr>"
  have quiet: "filter is_trade [acc] = []" "\<not> is_trade ?rej" using t1(2) t2(2) by (simp_all add: is_trade_def)
  have "d' = d2 \<or> (\<exists>dec finalized evs. ApplyRiskDecision now (o_TenantID order) (o_ID order) dec [acc] ?rej d2 = Inr (finalized, evs, d'))"
    using p a r unfolding persistRiskDecision_def Let_def unavailable_def [symmetric]
    by (auto simp del: split_paired_Ex split: sum.splits prod.splits)
  then have "trade_effect d2 d'"
    using trade_effect_decide [OF _ trade_effect_ids [OF t2(1)] quiet] trade_effect_refl [OF trade_effect_ids [OF t2(1)]] by blast
  then show ?thesis using t1(1) t2(1) trade_effect_trans by blast
qed

lemma trade_effect_evaluate:
  assumes e: "evaluateAndApplyRisk s now order d = (res, err, d')" and ids: "distinct (map t_id (orders d))"
  shows "trade_effect d d'"
proof -
  have u: "trade_effect d (use_id d)" "trade_effect d (use_id (use_id d))"
    by (rule trade_effect_same [OF ids]; simp add: use_id_def)+
  consider "d' = d" | dec p n w where "persistRiskDecision now order dec p n w (use_id d) = (res, err, d')"
    | dec p n w where "persistRiskDecision now order dec p n w (use_id (use_id d)) = (res, err, d')"
    using e by (auto simp: evaluateAndApplyRisk_def Let_def split: if_splits option.splits prod.splits)
  then show ?thesis
  proof cases
    case 1
    then show ?thesis using trade_effect_refl [OF ids] by simp
  next
    case 2
    then show ?thesis using u(1) trade_effect_persist trade_effect_ids trade_effect_trans by blast
  next
    case 3
    then show ?thesis using u(2) trade_effect_persist trade_effect_ids trade_effect_trans by blast
  qed
qed

lemma trade_effect_build:
  assumes b: "buildOrder s now u T req c d = Inr (order, evs, d')" and ids: "distinct (map t_id (orders d))"
  shows "trade_effect d d'" "filter is_trade evs = []"
proof -
  have "(d' = use_id (use_id d) \<or> d' = use_id (use_id (use_id d))) \<and> filter is_trade evs = []"
    using b unfolding buildOrder_def Let_def
    by (auto simp: and_then_Inr is_trade_def dest!: drawn split: if_splits option.splits prod.splits)
  then show "trade_effect d d'" "filter is_trade evs = []"
    using trade_effect_same [OF ids, of d'] by (auto simp: use_id_def)
qed

lemma trade_effect_service_create:
  assumes c: "ServiceCreateOrder s now user key body corr d = (res, replayed, err, d')" and ids: "distinct (map t_id (orders d))"
  shows "trade_effect d d'"
proof -
  consider "d' = d" | req T od evs where "buildOrder s now (u_UserID user) T req corr d = Inr (od, evs, d')"
    | req T od evs d1 hash od' evs' d2 where "buildOrder s now (u_UserID user) T req corr d = Inr (od, evs, d1)"
      "CreateOrder now od evs key hash d1 = Inr (od', evs', d2)"
      "d' = d2 \<or> (\<exists>res err. evaluateAndApplyRisk s now od' d2 = (res, err, d'))"
    using c by (auto simp: ServiceCreateOrder_def Let_def split: if_splits sum.splits option.splits prod.splits)
  then show ?thesis
  proof cases
    case 1
    then show ?thesis using trade_effect_refl [OF ids] by simp
  next
    case 2
    then show ?thesis using trade_effect_build(1) [OF _ ids] by blast
  next
    case (3 req T od evs d1 hash od' evs' d2)
    note b = trade_effect_build [OF 3(1) ids]
    note k = trade_effect_create [OF 3(2) trade_effect_ids [OF b(1)] b(2)]
    have "d' = d2 \<or> trade_effect d2 d'" using 3(3) trade_effect_evaluate [OF _ trade_effect_ids [OF k]] by blast
    then show ?thesis using b(1) k trade_effect_trans by blast
  qed
qed

subsection \<open>The exchange\<close>

text \<open>The order service with its workers: the database, the messages the producer has accepted and the records
  the publishers hold. Calls and transactions come in any order; a call that fails before a commit leaves the
  database as it is.\<close>

inductive exchange_step :: "OrderService \<Rightarrow> outbox_system \<Rightarrow> outbox_system \<Rightarrow> bool" for s where
  xs_create: "ServiceCreateOrder s now user key body corr d = (res, replayed, err, d') \<Longrightarrow> exchange_step s (d, S, H) (d', S, H)"
| xs_cancel: "ServiceCancelOrder now user i corr d = Inr (order, d') \<Longrightarrow> exchange_step s (d, S, H) (d', S, H)"
| xs_amend: "ServiceAmendOrder now user i req corr d = Inr (order, d') \<Longrightarrow> exchange_step s (d, S, H) (d', S, H)"
| xs_trigger: "TriggerDueStopOrders limit age now d = Inr (b, d') \<Longrightarrow> exchange_step s (d, S, H) (d', S, H)"
| xs_expire: "ExpireDueBatch x limit now d = Inr (xb, d') \<Longrightarrow> exchange_step s (d, S, H) (d', S, H)"
| xs_price: "UpsertReferencePrice now p d = Inr d' \<Longrightarrow> exchange_step s (d, S, H) (d', S, H)"
| xs_claim: "Claim clock w batch maxA lease now d = (rs, n, d') \<Longrightarrow> exchange_step s (d, S, H) (d', S, H \<union> {w} \<times> set rs)"
| xs_publish: "(pub_workerID p, r) \<in> H \<Longrightarrow> pub_repo p = order_store down \<Longrightarrow>
    publishOne p env r \<lparr>ps_store = d, ps_status = st, ps_sent = S\<rparr> = \<lparr>ps_store = d', ps_status = st', ps_sent = S'\<rparr> \<Longrightarrow>
    exchange_step s (d, S, H) (d', S', H)"

text \<open>The executions and the events that announce them correspond one to one, in order; what is claimed or sent
  under a topic is an event of that type.\<close>

definition announced :: "db \<Rightarrow> bool" where
  "announced d \<longleftrightarrow> outbox_in_step d \<and> distinct (map t_id (orders d)) \<and> distinct (map er_id (order_executions d)) \<and>
     list_all2 announces (order_executions d) (filter is_trade (order_events d))"

definition exchange_ok :: "outbox_system \<Rightarrow> bool" where
  "exchange_ok x \<longleftrightarrow> (case x of (d, S, H) \<Rightarrow> announced d \<and>
     (\<forall>r\<in>set (order_outbox d). ob_topic r = e_EventType (ob_payload r)) \<and>
     (\<forall>m\<in>set S \<union> message_of ` snd ` H. msg_topic m = e_EventType (msg_value m) \<and> msg_value m \<in> set (order_events d)))"

lemma exchange_okD:
  assumes "exchange_ok (d, S, H)"
  shows "announced d" "r \<in> set (order_outbox d) \<Longrightarrow> ob_topic r = e_EventType (ob_payload r)"
    "m \<in> set S \<union> message_of ` snd ` H \<Longrightarrow> msg_topic m = e_EventType (msg_value m) \<and> msg_value m \<in> set (order_events d)"
  using assms unfolding exchange_ok_def prod.case by blast+

lemma exchange_okI:
  assumes "announced d" "\<And>r. r \<in> set (order_outbox d) \<Longrightarrow> ob_topic r = e_EventType (ob_payload r)"
    "\<And>m. m \<in> set S \<union> message_of ` snd ` H \<Longrightarrow> msg_topic m = e_EventType (msg_value m) \<and> msg_value m \<in> set (order_events d)"
  shows "exchange_ok (d, S, H)"
  using assms unfolding exchange_ok_def prod.case by blast

lemma exchange_ok_tx:
  assumes ok: "exchange_ok (d, S, H)" and t: "trade_effect d d'"
  shows "exchange_ok (d', S, H)"
proof -
  have a: "outbox_in_step d" "distinct (map er_id (order_executions d))"
    "list_all2 announces (order_executions d) (filter is_trade (order_events d))"
    using exchange_okD(1) [OF ok] unfolding announced_def by blast+
  obtain rows evs where e: "order_executions d' = order_executions d @ rows" "records d d' evs"
    "list_all2 announces rows (filter is_trade evs)" and ids: "distinct (map t_id (orders d'))"
    "distinct (map er_id (order_executions d'))" using t a(2) by (auto simp: trade_effect_def)
  obtain new where r: "order_events d' = order_events d @ evs" "order_outbox d' = order_outbox d @ new"
    "\<forall>x\<in>set new. fresh_row x" "outbox_in_step d'" using e(2) a(1) unfolding records_def by blast
  have ann: "list_all2 announces (order_executions d') (filter is_trade (order_events d'))"
    unfolding r(1) e(1) filter_append by (rule list_all2_appendI [OF a(3) e(3)])
  show ?thesis
  proof (rule exchange_okI)
    show "announced d'" unfolding announced_def using r(4) ids ann by blast
    show "ob_topic x = e_EventType (ob_payload x)" if "x \<in> set (order_outbox d')" for x
      using that exchange_okD(2) [OF ok, of x] r(3) unfolding r(2) set_append fresh_row_def by blast
    show "msg_topic m = e_EventType (msg_value m) \<and> msg_value m \<in> set (order_events d')"
      if "m \<in> set S \<union> message_of ` snd ` H" for m
      using exchange_okD(3) [OF ok that] unfolding r(1) set_append by blast
  qed
qed

lemma exchange_ok_ids: "exchange_ok (d, S, H) \<Longrightarrow> distinct (map t_id (orders d))"
  using exchange_okD(1) unfolding announced_def by blast

text \<open>A delivery that leaves the messages of the rows alone.\<close>

definition redelivered :: "db \<Rightarrow> db \<Rightarrow> bool" where
  "redelivered d d' \<longleftrightarrow> (\<exists>rows. d' = d\<lparr>order_outbox := rows\<rparr> \<and> list_all2 same_message (order_outbox d) rows)"

lemma same_message_refl [simp]: "same_message r r"
  by (simp add: same_message_def)

lemma redelivered_refl: "redelivered d d"
  unfolding redelivered_def by (intro exI [of _ "order_outbox d"]) (simp add: list_all2_same)

lemma redelivered_upd:
  "(\<And>r. same_message r (f r)) \<Longrightarrow> redelivered d (d\<lparr>order_outbox := upd_where P f (order_outbox d)\<rparr>)"
  unfolding redelivered_def by (intro exI [of _ "upd_where P f (order_outbox d)"] conjI refl list_all2_upd_where) simp_all

lemma list_all2_right: "list_all2 R xs ys \<Longrightarrow> y \<in> set ys \<Longrightarrow> \<exists>x\<in>set xs. R x y"
  by (induction rule: list_all2_induct) auto

lemma redelivered_ok:
  assumes "redelivered d d'" "exchange_ok (d, S, H)" shows "exchange_ok (d', S, H)"
proof -
  obtain rows where rows: "d' = d\<lparr>order_outbox := rows\<rparr>" "list_all2 same_message (order_outbox d) rows"
    using assms(1) by (auto simp: redelivered_def)
  have eq: "map ob_payload rows = map ob_payload (order_outbox d)" "map ob_event_id rows = map ob_event_id (order_outbox d)"
      "map ob_id rows = map ob_id (order_outbox d)"
    using rows(2) by (induction rule: list_all2_induct) (simp_all add: same_message_def)
  have topic: "ob_topic r' = e_EventType (ob_payload r')" if "same_message r r'" "ob_topic r = e_EventType (ob_payload r)" for r r'
    using that by (simp add: same_message_def message_of_def scanRecord_def)
  show ?thesis
  proof (rule exchange_okI)
    show "announced d'"
      using exchange_okD(1) [OF assms(2)] unfolding announced_def outbox_in_step_def rows(1) by (simp add: eq)
    show "ob_topic r' = e_EventType (ob_payload r')" if "r' \<in> set (order_outbox d')" for r'
    proof -
      have "r' \<in> set rows" using that by (simp add: rows(1))
      then obtain r where "r \<in> set (order_outbox d)" "same_message r r'"
        using list_all2_right [OF rows(2)] by blast
      then show ?thesis using topic exchange_okD(2) [OF assms(2)] by blast
    qed
    show "msg_topic m = e_EventType (msg_value m) \<and> msg_value m \<in> set (order_events d')"
      if "m \<in> set S \<union> message_of ` snd ` H" for m
      using exchange_okD(3) [OF assms(2) that] by (simp add: rows(1))
  qed
qed

lemma publishOne_frame:
  assumes "pub_repo p = order_store down"
  shows "redelivered (ps_store s) (ps_store (publishOne p env r s)) \<and>
    set (ps_sent (publishOne p env r s)) \<subseteq> insert (message_of r) (set (ps_sent s))"
proof -
  have mark: "redelivered d (snd (mark_rows i w f d))" if "\<And>r. same_message r (f r)" for i w f d
    using redelivered_upd [where f = f, OF that] by (simp add: mark_rows_def)
  have fin: "redelivered (ps_store s) (ps_store (terminal p env r reason s)) \<and> ps_sent (terminal p env r reason s) = ps_sent s" for reason s
  proof (cases "down (pe_now env)")
    case None
    let ?f = "terminal_row (pe_now env) (sanitizeText reason (oc_ErrorMaxLength (pub_cfg p)))"
    obtain u d' where "mark_rows (rc_ID r) (pub_workerID p) ?f (ps_store s) = (u, d')" by fastforce
    then show ?thesis using None mark [of ?f "ps_store s" "rc_ID r" "pub_workerID p"] assms
      by (simp add: terminal_def order_store_def MarkTerminal_def incrementConsecutiveErrors_def Let_def)
  qed (simp add: terminal_def order_store_def assms recordError_def incrementConsecutiveErrors_def redelivered_refl)
  have retry: "redelivered (ps_store s) (ps_store (retryOrTerminal p env r e s)) \<and> ps_sent (retryOrTerminal p env r e s) = ps_sent s" for e s
  proof (cases "down (pe_now env)")
    case None
    let ?f = "failed_row (pe_now env + Delay (pe_random env) (pub_backoff p) (rc_AttemptCount r))
      (sanitizeText e (oc_ErrorMaxLength (pub_cfg p)))"
    obtain u d' where "mark_rows (rc_ID r) (pub_workerID p) ?f (ps_store s) = (u, d')" by fastforce
    then show ?thesis using None mark [of ?f "ps_store s" "rc_ID r" "pub_workerID p"] assms fin
      by (simp add: retryOrTerminal_def order_store_def MarkFailed_def incrementConsecutiveErrors_def Let_def)
  qed (simp add: retryOrTerminal_def order_store_def assms recordError_def incrementConsecutiveErrors_def redelivered_refl fin Let_def)
  show ?thesis
  proof (cases "pe_valid env (rc_Payload r) \<and> pe_publish env (message_of r) = None")
    case sent: True
    show ?thesis
    proof (cases "down (pe_now env)")
      case None
      let ?f = "published_row (pe_now env)"
      obtain u d' where "mark_rows (rc_ID r) (pub_workerID p) ?f (ps_store s) = (u, d')" by fastforce
      then show ?thesis using None sent mark [of ?f "ps_store s" "rc_ID r" "pub_workerID p"] assms
        by (simp add: publishOne_def order_store_def MarkPublished_def clearConsecutiveErrors_def setLastPublished_def Let_def)
    qed (use sent in \<open>simp add: publishOne_def order_store_def assms recordError_def incrementConsecutiveErrors_def redelivered_refl Let_def\<close>)
  next
    case False
    then show ?thesis using fin [of s] retry [of s] by (auto simp: publishOne_def split: option.split)
  qed
qed

lemma exchange_ok_claim:
  assumes c: "Claim clock w batch maxA lease now d = (rs, n, d')" and ok: "exchange_ok (d, S, H)"
  shows "exchange_ok (d', S, H \<union> {w} \<times> set rs)"
proof -
  have s: "outbox_in_step d" using exchange_okD(1) [OF ok] unfolding announced_def by blast
  note k = Claim_rows [OF c, THEN conjunct1] Claim_rows [OF c, THEN conjunct2, THEN conjunct2]
  have dist: "distinct (map ob_id (order_outbox d))" using s by (simp add: outbox_in_step_def)
  have "redelivered d d'" using k(1) [OF dist] redelivered_upd [of "lock_row w now lease" d] marked_same(4) by metis
  then have ok': "exchange_ok (d', S, H)" using ok by (rule redelivered_ok)
  have "msg_topic (message_of r) = e_EventType (msg_value (message_of r)) \<and> msg_value (message_of r) \<in> set (order_events d')"
    if r: "r \<in> set rs" for r
  proof -
    obtain row where row: "row \<in> set (order_outbox d)" "message_of (scanRecord row) = message_of r"
      using k(2) [OF dist] r by blast
    have "ob_payload row \<in> set (order_events d)" using row(1) s unfolding outbox_in_step_def by (metis image_eqI list.set_map)
    moreover have "order_events d' = order_events d" using k(1) [OF dist] by simp
    moreover have "ob_topic row = e_EventType (ob_payload row)" by (rule exchange_okD(2) [OF ok row(1)])
    ultimately show ?thesis unfolding row(2) [symmetric] by (simp add: message_of_def scanRecord_def)
  qed
  then have "msg_topic m = e_EventType (msg_value m) \<and> msg_value m \<in> set (order_events d')"
    if "m \<in> message_of ` snd ` ({w} \<times> set rs)" for m using that by auto
  then show ?thesis
    using exchange_okD [OF ok'] unfolding image_Un by (intro exchange_okI) blast+
qed

lemma exchange_step_ok: "exchange_step s x y \<Longrightarrow> exchange_ok x \<Longrightarrow> exchange_ok y"
proof (induction rule: exchange_step.induct)
  case (xs_create now user key body corr d res replayed err d' S H)
  from xs_create(1) exchange_ok_ids [OF xs_create(2)] have "trade_effect d d'" by (rule trade_effect_service_create)
  then show ?case by (rule exchange_ok_tx [OF xs_create(2)])
next
  case (xs_cancel now user i corr d order d' S H)
  then have ids: "distinct (map t_id (orders d))" using exchange_ok_ids by blast
  obtain ex where ex: "GetOrder (u_TenantID user) i d = Inr ex"
    "o_UserID ex = u_UserID user \<or> hasAnyRole (u_Roles user) [''trading_admin'']" "o_Status ex = StatusAccepted"
    using xs_cancel(1) by (auto simp: ServiceCancelOrder_def Let_def split: if_splits sum.splits prod.splits)
  obtain ev d1 where dr: "draw_event now ex ''order.cancelled'' StatusCancelled corr d = (ev, d1)" by fastforce
  note t1 = trade_effect_draw [OF dr ids]
  have "CancelOrder now (u_TenantID user) i corr ev d1 = Inr (order, d')"
    using xs_cancel(1) ex dr by (auto simp: ServiceCancelOrder_def Let_def split: if_splits sum.splits)
  from trade_effect_cancel [OF this trade_effect_ids [OF t1(1)]] t1(2)
  have "trade_effect d1 d'" by (simp add: is_trade_def)
  then show ?case using exchange_ok_tx xs_cancel(2) t1(1) by blast
next
  case (xs_amend now user i req corr d order d' S H)
  then have ids: "distinct (map t_id (orders d))" using exchange_ok_ids by blast
  have "AmendOrder now (u_TenantID user) i req corr d = Inr (order, d')"
    using xs_amend(1) by (auto simp: ServiceAmendOrder_def and_then_Inr split: if_splits sum.splits)
  then show ?case using exchange_ok_tx xs_amend(2) trade_effect_amend [OF _ ids] by blast
next
  case (xs_trigger limit age now d b d' S H)
  from xs_trigger(1) exchange_ok_ids [OF xs_trigger(2)] have "trade_effect d d'" by (rule trade_effect_trigger)
  then show ?case by (rule exchange_ok_tx [OF xs_trigger(2)])
next
  case (xs_expire x limit now d xb d' S H)
  from xs_expire(1) exchange_ok_ids [OF xs_expire(2)] have "trade_effect d d'" by (rule trade_effect_expire)
  then show ?case by (rule exchange_ok_tx [OF xs_expire(2)])
next
  case (xs_price now p d d' S H)
  then have "distinct (map t_id (orders d))" using exchange_ok_ids by blast
  then have "trade_effect d d'" using UpsertReferencePrice_frame [OF xs_price(1)] trade_effect_same by blast
  then show ?case using exchange_ok_tx xs_price(2) by blast
next
  case (xs_claim clock w batch maxA lease now d rs n d' S H)
  then show ?case by (rule exchange_ok_claim)
next
  case (xs_publish p r H down env d st S d' st' S')
  note f = publishOne_frame [OF xs_publish(2), of "\<lparr>ps_store = d, ps_status = st, ps_sent = S\<rparr>" env r, unfolded xs_publish(3) pub_state.simps]
  have "exchange_ok (d', S, H)" using redelivered_ok f xs_publish(4) by blast
  moreover have "message_of r \<in> message_of ` snd ` H" using xs_publish(1) by force
  ultimately show ?case
    using exchange_okD [of d' S H] subsetD [OF conjunct2 [OF f]] by (intro exchange_okI) blast+
qed

text \<open>C5: The transactional outbox announces every trade exactly once. Whatever calls, worker transactions, claims
  and publications follow each other, the executions of the order service and the \<open>trade.executed\<close> rows of its
  outbox correspond one to one and in order: each row's payload is the execution, with its own ids, parties,
  tenant and symbol, between two different orders, at a positive quantity and price that are the float64
  values of the amounts the columns round to ten decimals. No execution id is used twice, and every message
  ever sent as \<open>trade.executed\<close> announces one of the executions.\<close>

theorem trades_announced_once:
  assumes run: "(exchange_step s)\<^sup>*\<^sup>* x0 (d, S, H)" and ok: "exchange_ok x0"
  shows "list_all2 announces (order_executions d) (map ob_payload (filter (\<lambda>r. ob_topic r = ''trade.executed'') (order_outbox d))) \<and>
    distinct (map er_id (order_executions d)) \<and>
    list_all (\<lambda>m. list_ex (\<lambda>x. announces x (msg_value m)) (order_executions d))
      (filter (\<lambda>m. msg_topic m = ''trade.executed'') S)"
proof -
  have ok': "exchange_ok (d, S, H)" using run ok by (induction rule: rtranclp_induct) (auto intro: exchange_step_ok)
  have a: "list_all2 announces (order_executions d) (filter is_trade (order_events d))"
    "map ob_payload (order_outbox d) = order_events d" "distinct (map er_id (order_executions d))"
    using exchange_okD(1) [OF ok'] unfolding announced_def outbox_in_step_def by blast+
  have "filter (\<lambda>r. ob_topic r = ''trade.executed'') (order_outbox d) = filter (is_trade \<circ> ob_payload) (order_outbox d)"
    by (intro filter_cong refl) (simp add: is_trade_def exchange_okD(2) [OF ok'])
  then have rows: "map ob_payload (filter (\<lambda>r. ob_topic r = ''trade.executed'') (order_outbox d)) = filter is_trade (order_events d)"
    by (simp only: filter_map [symmetric] a(2))
  have sent: "\<exists>x\<in>set (order_executions d). announces x (msg_value m)"
    if m: "m \<in> set S" "msg_topic m = ''trade.executed''" for m
  proof -
    have "msg_value m \<in> set (filter is_trade (order_events d))"
      using exchange_okD(3) [OF ok', of m] m by (simp add: is_trade_def)
    then show ?thesis by (rule list_all2_right [OF a(1)])
  qed
  show ?thesis unfolding rows using a(1,3) sent by (simp add: list_all_iff list_ex_iff)
qed

subsection \<open>The portfolio service reads a trade\<close>

text \<open>The texts of an execution are not empty and need no trimming, the symbol is in upper case: what the order
  service makes of a symbol, and the form of UUIDs.\<close>

definition plain :: "string \<Rightarrow> bool" where
  "plain v \<longleftrightarrow> v \<noteq> '''' \<and> trim_space v = v"

definition plain_trade :: "execution_row \<Rightarrow> bool" where
  "plain_trade x \<longleftrightarrow> plain (er_tenant_id x) \<and> plain (er_id x) \<and> plain (er_buy_order_id x) \<and> plain (er_sell_order_id x) \<and>
     plain (er_buyer_user_id x) \<and> plain (er_seller_user_id x) \<and> plain (er_symbol x) \<and> to_upper (er_symbol x) = er_symbol x"

lemma ratFloat_pos: "0 < RatString q \<Longrightarrow> 0 < ratFloat q"
proof -
  assume "0 < RatString q"
  then have r: "0 < rna (q * 10 ^ 10)" by (simp add: RatString_def dec_half_away_def zero_less_divide_iff)
  have "1 / 2 \<le> q * 10 ^ 10"
  proof (cases "q * 10 ^ 10 < 0")
    case True
    then have "0 \<le> \<lfloor>1/2 - q * 10 ^ 10\<rfloor>" by simp
    then show ?thesis using r True by (simp add: rna_def)
  next
    case False
    then have "0 < \<lfloor>q * 10 ^ 10 + 1/2\<rfloor>" using r by (simp add: rna_def)
    then show ?thesis by linarith
  qed
  then have "2 powi (- 40) \<le> q" by (simp add: power_int_minus)
  then have "2 powi (- 40) \<le> fl64 q" using fl64_mono [of "2 powi (- 40)" q] fl64_pow2 [of "- 40"] by simp
  then show ?thesis by (simp add: ratFloat_def power_int_minus)
qed

lemma trade_message_simps [simp]:
  "te_EventID (trade_message e) = e_EventID e" "te_EventType (trade_message e) = e_EventType e"
  "te_TenantID (trade_message e) = e_TenantID e" "te_ExecutionID (trade_message e) = e_ExecutionID e"
  "te_BuyerUserID (trade_message e) = e_BuyerUserID e" "te_SellerUserID (trade_message e) = e_SellerUserID e"
  "te_Symbol (trade_message e) = e_Symbol e" "te_ExecutionQuantity (trade_message e) = e_ExecutionQuantity e"
  "te_ExecutionPrice (trade_message e) = coalesce (e_ExecutionPrice e) 0" "te_OccurredAt (trade_message e) = e_OccurredAt e"
  by (simp_all add: trade_message_def)

lemma trade_message_trimmed:
  assumes "announces x e" "plain_trade x"
  shows "trimmed_trade (trade_message e) = trade_message e"
proof -
  have "trim_space ''1.0'' = ''1.0''" "trim_space ''USD'' = ''USD''" "to_upper ''USD'' = ''USD''" by code_simp+
  then show ?thesis
    using assms by (simp add: trimmed_trade_def trade_message_def announces_def plain_trade_def plain_def)
qed

lemma trade_message_normalized:
  assumes "announces x e" "plain_trade x" "e_EventID e \<noteq> ''''" "e_OccurredAt e \<noteq> zero_time"
  shows "normalizeTradeExecuted (trade_message e) =
    (if er_buyer_user_id x = er_seller_user_id x then Inl ErrSelfTrade else Inr (trade_message e))"
proof -
  have "0 < e_ExecutionQuantity e" "0 < coalesce (e_ExecutionPrice e) 0"
    using assms(1) ratFloat_pos by (auto simp: announces_def)
  moreover have "te_EventVersion (trade_message e) = ''1.0''" "te_Currency (trade_message e) = ''USD''"
    "te_BuyOrderID (trade_message e) = er_buy_order_id x" "te_SellOrderID (trade_message e) = er_sell_order_id x"
    using assms(1) by (simp_all add: trade_message_def announces_def)
  ultimately show ?thesis
    using assms unfolding normalizeTradeExecuted_def trade_message_trimmed [OF assms(1,2)] Let_def
    by (simp add: announces_def plain_trade_def plain_def)
qed

lemma trade_message_processed:
  assumes a: "announces x e" "plain_trade x" and e: "e_EventID e \<noteq> ''''" "e_OccurredAt e \<noteq> zero_time"
    and p: "event_payload tx e payload" "sp_rfc3339 sv (tx (e_OccurredAt e)) = Some (e_OccurredAt e)"
  shows "ProcessOrderFilled sv now (Some payload) d =
      (if er_buyer_user_id x = er_seller_user_id x then Inl ErrSelfTrade
       else and_then (ApplyTradeExecution (sp_numeric_div sv) now (trade_message e) (sp_initialCash sv)
         (PayloadHash (sp_sha256_hex sv) (trade_message e)) (sp_portfolioTopic sv) d) (\<lambda>(result, d'). Inr d'))"
proof -
  note dec = trade_message_decoded [of tx e payload "sp_rfc3339 sv", OF p]
  obtain old where old: "decodeOrderFilled (sp_rfc3339 sv) (Some payload) = Some old" "of_EventType old = e_EventType e"
    using dec(2) by blast
  have ty: "e_EventType e = ''trade.executed''" using a(1) by (simp add: announces_def)
  have "ProcessOrderFilled sv now (Some payload) d = ProcessTradeExecuted sv now (Some payload) d"
    by (simp add: ProcessOrderFilled_def old ty)
  also have "\<dots> = (if er_buyer_user_id x = er_seller_user_id x then Inl ErrSelfTrade
       else and_then (ApplyTradeExecution (sp_numeric_div sv) now (trade_message e) (sp_initialCash sv)
         (PayloadHash (sp_sha256_hex sv) (trade_message e)) (sp_portfolioTopic sv) d) (\<lambda>(result, d'). Inr d'))"
    by (simp add: ProcessTradeExecuted_def dec(1) ty trade_message_normalized [OF a e])
  finally show ?thesis .
qed

text \<open>C6: The portfolio service understands the order service. The payload of an execution's event, in whatever order
  the database keeps its members, is decoded without error and settles exactly this execution: same id,
  parties, tenant and symbol, the event's quantity and price. It is never refused as malformed or invalid;
  when buyer and seller are the same user, which the matching engine does not prevent, it is refused as a
  self trade.\<close>

theorem announced_trade_is_applied:
  assumes a: "announces x e" "plain_trade x" and e: "e_EventID e \<noteq> ''''" "e_OccurredAt e \<noteq> zero_time"
    and p: "event_payload tx e payload" "sp_rfc3339 sv (tx (e_OccurredAt e)) = Some (e_OccurredAt e)"
  shows "ProcessOrderFilled sv now (Some payload) d =
      (if er_buyer_user_id x = er_seller_user_id x then Inl ErrSelfTrade
       else and_then (ApplyTradeExecution (sp_numeric_div sv) now (trade_message e) (sp_initialCash sv)
         (PayloadHash (sp_sha256_hex sv) (trade_message e)) (sp_portfolioTopic sv) d) (\<lambda>(result, d'). Inr d')) \<and>
    te_ExecutionID (trade_message e) = er_id x \<and> te_TenantID (trade_message e) = er_tenant_id x \<and>
    te_Symbol (trade_message e) = er_symbol x \<and> te_BuyerUserID (trade_message e) = er_buyer_user_id x \<and>
    te_SellerUserID (trade_message e) = er_seller_user_id x \<and>
    (\<exists>q p. er_quantity x = RatString q \<and> te_ExecutionQuantity (trade_message e) = ratFloat q \<and>
       er_price x = RatString p \<and> te_ExecutionPrice (trade_message e) = ratFloat p)"
proof -
  note process = trade_message_processed [of x e tx payload sv now d, OF a e p]
  obtain q p where "er_quantity x = RatString q" "e_ExecutionQuantity e = ratFloat q" "er_price x = RatString p"
    "e_ExecutionPrice e = Some (ratFloat p)" using a(1) unfolding announces_def by blast
  then have "\<exists>q p. er_quantity x = RatString q \<and> te_ExecutionQuantity (trade_message e) = ratFloat q \<and>
      er_price x = RatString p \<and> te_ExecutionPrice (trade_message e) = ratFloat p"
    by (intro exI [of _ q] exI [of _ p]) simp
  then show ?thesis using process a(1) by (simp add: announces_def)
qed

subsection \<open>Settlement\<close>

text \<open>The portfolio service beside the exchange: it consumes messages that were sent as \<open>trade.executed\<close>, each any
  number of times and in any order, and serves its users.\<close>

inductive settlement_step :: "(time \<Rightarrow> string) \<Rightarrow> PortfolioService \<Rightarrow> message list \<Rightarrow> pdb \<Rightarrow> pdb \<Rightarrow> bool" for tx sv S where
  ts_consumed: "m \<in> set S \<Longrightarrow> msg_topic m = ''trade.executed'' \<Longrightarrow> event_payload tx (msg_value m) payload \<Longrightarrow>
    ProcessOrderFilled sv now (Some payload) d = Inr d' \<Longrightarrow> settlement_step tx sv S d d'"
| ts_viewed: "ViewPortfolio sv now user d = Inr (p, d') \<Longrightarrow> settlement_step tx sv S d d'"
| ts_published: "settlement_step tx sv S d (d\<lparr>portfolio_outbox := rows\<rparr>)"

definition trade_entries :: "execution_row \<Rightarrow> pdb \<Rightarrow> transaction_row list" where
  "trade_entries x d = filter (\<lambda>t. tx_tenant_id t = er_tenant_id x \<and> tx_execution_id t = er_id x) (portfolio_transactions d)"

text \<open>An execution is not settled yet, or has exactly the two ledger entries of its parties.\<close>

definition settled_once :: "execution_row \<Rightarrow> pdb \<Rightarrow> bool" where
  "settled_once x d \<longleftrightarrow> trade_entries x d = [] \<or>
     (\<exists>b s tb ts q p. trade_entries x d = [tb, ts] \<and> b \<noteq> s \<and>
        account_of d (er_tenant_id x) (er_buyer_user_id x) = Some b \<and>
        account_of d (er_tenant_id x) (er_seller_user_id x) = Some s \<and>
        tx_portfolio_id tb = b \<and> tx_side tb = ''BUY'' \<and> tx_portfolio_id ts = s \<and> tx_side ts = ''SELL'' \<and>
        tx_symbol tb = er_symbol x \<and> tx_symbol ts = er_symbol x \<and>
        er_quantity x = RatString q \<and> er_price x = RatString p \<and>
        tx_quantity tb = dec_half_away 8 (fmt_dec 10 (ratFloat q)) \<and> tx_quantity ts = tx_quantity tb \<and>
        tx_net_cash_amount ts = dec_half_away 8 (fmt_dec 10 (fl64 (ratFloat q * ratFloat p))) \<and>
        tx_net_cash_amount tb = - tx_net_cash_amount ts)"

definition settlement_ok :: "execution_row list \<Rightarrow> pdb \<Rightarrow> bool" where
  "settlement_ok xs d \<longleftrightarrow> books_inv d \<and> (\<forall>x\<in>set xs. settled_once x d) \<and>
     (\<forall>t\<in>set (portfolio_transactions d). \<exists>x\<in>set xs. t \<in> set (trade_entries x d))"

lemma settled_once_mono:
  assumes "settled_once x d" "trade_entries x d' = trade_entries x d"
    "\<And>T u j. account_of d T u = Some j \<Longrightarrow> account_of d' T u = Some j"
  shows "settled_once x d'"
  using assms(1,3) unfolding settled_once_def assms(2) by blast

lemma settlement_quiet:
  assumes "settlement_ok xs d" "books_inv d'" "portfolio_transactions d' = portfolio_transactions d"
    "\<And>T u j. account_of d T u = Some j \<Longrightarrow> account_of d' T u = Some j"
  shows "settlement_ok xs d'"
proof -
  have e: "trade_entries x d' = trade_entries x d" for x by (simp add: trade_entries_def assms(3))
  have "settled_once x d'" if "x \<in> set xs" for x
    using assms(1) that by (intro settled_once_mono [OF _ e assms(4)]) (simp add: settlement_ok_def)
  then show ?thesis using assms(1,2) unfolding settlement_ok_def by (simp add: e assms(3))
qed

lemma settlement_applied:
  assumes ok: "settlement_ok xs d" and ids: "distinct (map er_id xs)" and x: "x \<in> set xs" "announces x e"
    and ev: "trade_event (trade_message e)"
    and ap: "applied (trade_message e) hash c d d'" and inv': "books_inv d'"
    and new: "find_by (\<lambda>r. (pz_tenant_id r, pz_idempotency_key r))
      (e_TenantID e, BuildIdempotencyKey (trade_message e)) (processed_events d) = None"
    and acc: "\<And>T u j. account_of d T u = Some j \<Longrightarrow> account_of d' T u = Some j"
  shows "settlement_ok xs d'"
proof -
  have f: "e_TenantID e = er_tenant_id x" "e_ExecutionID e = er_id x" "e_BuyerUserID e = er_buyer_user_id x"
    "e_SellerUserID e = er_seller_user_id x" "e_Symbol e = er_symbol x" using x(2) by (simp_all add: announces_def)
  obtain q p where qp: "er_quantity x = RatString q" "e_ExecutionQuantity e = ratFloat q" "er_price x = RatString p"
    "e_ExecutionPrice e = Some (ratFloat p)" using x(2) unfolding announces_def by blast
  obtain b s tb ts where t: "account_of d' (er_tenant_id x) (er_buyer_user_id x) = Some b"
    "account_of d' (er_tenant_id x) (er_seller_user_id x) = Some s" "b \<noteq> s"
    "entry_for (trade_message e) (er_tenant_id x) b ''BUY'' (- exec_gross (trade_message e)) tb"
    "entry_for (trade_message e) (er_tenant_id x) s ''SELL'' (exec_gross (trade_message e)) ts"
    "portfolio_transactions d' = portfolio_transactions d @ [tb, ts]"
    using ap unfolding applied_def traded_def by (auto simp: f)
  have g: "exec_gross (trade_message e) = fmt_dec 10 (fl64 (ratFloat q * ratFloat p))"
    "exec_quantity (trade_message e) = fmt_dec 10 (ratFloat q)"
    by (simp_all add: exec_gross_def exec_quantity_def gross_amount_def qp)
  have none: "trade_entries x d = []"
  proof -
    have "BuildIdempotencyKey (trade_message e) = ''execution:'' @ er_id x" using trade_event_key [OF ev] by (simp add: f)
    then have fresh: "\<not> (pz_tenant_id r = er_tenant_id x \<and> pz_idempotency_key r = ''execution:'' @ er_id x)"
      if "r \<in> set (processed_events d)" for r
      using new that unfolding find_by_None_iff f by force
    have "\<exists>r\<in>set (processed_events d). pz_tenant_id r = tx_tenant_id t \<and> pz_idempotency_key r = ''execution:'' @ tx_execution_id t"
      if "t \<in> set (portfolio_transactions d)" for t
      using ok that unfolding settlement_ok_def books_inv_def entries_recorded_def by blast
    then have "\<not> (tx_tenant_id t = er_tenant_id x \<and> tx_execution_id t = er_id x)" if "t \<in> set (portfolio_transactions d)" for t
      using fresh that by metis
    then show ?thesis by (auto simp: trade_entries_def filter_empty_conv)
  qed
  have own: "trade_entries y d' = (if y = x then [tb, ts] else trade_entries y d)" if "y \<in> set xs" for y
  proof (cases "y = x")
    case True
    then show ?thesis using none t(4,5) by (simp add: trade_entries_def t(6) entry_for_def f)
  next
    case False
    then have "er_id y \<noteq> er_id x" using ids x(1) that by (auto simp: distinct_map inj_on_def)
    then show ?thesis using False t(4,5) by (simp add: trade_entries_def t(6) entry_for_def f)
  qed
  have "settled_once x d'"
    unfolding settled_once_def own [OF x(1)]
    using t(1-5) qp(1,3)
    by (intro disjI2 exI [of _ b] exI [of _ s] exI [of _ tb] exI [of _ ts] exI [of _ q] exI [of _ p])
      (simp add: entry_for_def f g dha.rnd_minus)
  moreover have "settled_once y d'" if "y \<in> set xs" "y \<noteq> x" for y
    using ok that own [OF that(1)] acc settled_once_mono [of y d d'] by (simp add: settlement_ok_def)
  moreover have "\<exists>y\<in>set xs. t' \<in> set (trade_entries y d')" if t': "t' \<in> set (portfolio_transactions d')" for t'
  proof (cases "t' = tb \<or> t' = ts")
    case True
    then show ?thesis using own [OF x(1)] x(1) by (intro bexI [of _ x]) auto
  next
    case False
    then obtain y where "y \<in> set xs" "t' \<in> set (trade_entries y d)" using t' ok t(6) by (auto simp: settlement_ok_def)
    then show ?thesis using own none by (intro bexI [of _ y]) auto
  qed
  ultimately show ?thesis using inv' unfolding settlement_ok_def by blast
qed

lemma settlement_step_ok:
  assumes st: "settlement_step tx sv S d d'" and ok: "settlement_ok xs d" and ids: "distinct (map er_id xs)"
    and plain: "\<And>x. x \<in> set xs \<Longrightarrow> plain_trade x"
    and sent: "\<And>m. m \<in> set S \<Longrightarrow> msg_topic m = ''trade.executed'' \<Longrightarrow> \<exists>x\<in>set xs. announces x (msg_value m)"
    and readback: "\<And>m. m \<in> set S \<Longrightarrow> sp_rfc3339 sv (tx (e_OccurredAt (msg_value m))) = Some (e_OccurredAt (msg_value m))"
  shows "settlement_ok xs d'"
proof -
  have inv: "books_inv d" using ok by (simp add: settlement_ok_def)
  have p: "portfolio_step sv d d'" using st by cases (auto intro: portfolio_step.intros)
  note b = portfolio_step_books [OF p inv]
  show ?thesis
    using st
  proof cases
    case (ts_consumed m payload now)
    let ?e = "msg_value m"
    obtain x where x: "x \<in> set xs" "announces x ?e" using sent [OF ts_consumed(1,2)] by blast
    note dec = trade_message_decoded [of tx ?e payload "sp_rfc3339 sv", OF ts_consumed(3) readback [OF ts_consumed(1)]]
    obtain old where old: "decodeOrderFilled (sp_rfc3339 sv) (Some payload) = Some old" "of_EventType old = e_EventType ?e"
      using dec(2) by blast
    have ty: "e_EventType ?e = ''trade.executed''" using x(2) by (simp add: announces_def)
    have "ProcessTradeExecuted sv now (Some payload) d = Inr d'" using ts_consumed(4) by (simp add: ProcessOrderFilled_def old ty)
    then obtain event res where n: "normalizeTradeExecuted (trade_message ?e) = Inr event" and
      a: "ApplyTradeExecution (sp_numeric_div sv) now event (sp_initialCash sv) (PayloadHash (sp_sha256_hex sv) event)
        (sp_portfolioTopic sv) d = Inr (res, d')"
      by (auto simp: ProcessTradeExecuted_def dec(1) ty and_then_Inr)
    have "event = trimmed_trade (trade_message ?e)"
      using n by (auto simp: normalizeTradeExecuted_def Let_def split: if_splits)
    then have ev: "event = trade_message ?e" using trade_message_trimmed [OF x(2) plain [OF x(1)]] by simp
    note te = normalized_trade [OF n, unfolded ev]
    show ?thesis
    proof (cases "ur_Duplicate res")
      case True
      obtain r where "find_by (\<lambda>r. (pz_tenant_id r, pz_idempotency_key r)) (defaultTenant (te_TenantID event),
          BuildIdempotencyKey event) (processed_events d) = Some r"
        using a True publish_update_Inr(2) by (force simp: ApplyTradeExecution_def Let_def and_then_Inr split: option.splits)
      then have "d' = d" using a by (auto simp: ApplyTradeExecution_def Let_def split: option.splits if_splits)
      then show ?thesis using ok by simp
    next
      case False
      have ok2: "books_ok d" "entries_recorded d" using inv by (auto simp: books_inv_def)
      note ap = ApplyTradeExecution_Inr [OF te ok2 a [unfolded ev] False]
      show ?thesis
        using settlement_applied [OF ok ids x te ap(3) b(1) _ b(2)] ap(5) by simp
    qed
  next
    case (ts_viewed now user p)
    obtain T i where v: "T \<noteq> ''''" "ensurePortfolio now T (pu_UserID user) (sp_initialCash sv) d = (i, d')"
      by (rule ViewPortfolio_ensure [OF ts_viewed])
    have "books_ok d" using inv by (simp add: books_inv_def)
    from ensurePortfolio_books(8) [OF this v(2,1)] have "portfolio_transactions d' = portfolio_transactions d" .
    then show ?thesis by (rule settlement_quiet [OF ok b(1) _ b(2)])
  next
    case (ts_published rows)
    then show ?thesis by (intro settlement_quiet [OF ok b(1) _ b(2)]) simp
  qed
qed

text \<open>C4: From the match to the accounts, exactly once at most. Let the exchange run in any way, with its publishers
  sending messages again after failures, and let the portfolio service, starting with an empty ledger, consume
  messages it was sent in any order and any number of times. Then every entry of its ledger belongs to an
  execution of the order service, and an execution has either no entry yet or exactly two: a purchase of its
  buyer and a sale of its seller, different accounts, for its symbol, with its quantity and the opposite cash
  amounts quantity times price, in float64 and rounded to the columns' eight decimals.\<close>

theorem executions_settled_once:
  assumes run: "(exchange_step s)\<^sup>*\<^sup>* x0 (d, S, H)" and start: "exchange_ok x0"
    and settle: "(settlement_step tx sv S)\<^sup>*\<^sup>* p0 p" and empty: "books_inv p0" "portfolio_transactions p0 = []"
    and texts: "list_all plain_trade (order_executions d)"
    and times: "list_all (\<lambda>m. sp_rfc3339 sv (tx (e_OccurredAt (msg_value m))) = Some (e_OccurredAt (msg_value m))) S"
  shows "list_all (\<lambda>x. settled_once x p) (order_executions d) \<and>
    list_all (\<lambda>t. list_ex (\<lambda>x. t \<in> set (trade_entries x p)) (order_executions d)) (portfolio_transactions p)"
proof -
  have ok: "exchange_ok (d, S, H)" using run start by (induction rule: rtranclp_induct) (auto intro: exchange_step_ok)
  have a: "list_all2 announces (order_executions d) (filter is_trade (order_events d))" "distinct (map er_id (order_executions d))"
    using exchange_okD(1) [OF ok] unfolding announced_def by blast+
  have sent: "\<exists>x\<in>set (order_executions d). announces x (msg_value m)" if "m \<in> set S" "msg_topic m = ''trade.executed''" for m
  proof -
    have "msg_value m \<in> set (filter is_trade (order_events d))" using exchange_okD(3) [OF ok, of m] that by (simp add: is_trade_def)
    then show ?thesis by (rule list_all2_right [OF a(1)])
  qed
  have init: "settlement_ok (order_executions d) p0"
    using empty by (simp add: settlement_ok_def settled_once_def trade_entries_def)
  from settle have "settlement_ok (order_executions d) p"
  proof (induction rule: rtranclp_induct)
    case base
    show ?case by (rule init)
  next
    case (step y z)
    show ?case
      by (rule settlement_step_ok [OF step(2) step(3) a(2) _ sent]) (use texts times in \<open>auto simp: list_all_iff\<close>)
  qed
  then show ?thesis by (simp add: settlement_ok_def list_all_iff list_ex_iff)
qed

subsection \<open>Examples\<close>

text \<open>A sale that meets the resting purchase of the example database.\<close>

definition demo_exchange :: OrderService where
  "demo_exchange = (ex_service True DecisionApproved)\<lparr>sv_riskEnabled := False, sv_decode := (\<lambda>_. Some
     \<lparr>cr_Symbol = ''aapl'', cr_Side = ''sell'', cr_OrderType = ''limit'', cr_Quantity = 4, cr_LimitPrice = Some 5,
      cr_StopPrice = None, cr_TimeInForce = ''gtc'', cr_ExpiresAt = None\<rparr>)\<rparr>"

definition demo_seller :: UserContext where
  "demo_seller = \<lparr>u_UserID = ''v'', u_TenantID = ''t'', u_Roles = [''trader'']\<rparr>"

abbreviation "demo_sale \<equiv> ServiceCreateOrder demo_exchange 7 demo_seller ''key'' ''body'' ''c'' ex_db"

lemma demo_start: "exchange_ok (ex_db, [], {})"
  by (simp add: exchange_ok_def announced_def outbox_in_step_def ex_db_def)

lemma trades_announced_once_witness:
  "\<exists>d. snd (snd (snd demo_sale)) = d \<and> map er_buyer_user_id (order_executions d) = [''u''] \<and>
     list_all2 announces (order_executions d) (map ob_payload (filter (\<lambda>r. ob_topic r = ''trade.executed'') (order_outbox d)))"
proof -
  have x: "map er_buyer_user_id (order_executions (snd (snd (snd demo_sale)))) = [''u'']" by code_simp
  obtain res rp err d where d: "demo_sale = (res, rp, err, d)" by (metis prod_cases4)
  have "(exchange_step demo_exchange)\<^sup>*\<^sup>* (ex_db, [], {}) (d, [], {})"
    by (rule r_into_rtranclp) (rule xs_create [OF d])
  from trades_announced_once [OF this demo_start] x show ?thesis by (simp add: d)
qed

definition demo_execution :: Execution where
  "demo_execution = \<lparr>x_ID = ''x-1'', x_BuyOrderID = ''o-1'', x_SellOrderID = ''o-2'', x_BuyerUserID = ''u'',
     x_SellerUserID = ''v'', x_Symbol = ''AAPL'', x_Quantity = 10, x_Price = 5, x_ExecutedAt = 1\<rparr>"

definition demo_event :: OrderEvent where
  "demo_event = tradeExecutedEvent ''e-1'' 1 (ex_order\<lparr>o_CorrelationID := ''c''\<rparr>) demo_execution"

abbreviation "demo_row \<equiv> execution_row_of ''t'' ''c'' demo_execution"
abbreviation "demo_payload \<equiv> JObj (order_event_members (\<lambda>_. ''now'') demo_event)"

lemma demo_facts:
  "announces demo_row demo_event" "plain_trade demo_row" "trade_message demo_event = ex_trade"
  "event_payload (\<lambda>_. ''now'') demo_event demo_payload" "e_EventID demo_event \<noteq> ''''" "e_OccurredAt demo_event = 1"
proof -
  have q: "RatString 10 = 10" "RatString 5 = 5" "ratFloat 10 = 10" "ratFloat 5 = 5" by code_simp+
  show "announces demo_row demo_event"
    using q unfolding announces_def
    by (intro conjI exI [of _ 10] exI [of _ 5])
      (simp_all add: demo_event_def tradeExecutedEvent_def newRepositoryEvent_def execution_row_of_def demo_execution_def ex_order_def)
  show "plain_trade demo_row" by code_simp
  show "trade_message demo_event = ex_trade"
    using q by (simp add: trade_message_def ex_trade_def demo_event_def tradeExecutedEvent_def newRepositoryEvent_def demo_execution_def
        ex_order_def empty_event_def)
  show "event_payload (\<lambda>_. ''now'') demo_event demo_payload" by (simp add: event_payload_def)
  show "e_EventID demo_event \<noteq> ''''" "e_OccurredAt demo_event = 1"
    by (simp_all add: demo_event_def tradeExecutedEvent_def newRepositoryEvent_def)
qed

lemma announced_trade_is_applied_witness:
  "ProcessOrderFilled ex_portfolio_service 5 (Some demo_payload) ex_books =
     and_then (ApplyTradeExecution (\<lambda>x y. x / y) 5 ex_trade 1000 (PayloadHash id ex_trade) ''portfolio.updated'' ex_books) (\<lambda>(result, d'). Inr d')"
  using announced_trade_is_applied [of demo_row demo_event "\<lambda>_. ''now''" demo_payload ex_portfolio_service 5 ex_books] demo_facts
  by (simp add: ex_portfolio_service_def NewPortfolioService_def zero_time_def execution_row_of_def demo_execution_def)

definition demo_message :: message where
  "demo_message = \<lparr>msg_topic = ''trade.executed'', msg_key = ''t:o-1'', msg_value = demo_event, msg_headers = []\<rparr>"

definition demo_db :: db where
  "demo_db = ex_db\<lparr>order_executions := [demo_row], order_events := [demo_event], order_outbox := [outbox_row_of demo_event ''b-1'' 1]\<rparr>"

lemma executions_settled_once_witness:
  "\<exists>p. settlement_step (\<lambda>_. ''now'') ex_portfolio_service [demo_message] ex_books p \<and> settled_once demo_row p"
proof -
  have ev: "is_trade demo_event" "e_EventType demo_event = ''trade.executed''"
    using demo_facts(1) by (simp_all add: is_trade_def announces_def)
  have ok: "exchange_ok (demo_db, [demo_message], {})"
    using demo_facts(1) ev
    by (simp add: exchange_ok_def announced_def outbox_in_step_def demo_db_def ex_db_def outbox_row_of_def demo_message_def)
  obtain res p where "ApplyTradeExecution (\<lambda>x y. x / y) 5 ex_trade (sp_initialCash ex_portfolio_service)
      (PayloadHash id ex_trade) ''portfolio.updated'' ex_books = Inr (res, p)" using ex_applies by blast
  then have "ProcessOrderFilled ex_portfolio_service 5 (Some demo_payload) ex_books = Inr p"
    using trade_message_processed [of demo_row demo_event "\<lambda>_. ''now''" demo_payload ex_portfolio_service 5 ex_books] demo_facts
    by (simp add: ex_portfolio_service_def NewPortfolioService_def zero_time_def execution_row_of_def demo_execution_def)
  then have st: "settlement_step (\<lambda>_. ''now'') ex_portfolio_service [demo_message] ex_books p"
    using demo_facts(4) by (intro ts_consumed [of demo_message]) (simp_all add: demo_message_def)
  have "list_all (\<lambda>x. settled_once x p) (order_executions demo_db)"
    by (rule executions_settled_once [OF rtranclp.rtrancl_refl ok r_into_rtranclp [of "settlement_step (\<lambda>_. ''now'') ex_portfolio_service [demo_message]", OF st] ex_books_inv, THEN conjunct1])
      (use demo_facts(2,6) in \<open>simp_all add: ex_books_def empty_pdb_def demo_db_def demo_message_def ex_portfolio_service_def NewPortfolioService_def\<close>)
  then show ?thesis using st by (auto simp: demo_db_def)
qed

end
