(* ===== verification/Spec2Isabelle.thy ===== *)
theory Spec2Isabelle
  imports OrderService OrderExpiry OrderOutbox StopTrigger PortfolioFacts PortfolioOutbox SurveillanceFacts AuditFacts NotificationFacts MarketData IdentityFacts TradeFlow
begin

text \<open>
  A verification development for the Go services of the TradeOps Intelligence Platform. All paths below
  are under \<open>src/services\<close>.

  The program. Seven services, each with its own PostgreSQL tables, exchange events over Kafka.
  The identity service registers users and issues the tokens that name user, tenant and roles. The order
  service takes orders, asks a risk engine in another process, matches accepted orders in price-time
  priority, amends, cancels and expires them, triggers stop orders, and writes one row of its outbox with
  each change; a publisher sends the outbox rows. The portfolio service consumes \<open>trade.executed\<close>, moves
  cash and shares between the accounts of the two sides, and has an outbox of its own. The surveillance
  service evaluates events of all services by rules and raises alerts, the notification service turns
  alerts into notifications over three channels, the audit service logs every event. The market data
  service stores ticks it receives over MQTT and publishes them; the order service reads them as the
  reference prices of stop orders.

  Order service (\<open>order-service/internal\<close>).
  \<^item> \<open>OrderDomain\<close>: \<open>domain/\<close>. The order record, its statuses, the transition table and the methods that
    fill, cancel, expire and amend; transitions absorb in terminal states and preserve the quantities.
  \<^item> \<open>Matching\<close>: \<open>matching/\<close>. Orders with exact rationals, the book, \<open>Sort\<close> and \<open>Match\<close>; conservation of
    quantity, priority, price rule, time in force, and when the engine panics.
  \<^item> \<open>OrderStore\<close>, \<open>OrderRepository\<close>: the tables of \<open>migrations/\<close> as a record of lists of rows, and every
    transaction and query of \<open>repository/\<close>. \<open>OrderFacts\<close> holds their frames and behaviour, \<open>OrderLedger\<close> the
    invariant that ties filled quantities to executions over any sequence of transactions.
  \<^item> \<open>RiskClient\<close>: \<open>risk/\<close>. Retries, validation of the answer, classification of failures; the locale
    \<open>pre_trade_risk_checker\<close> is what the order service relies on, interpreted on \<open>Evaluate\<close>.
  \<^item> \<open>OrderService\<close>: \<open>service/order_service.go\<close>, every method; who may do what, and the risk gate.
  \<^item> \<open>OrderExpiry\<close>: \<open>expiry/\<close>. Local time, the trading calendar, the batch and the worker's poll. Locales
    \<open>civil_zone\<close> (interpreted on zones of fixed offset) and \<open>trading_calendar\<close> (on the code's weekday calendar).
  \<^item> \<open>StopEvaluator\<close>, \<open>StopTrigger\<close>: \<open>stoptrigger/\<close>. The decision, the worker's poll, the market price
    consumer; the locale \<open>reference_prices_kept\<close> is the contract of the price store, interpreted on the table.
  \<^item> \<open>OrderOutbox\<close>: \<open>outbox/\<close>. Claims under a lease, marking, back-off, publisher; the publisher uses a record
    \<open>Store\<close> of operations under the locale \<open>outbox_store\<close>, interpreted on the repository.

  Portfolio service (\<open>portfolio-service/internal\<close>).
  \<^item> \<open>PortfolioStore\<close>, \<open>PortfolioRepository\<close>: \<open>domain/\<close>, \<open>idempotency/\<close>, the tables, every transaction and query
    of \<open>repository/\<close>. \<open>PortfolioFacts\<close>: settlement moves money and shares between exactly two accounts, balances
    stay non-negative, the ledger explains the balances, an execution is applied once.
  \<^item> \<open>PortfolioService\<close>: \<open>service/\<close>, \<open>kafka/consumer.go\<close>, \<open>consumerobs/\<close>. \<open>PortfolioOutbox\<close>: \<open>outbox/\<close>.

  From one to the other. \<open>TradeFlow\<close> has the JSON of \<open>domain.OrderEvent\<close> and composes the order service, its
  publishers and the portfolio service: an execution has exactly one \<open>trade.executed\<close> row in the outbox, the
  portfolio service reads that row's message as this execution, and whatever is sent again or reordered, its
  ledger holds entries of executions only, none or exactly two for each.

  Surveillance, audit and notification services.
  \<^item> \<open>EventConsumer\<close>: \<open>internal/kafka/consumer.go\<close>, of which each of the three has a copy. A service is a function
    on its state that may fail; the locale \<open>event_processor\<close> is what a consumer needs of it, interpreted in
    \<open>AuditFacts\<close> on \<open>AuditProcessEvent\<close>.
  \<^item> \<open>PgColumns\<close>: which values a text, UUID, INT or JSONB column takes.
  \<^item> \<open>SurveillanceRules\<close>: \<open>internal/service/rules.go\<close>, the engine with its windows. \<open>RuleSimulation\<close>:
    \<open>internal/simulation\<close>. \<open>RuleEngineFacts\<close>: the counting rules are sliding windows, and a simulation counts the
    alerts of the live engine. \<open>SurveillanceStore\<close>, \<open>SurveillanceService\<close>, \<open>SurveillanceFacts\<close>: the tables, the two
    services over them, and the invariant of alerts and rule configurations over any run.
  \<^item> \<open>AuditService\<close>, \<open>AuditFacts\<close>: normalisation, log, queries, exports; the log only grows, holds one row per
    event id, and an event ends in the log or the dead letter topic.
  \<^item> \<open>NotificationStore\<close>, \<open>NotificationService\<close>, \<open>NotificationFacts\<close>: tables, actions and their frames; the locale
    \<open>action_frame\<close> closes a frame under the composition of actions and is interpreted on the rows an action may
    move. The invariant of the tables, the fate of a notification, webhook attempts, preferences.

  Market data and identity.
  \<^item> \<open>MarketData\<close>: parsing, storing and publishing ticks; composed with \<open>StopTrigger\<close>: the tick that was stored is
    the price that stop orders read.
  \<^item> \<open>IdentityService\<close>, \<open>IdentityFacts\<close>: users, refresh tokens, access tokens and the request handlers; over any run
    of requests a logged out token never refreshes again, and one that was not refreshes until it expires.

  Shared: \<open>Prelude\<close> (strings, times, results, the list operations that stand for SQL statements), \<open>GoFloat\<close>
  (\<open>float64\<close> with its rounding, NUMERIC columns; the locale \<open>rounding\<close>, interpreted on the binary64 rounding and on
  the two decimal ones), \<open>GoText\<close> (printing numbers, JSON as \<open>json.Unmarshal\<close> reads it).

  Conventions. A transaction is a function from the tables to an error, which rolls back, or a result with the
  tables it commits; row locks and advisory locks are this atomicity. Where a service runs several statements
  without a transaction, the statements are single steps of one action, each may fail by the environment of the
  call, and what was written before the failure stays. Calls of one service run one after the other: a run is a
  sequence of operations in any order, and a run of claims with different clocks stands for several workers. What
  a check followed by an insert would do when another process interleaves is outside the model.
  Random and external input is an argument: clocks, UUID supplies, HTTP answers, failing statements,
  answers of the Kafka producer. Library functions without source here are parameters (\<open>pg_uuid\<close>, the RFC 3339
  printer and parser, SHA-256, bcrypt, HMAC and JSON web tokens, the JSON text of a value, the rounding scale of
  a NUMERIC quotient), and hypotheses on them are named definitions, such as \<open>jwt_laws\<close> and \<open>printed_uuids\<close>,
  or say that the text of a time is read back as that time.
  Strings are lists of bytes, so case mapping and trimming are exact for ASCII.

  Termination. Every loop of the code is a structural recursion or a \<open>function\<close> with a measure: retries count up
  to their limit, matching consumes makers. The one loop without a bound of its own, the search for a trading day,
  is a \<open>partial_function\<close>, and proved to return a close at most three days after the submission. No definition
  takes fuel.

  Not modelled. HTTP routing and the JSON of requests and responses (but for the handlers of the identity service),
  environment parsing, connections, the Kafka and MQTT clients under the producers and consumers, metrics, traces,
  logs and sleeps: input and output around the modelled operations, with no state of the services. The risk engine,
  the strategy service, the API gateway and the dashboard are Python and TypeScript programs. Deployment
  files, schemas and scripts have no operations.
\<close>

end
